(* ===== verification/Prelude.thy ===== *)
theory Prelude
  imports Main "HOL-Library.Word" "HOL-Library.Signed_Division" "HOL-Library.AList"
    "HOL-Library.Multiset"
begin

text \<open>
  Shared vocabulary of the development: the machine integers of the C++ code, the object
  representation of an integer as bytes, the standard-library containers and algorithms the
  code uses (\<open>std::unordered_map\<close>, \<open>std::stable_sort\<close>, bounded queues), and the generic
  lemmas about them that the component theories rely on.

  Conventions. An unsigned type of width w is a \<open>w word\<close>; a signed type is the same word read
  through \<open>sint\<close>. A \<open>std::size_t\<close> that counts elements or events is a \<open>nat\<close>: no run of the
  program makes 2^64 increments. Signed overflow is undefined behaviour in C++; the model
  computes the two's-complement result, and the bounds theorems show where it cannot occur.
\<close>

section \<open>Machine integers\<close>

type_synonym u8 = "8 word"
type_synonym u16 = "16 word"
type_synonym u32 = "32 word"
type_synonym u64 = "64 word"
type_synonym i8 = "8 word"
type_synonym i16 = "16 word"
type_synonym i32 = "32 word"
type_synonym i64 = "64 word"
type_synonym byte = "8 word"

named_theorems wrap_simps "arithmetic of 64-bit signed intermediate results"
named_theorems field_codecs "the field laws of the binary readers"

text \<open>A 64-bit signed intermediate result (\<open>std::int64_t\<close>), kept as an \<open>int\<close>.\<close>

definition wrap64 :: "int \<Rightarrow> int" where
  "wrap64 x = signed_take_bit 63 x"

text \<open>\<open>static_cast\<close> of a 64-bit signed value to a 32-bit (16-bit) signed one.\<close>

abbreviation cast_i32 :: "int \<Rightarrow> i32" where
  "cast_i32 x \<equiv> word_of_int x"

abbreviation cast_i16 :: "int \<Rightarrow> i16" where
  "cast_i16 x \<equiv> word_of_int x"

lemma wrap64_id [wrap_simps]: "- (2 ^ 63) \<le> x \<Longrightarrow> x < 2 ^ 63 \<Longrightarrow> wrap64 x = x"
  by (simp add: wrap64_def signed_take_bit_int_eq_self_iff)

lemma wrap64_range: "- (2 ^ 63) \<le> wrap64 x \<and> wrap64 x < 2 ^ 63"
  using signed_take_bit_int_greater_eq_minus_exp [of 63 x] signed_take_bit_int_less_exp [of 63 x]
  by (simp add: wrap64_def)

lemma sint_i32_range: "- (2 ^ 31) \<le> sint (x :: i32) \<and> sint x < 2 ^ 31"
  using sint_range_size [of x] by (simp add: word_size)

lemma sint_i16_range: "- (2 ^ 15) \<le> sint (x :: i16) \<and> sint x < 2 ^ 15"
  using sint_range_size [of x] by (simp add: word_size)

lemma sint_cast_i32 [wrap_simps]:
  "- (2 ^ 31) \<le> x \<Longrightarrow> x < 2 ^ 31 \<Longrightarrow> sint (cast_i32 x) = x"
  by (simp add: sint_sbintrunc' signed_take_bit_int_eq_self_iff)

lemma sint_cast_i16 [wrap_simps]:
  "- (2 ^ 15) \<le> x \<Longrightarrow> x < 2 ^ 15 \<Longrightarrow> sint (cast_i16 x) = x"
  by (simp add: sint_sbintrunc' signed_take_bit_int_eq_self_iff)

text \<open>Signed 32-bit addition is the mathematical one when the result is in range.\<close>

lemma sint_add_i32 [wrap_simps]:
  assumes "- (2 ^ 31) \<le> sint a + sint b" and "sint a + sint b < 2 ^ 31"
  shows "sint (a + b :: i32) = sint a + sint b"
proof -
  have "a + b = cast_i32 (sint a + sint b)" by simp
  then show ?thesis using assms by (metis sint_cast_i32)
qed

lemma sint_uminus_i32 [wrap_simps]:
  assumes "- (2 ^ 31) < sint a" shows "sint (- a :: i32) = - sint a"
proof -
  have "- a = cast_i32 (- sint a)" by simp
  then show ?thesis using assms sint_i32_range [of a] by (metis sint_cast_i32 minus_less_iff
        add.inverse_inverse neg_le_iff_le less_imp_le)
qed

section \<open>Division that truncates towards zero\<close>

text \<open>C++ integer division is \<open>sdiv\<close> on \<open>int\<close>; its rounding bounds.\<close>

lemma sdiv_nonneg_eq_div: "0 \<le> a \<Longrightarrow> 0 < b \<Longrightarrow> (a::int) sdiv b = a div b"
  by (cases "a = 0") (auto simp: signed_divide_int_def sgn_if)

lemma sdiv_neg_eq: "a < 0 \<Longrightarrow> 0 < b \<Longrightarrow> (a::int) sdiv b = - ((- a) div b)"
  by (simp add: signed_divide_int_def sgn_if)

lemma sdiv_abs_le: "0 < b \<Longrightarrow> \<bar>(a::int) sdiv b\<bar> \<le> \<bar>a\<bar>"
proof (cases "0 \<le> a")
  case True
  assume "0 < b"
  with True show ?thesis
    using zdiv_mono2 [of a 1 b] by (simp add: sdiv_nonneg_eq_div pos_imp_zdiv_nonneg_iff)
next
  case False
  assume "0 < b"
  with False show ?thesis
    using zdiv_mono2 [of "- a" 1 b] by (simp add: sdiv_neg_eq pos_imp_zdiv_nonneg_iff)
qed

lemma sdiv_mono: "0 < c \<Longrightarrow> a \<le> b \<Longrightarrow> (a::int) sdiv c \<le> b sdiv c"
proof -
  assume c: "0 < c" and ab: "a \<le> b"
  consider "0 \<le> a" | "a < 0" "0 \<le> b" | "b < 0" by linarith
  then show ?thesis
  proof cases
    case 1
    with c ab show ?thesis by (simp add: sdiv_nonneg_eq_div zdiv_mono1)
  next
    case 2
    then have "a sdiv c \<le> 0" "0 \<le> b sdiv c"
      using c by (simp_all add: sdiv_nonneg_eq_div sdiv_neg_eq pos_imp_zdiv_nonneg_iff)
    then show ?thesis by simp
  next
    case 3
    with ab c show ?thesis using zdiv_mono1 [of "- b" "- a" c] by (simp add: sdiv_neg_eq)
  qed
qed

lemma sdiv_mult_cancel: "0 < c \<Longrightarrow> ((a::int) * c) sdiv c = a"
  by (cases "0 \<le> a") (auto simp: sdiv_nonneg_eq_div sdiv_neg_eq mult_less_0_iff zdiv_zminus1_eq_if)

section \<open>Object representation of integers\<close>

text \<open>
  \<open>BinaryWriter::WritePod\<close> copies the object representation of a value. The targets (x86-64 and
  WebAssembly) are little endian, so a value of \<open>k\<close> bytes is its \<open>k\<close> base-256 digits, least
  significant first.
\<close>

fun le_bytes :: "nat \<Rightarrow> nat \<Rightarrow> byte list" where
  "le_bytes 0 n = []"
| "le_bytes (Suc k) n = word_of_nat (n mod 256) # le_bytes k (n div 256)"

fun le_value :: "byte list \<Rightarrow> nat" where
  "le_value [] = 0"
| "le_value (b # bs) = unat b + 256 * le_value bs"

lemma unat_byte_bound [simp]: "unat (b :: byte) < 256"
  using unsigned_less [of b, where ?'a = nat] by simp

lemma length_le_bytes [simp]: "length (le_bytes k n) = k"
  by (induction k arbitrary: n) auto

lemma le_value_le_bytes: "n < 256 ^ k \<Longrightarrow> le_value (le_bytes k n) = n"
proof (induction k arbitrary: n)
  case 0
  then show ?case by simp
next
  case (Suc k)
  then have "n div 256 < 256 ^ k"
    by (metis less_mult_imp_div_less mult.commute power_Suc)
  with Suc.IH show ?case by (simp add: unat_of_nat)
qed

lemma le_bytes_le_value: "length bs = k \<Longrightarrow> le_bytes k (le_value bs) = bs"
proof (induction bs arbitrary: k)
  case Nil
  then show ?case by simp
next
  case (Cons b bs)
  then obtain j where k: "k = Suc j" "length bs = j" by (cases k) auto
  have "(unat b + 256 * le_value bs) mod 256 = unat b"
    by (simp add: mod_less)
  moreover have "(unat b + 256 * le_value bs) div 256 = le_value bs"
    by (simp add: div_less)
  ultimately show ?case using Cons.IH k by simp
qed

lemma le_value_bound: "le_value bs < 256 ^ length bs"
proof (induction bs)
  case (Cons b bs)
  have "unat b < 256" by (rule unat_byte_bound)
  moreover have "Suc (le_value bs) \<le> 256 ^ length bs" using Cons by (simp add: Suc_leI)
  ultimately have "unat b + 256 * le_value bs < 256 * 256 ^ length bs" by linarith
  then show ?case by simp
qed simp

section \<open>Unordered maps\<close>

text \<open>
  \<open>std::unordered_map\<close> as an association list: \<open>find\<close> is \<open>map_of\<close>, \<open>m[k] = v\<close> is
  \<open>AList.update\<close>, \<open>erase\<close> is \<open>AList.delete\<close>, \<open>size\<close> is \<open>length\<close>. C++ leaves the iteration
  order open; here it is the order of the list, and the theorems hold for every list, that is,
  for every iteration order.
\<close>

type_synonym ('k, 'v) umap = "('k \<times> 'v) list"

abbreviation um_find :: "('k, 'v) umap \<Rightarrow> 'k \<Rightarrow> 'v option" where
  "um_find m k \<equiv> map_of m k"

abbreviation um_put :: "'k \<Rightarrow> 'v \<Rightarrow> ('k, 'v) umap \<Rightarrow> ('k, 'v) umap" where
  "um_put k v m \<equiv> AList.update k v m"

abbreviation um_erase :: "'k \<Rightarrow> ('k, 'v) umap \<Rightarrow> ('k, 'v) umap" where
  "um_erase k m \<equiv> AList.delete k m"

definition um_contains :: "('k, 'v) umap \<Rightarrow> 'k \<Rightarrow> bool" where
  "um_contains m k \<longleftrightarrow> um_find m k \<noteq> None"

definition um_ok :: "('k, 'v) umap \<Rightarrow> bool" where
  "um_ok m \<longleftrightarrow> distinct (map fst m)"

lemma um_find_put [simp]: "um_find (um_put k v m) k' = (if k' = k then Some v else um_find m k')"
  by (simp add: update_conv')

lemma um_find_erase [simp]: "um_find (um_erase k m) k' = (if k' = k then None else um_find m k')"
  by (simp add: delete_conv')

lemma um_ok_Nil [simp]: "um_ok []"
  by (simp add: um_ok_def)

lemma um_ok_put [simp]: "um_ok m \<Longrightarrow> um_ok (um_put k v m)"
  by (simp add: um_ok_def distinct_update)

lemma um_ok_erase [simp]: "um_ok m \<Longrightarrow> um_ok (um_erase k m)"
  by (simp add: um_ok_def distinct_delete)

lemma um_ok_find_iff: "um_ok m \<Longrightarrow> um_find m k = Some v \<longleftrightarrow> (k, v) \<in> set m"
  by (simp add: um_ok_def map_of_eq_Some_iff)

lemma um_contains_iff: "um_contains m k \<longleftrightarrow> k \<in> fst ` set m"
  by (simp add: um_contains_def map_of_eq_None_iff)

lemma length_um_put: "length (um_put k v m) = (if um_contains m k then length m else Suc (length m))"
  by (induction m) (auto simp: um_contains_def)

lemma length_um_erase_le: "length (um_erase k m) \<le> length m"
  by (simp add: length_delete_le)

section \<open>Stable sorting by a comparator\<close>

text \<open>
  \<open>std::stable_sort\<close> with a strict-weak-order comparator: the sorted permutation that keeps
  equivalent elements in their order. Insertion from the right computes it.
\<close>

fun stable_insert :: "('a \<Rightarrow> 'a \<Rightarrow> bool) \<Rightarrow> 'a \<Rightarrow> 'a list \<Rightarrow> 'a list" where
  "stable_insert lt x [] = [x]"
| "stable_insert lt x (y # ys) = (if lt y x then y # stable_insert lt x ys else x # y # ys)"

fun stable_sort :: "('a \<Rightarrow> 'a \<Rightarrow> bool) \<Rightarrow> 'a list \<Rightarrow> 'a list" where
  "stable_sort lt [] = []"
| "stable_sort lt (x # xs) = stable_insert lt x (stable_sort lt xs)"

lemma mset_stable_insert [simp]: "mset (stable_insert lt x xs) = add_mset x (mset xs)"
  by (induction xs) auto

lemma mset_stable_sort [simp]: "mset (stable_sort lt xs) = mset xs"
  by (induction xs) auto

lemma set_stable_sort [simp]: "set (stable_sort lt xs) = set xs"
  by (metis mset_stable_sort set_mset_mset)

lemma length_stable_sort [simp]: "length (stable_sort lt xs) = length xs"
  by (metis mset_stable_sort size_mset)

lemma set_stable_insert [simp]: "set (stable_insert lt x xs) = insert x (set xs)"
  by (induction xs) auto

definition strict_weak :: "('a \<Rightarrow> 'a \<Rightarrow> bool) \<Rightarrow> bool" where
  "strict_weak lt \<longleftrightarrow> (\<forall>x. \<not> lt x x) \<and> (\<forall>x y. lt x y \<longrightarrow> \<not> lt y x)
     \<and> (\<forall>x y z. \<not> lt x y \<longrightarrow> \<not> lt y z \<longrightarrow> \<not> lt x z)"

lemma sorted_stable_insert:
  assumes "strict_weak lt" and "sorted_wrt (\<lambda>x y. \<not> lt y x) xs"
  shows "sorted_wrt (\<lambda>x y. \<not> lt y x) (stable_insert lt x xs)"
  using assms(2)
proof (induction xs)
  case Nil
  then show ?case by simp
next
  case (Cons y ys)
  show ?case
  proof (cases "lt y x")
    case True
    then have "\<not> lt x y" using assms(1) unfolding strict_weak_def by blast
    with True Cons show ?thesis by auto
  next
    case False
    have "\<not> lt z x" if "z \<in> set ys" for z
    proof -
      have "\<not> lt z y" using that Cons.prems by simp
      with False show ?thesis using assms(1) unfolding strict_weak_def by blast
    qed
    with False Cons.prems show ?thesis by simp
  qed
qed

lemma sorted_stable_sort:
  "strict_weak lt \<Longrightarrow> sorted_wrt (\<lambda>x y. \<not> lt y x) (stable_sort lt xs)"
  by (induction xs) (simp_all add: sorted_stable_insert)

text \<open>Stability: the elements of any one equivalence class keep their order.\<close>

lemma filter_stable_insert:
  assumes "\<And>y. P y \<Longrightarrow> P x \<Longrightarrow> \<not> lt y x"
  shows "filter P (stable_insert lt x xs) = filter P (x # xs)"
  using assms by (induction xs) auto

lemma stable_sort_stable:
  assumes "\<And>x y. P x \<Longrightarrow> P y \<Longrightarrow> \<not> lt x y"
  shows "filter P (stable_sort lt xs) = filter P xs"
  using assms by (induction xs) (simp_all add: filter_stable_insert)

section \<open>Bounded queues\<close>

text \<open>\<open>while (q.size() > n) q.pop_front();\<close> drops from the front until \<open>n\<close> entries are left.\<close>

fun pop_front_to :: "nat \<Rightarrow> 'a list \<Rightarrow> 'a list" where
  "pop_front_to n [] = []"
| "pop_front_to n (x # xs) = (if length (x # xs) > n then pop_front_to n xs else x # xs)"

lemma pop_front_to_drop: "pop_front_to n xs = drop (length xs - n) xs"
  by (induction n xs rule: pop_front_to.induct) (auto simp: Suc_diff_le not_less)

lemma length_pop_front_to [simp]: "length (pop_front_to n xs) = min n (length xs)"
  by (simp add: pop_front_to_drop)

lemma set_pop_front_to_subset: "set (pop_front_to n xs) \<subseteq> set xs"
  by (simp add: pop_front_to_drop set_drop_subset)

lemma last_pop_front_to: "0 < n \<Longrightarrow> xs \<noteq> [] \<Longrightarrow> last (pop_front_to n xs) = last xs"
  by (simp add: pop_front_to_drop)

lemma pop_front_to_append: "pop_front_to n (pop_front_to n xs @ ys) = pop_front_to n (xs @ ys)"
proof -
  let ?k = "length xs - n"
  have "pop_front_to n xs @ ys = drop ?k (xs @ ys)" by (simp add: pop_front_to_drop)
  then have "pop_front_to n (pop_front_to n xs @ ys) =
      drop (length (drop ?k (xs @ ys)) - n) (drop ?k (xs @ ys))"
    by (simp add: pop_front_to_drop)
  also have "\<dots> = drop (length (drop ?k (xs @ ys)) - n + ?k) (xs @ ys)" by (simp only: drop_drop)
  also have "length (drop ?k (xs @ ys)) - n + ?k = length (xs @ ys) - n"
    by simp
  finally show ?thesis by (simp only: pop_front_to_drop)
qed

lemma sorted_pop_front_to: "sorted (map f xs) \<Longrightarrow> sorted (map f (pop_front_to n xs))"
  by (simp add: pop_front_to_drop sorted_wrt_drop flip: drop_map)

text \<open>A nested loop that never produces an element twice.\<close>

lemma distinct_concat_map:
  assumes "distinct ys" and "\<And>y. distinct (f y)"
    and "\<And>y z v. v \<in> set (f y) \<Longrightarrow> v \<in> set (f z) \<Longrightarrow> y = z"
  shows "distinct (concat (map f ys))"
  using assms(1)
proof (induction ys)
  case (Cons y ys)
  then show ?case using assms(2) by (auto dest: assms(3))
qed simp

text \<open>The last element with a property: the result of a loop that overwrites its result.\<close>

fun last_such :: "('a \<Rightarrow> bool) \<Rightarrow> 'a list \<Rightarrow> 'a option \<Rightarrow> 'a option" where
  "last_such P [] acc = acc"
| "last_such P (x # xs) acc = last_such P xs (if P x then Some x else acc)"

lemma last_such_filter:
  "last_such P xs acc = (if filter P xs = [] then acc else Some (last (filter P xs)))"
  by (induction xs arbitrary: acc) auto

end
