(* ===== verification/Binary_Reader.thy ===== *)
theory Binary_Reader
  imports Prelude "HOL-Library.Monad_Syntax"
begin

text \<open>
  The byte writers and readers. \<open>BinaryWriter\<close> and \<open>BinaryReader\<close> are classes of
  \<open>src/GameLogic/include/GameLogic/Serialization.hpp\<close>; the packet codec and the signaling codec
  of \<open>src/Networking\<close> carry readers of the same shape with their own error types, so the reader
  is polymorphic in the error. A reader never throws: a failed read returns \<open>nullopt\<close>, records
  an error and leaves the offset alone, and later reads still run.

  The locale \<open>field_codec\<close> is the contract between a writer and a reader of one field; the
  combinators at the end build the contract of a struct from those of its fields.
\<close>

section \<open>Readers\<close>

record 'e reader =
  rd_bytes :: "byte list"
  rd_offset :: nat
  rd_error :: 'e

definition rest_of :: "'e reader \<Rightarrow> byte list" where
  "rest_of r = drop (rd_offset r) (rd_bytes r)"

definition advance :: "nat \<Rightarrow> 'e reader \<Rightarrow> 'e reader" where
  "advance n r = r\<lparr>rd_offset := rd_offset r + n\<rparr>"

text \<open>\<open>sizeof\<close> of an integer type, from its width in bits.\<close>

definition pod_size :: "'a::len itself \<Rightarrow> nat" where
  "pod_size t = LENGTH('a) div 8"

definition pod_bytes :: "'a::len word \<Rightarrow> byte list" where
  "pod_bytes v = le_bytes (LENGTH('a) div 8) (unat v)"

text \<open>
  \<open>ReadPod\<close>, with the class's way of recording the error as a parameter: \<open>BinaryReader\<close> and
  \<open>SignalReader\<close> keep the first error, \<open>PacketReader\<close> overwrites it.
\<close>

definition read_pod :: "('e reader \<Rightarrow> 'e reader) \<Rightarrow> 'e reader \<Rightarrow> 'a::len word option \<times> 'e reader" where
  "read_pod fail_eof r =
     (let size = LENGTH('a) div 8
      in if rd_offset r + size > length (rd_bytes r) then (None, fail_eof r)
         else (Some (word_of_nat (le_value (take size (drop (rd_offset r) (rd_bytes r))))),
               advance size r))"

lemma advance_0 [simp]: "advance 0 r = r"
  by (simp add: advance_def)

lemma advance_advance [simp]: "advance m (advance n r) = advance (n + m) r"
  by (simp add: advance_def add.assoc)

lemma rest_of_advance: "rest_of (advance n r) = drop n (rest_of r)"
  by (simp add: advance_def rest_of_def add.commute)

lemma rest_of_advance_append: "rest_of r = xs @ ys \<Longrightarrow> rest_of (advance (length xs) r) = ys"
  by (simp add: rest_of_advance)

lemma rd_error_advance [simp]: "rd_error (advance n r) = rd_error r"
  by (simp add: advance_def)

lemma rd_bytes_advance [simp]: "rd_bytes (advance n r) = rd_bytes r"
  by (simp add: advance_def)

lemma rd_offset_advance [simp]: "rd_offset (advance n r) = rd_offset r + n"
  by (simp add: advance_def)

lemma length_pod_bytes [simp]: "length (pod_bytes (v :: 'a::len word)) = LENGTH('a) div 8"
  by (simp add: pod_bytes_def)

section \<open>The contract of a field\<close>

text \<open>
  \<open>A\<close> is the set of values that the writer writes as the reader expects. Reading what was
  written gives the value and stops right after it; a value that was read was written there.
\<close>

locale field_codec =
  fixes A :: "'a set" and enc :: "'a \<Rightarrow> byte list"
    and rd :: "'e reader \<Rightarrow> 'a option \<times> 'e reader"
  assumes read_written: "x \<in> A \<Longrightarrow> rest_of r = enc x @ ys \<Longrightarrow> rd r = (Some x, advance (length (enc x)) r)"
    and read_exact: "rd r = (Some x, r') \<Longrightarrow>
          x \<in> A \<and> r' = advance (length (enc x)) r \<and> (\<exists>ys. rest_of r = enc x @ ys)"
begin

lemma prefix_free: "x \<in> A \<Longrightarrow> y \<in> A \<Longrightarrow> enc x @ xs = enc y @ ys \<Longrightarrow> x = y"
proof -
  assume "x \<in> A" "y \<in> A" and eq: "enc x @ xs = enc y @ ys"
  define r :: "'e reader" where "r = \<lparr>rd_bytes = enc x @ xs, rd_offset = 0, rd_error = undefined\<rparr>"
  have "rest_of r = enc x @ xs" by (simp add: r_def rest_of_def)
  then have "rd r = (Some x, advance (length (enc x)) r)" by (rule read_written [OF \<open>x \<in> A\<close>])
  moreover have "rest_of r = enc y @ ys" by (simp add: r_def rest_of_def eq)
  then have "rd r = (Some y, advance (length (enc y)) r)" by (rule read_written [OF \<open>y \<in> A\<close>])
  ultimately show "x = y" by simp
qed

lemma enc_inj: "x \<in> A \<Longrightarrow> y \<in> A \<Longrightarrow> enc x = enc y \<Longrightarrow> x = y"
  using prefix_free [of x y "[]" "[]"] by simp

text \<open>
  A whole message: open a reader on the bytes, read the value, and accept it when no byte is
  left. The message decodes to \<open>x\<close> exactly when it is the encoding of \<open>x\<close>.
\<close>

lemma decode_iff:
  "(\<exists>r'. rd \<lparr>rd_bytes = bs, rd_offset = 0, rd_error = e\<rparr> = (Some x, r') \<and> rd_offset r' = length bs)
     \<longleftrightarrow> x \<in> A \<and> bs = enc x"
proof
  assume "x \<in> A \<and> bs = enc x"
  then show "\<exists>r'. rd \<lparr>rd_bytes = bs, rd_offset = 0, rd_error = e\<rparr> = (Some x, r')
       \<and> rd_offset r' = length bs"
    using read_written [of x "\<lparr>rd_bytes = bs, rd_offset = 0, rd_error = e\<rparr>" "[]"]
    by (auto simp: rest_of_def)
next
  assume "\<exists>r'. rd \<lparr>rd_bytes = bs, rd_offset = 0, rd_error = e\<rparr> = (Some x, r')
       \<and> rd_offset r' = length bs"
  then show "x \<in> A \<and> bs = enc x"
    by (auto dest!: read_exact simp: rest_of_def)
qed

lemma read_error: "rd r = (Some x, r') \<Longrightarrow> rd_error r' = rd_error r"
  by (auto dest: read_exact)

end

section \<open>Building codecs from codecs\<close>

text \<open>
  Two reads in a row: both always run, and the pair is there when both values are. This is how
  the deserializers read: all the fields first, the \<open>has_value\<close> checks afterwards.
\<close>

definition read_pair ::
    "('e reader \<Rightarrow> 'a option \<times> 'e reader) \<Rightarrow> ('e reader \<Rightarrow> 'b option \<times> 'e reader)
     \<Rightarrow> 'e reader \<Rightarrow> ('a \<times> 'b) option \<times> 'e reader" where
  "read_pair p q r =
     (let (a, r1) = p r; (b, r2) = q r1
      in (do { x \<leftarrow> a; y \<leftarrow> b; Some (x, y) }, r2))"

definition read_map ::
    "('a \<Rightarrow> 'b) \<Rightarrow> ('e reader \<Rightarrow> 'a option \<times> 'e reader) \<Rightarrow> 'e reader \<Rightarrow> 'b option \<times> 'e reader" where
  "read_map f p r = (let (a, r1) = p r in (map_option f a, r1))"

lemma field_codec_pair [field_codecs]:
  fixes p :: "'e reader \<Rightarrow> 'a option \<times> 'e reader" and q :: "'e reader \<Rightarrow> 'b option \<times> 'e reader"
  assumes "field_codec A e1 p" and "field_codec B e2 q"
  shows "field_codec (A \<times> B) (\<lambda>(x, y). e1 x @ e2 y) (read_pair p q)"
proof
  fix z :: "'a \<times> 'b" and r :: "'e reader" and ys
  assume "z \<in> A \<times> B" and rest: "rest_of r = (case z of (x, y) \<Rightarrow> e1 x @ e2 y) @ ys"
  then obtain x y where z: "z = (x, y)" "x \<in> A" "y \<in> B" by auto
  have p: "p r = (Some x, advance (length (e1 x)) r)"
    using rest z by (intro field_codec.read_written [OF assms(1)]) auto
  have "q (advance (length (e1 x)) r) =
      (Some y, advance (length (e2 y)) (advance (length (e1 x)) r))"
    using rest z by (intro field_codec.read_written [OF assms(2)]) (auto simp: rest_of_advance)
  with p z show "read_pair p q r =
      (Some z, advance (length (case z of (x, y) \<Rightarrow> e1 x @ e2 y)) r)"
    by (simp add: read_pair_def)
next
  fix z r r'
  assume "read_pair p q r = (Some z, r')"
  then obtain x y r1 where pq: "p r = (Some x, r1)" "q r1 = (Some y, r')" "z = (x, y)"
    by (auto simp: read_pair_def bind_eq_Some_conv split: prod.splits)
  note 1 = field_codec.read_exact [OF assms(1) pq(1)]
  note 2 = field_codec.read_exact [OF assms(2) pq(2)]
  from 1 2 pq(3) show "z \<in> A \<times> B \<and> r' = advance (length (case z of (x, y) \<Rightarrow> e1 x @ e2 y)) r
      \<and> (\<exists>ys. rest_of r = (case z of (x, y) \<Rightarrow> e1 x @ e2 y) @ ys)"
    by (auto simp: rest_of_advance)
qed

text \<open>A bijective view of the value (a tuple as a record, a word as an enum).\<close>

lemma field_codec_map:
  fixes p :: "'e reader \<Rightarrow> 'a option \<times> 'e reader"
  assumes "field_codec A e p" and "\<And>x. x \<in> A \<Longrightarrow> g (f x) = x" and "\<And>y. y \<in> B \<Longrightarrow> f (g y) = y"
    and "\<And>x. x \<in> A \<Longrightarrow> f x \<in> B" and "\<And>y. y \<in> B \<Longrightarrow> g y \<in> A"
  shows "field_codec B (\<lambda>y. e (g y)) (read_map f p)"
proof
  fix y and r :: "'e reader" and ys
  assume "y \<in> B" and "rest_of r = e (g y) @ ys"
  then have "p r = (Some (g y), advance (length (e (g y))) r)"
    using assms(5) by (intro field_codec.read_written [OF assms(1)]) auto
  then show "read_map f p r = (Some y, advance (length (e (g y))) r)"
    using \<open>y \<in> B\<close> assms(3) by (simp add: read_map_def)
next
  fix y r r'
  assume "read_map f p r = (Some y, r')"
  then obtain x where x: "p r = (Some x, r')" "y = f x"
    by (auto simp: read_map_def split: prod.splits option.splits)
  with field_codec.read_exact [OF assms(1) x(1)] assms
  show "y \<in> B \<and> r' = advance (length (e (g y))) r \<and> (\<exists>ys. rest_of r = e (g y) @ ys)" by auto
qed

lemma field_codec_cong:
  assumes "field_codec A e p" and "\<And>x. x \<in> A \<Longrightarrow> e x = e' x" and "\<And>r. p r = p' r"
  shows "field_codec A e' p'"
  using assms unfolding field_codec_def by (metis (no_types, lifting))

text \<open>Readers that differ only in the state a failed read leaves behind.\<close>

lemma field_codec_cong_some:
  fixes p p' :: "'e reader \<Rightarrow> 'a option \<times> 'e reader"
  assumes "field_codec A e p" and e: "\<And>x. x \<in> A \<Longrightarrow> e x = e' x"
    and p: "\<And>r x r'. p r = (Some x, r') \<longleftrightarrow> p' r = (Some x, r')"
  shows "field_codec A e' p'"
proof
  fix x and r :: "'e reader" and ys
  assume x: "x \<in> A" and "rest_of r = e' x @ ys"
  then have "rest_of r = e x @ ys" by (simp add: e)
  from field_codec.read_written [OF assms(1) x this]
  show "p' r = (Some x, advance (length (e' x)) r)" by (simp add: p e x)
next
  fix x and r r' :: "'e reader"
  assume "p' r = (Some x, r')"
  then have "p r = (Some x, r')" by (simp add: p)
  from field_codec.read_exact [OF assms(1) this]
  show "x \<in> A \<and> r' = advance (length (e' x)) r \<and> (\<exists>ys. rest_of r = e' x @ ys)" by (auto simp: e)
qed

text \<open>
  The form the struct proofs use: the reader is the reader of the field tuple \<open>p\<close>, seen through
  the bijection \<open>f\<close>, \<open>g\<close> between tuples and structs.
\<close>

lemma field_codec_struct:
  fixes p :: "'e reader \<Rightarrow> 'a option \<times> 'e reader"
  assumes "field_codec A e p" and "A = UNIV" and "\<And>x. g (f x) = x" and "\<And>y. f (g y) = y"
    and "\<And>y. e (g y) = e' y" and "\<And>r. read_map f p r = p' r"
  shows "field_codec UNIV e' p'"
proof (rule field_codec_cong)
  show "field_codec UNIV (\<lambda>y. e (g y)) (read_map f p)"
    using assms(1-4) by (intro field_codec_map [where A = A]) auto
qed (simp_all add: assms(5,6))

text \<open>The same for one constructor \<open>f\<close> of a datatype.\<close>

lemma field_codec_view:
  fixes p :: "'e reader \<Rightarrow> 'a option \<times> 'e reader"
  assumes "field_codec A e p" and "A = UNIV" and "\<And>x. g (f x) = x" and "\<And>y. y \<in> B \<Longrightarrow> f (g y) = y"
    and "\<And>x. f x \<in> B" and "\<And>x. e x = e' (f x)"
    and "\<And>r. read_map f p r = p' r"
  shows "field_codec B e' p'"
proof (rule field_codec_cong)
  show "field_codec B (\<lambda>y. e (g y)) (read_map f p)"
    using assms(1-5) by (intro field_codec_map [where A = A]) auto
  show "e (g y) = e' y" if "y \<in> B" for y
    using assms(4) [OF that] assms(6) [of "g y"] by simp
qed (simp add: assms(7))

text \<open>Integers of a whole number of bytes.\<close>

lemma field_codec_pod:
  fixes fail :: "'e reader \<Rightarrow> 'e reader"
  assumes "LENGTH('a::len) = 8 * (LENGTH('a) div 8)"
  shows "field_codec UNIV (pod_bytes :: 'a word \<Rightarrow> byte list) (read_pod fail)"
proof
  let ?k = "LENGTH('a) div 8"
  have pow: "(256::nat) ^ ?k = 2 ^ LENGTH('a)"
    by (subst assms) (simp add: power_mult)
  have pos: "0 < ?k" using assms by (metis len_gt_0 mult_0_right neq0_conv)
  fix x :: "'a word" and r :: "'e reader" and ys
  {
    assume rest: "rest_of r = pod_bytes x @ ys"
    have len: "length (rest_of r) \<ge> ?k" using rest by simp
    then have off: "rd_offset r + ?k \<le> length (rd_bytes r)"
      using pos by (simp add: rest_of_def)
    have "take ?k (drop (rd_offset r) (rd_bytes r)) = pod_bytes x"
      using rest by (simp add: rest_of_def)
    moreover have "le_value (pod_bytes x) = unat x"
      using unsigned_less [of x, where ?'a = nat] by (simp add: pod_bytes_def le_value_le_bytes pow)
    ultimately show "read_pod fail r = (Some x, advance (length (pod_bytes x)) r)"
      using off by (simp add: read_pod_def)
  }
  fix r'
  assume rd: "read_pod fail r = (Some x, r')"
  let ?b = "take ?k (drop (rd_offset r) (rd_bytes r))"
  have off: "rd_offset r + ?k \<le> length (rd_bytes r)"
    and x: "x = word_of_nat (le_value ?b)" and r': "r' = advance ?k r"
    using rd by (auto simp: read_pod_def Let_def split: if_splits)
  have lb: "length ?b = ?k" using off by simp
  have "le_value ?b < 2 ^ LENGTH('a)"
    using le_value_bound [of ?b] lb pow by simp
  then have "unat x = le_value ?b" using x by (simp add: unat_of_nat)
  then have "pod_bytes x = ?b" using lb by (simp add: pod_bytes_def le_bytes_le_value)
  then have "rest_of r = pod_bytes x @ drop ?k (rest_of r)"
    by (simp add: rest_of_def del: drop_drop)
  then show "x \<in> UNIV \<and> r' = advance (length (pod_bytes x)) r \<and> (\<exists>ys. rest_of r = pod_bytes x @ ys)"
    using r' by auto
qed

text \<open>A read that depends on the value read before it and only runs when there is one.\<close>

definition read_dep ::
    "('e reader \<Rightarrow> 'a option \<times> 'e reader) \<Rightarrow> ('a \<Rightarrow> 'e reader \<Rightarrow> 'b option \<times> 'e reader)
     \<Rightarrow> 'e reader \<Rightarrow> 'b option \<times> 'e reader" where
  "read_dep p q r = (case p r of (None, r1) \<Rightarrow> (None, r1) | (Some x, r1) \<Rightarrow> q x r1)"

lemma field_codec_dep:
  fixes p :: "'e reader \<Rightarrow> 'a option \<times> 'e reader"
    and q :: "'a \<Rightarrow> 'e reader \<Rightarrow> 'b option \<times> 'e reader"
  assumes "field_codec A e1 p" and "\<And>x. x \<in> A \<Longrightarrow> field_codec (B x) (e2 x) (q x)"
    and "\<And>y. y \<in> C \<Longrightarrow> h y \<in> A \<and> y \<in> B (h y)" and "\<And>x y. x \<in> A \<Longrightarrow> y \<in> B x \<Longrightarrow> y \<in> C \<and> h y = x"
  shows "field_codec C (\<lambda>y. e1 (h y) @ e2 (h y) y) (read_dep p q)"
proof
  fix y and r :: "'e reader" and ys
  assume y: "y \<in> C" and rest: "rest_of r = (e1 (h y) @ e2 (h y) y) @ ys"
  have p: "p r = (Some (h y), advance (length (e1 (h y))) r)"
    using rest assms(3) [OF y] by (intro field_codec.read_written [OF assms(1)]) auto
  have "q (h y) (advance (length (e1 (h y))) r) =
      (Some y, advance (length (e2 (h y) y)) (advance (length (e1 (h y))) r))"
    using rest assms(3) [OF y]
    by (intro field_codec.read_written [OF assms(2)]) (auto simp: rest_of_advance)
  with p show "read_dep p q r = (Some y, advance (length (e1 (h y) @ e2 (h y) y)) r)"
    by (simp add: read_dep_def)
next
  fix y r r'
  assume "read_dep p q r = (Some y, r')"
  then obtain x r1 where pq: "p r = (Some x, r1)" "q x r1 = (Some y, r')"
    by (auto simp: read_dep_def split: prod.splits option.splits)
  note 1 = field_codec.read_exact [OF assms(1) pq(1)]
  note 2 = field_codec.read_exact [OF assms(2) pq(2)]
  from 1 2 have "y \<in> C \<and> h y = x" by (auto dest: assms(4))
  with 1 2 show "y \<in> C \<and> r' = advance (length (e1 (h y) @ e2 (h y) y)) r
      \<and> (\<exists>ys. rest_of r = (e1 (h y) @ e2 (h y) y) @ ys)"
    by (auto simp: rest_of_advance)
qed

text \<open>
  A block of bytes after its 32-bit length, as the packet codec writes payloads and the signaling
  codec writes strings.
\<close>

definition counted_bytes :: "byte list \<Rightarrow> byte list" where
  "counted_bytes p = pod_bytes (of_nat (length p) :: u32) @ p"

lemma field_codec_counted:
  fixes pod :: "'e reader \<Rightarrow> u32 option \<times> 'e reader" and rd :: "'e reader \<Rightarrow> byte list option \<times> 'e reader"
  assumes pod: "field_codec UNIV pod_bytes pod" and mx: "mx < 2 ^ 32"
    and rd: "\<And>r x r'. rd r = (Some x, r') \<longleftrightarrow> (\<exists>n r1. pod r = (Some n, r1) \<and> unat n \<le> mx
        \<and> rd_offset r1 + unat n \<le> length (rd_bytes r1)
        \<and> x = take (unat n) (rest_of r1) \<and> r' = advance (unat n) r1)"
  shows "field_codec {p. length p \<le> mx} counted_bytes rd"
proof
  fix x and r :: "'e reader" and ys
  assume x: "x \<in> {p. length p \<le> mx}" and rest: "rest_of r = counted_bytes x @ ys"
  let ?n = "of_nat (length x) :: u32"
  let ?r1 = "advance (length (pod_bytes ?n)) r"
  have n: "unat ?n = length x" using x mx by (simp add: unat_of_nat)
  have p: "pod r = (Some ?n, ?r1)"
    by (rule field_codec.read_written [OF pod UNIV_I]) (use rest in \<open>simp add: counted_bytes_def\<close>)
  have rest1: "rest_of ?r1 = x @ ys"
    by (rule rest_of_advance_append) (use rest in \<open>simp add: counted_bytes_def\<close>)
  have len: "length (rest_of ?r1) = length (rd_bytes ?r1) - rd_offset ?r1"
    by (simp add: rest_of_def)
  have room: "rd_offset ?r1 + length x \<le> length (rd_bytes ?r1)"
  proof (cases "x = []")
    case True
    have "length (rest_of r) = length (rd_bytes r) - rd_offset r" by (simp add: rest_of_def)
    then have "rd_offset r + 4 \<le> length (rd_bytes r)"
      using rest by (simp add: counted_bytes_def)
    then show ?thesis using True by simp
  next
    case False
    then show ?thesis using len rest1 by (cases "rd_offset ?r1 \<le> length (rd_bytes ?r1)") simp_all
  qed
  show "rd r = (Some x, advance (length (counted_bytes x)) r)"
    unfolding rd
    by (rule exI [of _ ?n], rule exI [of _ ?r1])
      (use p n x room rest1 in \<open>simp add: counted_bytes_def\<close>)
next
  fix x and r r' :: "'e reader"
  assume "rd r = (Some x, r')"
  then obtain n r1 where n: "pod r = (Some n, r1)" "unat n \<le> mx"
      "rd_offset r1 + unat n \<le> length (rd_bytes r1)" "x = take (unat n) (rest_of r1)"
      "r' = advance (unat n) r1"
    unfolding rd by blast
  from field_codec.read_exact [OF pod n(1)] obtain ys
    where e: "r1 = advance (length (pod_bytes n)) r" "rest_of r = pod_bytes n @ ys" by blast
  have ys: "rest_of r1 = ys" unfolding e(1) by (rule rest_of_advance_append) (rule e(2))
  have lx: "length x = unat n" using n(3,4) by (simp add: rest_of_def)
  have "(of_nat (length x) :: u32) = n" by (simp add: lx)
  moreover have "ys = x @ drop (unat n) ys" using n(4) ys by simp
  ultimately show "x \<in> {p. length p \<le> mx} \<and> r' = advance (length (counted_bytes x)) r
      \<and> (\<exists>ys. rest_of r = counted_bytes x @ ys)"
    using n(2,5) e lx by (auto simp: counted_bytes_def)
qed

end
