(* ===== verification/Game_Types.thy ===== *)
theory Game_Types
  imports Prelude
begin

text \<open>
  The data of the game logic, as the headers of \<open>src/GameLogic/include/GameLogic\<close> declare it:
  identifiers and times (\<open>Types.hpp\<close>), fixed-point numbers (\<open>FixedPoint.hpp\<close>, \<open>Math.hpp\<close>),
  commands (\<open>Commands.hpp\<close>), weapons (\<open>Weapons.hpp\<close>), the snapshot DTOs
  (\<open>Replication.hpp\<close>), domain events (\<open>Events.hpp\<close>), network events
  (\<open>NetworkEvents.hpp\<close>) and time-sync messages (\<open>TimeSync.hpp\<close>). A struct is a record whose
  field names carry a short prefix for the struct, since several structs share field names; an
  enum class is a datatype with its underlying value; a \<open>std::variant\<close> is a datatype.
\<close>

section \<open>Identifiers and times\<close>

type_synonym ClientId = u32
type_synonym CommandSequence = u32
type_synonym NetworkEventId = u32
type_synonym SnapshotId = u32
type_synonym Tick = u64
type_synonym TimestampMs = u64
type_synonym NetworkEntityId = u32

definition kInvalidNetworkEntity :: NetworkEntityId where
  "kInvalidNetworkEntity = 0"

section \<open>Fixed-point numbers\<close>

type_synonym Fixed = i32

definition kFixedOne :: Fixed where
  "kFixedOne = 1000"

definition PixelsToFixed :: "i32 \<Rightarrow> Fixed" where
  "PixelsToFixed pixels = pixels * kFixedOne"

definition FixedToPixels :: "Fixed \<Rightarrow> i32" where
  "FixedToPixels v = cast_i32 (sint v sdiv sint kFixedOne)"

definition FixedMulRatio :: "Fixed \<Rightarrow> i32 \<Rightarrow> i32 \<Rightarrow> Fixed" where
  "FixedMulRatio v num den = cast_i32 (wrap64 (sint v * sint num) sdiv sint den)"

text \<open>\<open>std::clamp\<close> on signed 32-bit values: the tests in the library's order.\<close>

definition ClampFixed :: "Fixed \<Rightarrow> Fixed \<Rightarrow> Fixed \<Rightarrow> Fixed" where
  "ClampFixed v lo hi = (if sint v < sint lo then lo else if sint hi < sint v then hi else v)"

lemma ClampFixed_range:
  assumes "sint lo \<le> sint hi"
  shows "sint lo \<le> sint (ClampFixed v lo hi)" and "sint (ClampFixed v lo hi) \<le> sint hi"
  using assms by (auto simp: ClampFixed_def)

lemma ClampFixed_id: "sint lo \<le> sint v \<Longrightarrow> sint v \<le> sint hi \<Longrightarrow> ClampFixed v lo hi = v"
  by (simp add: ClampFixed_def)

record Vec2Input =
  in_x :: i16
  in_y :: i16

text \<open>
  \<open>NormalizeDigitalInput\<close>: the sign of each axis, 1000 for one axis and 707 for each of two.
\<close>

definition digital_sign :: "i8 \<Rightarrow> int" where
  "digital_sign m = (if sint m > 0 then 1 else 0) - (if sint m < 0 then 1 else 0)"

definition NormalizeDigitalInput :: "i8 \<Rightarrow> i8 \<Rightarrow> Vec2Input" where
  "NormalizeDigitalInput moveX moveY =
     (let clampedX = digital_sign moveX; clampedY = digital_sign moveY
      in if clampedX \<noteq> 0 \<and> clampedY \<noteq> 0
         then \<lparr>in_x = cast_i16 (clampedX * 707), in_y = cast_i16 (clampedY * 707)\<rparr>
         else \<lparr>in_x = cast_i16 (clampedX * 1000), in_y = cast_i16 (clampedY * 1000)\<rparr>)"

lemma digital_sign_cases: "digital_sign m = -1 \<or> digital_sign m = 0 \<or> digital_sign m = 1"
  by (auto simp: digital_sign_def)

section \<open>Commands\<close>

record CommandHeader =
  hd_clientId :: ClientId
  hd_sequence :: CommandSequence
  hd_clientTimestampMs :: TimestampMs

record LoginCommand =
  lg_header :: CommandHeader

record InputFrame =
  if_moveX :: i8
  if_moveY :: i8
  if_aimX :: i16
  if_aimY :: i16
  if_fire :: bool

definition default_InputFrame :: InputFrame where
  "default_InputFrame = \<lparr>if_moveX = 0, if_moveY = 0, if_aimX = 1000, if_aimY = 0, if_fire = False\<rparr>"

record ClientInputPacket =
  ip_header :: CommandHeader
  ip_input :: InputFrame

section \<open>Weapons\<close>

datatype WeaponType = WeaponNone | WeaponBow

definition kWeaponTypeCount :: nat where
  "kWeaponTypeCount = 2"

record WeaponDefinition =
  wd_type :: WeaponType
  wd_warmupMs :: TimestampMs
  wd_projectileSpeedPerSecond :: Fixed
  wd_projectileLifetimeMs :: TimestampMs
  wd_damage :: i32
  wd_serverSpawnedProjectile :: bool

type_synonym WeaponDefinitionTable = "WeaponDefinition list"

fun DefaultWeaponDefinition :: "WeaponType \<Rightarrow> WeaponDefinition" where
  "DefaultWeaponDefinition WeaponBow =
     \<lparr>wd_type = WeaponBow, wd_warmupMs = 300, wd_projectileSpeedPerSecond = PixelsToFixed 900,
      wd_projectileLifetimeMs = 2000, wd_damage = 35, wd_serverSpawnedProjectile = True\<rparr>"
| "DefaultWeaponDefinition WeaponNone =
     \<lparr>wd_type = WeaponNone, wd_warmupMs = 0, wd_projectileSpeedPerSecond = 0,
      wd_projectileLifetimeMs = 0, wd_damage = 0, wd_serverSpawnedProjectile = False\<rparr>"

definition DefaultWeaponDefinitions :: WeaponDefinitionTable where
  "DefaultWeaponDefinitions =
     [DefaultWeaponDefinition WeaponNone, DefaultWeaponDefinition WeaponBow]"

fun FindWeaponDefinition :: "WeaponDefinitionTable \<Rightarrow> WeaponType \<Rightarrow> WeaponDefinition option" where
  "FindWeaponDefinition [] t = None"
| "FindWeaponDefinition (d # ds) t = (if wd_type d = t then Some d else FindWeaponDefinition ds t)"

lemma FindWeaponDefinition_Some:
  "FindWeaponDefinition ds t = Some d \<Longrightarrow> d \<in> set ds \<and> wd_type d = t"
  by (induction ds) (auto split: if_splits)

lemma FindWeaponDefinition_None:
  "FindWeaponDefinition ds t = None \<longleftrightarrow> (\<forall>d\<in>set ds. wd_type d \<noteq> t)"
  by (induction ds) auto

section \<open>Replication DTOs\<close>

datatype SnapshotPriority = Low | Medium | High

fun priority_value :: "SnapshotPriority \<Rightarrow> nat" where
  "priority_value Low = 0"
| "priority_value Medium = 1"
| "priority_value High = 2"

text \<open>The enumerators are ordered by their underlying values, as \<open>BetterPriority\<close> compares them.\<close>

instantiation SnapshotPriority :: linorder
begin

definition less_eq_SnapshotPriority :: "SnapshotPriority \<Rightarrow> SnapshotPriority \<Rightarrow> bool" where
  "less_eq_SnapshotPriority p q \<longleftrightarrow> priority_value p \<le> priority_value q"

definition less_SnapshotPriority :: "SnapshotPriority \<Rightarrow> SnapshotPriority \<Rightarrow> bool" where
  "less_SnapshotPriority p q \<longleftrightarrow> priority_value p < priority_value q"

instance
proof
  fix x y :: SnapshotPriority
  assume "x \<le> y" and "y \<le> x"
  then show "x = y" by (cases x; cases y) (simp_all add: less_eq_SnapshotPriority_def)
qed (auto simp: less_eq_SnapshotPriority_def less_SnapshotPriority_def)

end

datatype ReplicatedEntityKind = Player | Projectile

datatype SnapshotDeliveryKind = Full | DeltaEligible

record MovementStateDTO =
  mv_entityId :: NetworkEntityId
  mv_x :: Fixed
  mv_y :: Fixed
  mv_vx :: Fixed
  mv_vy :: Fixed
  mv_aimX :: i16
  mv_aimY :: i16

record CombatStateDTO =
  cb_entityId :: NetworkEntityId
  cb_health :: i32
  cb_maxHealth :: i32
  cb_weaponType :: WeaponType
  cb_weaponWarming :: bool
  cb_weaponWarmupCompletesAtMs :: TimestampMs
  cb_defeated :: bool
  cb_respawnAtMs :: TimestampMs
  cb_serverOwnedProjectile :: bool
  cb_projectileOwnerId :: NetworkEntityId

definition default_CombatStateDTO :: CombatStateDTO where
  "default_CombatStateDTO =
     \<lparr>cb_entityId = 0, cb_health = 100, cb_maxHealth = 100, cb_weaponType = WeaponNone,
      cb_weaponWarming = False, cb_weaponWarmupCompletesAtMs = 0, cb_defeated = False,
      cb_respawnAtMs = 0, cb_serverOwnedProjectile = False, cb_projectileOwnerId = 0\<rparr>"

record ReplicationStateDTO =
  rp_entityId :: NetworkEntityId
  rp_ownerClientId :: ClientId
  rp_kind :: ReplicatedEntityKind
  rp_priority :: SnapshotPriority

record EntityStateDTO =
  es_movement :: MovementStateDTO
  es_combat :: "CombatStateDTO option"
  es_replication :: ReplicationStateDTO

record SnapshotDTO =
  sn_snapshotId :: SnapshotId
  sn_baselineId :: SnapshotId
  sn_deliveryKind :: SnapshotDeliveryKind
  sn_serverTick :: Tick
  sn_serverTimeMs :: TimestampMs
  sn_ackedInputSequence :: CommandSequence
  sn_entities :: "EntityStateDTO list"

record SnapshotAckDTO =
  sa_clientId :: ClientId
  sa_snapshotId :: SnapshotId
  sa_baselineId :: SnapshotId
  sa_ackedInputSequence :: CommandSequence
  sa_clientReceivedAtMs :: TimestampMs

abbreviation entity_ids :: "SnapshotDTO \<Rightarrow> NetworkEntityId list" where
  "entity_ids s \<equiv> map (rp_entityId \<circ> es_replication) (sn_entities s)"

section \<open>Domain events\<close>

datatype DomainEvent =
    PlayerSpawned NetworkEntityId ClientId Fixed Fixed
  | PlayerMoved NetworkEntityId Fixed Fixed Fixed Fixed
  | WeaponWarmupStarted NetworkEntityId TimestampMs TimestampMs WeaponType
  | WeaponFired NetworkEntityId TimestampMs WeaponType
  | ProjectileSpawned NetworkEntityId NetworkEntityId Fixed Fixed WeaponType
  | HitConfirmed NetworkEntityId NetworkEntityId NetworkEntityId TimestampMs
  | PlayerDamaged NetworkEntityId NetworkEntityId i32 i32
  | PlayerDied NetworkEntityId NetworkEntityId TimestampMs
  | PlayerRespawned NetworkEntityId Fixed Fixed
  | EntityEnteredInterest NetworkEntityId ClientId
  | EntityLeftInterest NetworkEntityId ClientId
  | SnapshotApplied SnapshotId SnapshotId CommandSequence
  | LocalPredictionCorrected NetworkEntityId Fixed Fixed Fixed Fixed

type_synonym EventList = "DomainEvent list"

section \<open>Network events\<close>

datatype NetworkEventKind =
    Kind_PlayerSpawned | Kind_WeaponWarmupStarted | Kind_BowFired | Kind_ProjectileSpawned
  | Kind_HitConfirmed | Kind_PlayerDamaged | Kind_PlayerDied | Kind_PlayerRespawned
  | Kind_EntityEnteredInterest | Kind_EntityLeftInterest

datatype NetworkEventPayloadDTO =
    PlayerSpawnedEventDTO NetworkEntityId ClientId Fixed Fixed
  | WeaponWarmupStartedEventDTO NetworkEntityId TimestampMs TimestampMs WeaponType
  | WeaponFiredEventDTO NetworkEntityId TimestampMs WeaponType
  | ProjectileSpawnedEventDTO NetworkEntityId NetworkEntityId Fixed Fixed WeaponType
  | HitConfirmedEventDTO NetworkEntityId NetworkEntityId NetworkEntityId TimestampMs
  | PlayerDamagedEventDTO NetworkEntityId NetworkEntityId i32 i32
  | PlayerDiedEventDTO NetworkEntityId NetworkEntityId TimestampMs
  | PlayerRespawnedEventDTO NetworkEntityId Fixed Fixed
  | EntityEnteredInterestEventDTO NetworkEntityId ClientId
  | EntityLeftInterestEventDTO NetworkEntityId ClientId

record NetworkEventDTO =
  ne_eventId :: NetworkEventId
  ne_serverTick :: Tick
  ne_serverTimeMs :: TimestampMs
  ne_payload :: NetworkEventPayloadDTO

record NetworkEventAckDTO =
  na_clientId :: ClientId
  na_eventId :: NetworkEventId
  na_clientReceivedAtMs :: TimestampMs

section \<open>Time-sync messages\<close>

record TimeSyncRequest =
  tq_clientId :: ClientId
  tq_sequence :: CommandSequence
  tq_clientSentAtMs :: TimestampMs

record TimeSyncResponse =
  tr_clientId :: ClientId
  tr_sequence :: CommandSequence
  tr_clientSentAtMs :: TimestampMs
  tr_serverReceivedAtMs :: TimestampMs
  tr_serverSentAtMs :: TimestampMs

record TimeSyncSample =
  ts_clientSentAtMs :: TimestampMs
  ts_serverReceivedAtMs :: TimestampMs
  ts_clientReceivedAtMs :: TimestampMs

end
