(* ===== verification/Network_Events.thy ===== *)
theory Network_Events
  imports Game_Types
begin

text \<open>
  \<open>src/GameLogic/src/NetworkEvents.cpp\<close>: the domain events that travel as reliable network
  events, and the conversion back. \<open>PlayerMoved\<close>, \<open>SnapshotApplied\<close> and
  \<open>LocalPredictionCorrected\<close> have no network form.
\<close>

text \<open>\<open>payload.index()\<close> cast to the kind: the variant's alternatives are in the enum's order.\<close>

fun KindForPayload :: "NetworkEventPayloadDTO \<Rightarrow> NetworkEventKind" where
  "KindForPayload (PlayerSpawnedEventDTO _ _ _ _) = Kind_PlayerSpawned"
| "KindForPayload (WeaponWarmupStartedEventDTO _ _ _ _) = Kind_WeaponWarmupStarted"
| "KindForPayload (WeaponFiredEventDTO _ _ _) = Kind_BowFired"
| "KindForPayload (ProjectileSpawnedEventDTO _ _ _ _ _) = Kind_ProjectileSpawned"
| "KindForPayload (HitConfirmedEventDTO _ _ _ _) = Kind_HitConfirmed"
| "KindForPayload (PlayerDamagedEventDTO _ _ _ _) = Kind_PlayerDamaged"
| "KindForPayload (PlayerDiedEventDTO _ _ _) = Kind_PlayerDied"
| "KindForPayload (PlayerRespawnedEventDTO _ _ _) = Kind_PlayerRespawned"
| "KindForPayload (EntityEnteredInterestEventDTO _ _) = Kind_EntityEnteredInterest"
| "KindForPayload (EntityLeftInterestEventDTO _ _) = Kind_EntityLeftInterest"

definition KindForNetworkEvent :: "NetworkEventDTO \<Rightarrow> NetworkEventKind" where
  "KindForNetworkEvent event = KindForPayload (ne_payload event)"

fun to_payload :: "DomainEvent \<Rightarrow> NetworkEventPayloadDTO option" where
  "to_payload (PlayerSpawned e c x y) = Some (PlayerSpawnedEventDTO e c x y)"
| "to_payload (WeaponWarmupStarted e s c w) = Some (WeaponWarmupStartedEventDTO e s c w)"
| "to_payload (WeaponFired e t w) = Some (WeaponFiredEventDTO e t w)"
| "to_payload (ProjectileSpawned p ow x y w) = Some (ProjectileSpawnedEventDTO p ow x y w)"
| "to_payload (HitConfirmed a t p ms) = Some (HitConfirmedEventDTO a t p ms)"
| "to_payload (PlayerDamaged e a d h) = Some (PlayerDamagedEventDTO e a d h)"
| "to_payload (PlayerDied e a r) = Some (PlayerDiedEventDTO e a r)"
| "to_payload (PlayerRespawned e x y) = Some (PlayerRespawnedEventDTO e x y)"
| "to_payload (EntityEnteredInterest e c) = Some (EntityEnteredInterestEventDTO e c)"
| "to_payload (EntityLeftInterest e c) = Some (EntityLeftInterestEventDTO e c)"
| "to_payload _ = None"

definition ToNetworkEventDTO ::
    "NetworkEventId \<Rightarrow> Tick \<Rightarrow> TimestampMs \<Rightarrow> DomainEvent \<Rightarrow> NetworkEventDTO option" where
  "ToNetworkEventDTO eventId serverTick serverTimeMs event =
     (case to_payload event of
        None \<Rightarrow> None
      | Some p \<Rightarrow> Some \<lparr>ne_eventId = eventId, ne_serverTick = serverTick,
                        ne_serverTimeMs = serverTimeMs, ne_payload = p\<rparr>)"

fun of_payload :: "NetworkEventPayloadDTO \<Rightarrow> DomainEvent" where
  "of_payload (PlayerSpawnedEventDTO e c x y) = PlayerSpawned e c x y"
| "of_payload (WeaponWarmupStartedEventDTO e s c w) = WeaponWarmupStarted e s c w"
| "of_payload (WeaponFiredEventDTO e t w) = WeaponFired e t w"
| "of_payload (ProjectileSpawnedEventDTO p ow x y w) = ProjectileSpawned p ow x y w"
| "of_payload (HitConfirmedEventDTO a t p ms) = HitConfirmed a t p ms"
| "of_payload (PlayerDamagedEventDTO e a d h) = PlayerDamaged e a d h"
| "of_payload (PlayerDiedEventDTO e a r) = PlayerDied e a r"
| "of_payload (PlayerRespawnedEventDTO e x y) = PlayerRespawned e x y"
| "of_payload (EntityEnteredInterestEventDTO e c) = EntityEnteredInterest e c"
| "of_payload (EntityLeftInterestEventDTO e c) = EntityLeftInterest e c"

definition ToDomainEvent :: "NetworkEventDTO \<Rightarrow> DomainEvent option" where
  "ToDomainEvent event = Some (of_payload (ne_payload event))"

definition local_only :: "DomainEvent \<Rightarrow> bool" where
  "local_only e = (case e of PlayerMoved _ _ _ _ _ \<Rightarrow> True | SnapshotApplied _ _ _ \<Rightarrow> True
                   | LocalPredictionCorrected _ _ _ _ _ \<Rightarrow> True | _ \<Rightarrow> False)"

lemma to_of_payload [simp]: "to_payload (of_payload p) = Some p"
  by (cases p) simp_all

lemma of_to_payload: "to_payload e = Some p \<longleftrightarrow> e = of_payload p"
  by (cases e; cases p) auto

lemma to_payload_None: "to_payload e = None \<longleftrightarrow> local_only e"
  by (cases e) (simp_all add: local_only_def)

lemma ToNetworkEventDTO_Some:
  "ToNetworkEventDTO i t ms e = Some ev \<longleftrightarrow>
     to_payload e = Some (ne_payload ev) \<and> ne_eventId ev = i \<and> ne_serverTick ev = t
     \<and> ne_serverTimeMs ev = ms"
  by (cases ev) (auto simp: ToNetworkEventDTO_def split: option.splits)

end
