(* ===== verification/Serialization.thy ===== *)
theory Serialization
  imports Binary_Reader Network_Events
begin

text \<open>
  \<open>src/GameLogic/include/GameLogic/Serialization.hpp\<close> and
  \<open>src/GameLogic/src/Serialization.cpp\<close>: the bytes of the nine protocol messages. The writers
  append to a byte list, the readers are \<open>BinaryReader\<close>'s, and each \<open>Serialize\<close> and
  \<open>Deserialize\<close> function is written in the order of its source. The \<open>field_codec\<close> laws of the
  fields compose into those of the messages: a message decodes to a value exactly when it is the
  value's encoding, so no truncated message, no trailing byte and no second encoding is accepted.
\<close>

section \<open>The binary reader of the protocol\<close>

datatype DecodeError =
  NoDecodeError | UnexpectedEof | InvalidBoolean | InvalidEnum | InvalidCount | TrailingBytes

type_synonym breader = "DecodeError reader"

definition open_reader :: "byte list \<Rightarrow> breader" where
  "open_reader bytes = \<lparr>rd_bytes = bytes, rd_offset = 0, rd_error = NoDecodeError\<rparr>"

definition RemainingBytes :: "breader \<Rightarrow> nat" where
  "RemainingBytes r = length (rd_bytes r) - rd_offset r"

definition Fail :: "DecodeError \<Rightarrow> breader \<Rightarrow> breader" where
  "Fail e r = (if rd_error r = NoDecodeError then r\<lparr>rd_error := e\<rparr> else r)"

definition Finish :: "breader \<Rightarrow> bool \<times> breader" where
  "Finish r =
     (if rd_error r \<noteq> NoDecodeError then (False, r)
      else if rd_offset r \<noteq> length (rd_bytes r) then (False, r\<lparr>rd_error := TrailingBytes\<rparr>)
      else (True, r))"

definition ReadPod :: "breader \<Rightarrow> 'a::len word option \<times> breader" where
  "ReadPod r = read_pod (Fail UnexpectedEof) r"

definition ReadEnum :: "(u8 \<Rightarrow> 'e) \<Rightarrow> u8 \<Rightarrow> breader \<Rightarrow> 'e option \<times> breader" where
  "ReadEnum cast maxValue r =
     (case ReadPod r of
        (None, r) \<Rightarrow> (None, r)
      | (Some v, r) \<Rightarrow> if v > maxValue then (None, Fail InvalidEnum r) else (Some (cast v), r))"

definition ReadBool :: "breader \<Rightarrow> bool option \<times> breader" where
  "ReadBool r =
     (case ReadPod r of
        (None, r) \<Rightarrow> (None, r)
      | (Some (v :: u8), r) \<Rightarrow> if v > 1 then (None, Fail InvalidBoolean r) else (Some (v \<noteq> 0), r))"

definition ReadCount :: "nat \<Rightarrow> breader \<Rightarrow> u32 option \<times> breader" where
  "ReadCount maxValue r =
     (case ReadPod r of
        (None, r) \<Rightarrow> (None, r)
      | (Some v, r) \<Rightarrow> if unat v > maxValue then (None, Fail InvalidCount r) else (Some v, r))"

text \<open>\<open>FinishDecode\<close>: the value, unless the reader failed or bytes are left.\<close>

definition FinishDecode :: "breader \<Rightarrow> 'a \<Rightarrow> 'a option" where
  "FinishDecode r v = (if fst (Finish r) then Some v else None)"

text \<open>\<open>BinaryWriter\<close> appends to its byte vector.\<close>

definition WritePod :: "'a::len word \<Rightarrow> byte list \<Rightarrow> byte list" where
  "WritePod v w = w @ pod_bytes v"

section \<open>Scalar fields\<close>

fun u8_of_weapon :: "WeaponType \<Rightarrow> u8" where
  "u8_of_weapon WeaponNone = 0" | "u8_of_weapon WeaponBow = 1"

definition weapon_of_u8 :: "u8 \<Rightarrow> WeaponType" where
  "weapon_of_u8 v = (if v = 0 then WeaponNone else WeaponBow)"

fun u8_of_entity_kind :: "ReplicatedEntityKind \<Rightarrow> u8" where
  "u8_of_entity_kind Player = 0" | "u8_of_entity_kind Projectile = 1"

definition entity_kind_of_u8 :: "u8 \<Rightarrow> ReplicatedEntityKind" where
  "entity_kind_of_u8 v = (if v = 0 then Player else Projectile)"

fun u8_of_priority :: "SnapshotPriority \<Rightarrow> u8" where
  "u8_of_priority Low = 0" | "u8_of_priority Medium = 1" | "u8_of_priority High = 2"

definition priority_of_u8 :: "u8 \<Rightarrow> SnapshotPriority" where
  "priority_of_u8 v = (if v = 0 then Low else if v = 1 then Medium else High)"

fun u8_of_delivery :: "SnapshotDeliveryKind \<Rightarrow> u8" where
  "u8_of_delivery Full = 0" | "u8_of_delivery DeltaEligible = 1"

definition delivery_of_u8 :: "u8 \<Rightarrow> SnapshotDeliveryKind" where
  "delivery_of_u8 v = (if v = 0 then Full else DeltaEligible)"

fun u8_of_event_kind :: "NetworkEventKind \<Rightarrow> u8" where
  "u8_of_event_kind Kind_PlayerSpawned = 0"
| "u8_of_event_kind Kind_WeaponWarmupStarted = 1"
| "u8_of_event_kind Kind_BowFired = 2"
| "u8_of_event_kind Kind_ProjectileSpawned = 3"
| "u8_of_event_kind Kind_HitConfirmed = 4"
| "u8_of_event_kind Kind_PlayerDamaged = 5"
| "u8_of_event_kind Kind_PlayerDied = 6"
| "u8_of_event_kind Kind_PlayerRespawned = 7"
| "u8_of_event_kind Kind_EntityEnteredInterest = 8"
| "u8_of_event_kind Kind_EntityLeftInterest = 9"

definition event_kind_of_u8 :: "u8 \<Rightarrow> NetworkEventKind" where
  "event_kind_of_u8 v =
     (if v = 0 then Kind_PlayerSpawned else if v = 1 then Kind_WeaponWarmupStarted
      else if v = 2 then Kind_BowFired else if v = 3 then Kind_ProjectileSpawned
      else if v = 4 then Kind_HitConfirmed else if v = 5 then Kind_PlayerDamaged
      else if v = 6 then Kind_PlayerDied else if v = 7 then Kind_PlayerRespawned
      else if v = 8 then Kind_EntityEnteredInterest else Kind_EntityLeftInterest)"

definition ReadWeaponType :: "breader \<Rightarrow> WeaponType option \<times> breader" where
  "ReadWeaponType r = ReadEnum weapon_of_u8 (word_of_nat (kWeaponTypeCount - 1)) r"

definition ReadReplicatedEntityKind :: "breader \<Rightarrow> ReplicatedEntityKind option \<times> breader" where
  "ReadReplicatedEntityKind r = ReadEnum entity_kind_of_u8 (u8_of_entity_kind Projectile) r"

definition ReadSnapshotPriority :: "breader \<Rightarrow> SnapshotPriority option \<times> breader" where
  "ReadSnapshotPriority r = ReadEnum priority_of_u8 (u8_of_priority High) r"

definition ReadSnapshotDeliveryKind :: "breader \<Rightarrow> SnapshotDeliveryKind option \<times> breader" where
  "ReadSnapshotDeliveryKind r = ReadEnum delivery_of_u8 (u8_of_delivery DeltaEligible) r"

definition ReadNetworkEventKind :: "breader \<Rightarrow> NetworkEventKind option \<times> breader" where
  "ReadNetworkEventKind r =
     ReadEnum event_kind_of_u8 (u8_of_event_kind Kind_EntityLeftInterest) r"

definition WriteBool :: "bool \<Rightarrow> byte list \<Rightarrow> byte list" where
  "WriteBool b w = WritePod (if b then 1 else 0 :: u8) w"

definition WriteEntityId :: "NetworkEntityId \<Rightarrow> byte list \<Rightarrow> byte list" where
  "WriteEntityId i w = WritePod i w"

definition ReadEntityId :: "breader \<Rightarrow> NetworkEntityId option \<times> breader" where
  "ReadEntityId r = (case ReadPod r of (None, r) \<Rightarrow> (None, r) | (Some v, r) \<Rightarrow> (Some v, r))"

definition WriteWeaponType :: "WeaponType \<Rightarrow> byte list \<Rightarrow> byte list" where
  "WriteWeaponType t w = WritePod (u8_of_weapon t) w"

definition WriteReplicatedEntityKind :: "ReplicatedEntityKind \<Rightarrow> byte list \<Rightarrow> byte list" where
  "WriteReplicatedEntityKind k w = WritePod (u8_of_entity_kind k) w"

definition WriteSnapshotPriority :: "SnapshotPriority \<Rightarrow> byte list \<Rightarrow> byte list" where
  "WriteSnapshotPriority p w = WritePod (u8_of_priority p) w"

definition WriteSnapshotDeliveryKind :: "SnapshotDeliveryKind \<Rightarrow> byte list \<Rightarrow> byte list" where
  "WriteSnapshotDeliveryKind k w = WritePod (u8_of_delivery k) w"

definition WriteNetworkEventKind :: "NetworkEventKind \<Rightarrow> byte list \<Rightarrow> byte list" where
  "WriteNetworkEventKind k w = WritePod (u8_of_event_kind k) w"

section \<open>Snapshot structs\<close>

definition WriteMovement :: "MovementStateDTO \<Rightarrow> byte list \<Rightarrow> byte list" where
  "WriteMovement movement w =
     (let w = WriteEntityId (mv_entityId movement) w;
          w = WritePod (mv_x movement) w;
          w = WritePod (mv_y movement) w;
          w = WritePod (mv_vx movement) w;
          w = WritePod (mv_vy movement) w;
          w = WritePod (mv_aimX movement) w
      in WritePod (mv_aimY movement) w)"

definition ReadMovement :: "breader \<Rightarrow> MovementStateDTO option \<times> breader" where
  "ReadMovement r =
     (let (entityId, r) = ReadEntityId r;
          (x, r) = ReadPod r;
          (y, r) = ReadPod r;
          (vx, r) = ReadPod r;
          (vy, r) = ReadPod r;
          (aimX, r) = ReadPod r;
          (aimY, r) = ReadPod r
      in (do { entityId \<leftarrow> entityId; x \<leftarrow> x; y \<leftarrow> y; vx \<leftarrow> vx; vy \<leftarrow> vy; aimX \<leftarrow> aimX; aimY \<leftarrow> aimY;
            Some \<lparr>mv_entityId = entityId, mv_x = x, mv_y = y, mv_vx = vx, mv_vy = vy,
                  mv_aimX = aimX, mv_aimY = aimY\<rparr> }, r))"

definition WriteCombat :: "CombatStateDTO \<Rightarrow> byte list \<Rightarrow> byte list" where
  "WriteCombat combat w =
     (let w = WriteEntityId (cb_entityId combat) w;
          w = WritePod (cb_health combat) w;
          w = WritePod (cb_maxHealth combat) w;
          w = WriteWeaponType (cb_weaponType combat) w;
          w = WriteBool (cb_weaponWarming combat) w;
          w = WritePod (cb_weaponWarmupCompletesAtMs combat) w;
          w = WriteBool (cb_defeated combat) w;
          w = WritePod (cb_respawnAtMs combat) w;
          w = WriteBool (cb_serverOwnedProjectile combat) w
      in WriteEntityId (cb_projectileOwnerId combat) w)"

definition ReadCombat :: "breader \<Rightarrow> CombatStateDTO option \<times> breader" where
  "ReadCombat r =
     (let (entityId, r) = ReadEntityId r;
          (health, r) = ReadPod r;
          (maxHealth, r) = ReadPod r;
          (weaponType, r) = ReadWeaponType r;
          (weaponWarming, r) = ReadBool r;
          (weaponWarmupCompletesAtMs, r) = ReadPod r;
          (defeated, r) = ReadBool r;
          (respawnAtMs, r) = ReadPod r;
          (serverOwnedProjectile, r) = ReadBool r;
          (projectileOwnerId, r) = ReadEntityId r
      in (do { entityId \<leftarrow> entityId; health \<leftarrow> health;
               maxHealth \<leftarrow> maxHealth; weaponType \<leftarrow> weaponType;
               weaponWarming \<leftarrow> weaponWarming;
               weaponWarmupCompletesAtMs \<leftarrow> weaponWarmupCompletesAtMs;
               defeated \<leftarrow> defeated; respawnAtMs \<leftarrow> respawnAtMs;
               serverOwnedProjectile \<leftarrow> serverOwnedProjectile;
               projectileOwnerId \<leftarrow> projectileOwnerId;
               Some \<lparr>cb_entityId = entityId, cb_health = health,
                    cb_maxHealth = maxHealth, cb_weaponType = weaponType,
                    cb_weaponWarming = weaponWarming,
                    cb_weaponWarmupCompletesAtMs = weaponWarmupCompletesAtMs,
                    cb_defeated = defeated, cb_respawnAtMs = respawnAtMs,
                    cb_serverOwnedProjectile = serverOwnedProjectile,
                    cb_projectileOwnerId = projectileOwnerId\<rparr> }, r))"

definition WriteReplication :: "ReplicationStateDTO \<Rightarrow> byte list \<Rightarrow> byte list" where
  "WriteReplication replication w =
     (let w = WriteEntityId (rp_entityId replication) w;
          w = WritePod (rp_ownerClientId replication) w;
          w = WriteReplicatedEntityKind (rp_kind replication) w
      in WriteSnapshotPriority (rp_priority replication) w)"

definition ReadReplication :: "breader \<Rightarrow> ReplicationStateDTO option \<times> breader" where
  "ReadReplication r =
     (let (entityId, r) = ReadEntityId r;
          (ownerClientId, r) = ReadPod r;
          (kind, r) = ReadReplicatedEntityKind r;
          (priority, r) = ReadSnapshotPriority r
      in (do { entityId \<leftarrow> entityId; ownerClientId \<leftarrow> ownerClientId;
               kind \<leftarrow> kind; priority \<leftarrow> priority;
               Some \<lparr>rp_entityId = entityId, rp_ownerClientId = ownerClientId,
                    rp_kind = kind, rp_priority = priority\<rparr> }, r))"

text \<open>One entity of a snapshot; the body of the two snapshot loops.\<close>

definition WriteEntity :: "EntityStateDTO \<Rightarrow> byte list \<Rightarrow> byte list" where
  "WriteEntity entity w =
     (let w = WriteMovement (es_movement entity) w;
          w = WriteBool (es_combat entity \<noteq> None) w;
          w = (case es_combat entity of Some combat \<Rightarrow> WriteCombat combat w | None \<Rightarrow> w)
      in WriteReplication (es_replication entity) w)"

definition ReadEntity :: "breader \<Rightarrow> EntityStateDTO option \<times> breader" where
  "ReadEntity r =
     (let (movement, r) = ReadMovement r;
          (hasCombat, r) = ReadBool r
      in case (movement, hasCombat) of
           (Some movement, Some hasCombat) \<Rightarrow>
             (if hasCombat
              then (case ReadCombat r of
                      (None, r) \<Rightarrow> (None, r)
                    | (Some combat, r) \<Rightarrow>
                        (case ReadReplication r of
                           (None, r) \<Rightarrow> (None, r)
                         | (Some replication, r) \<Rightarrow>
                             (Some \<lparr>es_movement = movement, es_combat = Some combat,
                                    es_replication = replication\<rparr>, r)))
              else (case ReadReplication r of
                      (None, r) \<Rightarrow> (None, r)
                    | (Some replication, r) \<Rightarrow>
                        (Some \<lparr>es_movement = movement, es_combat = None,
                               es_replication = replication\<rparr>, r)))
         | _ \<Rightarrow> (None, r))"

fun WriteEntities :: "EntityStateDTO list \<Rightarrow> byte list \<Rightarrow> byte list" where
  "WriteEntities [] w = w"
| "WriteEntities (e # es) w = WriteEntities es (WriteEntity e w)"

fun ReadEntities :: "nat \<Rightarrow> breader \<Rightarrow> EntityStateDTO list option \<times> breader" where
  "ReadEntities 0 r = (Some [], r)"
| "ReadEntities (Suc n) r =
     (case ReadEntity r of
        (None, r) \<Rightarrow> (None, r)
      | (Some e, r) \<Rightarrow>
          (case ReadEntities n r of
             (None, r) \<Rightarrow> (None, r)
           | (Some es, r) \<Rightarrow> (Some (e # es), r)))"

section \<open>Network event payloads\<close>

fun WriteEventPayload :: "NetworkEventPayloadDTO \<Rightarrow> byte list \<Rightarrow> byte list" where
  "WriteEventPayload (PlayerSpawnedEventDTO entityId clientId x y) w =
     (let w = WriteEntityId entityId w; w = WritePod clientId w; w = WritePod x w
      in WritePod y w)"
| "WriteEventPayload (WeaponWarmupStartedEventDTO entityId startedAtMs completesAtMs weaponType) w =
     (let w = WriteEntityId entityId w; w = WritePod startedAtMs w; w = WritePod completesAtMs w
      in WriteWeaponType weaponType w)"
| "WriteEventPayload (WeaponFiredEventDTO entityId firedAtMs weaponType) w =
     (let w = WriteEntityId entityId w; w = WritePod firedAtMs w
      in WriteWeaponType weaponType w)"
| "WriteEventPayload (ProjectileSpawnedEventDTO projectileId ownerId x y sourceWeapon) w =
     (let w = WriteEntityId projectileId w; w = WriteEntityId ownerId w; w = WritePod x w;
          w = WritePod y w
      in WriteWeaponType sourceWeapon w)"
| "WriteEventPayload (HitConfirmedEventDTO attackerId targetId projectileId hitServerTimeMs) w =
     (let w = WriteEntityId attackerId w; w = WriteEntityId targetId w;
          w = WriteEntityId projectileId w
      in WritePod hitServerTimeMs w)"
| "WriteEventPayload (PlayerDamagedEventDTO entityId attackerId damage healthAfter) w =
     (let w = WriteEntityId entityId w; w = WriteEntityId attackerId w; w = WritePod damage w
      in WritePod healthAfter w)"
| "WriteEventPayload (PlayerDiedEventDTO entityId attackerId respawnAtMs) w =
     (let w = WriteEntityId entityId w; w = WriteEntityId attackerId w
      in WritePod respawnAtMs w)"
| "WriteEventPayload (PlayerRespawnedEventDTO entityId x y) w =
     (let w = WriteEntityId entityId w; w = WritePod x w
      in WritePod y w)"
| "WriteEventPayload (EntityEnteredInterestEventDTO entityId observerClientId) w =
     (let w = WriteEntityId entityId w
      in WritePod observerClientId w)"
| "WriteEventPayload (EntityLeftInterestEventDTO entityId observerClientId) w =
     (let w = WriteEntityId entityId w
      in WritePod observerClientId w)"

fun ReadEventPayload :: "NetworkEventKind \<Rightarrow> breader \<Rightarrow> NetworkEventPayloadDTO option \<times> breader" where
  "ReadEventPayload Kind_PlayerSpawned r =
     (let (entityId, r) = ReadEntityId r; (clientId, r) = ReadPod r; (x, r) = ReadPod r;
          (y, r) = ReadPod r
      in (do { entityId \<leftarrow> entityId; clientId \<leftarrow> clientId; x \<leftarrow> x;
               y \<leftarrow> y;
               Some (PlayerSpawnedEventDTO entityId clientId x y) }, r))"
| "ReadEventPayload Kind_WeaponWarmupStarted r =
     (let (entityId, r) = ReadEntityId r; (startedAtMs, r) = ReadPod r;
          (completesAtMs, r) = ReadPod r; (weaponType, r) = ReadWeaponType r
      in (do { entityId \<leftarrow> entityId; startedAtMs \<leftarrow> startedAtMs;
               completesAtMs \<leftarrow> completesAtMs; weaponType \<leftarrow> weaponType;
               Some (WeaponWarmupStartedEventDTO entityId startedAtMs completesAtMs weaponType) }, r))"
| "ReadEventPayload Kind_BowFired r =
     (let (entityId, r) = ReadEntityId r; (firedAtMs, r) = ReadPod r;
          (weaponType, r) = ReadWeaponType r
      in (do { entityId \<leftarrow> entityId; firedAtMs \<leftarrow> firedAtMs;
               weaponType \<leftarrow> weaponType;
               Some (WeaponFiredEventDTO entityId firedAtMs weaponType) }, r))"
| "ReadEventPayload Kind_ProjectileSpawned r =
     (let (projectileId, r) = ReadEntityId r; (ownerId, r) = ReadEntityId r; (x, r) = ReadPod r;
          (y, r) = ReadPod r; (sourceWeapon, r) = ReadWeaponType r
      in (do { projectileId \<leftarrow> projectileId; ownerId \<leftarrow> ownerId;
               x \<leftarrow> x; y \<leftarrow> y; sourceWeapon \<leftarrow> sourceWeapon;
               Some (ProjectileSpawnedEventDTO projectileId ownerId x y sourceWeapon) }, r))"
| "ReadEventPayload Kind_HitConfirmed r =
     (let (attackerId, r) = ReadEntityId r; (targetId, r) = ReadEntityId r;
          (projectileId, r) = ReadEntityId r; (hitServerTimeMs, r) = ReadPod r
      in (do { attackerId \<leftarrow> attackerId; targetId \<leftarrow> targetId;
               projectileId \<leftarrow> projectileId;
               hitServerTimeMs \<leftarrow> hitServerTimeMs;
               Some (HitConfirmedEventDTO attackerId targetId projectileId hitServerTimeMs) }, r))"
| "ReadEventPayload Kind_PlayerDamaged r =
     (let (entityId, r) = ReadEntityId r; (attackerId, r) = ReadEntityId r;
          (damage, r) = ReadPod r; (healthAfter, r) = ReadPod r
      in (do { entityId \<leftarrow> entityId; attackerId \<leftarrow> attackerId;
               damage \<leftarrow> damage; healthAfter \<leftarrow> healthAfter;
               Some (PlayerDamagedEventDTO entityId attackerId damage healthAfter) }, r))"
| "ReadEventPayload Kind_PlayerDied r =
     (let (entityId, r) = ReadEntityId r; (attackerId, r) = ReadEntityId r;
          (respawnAtMs, r) = ReadPod r
      in (do { entityId \<leftarrow> entityId; attackerId \<leftarrow> attackerId;
               respawnAtMs \<leftarrow> respawnAtMs;
               Some (PlayerDiedEventDTO entityId attackerId respawnAtMs) }, r))"
| "ReadEventPayload Kind_PlayerRespawned r =
     (let (entityId, r) = ReadEntityId r; (x, r) = ReadPod r; (y, r) = ReadPod r
      in (do { entityId \<leftarrow> entityId; x \<leftarrow> x; y \<leftarrow> y;
               Some (PlayerRespawnedEventDTO entityId x y) }, r))"
| "ReadEventPayload Kind_EntityEnteredInterest r =
     (let (entityId, r) = ReadEntityId r; (observerClientId, r) = ReadPod r
      in (do { entityId \<leftarrow> entityId; observerClientId \<leftarrow> observerClientId;
               Some (EntityEnteredInterestEventDTO entityId observerClientId) }, r))"
| "ReadEventPayload Kind_EntityLeftInterest r =
     (let (entityId, r) = ReadEntityId r; (observerClientId, r) = ReadPod r
      in (do { entityId \<leftarrow> entityId; observerClientId \<leftarrow> observerClientId;
               Some (EntityLeftInterestEventDTO entityId observerClientId) }, r))"

section \<open>Messages\<close>

definition SerializeMovementState :: "MovementStateDTO \<Rightarrow> byte list" where
  "SerializeMovementState dto = (let w = [] in WriteMovement dto w)"

definition DeserializeMovementState :: "byte list \<Rightarrow> MovementStateDTO option" where
  "DeserializeMovementState bytes =
     (let r = open_reader bytes
      in case ReadMovement r of (None, r) \<Rightarrow> None | (Some movement, r) \<Rightarrow> FinishDecode r movement)"

definition SerializeLoginCommand :: "LoginCommand \<Rightarrow> byte list" where
  "SerializeLoginCommand command =
     (let w = [];
          w = WritePod (hd_clientId (lg_header command)) w;
          w = WritePod (hd_sequence (lg_header command)) w
      in WritePod (hd_clientTimestampMs (lg_header command)) w)"

definition DeserializeLoginCommand :: "byte list \<Rightarrow> LoginCommand option" where
  "DeserializeLoginCommand bytes =
     (let r = open_reader bytes;
          (clientId, r) = ReadPod r;
          (sequence, r) = ReadPod r;
          (clientTimestampMs, r) = ReadPod r
      in do { clientId \<leftarrow> clientId; sequence \<leftarrow> sequence;
              clientTimestampMs \<leftarrow> clientTimestampMs;
              FinishDecode r \<lparr>lg_header = \<lparr>hd_clientId = clientId, hd_sequence = sequence,
                    hd_clientTimestampMs = clientTimestampMs\<rparr>\<rparr> })"

definition SerializeClientInputPacket :: "ClientInputPacket \<Rightarrow> byte list" where
  "SerializeClientInputPacket packet =
     (let w = [];
          w = WritePod (hd_clientId (ip_header packet)) w;
          w = WritePod (hd_sequence (ip_header packet)) w;
          w = WritePod (hd_clientTimestampMs (ip_header packet)) w;
          w = WritePod (if_moveX (ip_input packet)) w;
          w = WritePod (if_moveY (ip_input packet)) w;
          w = WritePod (if_aimX (ip_input packet)) w;
          w = WritePod (if_aimY (ip_input packet)) w
      in WriteBool (if_fire (ip_input packet)) w)"

definition DeserializeClientInputPacket :: "byte list \<Rightarrow> ClientInputPacket option" where
  "DeserializeClientInputPacket bytes =
     (let r = open_reader bytes;
          (clientId, r) = ReadPod r;
          (sequence, r) = ReadPod r;
          (clientTimestampMs, r) = ReadPod r;
          (moveX, r) = ReadPod r;
          (moveY, r) = ReadPod r;
          (aimX, r) = ReadPod r;
          (aimY, r) = ReadPod r;
          (fire, r) = ReadBool r
      in do { clientId \<leftarrow> clientId; sequence \<leftarrow> sequence;
              clientTimestampMs \<leftarrow> clientTimestampMs; moveX \<leftarrow> moveX;
              moveY \<leftarrow> moveY; aimX \<leftarrow> aimX; aimY \<leftarrow> aimY;
              fire \<leftarrow> fire;
              FinishDecode r \<lparr>ip_header = \<lparr>hd_clientId = clientId, hd_sequence = sequence,
                    hd_clientTimestampMs = clientTimestampMs\<rparr>,
                    ip_input = \<lparr>if_moveX = moveX, if_moveY = moveY, if_aimX = aimX,
                    if_aimY = aimY, if_fire = fire\<rparr>\<rparr> })"

definition SerializeTimeSyncRequest :: "TimeSyncRequest \<Rightarrow> byte list" where
  "SerializeTimeSyncRequest request =
     (let w = [];
          w = WritePod (tq_clientId request) w;
          w = WritePod (tq_sequence request) w
      in WritePod (tq_clientSentAtMs request) w)"

definition DeserializeTimeSyncRequest :: "byte list \<Rightarrow> TimeSyncRequest option" where
  "DeserializeTimeSyncRequest bytes =
     (let r = open_reader bytes;
          (clientId, r) = ReadPod r;
          (sequence, r) = ReadPod r;
          (clientSentAtMs, r) = ReadPod r
      in do { clientId \<leftarrow> clientId; sequence \<leftarrow> sequence;
              clientSentAtMs \<leftarrow> clientSentAtMs;
              FinishDecode r \<lparr>tq_clientId = clientId, tq_sequence = sequence,
                    tq_clientSentAtMs = clientSentAtMs\<rparr> })"

definition SerializeTimeSyncResponse :: "TimeSyncResponse \<Rightarrow> byte list" where
  "SerializeTimeSyncResponse response =
     (let w = [];
          w = WritePod (tr_clientId response) w;
          w = WritePod (tr_sequence response) w;
          w = WritePod (tr_clientSentAtMs response) w;
          w = WritePod (tr_serverReceivedAtMs response) w
      in WritePod (tr_serverSentAtMs response) w)"

definition DeserializeTimeSyncResponse :: "byte list \<Rightarrow> TimeSyncResponse option" where
  "DeserializeTimeSyncResponse bytes =
     (let r = open_reader bytes;
          (clientId, r) = ReadPod r;
          (sequence, r) = ReadPod r;
          (clientSentAtMs, r) = ReadPod r;
          (serverReceivedAtMs, r) = ReadPod r;
          (serverSentAtMs, r) = ReadPod r
      in do { clientId \<leftarrow> clientId; sequence \<leftarrow> sequence;
              clientSentAtMs \<leftarrow> clientSentAtMs;
              serverReceivedAtMs \<leftarrow> serverReceivedAtMs;
              serverSentAtMs \<leftarrow> serverSentAtMs;
              FinishDecode r \<lparr>tr_clientId = clientId, tr_sequence = sequence,
                    tr_clientSentAtMs = clientSentAtMs,
                    tr_serverReceivedAtMs = serverReceivedAtMs,
                    tr_serverSentAtMs = serverSentAtMs\<rparr> })"

definition SerializeNetworkEvent :: "NetworkEventDTO \<Rightarrow> byte list" where
  "SerializeNetworkEvent event =
     (let w = [];
          w = WritePod (ne_eventId event) w;
          w = WritePod (ne_serverTick event) w;
          w = WritePod (ne_serverTimeMs event) w;
          w = WriteNetworkEventKind (KindForNetworkEvent event) w
      in WriteEventPayload (ne_payload event) w)"

definition DeserializeNetworkEvent :: "byte list \<Rightarrow> NetworkEventDTO option" where
  "DeserializeNetworkEvent bytes =
     (let r = open_reader bytes;
          (eventId, r) = ReadPod r;
          (serverTick, r) = ReadPod r;
          (serverTimeMs, r) = ReadPod r;
          (kind, r) = ReadNetworkEventKind r
      in do { eventId \<leftarrow> eventId; serverTick \<leftarrow> serverTick; serverTimeMs \<leftarrow> serverTimeMs; kind \<leftarrow> kind;
              let (payload, r) = ReadEventPayload kind r;
              payload \<leftarrow> payload;
              FinishDecode r \<lparr>ne_eventId = eventId, ne_serverTick = serverTick,
                    ne_serverTimeMs = serverTimeMs, ne_payload = payload\<rparr> })"

definition SerializeNetworkEventAck :: "NetworkEventAckDTO \<Rightarrow> byte list" where
  "SerializeNetworkEventAck ack =
     (let w = [];
          w = WritePod (na_clientId ack) w;
          w = WritePod (na_eventId ack) w
      in WritePod (na_clientReceivedAtMs ack) w)"

definition DeserializeNetworkEventAck :: "byte list \<Rightarrow> NetworkEventAckDTO option" where
  "DeserializeNetworkEventAck bytes =
     (let r = open_reader bytes;
          (clientId, r) = ReadPod r;
          (eventId, r) = ReadPod r;
          (clientReceivedAtMs, r) = ReadPod r
      in do { clientId \<leftarrow> clientId; eventId \<leftarrow> eventId;
              clientReceivedAtMs \<leftarrow> clientReceivedAtMs;
              FinishDecode r \<lparr>na_clientId = clientId, na_eventId = eventId,
                    na_clientReceivedAtMs = clientReceivedAtMs\<rparr> })"

definition SerializeSnapshotAck :: "SnapshotAckDTO \<Rightarrow> byte list" where
  "SerializeSnapshotAck ack =
     (let w = [];
          w = WritePod (sa_clientId ack) w;
          w = WritePod (sa_snapshotId ack) w;
          w = WritePod (sa_baselineId ack) w;
          w = WritePod (sa_ackedInputSequence ack) w
      in WritePod (sa_clientReceivedAtMs ack) w)"

definition DeserializeSnapshotAck :: "byte list \<Rightarrow> SnapshotAckDTO option" where
  "DeserializeSnapshotAck bytes =
     (let r = open_reader bytes;
          (clientId, r) = ReadPod r;
          (snapshotId, r) = ReadPod r;
          (baselineId, r) = ReadPod r;
          (ackedInputSequence, r) = ReadPod r;
          (clientReceivedAtMs, r) = ReadPod r
      in do { clientId \<leftarrow> clientId; snapshotId \<leftarrow> snapshotId;
              baselineId \<leftarrow> baselineId;
              ackedInputSequence \<leftarrow> ackedInputSequence;
              clientReceivedAtMs \<leftarrow> clientReceivedAtMs;
              FinishDecode r \<lparr>sa_clientId = clientId, sa_snapshotId = snapshotId,
                    sa_baselineId = baselineId, sa_ackedInputSequence = ackedInputSequence,
                    sa_clientReceivedAtMs = clientReceivedAtMs\<rparr> })"

text \<open>The fewest bytes of an entity: one without a combat state.\<close>

definition kMinSerializedEntityBytes :: nat where
  "kMinSerializedEntityBytes = 4 + 4 * 4 + 2 * 2 + 1 + 4 + 4 + 1 * 2"

definition SerializeSnapshot :: "SnapshotDTO \<Rightarrow> byte list" where
  "SerializeSnapshot snapshot =
     (let w = [];
          w = WritePod (sn_snapshotId snapshot) w;
          w = WritePod (sn_baselineId snapshot) w;
          w = WriteSnapshotDeliveryKind (sn_deliveryKind snapshot) w;
          w = WritePod (sn_serverTick snapshot) w;
          w = WritePod (sn_serverTimeMs snapshot) w;
          w = WritePod (sn_ackedInputSequence snapshot) w;
          w = WritePod (word_of_nat (length (sn_entities snapshot)) :: u32) w
      in WriteEntities (sn_entities snapshot) w)"

text \<open>The count is checked against the bytes left before it is read.\<close>

definition DeserializeSnapshot :: "byte list \<Rightarrow> SnapshotDTO option" where
  "DeserializeSnapshot bytes =
     (let r = open_reader bytes;
          (snapshotId, r) = ReadPod r;
          (baselineId, r) = ReadPod r;
          (deliveryKind, r) = ReadSnapshotDeliveryKind r;
          (serverTick, r) = ReadPod r;
          (serverTimeMs, r) = ReadPod r;
          (ackedInputSequence, r) = ReadPod r;
          (entityCount, r) = ReadCount (RemainingBytes r div kMinSerializedEntityBytes) r
      in do { snapshotId \<leftarrow> snapshotId; baselineId \<leftarrow> baselineId; deliveryKind \<leftarrow> deliveryKind;
              serverTick \<leftarrow> serverTick; serverTimeMs \<leftarrow> serverTimeMs;
              ackedInputSequence \<leftarrow> ackedInputSequence; entityCount \<leftarrow> entityCount;
              let (entities, r) = ReadEntities (unat entityCount) r;
              entities \<leftarrow> entities;
              FinishDecode r \<lparr>sn_snapshotId = snapshotId, sn_baselineId = baselineId,
                    sn_deliveryKind = deliveryKind, sn_serverTick = serverTick,
                    sn_serverTimeMs = serverTimeMs, sn_ackedInputSequence = ackedInputSequence,
                    sn_entities = entities\<rparr> })"

end
