(* ===== verification/Message_Codecs.thy ===== *)
theory Message_Codecs
  imports Serialization
begin

text \<open>
  The laws of \<open>Serialization\<close>: every field, struct and message obeys the \<open>field_codec\<close> contract,
  and the nine messages interpret the locale \<open>message_codec\<close>.
\<close>

section \<open>Scalar fields\<close>

lemma field_codec_ReadPod [field_codecs]:
  "LENGTH('a::len) = 8 * (LENGTH('a) div 8) \<Longrightarrow>
     field_codec UNIV (\<lambda>v. WritePod (v :: 'a word) []) ReadPod"
  using field_codec_pod [where 'a = 'a and fail = "Fail UnexpectedEof"]
  by (simp add: WritePod_def ReadPod_def [abs_def])

lemma ReadEntityId_eq: "ReadEntityId r = ReadPod r"
  by (simp add: ReadEntityId_def split: prod.splits option.splits)

lemma field_codec_ReadEntityId [field_codecs]:
  "field_codec UNIV (\<lambda>v. WriteEntityId v []) ReadEntityId"
  using field_codec_ReadPod [where 'a = 32]
  by (simp add: WriteEntityId_def ReadEntityId_eq [abs_def])

text \<open>A byte that stands for a value of a finite type, read with its range check.\<close>

lemma field_codec_ranged:
  fixes to :: "'v \<Rightarrow> u8" and rd :: "breader \<Rightarrow> 'v option \<times> breader"
  assumes rd: "\<And>r. rd r = (case ReadPod r of (None, r) \<Rightarrow> (None, r)
      | (Some v, r) \<Rightarrow> if v > mx then (None, fl r) else (Some (cast v), r))"
    and inv: "\<And>x. cast (to x) = x" "\<And>x. to x \<le> mx" "\<And>v. v \<le> mx \<Longrightarrow> to (cast v) = v"
  shows "field_codec UNIV (\<lambda>x. WritePod (to x) []) rd"
proof -
  note pod = field_codec_ReadPod [where 'a = 8, simplified]
  show ?thesis
  proof
    fix x and r :: breader and ys assume "rest_of r = WritePod (to x) [] @ ys"
    from field_codec.read_written [OF pod UNIV_I this]
    show "rd r = (Some x, advance (length (WritePod (to x) [])) r)"
      using inv(1,2) [of x] by (simp add: rd not_less)
  next
    fix x and r r' :: breader assume "rd r = (Some x, r')"
    then obtain v where v: "ReadPod r = (Some v, r')" "v \<le> mx" "x = cast v"
      by (auto simp: rd not_less split: prod.splits option.splits if_splits)
    from field_codec.read_exact [OF pod v(1)] v inv(3)
    show "x \<in> UNIV \<and> r' = advance (length (WritePod (to x) [])) r
        \<and> (\<exists>ys. rest_of r = WritePod (to x) [] @ ys)" by simp
  qed
qed

text \<open>A byte up to a bound is one of finitely many.\<close>

lemma u8_le_cases: "v \<le> mx \<Longrightarrow> (v :: u8) \<in> of_nat ` {..unat mx}"
  by (rule image_eqI [where x = "unat v"]) (simp_all add: word_le_nat_alt)

lemma field_codec_ReadBool [field_codecs]: "field_codec UNIV (\<lambda>b. WriteBool b []) ReadBool"
  unfolding WriteBool_def
proof (rule field_codec_ranged [where mx = 1 and fl = "Fail InvalidBoolean" and cast = "\<lambda>v. v \<noteq> 0"])
  show "(if v \<noteq> 0 then 1 else 0) = v" if "v \<le> 1" for v :: u8
    using u8_le_cases [OF that] by (simp add: atMost_Suc) auto
qed (auto simp: ReadBool_def)

lemma field_codec_ReadEnum:
  fixes to :: "'v \<Rightarrow> u8"
  assumes "\<And>x. cast (to x) = x" "\<And>x. to x \<le> mx" "\<And>v. v \<le> mx \<Longrightarrow> to (cast v) = v"
  shows "field_codec UNIV (\<lambda>x. WritePod (to x) []) (ReadEnum cast mx)"
  by (rule field_codec_ranged [where fl = "Fail InvalidEnum", OF _ assms])
    (simp_all add: ReadEnum_def)


lemma field_codec_ReadWeaponType [field_codecs]:
  "field_codec UNIV (\<lambda>x. WriteWeaponType x []) ReadWeaponType"
  unfolding WriteWeaponType_def ReadWeaponType_def [abs_def]
proof (rule field_codec_ReadEnum, goal_cases)
  case (1 x)
  then show ?case by (cases x) (simp_all add: weapon_of_u8_def)
next
  case (2 x)
  then show ?case by (cases x) (simp_all add: kWeaponTypeCount_def)
next
  case (3 v)
  from u8_le_cases [OF 3] show ?case
    by (simp add: atMost_nat_numeral atMost_Suc kWeaponTypeCount_def, auto simp: weapon_of_u8_def)
qed

lemma field_codec_ReadReplicatedEntityKind [field_codecs]:
  "field_codec UNIV (\<lambda>x. WriteReplicatedEntityKind x []) ReadReplicatedEntityKind"
  unfolding WriteReplicatedEntityKind_def ReadReplicatedEntityKind_def [abs_def]
proof (rule field_codec_ReadEnum, goal_cases)
  case (1 x)
  then show ?case by (cases x) (simp_all add: entity_kind_of_u8_def)
next
  case (2 x)
  then show ?case by (cases x) (simp_all add: kWeaponTypeCount_def)
next
  case (3 v)
  from u8_le_cases [OF 3] show ?case
    by (simp add: atMost_nat_numeral atMost_Suc kWeaponTypeCount_def, auto simp: entity_kind_of_u8_def)
qed

lemma field_codec_ReadSnapshotPriority [field_codecs]:
  "field_codec UNIV (\<lambda>x. WriteSnapshotPriority x []) ReadSnapshotPriority"
  unfolding WriteSnapshotPriority_def ReadSnapshotPriority_def [abs_def]
proof (rule field_codec_ReadEnum, goal_cases)
  case (1 x)
  then show ?case by (cases x) (simp_all add: priority_of_u8_def)
next
  case (2 x)
  then show ?case by (cases x) (simp_all add: kWeaponTypeCount_def)
next
  case (3 v)
  from u8_le_cases [OF 3] show ?case
    by (simp add: atMost_nat_numeral atMost_Suc kWeaponTypeCount_def, auto simp: priority_of_u8_def)
qed

lemma field_codec_ReadSnapshotDeliveryKind [field_codecs]:
  "field_codec UNIV (\<lambda>x. WriteSnapshotDeliveryKind x []) ReadSnapshotDeliveryKind"
  unfolding WriteSnapshotDeliveryKind_def ReadSnapshotDeliveryKind_def [abs_def]
proof (rule field_codec_ReadEnum, goal_cases)
  case (1 x)
  then show ?case by (cases x) (simp_all add: delivery_of_u8_def)
next
  case (2 x)
  then show ?case by (cases x) (simp_all add: kWeaponTypeCount_def)
next
  case (3 v)
  from u8_le_cases [OF 3] show ?case
    by (simp add: atMost_nat_numeral atMost_Suc kWeaponTypeCount_def, auto simp: delivery_of_u8_def)
qed

lemma field_codec_ReadNetworkEventKind [field_codecs]:
  "field_codec UNIV (\<lambda>x. WriteNetworkEventKind x []) ReadNetworkEventKind"
  unfolding WriteNetworkEventKind_def ReadNetworkEventKind_def [abs_def]
proof (rule field_codec_ReadEnum, goal_cases)
  case (1 x)
  then show ?case by (cases x) (simp_all add: event_kind_of_u8_def)
next
  case (2 x)
  then show ?case by (cases x) (simp_all add: kWeaponTypeCount_def)
next
  case (3 v)
  from u8_le_cases [OF 3] show ?case
    by (simp add: atMost_nat_numeral atMost_Suc kWeaponTypeCount_def, auto simp: event_kind_of_u8_def)
qed

section \<open>Structs\<close>

lemmas writer_defs = WriteEntityId_def WriteBool_def WriteWeaponType_def
  WriteReplicatedEntityKind_def WriteSnapshotPriority_def WriteSnapshotDeliveryKind_def
  WriteNetworkEventKind_def WritePod_def

lemmas codec_unfold = read_pair_def read_map_def Let_def writer_defs

lemma field_codec_ReadMovement [field_codecs]: "field_codec UNIV (\<lambda>x. WriteMovement x []) ReadMovement"
  by (rule field_codec_struct
     [where g = "\<lambda>m. (mv_entityId m, mv_x m, mv_y m, mv_vx m, mv_vy m, mv_aimX m, mv_aimY m)"
       and f = "\<lambda>(a0, a1, a2, a3, a4, a5, a6). \<lparr>mv_entityId = a0, mv_x = a1, mv_y = a2, mv_vx = a3, mv_vy = a4,
                    mv_aimX = a5, mv_aimY = a6\<rparr>"
       and p = "read_pair ReadEntityId (read_pair ReadPod (read_pair ReadPod (read_pair ReadPod (read_pair ReadPod (read_pair ReadPod ReadPod)))))"],
      (rule field_codecs | simp)+)
    (auto simp: WriteMovement_def ReadMovement_def codec_unfold split: prod.splits bind_splits)

lemma field_codec_ReadCombat [field_codecs]: "field_codec UNIV (\<lambda>x. WriteCombat x []) ReadCombat"
  by (rule field_codec_struct
     [where g = "\<lambda>m. (cb_entityId m, cb_health m, cb_maxHealth m, cb_weaponType m,
                    cb_weaponWarming m, cb_weaponWarmupCompletesAtMs m, cb_defeated m,
                    cb_respawnAtMs m, cb_serverOwnedProjectile m, cb_projectileOwnerId m)"
       and f = "\<lambda>(a0, a1, a2, a3, a4, a5, a6, a7, a8, a9). \<lparr>cb_entityId = a0, cb_health = a1, cb_maxHealth = a2,
                    cb_weaponType = a3, cb_weaponWarming = a4,
                    cb_weaponWarmupCompletesAtMs = a5, cb_defeated = a6, cb_respawnAtMs = a7,
                    cb_serverOwnedProjectile = a8, cb_projectileOwnerId = a9\<rparr>"
       and p = "read_pair ReadEntityId (read_pair ReadPod (read_pair ReadPod (read_pair ReadWeaponType (read_pair ReadBool (read_pair ReadPod (read_pair ReadBool (read_pair ReadPod (read_pair ReadBool ReadEntityId))))))))"],
      (rule field_codecs | simp)+)
    (auto simp: WriteCombat_def ReadCombat_def codec_unfold split: prod.splits bind_splits)

lemma field_codec_ReadReplication [field_codecs]: "field_codec UNIV (\<lambda>x. WriteReplication x []) ReadReplication"
  by (rule field_codec_struct
     [where g = "\<lambda>m. (rp_entityId m, rp_ownerClientId m, rp_kind m, rp_priority m)"
       and f = "\<lambda>(a0, a1, a2, a3). \<lparr>rp_entityId = a0, rp_ownerClientId = a1, rp_kind = a2,
                    rp_priority = a3\<rparr>"
       and p = "read_pair ReadEntityId (read_pair ReadPod (read_pair ReadReplicatedEntityKind ReadSnapshotPriority))"],
      (rule field_codecs | simp)+)
    (auto simp: WriteReplication_def ReadReplication_def codec_unfold split: prod.splits bind_splits)

text \<open>An optional field behind a boolean: the flag, and the value when it is set.\<close>

definition read_optional ::
    "('e reader \<Rightarrow> bool option \<times> 'e reader) \<Rightarrow> ('e reader \<Rightarrow> 'a option \<times> 'e reader)
     \<Rightarrow> 'e reader \<Rightarrow> 'a option option \<times> 'e reader" where
  "read_optional flag p = read_dep flag (\<lambda>b. if b then read_map Some p else Pair (Some None))"

definition enc_optional :: "('a \<Rightarrow> byte list) \<Rightarrow> 'a option \<Rightarrow> byte list" where
  "enc_optional e x = (case x of None \<Rightarrow> [] | Some y \<Rightarrow> e y)"

lemma field_codec_empty: "field_codec {x} (\<lambda>_. []) (Pair (Some x))"
  by unfold_locales auto

lemma field_codec_optional:
  fixes p :: "'e reader \<Rightarrow> 'a option \<times> 'e reader"
  assumes "field_codec UNIV ef flag" and "field_codec UNIV e p"
  shows "field_codec UNIV (\<lambda>x. ef (x \<noteq> None) @ enc_optional e x) (read_optional flag p)"
proof -
  let ?B = "\<lambda>b. if b then range Some else {None :: 'a option}"
  have some: "field_codec (range Some) (\<lambda>y. e (the y)) (read_map Some p)"
    by (rule field_codec_map [OF assms(2)]) auto
  have "field_codec UNIV (\<lambda>y. ef (y \<noteq> None) @ (if y \<noteq> None then e (the y) else []))
      (read_dep flag (\<lambda>b. if b then read_map Some p else Pair (Some None)))"
    by (rule field_codec_dep [where B = ?B and h = "\<lambda>y. y \<noteq> None"
          and ?e2.0 = "\<lambda>b y. if b then e (the y) else []", OF assms(1)])
      (auto simp: some field_codec_empty split: if_splits)
  then show ?thesis
    by (rule field_codec_cong) (auto simp: enc_optional_def read_optional_def split: option.splits)
qed

lemma WriteEntity_fields:
  "WriteEntity e [] = WriteMovement (es_movement e) []
     @ (WriteBool (es_combat e \<noteq> None) [] @ enc_optional (\<lambda>c. WriteCombat c []) (es_combat e))
     @ WriteReplication (es_replication e) []"
  by (simp add: WriteEntity_def enc_optional_def WriteMovement_def WriteCombat_def
      WriteReplication_def Let_def writer_defs split: option.splits)

lemma WriteEntity_app: "WriteEntity e w = w @ WriteEntity e []"
  by (simp add: WriteEntity_def WriteMovement_def WriteCombat_def WriteReplication_def Let_def
      writer_defs split: option.splits)

lemma ReadEntity_fields:
  "ReadEntity r = (Some e, r') \<longleftrightarrow> read_map (\<lambda>(m, c, p). \<lparr>es_movement = m, es_combat = c,
     es_replication = p\<rparr>) (read_pair ReadMovement (read_pair (read_optional ReadBool ReadCombat)
     ReadReplication)) r = (Some e, r')"
  by (simp add: ReadEntity_def read_map_def read_pair_def read_optional_def read_dep_def
      split: prod.splits option.splits bind_splits)

lemma field_codec_ReadEntity [field_codecs]: "field_codec UNIV (\<lambda>x. WriteEntity x []) ReadEntity"
proof (rule field_codec_cong_some [OF field_codec_map [where
      g = "\<lambda>e. (es_movement e, es_combat e, es_replication e)"]])
  show "field_codec (UNIV \<times> UNIV \<times> UNIV) (\<lambda>(m, c, p). WriteMovement m []
      @ (\<lambda>(c, p). (WriteBool (c \<noteq> None) [] @ enc_optional (\<lambda>c. WriteCombat c []) c)
           @ WriteReplication p []) (c, p))
     (read_pair ReadMovement (read_pair (read_optional ReadBool ReadCombat) ReadReplication))"
    using field_codec_pair [OF field_codec_ReadMovement field_codec_pair [OF field_codec_optional
        [OF field_codec_ReadBool field_codec_ReadCombat] field_codec_ReadReplication]]
    by (simp add: case_prod_beta')
qed (simp_all add: WriteEntity_fields ReadEntity_fields split: prod.splits)

section \<open>Lists of entities\<close>

lemma WriteEntities_eq: "WriteEntities es w = w @ concat (map (\<lambda>e. WriteEntity e []) es)"
proof (induction es arbitrary: w)
  case (Cons e es)
  then show ?case using WriteEntity_app [of e w] by simp
qed simp

text \<open>An entity takes at least \<open>kMinSerializedEntityBytes\<close>.\<close>

lemma WriteEntity_min: "kMinSerializedEntityBytes \<le> length (WriteEntity e [])"
  by (simp add: WriteEntity_def WriteMovement_def WriteCombat_def WriteReplication_def Let_def
      writer_defs kMinSerializedEntityBytes_def split: option.splits)

lemma WriteEntities_min: "length es * kMinSerializedEntityBytes \<le> length (WriteEntities es [])"
proof (induction es)
  case (Cons e es)
  then show ?case using WriteEntity_min [of e] by (simp add: WriteEntities_eq)
qed simp

lemma field_codec_ReadEntities:
  "field_codec {es. length es = n} (\<lambda>es. WriteEntities es []) (ReadEntities n)"
proof (induction n)
  case 0
  show ?case by unfold_locales auto
next
  case (Suc n)
  have "field_codec {es. length es = Suc n}
      (\<lambda>es. (\<lambda>(e, es). WriteEntity e [] @ WriteEntities es []) (hd es, tl es))
      (read_map (\<lambda>(e, es). e # es) (read_pair ReadEntity (ReadEntities n)))"
    by (rule field_codec_map [OF field_codec_pair [OF field_codec_ReadEntity Suc.IH]])
      (auto simp: length_Suc_conv)
  then show ?case
    by (rule field_codec_cong_some)
      (auto simp: length_Suc_conv WriteEntities_eq read_map_def read_pair_def
        split: prod.splits option.splits bind_splits)
qed

text \<open>
  The count and the entities after it. The check of the count against the remaining bytes never
  rejects what was written, since every entity takes its minimum.
\<close>

definition ReadEntityList :: "breader \<Rightarrow> EntityStateDTO list option \<times> breader" where
  "ReadEntityList r =
     (case ReadCount (RemainingBytes r div kMinSerializedEntityBytes) r of
        (None, r) \<Rightarrow> (None, r)
      | (Some n, r) \<Rightarrow> ReadEntities (unat n) r)"

definition WriteEntityList :: "EntityStateDTO list \<Rightarrow> byte list" where
  "WriteEntityList es = WritePod (word_of_nat (length es) :: u32) [] @ WriteEntities es []"

lemma ReadCount_Some:
  "ReadCount m r = (Some n, r') \<longleftrightarrow> ReadPod r = (Some n, r') \<and> unat n \<le> m"
  by (auto simp: ReadCount_def split: prod.splits option.splits)

lemma field_codec_ReadEntityList [field_codecs]:
  "field_codec {es. length es < 2 ^ 32} WriteEntityList ReadEntityList"
proof -
  note pod = field_codec_ReadPod [where 'a = 32, simplified]
  show ?thesis
  proof
    fix es and r :: breader and ys
    assume "es \<in> {es. length es < 2 ^ 32}" and rest: "rest_of r = WriteEntityList es @ ys"
    then have n: "unat (word_of_nat (length es) :: u32) = length es"
      by (simp add: unat_of_nat)
    have "ReadPod r = (Some (word_of_nat (length es) :: u32), advance 4 r)"
      using field_codec.read_written [OF pod UNIV_I, of r "word_of_nat (length es)"] rest
      by (simp add: WriteEntityList_def WritePod_def)
    moreover have "length es \<le> RemainingBytes r div kMinSerializedEntityBytes"
      using WriteEntities_min [of es] arg_cong [OF rest, of length]
      by (simp add: rest_of_def WriteEntityList_def RemainingBytes_def less_eq_div_iff_mult_less_eq
          kMinSerializedEntityBytes_def)
    moreover have "rest_of (advance 4 r) = WriteEntities es [] @ ys"
      using rest by (simp add: rest_of_advance WriteEntityList_def WritePod_def)
    note field_codec.read_written [OF field_codec_ReadEntities _ this, of "length es"]
    ultimately show "ReadEntityList r = (Some es, advance (length (WriteEntityList es)) r)"
      by (simp add: ReadEntityList_def ReadCount_def n WriteEntityList_def WritePod_def)
  next
    fix es and r r' :: breader
    assume "ReadEntityList r = (Some es, r')"
    then obtain n :: u32 and r1 where n: "ReadPod r = (Some n, r1)" and es: "ReadEntities (unat n) r1 = (Some es, r')"
      by (auto simp: ReadEntityList_def ReadCount_Some split: prod.splits option.splits)
    have len: "length es = unat n"
      using field_codec.read_exact [OF field_codec_ReadEntities es] by simp
    then show "es \<in> {es. length es < 2 ^ 32} \<and> r' = advance (length (WriteEntityList es)) r
        \<and> (\<exists>ys. rest_of r = WriteEntityList es @ ys)"
      using field_codec.read_exact [OF field_codec_ReadEntities es] field_codec.read_exact [OF pod n]
        unsigned_less [of n, where ?'a = nat]
      by (auto simp: WriteEntityList_def rest_of_advance)
  qed
qed

section \<open>Event payloads\<close>

lemma field_codec_PlayerSpawned [field_codecs]:
  "field_codec {p. KindForPayload p = Kind_PlayerSpawned} (\<lambda>p. WriteEventPayload p [])
     (ReadEventPayload Kind_PlayerSpawned)"
  by (rule field_codec_view
     [where f = "\<lambda>(a0, a1, a2, a3). PlayerSpawnedEventDTO a0 a1 a2 a3"
       and g = "\<lambda>p. case p of PlayerSpawnedEventDTO a0 a1 a2 a3 \<Rightarrow> (a0, a1, a2, a3)"
       and p = "read_pair ReadEntityId (read_pair ReadPod (read_pair ReadPod ReadPod))"],
      (rule field_codecs | simp)+)
    (auto elim!: KindForPayload.elims simp: codec_unfold split: prod.splits bind_splits)

lemma field_codec_WeaponWarmupStarted [field_codecs]:
  "field_codec {p. KindForPayload p = Kind_WeaponWarmupStarted} (\<lambda>p. WriteEventPayload p [])
     (ReadEventPayload Kind_WeaponWarmupStarted)"
  by (rule field_codec_view
     [where f = "\<lambda>(a0, a1, a2, a3). WeaponWarmupStartedEventDTO a0 a1 a2 a3"
       and g = "\<lambda>p. case p of WeaponWarmupStartedEventDTO a0 a1 a2 a3 \<Rightarrow> (a0, a1, a2, a3)"
       and p = "read_pair ReadEntityId (read_pair ReadPod (read_pair ReadPod ReadWeaponType))"],
      (rule field_codecs | simp)+)
    (auto elim!: KindForPayload.elims simp: codec_unfold split: prod.splits bind_splits)

lemma field_codec_BowFired [field_codecs]:
  "field_codec {p. KindForPayload p = Kind_BowFired} (\<lambda>p. WriteEventPayload p [])
     (ReadEventPayload Kind_BowFired)"
  by (rule field_codec_view
     [where f = "\<lambda>(a0, a1, a2). WeaponFiredEventDTO a0 a1 a2"
       and g = "\<lambda>p. case p of WeaponFiredEventDTO a0 a1 a2 \<Rightarrow> (a0, a1, a2)"
       and p = "read_pair ReadEntityId (read_pair ReadPod ReadWeaponType)"],
      (rule field_codecs | simp)+)
    (auto elim!: KindForPayload.elims simp: codec_unfold split: prod.splits bind_splits)

lemma field_codec_ProjectileSpawned [field_codecs]:
  "field_codec {p. KindForPayload p = Kind_ProjectileSpawned} (\<lambda>p. WriteEventPayload p [])
     (ReadEventPayload Kind_ProjectileSpawned)"
  by (rule field_codec_view
     [where f = "\<lambda>(a0, a1, a2, a3, a4). ProjectileSpawnedEventDTO a0 a1 a2 a3 a4"
       and g = "\<lambda>p. case p of ProjectileSpawnedEventDTO a0 a1 a2 a3 a4 \<Rightarrow> (a0, a1, a2, a3, a4)"
       and p = "read_pair ReadEntityId (read_pair ReadEntityId (read_pair ReadPod (read_pair ReadPod ReadWeaponType)))"],
      (rule field_codecs | simp)+)
    (auto elim!: KindForPayload.elims simp: codec_unfold split: prod.splits bind_splits)

lemma field_codec_HitConfirmed [field_codecs]:
  "field_codec {p. KindForPayload p = Kind_HitConfirmed} (\<lambda>p. WriteEventPayload p [])
     (ReadEventPayload Kind_HitConfirmed)"
  by (rule field_codec_view
     [where f = "\<lambda>(a0, a1, a2, a3). HitConfirmedEventDTO a0 a1 a2 a3"
       and g = "\<lambda>p. case p of HitConfirmedEventDTO a0 a1 a2 a3 \<Rightarrow> (a0, a1, a2, a3)"
       and p = "read_pair ReadEntityId (read_pair ReadEntityId (read_pair ReadEntityId ReadPod))"],
      (rule field_codecs | simp)+)
    (auto elim!: KindForPayload.elims simp: codec_unfold split: prod.splits bind_splits)

lemma field_codec_PlayerDamaged [field_codecs]:
  "field_codec {p. KindForPayload p = Kind_PlayerDamaged} (\<lambda>p. WriteEventPayload p [])
     (ReadEventPayload Kind_PlayerDamaged)"
  by (rule field_codec_view
     [where f = "\<lambda>(a0, a1, a2, a3). PlayerDamagedEventDTO a0 a1 a2 a3"
       and g = "\<lambda>p. case p of PlayerDamagedEventDTO a0 a1 a2 a3 \<Rightarrow> (a0, a1, a2, a3)"
       and p = "read_pair ReadEntityId (read_pair ReadEntityId (read_pair ReadPod ReadPod))"],
      (rule field_codecs | simp)+)
    (auto elim!: KindForPayload.elims simp: codec_unfold split: prod.splits bind_splits)

lemma field_codec_PlayerDied [field_codecs]:
  "field_codec {p. KindForPayload p = Kind_PlayerDied} (\<lambda>p. WriteEventPayload p [])
     (ReadEventPayload Kind_PlayerDied)"
  by (rule field_codec_view
     [where f = "\<lambda>(a0, a1, a2). PlayerDiedEventDTO a0 a1 a2"
       and g = "\<lambda>p. case p of PlayerDiedEventDTO a0 a1 a2 \<Rightarrow> (a0, a1, a2)"
       and p = "read_pair ReadEntityId (read_pair ReadEntityId ReadPod)"],
      (rule field_codecs | simp)+)
    (auto elim!: KindForPayload.elims simp: codec_unfold split: prod.splits bind_splits)

lemma field_codec_PlayerRespawned [field_codecs]:
  "field_codec {p. KindForPayload p = Kind_PlayerRespawned} (\<lambda>p. WriteEventPayload p [])
     (ReadEventPayload Kind_PlayerRespawned)"
  by (rule field_codec_view
     [where f = "\<lambda>(a0, a1, a2). PlayerRespawnedEventDTO a0 a1 a2"
       and g = "\<lambda>p. case p of PlayerRespawnedEventDTO a0 a1 a2 \<Rightarrow> (a0, a1, a2)"
       and p = "read_pair ReadEntityId (read_pair ReadPod ReadPod)"],
      (rule field_codecs | simp)+)
    (auto elim!: KindForPayload.elims simp: codec_unfold split: prod.splits bind_splits)

lemma field_codec_EntityEnteredInterest [field_codecs]:
  "field_codec {p. KindForPayload p = Kind_EntityEnteredInterest} (\<lambda>p. WriteEventPayload p [])
     (ReadEventPayload Kind_EntityEnteredInterest)"
  by (rule field_codec_view
     [where f = "\<lambda>(a0, a1). EntityEnteredInterestEventDTO a0 a1"
       and g = "\<lambda>p. case p of EntityEnteredInterestEventDTO a0 a1 \<Rightarrow> (a0, a1)"
       and p = "read_pair ReadEntityId ReadPod"],
      (rule field_codecs | simp)+)
    (auto elim!: KindForPayload.elims simp: codec_unfold split: prod.splits bind_splits)

lemma field_codec_EntityLeftInterest [field_codecs]:
  "field_codec {p. KindForPayload p = Kind_EntityLeftInterest} (\<lambda>p. WriteEventPayload p [])
     (ReadEventPayload Kind_EntityLeftInterest)"
  by (rule field_codec_view
     [where f = "\<lambda>(a0, a1). EntityLeftInterestEventDTO a0 a1"
       and g = "\<lambda>p. case p of EntityLeftInterestEventDTO a0 a1 \<Rightarrow> (a0, a1)"
       and p = "read_pair ReadEntityId ReadPod"],
      (rule field_codecs | simp)+)
    (auto elim!: KindForPayload.elims simp: codec_unfold split: prod.splits bind_splits)

section \<open>The contract of a message\<close>

text \<open>
  \<open>A\<close> holds the values the sender may encode. Everything a receiver relies on follows from the two
  laws: the round trip, and the rejection of truncated, extended and foreign byte strings.
\<close>

locale message_codec =
  fixes A :: "'a set" and enc :: "'a \<Rightarrow> byte list" and dec :: "byte list \<Rightarrow> 'a option"
  assumes dec_iff: "dec bs = Some x \<longleftrightarrow> x \<in> A \<and> bs = enc x"
    and no_prefix: "x \<in> A \<Longrightarrow> y \<in> A \<Longrightarrow> enc x @ xs = enc y @ ys \<Longrightarrow> x = y"
begin

lemma round_trip: "x \<in> A \<Longrightarrow> dec (enc x) = Some x"
  by (simp add: dec_iff)

lemma trailing_rejected: "x \<in> A \<Longrightarrow> ys \<noteq> [] \<Longrightarrow> dec (enc x @ ys) = None"
proof (rule ccontr)
  assume "x \<in> A" "ys \<noteq> []" "dec (enc x @ ys) \<noteq> None"
  then obtain y where "y \<in> A" "enc x @ ys = enc y" by (auto simp: dec_iff)
  with no_prefix [of x y ys "[]"] \<open>x \<in> A\<close> \<open>ys \<noteq> []\<close> show False by simp
qed

lemma truncated_rejected: "x \<in> A \<Longrightarrow> n < length (enc x) \<Longrightarrow> dec (take n (enc x)) = None"
proof (rule ccontr)
  assume "x \<in> A" "n < length (enc x)" "dec (take n (enc x)) \<noteq> None"
  then obtain y where y: "y \<in> A" "take n (enc x) = enc y" by (auto simp: dec_iff)
  have "enc x @ [] = enc y @ drop n (enc x)" using y by (metis append_Nil2 append_take_drop_id)
  with no_prefix [OF \<open>x \<in> A\<close> y(1)] y(2) \<open>n < length (enc x)\<close> show False
    by (metis length_take less_imp_le_nat min.absorb2 nat_neq_iff)
qed

lemma canonical: "dec bs = Some x \<Longrightarrow> dec bs' = Some x \<Longrightarrow> bs = bs'"
  by (simp add: dec_iff)

end

text \<open>A message read by a codec and closed with \<open>FinishDecode\<close>.\<close>

definition decode_with :: "(breader \<Rightarrow> 'a option \<times> breader) \<Rightarrow> byte list \<Rightarrow> 'a option" where
  "decode_with rd bs =
     (case rd (open_reader bs) of (None, r) \<Rightarrow> None | (Some x, r) \<Rightarrow> FinishDecode r x)"

lemma message_codec_decode:
  fixes rd :: "breader \<Rightarrow> 'a option \<times> breader"
  assumes codec: "field_codec A enc rd" and dec: "\<And>bs. dec bs = decode_with rd bs"
  shows "message_codec A enc dec"
proof
  fix bs x
  have "decode_with rd bs = Some x \<longleftrightarrow> (\<exists>r'. rd (open_reader bs) = (Some x, r')
      \<and> rd_offset r' = length bs)"
    by (auto simp: decode_with_def FinishDecode_def Finish_def open_reader_def
        dest: field_codec.read_exact [OF codec] split: prod.splits option.splits if_splits)
  then show "dec bs = Some x \<longleftrightarrow> x \<in> A \<and> bs = enc x"
    using field_codec.decode_iff [OF codec] by (simp add: dec open_reader_def)
next
  show "\<And>x y xs ys. x \<in> A \<Longrightarrow> y \<in> A \<Longrightarrow> enc x @ xs = enc y @ ys \<Longrightarrow> x = y"
    by (rule field_codec.prefix_free [OF codec])
qed

text \<open>A message whose fields are read in a row and put into its record.\<close>

lemma message_codec_struct:
  fixes p :: "breader \<Rightarrow> 'a option \<times> breader"
  assumes "field_codec B e p" and "\<And>x. x \<in> B \<Longrightarrow> f x \<in> A" and "\<And>y. y \<in> A \<Longrightarrow> g y \<in> B"
    and "\<And>x. g (f x) = x" and "\<And>y. f (g y) = y"
    and "\<And>y. enc y = e (g y)" and "\<And>bs. dec bs = decode_with (read_map f p) bs"
  shows "message_codec A enc dec"
proof (rule message_codec_decode)
  show "field_codec A enc (read_map f p)"
    using field_codec_map [OF assms(1), where f = f and g = g and B = A] assms(2-6)
    by (simp add: assms(6) [abs_def])
qed (rule assms(7))

section \<open>The messages\<close>

interpretation movement_msg: message_codec UNIV SerializeMovementState DeserializeMovementState
  by (rule message_codec_decode [where rd = ReadMovement])
    (use field_codec_ReadMovement in \<open>simp_all add: SerializeMovementState_def [abs_def] Let_def
       DeserializeMovementState_def decode_with_def\<close>)

interpretation login_msg: message_codec UNIV SerializeLoginCommand DeserializeLoginCommand
  by (rule message_codec_struct
     [where g = "\<lambda>m. (hd_clientId (lg_header m), hd_sequence (lg_header m),
                    hd_clientTimestampMs (lg_header m))"
       and f = "\<lambda>(a0, a1, a2). \<lparr>lg_header = \<lparr>hd_clientId = a0, hd_sequence = a1,
                    hd_clientTimestampMs = a2\<rparr>\<rparr>"
       and p = "read_pair ReadPod (read_pair ReadPod ReadPod)"],
      (rule field_codecs | simp)+)
    (auto simp: SerializeLoginCommand_def DeserializeLoginCommand_def decode_with_def codec_unfold
     split: prod.splits bind_splits option.splits)

interpretation input_msg: message_codec UNIV SerializeClientInputPacket DeserializeClientInputPacket
  by (rule message_codec_struct
     [where g = "\<lambda>m. (hd_clientId (ip_header m), hd_sequence (ip_header m),
                    hd_clientTimestampMs (ip_header m), if_moveX (ip_input m),
                    if_moveY (ip_input m), if_aimX (ip_input m), if_aimY (ip_input m),
                    if_fire (ip_input m))"
       and f = "\<lambda>(a0, a1, a2, a3, a4, a5, a6, a7). \<lparr>ip_header = \<lparr>hd_clientId = a0, hd_sequence = a1,
                    hd_clientTimestampMs = a2\<rparr>, ip_input = \<lparr>if_moveX = a3,
                    if_moveY = a4, if_aimX = a5, if_aimY = a6, if_fire = a7\<rparr>\<rparr>"
       and p = "read_pair ReadPod (read_pair ReadPod (read_pair ReadPod (read_pair ReadPod (read_pair ReadPod (read_pair ReadPod (read_pair ReadPod ReadBool))))))"],
      (rule field_codecs | simp)+)
    (auto simp: SerializeClientInputPacket_def DeserializeClientInputPacket_def decode_with_def codec_unfold
     split: prod.splits bind_splits option.splits)

interpretation sync_request_msg: message_codec UNIV SerializeTimeSyncRequest DeserializeTimeSyncRequest
  by (rule message_codec_struct
     [where g = "\<lambda>m. (tq_clientId m, tq_sequence m, tq_clientSentAtMs m)"
       and f = "\<lambda>(a0, a1, a2). \<lparr>tq_clientId = a0, tq_sequence = a1, tq_clientSentAtMs = a2\<rparr>"
       and p = "read_pair ReadPod (read_pair ReadPod ReadPod)"],
      (rule field_codecs | simp)+)
    (auto simp: SerializeTimeSyncRequest_def DeserializeTimeSyncRequest_def decode_with_def codec_unfold
     split: prod.splits bind_splits option.splits)

interpretation sync_response_msg: message_codec UNIV SerializeTimeSyncResponse DeserializeTimeSyncResponse
  by (rule message_codec_struct
     [where g = "\<lambda>m. (tr_clientId m, tr_sequence m, tr_clientSentAtMs m, tr_serverReceivedAtMs m,
                    tr_serverSentAtMs m)"
       and f = "\<lambda>(a0, a1, a2, a3, a4). \<lparr>tr_clientId = a0, tr_sequence = a1, tr_clientSentAtMs = a2,
                    tr_serverReceivedAtMs = a3, tr_serverSentAtMs = a4\<rparr>"
       and p = "read_pair ReadPod (read_pair ReadPod (read_pair ReadPod (read_pair ReadPod ReadPod)))"],
      (rule field_codecs | simp)+)
    (auto simp: SerializeTimeSyncResponse_def DeserializeTimeSyncResponse_def decode_with_def codec_unfold
     split: prod.splits bind_splits option.splits)

interpretation event_ack_msg: message_codec UNIV SerializeNetworkEventAck DeserializeNetworkEventAck
  by (rule message_codec_struct
     [where g = "\<lambda>m. (na_clientId m, na_eventId m, na_clientReceivedAtMs m)"
       and f = "\<lambda>(a0, a1, a2). \<lparr>na_clientId = a0, na_eventId = a1,
                    na_clientReceivedAtMs = a2\<rparr>"
       and p = "read_pair ReadPod (read_pair ReadPod ReadPod)"],
      (rule field_codecs | simp)+)
    (auto simp: SerializeNetworkEventAck_def DeserializeNetworkEventAck_def decode_with_def codec_unfold
     split: prod.splits bind_splits option.splits)

interpretation snapshot_ack_msg: message_codec UNIV SerializeSnapshotAck DeserializeSnapshotAck
  by (rule message_codec_struct
     [where g = "\<lambda>m. (sa_clientId m, sa_snapshotId m, sa_baselineId m, sa_ackedInputSequence m,
                    sa_clientReceivedAtMs m)"
       and f = "\<lambda>(a0, a1, a2, a3, a4). \<lparr>sa_clientId = a0, sa_snapshotId = a1, sa_baselineId = a2,
                    sa_ackedInputSequence = a3, sa_clientReceivedAtMs = a4\<rparr>"
       and p = "read_pair ReadPod (read_pair ReadPod (read_pair ReadPod (read_pair ReadPod ReadPod)))"],
      (rule field_codecs | simp)+)
    (auto simp: SerializeSnapshotAck_def DeserializeSnapshotAck_def decode_with_def codec_unfold
     split: prod.splits bind_splits option.splits)

text \<open>The payload, read by the kind before it.\<close>

lemma field_codec_ReadEventPayload:
  "field_codec {p. KindForPayload p = k} (\<lambda>p. WriteEventPayload p []) (ReadEventPayload k)"
  by (cases k) (simp_all add: field_codecs)

lemma field_codec_payload [field_codecs]:
  "field_codec UNIV (\<lambda>p. WriteNetworkEventKind (KindForPayload p) [] @ WriteEventPayload p [])
     (read_dep ReadNetworkEventKind ReadEventPayload)"
  by (rule field_codec_dep [where B = "\<lambda>k. {p. KindForPayload p = k}" and h = KindForPayload
        and ?e2.0 = "\<lambda>k p. WriteEventPayload p []",
        OF field_codec_ReadNetworkEventKind field_codec_ReadEventPayload]) auto

lemma WriteEventPayload_app: "WriteEventPayload p w = w @ WriteEventPayload p []"
  by (cases p) (simp_all add: writer_defs)

interpretation event_msg: message_codec UNIV SerializeNetworkEvent DeserializeNetworkEvent
proof (rule message_codec_struct
     [where g = "\<lambda>m. (ne_eventId m, ne_serverTick m, ne_serverTimeMs m, ne_payload m)"
       and f = "\<lambda>(a0, a1, a2, a3). \<lparr>ne_eventId = a0, ne_serverTick = a1, ne_serverTimeMs = a2,
                   ne_payload = a3\<rparr>"
       and p = "read_pair ReadPod (read_pair ReadPod (read_pair ReadPod
                  (read_dep ReadNetworkEventKind ReadEventPayload)))"],
      (rule field_codecs | simp)+)
  show "SerializeNetworkEvent m = (case (ne_eventId m, ne_serverTick m, ne_serverTimeMs m, ne_payload m)
      of (x, y) \<Rightarrow> WritePod x [] @ (case y of (x, y) \<Rightarrow> WritePod x [] @ (case y of (x, y) \<Rightarrow>
        WritePod x [] @ WriteNetworkEventKind (KindForPayload y) [] @ WriteEventPayload y [])))" for m
    by (simp add: SerializeNetworkEvent_def KindForNetworkEvent_def Let_def writer_defs)
      (subst WriteEventPayload_app, simp)
qed (auto simp: DeserializeNetworkEvent_def decode_with_def read_pair_def read_map_def read_dep_def
     Let_def split: prod.splits bind_splits option.splits)

interpretation snapshot_msg: message_codec "{s. length (sn_entities s) < 2 ^ 32}" SerializeSnapshot
  DeserializeSnapshot
proof (rule message_codec_struct
     [where g = "\<lambda>m. (sn_snapshotId m, sn_baselineId m, sn_deliveryKind m, sn_serverTick m,
                   sn_serverTimeMs m, sn_ackedInputSequence m, sn_entities m)"
       and f = "\<lambda>(a0, a1, a2, a3, a4, a5, a6). \<lparr>sn_snapshotId = a0, sn_baselineId = a1,
                   sn_deliveryKind = a2, sn_serverTick = a3, sn_serverTimeMs = a4,
                   sn_ackedInputSequence = a5, sn_entities = a6\<rparr>"
       and p = "read_pair ReadPod (read_pair ReadPod (read_pair ReadSnapshotDeliveryKind
                  (read_pair ReadPod (read_pair ReadPod (read_pair ReadPod ReadEntityList)))))"],
      (rule field_codecs | simp)+)
  show "DeserializeSnapshot bs = decode_with (read_map (\<lambda>(a0, a1, a2, a3, a4, a5, a6).
      \<lparr>sn_snapshotId = a0, sn_baselineId = a1, sn_deliveryKind = a2, sn_serverTick = a3,
       sn_serverTimeMs = a4, sn_ackedInputSequence = a5, sn_entities = a6\<rparr>)
     (read_pair ReadPod (read_pair ReadPod (read_pair ReadSnapshotDeliveryKind
        (read_pair ReadPod (read_pair ReadPod (read_pair ReadPod ReadEntityList))))))) bs" for bs
  proof -
    obtain a0 r0 where 0: "ReadPod (open_reader bs) = (a0 :: u32 option, r0)" by fastforce
    obtain a1 r1 where 1: "ReadPod r0 = (a1 :: u32 option, r1)" by fastforce
    obtain a2 r2 where 2: "ReadSnapshotDeliveryKind r1 = (a2, r2)" by fastforce
    obtain a3 r3 where 3: "ReadPod r2 = (a3 :: u64 option, r3)" by fastforce
    obtain a4 r4 where 4: "ReadPod r3 = (a4 :: u64 option, r4)" by fastforce
    obtain a5 r5 where 5: "ReadPod r4 = (a5 :: u32 option, r5)" by fastforce
    obtain n r6 where 6: "ReadCount (RemainingBytes r5 div kMinSerializedEntityBytes) r5 = (n, r6)"
      by fastforce
    note unfold = DeserializeSnapshot_def decode_with_def read_pair_def read_map_def Let_def
      ReadEntityList_def 0 1 2 3 4 5 6
    show ?thesis
    proof (cases "a0 = None \<or> a1 = None \<or> a2 = None \<or> a3 = None \<or> a4 = None \<or> a5 = None \<or> n = None")
      case True
      then show ?thesis by (elim disjE) (simp_all add: unfold split: prod.splits option.splits)
    next
      case False
      then show ?thesis by (auto simp: unfold split: prod.splits option.splits bind_splits)
    qed
  qed
qed (auto simp: SerializeSnapshot_def WriteEntities_eq WriteEntityList_def Let_def writer_defs)

end
