(* ===== verification/Snapshot_Store.thy ===== *)
theory Snapshot_Store
  imports Game_Types
begin

text \<open>
  The bounded stores of snapshots: the server's per-client baselines
  (\<open>src/GameLogic/src/SnapshotBaselineCache.cpp\<close>) and the lag-compensation history with the
  service that queries it (\<open>LagCompensation.hpp\<close>, \<open>LagCompensation.cpp\<close>).

  Both stores append and then drop from the front down to a limit. The locale
  \<open>bounded_history\<close> states that contract; each store interprets it.
\<close>

section \<open>Bounded histories\<close>

locale bounded_history =
  fixes put :: "'a \<Rightarrow> 'h \<Rightarrow> 'h" and entries :: "'h \<Rightarrow> 'a list" and limit :: "'h \<Rightarrow> nat"
  assumes entries_put: "entries (put x h) = pop_front_to (limit h) (entries h @ [x])"
    and limit_put: "limit (put x h) = limit h"
begin

lemma length_put: "length (entries (put x h)) \<le> limit h"
  by (simp add: entries_put)

lemma newest_put: "0 < limit h \<Longrightarrow> last (entries (put x h)) = x"
  by (simp add: entries_put last_pop_front_to)

lemma limit_fold: "limit (fold put xs h) = limit h"
  by (induction xs arbitrary: h) (simp_all add: limit_put)

text \<open>The store is the last \<open>limit\<close> entries of everything that was put.\<close>

lemma entries_fold:
  assumes "length (entries h) \<le> limit h"
  shows "entries (fold put xs h) = pop_front_to (limit h) (entries h @ xs)"
  using assms
proof (induction xs arbitrary: h)
  case Nil
  then show ?case by (simp add: pop_front_to_drop)
next
  case (Cons x xs)
  have "length (entries (put x h)) \<le> limit (put x h)" by (simp add: limit_put length_put)
  from Cons.IH [OF this] show ?case by (simp add: entries_put limit_put pop_front_to_append)
qed

lemma length_fold:
  "length (entries h) \<le> limit h \<Longrightarrow> length (entries (fold put xs h)) \<le> limit h"
  by (simp add: entries_fold)

end

section \<open>The baseline cache\<close>

record SnapshotBaselineCacheConfig =
  maxBaselinesPerClient :: nat

definition default_BaselineConfig :: SnapshotBaselineCacheConfig where
  "default_BaselineConfig = \<lparr>maxBaselinesPerClient = 32\<rparr>"

record SnapshotBaselineDecision =
  bd_requestedBaselineId :: SnapshotId
  bd_effectiveBaselineId :: SnapshotId
  bd_deliveryKind :: SnapshotDeliveryKind
  bd_baselineAvailable :: bool

record SnapshotBaselineCache =
  bc_config :: SnapshotBaselineCacheConfig
  bc_baselinesByClient :: "(ClientId, SnapshotDTO list) umap"

definition new_BaselineCache :: "SnapshotBaselineCacheConfig \<Rightarrow> SnapshotBaselineCache" where
  "new_BaselineCache config = \<lparr>bc_config = config, bc_baselinesByClient = []\<rparr>"

text \<open>\<open>baselinesByClient_[clientId]\<close> makes an empty vector for a new client.\<close>

definition client_baselines :: "ClientId \<Rightarrow> SnapshotBaselineCache \<Rightarrow> SnapshotDTO list" where
  "client_baselines clientId cache =
     (case um_find (bc_baselinesByClient cache) clientId of None \<Rightarrow> [] | Some bs \<Rightarrow> bs)"

definition Store :: "ClientId \<Rightarrow> SnapshotDTO \<Rightarrow> SnapshotBaselineCache \<Rightarrow> SnapshotBaselineCache" where
  "Store clientId snapshot cache =
     (let baselines = client_baselines clientId cache @ [snapshot];
          baselines = pop_front_to (maxBaselinesPerClient (bc_config cache)) baselines
      in cache\<lparr>bc_baselinesByClient := um_put clientId baselines (bc_baselinesByClient cache)\<rparr>)"

definition Find_baseline :: "SnapshotBaselineCache \<Rightarrow> ClientId \<Rightarrow> SnapshotId \<Rightarrow> SnapshotDTO option" where
  "Find_baseline cache clientId snapshotId =
     (case um_find (bc_baselinesByClient cache) clientId of
        None \<Rightarrow> None
      | Some baselines \<Rightarrow> find (\<lambda>s. sn_snapshotId s = snapshotId) baselines)"

definition LatestBaselineId :: "SnapshotBaselineCache \<Rightarrow> ClientId \<Rightarrow> SnapshotId option" where
  "LatestBaselineId cache clientId =
     (case um_find (bc_baselinesByClient cache) clientId of
        None \<Rightarrow> None
      | Some baselines \<Rightarrow> if baselines = [] then None else Some (sn_snapshotId (last baselines)))"

definition Decide :: "SnapshotBaselineCache \<Rightarrow> ClientId \<Rightarrow> SnapshotId \<Rightarrow> SnapshotBaselineDecision" where
  "Decide cache clientId requestedBaselineId =
     (let decision = \<lparr>bd_requestedBaselineId = requestedBaselineId, bd_effectiveBaselineId = 0,
                      bd_deliveryKind = Full, bd_baselineAvailable = False\<rparr>
      in if requestedBaselineId = 0 then decision
         else case Find_baseline cache clientId requestedBaselineId of
                None \<Rightarrow> decision
              | Some _ \<Rightarrow> decision\<lparr>bd_effectiveBaselineId := requestedBaselineId,
                                  bd_deliveryKind := DeltaEligible, bd_baselineAvailable := True\<rparr>)"

definition BaselineCount :: "SnapshotBaselineCache \<Rightarrow> ClientId \<Rightarrow> nat" where
  "BaselineCount cache clientId =
     (case um_find (bc_baselinesByClient cache) clientId of None \<Rightarrow> 0 | Some bs \<Rightarrow> length bs)"

definition Clear_baselines :: "ClientId \<Rightarrow> SnapshotBaselineCache \<Rightarrow> SnapshotBaselineCache" where
  "Clear_baselines clientId cache =
     cache\<lparr>bc_baselinesByClient := um_erase clientId (bc_baselinesByClient cache)\<rparr>"

lemma client_baselines_Store [simp]:
  "client_baselines c (Store c' s cache) =
     (if c = c' then pop_front_to (maxBaselinesPerClient (bc_config cache))
        (client_baselines c cache @ [s]) else client_baselines c cache)"
  by (simp add: client_baselines_def Store_def Let_def)

lemma bc_config_Store [simp]: "bc_config (Store c s cache) = bc_config cache"
  by (simp add: Store_def Let_def)

lemma client_baselines_Clear [simp]:
  "client_baselines c (Clear_baselines c' cache) = (if c = c' then [] else client_baselines c cache)"
  by (simp add: client_baselines_def Clear_baselines_def)

interpretation baselines: bounded_history "Store c" "client_baselines c"
    "\<lambda>cache. maxBaselinesPerClient (bc_config cache)" for c
  by unfold_locales simp_all

lemma Find_baseline_eq:
  "Find_baseline cache c i = find (\<lambda>s. sn_snapshotId s = i) (client_baselines c cache)"
  by (simp add: Find_baseline_def client_baselines_def split: option.splits)

lemma BaselineCount_eq: "BaselineCount cache c = length (client_baselines c cache)"
  by (simp add: BaselineCount_def client_baselines_def split: option.splits)

lemma LatestBaselineId_eq:
  "LatestBaselineId cache c = (if client_baselines c cache = [] then None
     else Some (sn_snapshotId (last (client_baselines c cache))))"
  by (simp add: LatestBaselineId_def client_baselines_def split: option.splits)

lemma find_None_iff_ids:
  "find (\<lambda>s. sn_snapshotId s = i) ss = None \<longleftrightarrow> i \<notin> sn_snapshotId ` set ss"
  by (auto simp: find_None_iff)

lemma Decide_available:
  "bd_baselineAvailable (Decide cache c i) \<longleftrightarrow>
     i \<noteq> 0 \<and> i \<in> sn_snapshotId ` set (client_baselines c cache)"
  using find_None_iff_ids [of i "client_baselines c cache"]
  by (auto simp: Decide_def Let_def Find_baseline_eq split: option.splits)

text \<open>The decision never names a baseline that is not stored.\<close>

lemma Decide_consistent:
  fixes cache c i defines "d \<equiv> Decide cache c i"
  shows "bd_requestedBaselineId d = i"
    and "bd_effectiveBaselineId d = (if bd_baselineAvailable d then i else 0)"
    and "bd_deliveryKind d = DeltaEligible \<longleftrightarrow> bd_baselineAvailable d"
  by (auto simp: d_def Decide_def Let_def split: option.splits)

section \<open>The lag-compensation history\<close>

record LagCompensationHistory =
  lh_maxSnapshots :: nat
  lh_snapshots :: "SnapshotDTO list"

definition new_LagHistory :: "nat \<Rightarrow> LagCompensationHistory" where
  "new_LagHistory n = \<lparr>lh_maxSnapshots = n, lh_snapshots = []\<rparr>"

definition Record_history :: "SnapshotDTO \<Rightarrow> LagCompensationHistory \<Rightarrow> LagCompensationHistory" where
  "Record_history snapshot h =
     h\<lparr>lh_snapshots := pop_front_to (lh_maxSnapshots h) (lh_snapshots h @ [snapshot])\<rparr>"

text \<open>The loop overwrites its result at every snapshot that is old enough: the last one stays.\<close>

definition ClosestAtOrBefore :: "LagCompensationHistory \<Rightarrow> TimestampMs \<Rightarrow> SnapshotDTO option" where
  "ClosestAtOrBefore h serverTimeMs =
     last_such (\<lambda>s. sn_serverTimeMs s \<le> serverTimeMs) (lh_snapshots h) None"

definition SnapshotCount :: "LagCompensationHistory \<Rightarrow> nat" where
  "SnapshotCount h = length (lh_snapshots h)"

definition OldestTimeMs :: "LagCompensationHistory \<Rightarrow> TimestampMs option" where
  "OldestTimeMs h =
     (if lh_snapshots h = [] then None else Some (sn_serverTimeMs (hd (lh_snapshots h))))"

definition NewestTimeMs :: "LagCompensationHistory \<Rightarrow> TimestampMs option" where
  "NewestTimeMs h =
     (if lh_snapshots h = [] then None else Some (sn_serverTimeMs (last (lh_snapshots h))))"

interpretation lag: bounded_history Record_history lh_snapshots lh_maxSnapshots
  by unfold_locales (simp_all add: Record_history_def)

text \<open>Snapshots recorded in time order: the result is the closest one at or before the time.\<close>

abbreviation in_time_order :: "SnapshotDTO list \<Rightarrow> bool" where
  "in_time_order ss \<equiv> sorted (map sn_serverTimeMs ss)"

lemma last_filter_max:
  assumes "sorted (map f xs)" and "filter P xs \<noteq> []" and "y \<in> set xs" "P y"
  shows "f y \<le> f (last (filter P xs))"
  using assms
proof (induction xs)
  case (Cons x xs)
  show ?case
  proof (cases "filter P xs = []")
    case True
    then have "y = x" using Cons.prems by (auto simp: filter_empty_conv)
    with True Cons.prems show ?thesis by auto
  next
    case False
    then have "last (filter P xs) \<in> set xs" using last_in_set [OF False] by auto
    with False Cons show ?thesis by auto
  qed
qed simp

lemma ClosestAtOrBefore_closest:
  assumes "in_time_order (lh_snapshots h)" and "ClosestAtOrBefore h t = Some s"
  shows "s \<in> set (lh_snapshots h)" and "sn_serverTimeMs s \<le> t"
    and "\<And>s'. s' \<in> set (lh_snapshots h) \<Longrightarrow> sn_serverTimeMs s' \<le> t \<Longrightarrow>
           sn_serverTimeMs s' \<le> sn_serverTimeMs s"
proof -
  let ?f = "filter (\<lambda>s. sn_serverTimeMs s \<le> t) (lh_snapshots h)"
  have f: "?f \<noteq> []" "s = last ?f"
    using assms(2) by (auto simp: ClosestAtOrBefore_def last_such_filter split: if_splits)
  show "s \<in> set (lh_snapshots h)" "sn_serverTimeMs s \<le> t"
    using last_in_set [OF f(1)] f(2) by auto
  show "\<And>s'. s' \<in> set (lh_snapshots h) \<Longrightarrow> sn_serverTimeMs s' \<le> t \<Longrightarrow>
           sn_serverTimeMs s' \<le> sn_serverTimeMs s"
    using last_filter_max [OF assms(1) f(1)] f(2) by simp
qed

lemma ClosestAtOrBefore_found:
  "ClosestAtOrBefore h t = Some s \<Longrightarrow> s \<in> set (lh_snapshots h) \<and> sn_serverTimeMs s \<le> t"
  using last_in_set [of "filter (\<lambda>s. sn_serverTimeMs s \<le> t) (lh_snapshots h)"]
  by (auto simp: ClosestAtOrBefore_def last_such_filter split: if_splits)

lemma ClosestAtOrBefore_None:
  "ClosestAtOrBefore h t = None \<longleftrightarrow> (\<forall>s\<in>set (lh_snapshots h). t < sn_serverTimeMs s)"
  by (auto simp: ClosestAtOrBefore_def last_such_filter filter_empty_conv not_le)

lemma in_time_order_Record:
  assumes "in_time_order (lh_snapshots h)"
    and "\<And>s'. s' \<in> set (lh_snapshots h) \<Longrightarrow> sn_serverTimeMs s' \<le> sn_serverTimeMs s"
  shows "in_time_order (lh_snapshots (Record_history s h))"
proof -
  have "in_time_order (lh_snapshots h @ [s])"
    using assms by (auto simp: sorted_append)
  then show ?thesis
    using sorted_pop_front_to [of sn_serverTimeMs "lh_snapshots h @ [s]"]
    by (simp add: Record_history_def)
qed

section \<open>The lag-compensation service\<close>

datatype LagCompensationRejectReason = NoReject | TooOld | FromFuture | HistoryUnavailable

record LagCompensationConfig =
  lc_maxRewindMs :: TimestampMs
  lc_futureToleranceMs :: TimestampMs

definition default_LagConfig :: LagCompensationConfig where
  "default_LagConfig = \<lparr>lc_maxRewindMs = 250, lc_futureToleranceMs = 50\<rparr>"

record LagCompensationQuery =
  lq_clientId :: ClientId
  lq_sequence :: CommandSequence
  lq_clientTimestampMs :: TimestampMs
  lq_clientToServerOffsetMs :: i64
  lq_serverNowMs :: TimestampMs

record LagCompensationResult =
  lr_accepted :: bool
  lr_rejectReason :: LagCompensationRejectReason
  lr_targetServerTimeMs :: TimestampMs
  lr_historicalSnapshot :: "SnapshotDTO option"

definition MapClientTimeToServerTime :: "LagCompensationQuery \<Rightarrow> TimestampMs" where
  "MapClientTimeToServerTime query =
     (let mapped = lq_clientTimestampMs query + lq_clientToServerOffsetMs query
      in if sint mapped \<le> 0 then 0 else mapped)"

definition Query ::
    "LagCompensationConfig \<Rightarrow> LagCompensationHistory \<Rightarrow> LagCompensationQuery \<Rightarrow> LagCompensationResult" where
  "Query config history query =
     (let result = \<lparr>lr_accepted = False, lr_rejectReason = HistoryUnavailable,
                    lr_targetServerTimeMs = MapClientTimeToServerTime query,
                    lr_historicalSnapshot = None\<rparr>;
          target = lr_targetServerTimeMs result
      in if target > lq_serverNowMs query + lc_futureToleranceMs config
         then result\<lparr>lr_rejectReason := FromFuture\<rparr>
         else if lq_serverNowMs query > target
                 \<and> lq_serverNowMs query - target > lc_maxRewindMs config
         then result\<lparr>lr_rejectReason := TooOld\<rparr>
         else let result = result\<lparr>lr_historicalSnapshot := ClosestAtOrBefore history target\<rparr>
              in if lr_historicalSnapshot result = None
                 then result\<lparr>lr_rejectReason := HistoryUnavailable\<rparr>
                 else result\<lparr>lr_accepted := True, lr_rejectReason := NoReject\<rparr>)"

text \<open>The accepted targets as an interval around the server's time.\<close>

definition in_rewind_window :: "LagCompensationConfig \<Rightarrow> TimestampMs \<Rightarrow> TimestampMs \<Rightarrow> bool" where
  "in_rewind_window config now target \<longleftrightarrow>
     unat now \<le> unat target + unat (lc_maxRewindMs config)
     \<and> unat target \<le> unat now + unat (lc_futureToleranceMs config)"

lemma window_iff:
  assumes "unat now + unat (lc_futureToleranceMs config) < 2 ^ 64"
  shows "in_rewind_window config now target \<longleftrightarrow>
     \<not> target > now + lc_futureToleranceMs config
     \<and> \<not> (now > target \<and> now - target > lc_maxRewindMs config)"
proof -
  have "unat (now + lc_futureToleranceMs config) = unat now + unat (lc_futureToleranceMs config)"
    using assms by (simp add: unat_word_ariths)
  moreover have "target < now \<Longrightarrow> unat (now - target) = unat now - unat target"
    by (simp add: unat_sub word_le_nat_alt word_less_nat_alt)
  ultimately show ?thesis
    by (cases "target < now") (auto simp: in_rewind_window_def word_less_nat_alt not_less)
qed

lemma Query_accepted:
  assumes "unat (lq_serverNowMs q) + unat (lc_futureToleranceMs config) < 2 ^ 64"
  shows "lr_accepted (Query config h q) \<longleftrightarrow>
     in_rewind_window config (lq_serverNowMs q) (MapClientTimeToServerTime q)
     \<and> ClosestAtOrBefore h (MapClientTimeToServerTime q) \<noteq> None"
  unfolding window_iff [OF assms] by (auto simp: Query_def Let_def)

lemma Query_reason:
  "lr_accepted (Query config h q) \<longleftrightarrow> lr_rejectReason (Query config h q) = NoReject"
  "lr_accepted (Query config h q) \<longleftrightarrow> lr_historicalSnapshot (Query config h q) \<noteq> None"
  by (auto simp: Query_def Let_def)

end
