(* ===== verification/Snapshot_Delta.thy ===== *)
theory Snapshot_Delta
  imports Game_Types
begin

text \<open>
  \<open>src/GameLogic/src/SnapshotDelta.cpp\<close>: the field-wise comparison of entity states and the plan
  of added, changed, unchanged and removed entities between two snapshots.
\<close>

datatype SnapshotEntityDeltaKind = Added | Changed | Removed | Unchanged

record SnapshotEntityDelta =
  sd_entityId :: NetworkEntityId
  sd_kind :: SnapshotEntityDeltaKind

record SnapshotDeltaPlan =
  dp_snapshotId :: SnapshotId
  dp_baselineId :: SnapshotId
  dp_baselineMatched :: bool
  dp_entities :: "SnapshotEntityDelta list"
  dp_addedCount :: nat
  dp_changedCount :: nat
  dp_removedCount :: nat
  dp_unchangedCount :: nat

definition EquivalentMovement :: "MovementStateDTO \<Rightarrow> MovementStateDTO \<Rightarrow> bool" where
  "EquivalentMovement left right \<longleftrightarrow>
     mv_entityId left = mv_entityId right \<and> mv_x left = mv_x right \<and> mv_y left = mv_y right
     \<and> mv_vx left = mv_vx right \<and> mv_vy left = mv_vy right \<and> mv_aimX left = mv_aimX right
     \<and> mv_aimY left = mv_aimY right"

definition EquivalentCombat :: "CombatStateDTO \<Rightarrow> CombatStateDTO \<Rightarrow> bool" where
  "EquivalentCombat left right \<longleftrightarrow>
     cb_entityId left = cb_entityId right \<and> cb_health left = cb_health right
     \<and> cb_maxHealth left = cb_maxHealth right \<and> cb_weaponType left = cb_weaponType right
     \<and> cb_weaponWarming left = cb_weaponWarming right
     \<and> cb_weaponWarmupCompletesAtMs left = cb_weaponWarmupCompletesAtMs right
     \<and> cb_defeated left = cb_defeated right \<and> cb_respawnAtMs left = cb_respawnAtMs right
     \<and> cb_serverOwnedProjectile left = cb_serverOwnedProjectile right
     \<and> cb_projectileOwnerId left = cb_projectileOwnerId right"

definition EquivalentReplication :: "ReplicationStateDTO \<Rightarrow> ReplicationStateDTO \<Rightarrow> bool" where
  "EquivalentReplication left right \<longleftrightarrow>
     rp_entityId left = rp_entityId right \<and> rp_ownerClientId left = rp_ownerClientId right
     \<and> rp_kind left = rp_kind right \<and> rp_priority left = rp_priority right"

definition EquivalentEntityState :: "EntityStateDTO \<Rightarrow> EntityStateDTO \<Rightarrow> bool" where
  "EquivalentEntityState left right =
     (if \<not> EquivalentMovement (es_movement left) (es_movement right)
         \<or> \<not> EquivalentReplication (es_replication left) (es_replication right)
         \<or> (es_combat left \<noteq> None) \<noteq> (es_combat right \<noteq> None)
      then False
      else case (es_combat left, es_combat right) of
             (Some l, Some r) \<Rightarrow> EquivalentCombat l r
           | _ \<Rightarrow> True)"

text \<open>Nothing a snapshot carries about an entity is left out of the comparison.\<close>

lemma EquivalentEntityState_iff: "EquivalentEntityState left right \<longleftrightarrow> left = right"
proof -
  have m: "EquivalentMovement l r \<longleftrightarrow> l = r" for l r
    by (cases l; cases r) (auto simp: EquivalentMovement_def)
  have c: "EquivalentCombat l r \<longleftrightarrow> l = r" for l r
    by (cases l; cases r) (auto simp: EquivalentCombat_def)
  have r: "EquivalentReplication l r \<longleftrightarrow> l = r" for l r
    by (cases l; cases r) (auto simp: EquivalentReplication_def)
  show ?thesis
    by (cases left; cases right) (auto simp: EquivalentEntityState_def m c r split: option.splits)
qed

definition FindEntity :: "SnapshotDTO \<Rightarrow> NetworkEntityId \<Rightarrow> EntityStateDTO option" where
  "FindEntity snapshot entityId =
     find (\<lambda>e. rp_entityId (es_replication e) = entityId) (sn_entities snapshot)"

fun CountDelta :: "SnapshotEntityDeltaKind \<Rightarrow> SnapshotDeltaPlan \<Rightarrow> SnapshotDeltaPlan" where
  "CountDelta Added plan = plan\<lparr>dp_addedCount := dp_addedCount plan + 1\<rparr>"
| "CountDelta Changed plan = plan\<lparr>dp_changedCount := dp_changedCount plan + 1\<rparr>"
| "CountDelta Removed plan = plan\<lparr>dp_removedCount := dp_removedCount plan + 1\<rparr>"
| "CountDelta Unchanged plan = plan\<lparr>dp_unchangedCount := dp_unchangedCount plan + 1\<rparr>"

text \<open>The body of both loops: append the delta and count it.\<close>

definition push_delta :: "NetworkEntityId \<Rightarrow> SnapshotEntityDeltaKind \<Rightarrow> SnapshotDeltaPlan \<Rightarrow> SnapshotDeltaPlan" where
  "push_delta entityId kind plan =
     CountDelta kind (plan\<lparr>dp_entities := dp_entities plan @ [\<lparr>sd_entityId = entityId, sd_kind = kind\<rparr>]\<rparr>)"

definition delta_kind :: "SnapshotDTO \<Rightarrow> EntityStateDTO \<Rightarrow> SnapshotEntityDeltaKind" where
  "delta_kind baseline currentEntity =
     (case FindEntity baseline (rp_entityId (es_replication currentEntity)) of
        None \<Rightarrow> Added
      | Some baselineEntity \<Rightarrow>
          if EquivalentEntityState currentEntity baselineEntity then Unchanged else Changed)"

fun plan_current ::
    "SnapshotDTO \<Rightarrow> EntityStateDTO list \<Rightarrow> NetworkEntityId set \<times> SnapshotDeltaPlan
     \<Rightarrow> NetworkEntityId set \<times> SnapshotDeltaPlan" where
  "plan_current baseline [] (currentIds, plan) = (currentIds, plan)"
| "plan_current baseline (e # es) (currentIds, plan) =
     (let entityId = rp_entityId (es_replication e)
      in plan_current baseline es
           (insert entityId currentIds, push_delta entityId (delta_kind baseline e) plan))"

fun plan_removed :: "NetworkEntityId set \<Rightarrow> EntityStateDTO list \<Rightarrow> SnapshotDeltaPlan \<Rightarrow> SnapshotDeltaPlan" where
  "plan_removed currentIds [] plan = plan"
| "plan_removed currentIds (e # es) plan =
     (let entityId = rp_entityId (es_replication e)
      in if entityId \<in> currentIds then plan_removed currentIds es plan
         else plan_removed currentIds es (push_delta entityId Removed plan))"

definition PlanSnapshotDelta :: "SnapshotDTO \<Rightarrow> SnapshotDTO \<Rightarrow> SnapshotDeltaPlan" where
  "PlanSnapshotDelta current baseline =
     (let plan = \<lparr>dp_snapshotId = sn_snapshotId current, dp_baselineId = sn_baselineId current,
                  dp_baselineMatched = (sn_baselineId current \<noteq> 0
                     \<and> sn_baselineId current = sn_snapshotId baseline),
                  dp_entities = [], dp_addedCount = 0, dp_changedCount = 0, dp_removedCount = 0,
                  dp_unchangedCount = 0\<rparr>;
          (currentIds, plan) = plan_current baseline (sn_entities current) ({}, plan)
      in plan_removed currentIds (sn_entities baseline) plan)"

section \<open>What a plan holds\<close>

definition count_kind :: "SnapshotEntityDeltaKind \<Rightarrow> SnapshotDeltaPlan \<Rightarrow> nat" where
  "count_kind k plan = length (filter (\<lambda>d. sd_kind d = k) (dp_entities plan))"

text \<open>The counters agree with the list, and two fields do not change while it grows.\<close>

definition counts_ok :: "SnapshotDeltaPlan \<Rightarrow> bool" where
  "counts_ok plan \<longleftrightarrow> dp_addedCount plan = count_kind Added plan
     \<and> dp_changedCount plan = count_kind Changed plan
     \<and> dp_removedCount plan = count_kind Removed plan
     \<and> dp_unchangedCount plan = count_kind Unchanged plan"

lemma counts_ok_push: "counts_ok plan \<Longrightarrow> counts_ok (push_delta i k plan)"
  by (cases k) (simp_all add: counts_ok_def push_delta_def count_kind_def)

lemma push_delta_simps [simp]:
  "dp_entities (push_delta i k plan) = dp_entities plan @ [\<lparr>sd_entityId = i, sd_kind = k\<rparr>]"
  "dp_snapshotId (push_delta i k plan) = dp_snapshotId plan"
  "dp_baselineId (push_delta i k plan) = dp_baselineId plan"
  "dp_baselineMatched (push_delta i k plan) = dp_baselineMatched plan"
  by (cases k; simp add: push_delta_def)+

abbreviation entity_id :: "EntityStateDTO \<Rightarrow> NetworkEntityId" where
  "entity_id e \<equiv> rp_entityId (es_replication e)"

lemma plan_current_entities:
  "plan_current baseline es (ids, plan) = (ids', plan') \<Longrightarrow>
     ids' = ids \<union> entity_id ` set es
     \<and> dp_entities plan' = dp_entities plan
         @ map (\<lambda>e. \<lparr>sd_entityId = entity_id e, sd_kind = delta_kind baseline e\<rparr>) es
     \<and> dp_snapshotId plan' = dp_snapshotId plan \<and> dp_baselineId plan' = dp_baselineId plan
     \<and> dp_baselineMatched plan' = dp_baselineMatched plan
     \<and> (counts_ok plan \<longrightarrow> counts_ok plan')"
  by (induction es arbitrary: ids plan) (auto simp: Let_def counts_ok_push)

lemma plan_removed_entities:
  "dp_entities (plan_removed ids es plan) = dp_entities plan
     @ map (\<lambda>e. \<lparr>sd_entityId = entity_id e, sd_kind = Removed\<rparr>)
         (filter (\<lambda>e. entity_id e \<notin> ids) es)"
  "dp_snapshotId (plan_removed ids es plan) = dp_snapshotId plan"
  "dp_baselineId (plan_removed ids es plan) = dp_baselineId plan"
  "dp_baselineMatched (plan_removed ids es plan) = dp_baselineMatched plan"
  "counts_ok plan \<Longrightarrow> counts_ok (plan_removed ids es plan)"
  by (induction es arbitrary: plan) (auto simp: Let_def counts_ok_push)

lemma PlanSnapshotDelta_entities:
  "dp_entities (PlanSnapshotDelta current baseline) =
     map (\<lambda>e. \<lparr>sd_entityId = entity_id e, sd_kind = delta_kind baseline e\<rparr>) (sn_entities current)
     @ map (\<lambda>e. \<lparr>sd_entityId = entity_id e, sd_kind = Removed\<rparr>)
         (filter (\<lambda>e. entity_id e \<notin> set (entity_ids current)) (sn_entities baseline))"
  by (auto simp: PlanSnapshotDelta_def Let_def plan_removed_entities dest!: plan_current_entities
      split: prod.splits)

lemma PlanSnapshotDelta_counts: "counts_ok (PlanSnapshotDelta current baseline)"
  by (auto simp: PlanSnapshotDelta_def Let_def counts_ok_def [of "\<lparr>dp_snapshotId = _,
      dp_baselineId = _, dp_baselineMatched = _, dp_entities = [], dp_addedCount = _,
      dp_changedCount = _, dp_removedCount = _, dp_unchangedCount = _\<rparr>"] count_kind_def
      intro!: plan_removed_entities(5) dest!: plan_current_entities split: prod.splits)

lemma PlanSnapshotDelta_header:
  "dp_snapshotId (PlanSnapshotDelta current baseline) = sn_snapshotId current"
  "dp_baselineMatched (PlanSnapshotDelta current baseline) \<longleftrightarrow>
     sn_baselineId current \<noteq> 0 \<and> sn_baselineId current = sn_snapshotId baseline"
  by (auto simp: PlanSnapshotDelta_def Let_def plan_removed_entities dest!: plan_current_entities
      split: prod.splits)

lemma FindEntity_Some: "FindEntity s i = Some e \<Longrightarrow> e \<in> set (sn_entities s) \<and> entity_id e = i"
  by (auto simp: FindEntity_def find_Some_iff)

lemma FindEntity_None: "FindEntity s i = None \<longleftrightarrow> i \<notin> set (entity_ids s)"
  by (auto simp: FindEntity_def find_None_iff)

text \<open>With distinct ids, an entity is the only one with its id.\<close>

lemma FindEntity_distinct:
  assumes "distinct (entity_ids s)"
  shows "FindEntity s i = Some e \<longleftrightarrow> e \<in> set (sn_entities s) \<and> entity_id e = i"
proof
  assume e: "e \<in> set (sn_entities s) \<and> entity_id e = i"
  then obtain e' where e': "FindEntity s i = Some e'"
    using FindEntity_None [of s i] by (cases "FindEntity s i") auto
  have "e' = e"
    using FindEntity_Some [OF e'] e assms by (auto simp: distinct_map inj_on_def)
  with e' show "FindEntity s i = Some e" by simp
qed (rule FindEntity_Some)

section \<open>Rebuilding the snapshot\<close>

text \<open>
  What a plan is for: from the baseline and the current states of the added and changed entities
  alone, the whole current entity list can be rebuilt.
\<close>

definition apply_plan ::
    "SnapshotDeltaPlan \<Rightarrow> SnapshotDTO \<Rightarrow> (NetworkEntityId \<Rightarrow> EntityStateDTO option) \<Rightarrow> EntityStateDTO option list" where
  "apply_plan plan baseline sent =
     map (\<lambda>d. if sd_kind d = Unchanged then FindEntity baseline (sd_entityId d) else sent (sd_entityId d))
       (filter (\<lambda>d. sd_kind d \<noteq> Removed) (dp_entities plan))"

definition sent_states :: "SnapshotDeltaPlan \<Rightarrow> SnapshotDTO \<Rightarrow> NetworkEntityId \<Rightarrow> EntityStateDTO option" where
  "sent_states plan current i =
     (if \<exists>d\<in>set (dp_entities plan). sd_entityId d = i \<and> sd_kind d \<in> {Added, Changed}
      then FindEntity current i else None)"

lemma delta_kind_not_Removed [simp]: "delta_kind b e \<noteq> Removed"
  by (auto simp: delta_kind_def split: option.splits)

lemma delta_kind_Unchanged:
  "delta_kind b e = Unchanged \<longleftrightarrow> FindEntity b (entity_id e) = Some e"
  by (auto simp: delta_kind_def EquivalentEntityState_iff split: option.splits)

lemma apply_plan_PlanSnapshotDelta:
  assumes "distinct (entity_ids current)"
  shows "apply_plan (PlanSnapshotDelta current baseline) baseline
           (sent_states (PlanSnapshotDelta current baseline) current) = map Some (sn_entities current)"
proof -
  let ?plan = "PlanSnapshotDelta current baseline"
  have kind: "delta_kind baseline e \<in> {Added, Changed}" if "delta_kind baseline e \<noteq> Unchanged" for e
    using that by (cases "delta_kind baseline e") auto
  have "sent_states ?plan current (entity_id e) = Some e"
    if "e \<in> set (sn_entities current)" "delta_kind baseline e \<noteq> Unchanged" for e
  proof -
    have "FindEntity current (entity_id e) = Some e"
      using FindEntity_distinct [OF assms] that by simp
    moreover have "\<lparr>sd_entityId = entity_id e, sd_kind = delta_kind baseline e\<rparr>
        \<in> set (dp_entities ?plan)"
      using that by (simp add: PlanSnapshotDelta_entities)
    then have "\<exists>d\<in>set (dp_entities ?plan). sd_entityId d = entity_id e
        \<and> sd_kind d \<in> {Added, Changed}"
      by (rule rev_bexI) (use kind [of e] that in simp)
    ultimately show ?thesis by (simp add: sent_states_def)
  qed
  then have "\<forall>e\<in>set (sn_entities current). (delta_kind baseline e = Unchanged \<longrightarrow>
        FindEntity baseline (entity_id e) = Some e)
      \<and> (delta_kind baseline e \<noteq> Unchanged \<longrightarrow> sent_states ?plan current (entity_id e) = Some e)"
    by (simp add: delta_kind_Unchanged)
  then show ?thesis
    unfolding apply_plan_def PlanSnapshotDelta_entities [of current baseline]
    by (simp add: filter_map o_def filter_False)
qed

end
