(* ===== verification/Replication_Planner.thy ===== *)
theory Replication_Planner
  imports Game_Types
begin

text \<open>
  \<open>src/GameLogic/src/ReplicationPlanner.cpp\<close>: the order in which a snapshot's entities are
  sent to an observer and the cut at the configured budget.
\<close>

record ReplicationPlannerConfig =
  pc_maxEntitiesPerSnapshot :: nat
  pc_prioritizeHigherFirst :: bool
  pc_keepOwnerEntityFirst :: bool

definition default_PlannerConfig :: ReplicationPlannerConfig where
  "default_PlannerConfig = \<lparr>pc_maxEntitiesPerSnapshot = 0, pc_prioritizeHigherFirst = True,
     pc_keepOwnerEntityFirst = True\<rparr>"

record ReplicationPlannerStats =
  ps_inputEntityCount :: nat
  ps_outputEntityCount :: nat
  ps_highPriorityCount :: nat
  ps_mediumPriorityCount :: nat
  ps_lowPriorityCount :: nat
  ps_droppedEntityCount :: nat

record PlannedSnapshot =
  pl_snapshot :: SnapshotDTO
  pl_stats :: ReplicationPlannerStats

fun PriorityRank :: "SnapshotPriority \<Rightarrow> nat" where
  "PriorityRank High = 3" | "PriorityRank Medium = 2" | "PriorityRank Low = 1"

fun CountPriority :: "SnapshotPriority \<Rightarrow> ReplicationPlannerStats \<Rightarrow> ReplicationPlannerStats" where
  "CountPriority High stats = stats\<lparr>ps_highPriorityCount := ps_highPriorityCount stats + 1\<rparr>"
| "CountPriority Medium stats = stats\<lparr>ps_mediumPriorityCount := ps_mediumPriorityCount stats + 1\<rparr>"
| "CountPriority Low stats = stats\<lparr>ps_lowPriorityCount := ps_lowPriorityCount stats + 1\<rparr>"

text \<open>The comparator passed to \<open>std::stable_sort\<close>.\<close>

definition planner_less :: "ReplicationPlannerConfig \<Rightarrow> ClientId \<Rightarrow> EntityStateDTO \<Rightarrow> EntityStateDTO \<Rightarrow> bool" where
  "planner_less config observerClientId left right =
     (let leftOwned = (rp_ownerClientId (es_replication left) = observerClientId);
          rightOwned = (rp_ownerClientId (es_replication right) = observerClientId);
          leftRank = PriorityRank (rp_priority (es_replication left));
          rightRank = PriorityRank (rp_priority (es_replication right))
      in if pc_keepOwnerEntityFirst config \<and> leftOwned \<noteq> rightOwned then leftOwned
         else if leftRank \<noteq> rightRank then leftRank > rightRank
         else rp_entityId (es_replication left) < rp_entityId (es_replication right))"

definition Plan :: "ReplicationPlannerConfig \<Rightarrow> SnapshotDTO \<Rightarrow> ClientId \<Rightarrow> PlannedSnapshot" where
  "Plan config snapshot observerClientId =
     (let inputCount = length (sn_entities snapshot);
          entities = (if pc_prioritizeHigherFirst config
                      then stable_sort (planner_less config observerClientId) (sn_entities snapshot)
                      else sn_entities snapshot);
          maxEntities = pc_maxEntitiesPerSnapshot config;
          entities = (if maxEntities > 0 \<and> length entities > maxEntities
                      then take maxEntities entities else entities);
          stats = \<lparr>ps_inputEntityCount = inputCount, ps_outputEntityCount = length entities,
                   ps_highPriorityCount = 0, ps_mediumPriorityCount = 0, ps_lowPriorityCount = 0,
                   ps_droppedEntityCount = inputCount - length entities\<rparr>;
          stats = fold (\<lambda>e. CountPriority (rp_priority (es_replication e))) entities stats
      in \<lparr>pl_snapshot = snapshot\<lparr>sn_entities := entities\<rparr>, pl_stats = stats\<rparr>)"

section \<open>The order\<close>

text \<open>One number that orders entities as the comparator does.\<close>

definition planner_key :: "ReplicationPlannerConfig \<Rightarrow> ClientId \<Rightarrow> EntityStateDTO \<Rightarrow> nat" where
  "planner_key config observer e =
     ((if pc_keepOwnerEntityFirst config \<and> rp_ownerClientId (es_replication e) \<noteq> observer then 4 else 0)
       + (3 - PriorityRank (rp_priority (es_replication e)))) * 2 ^ 32
     + unat (rp_entityId (es_replication e))"

lemma lex_key:
  fixes a b i j n :: nat
  assumes "i < n" "j < n"
  shows "a * n + i < b * n + j \<longleftrightarrow> a < b \<or> a = b \<and> i < j"
proof -
  have "a < b \<Longrightarrow> a * n + i < b * n + j"
  proof -
    assume "a < b"
    then have "(a + 1) * n \<le> b * n" by (intro mult_right_mono) auto
    with assms show ?thesis by simp
  qed
  moreover have "b < a \<Longrightarrow> \<not> a * n + i < b * n + j"
  proof -
    assume "b < a"
    then have "(b + 1) * n \<le> a * n" by (intro mult_right_mono) auto
    with assms show ?thesis by simp
  qed
  ultimately show ?thesis by (cases a b rule: linorder_cases) auto
qed

lemma unat_u32_less: "unat (v :: u32) < 2 ^ 32"
  using unsigned_less [of v, where ?'a = nat] by simp

lemma planner_less_key:
  "planner_less config obs l r \<longleftrightarrow> planner_key config obs l < planner_key config obs r"
  unfolding planner_key_def lex_key [OF unat_u32_less unat_u32_less]
  by (cases "rp_priority (es_replication l)"; cases "rp_priority (es_replication r)")
    (auto simp: planner_less_def word_less_nat_alt)

lemma strict_weak_key: "strict_weak (\<lambda>l r. f l < (f r :: nat))"
  by (auto simp: strict_weak_def)

lemma planner_less_strict_weak: "strict_weak (planner_less config obs)"
  using strict_weak_key [of "planner_key config obs"] by (simp add: planner_less_key [abs_def])

lemma planner_sorted:
  "sorted (map (planner_key config obs) (stable_sort (planner_less config obs) es))"
  using sorted_stable_sort [OF planner_less_strict_weak, of config obs es]
  by (simp add: planner_less_key not_less sorted_map)

lemma Plan_entities:
  "sn_entities (pl_snapshot (Plan config s obs)) =
     (let es = (if pc_prioritizeHigherFirst config then stable_sort (planner_less config obs) (sn_entities s)
                else sn_entities s)
      in if pc_maxEntitiesPerSnapshot config = 0 then es else take (pc_maxEntitiesPerSnapshot config) es)"
  by (auto simp: Plan_def Let_def)

lemma Plan_header:
  "sn_snapshotId (pl_snapshot (Plan config s obs)) = sn_snapshotId s"
  "sn_baselineId (pl_snapshot (Plan config s obs)) = sn_baselineId s"
  "sn_deliveryKind (pl_snapshot (Plan config s obs)) = sn_deliveryKind s"
  "sn_serverTick (pl_snapshot (Plan config s obs)) = sn_serverTick s"
  "sn_serverTimeMs (pl_snapshot (Plan config s obs)) = sn_serverTimeMs s"
  "sn_ackedInputSequence (pl_snapshot (Plan config s obs)) = sn_ackedInputSequence s"
  by (simp_all add: Plan_def Let_def)

text \<open>
  The entities sent, and those left out: together they are the input, the sent ones are in order,
  and no entity left out would have come before one that was sent.
\<close>

lemma Plan_split:
  fixes config s obs
  assumes "pc_prioritizeHigherFirst config"
  defines "es \<equiv> sn_entities (pl_snapshot (Plan config s obs))"
  shows "\<exists>dropped. mset (sn_entities s) = mset es + mset dropped
     \<and> (pc_maxEntitiesPerSnapshot config = 0 \<longrightarrow> dropped = [])
     \<and> (pc_maxEntitiesPerSnapshot config \<noteq> 0 \<longrightarrow>
          length es = min (pc_maxEntitiesPerSnapshot config) (length (sn_entities s)))
     \<and> sorted (map (planner_key config obs) es)
     \<and> (\<forall>e\<in>set es. \<forall>d\<in>set dropped. \<not> planner_less config obs d e)"
proof -
  let ?n = "pc_maxEntitiesPerSnapshot config"
  let ?all = "stable_sort (planner_less config obs) (sn_entities s)"
  define dropped where "dropped = (if ?n = 0 then [] else drop ?n ?all)"
  have es: "es = (if ?n = 0 then ?all else take ?n ?all)"
    using assms(1) by (simp add: es_def Plan_entities)
  have all: "?all = es @ dropped" by (simp add: es dropped_def)
  have sorted: "sorted (map (planner_key config obs) es @ map (planner_key config obs) dropped)"
    using planner_sorted [of config obs "sn_entities s"] all by simp
  have "mset (sn_entities s) = mset es + mset dropped"
    using arg_cong [OF all, of mset] by simp
  moreover have "\<forall>e\<in>set es. \<forall>d\<in>set dropped. \<not> planner_less config obs d e"
    using sorted by (auto simp: planner_less_key sorted_append not_less)
  ultimately show ?thesis
    using sorted by (intro exI [of _ dropped]) (simp add: sorted_append es dropped_def min.commute)
qed

section \<open>The counters\<close>

lemma CountPriority_fold:
  fixes es :: "EntityStateDTO list"
  defines "n p \<equiv> length (filter (\<lambda>e. rp_priority (es_replication e) = p) es)"
  defines "st' st \<equiv> fold (\<lambda>e. CountPriority (rp_priority (es_replication e))) es st"
  shows "ps_highPriorityCount (st' st) = ps_highPriorityCount st + n High"
    and "ps_mediumPriorityCount (st' st) = ps_mediumPriorityCount st + n Medium"
    and "ps_lowPriorityCount (st' st) = ps_lowPriorityCount st + n Low"
    and "ps_inputEntityCount (st' st) = ps_inputEntityCount st"
    and "ps_outputEntityCount (st' st) = ps_outputEntityCount st"
    and "ps_droppedEntityCount (st' st) = ps_droppedEntityCount st"
proof -
  have "ps_highPriorityCount (st' st) = ps_highPriorityCount st + n High
      \<and> ps_mediumPriorityCount (st' st) = ps_mediumPriorityCount st + n Medium
      \<and> ps_lowPriorityCount (st' st) = ps_lowPriorityCount st + n Low
      \<and> ps_inputEntityCount (st' st) = ps_inputEntityCount st
      \<and> ps_outputEntityCount (st' st) = ps_outputEntityCount st
      \<and> ps_droppedEntityCount (st' st) = ps_droppedEntityCount st"
    unfolding n_def st'_def
  proof (induction es arbitrary: st)
    case (Cons e es)
    then show ?case by (cases "rp_priority (es_replication e)") simp_all
  qed simp
  then show "ps_highPriorityCount (st' st) = ps_highPriorityCount st + n High"
    and "ps_mediumPriorityCount (st' st) = ps_mediumPriorityCount st + n Medium"
    and "ps_lowPriorityCount (st' st) = ps_lowPriorityCount st + n Low"
    and "ps_inputEntityCount (st' st) = ps_inputEntityCount st"
    and "ps_outputEntityCount (st' st) = ps_outputEntityCount st"
    and "ps_droppedEntityCount (st' st) = ps_droppedEntityCount st" by auto
qed

lemma priorities_total:
  "length (filter (\<lambda>e. rp_priority (es_replication e) = High) es)
   + length (filter (\<lambda>e. rp_priority (es_replication e) = Medium) es)
   + length (filter (\<lambda>e. rp_priority (es_replication e) = Low) es) = length es"
proof (induction es)
  case (Cons e es)
  then show ?case by (cases "rp_priority (es_replication e)") simp_all
qed simp

lemma Plan_stats:
  fixes config s obs
  defines "st \<equiv> pl_stats (Plan config s obs)" and "es \<equiv> sn_entities (pl_snapshot (Plan config s obs))"
  shows "ps_outputEntityCount st = length es" and "ps_inputEntityCount st = length (sn_entities s)"
    and "ps_outputEntityCount st + ps_droppedEntityCount st = ps_inputEntityCount st"
    and "ps_highPriorityCount st + ps_mediumPriorityCount st + ps_lowPriorityCount st
           = ps_outputEntityCount st"
proof -
  show "ps_outputEntityCount st = length es" "ps_inputEntityCount st = length (sn_entities s)"
    by (simp_all add: st_def es_def Plan_def Let_def CountPriority_fold)
  show "ps_outputEntityCount st + ps_droppedEntityCount st = ps_inputEntityCount st"
    by (simp add: st_def Plan_def Let_def CountPriority_fold)
  show "ps_highPriorityCount st + ps_mediumPriorityCount st + ps_lowPriorityCount st
           = ps_outputEntityCount st"
    by (simp add: st_def Plan_def Let_def CountPriority_fold priorities_total)
qed

end
