(* ===== verification/Interest.thy ===== *)
theory Interest
  imports Game_Types
begin

text \<open>
  \<open>src/GameLogic/src/InterestManagement.cpp\<close>: which entities entered, stayed in or left the
  snapshots of one observer. The \<open>std::unordered_set\<close> is a list without duplicates in its
  iteration order.
\<close>

record InterestFrame =
  fr_entered :: "NetworkEntityId list"
  fr_stayed :: "NetworkEntityId list"
  fr_exited :: "NetworkEntityId list"

record InterestTracker =
  it_knownEntities :: "NetworkEntityId list"

definition new_InterestTracker :: InterestTracker where
  "new_InterestTracker = \<lparr>it_knownEntities = []\<rparr>"

fun update_loop ::
    "NetworkEntityId list \<Rightarrow> NetworkEntityId list \<Rightarrow> NetworkEntityId list \<Rightarrow> InterestFrame
     \<Rightarrow> NetworkEntityId list \<times> InterestFrame" where
  "update_loop known [] nextKnown frame = (nextKnown, frame)"
| "update_loop known (entityId # ids) nextKnown frame =
     update_loop known ids (List.insert entityId nextKnown)
       (if entityId \<in> set known then frame\<lparr>fr_stayed := fr_stayed frame @ [entityId]\<rparr>
        else frame\<lparr>fr_entered := fr_entered frame @ [entityId]\<rparr>)"

definition Update_interest :: "SnapshotDTO \<Rightarrow> InterestTracker \<Rightarrow> InterestFrame \<times> InterestTracker" where
  "Update_interest snapshot tracker =
     (let (nextKnown, frame) = update_loop (it_knownEntities tracker) (entity_ids snapshot) []
                                 \<lparr>fr_entered = [], fr_stayed = [], fr_exited = []\<rparr>;
          exited = filter (\<lambda>i. i \<notin> set nextKnown) (it_knownEntities tracker)
      in (frame\<lparr>fr_exited := exited\<rparr>, tracker\<lparr>it_knownEntities := nextKnown\<rparr>))"

definition Contains_interest :: "InterestTracker \<Rightarrow> NetworkEntityId \<Rightarrow> bool" where
  "Contains_interest tracker entityId \<longleftrightarrow> entityId \<in> set (it_knownEntities tracker)"

definition KnownEntityCount :: "InterestTracker \<Rightarrow> nat" where
  "KnownEntityCount tracker = length (it_knownEntities tracker)"

definition Clear_interest :: "InterestTracker \<Rightarrow> InterestTracker" where
  "Clear_interest tracker = tracker\<lparr>it_knownEntities := []\<rparr>"

lemma update_loop_frame:
  "update_loop known ids next frame = (next', frame') \<Longrightarrow>
     set next' = set next \<union> set ids \<and> (distinct next \<longrightarrow> distinct next')
     \<and> fr_entered frame' = fr_entered frame @ filter (\<lambda>i. i \<notin> set known) ids
     \<and> fr_stayed frame' = fr_stayed frame @ filter (\<lambda>i. i \<in> set known) ids
     \<and> fr_exited frame' = fr_exited frame"
  by (induction known ids "next" frame rule: update_loop.induct)
    (auto simp: List.insert_def split: if_splits)

lemma Update_interest_frame:
  assumes "Update_interest s t = (f, t')"
  shows "fr_entered f = filter (\<lambda>i. i \<notin> set (it_knownEntities t)) (entity_ids s)"
    and "fr_stayed f = filter (\<lambda>i. i \<in> set (it_knownEntities t)) (entity_ids s)"
    and "fr_exited f = filter (\<lambda>i. i \<notin> set (entity_ids s)) (it_knownEntities t)"
    and "set (it_knownEntities t') = set (entity_ids s)"
    and "distinct (it_knownEntities t')"
  using assms by (auto simp: Update_interest_def Let_def dest!: update_loop_frame split: prod.splits)

lemma KnownEntityCount_Update:
  "Update_interest s t = (f, t') \<Longrightarrow> KnownEntityCount t' = card (set (entity_ids s))"
  by (metis KnownEntityCount_def Update_interest_frame(4,5) distinct_card)

text \<open>Entering and leaving alternate: between two entries of an entity there is an exit.\<close>

fun Update_all :: "SnapshotDTO list \<Rightarrow> InterestTracker \<Rightarrow> InterestFrame list \<times> InterestTracker" where
  "Update_all [] t = ([], t)"
| "Update_all (s # ss) t =
     (let (f, t) = Update_interest s t; (fs, t) = Update_all ss t in (f # fs, t))"

definition net_entries :: "NetworkEntityId \<Rightarrow> InterestFrame list \<Rightarrow> int" where
  "net_entries i fs =
     (\<Sum>f\<leftarrow>fs. (if i \<in> set (fr_entered f) then 1 else 0) - (if i \<in> set (fr_exited f) then 1 else 0))"

lemma Update_all_net_entries:
  "Update_all ss t = (fs, t') \<Longrightarrow>
     net_entries i fs = (if Contains_interest t' i then 1 else 0) - (if Contains_interest t i then 1 else 0)"
proof (induction ss arbitrary: t fs)
  case Nil
  then show ?case by (simp add: net_entries_def)
next
  case (Cons s ss)
  obtain f t1 where f: "Update_interest s t = (f, t1)" by fastforce
  obtain fs1 where fs: "Update_all ss t1 = (fs1, t')" "fs = f # fs1"
    using Cons.prems f by (auto split: prod.splits)
  have "net_entries i fs = net_entries i fs1
      + ((if i \<in> set (fr_entered f) then 1 else 0) - (if i \<in> set (fr_exited f) then 1 else 0))"
    by (simp add: fs net_entries_def)
  with Cons.IH [OF fs(1)] Update_interest_frame [OF f] show ?case
    by (auto simp: Contains_interest_def)
qed

end
