(* ===== verification/Network_Protocol.thy ===== *)
theory Network_Protocol
  imports Game_Types
begin

text \<open>
  \<open>src/GameLogic/include/GameLogic/NetworkProtocol.hpp\<close>: channels, reliabilities, message
  classes, the envelope every transport carries and its validation.
\<close>

definition kProtocolVersion :: u16 where
  "kProtocolVersion = 1"

definition kMaxNetworkPayloadBytes :: nat where
  "kMaxNetworkPayloadBytes = 64 * 1024"

datatype NetworkChannel =
  Ch_MovementInput | Ch_Snapshots | Ch_CombatEvents | Ch_LoginSpawn | Ch_ChatUi | Ch_TimeSync

datatype Reliability = Unreliable | UnreliableSequenced | Reliable

datatype MessageClass =
    Mc_ClientInput | Mc_Snapshot | Mc_SnapshotAck | Mc_CombatEvent | Mc_LoginRequest
  | Mc_SpawnAccepted | Mc_InterestEvent | Mc_NetworkEventAck | Mc_ChatUi | Mc_TimeSyncRequest
  | Mc_TimeSyncResponse

record ChannelPolicy =
  cp_channel :: NetworkChannel
  cp_reliability :: Reliability

datatype ProtocolError = NoProtocolError | UnsupportedVersion | PayloadTooLarge | ChannelMismatch

definition Ok :: "ProtocolError \<Rightarrow> bool" where
  "Ok error \<longleftrightarrow> error = NoProtocolError"

definition PolicyFor :: "NetworkChannel \<Rightarrow> ChannelPolicy" where
  "PolicyFor channel =
     (case channel of
        Ch_MovementInput \<Rightarrow> \<lparr>cp_channel = channel, cp_reliability = Unreliable\<rparr>
      | Ch_Snapshots \<Rightarrow> \<lparr>cp_channel = channel, cp_reliability = UnreliableSequenced\<rparr>
      | Ch_TimeSync \<Rightarrow> \<lparr>cp_channel = channel, cp_reliability = Unreliable\<rparr>
      | _ \<Rightarrow> \<lparr>cp_channel = channel, cp_reliability = Reliable\<rparr>)"

fun ExpectedChannelFor :: "MessageClass \<Rightarrow> NetworkChannel" where
  "ExpectedChannelFor Mc_ClientInput = Ch_MovementInput"
| "ExpectedChannelFor Mc_Snapshot = Ch_Snapshots"
| "ExpectedChannelFor Mc_SnapshotAck = Ch_Snapshots"
| "ExpectedChannelFor Mc_CombatEvent = Ch_CombatEvents"
| "ExpectedChannelFor Mc_LoginRequest = Ch_LoginSpawn"
| "ExpectedChannelFor Mc_SpawnAccepted = Ch_LoginSpawn"
| "ExpectedChannelFor Mc_InterestEvent = Ch_LoginSpawn"
| "ExpectedChannelFor Mc_NetworkEventAck = Ch_LoginSpawn"
| "ExpectedChannelFor Mc_ChatUi = Ch_ChatUi"
| "ExpectedChannelFor Mc_TimeSyncRequest = Ch_TimeSync"
| "ExpectedChannelFor Mc_TimeSyncResponse = Ch_TimeSync"

record NetworkEnvelope =
  ev_protocolVersion :: u16
  ev_peerId :: ClientId
  ev_channel :: NetworkChannel
  ev_messageClass :: MessageClass
  ev_sequence :: u32
  ev_payload :: "byte list"

text \<open>\<open>ProtocolValidationResult\<close> has the error as its only field.\<close>

definition ValidateEnvelope :: "NetworkEnvelope \<Rightarrow> ProtocolError" where
  "ValidateEnvelope envelope =
     (if ev_protocolVersion envelope \<noteq> kProtocolVersion then UnsupportedVersion
      else if length (ev_payload envelope) > kMaxNetworkPayloadBytes then PayloadTooLarge
      else if ev_channel envelope \<noteq> ExpectedChannelFor (ev_messageClass envelope) then ChannelMismatch
      else NoProtocolError)"

abbreviation valid_envelope :: "NetworkEnvelope \<Rightarrow> bool" where
  "valid_envelope e \<equiv> Ok (ValidateEnvelope e)"

lemma valid_envelope_iff:
  "valid_envelope e \<longleftrightarrow> ev_protocolVersion e = kProtocolVersion
     \<and> length (ev_payload e) \<le> kMaxNetworkPayloadBytes
     \<and> ev_channel e = ExpectedChannelFor (ev_messageClass e)"
  by (auto simp: Ok_def ValidateEnvelope_def)

text \<open>The first failing check names the error.\<close>

lemma ValidateEnvelope_error:
  "ValidateEnvelope e = UnsupportedVersion \<longleftrightarrow> ev_protocolVersion e \<noteq> kProtocolVersion"
  "ValidateEnvelope e = PayloadTooLarge \<longleftrightarrow> ev_protocolVersion e = kProtocolVersion
     \<and> kMaxNetworkPayloadBytes < length (ev_payload e)"
  "ValidateEnvelope e = ChannelMismatch \<longleftrightarrow> ev_protocolVersion e = kProtocolVersion
     \<and> length (ev_payload e) \<le> kMaxNetworkPayloadBytes
     \<and> ev_channel e \<noteq> ExpectedChannelFor (ev_messageClass e)"
  by (auto simp: ValidateEnvelope_def)

text \<open>Every class travels at the reliability its channel promises.\<close>

lemma PolicyFor_channel [simp]: "cp_channel (PolicyFor c) = c"
  by (cases c) (simp_all add: PolicyFor_def)

definition loss_tolerant :: "MessageClass \<Rightarrow> bool" where
  "loss_tolerant m \<longleftrightarrow> m \<in> {Mc_ClientInput, Mc_Snapshot, Mc_SnapshotAck, Mc_TimeSyncRequest,
     Mc_TimeSyncResponse}"

lemma reliable_classes:
  "cp_reliability (PolicyFor (ExpectedChannelFor m)) = Reliable \<longleftrightarrow> \<not> loss_tolerant m"
  by (cases m) (simp_all add: PolicyFor_def loss_tolerant_def)

end
