(* ===== verification/Time_Sync.thy ===== *)
theory Time_Sync
  imports Game_Types
begin

text \<open>
  \<open>NetworkClock\<close> (\<open>src/GameLogic/src/TimeSync.cpp\<close>): the client's estimate of the server's
  clock and the interpolation delay, smoothed over round-trip samples. Offsets are signed 64-bit
  words, times and round trips unsigned ones.
\<close>

record NetworkClock =
  nc_serverOffsetMs :: i64
  nc_rttMs :: TimestampMs
  nc_interpolationDelayMs :: TimestampMs
  nc_hasSample :: bool

definition new_NetworkClock :: NetworkClock where
  "new_NetworkClock = \<lparr>nc_serverOffsetMs = 0, nc_rttMs = 0, nc_interpolationDelayMs = 100,
     nc_hasSample = False\<rparr>"

text \<open>\<open>std::clamp\<close> on unsigned values.\<close>

definition clamp_u64 :: "u64 \<Rightarrow> u64 \<Rightarrow> u64 \<Rightarrow> u64" where
  "clamp_u64 v lo hi = (if v < lo then lo else if hi < v then hi else v)"

definition RecordSample :: "TimeSyncSample \<Rightarrow> NetworkClock \<Rightarrow> NetworkClock" where
  "RecordSample sample clock =
     (let measuredRtt = (if ts_clientReceivedAtMs sample \<ge> ts_clientSentAtMs sample
                         then ts_clientReceivedAtMs sample - ts_clientSentAtMs sample else 0);
          clientMidpoint = ts_clientSentAtMs sample + measuredRtt div 2;
          measuredOffset = ts_serverReceivedAtMs sample - clientMidpoint;
          clock = (if \<not> nc_hasSample clock
                   then clock\<lparr>nc_serverOffsetMs := measuredOffset, nc_rttMs := measuredRtt,
                              nc_hasSample := True\<rparr>
                   else clock\<lparr>nc_serverOffsetMs :=
                                word_of_int (sint (nc_serverOffsetMs clock * 7 + measuredOffset) sdiv 8),
                              nc_rttMs := (nc_rttMs clock * 7 + measuredRtt) div 8\<rparr>)
      in clock\<lparr>nc_interpolationDelayMs := clamp_u64 (nc_rttMs clock div 2 + 50) 50 250\<rparr>)"

definition ServerOffsetMs :: "NetworkClock \<Rightarrow> i64" where
  "ServerOffsetMs clock = nc_serverOffsetMs clock"

definition RttMs :: "NetworkClock \<Rightarrow> TimestampMs" where
  "RttMs clock = nc_rttMs clock"

definition InterpolationDelayMs :: "NetworkClock \<Rightarrow> TimestampMs" where
  "InterpolationDelayMs clock = nc_interpolationDelayMs clock"

definition EstimateServerTime :: "NetworkClock \<Rightarrow> TimestampMs \<Rightarrow> TimestampMs" where
  "EstimateServerTime clock localClientTimeMs =
     (let estimated = localClientTimeMs + nc_serverOffsetMs clock
      in if sint estimated \<le> 0 then 0 else estimated)"

section \<open>Bounds\<close>

text \<open>The delay of a clock is the default before the first sample, and in the clamp after it.\<close>

definition clock_ok :: "NetworkClock \<Rightarrow> bool" where
  "clock_ok clock \<longleftrightarrow> 50 \<le> nc_interpolationDelayMs clock \<and> nc_interpolationDelayMs clock \<le> 250
     \<and> (nc_hasSample clock \<longrightarrow>
          nc_interpolationDelayMs clock = clamp_u64 (nc_rttMs clock div 2 + 50) 50 250)"

lemma clamp_u64_range: "lo \<le> hi \<Longrightarrow> lo \<le> clamp_u64 v lo hi \<and> clamp_u64 v lo hi \<le> hi"
  by (auto simp: clamp_u64_def not_less)

lemma clock_ok_new: "clock_ok new_NetworkClock"
  by (simp add: clock_ok_def new_NetworkClock_def)

lemma clock_ok_RecordSample: "clock_ok (RecordSample s c)"
  using clamp_u64_range [of 50 250] by (simp add: clock_ok_def RecordSample_def Let_def)

text \<open>The delay in numbers: half the round trip plus 50 ms, at most 250 ms.\<close>

lemma delay_value:
  "unat (clamp_u64 (r div 2 + 50) 50 250) = min 250 (unat r div 2 + 50)"
proof -
  have "unat r < 2 ^ 64" using unsigned_less [of r, where ?'a = nat] by simp
  then have *: "unat (r div 2 + 50) = unat r div 2 + 50"
    by (simp add: unat_word_ariths unat_div)
  show ?thesis
    by (auto simp: clamp_u64_def word_less_nat_alt * min_def)
qed

text \<open>The smoothed round trip stays between the old one and the measured one.\<close>

definition smooth_rtt :: "u64 \<Rightarrow> u64 \<Rightarrow> u64" where
  "smooth_rtt old measured = (old * 7 + measured) div 8"

lemma smooth_rtt_between:
  assumes "unat old * 7 + unat measured < 2 ^ 64"
  shows "min (unat old) (unat measured) \<le> unat (smooth_rtt old measured)"
    and "unat (smooth_rtt old measured) \<le> max (unat old) (unat measured)"
proof -
  have "unat (old * 7 + measured) = unat old * 7 + unat measured"
    using assms by (simp add: unat_word_ariths)
  then have "unat (smooth_rtt old measured) = (unat old * 7 + unat measured) div 8"
    by (simp add: smooth_rtt_def unat_div)
  then show "min (unat old) (unat measured) \<le> unat (smooth_rtt old measured)"
    and "unat (smooth_rtt old measured) \<le> max (unat old) (unat measured)" by auto
qed

definition measured_rtt :: "TimeSyncSample \<Rightarrow> u64" where
  "measured_rtt s = (if ts_clientReceivedAtMs s \<ge> ts_clientSentAtMs s
     then ts_clientReceivedAtMs s - ts_clientSentAtMs s else 0)"

lemma RecordSample_rtt:
  "nc_rttMs (RecordSample s c) =
     (if nc_hasSample c then smooth_rtt (nc_rttMs c) (measured_rtt s) else measured_rtt s)"
  by (simp add: RecordSample_def Let_def smooth_rtt_def measured_rtt_def)

text \<open>
  A first sample over a path with equal delays both ways gives the exact offset: the client sends
  at \<open>t\<close>, the server's clock is \<open>d\<close> ahead, and each way takes \<open>k\<close>.
\<close>

lemma RecordSample_symmetric:
  assumes "\<not> nc_hasSample c" and "t + 2 * k < 2 ^ 63"
  shows "nc_serverOffsetMs (RecordSample
     \<lparr>ts_clientSentAtMs = of_nat t, ts_serverReceivedAtMs = of_nat (t + k) + d,
      ts_clientReceivedAtMs = of_nat (t + 2 * k)\<rparr> c) = d"
proof -
  have t: "unat (of_nat t :: u64) = t" "unat (of_nat (t + 2 * k) :: u64) = t + 2 * k"
    using assms(2) by (simp_all add: unat_of_nat del: of_nat_add of_nat_mult)
  have le: "(of_nat t :: u64) \<le> of_nat (t + 2 * k)"
    using t by (simp only: word_le_nat_alt)
  have "(of_nat (t + 2 * k) :: u64) - of_nat t = of_nat (2 * k)" by simp
  moreover have "(of_nat (2 * k) :: u64) div 2 = of_nat k"
  proof (rule word_unat_eq_iff [THEN iffD2])
    show "unat ((of_nat (2 * k) :: u64) div 2) = unat (of_nat k :: u64)"
      using assms(2) by (simp add: unat_div unat_of_nat del: of_nat_mult)
  qed
  ultimately show ?thesis using assms(1) le
    by (simp add: RecordSample_def Let_def)
qed

lemma EstimateServerTime_nonneg:
  "0 \<le> sint (EstimateServerTime c t)"
  by (simp add: EstimateServerTime_def Let_def)

end
