(* ===== verification/Registry.thy ===== *)
theory Registry
  imports Game_Types
begin

text \<open>
  The entity-component store. The components are those of
  \<open>src/GameLogic/include/GameLogic/Components.hpp\<close>. The store itself is \<open>entt::registry\<close>, a
  third-party library, so it is a parameter of the model: the record \<open>entt_ops\<close> of the operations
  the simulation calls, over an abstract registry type, and \<open>entt_laws\<close>, the documented behaviour
  the code relies on. An entity handle is a number; the limit on live handles that EnTT asserts is
  not modelled.

  The simulation only ever writes components of an entity it holds. Every write (\<open>emplace\<close>,
  \<open>replace\<close>, \<open>remove\<close>, an assignment through \<open>get\<close>) is \<open>en_assign\<close> of the entity's components;
  a \<open>view\<close> is the list of entities that have all the named components, in EnTT's order.
\<close>

section \<open>Components\<close>

datatype NetworkReplicationMode = NotReplicated | OwnerOnly | AreaOfInterest | GlobalReliable

record TransformComponent =
  tf_x :: Fixed
  tf_y :: Fixed

record VelocityComponent =
  vl_vx :: Fixed
  vl_vy :: Fixed

definition default_Velocity :: VelocityComponent where
  "default_Velocity = \<lparr>vl_vx = 0, vl_vy = 0\<rparr>"

definition default_Transform :: TransformComponent where
  "default_Transform = \<lparr>tf_x = 0, tf_y = 0\<rparr>"

record AimComponent =
  am_x :: i16
  am_y :: i16

definition default_Aim :: AimComponent where
  "default_Aim = \<lparr>am_x = 1000, am_y = 0\<rparr>"

text \<open>\<open>InputIntentComponent\<close> has the fields of \<open>InputFrame\<close>.\<close>

type_synonym InputIntentComponent = InputFrame

record PlayerComponent =
  pl_clientId :: ClientId
  pl_health :: i32
  pl_maxHealth :: i32
  pl_defeated :: bool
  pl_respawnAtMs :: TimestampMs

definition default_Player :: PlayerComponent where
  "default_Player = \<lparr>pl_clientId = 0, pl_health = 100, pl_maxHealth = 100, pl_defeated = False,
     pl_respawnAtMs = 0\<rparr>"

record WeaponStateComponent =
  ws_type :: WeaponType
  ws_warming :: bool
  ws_warmupStartedAtMs :: TimestampMs
  ws_warmupCompletesAtMs :: TimestampMs

definition default_WeaponState :: WeaponStateComponent where
  "default_WeaponState = \<lparr>ws_type = WeaponBow, ws_warming = False, ws_warmupStartedAtMs = 0,
     ws_warmupCompletesAtMs = 0\<rparr>"

record ProjectileComponent =
  pj_ownerId :: NetworkEntityId
  pj_spawnedAtMs :: TimestampMs
  pj_expiresAtMs :: TimestampMs
  pj_sourceWeapon :: WeaponType

definition default_Projectile :: ProjectileComponent where
  "default_Projectile = \<lparr>pj_ownerId = 0, pj_spawnedAtMs = 0, pj_expiresAtMs = 0,
     pj_sourceWeapon = WeaponNone\<rparr>"

text \<open>The components an entity may have; the three tags carry no data.\<close>

record components =
  c_identity :: "NetworkEntityId option"
  c_transform :: "TransformComponent option"
  c_velocity :: "VelocityComponent option"
  c_aim :: "AimComponent option"
  c_intent :: "InputIntentComponent option"
  c_player :: "PlayerComponent option"
  c_weapon :: "WeaponStateComponent option"
  c_projectile :: "ProjectileComponent option"
  c_owner :: "ClientId option"
  c_replication :: "NetworkReplicationMode option"
  c_predicted :: bool
  c_interpolated :: bool
  c_authoritative :: bool

definition no_components :: components where
  "no_components = \<lparr>c_identity = None, c_transform = None, c_velocity = None, c_aim = None,
     c_intent = None, c_player = None, c_weapon = None, c_projectile = None, c_owner = None,
     c_replication = None, c_predicted = False, c_interpolated = False, c_authoritative = False\<rparr>"

datatype component_kind =
  K_Identity | K_Transform | K_Velocity | K_Aim | K_Player | K_Weapon | K_Projectile

fun has_kind :: "components \<Rightarrow> component_kind \<Rightarrow> bool" where
  "has_kind c K_Identity = (c_identity c \<noteq> None)"
| "has_kind c K_Transform = (c_transform c \<noteq> None)"
| "has_kind c K_Velocity = (c_velocity c \<noteq> None)"
| "has_kind c K_Aim = (c_aim c \<noteq> None)"
| "has_kind c K_Player = (c_player c \<noteq> None)"
| "has_kind c K_Weapon = (c_weapon c \<noteq> None)"
| "has_kind c K_Projectile = (c_projectile c \<noteq> None)"

definition has_all :: "component_kind list \<Rightarrow> components \<Rightarrow> bool" where
  "has_all ks c \<longleftrightarrow> (\<forall>k\<in>set ks. has_kind c k)"

section \<open>The registry's interface\<close>

type_synonym entity = nat

record 'r entt_ops =
  en_create :: "'r \<Rightarrow> entity \<times> 'r"
  en_destroy :: "entity \<Rightarrow> 'r \<Rightarrow> 'r"
  en_get :: "'r \<Rightarrow> entity \<Rightarrow> components option"
  en_assign :: "entity \<Rightarrow> components \<Rightarrow> 'r \<Rightarrow> 'r"
  en_view :: "component_kind list \<Rightarrow> 'r \<Rightarrow> entity list"
  en_clear_intents :: "'r \<Rightarrow> 'r"
  en_empty :: "'r"

text \<open>
  EnTT's documented behaviour: a created entity is new and has no component, an operation on one
  entity leaves the others alone, and a view visits exactly the entities with the components,
  each once.
\<close>

definition entt_laws :: "'r entt_ops \<Rightarrow> bool" where
  "entt_laws E \<longleftrightarrow>
     (\<forall>r e r'. en_create E r = (e, r') \<longrightarrow>
        en_get E r e = None \<and> en_get E r' = (en_get E r)(e := Some no_components))
     \<and> (\<forall>r e. en_get E (en_destroy E e r) = (en_get E r)(e := None))
     \<and> (\<forall>r e c. en_get E r e \<noteq> None \<longrightarrow> en_get E (en_assign E e c r) = (en_get E r)(e := Some c))
     \<and> (\<forall>r ks. distinct (en_view E ks r)
          \<and> set (en_view E ks r) = {e. \<exists>c. en_get E r e = Some c \<and> has_all ks c})
     \<and> (\<forall>r e. en_get E (en_clear_intents E r) e = map_option (c_intent_update (\<lambda>_. None)) (en_get E r e))
     \<and> (\<forall>e. en_get E (en_empty E) e = None)"

text \<open>The components of an entity, and a change of them; nothing happens to a handle that is not valid.\<close>

definition comps :: "'r entt_ops \<Rightarrow> 'r \<Rightarrow> entity \<Rightarrow> components" where
  "comps E r e = (case en_get E r e of None \<Rightarrow> no_components | Some c \<Rightarrow> c)"

definition modify :: "'r entt_ops \<Rightarrow> entity \<Rightarrow> (components \<Rightarrow> components) \<Rightarrow> 'r \<Rightarrow> 'r" where
  "modify E e f r = (case en_get E r e of None \<Rightarrow> r | Some c \<Rightarrow> en_assign E e (f c) r)"

lemma en_get_create:
  "entt_laws E \<Longrightarrow> en_create E r = (e, r') \<Longrightarrow> en_get E r' = (en_get E r)(e := Some no_components)"
  "entt_laws E \<Longrightarrow> en_create E r = (e, r') \<Longrightarrow> en_get E r e = None"
  unfolding entt_laws_def by blast+

lemma en_get_destroy [simp]: "entt_laws E \<Longrightarrow> en_get E (en_destroy E e r) = (en_get E r)(e := None)"
  unfolding entt_laws_def by blast

lemma en_get_assign:
  "entt_laws E \<Longrightarrow> en_get E r e \<noteq> None \<Longrightarrow> en_get E (en_assign E e c r) = (en_get E r)(e := Some c)"
  unfolding entt_laws_def by blast

lemma en_get_modify [simp]:
  "entt_laws E \<Longrightarrow> en_get E (modify E e f r) e' =
     (if e' = e then map_option f (en_get E r e) else en_get E r e')"
  by (auto simp: modify_def en_get_assign split: option.splits)

lemma en_view_distinct [simp]: "entt_laws E \<Longrightarrow> distinct (en_view E ks r)"
  unfolding entt_laws_def by blast

lemma set_en_view:
  "entt_laws E \<Longrightarrow> e \<in> set (en_view E ks r) \<longleftrightarrow> (\<exists>c. en_get E r e = Some c \<and> has_all ks c)"
  unfolding entt_laws_def by blast

lemma en_get_clear_intents [simp]:
  "entt_laws E \<Longrightarrow>
     en_get E (en_clear_intents E r) e = map_option (c_intent_update (\<lambda>_. None)) (en_get E r e)"
  unfolding entt_laws_def by blast

lemma en_get_empty [simp]: "entt_laws E \<Longrightarrow> en_get E (en_empty E) e = None"
  unfolding entt_laws_def by blast

lemma comps_modify [simp]:
  "entt_laws E \<Longrightarrow> en_get E r e \<noteq> None \<Longrightarrow>
     comps E (modify E e f r) e' = (if e' = e then f (comps E r e) else comps E r e')"
  by (auto simp: comps_def)

section \<open>A registry that meets the laws\<close>

text \<open>A list of live entities with the next handle: the laws are satisfiable, and it runs.\<close>

type_synonym list_registry = "nat \<times> (entity \<times> components) list"

definition list_registry :: "list_registry entt_ops" where
  "list_registry =
     \<lparr>en_create = (\<lambda>(n, m). let e = Max (insert n (fst ` set m)) + 1 in (e, (e, (e, no_components) # m))),
      en_destroy = (\<lambda>e (n, m). (n, filter (\<lambda>p. fst p \<noteq> e) m)),
      en_get = (\<lambda>(n, m). map_of m),
      en_assign = (\<lambda>e c (n, m). (n, AList.update e c m)),
      en_view = (\<lambda>ks (n, m). filter (\<lambda>e. case map_of m e of None \<Rightarrow> False | Some c \<Rightarrow> has_all ks c)
                   (remdups (map fst m))),
      en_clear_intents = (\<lambda>(n, m). (n, map (\<lambda>(e, c). (e, c\<lparr>c_intent := None\<rparr>)) m)),
      en_empty = (0, [])\<rparr>"

lemma map_of_filter_key: "map_of (filter (\<lambda>p. fst p \<noteq> e) m) = (map_of m)(e := None)"
  by (induction m) (auto simp: fun_eq_iff)

lemma map_of_map_values: "map_of (map (\<lambda>(e, c). (e, f c)) m) e = map_option f (map_of m e)"
  by (induction m) auto

lemma set_view_alist:
  "set (filter (\<lambda>e. case map_of m e of None \<Rightarrow> False | Some c \<Rightarrow> P c) (remdups (map fst m))) =
     {e. \<exists>c. map_of m e = Some c \<and> P c}"
proof -
  have "(case map_of m e of None \<Rightarrow> False | Some c \<Rightarrow> P c) \<longleftrightarrow> (\<exists>c. map_of m e = Some c \<and> P c)" for e
    by (simp split: option.splits)
  moreover have "e \<in> fst ` set m" if "map_of m e = Some c" for e c
    using that by (metis map_of_eq_None_iff option.distinct(1))
  ultimately show ?thesis by auto
qed

lemma list_registry_laws: "entt_laws list_registry"
proof -
  have fresh: "map_of m (Max (insert n (fst ` set m)) + 1) = None" for n :: nat and m :: "(nat \<times> components) list"
  proof (rule ccontr)
    assume "map_of m (Max (insert n (fst ` set m)) + 1) \<noteq> None"
    then have "Max (insert n (fst ` set m)) + 1 \<in> insert n (fst ` set m)"
      by (simp add: map_of_eq_None_iff)
    from Max_ge [OF _ this] show False by simp
  qed
  show ?thesis
    unfolding entt_laws_def list_registry_def
    by (auto simp: Let_def fresh [simplified] map_of_filter_key map_of_map_values update_conv'
        set_view_alist simp del: set_filter set_remdups)
qed

end
