(* ===== verification/Map_Chunks.thy ===== *)
theory Map_Chunks
  imports Game_Types
begin

text \<open>
  \<open>src/GameLogic/src/Map.cpp\<close>: the chunk grid over the tile map and the area of interest around
  a chunk. The area exists twice in the code, as a list of chunks and as a test; both are here,
  with their equivalence inside the grid.

  The code's arithmetic is on 32-bit signed integers. A configuration is usable when none of it
  overflows and no divisor is zero (\<open>map_ok\<close>); the shipped configuration is.
\<close>

record MapConfig =
  mc_tileSizePixels :: i32
  mc_widthTiles :: i32
  mc_heightTiles :: i32
  mc_chunkSizeTiles :: i32
  mc_interestRadiusChunks :: i32

definition default_MapConfig :: MapConfig where
  "default_MapConfig = \<lparr>mc_tileSizePixels = 128, mc_widthTiles = 80, mc_heightTiles = 80,
     mc_chunkSizeTiles = 8, mc_interestRadiusChunks = 1\<rparr>"

record ChunkCoord =
  ck_x :: i32
  ck_y :: i32

text \<open>Signed 32-bit division.\<close>

definition div_i32 :: "i32 \<Rightarrow> i32 \<Rightarrow> i32" where
  "div_i32 a b = cast_i32 (sint a sdiv sint b)"

definition ChunkForPosition :: "MapConfig \<Rightarrow> Fixed \<Rightarrow> Fixed \<Rightarrow> ChunkCoord" where
  "ChunkForPosition config x y =
     (let chunkSizePixels = mc_tileSizePixels config * mc_chunkSizeTiles config;
          pixelX = ClampFixed (FixedToPixels x) 0
                     (mc_widthTiles config * mc_tileSizePixels config - 1);
          pixelY = ClampFixed (FixedToPixels y) 0
                     (mc_heightTiles config * mc_tileSizePixels config - 1)
      in \<lparr>ck_x = div_i32 pixelX chunkSizePixels, ck_y = div_i32 pixelY chunkSizePixels\<rparr>)"

text \<open>\<open>for (auto v = lo; v <= hi; ++v)\<close> on signed integers.\<close>

definition int_range :: "i32 \<Rightarrow> i32 \<Rightarrow> i32 list" where
  "int_range lo hi = map cast_i32 [sint lo..sint hi]"

definition maxChunkX :: "MapConfig \<Rightarrow> i32" where
  "maxChunkX config =
     div_i32 (mc_widthTiles config + mc_chunkSizeTiles config - 1) (mc_chunkSizeTiles config)"

definition maxChunkY :: "MapConfig \<Rightarrow> i32" where
  "maxChunkY config =
     div_i32 (mc_heightTiles config + mc_chunkSizeTiles config - 1) (mc_chunkSizeTiles config)"

definition ChunksInAreaOfInterest :: "MapConfig \<Rightarrow> ChunkCoord \<Rightarrow> ChunkCoord list" where
  "ChunksInAreaOfInterest config center =
     (let r = mc_interestRadiusChunks config
      in concat (map (\<lambda>y. map (\<lambda>x. \<lparr>ck_x = x, ck_y = y\<rparr>)
           (filter (\<lambda>x. sint x \<ge> 0 \<and> sint y \<ge> 0 \<and> sint x < sint (maxChunkX config)
                        \<and> sint y < sint (maxChunkY config))
             (int_range (ck_x center - r) (ck_x center + r))))
         (int_range (ck_y center - r) (ck_y center + r))))"

definition abs_i32 :: "i32 \<Rightarrow> i32" where
  "abs_i32 v = (if sint v < 0 then - v else v)"

definition IsChunkInAreaOfInterest :: "MapConfig \<Rightarrow> ChunkCoord \<Rightarrow> ChunkCoord \<Rightarrow> bool" where
  "IsChunkInAreaOfInterest config observer candidate =
     (let dx = abs_i32 (ck_x observer - ck_x candidate);
          dy = abs_i32 (ck_y observer - ck_y candidate)
      in sint dx \<le> sint (mc_interestRadiusChunks config)
         \<and> sint dy \<le> sint (mc_interestRadiusChunks config))"

definition MapWidthFixed :: "MapConfig \<Rightarrow> Fixed" where
  "MapWidthFixed config = PixelsToFixed (mc_widthTiles config * mc_tileSizePixels config)"

definition MapHeightFixed :: "MapConfig \<Rightarrow> Fixed" where
  "MapHeightFixed config = PixelsToFixed (mc_heightTiles config * mc_tileSizePixels config)"

section \<open>Usable configurations\<close>

text \<open>
  No 32-bit computation of this file, nor the map's size in fixed-point units, overflows. A chunk
  on the map keeps \<open>2 ^ 30\<close> of room around it for the radius.
\<close>

definition map_ok :: "MapConfig \<Rightarrow> bool" where
  "map_ok config \<longleftrightarrow>
     0 < sint (mc_tileSizePixels config) \<and> 0 < sint (mc_chunkSizeTiles config)
     \<and> 0 < sint (mc_widthTiles config) \<and> 0 < sint (mc_heightTiles config)
     \<and> 0 \<le> sint (mc_interestRadiusChunks config) \<and> sint (mc_interestRadiusChunks config) < 2 ^ 30
     \<and> sint (mc_tileSizePixels config) * sint (mc_chunkSizeTiles config) < 2 ^ 31
     \<and> sint (mc_widthTiles config) + sint (mc_chunkSizeTiles config) < 2 ^ 31
     \<and> sint (mc_heightTiles config) + sint (mc_chunkSizeTiles config) < 2 ^ 31
     \<and> sint (mc_widthTiles config) * sint (mc_tileSizePixels config) * 1000 < 2 ^ 31
     \<and> sint (mc_heightTiles config) * sint (mc_tileSizePixels config) * 1000 < 2 ^ 31"

lemma map_ok_default: "map_ok default_MapConfig"
  by (simp add: map_ok_def default_MapConfig_def)

text \<open>Products and differences of in-range values.\<close>

lemma sint_mult_i32 [wrap_simps]:
  assumes "- (2 ^ 31) \<le> sint a * sint b" and "sint a * sint b < 2 ^ 31"
  shows "sint (a * b :: i32) = sint a * sint b"
proof -
  have "a * b = cast_i32 (sint a * sint b)" by simp
  then show ?thesis using assms by (metis sint_cast_i32)
qed

lemma sint_sub_i32 [wrap_simps]:
  assumes "- (2 ^ 31) \<le> sint a - sint b" and "sint a - sint b < 2 ^ 31"
  shows "sint (a - b :: i32) = sint a - sint b"
proof -
  have "a - b = cast_i32 (sint a - sint b)" by simp
  then show ?thesis using assms by (metis sint_cast_i32)
qed

lemma sint_div_i32 [wrap_simps]:
  assumes "0 < sint b" shows "sint (div_i32 a b) = sint a sdiv sint b"
proof -
  have "\<bar>sint a sdiv sint b\<bar> \<le> \<bar>sint a\<bar>" using assms by (rule sdiv_abs_le)
  moreover have "sint a sdiv sint b \<noteq> 2 ^ 31"
  proof (cases "sint a \<ge> 0")
    case True then show ?thesis using calculation sint_i32_range [of a] by linarith
  next
    case False
    then show ?thesis using assms by (simp add: sdiv_neg_eq pos_imp_zdiv_nonneg_iff not_le)
        (smt (verit) pos_imp_zdiv_nonneg_iff)
  qed
  ultimately show ?thesis unfolding div_i32_def
    using sint_i32_range [of a] by (intro sint_cast_i32) linarith+
qed

lemma sint_abs_i32 [wrap_simps]: "- (2 ^ 31) < sint v \<Longrightarrow> sint (abs_i32 v) = \<bar>sint v\<bar>"
  by (simp add: abs_i32_def wrap_simps)

section \<open>Chunks on the map\<close>

definition chunk_on_map :: "MapConfig \<Rightarrow> ChunkCoord \<Rightarrow> bool" where
  "chunk_on_map config c \<longleftrightarrow> 0 \<le> sint (ck_x c) \<and> sint (ck_x c) < sint (maxChunkX config)
     \<and> 0 \<le> sint (ck_y c) \<and> sint (ck_y c) < sint (maxChunkY config)"

lemma set_int_range: "v \<in> set (int_range lo hi) \<longleftrightarrow> sint lo \<le> sint v \<and> sint v \<le> sint hi"
proof
  assume "v \<in> set (int_range lo hi)"
  then obtain k where k: "v = cast_i32 k" "sint lo \<le> k" "k \<le> sint hi" by (auto simp: int_range_def)
  then have "sint v = k"
    using sint_i32_range [of lo] sint_i32_range [of hi] by (auto intro!: sint_cast_i32)
  with k show "sint lo \<le> sint v \<and> sint v \<le> sint hi" by simp
next
  assume "sint lo \<le> sint v \<and> sint v \<le> sint hi"
  then show "v \<in> set (int_range lo hi)"
    unfolding int_range_def by (auto intro!: image_eqI [where x = "sint v"])
qed

lemma distinct_int_range: "distinct (int_range lo hi)"
proof -
  have "inj_on (cast_i32) {sint lo..sint hi}"
    by (rule inj_on_inverseI [where g = sint])
      (use sint_i32_range [of lo] sint_i32_range [of hi] in \<open>auto intro!: sint_cast_i32\<close>)
  then show ?thesis by (simp add: int_range_def distinct_map)
qed

lemma sint_maxChunk:
  assumes "map_ok c"
  shows "sint (maxChunkX c) = (sint (mc_widthTiles c) + sint (mc_chunkSizeTiles c) - 1)
            div sint (mc_chunkSizeTiles c)"
    and "sint (maxChunkY c) = (sint (mc_heightTiles c) + sint (mc_chunkSizeTiles c) - 1)
            div sint (mc_chunkSizeTiles c)"
proof -
  have *: "sint (div_i32 (a + s - 1) s) = (sint a + sint s - 1) div sint s"
    if "0 < sint a" "0 < sint s" "sint a + sint s < 2 ^ 31" for a s :: i32
  proof -
    have "sint (a + s) = sint a + sint s" using that by (intro sint_add_i32) linarith+
    moreover from this have "sint (a + s - 1) = sint (a + s) - 1"
      using that sint_sub_i32 [of "a + s" 1] by simp
    ultimately show ?thesis using that by (simp add: sint_div_i32 sdiv_nonneg_eq_div)
  qed
  show "sint (maxChunkX c) = (sint (mc_widthTiles c) + sint (mc_chunkSizeTiles c) - 1)
            div sint (mc_chunkSizeTiles c)"
    and "sint (maxChunkY c) = (sint (mc_heightTiles c) + sint (mc_chunkSizeTiles c) - 1)
            div sint (mc_chunkSizeTiles c)"
    using assms unfolding maxChunkX_def maxChunkY_def by (simp_all add: map_ok_def *)
qed

lemma pixel_chunk_bound:
  fixes p w t s :: int
  assumes "0 \<le> p" "p \<le> w * t - 1" "0 < t" "0 < s" "0 < w"
  shows "0 \<le> p div (t * s)" and "p div (t * s) < (w + s - 1) div s"
proof -
  show "0 \<le> p div (t * s)" using assms by (simp add: pos_imp_zdiv_nonneg_iff)
  have "p div (t * s) = (p div t) div s" using assms by (simp add: zdiv_zmult2_eq)
  moreover have "p div t \<le> w - 1"
  proof -
    have "p div t * t \<le> p" using div_mult_mod_eq [of p t] pos_mod_sign [of t p] assms by linarith
    then have "p div t * t < w * t" using assms by linarith
    then have "p div t < w" using assms by (simp add: mult_less_cancel_right)
    then show ?thesis by simp
  qed
  then have "(p div t) div s \<le> (w - 1) div s" using assms by (intro zdiv_mono1)
  moreover have "(w - 1 + s) div s = (w - 1) div s + 1" using assms by (intro div_add_self2) simp
  then have "(w + s - 1) div s = (w - 1) div s + 1" by (simp add: algebra_simps)
  ultimately show "p div (t * s) < (w + s - 1) div s" by simp
qed

lemma axis_chunk:
  assumes "0 < sint t" "0 < sint s" "0 < sint w" "sint t * sint s < 2 ^ 31"
    and "sint w * sint t < 2 ^ 31" and [simp]: "c = ClampFixed p 0 (w * t - 1 :: i32)"
  shows "0 \<le> sint (div_i32 c (t * s))"
    and "sint (div_i32 c (t * s)) < (sint w + sint s - 1) div sint s"
proof -
  have pos: "0 < sint t * sint s" "0 < sint w * sint t" using assms by simp_all
  have ts: "sint (t * s) = sint t * sint s"
    using assms pos by (intro sint_mult_i32) linarith+
  have wt: "sint (w * t) = sint w * sint t"
    using assms pos by (intro sint_mult_i32) linarith+
  have wt1: "sint (w * t - 1) = sint w * sint t - 1"
    using sint_sub_i32 [of "w * t" 1] wt pos assms by simp
  have c: "0 \<le> sint c" "sint c \<le> sint w * sint t - 1"
    using ClampFixed_range [of 0 "w * t - 1" p] wt1 pos by simp_all
  have d: "sint (div_i32 c (t * s)) = sint c div (sint t * sint s)"
    using pos c by (subst sint_div_i32) (simp_all add: ts sdiv_nonneg_eq_div del: \<open>c = _\<close>)
  show "0 \<le> sint (div_i32 c (t * s))"
    and "sint (div_i32 c (t * s)) < (sint w + sint s - 1) div sint s"
    using pixel_chunk_bound [OF c] assms(1-3) unfolding d by simp_all
qed

lemma ChunkForPosition_on_map:
  assumes "map_ok config" shows "chunk_on_map config (ChunkForPosition config x y)"
proof -
  have "sint (mc_widthTiles config) * sint (mc_tileSizePixels config) < 2 ^ 31"
    and "sint (mc_heightTiles config) * sint (mc_tileSizePixels config) < 2 ^ 31"
    using assms mult_pos_pos [of "sint (mc_widthTiles config)" "sint (mc_tileSizePixels config)"]
      mult_pos_pos [of "sint (mc_heightTiles config)" "sint (mc_tileSizePixels config)"]
    unfolding map_ok_def by linarith+
  then show ?thesis
    using axis_chunk [of "mc_tileSizePixels config" "mc_chunkSizeTiles config"] assms
    unfolding chunk_on_map_def ChunkForPosition_def Let_def sint_maxChunk [OF assms]
    by (simp add: map_ok_def)
qed

section \<open>The area of interest\<close>

lemma ChunksInAreaOfInterest_iff:
  assumes "map_ok config" "chunk_on_map config center" "sint (maxChunkX config) \<le> 2 ^ 30"
    "sint (maxChunkY config) \<le> 2 ^ 30"
  shows "c \<in> set (ChunksInAreaOfInterest config center) \<longleftrightarrow>
     chunk_on_map config c \<and> IsChunkInAreaOfInterest config center c"
proof -
  let ?r = "mc_interestRadiusChunks config"
  have r: "0 \<le> sint ?r" "sint ?r < 2 ^ 30" using assms(1) by (simp_all add: map_ok_def)
  have plus: "sint (v + ?r) = sint v + sint ?r" "sint (v - ?r) = sint v - sint ?r"
    if "0 \<le> sint v" "sint v < 2 ^ 30" for v
    using that r by (auto intro!: sint_add_i32 sint_sub_i32)
  have dist: "sint (abs_i32 (v - w)) = \<bar>sint v - sint w\<bar>"
    if "0 \<le> sint v" "sint v < 2 ^ 30" "0 \<le> sint w" "sint w < 2 ^ 30" for v w :: i32
  proof -
    have "sint (v - w) = sint v - sint w" using that by (intro sint_sub_i32; simp)
    then show ?thesis using that by (simp add: sint_abs_i32)
  qed
  have center: "0 \<le> sint (ck_x center)" "sint (ck_x center) < 2 ^ 30"
      "0 \<le> sint (ck_y center)" "sint (ck_y center) < 2 ^ 30"
    using assms by (auto simp: chunk_on_map_def)
  have "c \<in> set (ChunksInAreaOfInterest config center) \<longleftrightarrow> chunk_on_map config c
      \<and> ck_x c \<in> set (int_range (ck_x center - ?r) (ck_x center + ?r))
      \<and> ck_y c \<in> set (int_range (ck_y center - ?r) (ck_y center + ?r))"
    by (cases c) (auto simp: ChunksInAreaOfInterest_def Let_def chunk_on_map_def image_iff)
  also have "\<dots> \<longleftrightarrow>
     chunk_on_map config c \<and> \<bar>sint (ck_x center) - sint (ck_x c)\<bar> \<le> sint ?r
       \<and> \<bar>sint (ck_y center) - sint (ck_y c)\<bar> \<le> sint ?r"
    unfolding set_int_range plus [OF center(1,2)] plus [OF center(3,4)] by linarith
  also have "\<dots> \<longleftrightarrow> chunk_on_map config c \<and> IsChunkInAreaOfInterest config center c"
    using center assms(3,4) by (auto simp: IsChunkInAreaOfInterest_def Let_def dist chunk_on_map_def)
  finally show ?thesis .
qed

lemma distinct_ChunksInAreaOfInterest: "distinct (ChunksInAreaOfInterest config center)"
  unfolding ChunksInAreaOfInterest_def Let_def
  by (rule distinct_concat_map)
    (auto simp: distinct_map distinct_int_range inj_on_def)

end
