(* ===== verification/Simulation.thy ===== *)
theory Simulation
  imports Registry Map_Chunks
begin

text \<open>
  The game simulation: \<open>Simulation.cpp\<close>, \<open>SimulationMovement.cpp\<close> and \<open>SimulationCombat.cpp\<close>
  of \<open>src/GameLogic/src\<close>. \<open>GameSimulation\<close> is a record with the fields of the class; its
  member functions take the registry operations \<open>E\<close> and return the new state. A loop over a view
  is a fold over the list the view gives when the loop starts: no loop body creates or destroys an
  entity or adds a component its view asks for.

  This theory holds the definitions; the theories that follow prove the invariant, the movement
  bounds, the combat rules and the snapshot round trip.
\<close>

section \<open>State\<close>

datatype SimulationMode = ServerAuthoritative | ClientPrediction

record SimulationConfig =
  sc_mode :: SimulationMode
  sc_map :: MapConfig
  sc_tickDurationMs :: TimestampMs
  sc_maxPlayers :: u16
  sc_movementAccelerationPerSecond :: Fixed
  sc_maxMoveSpeedPerSecond :: Fixed
  sc_maxPlayerHealth :: i32
  sc_respawnDelayMs :: TimestampMs
  sc_defaultWeapon :: WeaponType
  sc_weapons :: WeaponDefinitionTable

definition default_SimulationConfig :: SimulationConfig where
  "default_SimulationConfig = \<lparr>sc_mode = ServerAuthoritative, sc_map = default_MapConfig,
     sc_tickDurationMs = 16, sc_maxPlayers = 256,
     sc_movementAccelerationPerSecond = PixelsToFixed 2600,
     sc_maxMoveSpeedPerSecond = PixelsToFixed 360, sc_maxPlayerHealth = 100,
     sc_respawnDelayMs = 1500, sc_defaultWeapon = WeaponBow, sc_weapons = DefaultWeaponDefinitions\<rparr>"

record 'r GameSimulation =
  gs_config :: SimulationConfig
  gs_registry :: 'r
  gs_tick :: Tick
  gs_timeMs :: TimestampMs
  gs_nextNetworkId :: NetworkEntityId
  gs_events :: EventList
  gs_pendingInputs :: "ClientInputPacket list"
  gs_playerByClient :: "(ClientId, NetworkEntityId) umap"
  gs_entityByNetworkId :: "(NetworkEntityId, entity) umap"
  gs_lastAcceptedSequence :: "(ClientId, CommandSequence) umap"

definition new_GameSimulation :: "'r entt_ops \<Rightarrow> SimulationConfig \<Rightarrow> 'r GameSimulation" where
  "new_GameSimulation E config = \<lparr>gs_config = config, gs_registry = en_empty E, gs_tick = 0,
     gs_timeMs = 0, gs_nextNetworkId = 1, gs_events = [], gs_pendingInputs = [],
     gs_playerByClient = [], gs_entityByNetworkId = [], gs_lastAcceptedSequence = []\<rparr>"

text \<open>Reading and writing the components of one entity.\<close>

definition cm :: "'r entt_ops \<Rightarrow> 'r GameSimulation \<Rightarrow> entity \<Rightarrow> components" where
  "cm E s e = comps E (gs_registry s) e"

definition upd :: "'r entt_ops \<Rightarrow> entity \<Rightarrow> (components \<Rightarrow> components) \<Rightarrow> 'r GameSimulation \<Rightarrow> 'r GameSimulation" where
  "upd E e f s = s\<lparr>gs_registry := modify E e f (gs_registry s)\<rparr>"

definition QueueEvent :: "DomainEvent \<Rightarrow> 'r GameSimulation \<Rightarrow> 'r GameSimulation" where
  "QueueEvent event s = s\<lparr>gs_events := gs_events s @ [event]\<rparr>"

definition EntityFor :: "'r GameSimulation \<Rightarrow> NetworkEntityId \<Rightarrow> entity option" where
  "EntityFor s entityId = um_find (gs_entityByNetworkId s) entityId"

definition PlayerEntityForClient :: "'r GameSimulation \<Rightarrow> ClientId \<Rightarrow> NetworkEntityId option" where
  "PlayerEntityForClient s clientId = um_find (gs_playerByClient s) clientId"

definition EntityCount :: "'r GameSimulation \<Rightarrow> nat" where
  "EntityCount s = length (gs_entityByNetworkId s)"

definition AllocateNetworkId :: "'r GameSimulation \<Rightarrow> NetworkEntityId \<times> 'r GameSimulation" where
  "AllocateNetworkId s =
     (gs_nextNetworkId s, s\<lparr>gs_nextNetworkId := gs_nextNetworkId s + 1\<rparr>)"

definition SpawnTransformForClient :: "SimulationConfig \<Rightarrow> ClientId \<Rightarrow> TransformComponent" where
  "SpawnTransformForClient config clientId =
     (let tileX = 10 + clientId mod 20;
          tileY = 10 + (clientId div 20) mod 20
      in \<lparr>tf_x = PixelsToFixed (tileX * mc_tileSizePixels (sc_map config)),
          tf_y = PixelsToFixed (tileY * mc_tileSizePixels (sc_map config))\<rparr>)"

definition MovementForEntity :: "'r entt_ops \<Rightarrow> 'r GameSimulation \<Rightarrow> NetworkEntityId \<Rightarrow> MovementStateDTO option" where
  "MovementForEntity E s entityId =
     (case EntityFor s entityId of
        None \<Rightarrow> None
      | Some entity \<Rightarrow>
          (case (c_identity (cm E s entity), c_transform (cm E s entity), c_velocity (cm E s entity)) of
             (Some identity, Some transform, Some velocity) \<Rightarrow>
               let (aimX, aimY) = (case c_aim (cm E s entity) of
                     Some aim \<Rightarrow> (am_x aim, am_y aim) | None \<Rightarrow> (1000, 0))
               in Some \<lparr>mv_entityId = identity, mv_x = tf_x transform, mv_y = tf_y transform,
                        mv_vx = vl_vx velocity, mv_vy = vl_vy velocity, mv_aimX = aimX, mv_aimY = aimY\<rparr>
           | _ \<Rightarrow> None))"

definition DrainEvents :: "'r GameSimulation \<Rightarrow> EventList \<times> 'r GameSimulation" where
  "DrainEvents s = (gs_events s, s\<lparr>gs_events := []\<rparr>)"

section \<open>Login\<close>

definition CreatePlayer ::
    "'r entt_ops \<Rightarrow> ClientId \<Rightarrow> Fixed \<Rightarrow> Fixed \<Rightarrow> 'r GameSimulation \<Rightarrow> NetworkEntityId \<times> 'r GameSimulation" where
  "CreatePlayer E clientId x y s =
     (let (entity, reg) = en_create E (gs_registry s);
          s = s\<lparr>gs_registry := reg\<rparr>;
          (networkId, s) = AllocateNetworkId s;
          config = gs_config s;
          s = upd E entity (\<lambda>c. c\<lparr>c_identity := Some networkId\<rparr>) s;
          s = upd E entity (\<lambda>c. c\<lparr>c_transform := Some \<lparr>tf_x = x, tf_y = y\<rparr>\<rparr>) s;
          s = upd E entity (\<lambda>c. c\<lparr>c_velocity := Some default_Velocity\<rparr>) s;
          s = upd E entity (\<lambda>c. c\<lparr>c_aim := Some default_Aim\<rparr>) s;
          s = upd E entity (\<lambda>c. c\<lparr>c_player := Some (default_Player\<lparr>pl_clientId := clientId,
                pl_health := sc_maxPlayerHealth config, pl_maxHealth := sc_maxPlayerHealth config\<rparr>)\<rparr>) s;
          s = upd E entity (\<lambda>c. c\<lparr>c_weapon := Some (default_WeaponState\<lparr>ws_type := sc_defaultWeapon config\<rparr>)\<rparr>) s;
          s = upd E entity (\<lambda>c. c\<lparr>c_owner := Some clientId\<rparr>) s;
          s = upd E entity (\<lambda>c. c\<lparr>c_replication := Some AreaOfInterest\<rparr>) s;
          s = (if sc_mode config = ServerAuthoritative
               then upd E entity (\<lambda>c. c\<lparr>c_authoritative := True\<rparr>) s
               else upd E entity (\<lambda>c. c\<lparr>c_predicted := True\<rparr>) s);
          s = s\<lparr>gs_playerByClient := um_put clientId networkId (gs_playerByClient s)\<rparr>;
          s = s\<lparr>gs_entityByNetworkId := um_put networkId entity (gs_entityByNetworkId s)\<rparr>
      in (networkId, QueueEvent (PlayerSpawned networkId clientId x y) s))"

definition SubmitLogin :: "'r entt_ops \<Rightarrow> LoginCommand \<Rightarrow> 'r GameSimulation \<Rightarrow> bool \<times> 'r GameSimulation" where
  "SubmitLogin E command s =
     (let clientId = hd_clientId (lg_header command)
      in if um_contains (gs_playerByClient s) clientId then (True, s)
         else if length (gs_playerByClient s) \<ge> unat (sc_maxPlayers (gs_config s)) then (False, s)
         else let s = s\<lparr>gs_lastAcceptedSequence :=
                          um_put clientId (hd_sequence (lg_header command)) (gs_lastAcceptedSequence s)\<rparr>;
                  spawn = SpawnTransformForClient (gs_config s) clientId;
                  (createdPlayerId, s) = CreatePlayer E clientId (tf_x spawn) (tf_y spawn) s
              in (True, s))"

section \<open>Input\<close>

definition SubmitInput :: "ClientInputPacket \<Rightarrow> 'r GameSimulation \<Rightarrow> bool \<times> 'r GameSimulation" where
  "SubmitInput packet s =
     (let clientId = hd_clientId (ip_header packet); sequence = hd_sequence (ip_header packet)
      in case um_find (gs_playerByClient s) clientId of
           None \<Rightarrow> (False, s)
         | Some _ \<Rightarrow>
             if (case um_find (gs_lastAcceptedSequence s) clientId of
                   Some lastSeq \<Rightarrow> sequence \<le> lastSeq | None \<Rightarrow> False)
             then (False, s)
             else (True, s\<lparr>gs_lastAcceptedSequence := um_put clientId sequence (gs_lastAcceptedSequence s),
                           gs_pendingInputs := gs_pendingInputs s @ [packet]\<rparr>))"

text \<open>The fire button: a weapon that is not warming starts to; one that is keeps its deadline.\<close>

definition fire_weapon :: "'r entt_ops \<Rightarrow> entity \<Rightarrow> 'r GameSimulation \<Rightarrow> 'r GameSimulation" where
  "fire_weapon E entity s =
     (case (c_weapon (cm E s entity), c_identity (cm E s entity)) of
        (Some weapon, Some identity) \<Rightarrow>
          (case FindWeaponDefinition (sc_weapons (gs_config s)) (ws_type weapon) of
             None \<Rightarrow> s
           | Some definition \<Rightarrow>
               if ws_type weapon = WeaponNone then s
               else if \<not> ws_warming weapon
               then let weapon = weapon\<lparr>ws_warming := True, ws_warmupStartedAtMs := gs_timeMs s,
                          ws_warmupCompletesAtMs := gs_timeMs s + wd_warmupMs definition\<rparr>;
                        s = upd E entity (\<lambda>c. c\<lparr>c_weapon := Some weapon\<rparr>) s
                    in QueueEvent (WeaponWarmupStarted identity (ws_warmupStartedAtMs weapon)
                         (ws_warmupCompletesAtMs weapon) (ws_type weapon)) s
               else s)
      | _ \<Rightarrow> s)"

definition ApplyInputToEntity ::
    "'r entt_ops \<Rightarrow> entity \<Rightarrow> ClientInputPacket \<Rightarrow> 'r GameSimulation \<Rightarrow> 'r GameSimulation" where
  "ApplyInputToEntity E entity packet s =
     (let input = ip_input packet
      in if (case c_player (cm E s entity) of Some p \<Rightarrow> pl_defeated p | None \<Rightarrow> False) then s
         else
         let s = upd E entity (\<lambda>c. c\<lparr>c_intent := Some input\<rparr>) s;
             s = upd E entity (\<lambda>c. case c_aim c of None \<Rightarrow> c\<lparr>c_aim := Some default_Aim\<rparr> | Some _ \<Rightarrow> c) s;
             s = (if if_aimX input \<noteq> 0 \<or> if_aimY input \<noteq> 0
                  then upd E entity (\<lambda>c. c\<lparr>c_aim := Some \<lparr>am_x = if_aimX input, am_y = if_aimY input\<rparr>\<rparr>) s
                  else s)
         in if if_fire input then fire_weapon E entity s else s)"

section \<open>Movement\<close>

definition IntegrateFixedPerSecond :: "Fixed \<Rightarrow> TimestampMs \<Rightarrow> Fixed" where
  "IntegrateFixedPerSecond valuePerSecond tickDurationMs =
     cast_i32 (wrap64 (sint valuePerSecond * sint tickDurationMs) sdiv 1000)"

definition ApplyInputAcceleration :: "Fixed \<Rightarrow> Fixed \<Rightarrow> i16 \<Rightarrow> Fixed" where
  "ApplyInputAcceleration velocity accelerationDelta normalizedInput =
     velocity + cast_i32 (wrap64 (sint accelerationDelta * sint normalizedInput) sdiv sint kFixedOne)"

definition ApplyFriction :: "Fixed \<Rightarrow> Fixed" where
  "ApplyFriction velocity = FixedMulRatio velocity 72 100"

definition ClampToMap :: "SimulationConfig \<Rightarrow> TransformComponent \<Rightarrow> TransformComponent" where
  "ClampToMap config transform =
     \<lparr>tf_x = ClampFixed (tf_x transform) 0 (MapWidthFixed (sc_map config) - 1),
      tf_y = ClampFixed (tf_y transform) 0 (MapHeightFixed (sc_map config) - 1)\<rparr>"

text \<open>The velocity after input or friction and the clamp; the position one tick later.\<close>

definition next_velocity :: "SimulationConfig \<Rightarrow> InputIntentComponent option \<Rightarrow> VelocityComponent \<Rightarrow> VelocityComponent" where
  "next_velocity config intent velocity =
     (let velocity =
        (case intent of
           Some input \<Rightarrow>
             let normalized = NormalizeDigitalInput (if_moveX input) (if_moveY input);
                 accelerationDelta = IntegrateFixedPerSecond (sc_movementAccelerationPerSecond config)
                                       (sc_tickDurationMs config)
             in \<lparr>vl_vx = ApplyInputAcceleration (vl_vx velocity) accelerationDelta (in_x normalized),
                 vl_vy = ApplyInputAcceleration (vl_vy velocity) accelerationDelta (in_y normalized)\<rparr>
         | None \<Rightarrow> \<lparr>vl_vx = ApplyFriction (vl_vx velocity), vl_vy = ApplyFriction (vl_vy velocity)\<rparr>)
      in \<lparr>vl_vx = ClampFixed (vl_vx velocity) (- sc_maxMoveSpeedPerSecond config) (sc_maxMoveSpeedPerSecond config),
          vl_vy = ClampFixed (vl_vy velocity) (- sc_maxMoveSpeedPerSecond config) (sc_maxMoveSpeedPerSecond config)\<rparr>)"

definition advance_transform :: "SimulationConfig \<Rightarrow> VelocityComponent \<Rightarrow> TransformComponent \<Rightarrow> TransformComponent" where
  "advance_transform config velocity transform =
     \<lparr>tf_x = tf_x transform + IntegrateFixedPerSecond (vl_vx velocity) (sc_tickDurationMs config),
      tf_y = tf_y transform + IntegrateFixedPerSecond (vl_vy velocity) (sc_tickDurationMs config)\<rparr>"

definition IntegrateMovement :: "'r entt_ops \<Rightarrow> entity \<Rightarrow> 'r GameSimulation \<Rightarrow> 'r GameSimulation" where
  "IntegrateMovement E entity s =
     (case (c_identity (cm E s entity), c_transform (cm E s entity), c_velocity (cm E s entity)) of
        (Some identity, Some oldTransform, Some velocity) \<Rightarrow>
          if (case c_player (cm E s entity) of Some p \<Rightarrow> pl_defeated p | None \<Rightarrow> False)
          then upd E entity (\<lambda>c. c\<lparr>c_velocity := Some \<lparr>vl_vx = 0, vl_vy = 0\<rparr>\<rparr>) s
          else
          let velocity = next_velocity (gs_config s) (c_intent (cm E s entity)) velocity;
              s = upd E entity (\<lambda>c. c\<lparr>c_velocity := Some velocity\<rparr>) s;
              transform = ClampToMap (gs_config s) (advance_transform (gs_config s) velocity oldTransform);
              s = upd E entity (\<lambda>c. c\<lparr>c_transform := Some transform\<rparr>) s
          in if (tf_x oldTransform \<noteq> tf_x transform \<or> tf_y oldTransform \<noteq> tf_y transform)
                \<and> c_player (cm E s entity) \<noteq> None
             then QueueEvent (PlayerMoved identity (tf_x oldTransform) (tf_y oldTransform)
                    (tf_x transform) (tf_y transform)) s
             else s
      | _ \<Rightarrow> s)"

definition apply_pending :: "'r entt_ops \<Rightarrow> ClientInputPacket \<Rightarrow> 'r GameSimulation \<Rightarrow> 'r GameSimulation" where
  "apply_pending E input s =
     (case PlayerEntityForClient s (hd_clientId (ip_header input)) of
        None \<Rightarrow> s
      | Some player \<Rightarrow>
          (case EntityFor s player of
             None \<Rightarrow> s
           | Some entity \<Rightarrow> ApplyInputToEntity E entity input s))"

definition ProcessInputs :: "'r entt_ops \<Rightarrow> 'r GameSimulation \<Rightarrow> 'r GameSimulation" where
  "ProcessInputs E s =
     (let s = fold (apply_pending E) (gs_pendingInputs s) s;
          s = s\<lparr>gs_pendingInputs := []\<rparr>;
          s = fold (IntegrateMovement E) (en_view E [K_Player] (gs_registry s)) s
      in s\<lparr>gs_registry := en_clear_intents E (gs_registry s)\<rparr>)"

definition replay_input :: "'r entt_ops \<Rightarrow> ClientInputPacket \<Rightarrow> 'r GameSimulation \<Rightarrow> 'r GameSimulation" where
  "replay_input E input s =
     (case PlayerEntityForClient s (hd_clientId (ip_header input)) of
        None \<Rightarrow> s
      | Some player \<Rightarrow>
          (case EntityFor s player of
             None \<Rightarrow> s
           | Some entity \<Rightarrow>
               let s = ApplyInputToEntity E entity input s;
                   s = IntegrateMovement E entity s
               in if c_intent (cm E s entity) \<noteq> None
                  then upd E entity (\<lambda>c. c\<lparr>c_intent := None\<rparr>) s else s))"

definition ReplayLocalInputsForPrediction ::
    "'r entt_ops \<Rightarrow> ClientInputPacket list \<Rightarrow> 'r GameSimulation \<Rightarrow> 'r GameSimulation" where
  "ReplayLocalInputsForPrediction E inputs s = fold (replay_input E) inputs s"

section \<open>Combat\<close>

definition kHitRadius :: Fixed where
  "kHitRadius = PixelsToFixed 42"

definition CloseEnoughForHit :: "TransformComponent \<Rightarrow> TransformComponent \<Rightarrow> bool" where
  "CloseEnoughForHit left right =
     (let dx = wrap64 (sint (tf_x left) - sint (tf_x right));
          dy = wrap64 (sint (tf_y left) - sint (tf_y right));
          radius = sint kHitRadius
      in wrap64 (wrap64 (dx * dx) + wrap64 (dy * dy)) \<le> wrap64 (radius * radius))"

definition projectile_velocity :: "WeaponDefinition \<Rightarrow> i16 \<Rightarrow> Fixed" where
  "projectile_velocity weapon aim =
     cast_i32 (wrap64 (sint (wd_projectileSpeedPerSecond weapon) * sint aim) sdiv sint kFixedOne)"

definition CreateProjectile ::
    "'r entt_ops \<Rightarrow> NetworkEntityId \<Rightarrow> TransformComponent \<Rightarrow> AimComponent \<Rightarrow> WeaponDefinition
     \<Rightarrow> 'r GameSimulation \<Rightarrow> NetworkEntityId \<times> 'r GameSimulation" where
  "CreateProjectile E ownerId ownerTransform aim weapon s =
     (let (entity, reg) = en_create E (gs_registry s);
          s = s\<lparr>gs_registry := reg\<rparr>;
          (networkId, s) = AllocateNetworkId s;
          s = upd E entity (\<lambda>c. c\<lparr>c_identity := Some networkId\<rparr>) s;
          s = upd E entity (\<lambda>c. c\<lparr>c_transform := Some \<lparr>tf_x = tf_x ownerTransform, tf_y = tf_y ownerTransform\<rparr>\<rparr>) s;
          s = upd E entity (\<lambda>c. c\<lparr>c_velocity := Some \<lparr>vl_vx = projectile_velocity weapon (am_x aim),
                vl_vy = projectile_velocity weapon (am_y aim)\<rparr>\<rparr>) s;
          s = upd E entity (\<lambda>c. c\<lparr>c_projectile := Some \<lparr>pj_ownerId = ownerId, pj_spawnedAtMs = gs_timeMs s,
                pj_expiresAtMs = gs_timeMs s + wd_projectileLifetimeMs weapon,
                pj_sourceWeapon = wd_type weapon\<rparr>\<rparr>) s;
          s = upd E entity (\<lambda>c. c\<lparr>c_replication := Some AreaOfInterest\<rparr>) s;
          s = upd E entity (\<lambda>c. c\<lparr>c_authoritative := True\<rparr>) s;
          s = s\<lparr>gs_entityByNetworkId := um_put networkId entity (gs_entityByNetworkId s)\<rparr>
      in (networkId, QueueEvent (ProjectileSpawned networkId ownerId (tf_x ownerTransform)
            (tf_y ownerTransform) (wd_type weapon)) s))"

record ProjectileRequest =
  pr_ownerId :: NetworkEntityId
  pr_transform :: TransformComponent
  pr_aim :: AimComponent
  pr_weapon :: WeaponDefinition

text \<open>One turn of the warm-up loop, over an entity of the view (all four components are there).\<close>

definition warmup_step ::
    "'r entt_ops \<Rightarrow> entity \<Rightarrow> 'r GameSimulation \<times> ProjectileRequest list \<Rightarrow> 'r GameSimulation \<times> ProjectileRequest list" where
  "warmup_step E entity acc =
     (case acc of (s, requests) \<Rightarrow>
        case (c_identity (cm E s entity), c_transform (cm E s entity), c_aim (cm E s entity),
              c_weapon (cm E s entity)) of
          (Some identity, Some transform, Some aim, Some weapon) \<Rightarrow>
            if (case c_player (cm E s entity) of Some p \<Rightarrow> pl_defeated p | None \<Rightarrow> False)
            then (upd E entity (\<lambda>c. c\<lparr>c_weapon := Some (weapon\<lparr>ws_warming := False\<rparr>)\<rparr>) s, requests)
            else if \<not> ws_warming weapon \<or> gs_timeMs s < ws_warmupCompletesAtMs weapon then (s, requests)
            else
            let weapon = weapon\<lparr>ws_warming := False\<rparr>;
                s = upd E entity (\<lambda>c. c\<lparr>c_weapon := Some weapon\<rparr>) s
            in if sc_mode (gs_config s) = ServerAuthoritative
               then (case FindWeaponDefinition (sc_weapons (gs_config s)) (ws_type weapon) of
                       None \<Rightarrow> (s, requests)
                     | Some definition \<Rightarrow>
                         let s = QueueEvent (WeaponFired identity (gs_timeMs s) (ws_type weapon)) s
                         in if wd_serverSpawnedProjectile definition
                            then (s, requests @ [\<lparr>pr_ownerId = identity, pr_transform = transform,
                                                 pr_aim = aim, pr_weapon = definition\<rparr>])
                            else (s, requests))
               else (s, requests)
        | _ \<Rightarrow> (s, requests))"

definition spawn_request :: "'r entt_ops \<Rightarrow> ProjectileRequest \<Rightarrow> 'r GameSimulation \<Rightarrow> 'r GameSimulation" where
  "spawn_request E request s =
     snd (CreateProjectile E (pr_ownerId request) (pr_transform request) (pr_aim request) (pr_weapon request) s)"

definition ProcessWeaponWarmups :: "'r entt_ops \<Rightarrow> 'r GameSimulation \<Rightarrow> 'r GameSimulation" where
  "ProcessWeaponWarmups E s =
     (let view = en_view E [K_Identity, K_Transform, K_Aim, K_Weapon] (gs_registry s);
          (s, projectilesToSpawn) = fold (warmup_step E) view (s, [])
      in fold (spawn_request E) projectilesToSpawn s)"

text \<open>A hit: the damage, the events, and the defeat at zero health.\<close>

definition max_i32 :: "i32 \<Rightarrow> i32 \<Rightarrow> i32" where
  "max_i32 a b = (if sint a < sint b then b else a)"

definition hit_player ::
    "'r entt_ops \<Rightarrow> NetworkEntityId \<Rightarrow> ProjectileComponent \<Rightarrow> entity \<Rightarrow> NetworkEntityId \<Rightarrow> PlayerComponent
     \<Rightarrow> 'r GameSimulation \<Rightarrow> 'r GameSimulation" where
  "hit_player E projectileId projectile playerEntity playerId player s =
     (let damage = (case FindWeaponDefinition (sc_weapons (gs_config s)) (pj_sourceWeapon projectile) of
                      Some weapon \<Rightarrow> wd_damage weapon | None \<Rightarrow> 0);
          player = player\<lparr>pl_health := max_i32 0 (pl_health player - damage)\<rparr>;
          s = upd E playerEntity (\<lambda>c. c\<lparr>c_player := Some player\<rparr>) s;
          s = QueueEvent (HitConfirmed (pj_ownerId projectile) playerId projectileId (gs_timeMs s)) s;
          s = QueueEvent (PlayerDamaged playerId (pj_ownerId projectile) damage (pl_health player)) s
      in if sint (pl_health player) \<le> 0
         then let player = player\<lparr>pl_defeated := True,
                    pl_respawnAtMs := gs_timeMs s + sc_respawnDelayMs (gs_config s)\<rparr>;
                  s = upd E playerEntity (\<lambda>c. c\<lparr>c_player := Some player\<rparr>) s
              in QueueEvent (PlayerDied playerId (pj_ownerId projectile) (pl_respawnAtMs player)) s
         else s)"

text \<open>The inner loop over the players: it stops at the first one hit.\<close>

fun hit_loop ::
    "'r entt_ops \<Rightarrow> NetworkEntityId \<Rightarrow> ProjectileComponent \<Rightarrow> TransformComponent \<Rightarrow> entity list
     \<Rightarrow> 'r GameSimulation \<Rightarrow> bool \<times> 'r GameSimulation" where
  "hit_loop E projectileId projectile transform [] s = (False, s)"
| "hit_loop E projectileId projectile transform (playerEntity # rest) s =
     (case (c_identity (cm E s playerEntity), c_player (cm E s playerEntity), c_transform (cm E s playerEntity)) of
        (Some playerId, Some player, Some playerTransform) \<Rightarrow>
          if playerId = pj_ownerId projectile then hit_loop E projectileId projectile transform rest s
          else if pl_defeated player then hit_loop E projectileId projectile transform rest s
          else if CloseEnoughForHit transform playerTransform
          then (True, hit_player E projectileId projectile playerEntity playerId player s)
          else hit_loop E projectileId projectile transform rest s
      | _ \<Rightarrow> hit_loop E projectileId projectile transform rest s)"

definition outside_map :: "SimulationConfig \<Rightarrow> TransformComponent \<Rightarrow> bool" where
  "outside_map config transform \<longleftrightarrow> sint (tf_x transform) < 0 \<or> sint (tf_y transform) < 0
     \<or> sint (tf_x transform) \<ge> sint (MapWidthFixed (sc_map config))
     \<or> sint (tf_y transform) \<ge> sint (MapHeightFixed (sc_map config))"

definition projectile_step ::
    "'r entt_ops \<Rightarrow> entity list \<Rightarrow> entity \<Rightarrow> 'r GameSimulation \<times> entity list \<Rightarrow> 'r GameSimulation \<times> entity list" where
  "projectile_step E players projectileEntity acc =
     (case acc of (s, toDestroy) \<Rightarrow>
        case (c_identity (cm E s projectileEntity), c_projectile (cm E s projectileEntity),
              c_transform (cm E s projectileEntity), c_velocity (cm E s projectileEntity)) of
          (Some identity, Some projectile, Some transform, Some velocity) \<Rightarrow>
            let transform = advance_transform (gs_config s) velocity transform;
                s = upd E projectileEntity (\<lambda>c. c\<lparr>c_transform := Some transform\<rparr>) s
            in if gs_timeMs s \<ge> pj_expiresAtMs projectile \<or> outside_map (gs_config s) transform
               then (s, toDestroy @ [projectileEntity])
               else let (hit, s) = hit_loop E identity projectile transform players s
                    in (s, if hit then toDestroy @ [projectileEntity] else toDestroy)
        | _ \<Rightarrow> (s, toDestroy))"

definition destroy_projectile :: "'r entt_ops \<Rightarrow> entity \<Rightarrow> 'r GameSimulation \<Rightarrow> 'r GameSimulation" where
  "destroy_projectile E entity s =
     (case en_get E (gs_registry s) entity of
        None \<Rightarrow> s
      | Some c \<Rightarrow>
          (case c_identity c of
             None \<Rightarrow> s
           | Some identity \<Rightarrow>
               s\<lparr>gs_entityByNetworkId := um_erase identity (gs_entityByNetworkId s),
                 gs_registry := en_destroy E entity (gs_registry s)\<rparr>))"

definition ProcessProjectiles :: "'r entt_ops \<Rightarrow> 'r GameSimulation \<Rightarrow> 'r GameSimulation" where
  "ProcessProjectiles E s =
     (let projectiles = en_view E [K_Identity, K_Projectile, K_Transform, K_Velocity] (gs_registry s);
          players = en_view E [K_Identity, K_Player, K_Transform] (gs_registry s);
          (s, toDestroy) = fold (projectile_step E players) projectiles (s, [])
      in fold (destroy_projectile E) toDestroy s)"

definition respawn_step :: "'r entt_ops \<Rightarrow> entity \<Rightarrow> 'r GameSimulation \<Rightarrow> 'r GameSimulation" where
  "respawn_step E entity s =
     (case (c_identity (cm E s entity), c_player (cm E s entity)) of
        (Some identity, Some player) \<Rightarrow>
          if \<not> pl_defeated player \<or> gs_timeMs s < pl_respawnAtMs player then s
          else
          let spawn = SpawnTransformForClient (gs_config s) (pl_clientId player);
              player = player\<lparr>pl_health := pl_maxHealth player, pl_defeated := False, pl_respawnAtMs := 0\<rparr>;
              s = upd E entity (\<lambda>c. c\<lparr>c_player := Some player\<rparr>) s;
              s = upd E entity (\<lambda>c. c\<lparr>c_transform := Some spawn\<rparr>) s;
              s = upd E entity (\<lambda>c. c\<lparr>c_velocity := Some default_Velocity\<rparr>) s;
              s = upd E entity (\<lambda>c. case c_weapon c of
                    Some w \<Rightarrow> c\<lparr>c_weapon := Some (w\<lparr>ws_warming := False, ws_warmupStartedAtMs := 0,
                                                 ws_warmupCompletesAtMs := 0\<rparr>)\<rparr>
                  | None \<Rightarrow> c) s
          in QueueEvent (PlayerRespawned identity (tf_x spawn) (tf_y spawn)) s
      | _ \<Rightarrow> s)"

definition ProcessRespawns :: "'r entt_ops \<Rightarrow> 'r GameSimulation \<Rightarrow> 'r GameSimulation" where
  "ProcessRespawns E s =
     fold (respawn_step E) (en_view E [K_Identity, K_Player, K_Transform, K_Velocity] (gs_registry s)) s"

definition TickFixed :: "'r entt_ops \<Rightarrow> 'r GameSimulation \<Rightarrow> 'r GameSimulation" where
  "TickFixed E s =
     (let s = s\<lparr>gs_tick := gs_tick s + 1, gs_timeMs := gs_timeMs s + sc_tickDurationMs (gs_config s)\<rparr>;
          s = ProcessInputs E s;
          s = ProcessWeaponWarmups E s;
          s = ProcessProjectiles E s
      in ProcessRespawns E s)"

definition PriorityForEntity :: "'r entt_ops \<Rightarrow> 'r GameSimulation \<Rightarrow> ClientId \<Rightarrow> entity \<Rightarrow> SnapshotPriority" where
  "PriorityForEntity E s observerClientId entity =
     (if c_projectile (cm E s entity) \<noteq> None then High
      else if c_owner (cm E s entity) = Some observerClientId then High
      else if (case c_weapon (cm E s entity) of Some weapon \<Rightarrow> ws_warming weapon | None \<Rightarrow> False) then High
      else Medium)"

end
