(* ===== verification/Sim_Steps.thy ===== *)
theory Sim_Steps
  imports Simulation
begin

text \<open>
  The invariant of an authoritative simulation and the steps of a tick. \<open>index_ok\<close>: the id index
  and the registry name the same entities, every known client has a live player, ids are below the
  next one and the player limit holds. \<open>entity_ok\<close>: a player has its health in range, is defeated
  exactly at zero health, stands on the map and is within the speed limit. \<open>frame\<close> says what a step
  leaves alone. One lemma per step shows that it keeps the invariant; \<open>Sim_Invariants\<close> adds the
  steps that create entities and the runs.
\<close>

section \<open>Definitions\<close>

definition alive :: "'r entt_ops \<Rightarrow> 'r GameSimulation \<Rightarrow> entity \<Rightarrow> bool" where
  "alive E s e \<longleftrightarrow> en_get E (gs_registry s) e \<noteq> None"

definition on_map :: "SimulationConfig \<Rightarrow> TransformComponent \<Rightarrow> bool" where
  "on_map config t \<longleftrightarrow> 0 \<le> sint (tf_x t) \<and> sint (tf_x t) \<le> sint (MapWidthFixed (sc_map config) - 1)
     \<and> 0 \<le> sint (tf_y t) \<and> sint (tf_y t) \<le> sint (MapHeightFixed (sc_map config) - 1)"

definition speed_ok :: "SimulationConfig \<Rightarrow> VelocityComponent \<Rightarrow> bool" where
  "speed_ok config v \<longleftrightarrow> \<bar>sint (vl_vx v)\<bar> \<le> sint (sc_maxMoveSpeedPerSecond config)
     \<and> \<bar>sint (vl_vy v)\<bar> \<le> sint (sc_maxMoveSpeedPerSecond config)"

definition player_ok :: "SimulationConfig \<Rightarrow> PlayerComponent \<Rightarrow> bool" where
  "player_ok config p \<longleftrightarrow> pl_maxHealth p = sc_maxPlayerHealth config
     \<and> 0 \<le> sint (pl_health p) \<and> sint (pl_health p) \<le> sint (pl_maxHealth p)
     \<and> (pl_defeated p \<longleftrightarrow> sint (pl_health p) = 0)"

definition entity_ok :: "SimulationConfig \<Rightarrow> components \<Rightarrow> bool" where
  "entity_ok config c \<longleftrightarrow>
     (\<forall>p. c_player c = Some p \<longrightarrow>
        player_ok config p \<and> c_projectile c = None \<and> c_owner c = Some (pl_clientId p)
        \<and> (\<exists>t. c_transform c = Some t \<and> on_map config t)
        \<and> (\<exists>v. c_velocity c = Some v \<and> speed_ok config v))"

text \<open>What a configuration must satisfy; the shipped one does.\<close>

definition config_ok :: "SimulationConfig \<Rightarrow> bool" where
  "config_ok config \<longleftrightarrow> map_ok (sc_map config)
     \<and> 30 \<le> sint (mc_widthTiles (sc_map config)) \<and> 30 \<le> sint (mc_heightTiles (sc_map config))
     \<and> 0 \<le> sint (sc_maxMoveSpeedPerSecond config) \<and> 0 < sint (sc_maxPlayerHealth config)
     \<and> (\<forall>w\<in>set (sc_weapons config). 0 \<le> sint (wd_damage w))"

lemma config_ok_default: "config_ok default_SimulationConfig"
  by (simp add: config_ok_def default_SimulationConfig_def map_ok_def default_MapConfig_def
      PixelsToFixed_def kFixedOne_def DefaultWeaponDefinitions_def)

text \<open>Every client that logged in has its player entity.\<close>

definition clients_ok :: "'r entt_ops \<Rightarrow> 'r GameSimulation \<Rightarrow> bool" where
  "clients_ok E s \<longleftrightarrow> (\<forall>cl i. PlayerEntityForClient s cl = Some i \<longrightarrow>
     (\<exists>e p. EntityFor s i = Some e \<and> c_player (cm E s e) = Some p \<and> pl_clientId p = cl))"

definition index_ok :: "'r entt_ops \<Rightarrow> 'r GameSimulation \<Rightarrow> bool" where
  "index_ok E s \<longleftrightarrow>
     um_ok (gs_entityByNetworkId s) \<and> um_ok (gs_playerByClient s)
     \<and> (\<forall>i e. EntityFor s i = Some e \<longleftrightarrow> c_identity (cm E s e) = Some i)
     \<and> (\<forall>e. alive E s e \<longrightarrow> c_identity (cm E s e) \<noteq> None)
     \<and> clients_ok E s
     \<and> (\<forall>i e. EntityFor s i = Some e \<longrightarrow> i < gs_nextNetworkId s)
     \<and> length (gs_playerByClient s) \<le> unat (sc_maxPlayers (gs_config s))"

lemma index_okD:
  assumes "index_ok E s"
  shows "um_ok (gs_entityByNetworkId s)" "um_ok (gs_playerByClient s)"
    "EntityFor s i = Some e \<longleftrightarrow> c_identity (cm E s e) = Some i"
    "alive E s e \<Longrightarrow> c_identity (cm E s e) \<noteq> None"
    "clients_ok E s" "EntityFor s i = Some e \<Longrightarrow> i < gs_nextNetworkId s"
    "length (gs_playerByClient s) \<le> unat (sc_maxPlayers (gs_config s))"
  using assms unfolding index_ok_def by blast+

lemma index_okI:
  assumes "um_ok (gs_entityByNetworkId s)" "um_ok (gs_playerByClient s)"
    "\<And>i e. EntityFor s i = Some e \<longleftrightarrow> c_identity (cm E s e) = Some i"
    "\<And>e. alive E s e \<Longrightarrow> c_identity (cm E s e) \<noteq> None"
    "clients_ok E s" "\<And>i e. EntityFor s i = Some e \<Longrightarrow> i < gs_nextNetworkId s"
    "length (gs_playerByClient s) \<le> unat (sc_maxPlayers (gs_config s))"
  shows "index_ok E s"
  using assms unfolding index_ok_def by blast

lemma clients_okE:
  assumes "clients_ok E s" "PlayerEntityForClient s cl = Some i"
  obtains e p where "EntityFor s i = Some e" "c_player (cm E s e) = Some p" "pl_clientId p = cl"
  using assms unfolding clients_ok_def by blast

definition sim_ok :: "'r entt_ops \<Rightarrow> 'r GameSimulation \<Rightarrow> bool" where
  "sim_ok E s \<longleftrightarrow> index_ok E s \<and> (\<forall>e. alive E s e \<longrightarrow> entity_ok (gs_config s) (cm E s e))"

section \<open>Reading after writing\<close>

lemma upd_simps [simp]:
  "gs_config (upd E e f s) = gs_config s" "gs_tick (upd E e f s) = gs_tick s"
  "gs_timeMs (upd E e f s) = gs_timeMs s" "gs_nextNetworkId (upd E e f s) = gs_nextNetworkId s"
  "gs_events (upd E e f s) = gs_events s" "gs_pendingInputs (upd E e f s) = gs_pendingInputs s"
  "gs_playerByClient (upd E e f s) = gs_playerByClient s"
  "gs_entityByNetworkId (upd E e f s) = gs_entityByNetworkId s"
  "gs_lastAcceptedSequence (upd E e f s) = gs_lastAcceptedSequence s"
  "EntityFor (upd E e f s) i = EntityFor s i"
  "PlayerEntityForClient (upd E e f s) cl = PlayerEntityForClient s cl"
  by (simp_all add: upd_def EntityFor_def PlayerEntityForClient_def)

lemma QueueEvent_simps [simp]:
  "gs_config (QueueEvent ev s) = gs_config s" "gs_registry (QueueEvent ev s) = gs_registry s"
  "gs_tick (QueueEvent ev s) = gs_tick s" "gs_timeMs (QueueEvent ev s) = gs_timeMs s"
  "gs_nextNetworkId (QueueEvent ev s) = gs_nextNetworkId s"
  "gs_events (QueueEvent ev s) = gs_events s @ [ev]"
  "gs_pendingInputs (QueueEvent ev s) = gs_pendingInputs s"
  "gs_playerByClient (QueueEvent ev s) = gs_playerByClient s"
  "gs_entityByNetworkId (QueueEvent ev s) = gs_entityByNetworkId s"
  "gs_lastAcceptedSequence (QueueEvent ev s) = gs_lastAcceptedSequence s"
  "EntityFor (QueueEvent ev s) i = EntityFor s i"
  "PlayerEntityForClient (QueueEvent ev s) cl = PlayerEntityForClient s cl"
  "cm E (QueueEvent ev s) e = cm E s e" "alive E (QueueEvent ev s) e = alive E s e"
  by (simp_all add: QueueEvent_def cm_def alive_def EntityFor_def PlayerEntityForClient_def)

lemma alive_upd [simp]: "entt_laws E \<Longrightarrow> alive E (upd E e f s) e' = alive E s e'"
  by (simp add: alive_def upd_def)

lemma cm_upd [simp]:
  "entt_laws E \<Longrightarrow> cm E (upd E e f s) e' =
     (if e' = e \<and> alive E s e then f (cm E s e) else cm E s e')"
  by (auto simp: cm_def comps_def upd_def alive_def)

lemma not_alive_cm: "\<not> alive E s e \<Longrightarrow> cm E s e = no_components"
  by (simp add: alive_def cm_def comps_def)

lemma alive_identity: "c_identity (cm E s e) = Some i \<Longrightarrow> alive E s e"
  by (rule ccontr) (simp add: not_alive_cm no_components_def)

lemma alive_player: "c_player (cm E s e) = Some p \<Longrightarrow> alive E s e"
  by (rule ccontr) (simp add: not_alive_cm no_components_def)

lemma alive_en_view: "entt_laws E \<Longrightarrow> e \<in> set (en_view E ks (gs_registry s)) \<longleftrightarrow>
    alive E s e \<and> has_all ks (cm E s e)"
  by (auto simp: set_en_view alive_def cm_def comps_def)

text \<open>The parts of the state the invariant reads.\<close>

lemma sim_ok_cong:
  assumes "\<And>e. alive E s' e = alive E s e" "\<And>e. cm E s' e = cm E s e"
    "gs_entityByNetworkId s' = gs_entityByNetworkId s" "gs_playerByClient s' = gs_playerByClient s"
    "gs_nextNetworkId s' = gs_nextNetworkId s" "gs_config s' = gs_config s"
  shows "sim_ok E s' \<longleftrightarrow> sim_ok E s"
  using assms by (simp add: sim_ok_def index_ok_def clients_ok_def EntityFor_def PlayerEntityForClient_def)

lemma sim_ok_QueueEvent [simp]: "sim_ok E (QueueEvent ev s) \<longleftrightarrow> sim_ok E s"
  by (rule sim_ok_cong) simp_all

text \<open>A change of one entity that keeps its identity and its client.\<close>

definition same_owner :: "components \<Rightarrow> components \<Rightarrow> bool" where
  "same_owner c c' \<longleftrightarrow> c_identity c' = c_identity c
     \<and> map_option pl_clientId (c_player c') = map_option pl_clientId (c_player c)"

section \<open>What a step leaves alone\<close>

text \<open>
  The steps of a tick change components and queue events; the maps, the time, the set of live
  entities and who owns them stay. \<open>frame\<close> states that, and composes along a loop.
\<close>

definition frame :: "'r entt_ops \<Rightarrow> 'r GameSimulation \<Rightarrow> 'r GameSimulation \<Rightarrow> bool" where
  "frame E s s' \<longleftrightarrow> gs_config s' = gs_config s \<and> gs_tick s' = gs_tick s \<and> gs_timeMs s' = gs_timeMs s
     \<and> gs_nextNetworkId s' = gs_nextNetworkId s \<and> gs_playerByClient s' = gs_playerByClient s
     \<and> gs_entityByNetworkId s' = gs_entityByNetworkId s
     \<and> gs_lastAcceptedSequence s' = gs_lastAcceptedSequence s
     \<and> (\<forall>e. alive E s' e = alive E s e \<and> same_owner (cm E s e) (cm E s' e))"

lemma frame_refl [simp]: "frame E s s"
  by (simp add: frame_def same_owner_def)

lemma frame_trans: "frame E s s' \<Longrightarrow> frame E s' s'' \<Longrightarrow> frame E s s''"
  by (simp add: frame_def same_owner_def)

lemma frame_fields:
  assumes "frame E s s'"
  shows "gs_config s' = gs_config s" "gs_tick s' = gs_tick s" "gs_timeMs s' = gs_timeMs s"
    "gs_nextNetworkId s' = gs_nextNetworkId s" "gs_playerByClient s' = gs_playerByClient s"
    "gs_entityByNetworkId s' = gs_entityByNetworkId s"
    "gs_lastAcceptedSequence s' = gs_lastAcceptedSequence s"
    "alive E s' e = alive E s e" "c_identity (cm E s' e) = c_identity (cm E s e)"
    "c_player (cm E s' e) = None \<longleftrightarrow> c_player (cm E s e) = None"
  using assms unfolding frame_def same_owner_def by (auto simp: option.map_disc_iff dest!: spec [where x = e])

lemma frame_QueueEvent [simp]: "frame E s (QueueEvent ev s') \<longleftrightarrow> frame E s s'"
  by (simp add: frame_def)

lemma index_ok_frame:
  assumes fr: "frame E s s'" and s: "index_ok E s" shows "index_ok E s'"
proof -
  note ff = frame_fields [OF fr]
  have maps: "EntityFor s' = EntityFor s" "PlayerEntityForClient s' = PlayerEntityForClient s"
    by (simp_all add: fun_eq_iff EntityFor_def PlayerEntityForClient_def ff)
  have "clients_ok E s'"
    unfolding clients_ok_def maps
  proof (intro allI impI)
    fix cl i
    assume "PlayerEntityForClient s cl = Some i"
    moreover have "clients_ok E s" using s by (simp add: index_ok_def)
    ultimately obtain e p where ep: "EntityFor s i = Some e" "c_player (cm E s e) = Some p"
        "pl_clientId p = cl" unfolding clients_ok_def by blast
    have "map_option pl_clientId (c_player (cm E s' e)) = Some cl"
      using fr ep by (simp add: frame_def same_owner_def)
    with ep show "\<exists>e p. EntityFor s i = Some e \<and> c_player (cm E s' e) = Some p \<and> pl_clientId p = cl"
      by auto
  qed
  then show ?thesis
    using s unfolding index_ok_def ff maps by (elim conjE, intro conjI)
qed

lemma frame_upd:
  assumes "entt_laws E" "frame E s s'" "alive E s' e \<Longrightarrow> same_owner (cm E s' e) (f (cm E s' e))"
  shows "frame E s (upd E e f s')"
  using assms(2,3) by (auto simp: frame_def assms(1) same_owner_def)

lemma sim_ok_upd:
  assumes E: "entt_laws E" and s: "sim_ok E s"
    and f: "alive E s e \<Longrightarrow> entity_ok (gs_config s) (cm E s e) \<Longrightarrow>
      same_owner (cm E s e) (f (cm E s e)) \<and> entity_ok (gs_config s) (f (cm E s e))"
  shows "sim_ok E (upd E e f s)"
proof -
  have ok: "entity_ok (gs_config s) (cm E s e')" if "alive E s e'" for e'
    using s that by (simp add: sim_ok_def)
  have "frame E s (upd E e f s)"
    using ok f by (intro frame_upd [OF E]) auto
  then have "index_ok E (upd E e f s)"
    using s by (auto simp: sim_ok_def intro: index_ok_frame)
  then show ?thesis using E ok f by (simp add: sim_ok_def)
qed

text \<open>Loops keep what their bodies keep.\<close>

lemma fold_invariant:
  "P s \<Longrightarrow> (\<And>x s. x \<in> set xs \<Longrightarrow> P s \<Longrightarrow> P (f x s)) \<Longrightarrow> P (fold f xs s)"
  by (induction xs arbitrary: s) auto

section \<open>The components of entities under the operations\<close>

lemma entity_ok_other:
  assumes "c_player c' = c_player c" "c_projectile c' = c_projectile c" "c_owner c' = c_owner c"
    "c_transform c' = c_transform c" "c_velocity c' = c_velocity c"
  shows "entity_ok config c' \<longleftrightarrow> entity_ok config c"
  using assms by (simp add: entity_ok_def)

lemma same_owner_other:
  "c_identity c' = c_identity c \<Longrightarrow> c_player c' = c_player c \<Longrightarrow> same_owner c c'"
  by (simp add: same_owner_def)

text \<open>A write to a component the invariant does not read.\<close>

lemma sim_ok_upd_other:
  assumes "entt_laws E" "sim_ok E s"
    and "\<And>c. c_identity (f c) = c_identity c" "\<And>c. c_player (f c) = c_player c"
    "\<And>c. c_projectile (f c) = c_projectile c" "\<And>c. c_owner (f c) = c_owner c"
    "\<And>c. c_transform (f c) = c_transform c" "\<And>c. c_velocity (f c) = c_velocity c"
  shows "sim_ok E (upd E e f s)"
  using assms by (intro sim_ok_upd) (simp_all add: same_owner_other entity_ok_other [of "f _" "_"])

lemma sim_ok_fire_weapon:
  assumes "entt_laws E" "sim_ok E s" shows "sim_ok E (fire_weapon E e s)"
proof -
  have "sim_ok E (upd E e (\<lambda>c. c\<lparr>c_weapon := w\<rparr>) s)" for w
    by (rule sim_ok_upd_other [OF assms]) simp_all
  with assms(2) show ?thesis by (simp add: fire_weapon_def Let_def split: option.splits)
qed

lemma sim_ok_ApplyInputToEntity:
  assumes "entt_laws E" "sim_ok E s" shows "sim_ok E (ApplyInputToEntity E e p s)"
proof -
  define s1 where "s1 = upd E e (\<lambda>c. c\<lparr>c_intent := Some (ip_input p)\<rparr>) s"
  define s2 where "s2 = upd E e (\<lambda>c. case c_aim c of None \<Rightarrow> c\<lparr>c_aim := Some default_Aim\<rparr> | Some _ \<Rightarrow> c) s1"
  define s3 where "s3 = (if if_aimX (ip_input p) \<noteq> 0 \<or> if_aimY (ip_input p) \<noteq> 0
    then upd E e (\<lambda>c. c\<lparr>c_aim := Some \<lparr>am_x = if_aimX (ip_input p), am_y = if_aimY (ip_input p)\<rparr>\<rparr>) s2
    else s2)"
  have s1: "sim_ok E s1" unfolding s1_def by (rule sim_ok_upd_other [OF assms]) simp_all
  have s2: "sim_ok E s2" unfolding s2_def
    by (rule sim_ok_upd_other [OF assms(1) s1]) (simp_all split: option.splits)
  have s3: "sim_ok E s3" using s2 unfolding s3_def
    by (auto intro!: sim_ok_upd_other [OF assms(1) s2])
  show ?thesis
    unfolding ApplyInputToEntity_def Let_def s1_def [symmetric] s2_def [symmetric] s3_def [symmetric]
    using assms(2) s3 sim_ok_fire_weapon [OF assms(1) s3] by simp
qed

lemma frame_fold:
  "(\<And>x s. x \<in> set xs \<Longrightarrow> frame E s (f x s)) \<Longrightarrow> frame E s (fold f xs s)"
  by (induction xs arbitrary: s) (auto intro: frame_trans)

lemma frame_fire_weapon:
  assumes "entt_laws E" shows "frame E s (fire_weapon E e s)"
  by (auto simp: fire_weapon_def Let_def same_owner_def intro!: frame_upd [OF assms]
      split: option.splits)

lemma frame_ApplyInputToEntity:
  assumes "entt_laws E" shows "frame E s (ApplyInputToEntity E e p s)"
proof -
  let ?u = "\<lambda>f s'. upd E e f s'"
  have "frame E s s' \<Longrightarrow> frame E s (fire_weapon E e s')" for s'
    using frame_fire_weapon [OF assms] frame_trans by blast
  moreover have "frame E s s' \<Longrightarrow> frame E s (?u (\<lambda>c. c\<lparr>c_intent := i\<rparr>) s')" for i s'
    by (rule frame_upd [OF assms]) (simp_all add: same_owner_def)
  moreover have "frame E s s' \<Longrightarrow> frame E s (?u (\<lambda>c. c\<lparr>c_aim := a\<rparr>) s')" for a s'
    by (rule frame_upd [OF assms]) (simp_all add: same_owner_def)
  moreover have "frame E s s' \<Longrightarrow> frame E s (?u (\<lambda>c. case c_aim c of None \<Rightarrow> c\<lparr>c_aim := a\<rparr> | Some _ \<Rightarrow> c) s')" for a s'
    by (rule frame_upd [OF assms]) (simp_all add: same_owner_def split: option.splits)
  ultimately show ?thesis by (simp add: ApplyInputToEntity_def Let_def)
qed

lemma apply_pending_ok:
  assumes "entt_laws E" shows "frame E s (apply_pending E p s)"
    and "sim_ok E s \<Longrightarrow> sim_ok E (apply_pending E p s)"
  using frame_ApplyInputToEntity [OF assms] sim_ok_ApplyInputToEntity [OF assms]
  by (auto simp: apply_pending_def split: option.splits)

section \<open>Movement\<close>

lemma map_extent:
  assumes "config_ok config"
  shows "sint (MapWidthFixed (sc_map config)) =
           sint (mc_widthTiles (sc_map config)) * sint (mc_tileSizePixels (sc_map config)) * 1000"
    and "sint (MapHeightFixed (sc_map config)) =
           sint (mc_heightTiles (sc_map config)) * sint (mc_tileSizePixels (sc_map config)) * 1000"
proof -
  have *: "sint (PixelsToFixed (w * t)) = sint w * sint t * 1000"
    if "0 < sint w" "0 < sint t" "sint w * sint t * 1000 < 2 ^ 31" for w t :: i32
  proof -
    have "0 < sint w * sint t" using that by simp
    then have "sint (w * t) = sint w * sint t"
      using that by (intro sint_mult_i32) linarith+
    moreover have "- (2 ^ 31) \<le> sint w * sint t * 1000"
      by (rule order_trans [of _ 0]) (use that in simp_all)
    ultimately show ?thesis
      using that sint_mult_i32 [of "w * t" 1000] by (simp add: PixelsToFixed_def kFixedOne_def)
  qed
  show "sint (MapWidthFixed (sc_map config)) =
           sint (mc_widthTiles (sc_map config)) * sint (mc_tileSizePixels (sc_map config)) * 1000"
    and "sint (MapHeightFixed (sc_map config)) =
           sint (mc_heightTiles (sc_map config)) * sint (mc_tileSizePixels (sc_map config)) * 1000"
    using assms by (simp_all add: MapWidthFixed_def MapHeightFixed_def config_ok_def map_ok_def *)
qed

lemma map_limit:
  assumes "config_ok config"
  shows "sint (MapWidthFixed (sc_map config) - 1) = sint (MapWidthFixed (sc_map config)) - 1"
    and "sint (MapHeightFixed (sc_map config) - 1) = sint (MapHeightFixed (sc_map config)) - 1"
    and "0 < sint (MapWidthFixed (sc_map config))" and "0 < sint (MapHeightFixed (sc_map config))"
proof -
  show pos: "0 < sint (MapWidthFixed (sc_map config))" "0 < sint (MapHeightFixed (sc_map config))"
    using assms unfolding map_extent [OF assms] by (simp_all add: config_ok_def map_ok_def)
  show "sint (MapWidthFixed (sc_map config) - 1) = sint (MapWidthFixed (sc_map config)) - 1"
    using pos sint_i32_range [of "MapWidthFixed (sc_map config)"]
      sint_sub_i32 [of "MapWidthFixed (sc_map config)" 1] by simp
  show "sint (MapHeightFixed (sc_map config) - 1) = sint (MapHeightFixed (sc_map config)) - 1"
    using pos sint_i32_range [of "MapHeightFixed (sc_map config)"]
      sint_sub_i32 [of "MapHeightFixed (sc_map config)" 1] by simp
qed

lemma on_map_ClampToMap:
  assumes "config_ok config" shows "on_map config (ClampToMap config t)"
  using map_limit [OF assms] ClampFixed_range [of 0 "MapWidthFixed (sc_map config) - 1"]
    ClampFixed_range [of 0 "MapHeightFixed (sc_map config) - 1"]
  by (simp add: on_map_def ClampToMap_def)

lemma speed_ok_next_velocity:
  assumes "config_ok config" shows "speed_ok config (next_velocity config i v)"
proof -
  let ?m = "sc_maxMoveSpeedPerSecond config"
  have m: "0 \<le> sint ?m" using assms by (simp add: config_ok_def)
  then have "sint (- ?m) = - sint ?m" by (intro sint_uminus_i32) simp
  then have "\<bar>sint (ClampFixed w (- ?m) ?m)\<bar> \<le> sint ?m" for w
    using ClampFixed_range [of "- ?m" ?m w] m by simp
  then show ?thesis by (simp add: speed_ok_def next_velocity_def Let_def)
qed

lemma speed_ok_zero: "config_ok config \<Longrightarrow> speed_ok config default_Velocity"
  by (simp add: speed_ok_def default_Velocity_def config_ok_def)

lemma sim_ok_upd_velocity:
  assumes "entt_laws E" "sim_ok E s" "speed_ok (gs_config s) v"
  shows "sim_ok E (upd E e (\<lambda>c. c\<lparr>c_velocity := Some v\<rparr>) s)"
  using assms by (intro sim_ok_upd) (auto simp: same_owner_def entity_ok_def)

lemma sim_ok_upd_transform:
  assumes "entt_laws E" "sim_ok E s" "on_map (gs_config s) t"
  shows "sim_ok E (upd E e (\<lambda>c. c\<lparr>c_transform := Some t\<rparr>) s)"
  using assms by (intro sim_ok_upd) (auto simp: same_owner_def entity_ok_def)

lemma IntegrateMovement_ok:
  assumes E: "entt_laws E"
  shows "frame E s (IntegrateMovement E e s)"
    and "config_ok (gs_config s) \<Longrightarrow> sim_ok E s \<Longrightarrow> sim_ok E (IntegrateMovement E e s)"
proof -
  have fr: "frame E s' (upd E e (\<lambda>c. c\<lparr>c_transform := t\<rparr>) (upd E e (\<lambda>c. c\<lparr>c_velocity := v\<rparr>) s'))"
    "frame E s' (upd E e (\<lambda>c. c\<lparr>c_velocity := v\<rparr>) s')" for s' t v
    by (auto intro!: frame_upd [OF E] simp: same_owner_def)
  show "frame E s (IntegrateMovement E e s)"
    by (simp add: IntegrateMovement_def Let_def fr split: option.splits)
  assume c: "config_ok (gs_config s)" and s: "sim_ok E s"
  have mv: "sim_ok E (upd E e (\<lambda>c. c\<lparr>c_transform := Some (ClampToMap (gs_config s) t)\<rparr>)
      (upd E e (\<lambda>c. c\<lparr>c_velocity := Some (next_velocity (gs_config s) i v)\<rparr>) s))" for t i v
    using E s c by (intro sim_ok_upd_transform sim_ok_upd_velocity)
      (simp_all add: on_map_ClampToMap speed_ok_next_velocity)
  have st: "sim_ok E (upd E e (\<lambda>c. c\<lparr>c_velocity := Some \<lparr>vl_vx = 0, vl_vy = 0\<rparr>\<rparr>) s)"
    using sim_ok_upd_velocity [OF E s speed_ok_zero [OF c]] by (simp add: default_Velocity_def)
  show "sim_ok E (IntegrateMovement E e s)"
    using s by (simp add: IntegrateMovement_def Let_def mv st split: option.splits)
qed

lemma ProcessInputs_ok:
  assumes E: "entt_laws E" and c: "config_ok (gs_config s)" and s: "sim_ok E s"
  shows "frame E s (ProcessInputs E s)" and "sim_ok E (ProcessInputs E s)"
proof -
  define s1 where "s1 = fold (apply_pending E) (gs_pendingInputs s) s"
  define s2 where "s2 = s1\<lparr>gs_pendingInputs := []\<rparr>"
  define s3 where "s3 = fold (IntegrateMovement E) (en_view E [K_Player] (gs_registry s2)) s2"
  have 1: "frame E s s1 \<and> sim_ok E s1"
    unfolding s1_def
    by (rule fold_invariant)
      (use s apply_pending_ok(2) [OF E] frame_trans [OF _ apply_pending_ok(1) [OF E]] in simp_all)
  have "sim_ok E s2 \<longleftrightarrow> sim_ok E s1"
    by (rule sim_ok_cong) (simp_all add: s2_def alive_def cm_def)
  moreover have "frame E s1 s2"
    by (simp add: s2_def frame_def alive_def cm_def same_owner_def)
  ultimately have 2: "frame E s s2 \<and> sim_ok E s2" using 1 frame_trans by blast
  have 3: "frame E s s3 \<and> sim_ok E s3"
    unfolding s3_def
  proof (rule fold_invariant)
    show "frame E s s2 \<and> sim_ok E s2" by (rule 2)
    show "frame E s (IntegrateMovement E x s') \<and> sim_ok E (IntegrateMovement E x s')"
      if "frame E s s' \<and> sim_ok E s'" for x s'
      using that IntegrateMovement_ok(2) [OF E] frame_trans [OF _ IntegrateMovement_ok(1) [OF E]] c
      by (simp add: frame_fields(1) [of E s s'])
  qed
  define s4 where "s4 = s3\<lparr>gs_registry := en_clear_intents E (gs_registry s3)\<rparr>"
  have alive: "alive E s4 e = alive E s3 e" for e
    by (simp add: alive_def s4_def E)
  have cm: "cm E s4 e = (cm E s3 e)\<lparr>c_intent := None\<rparr>" for e
    by (simp add: cm_def comps_def s4_def E no_components_def split: option.splits)
  have fields: "gs_config s4 = gs_config s3" "gs_tick s4 = gs_tick s3" "gs_timeMs s4 = gs_timeMs s3"
    "gs_nextNetworkId s4 = gs_nextNetworkId s3" "gs_playerByClient s4 = gs_playerByClient s3"
    "gs_entityByNetworkId s4 = gs_entityByNetworkId s3"
    "gs_lastAcceptedSequence s4 = gs_lastAcceptedSequence s3" by (simp_all add: s4_def)
  have 4: "frame E s3 s4"
    by (simp add: frame_def alive cm same_owner_def fields)
  have "index_ok E s4"
    using 3 index_ok_frame [OF 4] by (simp add: sim_ok_def)
  moreover have "entity_ok (gs_config s4) (cm E s4 e)" if "alive E s4 e" for e
    using 3 that by (simp add: sim_ok_def alive cm entity_ok_def fields)
  ultimately have "sim_ok E s4" by (simp add: sim_ok_def)
  moreover have "ProcessInputs E s = s4"
    by (simp add: ProcessInputs_def Let_def s4_def s3_def s2_def s1_def)
  ultimately show "frame E s (ProcessInputs E s)" and "sim_ok E (ProcessInputs E s)"
    using 3 4 frame_trans by auto
qed

section \<open>Combat\<close>

lemma FindWeaponDefinition_damage:
  "config_ok config \<Longrightarrow> FindWeaponDefinition (sc_weapons config) t = Some w \<Longrightarrow> 0 \<le> sint (wd_damage w)"
  by (auto simp: config_ok_def dest: FindWeaponDefinition_Some)

lemma warmup_step_ok:
  assumes E: "entt_laws E" and "warmup_step E e (s, rs) = (s', rs')"
  shows "frame E s s'" and "sim_ok E s \<Longrightarrow> sim_ok E s'" and "length rs' \<le> Suc (length rs)"
proof -
  have fr: "frame E s (upd E e (\<lambda>c. c\<lparr>c_weapon := w\<rparr>) s)" for w
    by (auto intro!: frame_upd [OF E] simp: same_owner_def)
  have ok: "sim_ok E (upd E e (\<lambda>c. c\<lparr>c_weapon := w\<rparr>) s)" if "sim_ok E s" for w
    by (rule sim_ok_upd_other [OF E that]) simp_all
  show "frame E s s'" "sim_ok E s \<Longrightarrow> sim_ok E s'" "length rs' \<le> Suc (length rs)"
    using assms(2) fr ok
    by (auto simp: warmup_step_def Let_def split: option.splits if_splits)
qed

lemma max_i32_0: "sint (max_i32 0 v) = max 0 (sint v)"
  by (simp add: max_i32_def max_def)

text \<open>Damage keeps a player's health in range, and zero health is defeat.\<close>

lemma damaged_player_ok:
  assumes "player_ok config p" "\<not> pl_defeated p" "0 \<le> sint d"
    and "p' = p\<lparr>pl_health := max_i32 0 (pl_health p - d)\<rparr>"
  shows "sint (pl_health p') = max 0 (sint (pl_health p) - sint d)"
    and "sint (pl_health p') \<le> 0 \<Longrightarrow> player_ok config (p'\<lparr>pl_defeated := True, pl_respawnAtMs := t\<rparr>)"
    and "\<not> sint (pl_health p') \<le> 0 \<Longrightarrow> player_ok config p'"
proof -
  have "sint (pl_health p - d) = sint (pl_health p) - sint d"
    using assms(1,3) sint_i32_range [of "pl_health p"] sint_i32_range [of d]
    by (intro sint_sub_i32) (auto simp: player_ok_def)
  then show h: "sint (pl_health p') = max 0 (sint (pl_health p) - sint d)"
    by (simp add: assms(4) max_i32_0)
  show "sint (pl_health p') \<le> 0 \<Longrightarrow> player_ok config (p'\<lparr>pl_defeated := True, pl_respawnAtMs := t\<rparr>)"
    and "\<not> sint (pl_health p') \<le> 0 \<Longrightarrow> player_ok config p'"
    using assms(1,2,3) h by (auto simp: player_ok_def assms(4))
qed

lemma sim_ok_upd_player:
  assumes "entt_laws E" "sim_ok E s" "c_player (cm E s e) = Some p"
    "player_ok (gs_config s) p'" "pl_clientId p' = pl_clientId p"
  shows "sim_ok E (upd E e (\<lambda>c. c\<lparr>c_player := Some p'\<rparr>) s)"
  using assms by (intro sim_ok_upd) (auto simp: same_owner_def entity_ok_def)

lemma frame_upd_player:
  assumes "entt_laws E" "frame E s s'" "c_player (cm E s' e) = Some p" "pl_clientId p' = pl_clientId p"
  shows "frame E s (upd E e (\<lambda>c. c\<lparr>c_player := Some p'\<rparr>) s')"
  using assms by (intro frame_upd) (auto simp: same_owner_def)

lemma sim_ok_player:
  "sim_ok E s \<Longrightarrow> c_player (cm E s e) = Some p \<Longrightarrow> player_ok (gs_config s) p"
  using alive_player [of E s e p] by (auto simp: sim_ok_def entity_ok_def)

lemma hit_player_ok:
  assumes E: "entt_laws E" and p: "c_player (cm E s e) = Some p" "\<not> pl_defeated p"
  shows "frame E s (hit_player E pid pj e i p s)"
    and "config_ok (gs_config s) \<Longrightarrow> sim_ok E s \<Longrightarrow> sim_ok E (hit_player E pid pj e i p s)"
proof -
  define d where "d = (case FindWeaponDefinition (sc_weapons (gs_config s)) (pj_sourceWeapon pj) of
      Some weapon \<Rightarrow> wd_damage weapon | None \<Rightarrow> 0)"
  define p1 where "p1 = p\<lparr>pl_health := max_i32 0 (pl_health p - d)\<rparr>"
  define p2 where "p2 = p1\<lparr>pl_defeated := True,
      pl_respawnAtMs := gs_timeMs s + sc_respawnDelayMs (gs_config s)\<rparr>"
  define s1 where "s1 = QueueEvent (PlayerDamaged i (pj_ownerId pj) d (pl_health p1))
      (QueueEvent (HitConfirmed (pj_ownerId pj) i pid (gs_timeMs s))
        (upd E e (\<lambda>c. c\<lparr>c_player := Some p1\<rparr>) s))"
  define s2 where "s2 = upd E e (\<lambda>c. c\<lparr>c_player := Some p2\<rparr>) s1"
  have hit: "hit_player E pid pj e i p s = (if sint (pl_health p1) \<le> 0
      then QueueEvent (PlayerDied i (pj_ownerId pj) (pl_respawnAtMs p2)) s2 else s1)"
    by (simp add: hit_player_def Let_def d_def p1_def p2_def s1_def s2_def)
  have p1: "c_player (cm E s1 e) = Some p1"
    using alive_player [OF p(1)] by (simp add: s1_def E)
  have cl: "pl_clientId p1 = pl_clientId p" "pl_clientId p2 = pl_clientId p1"
    by (simp_all add: p1_def p2_def)
  have f1: "frame E s s1"
    unfolding s1_def using frame_upd_player [OF E frame_refl p(1) cl(1)] by simp
  have "frame E s s2"
    unfolding s2_def by (rule frame_upd_player [OF E f1 p1 cl(2)])
  with f1 show "frame E s (hit_player E pid pj e i p s)" by (simp add: hit)
  assume c: "config_ok (gs_config s)" and s: "sim_ok E s"
  have d: "0 \<le> sint d"
    using FindWeaponDefinition_damage [OF c] by (simp add: d_def split: option.splits)
  note dmg = damaged_player_ok [OF sim_ok_player [OF s p(1)] p(2) d p1_def]
  show "sim_ok E (hit_player E pid pj e i p s)"
  proof (cases "sint (pl_health p1) \<le> 0")
    case False
    have "sim_ok E s1"
      unfolding s1_def using sim_ok_upd_player [OF E s p(1) dmg(3) [OF False] cl(1)] by simp
    with False show ?thesis by (simp add: hit)
  next
    case True
    have "pl_clientId p2 = pl_clientId p" using cl by simp
    moreover have "player_ok (gs_config s) p2" unfolding p2_def by (rule dmg(2) [OF True])
    ultimately have "sim_ok E (upd E e (\<lambda>c. c\<lparr>c_player := Some p2\<rparr>) s)"
      by (intro sim_ok_upd_player [OF E s p(1)])
    moreover have "sim_ok E s2 \<longleftrightarrow> sim_ok E (upd E e (\<lambda>c. c\<lparr>c_player := Some p2\<rparr>) s)"
      by (rule sim_ok_cong) (simp_all add: s2_def s1_def E)
    ultimately show ?thesis using True by (simp add: hit p2_def [symmetric])
  qed
qed

lemma hit_loop_ok:
  assumes E: "entt_laws E" and "hit_loop E pid pj t ps s = (h, s')"
  shows "frame E s s'" and "config_ok (gs_config s) \<Longrightarrow> sim_ok E s \<Longrightarrow> sim_ok E s'"
proof -
  have "frame E s s' \<and> (config_ok (gs_config s) \<longrightarrow> sim_ok E s \<longrightarrow> sim_ok E s')"
    using assms(2)
  proof (induction ps)
    case (Cons e ps)
    then show ?case
      using hit_player_ok [OF E, of s e] by (auto split: option.splits if_splits)
  qed simp
  then show "frame E s s'" "config_ok (gs_config s) \<Longrightarrow> sim_ok E s \<Longrightarrow> sim_ok E s'" by auto
qed

text \<open>Only entities without a player component are ever marked for destruction.\<close>

definition projectiles_only :: "'r entt_ops \<Rightarrow> 'r GameSimulation \<Rightarrow> entity list \<Rightarrow> bool" where
  "projectiles_only E s es \<longleftrightarrow> (\<forall>e\<in>set es. c_player (cm E s e) = None)"

lemma projectiles_only_frame:
  "frame E s s' \<Longrightarrow> projectiles_only E s' es \<longleftrightarrow> projectiles_only E s es"
  by (simp add: projectiles_only_def frame_fields(10))

lemma projectile_entity:
  "sim_ok E s \<Longrightarrow> c_projectile (cm E s e) = Some p \<Longrightarrow> c_player (cm E s e) = None"
  using not_alive_cm [of E s e] by (cases "alive E s e")
    (auto simp: sim_ok_def entity_ok_def no_components_def)

lemma projectile_step_ok:
  assumes E: "entt_laws E" and c: "config_ok (gs_config s)" and s: "sim_ok E s"
    and po: "projectiles_only E s td" and st: "projectile_step E ps e (s, td) = (s', td')"
  shows "frame E s s'" and "sim_ok E s'" and "projectiles_only E s' td'"
proof -
  have "frame E s s' \<and> sim_ok E s' \<and> projectiles_only E s' td'"
  proof (cases "c_identity (cm E s e) = None \<or> c_projectile (cm E s e) = None
      \<or> c_transform (cm E s e) = None \<or> c_velocity (cm E s e) = None")
    case True
    then have "s' = s \<and> td' = td"
      using st by (auto simp: projectile_step_def split: option.splits)
    with s po show ?thesis by simp
  next
    case False
    then obtain i pj t v where cs: "c_identity (cm E s e) = Some i" "c_projectile (cm E s e) = Some pj"
        "c_transform (cm E s e) = Some t" "c_velocity (cm E s e) = Some v" by auto
    define t1 where "t1 = advance_transform (gs_config s) v t"
    define s1 where "s1 = upd E e (\<lambda>c. c\<lparr>c_transform := Some t1\<rparr>) s"
    have np: "c_player (cm E s e) = None" using projectile_entity [OF s cs(2)] .
    have f1: "frame E s s1" unfolding s1_def by (rule frame_upd [OF E]) (simp_all add: same_owner_def)
    have ok1: "sim_ok E s1" unfolding s1_def
      using np by (intro sim_ok_upd [OF E s]) (simp add: same_owner_def entity_ok_def)
    obtain h s2 where h: "hit_loop E i pj t1 ps s1 = (h, s2)" by fastforce
    have f2: "frame E s s2" and ok2: "sim_ok E s2"
      using hit_loop_ok [OF E h] f1 ok1 c frame_trans by (auto simp: s1_def)
    have "projectiles_only E s (td @ [e])" using po np by (simp add: projectiles_only_def)
    moreover have "(s' = s1 \<or> s' = s2) \<and> (td' = td \<or> td' = td @ [e])"
      using st h by (auto simp: projectile_step_def Let_def cs t1_def [symmetric] s1_def [symmetric]
          split: if_splits)
    ultimately show ?thesis
      using f1 f2 ok1 ok2 po projectiles_only_frame [OF f1] projectiles_only_frame [OF f2] by auto
  qed
  then show "frame E s s'" "sim_ok E s'" "projectiles_only E s' td'" by auto
qed

text \<open>Taking an entity out of the registry and the index.\<close>

lemma destroy_projectile_ok:
  assumes E: "entt_laws E" and s: "sim_ok E s" and np: "c_player (cm E s e) = None"
  shows "sim_ok E (destroy_projectile E e s)"
    and "c_player (cm E s e') = None \<Longrightarrow> c_player (cm E (destroy_projectile E e s) e') = None"
    and "gs_config (destroy_projectile E e s) = gs_config s"
    and "gs_nextNetworkId (destroy_projectile E e s) = gs_nextNetworkId s"
    and "gs_timeMs (destroy_projectile E e s) = gs_timeMs s"
    and "gs_playerByClient (destroy_projectile E e s) = gs_playerByClient s"
proof -
  have main: "sim_ok E (destroy_projectile E e s)
      \<and> (c_player (cm E s e') = None \<longrightarrow> c_player (cm E (destroy_projectile E e s) e') = None)" for e'
  proof (cases "c_identity (cm E s e)")
    case None
    then have "destroy_projectile E e s = s"
      by (auto simp: destroy_projectile_def cm_def comps_def split: option.splits)
    with s show ?thesis by simp
  next
    case (Some i)
    then have "alive E s e" by (rule alive_identity)
    then have s': "destroy_projectile E e s = s\<lparr>gs_entityByNetworkId := um_erase i (gs_entityByNetworkId s),
        gs_registry := en_destroy E e (gs_registry s)\<rparr>" (is "_ = ?s")
      using Some by (auto simp: destroy_projectile_def cm_def comps_def alive_def)
    have alive: "alive E ?s e' \<longleftrightarrow> e' \<noteq> e \<and> alive E s e'" for e'
      by (simp add: alive_def E)
    have cm: "cm E ?s e' = (if e' = e then no_components else cm E s e')" for e'
      by (simp add: cm_def comps_def E)
    have ef: "EntityFor ?s j = (if j = i then None else EntityFor s j)" for j
      by (simp add: EntityFor_def)
    have pc: "PlayerEntityForClient ?s = PlayerEntityForClient s"
      by (simp add: fun_eq_iff PlayerEntityForClient_def)
    have idx: "EntityFor s j = Some e' \<longleftrightarrow> c_identity (cm E s e') = Some j" for j e'
      using s by (simp add: sim_ok_def index_ok_def)
    have "clients_ok E ?s"
      unfolding clients_ok_def pc
    proof (intro allI impI)
      fix cl j
      assume "PlayerEntityForClient s cl = Some j"
      moreover have "clients_ok E s" using s by (simp add: sim_ok_def index_ok_def)
      ultimately obtain e' p where ep: "EntityFor s j = Some e'" "c_player (cm E s e') = Some p"
          "pl_clientId p = cl" unfolding clients_ok_def by blast
      then have "e' \<noteq> e" using np by auto
      moreover from this have "j \<noteq> i" using idx [THEN iffD2, OF Some] ep(1) by auto
      ultimately show "\<exists>e p. EntityFor ?s j = Some e \<and> c_player (cm E ?s e) = Some p \<and> pl_clientId p = cl"
        using ep by (auto simp: ef cm)
    qed
    note clients = this
    have "index_ok E ?s"
    proof (rule index_okI)
      fix j e'
      have "EntityFor s i = Some e" using idx Some by blast
      then have "c_identity (cm E s e') = Some i \<longleftrightarrow> e' = e" using idx [of i e'] by auto
      then show "EntityFor ?s j = Some e' \<longleftrightarrow> c_identity (cm E ?s e') = Some j"
        using idx [of j e'] Some by (auto simp: ef cm no_components_def)
      show "alive E ?s e' \<Longrightarrow> c_identity (cm E ?s e') \<noteq> None"
        using index_okD(4) [of E s e'] s by (simp add: sim_ok_def alive cm)
      show "EntityFor ?s j = Some e' \<Longrightarrow> j < gs_nextNetworkId ?s"
        using index_okD(6) [of E s j e'] s by (simp add: sim_ok_def ef split: if_splits)
    qed (use index_okD(1,2,7) [of E s] s clients in \<open>simp_all add: sim_ok_def\<close>)
    moreover have "entity_ok (gs_config s) (cm E ?s e')" if "alive E ?s e'" for e'
      using s that by (simp add: sim_ok_def alive cm)
    ultimately have "sim_ok E ?s" by (simp add: sim_ok_def)
    then show ?thesis unfolding s' by (simp add: cm no_components_def)
  qed
  then show "sim_ok E (destroy_projectile E e s)"
    "c_player (cm E s e') = None \<Longrightarrow> c_player (cm E (destroy_projectile E e s) e') = None" by auto
qed (simp_all add: destroy_projectile_def split: option.splits)

lemma destroy_all_ok:
  assumes E: "entt_laws E"
  shows "sim_ok E s \<Longrightarrow> projectiles_only E s td \<Longrightarrow>
     sim_ok E (fold (destroy_projectile E) td s)
     \<and> gs_config (fold (destroy_projectile E) td s) = gs_config s
     \<and> gs_nextNetworkId (fold (destroy_projectile E) td s) = gs_nextNetworkId s
     \<and> gs_timeMs (fold (destroy_projectile E) td s) = gs_timeMs s
     \<and> gs_playerByClient (fold (destroy_projectile E) td s) = gs_playerByClient s"
proof (induction td arbitrary: s)
  case (Cons e td)
  then have np: "c_player (cm E s e) = None" by (simp add: projectiles_only_def)
  note d = destroy_projectile_ok [OF E Cons.prems(1) np]
  have "projectiles_only E (destroy_projectile E e s) td"
    using Cons.prems d(2) by (simp add: projectiles_only_def)
  from Cons.IH [OF d(1) this] show ?case by (simp add: d)
qed simp

lemma ProcessProjectiles_ok:
  assumes E: "entt_laws E" and c: "config_ok (gs_config s)" and s: "sim_ok E s"
  shows "sim_ok E (ProcessProjectiles E s)"
    and "gs_config (ProcessProjectiles E s) = gs_config s"
    and "gs_nextNetworkId (ProcessProjectiles E s) = gs_nextNetworkId s"
    and "gs_timeMs (ProcessProjectiles E s) = gs_timeMs s"
    and "gs_playerByClient (ProcessProjectiles E s) = gs_playerByClient s"
proof -
  let ?ps = "en_view E [K_Identity, K_Player, K_Transform] (gs_registry s)"
  let ?xs = "en_view E [K_Identity, K_Projectile, K_Transform, K_Velocity] (gs_registry s)"
  let ?P = "\<lambda>(s', td). frame E s s' \<and> sim_ok E s' \<and> projectiles_only E s' td"
  have P: "?P (fold (projectile_step E ?ps) ?xs (s, []))"
  proof (rule fold_invariant)
    fix e acc assume "?P acc"
    then obtain s' td where acc: "acc = (s', td)" "frame E s s'" "sim_ok E s'" "projectiles_only E s' td"
      by auto
    obtain s'' td' where st: "projectile_step E ?ps e (s', td) = (s'', td')" by fastforce
    have "config_ok (gs_config s')" using c frame_fields(1) [OF acc(2)] by simp
    note projectile_step_ok [OF E this acc(3,4) st]
    with acc st show "?P (projectile_step E ?ps e acc)" by (auto intro: frame_trans)
  qed (simp add: s projectiles_only_def)
  obtain s' td where st: "fold (projectile_step E ?ps) ?xs (s, []) = (s', td)" by fastforce
  with P have p: "frame E s s'" "sim_ok E s'" "projectiles_only E s' td" by auto
  have eq: "ProcessProjectiles E s = fold (destroy_projectile E) td s'"
    by (simp add: ProcessProjectiles_def Let_def st)
  show "sim_ok E (ProcessProjectiles E s)" "gs_config (ProcessProjectiles E s) = gs_config s"
    "gs_nextNetworkId (ProcessProjectiles E s) = gs_nextNetworkId s"
    "gs_timeMs (ProcessProjectiles E s) = gs_timeMs s"
    "gs_playerByClient (ProcessProjectiles E s) = gs_playerByClient s"
    using destroy_all_ok [OF E p(2,3)] frame_fields [OF p(1)] by (simp_all add: eq)
qed

section \<open>Respawns\<close>

lemma spawn_on_map:
  assumes c: "config_ok config" shows "on_map config (SpawnTransformForClient config cl)"
proof -
  let ?t = "sint (mc_tileSizePixels (sc_map config))"
  have axis: "sint (PixelsToFixed ((10 + k) * mc_tileSizePixels (sc_map config))) = (10 + sint k) * ?t * 1000
      \<and> 0 \<le> (10 + sint k) * ?t * 1000 \<and> (10 + sint k) * ?t * 1000 < w * ?t * 1000"
    if "unat k < 20" "30 \<le> w" "w * ?t * 1000 < 2 ^ 31" for k :: u32 and w :: int
  proof -
    have t: "0 < ?t" using c by (simp add: config_ok_def map_ok_def)
    have "uint k = int (unat k)" by simp
    then have u: "0 \<le> uint k" "uint k < 20" using that(1) by linarith+
    have "sint (cast_i32 (uint k)) = uint k"
    proof (rule sint_cast_i32)
      show "- (2 ^ 31) \<le> uint k" by (rule order_trans [of _ 0]) simp_all
      show "uint k < 2 ^ 31" using u by simp
    qed
    then have k: "0 \<le> sint k" "sint k < 20" using u by simp_all
    have k10: "sint (10 + k) = 10 + sint k"
      using k by (subst sint_add_i32) simp_all
    have "(10 + sint k) * ?t < w * ?t" using k t that(2) by (intro mult_strict_right_mono) auto
    then have lt: "(10 + sint k) * ?t * 1000 < w * ?t * 1000" by simp
    have nn: "0 \<le> (10 + sint k) * ?t" using k t by simp
    have m: "sint ((10 + k) * mc_tileSizePixels (sc_map config)) = (10 + sint k) * ?t"
      using nn lt that(3) by (subst sint_mult_i32) (simp_all add: k10)
    have "- (2 ^ 31) \<le> (10 + sint k) * ?t * 1000"
      by (rule order_trans [of _ 0]) (use nn in simp_all)
    moreover have "(10 + sint k) * ?t * 1000 < 2 ^ 31" by (rule less_trans [OF lt that(3)])
    ultimately have "sint ((10 + k) * mc_tileSizePixels (sc_map config) * 1000) = (10 + sint k) * ?t * 1000"
      using sint_mult_i32 [of "(10 + k) * mc_tileSizePixels (sc_map config)" 1000] unfolding m by simp
    then show ?thesis using lt nn by (simp add: PixelsToFixed_def kFixedOne_def)
  qed
  have mod20: "unat (v mod 20) < 20" for v :: u32 by (simp add: unat_mod)
  have "30 \<le> sint (mc_widthTiles (sc_map config))" "30 \<le> sint (mc_heightTiles (sc_map config))"
    "sint (mc_widthTiles (sc_map config)) * ?t * 1000 < 2 ^ 31"
    "sint (mc_heightTiles (sc_map config)) * ?t * 1000 < 2 ^ 31"
    using c by (simp_all add: config_ok_def map_ok_def)
  from axis [OF mod20 this(1,3), of cl] axis [OF mod20 this(2,4), of "cl div 20"]
  show ?thesis
    by (simp add: on_map_def SpawnTransformForClient_def Let_def map_limit [OF c] map_extent [OF c])
qed

lemma respawn_step_ok:
  assumes E: "entt_laws E" and c: "config_ok (gs_config s)" and s: "sim_ok E s"
  shows "frame E s (respawn_step E e s)" and "sim_ok E (respawn_step E e s)"
proof -
  have "frame E s (respawn_step E e s) \<and> sim_ok E (respawn_step E e s)"
  proof (cases "\<exists>i p. c_identity (cm E s e) = Some i \<and> c_player (cm E s e) = Some p
      \<and> pl_defeated p \<and> \<not> gs_timeMs s < pl_respawnAtMs p")
    case False
    then have "respawn_step E e s = s" by (auto simp: respawn_step_def split: option.splits)
    with s show ?thesis by simp
  next
    case True
    then obtain i p where ip: "c_identity (cm E s e) = Some i" "c_player (cm E s e) = Some p"
        "pl_defeated p" "\<not> gs_timeMs s < pl_respawnAtMs p" by blast
    define spawn where "spawn = SpawnTransformForClient (gs_config s) (pl_clientId p)"
    define p' where "p' = p\<lparr>pl_health := pl_maxHealth p, pl_defeated := False, pl_respawnAtMs := 0\<rparr>"
    define s1 where "s1 = upd E e (\<lambda>c. c\<lparr>c_player := Some p'\<rparr>) s"
    define s2 where "s2 = upd E e (\<lambda>c. c\<lparr>c_transform := Some spawn\<rparr>) s1"
    define s3 where "s3 = upd E e (\<lambda>c. c\<lparr>c_velocity := Some default_Velocity\<rparr>) s2"
    define s4 where "s4 = upd E e (\<lambda>c. case c_weapon c of
        Some w \<Rightarrow> c\<lparr>c_weapon := Some (w\<lparr>ws_warming := False, ws_warmupStartedAtMs := 0,
                   ws_warmupCompletesAtMs := 0\<rparr>)\<rparr>
      | None \<Rightarrow> c) s3"
    have eq: "respawn_step E e s = QueueEvent (PlayerRespawned i (tf_x spawn) (tf_y spawn)) s4"
      using ip by (simp add: respawn_step_def Let_def spawn_def p'_def s1_def s2_def s3_def s4_def)
    have p': "player_ok (gs_config s) p'" "pl_clientId p' = pl_clientId p"
      using sim_ok_player [OF s ip(2)] c by (auto simp: p'_def player_ok_def config_ok_def)
    have 1: "sim_ok E s1" unfolding s1_def by (rule sim_ok_upd_player [OF E s ip(2) p'])
    have 2: "sim_ok E s2"
      unfolding s2_def using spawn_on_map [OF c]
      by (intro sim_ok_upd_transform [OF E 1]) (simp add: s1_def spawn_def)
    have 3: "sim_ok E s3"
      unfolding s3_def using speed_ok_zero [OF c]
      by (intro sim_ok_upd_velocity [OF E 2]) (simp add: s1_def s2_def)
    have 4: "sim_ok E s4" unfolding s4_def
      by (rule sim_ok_upd_other [OF E 3]) (simp_all split: option.splits)
    have "frame E s s1" unfolding s1_def by (rule frame_upd_player [OF E frame_refl ip(2) p'(2)])
    then have "frame E s s2" unfolding s2_def by (rule frame_upd [OF E]) (simp add: same_owner_def)
    then have "frame E s s3" unfolding s3_def by (rule frame_upd [OF E]) (simp add: same_owner_def)
    then have "frame E s s4" unfolding s4_def
      by (rule frame_upd [OF E]) (simp add: same_owner_def split: option.splits)
    with 4 show ?thesis by (simp add: eq)
  qed
  then show "frame E s (respawn_step E e s)" "sim_ok E (respawn_step E e s)" by auto
qed

lemma ProcessRespawns_ok:
  assumes E: "entt_laws E" and c: "config_ok (gs_config s)" and s: "sim_ok E s"
  shows "frame E s (ProcessRespawns E s)" and "sim_ok E (ProcessRespawns E s)"
proof -
  have "frame E s (ProcessRespawns E s) \<and> sim_ok E (ProcessRespawns E s)"
    unfolding ProcessRespawns_def
  proof (rule fold_invariant)
    fix e s'
    assume "frame E s s' \<and> sim_ok E s'"
    then show "frame E s (respawn_step E e s') \<and> sim_ok E (respawn_step E e s')"
      using respawn_step_ok [OF E, of s' e] c frame_fields(1) [of E s s']
        frame_trans [of E s s' "respawn_step E e s'"] by simp
  qed (use s in simp)
  then show "frame E s (ProcessRespawns E s)" "sim_ok E (ProcessRespawns E s)" by auto
qed

end
