(* ===== verification/Sim_Invariants.thy ===== *)
theory Sim_Invariants
  imports Sim_Steps
begin

text \<open>
  The invariant of \<open>Sim_Steps\<close> through entity creation and the public operations \<open>Submit\<close> and
  \<open>TickFixed\<close>, and by induction over the runs of a server's simulation.
\<close>

section \<open>Creation\<close>

text \<open>A new entity under the next id, with its client when it is a player.\<close>

lemma sim_ok_insert:
  assumes s: "sim_ok E s" and fresh: "\<not> alive E s e" and room: "unat (gs_nextNetworkId s) + 1 < 2 ^ 32"
    and alive: "\<And>e'. alive E s' e' \<longleftrightarrow> e' = e \<or> alive E s e'"
    and cm: "\<And>e'. cm E s' e' = (if e' = e then c else cm E s e')"
    and c: "c_identity c = Some (gs_nextNetworkId s)" "entity_ok (gs_config s) c"
    and ebn: "gs_entityByNetworkId s' = um_put (gs_nextNetworkId s) e (gs_entityByNetworkId s)"
    and nxt: "gs_nextNetworkId s' = gs_nextNetworkId s + 1" and cfg: "gs_config s' = gs_config s"
    and pbc: "gs_playerByClient s' = gs_playerByClient s
      \<or> (\<exists>cl p. gs_playerByClient s' = um_put cl (gs_nextNetworkId s) (gs_playerByClient s)
           \<and> c_player c = Some p \<and> pl_clientId p = cl
           \<and> length (gs_playerByClient s) < unat (sc_maxPlayers (gs_config s)))"
  shows "sim_ok E s'"
proof -
  let ?n = "gs_nextNetworkId s"
  have idx: "index_ok E s" using s by (simp add: sim_ok_def)
  have ef: "EntityFor s' i = (if i = ?n then Some e else EntityFor s i)" for i
    by (simp add: EntityFor_def ebn)
  have less: "i < ?n \<Longrightarrow> i < ?n + 1" "?n < ?n + 1" for i
  proof -
    have "unat (?n + 1) = unat ?n + 1" using room by (simp add: unat_word_ariths)
    then show "i < ?n \<Longrightarrow> i < ?n + 1" "?n < ?n + 1" by (simp_all add: word_less_nat_alt)
  qed
  have dead: "c_identity (cm E s e) = None"
    using not_alive_cm [OF fresh] by (simp add: no_components_def)
  have new: "EntityFor s ?n = None"
    using index_okD(6) [OF idx, of ?n] by (cases "EntityFor s ?n") auto
  have dead_ef: "EntityFor s i \<noteq> Some e" for i using index_okD(3) [OF idx, of i e] dead by simp
  have "clients_ok E s'"
    unfolding clients_ok_def
  proof (intro allI impI)
    fix cl i
    assume i: "PlayerEntityForClient s' cl = Some i"
    show "\<exists>e p. EntityFor s' i = Some e \<and> c_player (cm E s' e) = Some p \<and> pl_clientId p = cl"
    proof (cases "PlayerEntityForClient s cl = Some i")
      case True
      then obtain e' p where ep: "EntityFor s i = Some e'" "c_player (cm E s e') = Some p" "pl_clientId p = cl"
        using clients_okE [OF index_okD(5) [OF idx]] by blast
      moreover have "i \<noteq> ?n" using ep(1) new by auto
      moreover have "e' \<noteq> e" using ep(1) dead_ef by blast
      ultimately show ?thesis by (auto simp: ef cm)
    next
      case False
      with i pbc obtain p where "i = ?n" "c_player c = Some p" "pl_clientId p = cl"
        by (auto simp: PlayerEntityForClient_def split: if_splits)
      then show ?thesis by (auto simp: ef cm)
    qed
  qed
  moreover have "EntityFor s' i = Some e' \<longleftrightarrow> c_identity (cm E s' e') = Some i" for i e'
    using index_okD(3) [OF idx, of i e'] new dead_ef [of i] c(1) by (auto simp: ef cm)
  moreover have "alive E s' e' \<Longrightarrow> c_identity (cm E s' e') \<noteq> None" for e'
    using index_okD(4) [OF idx, of e'] c(1) by (auto simp: alive cm)
  moreover have "EntityFor s' i = Some e' \<Longrightarrow> i < gs_nextNetworkId s'" for i e'
    using index_okD(6) [OF idx, of i e'] less by (auto simp: ef nxt split: if_splits)
  moreover have "um_ok (gs_playerByClient s')" "length (gs_playerByClient s') \<le> unat (sc_maxPlayers (gs_config s'))"
    using pbc index_okD(2,7) [OF idx] by (auto simp: cfg length_um_put)
  ultimately have "index_ok E s'"
    using index_okD(1) [OF idx] by (intro index_okI) (simp_all add: ebn)
  moreover have "entity_ok (gs_config s') (cm E s' e')" if "alive E s' e'" for e'
    using s that c(2) by (auto simp: sim_ok_def alive cm cfg)
  ultimately show ?thesis by (simp add: sim_ok_def)
qed

lemma create_alive:
  assumes "entt_laws E" "en_create E (gs_registry s) = (e, reg)"
  shows "\<not> alive E s e"
    and "alive E (s\<lparr>gs_registry := reg, gs_nextNetworkId := n\<rparr>) e' \<longleftrightarrow> e' = e \<or> alive E s e'"
    and "cm E (s\<lparr>gs_registry := reg, gs_nextNetworkId := n\<rparr>) e' = (if e' = e then no_components else cm E s e')"
  using en_get_create [OF assms] by (auto simp: alive_def cm_def comps_def)

lemma create_fields:
  "alive E (s\<lparr>gs_playerByClient := m\<rparr>) e = alive E s e" "cm E (s\<lparr>gs_playerByClient := m\<rparr>) e = cm E s e"
  "alive E (s\<lparr>gs_entityByNetworkId := m'\<rparr>) e = alive E s e" "cm E (s\<lparr>gs_entityByNetworkId := m'\<rparr>) e = cm E s e"
  "alive E (s\<lparr>gs_lastAcceptedSequence := m\<rparr>) e = alive E s e"
  "cm E (s\<lparr>gs_lastAcceptedSequence := m\<rparr>) e = cm E s e"
  by (simp_all add: alive_def cm_def)

text \<open>The components of a new player and of a new projectile.\<close>

definition player_components ::
    "SimulationConfig \<Rightarrow> NetworkEntityId \<Rightarrow> ClientId \<Rightarrow> Fixed \<Rightarrow> Fixed \<Rightarrow> components" where
  "player_components config i cl x y = no_components\<lparr>c_identity := Some i,
     c_transform := Some \<lparr>tf_x = x, tf_y = y\<rparr>, c_velocity := Some default_Velocity,
     c_aim := Some default_Aim,
     c_player := Some (default_Player\<lparr>pl_clientId := cl, pl_health := sc_maxPlayerHealth config,
        pl_maxHealth := sc_maxPlayerHealth config\<rparr>),
     c_weapon := Some (default_WeaponState\<lparr>ws_type := sc_defaultWeapon config\<rparr>),
     c_owner := Some cl, c_replication := Some AreaOfInterest,
     c_authoritative := (sc_mode config = ServerAuthoritative),
     c_predicted := (sc_mode config \<noteq> ServerAuthoritative)\<rparr>"

lemma CreatePlayer_state:
  assumes E: "entt_laws E" and r: "en_create E (gs_registry s) = (e, reg)"
    and s': "CreatePlayer E cl x y s = (i, s')"
  shows "i = gs_nextNetworkId s" and "gs_config s' = gs_config s"
    and "alive E s' e' \<longleftrightarrow> e' = e \<or> alive E s e'"
    and "cm E s' e' = (if e' = e then player_components (gs_config s) i cl x y else cm E s e')"
    and "gs_entityByNetworkId s' = um_put i e (gs_entityByNetworkId s)"
    and "gs_playerByClient s' = um_put cl i (gs_playerByClient s)"
    and "gs_nextNetworkId s' = gs_nextNetworkId s + 1"
    and "gs_events s' = gs_events s @ [PlayerSpawned i cl x y]"
  using s' unfolding CreatePlayer_def r AllocateNetworkId_def Let_def
  by (auto simp: E create_alive [OF E r] create_fields player_components_def no_components_def
      split: if_splits)

lemma SubmitLogin_ok:
  assumes E: "entt_laws E" and c: "config_ok (gs_config s)" and s: "sim_ok E s"
    and room: "unat (gs_nextNetworkId s) + 1 < 2 ^ 32"
  shows "sim_ok E (snd (SubmitLogin E cmd s))"
    and "gs_config (snd (SubmitLogin E cmd s)) = gs_config s"
proof -
  let ?cl = "hd_clientId (lg_header cmd)"
  have "sim_ok E (snd (SubmitLogin E cmd s)) \<and> gs_config (snd (SubmitLogin E cmd s)) = gs_config s"
  proof (cases "um_contains (gs_playerByClient s) ?cl
      \<or> length (gs_playerByClient s) \<ge> unat (sc_maxPlayers (gs_config s))")
    case True
    with s show ?thesis by (auto simp: SubmitLogin_def Let_def)
  next
    case False
    define s0 where "s0 = s\<lparr>gs_lastAcceptedSequence :=
      um_put ?cl (hd_sequence (lg_header cmd)) (gs_lastAcceptedSequence s)\<rparr>"
    let ?t = "SpawnTransformForClient (gs_config s) ?cl"
    obtain e reg where r: "en_create E (gs_registry s0) = (e, reg)" by fastforce
    obtain i s' where s': "CreatePlayer E ?cl (tf_x ?t) (tf_y ?t) s0 = (i, s')" by fastforce
    have "sim_ok E s0 \<longleftrightarrow> sim_ok E s"
      by (rule sim_ok_cong) (simp_all add: s0_def create_fields)
    then have s0: "sim_ok E s0" using s by simp
    note st = CreatePlayer_state [OF E r s']
    have "entity_ok (gs_config s0) (player_components (gs_config s0) i ?cl (tf_x ?t) (tf_y ?t))"
      using spawn_on_map [OF c, of ?cl] speed_ok_zero [OF c] c
      by (auto simp: entity_ok_def player_components_def player_ok_def default_Player_def
          no_components_def config_ok_def s0_def on_map_def)
    then have "sim_ok E s'"
      using False st room
      by (intro sim_ok_insert [OF s0 create_alive(1) [OF E r]])
        (auto simp: player_components_def s0_def)
    moreover have "SubmitLogin E cmd s = (True, s')"
      using False s' by (simp add: SubmitLogin_def Let_def s0_def [symmetric]) (simp add: s0_def)
    ultimately show ?thesis using st(2) by (simp add: s0_def)
  qed
  then show "sim_ok E (snd (SubmitLogin E cmd s))" "gs_config (snd (SubmitLogin E cmd s)) = gs_config s"
    by auto
qed

text \<open>An accepted login of a new client, in terms of the entity it creates.\<close>

lemma SubmitLogin_creates:
  fixes cmd s
  defines "cl \<equiv> hd_clientId (lg_header cmd)"
  assumes E: "entt_laws E" and new: "\<not> um_contains (gs_playerByClient s) cl"
    and room: "length (gs_playerByClient s) < unat (sc_maxPlayers (gs_config s))"
    and r: "en_create E (gs_registry s) = (e, reg)"
  shows "fst (SubmitLogin E cmd s)"
    and "cm E (snd (SubmitLogin E cmd s)) e = player_components (gs_config s) (gs_nextNetworkId s) cl
           (tf_x (SpawnTransformForClient (gs_config s) cl)) (tf_y (SpawnTransformForClient (gs_config s) cl))"
    and "PlayerEntityForClient (snd (SubmitLogin E cmd s)) cl = Some (gs_nextNetworkId s)"
    and "EntityFor (snd (SubmitLogin E cmd s)) (gs_nextNetworkId s) = Some e"
proof -
  define s0 where "s0 = s\<lparr>gs_lastAcceptedSequence :=
    um_put cl (hd_sequence (lg_header cmd)) (gs_lastAcceptedSequence s)\<rparr>"
  let ?t = "SpawnTransformForClient (gs_config s) cl"
  obtain i s' where s': "CreatePlayer E cl (tf_x ?t) (tf_y ?t) s0 = (i, s')" by fastforce
  have "SubmitLogin E cmd s = (True, s')"
    using new room s' by (simp add: SubmitLogin_def Let_def cl_def [symmetric] s0_def [symmetric])
      (simp add: s0_def)
  moreover have "en_create E (gs_registry s0) = (e, reg)" using r by (simp add: s0_def)
  note CreatePlayer_state [OF E this s']
  ultimately show "fst (SubmitLogin E cmd s)"
    "cm E (snd (SubmitLogin E cmd s)) e = player_components (gs_config s) (gs_nextNetworkId s) cl
       (tf_x ?t) (tf_y ?t)"
    "PlayerEntityForClient (snd (SubmitLogin E cmd s)) cl = Some (gs_nextNetworkId s)"
    "EntityFor (snd (SubmitLogin E cmd s)) (gs_nextNetworkId s) = Some e"
    by (simp_all add: s0_def PlayerEntityForClient_def EntityFor_def)
qed

definition projectile_components ::
    "TimestampMs \<Rightarrow> NetworkEntityId \<Rightarrow> NetworkEntityId \<Rightarrow> TransformComponent \<Rightarrow> AimComponent \<Rightarrow> WeaponDefinition \<Rightarrow> components" where
  "projectile_components now i ownerId t aim weapon = no_components\<lparr>c_identity := Some i,
     c_transform := Some \<lparr>tf_x = tf_x t, tf_y = tf_y t\<rparr>,
     c_velocity := Some \<lparr>vl_vx = projectile_velocity weapon (am_x aim),
       vl_vy = projectile_velocity weapon (am_y aim)\<rparr>,
     c_projectile := Some \<lparr>pj_ownerId = ownerId, pj_spawnedAtMs = now,
       pj_expiresAtMs = now + wd_projectileLifetimeMs weapon, pj_sourceWeapon = wd_type weapon\<rparr>,
     c_replication := Some AreaOfInterest, c_authoritative := True\<rparr>"

lemma CreateProjectile_state:
  assumes E: "entt_laws E" and r: "en_create E (gs_registry s) = (e, reg)"
    and s': "CreateProjectile E ow t aim w s = (i, s')"
  shows "i = gs_nextNetworkId s" and "gs_config s' = gs_config s" and "gs_timeMs s' = gs_timeMs s"
    and "alive E s' e' \<longleftrightarrow> e' = e \<or> alive E s e'"
    and "cm E s' e' = (if e' = e then projectile_components (gs_timeMs s) i ow t aim w else cm E s e')"
    and "gs_entityByNetworkId s' = um_put i e (gs_entityByNetworkId s)"
    and "gs_playerByClient s' = gs_playerByClient s"
    and "gs_nextNetworkId s' = gs_nextNetworkId s + 1"
    and "gs_events s' = gs_events s @ [ProjectileSpawned i ow (tf_x t) (tf_y t) (wd_type w)]"
  using s' unfolding CreateProjectile_def r AllocateNetworkId_def Let_def
  by (auto simp: E create_alive [OF E r] create_fields projectile_components_def no_components_def
      split: if_splits)

lemma spawn_request_ok:
  assumes E: "entt_laws E" and s: "sim_ok E s" and room: "unat (gs_nextNetworkId s) + 1 < 2 ^ 32"
  shows "sim_ok E (spawn_request E q s)"
    and "gs_config (spawn_request E q s) = gs_config s" and "gs_timeMs (spawn_request E q s) = gs_timeMs s"
    and "gs_playerByClient (spawn_request E q s) = gs_playerByClient s"
    and "unat (gs_nextNetworkId (spawn_request E q s)) = unat (gs_nextNetworkId s) + 1"
proof -
  obtain e reg where r: "en_create E (gs_registry s) = (e, reg)" by fastforce
  obtain i s' where s': "CreateProjectile E (pr_ownerId q) (pr_transform q) (pr_aim q) (pr_weapon q) s = (i, s')"
    by fastforce
  note st = CreateProjectile_state [OF E r s']
  have "entity_ok (gs_config s) (projectile_components (gs_timeMs s) i (pr_ownerId q) (pr_transform q)
      (pr_aim q) (pr_weapon q))"
    by (simp add: entity_ok_def projectile_components_def no_components_def)
  then have "sim_ok E s'"
    using st room
    by (intro sim_ok_insert [OF s create_alive(1) [OF E r]]) (auto simp: projectile_components_def)
  moreover have "spawn_request E q s = s'" by (simp add: spawn_request_def s')
  ultimately show "sim_ok E (spawn_request E q s)" "gs_config (spawn_request E q s) = gs_config s"
    "gs_timeMs (spawn_request E q s) = gs_timeMs s"
    "gs_playerByClient (spawn_request E q s) = gs_playerByClient s"
    "unat (gs_nextNetworkId (spawn_request E q s)) = unat (gs_nextNetworkId s) + 1"
    using st room by (simp_all add: unat_word_ariths)
qed

lemma spawn_all_ok:
  assumes E: "entt_laws E"
  shows "sim_ok E s \<Longrightarrow> unat (gs_nextNetworkId s) + length qs < 2 ^ 32 \<Longrightarrow>
     sim_ok E (fold (spawn_request E) qs s)
     \<and> gs_config (fold (spawn_request E) qs s) = gs_config s
     \<and> gs_timeMs (fold (spawn_request E) qs s) = gs_timeMs s
     \<and> gs_playerByClient (fold (spawn_request E) qs s) = gs_playerByClient s
     \<and> unat (gs_nextNetworkId (fold (spawn_request E) qs s)) = unat (gs_nextNetworkId s) + length qs"
proof (induction qs arbitrary: s)
  case (Cons q qs)
  have room: "unat (gs_nextNetworkId s) + 1 < 2 ^ 32" using Cons.prems(2) by simp
  note q = spawn_request_ok [OF E Cons.prems(1) room]
  have "unat (gs_nextNetworkId (spawn_request E q s)) + length qs < 2 ^ 32"
    using Cons.prems(2) q(5) by simp
  from Cons.IH [OF q(1) this] q show ?case by simp
qed simp

text \<open>A view never has more entities than the index.\<close>

lemma length_view_le:
  assumes E: "entt_laws E" and s: "index_ok E s"
  shows "length (en_view E ks (gs_registry s)) \<le> length (gs_entityByNetworkId s)"
proof -
  let ?v = "en_view E ks (gs_registry s)"
  let ?f = "\<lambda>e. the (c_identity (cm E s e))"
  have id: "EntityFor s (?f e) = Some e" if "e \<in> set ?v" for e
  proof -
    have "alive E s e" using that by (simp add: alive_en_view [OF E])
    then have "c_identity (cm E s e) \<noteq> None" using index_okD(4) [OF s] by simp
    then show ?thesis using index_okD(3) [OF s] by auto
  qed
  have "inj_on ?f (set ?v)"
    by (rule inj_onI) (metis id option.inject)
  moreover have "?f ` set ?v \<subseteq> fst ` set (gs_entityByNetworkId s)"
    using id by (auto simp: EntityFor_def um_contains_def simp flip: um_contains_iff)
  ultimately have "card (set ?v) \<le> card (fst ` set (gs_entityByNetworkId s))"
    by (intro card_inj_on_le [of ?f]) auto
  also have "\<dots> \<le> length (gs_entityByNetworkId s)"
    by (metis card_image_le card_length finite_set order_trans)
  finally show ?thesis using distinct_card [OF en_view_distinct [OF E, of ks "gs_registry s"]] by simp
qed

lemma warmup_fold_ok:
  assumes E: "entt_laws E" and "fold (warmup_step E) es (s, rs) = (s', rs')"
  shows "frame E s s' \<and> (sim_ok E s \<longrightarrow> sim_ok E s') \<and> length rs' \<le> length rs + length es"
  using assms(2)
proof (induction es arbitrary: s rs)
  case Nil
  then show ?case by simp
next
  case (Cons e es)
  obtain s1 rs1 where st: "warmup_step E e (s, rs) = (s1, rs1)" by fastforce
  then have "fold (warmup_step E) es (s1, rs1) = (s', rs')" using Cons.prems by simp
  from Cons.IH [OF this] warmup_step_ok [OF E st] show ?case by (auto intro: frame_trans)
qed

text \<open>The ids that are still free: one tick takes at most one per entity.\<close>

definition id_room :: "'r GameSimulation \<Rightarrow> bool" where
  "id_room s \<longleftrightarrow> unat (gs_nextNetworkId s) + length (gs_entityByNetworkId s) + 1 < 2 ^ 32"

lemma ProcessWeaponWarmups_ok:
  assumes E: "entt_laws E" and s: "sim_ok E s" and room: "id_room s"
  shows "sim_ok E (ProcessWeaponWarmups E s)"
    and "gs_config (ProcessWeaponWarmups E s) = gs_config s"
    and "gs_timeMs (ProcessWeaponWarmups E s) = gs_timeMs s"
    and "gs_playerByClient (ProcessWeaponWarmups E s) = gs_playerByClient s"
proof -
  let ?v = "en_view E [K_Identity, K_Transform, K_Aim, K_Weapon] (gs_registry s)"
  obtain s1 rs where f: "fold (warmup_step E) ?v (s, []) = (s1, rs)" by fastforce
  note w = warmup_fold_ok [OF E f]
  have "index_ok E s" using s by (simp add: sim_ok_def)
  note len = length_view_le [OF E this, of "[K_Identity, K_Transform, K_Aim, K_Weapon]"]
  have "unat (gs_nextNetworkId s1) + length rs < 2 ^ 32"
    using w len room frame_fields(4) [of E s s1] by (simp add: id_room_def)
  note sp = spawn_all_ok [OF E _ this]
  have "ProcessWeaponWarmups E s = fold (spawn_request E) rs s1"
    by (simp add: ProcessWeaponWarmups_def Let_def f)
  then show "sim_ok E (ProcessWeaponWarmups E s)" "gs_config (ProcessWeaponWarmups E s) = gs_config s"
    "gs_timeMs (ProcessWeaponWarmups E s) = gs_timeMs s"
    "gs_playerByClient (ProcessWeaponWarmups E s) = gs_playerByClient s"
    using w s sp frame_fields [of E s s1] by auto
qed

section \<open>The public operations\<close>

lemma sim_ok_new: "entt_laws E \<Longrightarrow> sim_ok E (new_GameSimulation E config)"
  by (auto simp: sim_ok_def new_GameSimulation_def alive_def cm_def comps_def no_components_def
      EntityFor_def PlayerEntityForClient_def clients_ok_def intro!: index_okI)

lemma SubmitInput_frame:
  "alive E (snd (SubmitInput p s)) e = alive E s e" "cm E (snd (SubmitInput p s)) e = cm E s e"
  "gs_config (snd (SubmitInput p s)) = gs_config s"
  "gs_nextNetworkId (snd (SubmitInput p s)) = gs_nextNetworkId s"
  "gs_entityByNetworkId (snd (SubmitInput p s)) = gs_entityByNetworkId s"
  "gs_playerByClient (snd (SubmitInput p s)) = gs_playerByClient s"
  by (auto simp: SubmitInput_def Let_def alive_def cm_def split: option.splits)

lemma SubmitInput_ok: "sim_ok E s \<Longrightarrow> sim_ok E (snd (SubmitInput p s))"
  by (subst sim_ok_cong [of E _ s]) (simp_all add: SubmitInput_frame)

lemma TickFixed_ok:
  assumes E: "entt_laws E" and c: "config_ok (gs_config s)" and s: "sim_ok E s" and room: "id_room s"
  shows "sim_ok E (TickFixed E s)" and "gs_config (TickFixed E s) = gs_config s"
    and "gs_timeMs (TickFixed E s) = gs_timeMs s + sc_tickDurationMs (gs_config s)"
    and "gs_playerByClient (TickFixed E s) = gs_playerByClient s"
proof -
  define s0 where "s0 = s\<lparr>gs_tick := gs_tick s + 1,
    gs_timeMs := gs_timeMs s + sc_tickDurationMs (gs_config s)\<rparr>"
  define s1 where "s1 = ProcessInputs E s0"
  define s2 where "s2 = ProcessWeaponWarmups E s1"
  define s3 where "s3 = ProcessProjectiles E s2"
  have eq: "TickFixed E s = ProcessRespawns E s3"
    by (simp add: TickFixed_def Let_def s0_def s1_def s2_def s3_def)
  have "sim_ok E s0 \<longleftrightarrow> sim_ok E s" by (rule sim_ok_cong) (simp_all add: s0_def alive_def cm_def)
  then have 0: "sim_ok E s0" "gs_config s0 = gs_config s" using s by (simp_all add: s0_def)
  have 1: "sim_ok E s1" "frame E s0 s1"
    using ProcessInputs_ok [OF E _ 0(1)] c 0(2) by (simp_all add: s1_def)
  have "id_room s1" using room frame_fields(4,6) [OF 1(2)] by (simp add: id_room_def s0_def)
  note 2 = ProcessWeaponWarmups_ok [OF E 1(1) this, folded s2_def]
  have c2: "config_ok (gs_config s2)" using c 0 2 frame_fields(1) [OF 1(2)] by simp
  note 3 = ProcessProjectiles_ok [OF E c2 2(1), folded s3_def]
  have c3: "config_ok (gs_config s3)" using c2 3 by simp
  note 4 = ProcessRespawns_ok [OF E c3 3(1)]
  show "sim_ok E (TickFixed E s)" using 4 by (simp add: eq)
  show "gs_config (TickFixed E s) = gs_config s"
    "gs_timeMs (TickFixed E s) = gs_timeMs s + sc_tickDurationMs (gs_config s)"
    "gs_playerByClient (TickFixed E s) = gs_playerByClient s"
    using frame_fields [OF 4(1)] 3 2 frame_fields [OF 1(2)] 0 by (simp_all add: eq s0_def)
qed

section \<open>Runs\<close>

text \<open>
  The runs of a server's simulation: logins, inputs, ticks and event drains in any order, as long
  as entity ids are left.
\<close>

inductive sim_step :: "'r entt_ops \<Rightarrow> 'r GameSimulation \<Rightarrow> 'r GameSimulation \<Rightarrow> bool" for E where
  login: "id_room s \<Longrightarrow> SubmitLogin E cmd s = (r, s') \<Longrightarrow> sim_step E s s'"
| input: "SubmitInput p s = (r, s') \<Longrightarrow> sim_step E s s'"
| tick: "id_room s \<Longrightarrow> sim_step E s (TickFixed E s)"
| drain: "DrainEvents s = (evs, s') \<Longrightarrow> sim_step E s s'"

inductive sim_reachable :: "'r entt_ops \<Rightarrow> SimulationConfig \<Rightarrow> 'r GameSimulation \<Rightarrow> bool" for E config where
  init: "sim_reachable E config (new_GameSimulation E config)"
| step: "sim_reachable E config s \<Longrightarrow> sim_step E s s' \<Longrightarrow> sim_reachable E config s'"

lemma sim_step_ok:
  assumes "sim_step E s s'" "entt_laws E" "config_ok (gs_config s)" "sim_ok E s"
  shows "sim_ok E s' \<and> gs_config s' = gs_config s"
  using assms
proof (induction rule: sim_step.induct)
  case (login s cmd r s')
  then have "unat (gs_nextNetworkId s) + 1 < 2 ^ 32" by (simp add: id_room_def)
  from SubmitLogin_ok [OF login.prems this, of cmd] login.hyps show ?case by simp
next
  case (input p s r s')
  then show ?case using SubmitInput_ok [of E s p] SubmitInput_frame(3) [of p s] by simp
next
  case (tick s)
  then show ?case using TickFixed_ok by blast
next
  case (drain s evs s')
  then have s': "s' = s\<lparr>gs_events := []\<rparr>" by (simp add: DrainEvents_def)
  have "sim_ok E s' \<longleftrightarrow> sim_ok E s" by (rule sim_ok_cong) (simp_all add: s' alive_def cm_def)
  with drain show ?case by (simp add: s')
qed

lemma sim_reachable_ok:
  assumes E: "entt_laws E" and c: "config_ok config"
  shows "sim_reachable E config s \<Longrightarrow> sim_ok E s \<and> gs_config s = config"
proof (induction rule: sim_reachable.induct)
  case init
  show ?case using sim_ok_new [OF E] by (simp add: new_GameSimulation_def)
next
  case (step s s')
  then show ?case using sim_step_ok [OF step.hyps(2) E] c by simp
qed

end
