(* ===== verification/Sim_Rules.thy ===== *)
theory Sim_Rules
  imports Sim_Invariants
begin

text \<open>
  The rules of the game: which inputs are accepted, how far an entity moves in a tick, what a hit
  does, and what a predicting client's simulation never does.
\<close>

section \<open>Inputs\<close>

text \<open>Several packets handed to \<open>Submit\<close>; the ones it accepted.\<close>

fun submit_all :: "ClientInputPacket list \<Rightarrow> 'r GameSimulation \<Rightarrow> ClientInputPacket list \<times> 'r GameSimulation" where
  "submit_all [] s = ([], s)"
| "submit_all (p # ps) s =
     (let (ok, s) = SubmitInput p s; (acc, s) = submit_all ps s in (if ok then p # acc else acc, s))"

abbreviation packet_client :: "ClientInputPacket \<Rightarrow> ClientId" where
  "packet_client p \<equiv> hd_clientId (ip_header p)"

abbreviation packet_sequence :: "ClientInputPacket \<Rightarrow> CommandSequence" where
  "packet_sequence p \<equiv> hd_sequence (ip_header p)"

text \<open>The sequence a client has reached.\<close>

definition beyond_last :: "'r GameSimulation \<Rightarrow> ClientId \<Rightarrow> CommandSequence \<Rightarrow> bool" where
  "beyond_last s cl q \<longleftrightarrow>
     (case um_find (gs_lastAcceptedSequence s) cl of Some lastSeq \<Rightarrow> lastSeq < q | None \<Rightarrow> True)"

lemma SubmitInput_iff:
  "fst (SubmitInput p s) \<longleftrightarrow>
     PlayerEntityForClient s (packet_client p) \<noteq> None \<and> beyond_last s (packet_client p) (packet_sequence p)"
  by (auto simp: SubmitInput_def Let_def beyond_last_def PlayerEntityForClient_def not_le
      split: option.splits)

lemma SubmitInput_rejected: "\<not> fst (SubmitInput p s) \<Longrightarrow> snd (SubmitInput p s) = s"
  by (auto simp: SubmitInput_def Let_def split: option.splits)

lemma SubmitInput_accepted:
  assumes "fst (SubmitInput p s)"
  shows "gs_pendingInputs (snd (SubmitInput p s)) = gs_pendingInputs s @ [p]"
    and "beyond_last (snd (SubmitInput p s)) cl q \<longleftrightarrow>
      (if cl = packet_client p then packet_sequence p < q else beyond_last s cl q)"
  using assms by (auto simp: SubmitInput_def Let_def beyond_last_def split: option.splits if_splits)

lemma submit_all_accepted:
  "submit_all ps s = (acc, s') \<Longrightarrow>
     gs_pendingInputs s' = gs_pendingInputs s @ acc
     \<and> sorted_wrt (\<lambda>p q. packet_client p = packet_client q \<longrightarrow> packet_sequence p < packet_sequence q) acc
     \<and> (\<forall>p\<in>set acc. beyond_last s (packet_client p) (packet_sequence p))"
proof (induction ps arbitrary: s acc)
  case Nil
  then show ?case by simp
next
  case (Cons p ps)
  obtain ok s1 where sub: "SubmitInput p s = (ok, s1)" by fastforce
  obtain acc1 where rest: "submit_all ps s1 = (acc1, s')" "acc = (if ok then p # acc1 else acc1)"
    using Cons.prems sub by (auto split: prod.splits)
  note IH = Cons.IH [OF rest(1)]
  show ?case
  proof (cases ok)
    case False
    then have "s1 = s" using SubmitInput_rejected [of p s] sub by simp
    with IH False rest show ?thesis by simp
  next
    case True
    then have ok: "fst (SubmitInput p s)" using sub by simp
    note a = SubmitInput_accepted [OF ok]
    have pend: "gs_pendingInputs s1 = gs_pendingInputs s @ [p]" using a(1) sub by simp
    have bey: "beyond_last s1 cl q \<longleftrightarrow> (if cl = packet_client p then packet_sequence p < q
        else beyond_last s cl q)" for cl q using a(2) [of cl q] sub by simp
    have bp: "beyond_last s (packet_client p) (packet_sequence p)"
      using ok SubmitInput_iff by blast
    have later: "beyond_last s (packet_client q) (packet_sequence q)" if "q \<in> set acc1" for q
    proof (cases "packet_client q = packet_client p")
      case True
      then have "packet_sequence p < packet_sequence q" using IH that bey by auto
      with bp True show ?thesis by (auto simp: beyond_last_def split: option.splits)
    next
      case False
      then show ?thesis using IH that bey by auto
    qed
    have "packet_client p = packet_client q \<longrightarrow> packet_sequence p < packet_sequence q"
      if "q \<in> set acc1" for q
      using IH that bey by auto
    with IH True rest pend bp later show ?thesis by auto
  qed
qed

section \<open>Movement\<close>

text \<open>The ticks and speeds for which no movement computation overflows.\<close>

definition movement_fits :: "SimulationConfig \<Rightarrow> bool" where
  "movement_fits config \<longleftrightarrow> config_ok config
     \<and> 0 \<le> sint (sc_tickDurationMs config) \<and> sint (sc_tickDurationMs config) \<le> 1000
     \<and> sint (MapWidthFixed (sc_map config)) + sint (sc_maxMoveSpeedPerSecond config) < 2 ^ 31
     \<and> sint (MapHeightFixed (sc_map config)) + sint (sc_maxMoveSpeedPerSecond config) < 2 ^ 31"

lemma movement_fits_default: "movement_fits default_SimulationConfig"
proof -
  have "config_ok default_SimulationConfig" by (rule config_ok_default)
  then show ?thesis
    by (simp add: movement_fits_def map_extent)
      (simp add: default_SimulationConfig_def default_MapConfig_def PixelsToFixed_def kFixedOne_def)
qed

lemma Integrate_exact:
  assumes "0 \<le> sint d" "sint d \<le> 1000"
  shows "sint (IntegrateFixedPerSecond v d) = (sint v * sint d) sdiv 1000"
    and "\<bar>sint (IntegrateFixedPerSecond v d)\<bar> \<le> \<bar>sint v\<bar>"
proof -
  have r: "- (2 ^ 31) \<le> sint v" "sint v < 2 ^ 31" using sint_i32_range [of v] by auto
  have abs: "\<bar>sint v * sint d\<bar> \<le> \<bar>sint v\<bar> * 1000"
    using assms by (simp add: abs_mult mult_left_mono)
  then have "- (2 ^ 63) \<le> sint v * sint d" "sint v * sint d < 2 ^ 63" using r by simp_all
  then have w: "wrap64 (sint v * sint d) = sint v * sint d" by (rule wrap64_id)
  have up: "(sint v * sint d) sdiv 1000 \<le> (\<bar>sint v\<bar> * 1000) sdiv 1000"
    using abs by (intro sdiv_mono) auto
  have lo: "(- \<bar>sint v\<bar> * 1000) sdiv 1000 \<le> (sint v * sint d) sdiv 1000"
    using abs by (intro sdiv_mono) auto
  have b: "\<bar>(sint v * sint d) sdiv 1000\<bar> \<le> \<bar>sint v\<bar>"
    using up lo sdiv_mult_cancel [of 1000 "\<bar>sint v\<bar>"] sdiv_mult_cancel [of 1000 "- \<bar>sint v\<bar>"] by simp
  moreover have "(sint v * sint d) sdiv 1000 < 2 ^ 31"
  proof (cases "0 \<le> sint v")
    case True
    then show ?thesis using b r by simp
  next
    case False
    then have "sint v * sint d \<le> 0" using assms by (simp add: mult_nonpos_nonneg)
    then have "(sint v * sint d) sdiv 1000 \<le> 0 sdiv 1000" by (intro sdiv_mono) auto
    then show ?thesis by simp
  qed
  moreover have "- (2 ^ 31) \<le> (sint v * sint d) sdiv 1000" using b r by simp
  ultimately show e: "sint (IntegrateFixedPerSecond v d) = (sint v * sint d) sdiv 1000"
    by (simp add: IntegrateFixedPerSecond_def w sint_cast_i32)
  then show "\<bar>sint (IntegrateFixedPerSecond v d)\<bar> \<le> \<bar>sint v\<bar>" using b by simp
qed

text \<open>One axis: the step is exact, and the clamp only shortens it.\<close>

lemma axis_step:
  assumes "0 \<le> sint d" "sint d \<le> 1000" "\<bar>sint v\<bar> \<le> m" "0 \<le> sint x" "sint x \<le> sint hi"
    and "sint hi + m < 2 ^ 31"
  shows "sint (x + IntegrateFixedPerSecond v d) = sint x + (sint v * sint d) sdiv 1000"
    and "\<bar>sint (ClampFixed (x + IntegrateFixedPerSecond v d) 0 hi) - sint x\<bar>
           \<le> \<bar>(sint v * sint d) sdiv 1000\<bar>"
proof -
  note i = Integrate_exact [OF assms(1,2), of v]
  have "sint (x + IntegrateFixedPerSecond v d) = sint x + sint (IntegrateFixedPerSecond v d)"
    using i(2) assms by (intro sint_add_i32) simp_all
  then show s: "sint (x + IntegrateFixedPerSecond v d) = sint x + (sint v * sint d) sdiv 1000"
    by (simp add: i(1))
  show "\<bar>sint (ClampFixed (x + IntegrateFixedPerSecond v d) 0 hi) - sint x\<bar>
           \<le> \<bar>(sint v * sint d) sdiv 1000\<bar>"
    using assms(4,5) by (auto simp: ClampFixed_def s)
qed

lemma movement_step:
  assumes fit: "movement_fits config" and t: "on_map config t" and v: "speed_ok config v"
  defines "t' \<equiv> ClampToMap config (advance_transform config v t)"
  shows "on_map config t'"
    and "\<bar>sint (tf_x t') - sint (tf_x t)\<bar> \<le> \<bar>(sint (vl_vx v) * sint (sc_tickDurationMs config)) sdiv 1000\<bar>"
    and "\<bar>sint (tf_y t') - sint (tf_y t)\<bar> \<le> \<bar>(sint (vl_vy v) * sint (sc_tickDurationMs config)) sdiv 1000\<bar>"
proof -
  have c: "config_ok config" using fit by (simp add: movement_fits_def)
  show "on_map config t'" unfolding t'_def by (rule on_map_ClampToMap [OF c])
  have d: "0 \<le> sint (sc_tickDurationMs config)" "sint (sc_tickDurationMs config) \<le> 1000"
    using fit by (simp_all add: movement_fits_def)
  show "\<bar>sint (tf_x t') - sint (tf_x t)\<bar> \<le> \<bar>(sint (vl_vx v) * sint (sc_tickDurationMs config)) sdiv 1000\<bar>"
    unfolding t'_def ClampToMap_def advance_transform_def
    using axis_step(2) [OF d, of "vl_vx v" "sint (sc_maxMoveSpeedPerSecond config)" "tf_x t"
        "MapWidthFixed (sc_map config) - 1"] t v fit
    by (simp add: on_map_def speed_ok_def movement_fits_def map_limit [OF c])
  show "\<bar>sint (tf_y t') - sint (tf_y t)\<bar> \<le> \<bar>(sint (vl_vy v) * sint (sc_tickDurationMs config)) sdiv 1000\<bar>"
    unfolding t'_def ClampToMap_def advance_transform_def
    using axis_step(2) [OF d, of "vl_vy v" "sint (sc_maxMoveSpeedPerSecond config)" "tf_y t"
        "MapHeightFixed (sc_map config) - 1"] t v fit
    by (simp add: on_map_def speed_ok_def movement_fits_def map_limit [OF c])
qed

text \<open>The position before and after the clamp, as integers.\<close>

lemma sint_ClampFixed:
  "0 \<le> sint hi \<Longrightarrow> sint (ClampFixed v 0 hi) = max 0 (min (sint v) (sint hi))"
  by (auto simp: ClampFixed_def)

lemma movement_exact:
  assumes fit: "movement_fits config" and t: "on_map config t" and v: "speed_ok config v"
  defines "t' \<equiv> advance_transform config v t"
  shows "sint (tf_x t') = sint (tf_x t) + (sint (vl_vx v) * sint (sc_tickDurationMs config)) sdiv 1000"
    and "sint (tf_y t') = sint (tf_y t) + (sint (vl_vy v) * sint (sc_tickDurationMs config)) sdiv 1000"
    and "sint (tf_x (ClampToMap config t')) = max 0 (min (sint (tf_x t')) (sint (MapWidthFixed (sc_map config)) - 1))"
    and "sint (tf_y (ClampToMap config t')) = max 0 (min (sint (tf_y t')) (sint (MapHeightFixed (sc_map config)) - 1))"
proof -
  have c: "config_ok config" and d: "0 \<le> sint (sc_tickDurationMs config)" "sint (sc_tickDurationMs config) \<le> 1000"
    using fit by (simp_all add: movement_fits_def)
  show "sint (tf_x t') = sint (tf_x t) + (sint (vl_vx v) * sint (sc_tickDurationMs config)) sdiv 1000"
    using axis_step(1) [OF d, of "vl_vx v" "sint (sc_maxMoveSpeedPerSecond config)" "tf_x t"
        "MapWidthFixed (sc_map config) - 1"] t v fit
    by (simp add: t'_def advance_transform_def on_map_def speed_ok_def movement_fits_def map_limit [OF c])
  show "sint (tf_y t') = sint (tf_y t) + (sint (vl_vy v) * sint (sc_tickDurationMs config)) sdiv 1000"
    using axis_step(1) [OF d, of "vl_vy v" "sint (sc_maxMoveSpeedPerSecond config)" "tf_y t"
        "MapHeightFixed (sc_map config) - 1"] t v fit
    by (simp add: t'_def advance_transform_def on_map_def speed_ok_def movement_fits_def map_limit [OF c])
  show "sint (tf_x (ClampToMap config t')) = max 0 (min (sint (tf_x t')) (sint (MapWidthFixed (sc_map config)) - 1))"
    "sint (tf_y (ClampToMap config t')) = max 0 (min (sint (tf_y t')) (sint (MapHeightFixed (sc_map config)) - 1))"
    using map_limit [OF c] by (simp_all add: ClampToMap_def sint_ClampFixed)
qed

text \<open>Diagonal input is no faster: each axis gets 707 thousandths.\<close>

lemma Normalize_length:
  "sint (in_x (NormalizeDigitalInput mx my)) ^ 2 + sint (in_y (NormalizeDigitalInput mx my)) ^ 2 \<le> 1000 ^ 2"
  using digital_sign_cases [of mx] digital_sign_cases [of my]
  by (elim disjE) (simp_all add: NormalizeDigitalInput_def Let_def)

section \<open>A predicting client\<close>

lemma warmup_step_client:
  assumes "sc_mode (gs_config s) = ClientPrediction"
  shows "\<exists>s'. warmup_step E e (s, rs) = (s', rs) \<and> gs_events s' = gs_events s \<and> gs_config s' = gs_config s
     \<and> gs_nextNetworkId s' = gs_nextNetworkId s \<and> gs_entityByNetworkId s' = gs_entityByNetworkId s"
  using assms by (auto simp: warmup_step_def Let_def split: option.splits)

lemma ProcessWeaponWarmups_client:
  assumes "sc_mode (gs_config s) = ClientPrediction"
  shows "gs_events (ProcessWeaponWarmups E s) = gs_events s"
    and "gs_nextNetworkId (ProcessWeaponWarmups E s) = gs_nextNetworkId s"
    and "gs_entityByNetworkId (ProcessWeaponWarmups E s) = gs_entityByNetworkId s"
proof -
  have fold: "\<exists>s'. fold (warmup_step E) es (s, rs) = (s', rs) \<and> gs_events s' = gs_events s
      \<and> gs_nextNetworkId s' = gs_nextNetworkId s \<and> gs_entityByNetworkId s' = gs_entityByNetworkId s" for es rs
    using assms
  proof (induction es arbitrary: s)
    case (Cons e es)
    obtain s1 where s1: "warmup_step E e (s, rs) = (s1, rs)" "gs_events s1 = gs_events s"
        "gs_config s1 = gs_config s" "gs_nextNetworkId s1 = gs_nextNetworkId s"
        "gs_entityByNetworkId s1 = gs_entityByNetworkId s"
      using warmup_step_client [OF Cons.prems] by blast
    with Cons.IH [of s1] Cons.prems show ?case by auto
  qed simp
  show "gs_events (ProcessWeaponWarmups E s) = gs_events s"
    "gs_nextNetworkId (ProcessWeaponWarmups E s) = gs_nextNetworkId s"
    "gs_entityByNetworkId (ProcessWeaponWarmups E s) = gs_entityByNetworkId s"
    using fold [of "en_view E [K_Identity, K_Transform, K_Aim, K_Weapon] (gs_registry s)" "[]"]
    by (auto simp: ProcessWeaponWarmups_def Let_def)
qed

section \<open>Hits\<close>

text \<open>What \<open>hit_player\<close> does to the player and which events it queues.\<close>

lemma hit_player_effect:
  assumes E: "entt_laws E" and p: "c_player (cm E s e) = Some p" "\<not> pl_defeated p"
    and ok: "player_ok config p" and d: "FindWeaponDefinition (sc_weapons (gs_config s)) (pj_sourceWeapon pj) = Some w"
      "0 \<le> sint (wd_damage w)"
  shows "\<exists>p'. c_player (cm E (hit_player E pid pj e i p s) e) = Some p'
     \<and> sint (pl_health p') = max 0 (sint (pl_health p) - sint (wd_damage w))
     \<and> (pl_defeated p' \<longleftrightarrow> sint (pl_health p) \<le> sint (wd_damage w))
     \<and> gs_events (hit_player E pid pj e i p s) = gs_events s
         @ [HitConfirmed (pj_ownerId pj) i pid (gs_timeMs s),
            PlayerDamaged i (pj_ownerId pj) (wd_damage w) (pl_health p')]
         @ (if pl_defeated p' then [PlayerDied i (pj_ownerId pj) (pl_respawnAtMs p')] else [])"
proof -
  have h: "sint (pl_health (p\<lparr>pl_health := max_i32 0 (pl_health p - wd_damage w)\<rparr>))
      = max 0 (sint (pl_health p) - sint (wd_damage w))"
    by (rule damaged_player_ok(1) [OF ok p(2) d(2) refl])
  then have h': "sint (max_i32 0 (pl_health p - wd_damage w))
      = max 0 (sint (pl_health p) - sint (wd_damage w))" by simp
  show ?thesis
    using alive_player [OF p(1)] p(2)
    by (auto simp: hit_player_def Let_def d(1) E h')
qed

end
