(* ===== verification/Sim_Snapshot.thy ===== *)
theory Sim_Snapshot
  imports Simulation
begin

text \<open>
  The two snapshot functions of \<open>src/GameLogic/src/Simulation.cpp\<close>: \<open>BuildSnapshot\<close>, which the
  server calls for every observer, and \<open>ApplySnapshot\<close>, which the client calls on every snapshot
  it receives.
\<close>

section \<open>BuildSnapshot\<close>

definition BetterPriority :: "SnapshotPriority \<Rightarrow> SnapshotPriority \<Rightarrow> SnapshotPriority" where
  "BetterPriority left right = (if left \<ge> right then left else right)"

definition observer_chunk :: "'r entt_ops \<Rightarrow> 'r GameSimulation \<Rightarrow> ClientId \<Rightarrow> ChunkCoord option" where
  "observer_chunk E s observerClientId =
     (case PlayerEntityForClient s observerClientId of
        None \<Rightarrow> None
      | Some observerEntityId \<Rightarrow>
          (case MovementForEntity E s observerEntityId of
             None \<Rightarrow> None
           | Some movement \<Rightarrow>
               Some (ChunkForPosition (sc_map (gs_config s)) (mv_x movement) (mv_y movement))))"

text \<open>The filter at the top of the loop: owned entities always pass.\<close>

definition entity_visible ::
    "'r entt_ops \<Rightarrow> 'r GameSimulation \<Rightarrow> ClientId \<Rightarrow> ChunkCoord option \<Rightarrow> TransformComponent \<Rightarrow> entity \<Rightarrow> bool" where
  "entity_visible E s observerClientId observerChunk transform entity =
     (let ownedByObserver = (c_owner (cm E s entity) = Some observerClientId)
      in case observerChunk of
           None \<Rightarrow> True
         | Some chunk \<Rightarrow>
             ownedByObserver
             \<or> IsChunkInAreaOfInterest (sc_map (gs_config s)) chunk
                 (ChunkForPosition (sc_map (gs_config s)) (tf_x transform) (tf_y transform)))"

definition entity_state ::
    "'r entt_ops \<Rightarrow> 'r GameSimulation \<Rightarrow> ClientId \<Rightarrow> entity \<Rightarrow> NetworkEntityId \<Rightarrow> TransformComponent
     \<Rightarrow> VelocityComponent \<Rightarrow> EntityStateDTO" where
  "entity_state E s observerClientId entity identity transform velocity =
     (let c = cm E s entity;
          (aimX, aimY) = (case c_aim c of Some aim \<Rightarrow> (am_x aim, am_y aim) | None \<Rightarrow> (1000, 0));
          movement = \<lparr>mv_entityId = identity, mv_x = tf_x transform, mv_y = tf_y transform,
                      mv_vx = vl_vx velocity, mv_vy = vl_vy velocity, mv_aimX = aimX, mv_aimY = aimY\<rparr>;
          replication = \<lparr>rp_entityId = identity,
                         rp_ownerClientId = (case c_owner c of Some owner \<Rightarrow> owner | None \<Rightarrow> 0),
                         rp_kind = Player,
                         rp_priority = PriorityForEntity E s observerClientId entity\<rparr>
      in case c_player c of
           Some player \<Rightarrow>
             let combat = default_CombatStateDTO\<lparr>cb_entityId := identity, cb_health := pl_health player,
                   cb_maxHealth := pl_maxHealth player, cb_defeated := pl_defeated player,
                   cb_respawnAtMs := pl_respawnAtMs player\<rparr>;
                 combat = (case c_weapon c of
                     Some weapon \<Rightarrow> combat\<lparr>cb_weaponType := ws_type weapon, cb_weaponWarming := ws_warming weapon,
                       cb_weaponWarmupCompletesAtMs := ws_warmupCompletesAtMs weapon\<rparr>
                   | None \<Rightarrow> combat)
             in \<lparr>es_movement = movement, es_combat = Some combat,
                 es_replication = replication\<lparr>rp_kind := Player\<rparr>\<rparr>
         | None \<Rightarrow>
             (case c_projectile c of
                Some projectile \<Rightarrow>
                  let combat = default_CombatStateDTO\<lparr>cb_entityId := identity,
                        cb_weaponType := pj_sourceWeapon projectile, cb_serverOwnedProjectile := True,
                        cb_projectileOwnerId := pj_ownerId projectile\<rparr>
                  in \<lparr>es_movement = movement, es_combat = Some combat,
                      es_replication = replication\<lparr>rp_kind := Projectile,
                        rp_priority := BetterPriority (rp_priority replication) High\<rparr>\<rparr>
              | None \<Rightarrow> \<lparr>es_movement = movement, es_combat = None, es_replication = replication\<rparr>))"

definition build_entity ::
    "'r entt_ops \<Rightarrow> 'r GameSimulation \<Rightarrow> ClientId \<Rightarrow> ChunkCoord option \<Rightarrow> entity \<Rightarrow> EntityStateDTO list" where
  "build_entity E s observerClientId observerChunk entity =
     (case (c_identity (cm E s entity), c_transform (cm E s entity), c_velocity (cm E s entity)) of
        (Some identity, Some transform, Some velocity) \<Rightarrow>
          if entity_visible E s observerClientId observerChunk transform entity
          then [entity_state E s observerClientId entity identity transform velocity]
          else []
      | _ \<Rightarrow> [])"

definition BuildSnapshot ::
    "'r entt_ops \<Rightarrow> 'r GameSimulation \<Rightarrow> ClientId \<Rightarrow> SnapshotId \<Rightarrow> SnapshotId \<Rightarrow> SnapshotDTO" where
  "BuildSnapshot E s observerClientId snapshotId baselineId =
     \<lparr>sn_snapshotId = snapshotId, sn_baselineId = baselineId, sn_deliveryKind = Full,
      sn_serverTick = gs_tick s, sn_serverTimeMs = gs_timeMs s,
      sn_ackedInputSequence = (case um_find (gs_lastAcceptedSequence s) observerClientId of
         Some lastSeq \<Rightarrow> lastSeq | None \<Rightarrow> 0),
      sn_entities = concat (map (build_entity E s observerClientId (observer_chunk E s observerClientId))
         (en_view E [K_Identity, K_Transform, K_Velocity] (gs_registry s)))\<rparr>"

section \<open>ApplySnapshot\<close>

text \<open>\<open>get_or_emplace\<close> of the three movement components.\<close>

definition ensure_movement :: "components \<Rightarrow> components" where
  "ensure_movement c = c\<lparr>
     c_transform := Some (case c_transform c of None \<Rightarrow> default_Transform | Some t \<Rightarrow> t),
     c_velocity := Some (case c_velocity c of None \<Rightarrow> default_Velocity | Some v \<Rightarrow> v),
     c_aim := Some (case c_aim c of None \<Rightarrow> default_Aim | Some a \<Rightarrow> a)\<rparr>"

text \<open>The player or projectile part of a state, written over the entity's components.\<close>

definition apply_player :: "EntityStateDTO \<Rightarrow> components \<Rightarrow> components" where
  "apply_player state c =
     (let player = (case c_player c of None \<Rightarrow> default_Player | Some p \<Rightarrow> p);
          player = player\<lparr>pl_clientId := rp_ownerClientId (es_replication state)\<rparr>;
          player = (case es_combat state of
              Some combat \<Rightarrow> player\<lparr>pl_health := cb_health combat, pl_maxHealth := cb_maxHealth combat,
                pl_defeated := cb_defeated combat, pl_respawnAtMs := cb_respawnAtMs combat\<rparr>
            | None \<Rightarrow> player);
          weapon = (case c_weapon c of None \<Rightarrow> default_WeaponState | Some w \<Rightarrow> w);
          weapon = (case es_combat state of
              Some combat \<Rightarrow> weapon\<lparr>ws_type := cb_weaponType combat, ws_warming := cb_weaponWarming combat,
                ws_warmupCompletesAtMs := cb_weaponWarmupCompletesAtMs combat\<rparr>
            | None \<Rightarrow> weapon)
      in c\<lparr>c_player := Some player, c_weapon := Some weapon\<rparr>)"

definition apply_projectile :: "SimulationConfig \<Rightarrow> TimestampMs \<Rightarrow> EntityStateDTO \<Rightarrow> components \<Rightarrow> components" where
  "apply_projectile config serverTimeMs state c =
     (let projectile = (case c_projectile c of None \<Rightarrow> default_Projectile | Some p \<Rightarrow> p);
          source = (case es_combat state of Some combat \<Rightarrow> cb_weaponType combat | None \<Rightarrow> WeaponNone);
          projectile = projectile\<lparr>
            pj_ownerId := (case es_combat state of Some combat \<Rightarrow> cb_projectileOwnerId combat
                           | None \<Rightarrow> kInvalidNetworkEntity),
            pj_spawnedAtMs := serverTimeMs, pj_sourceWeapon := source,
            pj_expiresAtMs := serverTimeMs + (case FindWeaponDefinition (sc_weapons config) source of
               Some weapon \<Rightarrow> wd_projectileLifetimeMs weapon | None \<Rightarrow> 0)\<rparr>
      in c\<lparr>c_projectile := Some projectile\<rparr>)"

text \<open>The entity of a state, created and announced when it is new.\<close>

definition resolve_entity ::
    "'r entt_ops \<Rightarrow> ClientId \<Rightarrow> NetworkEntityId \<Rightarrow> 'r GameSimulation \<Rightarrow> entity \<times> bool \<times> 'r GameSimulation" where
  "resolve_entity E localClientId entityId s =
     (case EntityFor s entityId of
        Some entity \<Rightarrow> (entity, False, s)
      | None \<Rightarrow>
          let (entity, reg) = en_create E (gs_registry s);
              s = s\<lparr>gs_registry := reg\<rparr>;
              s = upd E entity (\<lambda>c. c\<lparr>c_identity := Some entityId\<rparr>) s;
              s = s\<lparr>gs_entityByNetworkId := um_put entityId entity (gs_entityByNetworkId s)\<rparr>
          in (entity, True, QueueEvent (EntityEnteredInterest entityId localClientId) s))"

definition owned_by_local :: "ClientId \<Rightarrow> EntityStateDTO \<Rightarrow> bool" where
  "owned_by_local localClientId state \<longleftrightarrow> rp_ownerClientId (es_replication state) = localClientId
     \<and> rp_kind (es_replication state) = Player"

definition movement_of_state :: "EntityStateDTO \<Rightarrow> components \<Rightarrow> components" where
  "movement_of_state state c =
     (let m = es_movement state
      in c\<lparr>c_transform := Some \<lparr>tf_x = mv_x m, tf_y = mv_y m\<rparr>,
           c_velocity := Some \<lparr>vl_vx = mv_vx m, vl_vy = mv_vy m\<rparr>,
           c_aim := Some \<lparr>am_x = mv_aimX m, am_y = mv_aimY m\<rparr>\<rparr>)"

definition apply_state ::
    "'r entt_ops \<Rightarrow> TimestampMs \<Rightarrow> ClientId \<Rightarrow> EntityStateDTO \<Rightarrow> 'r GameSimulation \<Rightarrow> 'r GameSimulation" where
  "apply_state E serverTimeMs localClientId state s =
     (let m = es_movement state; rep = es_replication state; entityId = mv_entityId m;
          (entity, isNewEntity, s) = resolve_entity E localClientId entityId s;
          s = upd E entity ensure_movement s;
          old = (case c_transform (cm E s entity) of Some t \<Rightarrow> t | None \<Rightarrow> default_Transform);
          moved = (tf_x old \<noteq> mv_x m \<or> tf_y old \<noteq> mv_y m);
          s = (if \<not> isNewEntity \<and> owned_by_local localClientId state \<and> c_predicted (cm E s entity) \<and> moved
               then QueueEvent (LocalPredictionCorrected entityId (tf_x old) (tf_y old) (mv_x m) (mv_y m)) s
               else s);
          s = upd E entity (movement_of_state state) s;
          s = upd E entity (\<lambda>c. c\<lparr>c_owner := Some (rp_ownerClientId rep)\<rparr>) s;
          s = upd E entity (\<lambda>c. c\<lparr>c_replication := Some AreaOfInterest\<rparr>) s;
          s = (if rp_kind rep = Player
               then let s = upd E entity (apply_player state) s
                    in if rp_ownerClientId rep \<noteq> 0
                       then s\<lparr>gs_playerByClient := um_put (rp_ownerClientId rep) entityId (gs_playerByClient s)\<rparr>
                       else s
               else upd E entity (apply_projectile (gs_config s) serverTimeMs state) s);
          s = (if owned_by_local localClientId state
               then upd E entity (\<lambda>c. c\<lparr>c_interpolated := False, c_predicted := True\<rparr>) s
               else upd E entity (\<lambda>c. c\<lparr>c_predicted := False, c_interpolated := True\<rparr>) s);
          s = (if sc_mode (gs_config s) = ServerAuthoritative
               then upd E entity (\<lambda>c. c\<lparr>c_authoritative := True\<rparr>) s else s)
      in if \<not> isNewEntity \<and> moved \<and> c_player (cm E s entity) \<noteq> None
         then QueueEvent (PlayerMoved entityId (tf_x old) (tf_y old) (mv_x m) (mv_y m)) s
         else s)"

text \<open>The ids that leave: not in the snapshot and not owned by the local client.\<close>

definition leaving_ids ::
    "'r entt_ops \<Rightarrow> NetworkEntityId set \<Rightarrow> ClientId \<Rightarrow> 'r GameSimulation \<Rightarrow> NetworkEntityId list" where
  "leaving_ids E seen localClientId s =
     map fst (filter (\<lambda>(entityId, entity). entityId \<notin> seen
         \<and> c_owner (cm E s entity) \<noteq> Some localClientId) (gs_entityByNetworkId s))"

definition leave_entity :: "'r entt_ops \<Rightarrow> ClientId \<Rightarrow> NetworkEntityId \<Rightarrow> 'r GameSimulation \<Rightarrow> 'r GameSimulation" where
  "leave_entity E localClientId entityId s =
     (case EntityFor s entityId of
        None \<Rightarrow> s
      | Some entity \<Rightarrow>
          let s = (case c_player (cm E s entity) of
                     Some player \<Rightarrow> s\<lparr>gs_playerByClient := um_erase (pl_clientId player) (gs_playerByClient s)\<rparr>
                   | None \<Rightarrow> s);
              s = QueueEvent (EntityLeftInterest entityId localClientId) s;
              s = s\<lparr>gs_registry := en_destroy E entity (gs_registry s)\<rparr>
          in s\<lparr>gs_entityByNetworkId := um_erase entityId (gs_entityByNetworkId s)\<rparr>)"

definition ApplySnapshot ::
    "'r entt_ops \<Rightarrow> SnapshotDTO \<Rightarrow> ClientId \<Rightarrow> 'r GameSimulation \<Rightarrow> 'r GameSimulation" where
  "ApplySnapshot E snapshot localClientId s =
     (let s = fold (apply_state E (sn_serverTimeMs snapshot) localClientId) (sn_entities snapshot) s;
          seenEntities = (mv_entityId \<circ> es_movement) ` set (sn_entities snapshot);
          s = fold (leave_entity E localClientId) (leaving_ids E seenEntities localClientId s) s
      in QueueEvent (SnapshotApplied (sn_snapshotId snapshot) (sn_baselineId snapshot)
           (sn_ackedInputSequence snapshot)) s)"

end
