(* ===== verification/Sim_Replication.thy ===== *)
theory Sim_Replication
  imports Sim_Invariants Sim_Snapshot
begin

text \<open>
  Replication: which entities a snapshot holds, and what applying it does to a client's copy. The
  client's index invariant \<open>client_index_ok\<close> is weaker than the server's, since a client's
  entities come from snapshots alone.
\<close>

section \<open>What a snapshot holds\<close>

lemma create_playerByClient:
  "alive E (s\<lparr>gs_playerByClient := m\<rparr>) e = alive E s e" "cm E (s\<lparr>gs_playerByClient := m\<rparr>) e = cm E s e"
  "EntityFor (s\<lparr>gs_playerByClient := m\<rparr>) i = EntityFor s i"
  by (simp_all add: alive_def cm_def EntityFor_def)

text \<open>An entity's place in the world, as \<open>BuildSnapshot\<close> needs it.\<close>

definition placed :: "'r entt_ops \<Rightarrow> 'r GameSimulation \<Rightarrow> NetworkEntityId \<Rightarrow> entity \<Rightarrow> TransformComponent \<Rightarrow> VelocityComponent \<Rightarrow> bool" where
  "placed E s i e t v \<longleftrightarrow> c_identity (cm E s e) = Some i \<and> c_transform (cm E s e) = Some t
     \<and> c_velocity (cm E s e) = Some v"

lemma entity_state_ids [simp]:
  "rp_entityId (es_replication (entity_state E s obs e i t v)) = i"
  "mv_entityId (es_movement (entity_state E s obs e i t v)) = i"
  by (auto simp: entity_state_def Let_def split: option.splits)

lemma set_build_entity:
  "st \<in> set (build_entity E s obs ck e) \<longleftrightarrow>
     (\<exists>i t v. placed E s i e t v \<and> entity_visible E s obs ck t e \<and> st = entity_state E s obs e i t v)"
  by (cases "c_identity (cm E s e)"; cases "c_transform (cm E s e)"; cases "c_velocity (cm E s e)")
    (auto simp: build_entity_def placed_def)

lemma set_BuildSnapshot:
  assumes E: "entt_laws E"
  shows "st \<in> set (sn_entities (BuildSnapshot E s obs sid bid)) \<longleftrightarrow>
     (\<exists>i e t v. placed E s i e t v \<and> entity_visible E s obs (observer_chunk E s obs) t e
        \<and> st = entity_state E s obs e i t v)"
proof -
  have "e \<in> set (en_view E [K_Identity, K_Transform, K_Velocity] (gs_registry s)) \<longleftrightarrow>
      (\<exists>i t v. placed E s i e t v)" for e
    by (auto simp: alive_en_view [OF E] has_all_def placed_def dest: alive_identity)
  then have "(\<exists>e\<in>set (en_view E [K_Identity, K_Transform, K_Velocity] (gs_registry s)).
      \<exists>i t v. placed E s i e t v \<and> entity_visible E s obs ck t e \<and> st = entity_state E s obs e i t v)
    \<longleftrightarrow> (\<exists>i e t v. placed E s i e t v \<and> entity_visible E s obs ck t e
        \<and> st = entity_state E s obs e i t v)" for ck
    by blast
  then show ?thesis by (simp add: BuildSnapshot_def set_build_entity)
qed

lemma build_entity_cases:
  "build_entity E s obs ck e = []
   \<or> (\<exists>i t v. placed E s i e t v \<and> build_entity E s obs ck e = [entity_state E s obs e i t v])"
proof (cases "\<exists>i t v. placed E s i e t v")
  case False
  then show ?thesis
    by (cases "c_identity (cm E s e)"; cases "c_transform (cm E s e)"; cases "c_velocity (cm E s e)")
      (simp_all add: build_entity_def placed_def)
next
  case True
  then obtain i t v where p: "placed E s i e t v" by blast
  then have "build_entity E s obs ck e =
      (if entity_visible E s obs ck t e then [entity_state E s obs e i t v] else [])"
    by (simp add: build_entity_def placed_def)
  with p show ?thesis by (metis (full_types))
qed

lemma distinct_BuildSnapshot:
  assumes E: "entt_laws E" and s: "index_ok E s"
  shows "distinct (entity_ids (BuildSnapshot E s obs sid bid))"
proof -
  let ?v = "en_view E [K_Identity, K_Transform, K_Velocity] (gs_registry s)"
  define ids where "ids = (\<lambda>e. map (rp_entityId \<circ> es_replication)
    (build_entity E s obs (observer_chunk E s obs) e))"
  have ids: "ids e = [] \<or> (\<exists>i. ids e = [i] \<and> EntityFor s i = Some e)" for e
    using build_entity_cases [of E s obs "observer_chunk E s obs" e]
  proof
    assume "\<exists>i t v. placed E s i e t v
      \<and> build_entity E s obs (observer_chunk E s obs) e = [entity_state E s obs e i t v]"
    then obtain i t v where "placed E s i e t v" and b:
      "build_entity E s obs (observer_chunk E s obs) e = [entity_state E s obs e i t v]" by blast
    then have "EntityFor s i = Some e" using index_okD(3) [OF s] by (simp add: placed_def)
    moreover have "ids e = [i]" by (simp add: ids_def b)
    ultimately show ?thesis by blast
  qed (simp add: ids_def)
  have "distinct (concat (map ids ?v))"
  proof (rule distinct_concat_map)
    show "distinct (ids e)" for e using ids [of e] by auto
    show "e = e'" if "i \<in> set (ids e)" "i \<in> set (ids e')" for e e' i
      using that ids [of e] ids [of e'] by auto
  qed (use E in simp)
  then show ?thesis by (simp add: BuildSnapshot_def map_concat o_def ids_def)
qed

text \<open>The movement the snapshot gives for an entity is the one the server answers for it.\<close>

lemma entity_state_movement:
  "placed E s i e t v \<Longrightarrow> EntityFor s i = Some e \<Longrightarrow>
     MovementForEntity E s i = Some (es_movement (entity_state E s obs e i t v))"
  by (auto simp: MovementForEntity_def placed_def entity_state_def Let_def split: option.splits)

section \<open>The client's index\<close>

definition client_index_ok :: "'r entt_ops \<Rightarrow> 'r GameSimulation \<Rightarrow> bool" where
  "client_index_ok E s \<longleftrightarrow> um_ok (gs_entityByNetworkId s)
     \<and> (\<forall>i e. EntityFor s i = Some e \<longrightarrow> c_identity (cm E s e) = Some i)"

lemma client_index_unique:
  "client_index_ok E s \<Longrightarrow> EntityFor s i = Some e \<Longrightarrow> EntityFor s j = Some e \<Longrightarrow> i = j"
  unfolding client_index_ok_def by (metis option.inject)

lemma index_ok_client: "index_ok E s \<Longrightarrow> client_index_ok E s"
  using index_okD(1,3) [of E s] unfolding client_index_ok_def by blast

lemma resolve_entity_effect:
  assumes E: "entt_laws E" and s: "client_index_ok E s"
    and r: "resolve_entity E cl i s = (e, isNew, s')"
  shows "EntityFor s' j = (if j = i then Some e else EntityFor s j)"
    and "alive E s' e" and "c_identity (cm E s' e) = Some i" and "client_index_ok E s'"
    and "e' \<noteq> e \<Longrightarrow> cm E s' e' = cm E s e'" and "isNew \<longleftrightarrow> EntityFor s i = None"
    and "j \<noteq> i \<Longrightarrow> EntityFor s j \<noteq> Some e"
proof -
  have "(\<forall>j. EntityFor s' j = (if j = i then Some e else EntityFor s j)) \<and> alive E s' e
    \<and> c_identity (cm E s' e) = Some i \<and> client_index_ok E s' \<and> (\<forall>e'. e' \<noteq> e \<longrightarrow> cm E s' e' = cm E s e')
    \<and> (isNew \<longleftrightarrow> EntityFor s i = None) \<and> (\<forall>j. j \<noteq> i \<longrightarrow> EntityFor s j \<noteq> Some e)"
  proof (cases "EntityFor s i")
    case (Some e0)
    then have "e = e0" "s' = s" "\<not> isNew" using r by (auto simp: resolve_entity_def)
    moreover have "c_identity (cm E s e0) = Some i" using s Some by (simp add: client_index_ok_def)
    moreover from this have "alive E s e0" using alive_identity by blast
    moreover have "\<forall>j. j \<noteq> i \<longrightarrow> EntityFor s j \<noteq> Some e0"
      using client_index_unique [OF s Some] by blast
    ultimately show ?thesis using Some s by simp
  next
    case None
    obtain e1 reg where c: "en_create E (gs_registry s) = (e1, reg)" by fastforce
    define s1 where "s1 = s\<lparr>gs_registry := reg\<rparr>"
    define s2 where "s2 = upd E e1 (\<lambda>c. c\<lparr>c_identity := Some i\<rparr>) s1"
    define s3 where "s3 = s2\<lparr>gs_entityByNetworkId := um_put i e1 (gs_entityByNetworkId s2)\<rparr>"
    have e: "e = e1" "isNew" and s': "s' = QueueEvent (EntityEnteredInterest i cl) s3"
      using r None by (auto simp: resolve_entity_def c Let_def s1_def s2_def s3_def)
    have dead: "\<not> alive E s e1" using en_get_create(2) [OF E c] by (simp add: alive_def)
    have a1: "alive E s1 e1" "cm E s1 e' = (if e' = e1 then no_components else cm E s e')" for e'
      using en_get_create(1) [OF E c] by (auto simp: s1_def alive_def cm_def comps_def)
    have 3: "alive E s3 e1" "cm E s3 e' = (if e' = e1 then no_components\<lparr>c_identity := Some i\<rparr> else cm E s e')" for e'
      using a1 by (simp_all add: s3_def s2_def create_fields E)
    have ef: "EntityFor s3 j = (if j = i then Some e1 else EntityFor s j)" for j
      by (simp add: s3_def s2_def s1_def EntityFor_def)
    have no: "EntityFor s j \<noteq> Some e1" for j
    proof
      assume "EntityFor s j = Some e1"
      then have "c_identity (cm E s e1) = Some j" using s by (simp add: client_index_ok_def)
      then show False by (simp add: not_alive_cm [OF dead] no_components_def)
    qed
    have "client_index_ok E s3"
      using s no by (auto simp: client_index_ok_def ef 3) (simp_all add: s3_def s2_def s1_def)
    then have "client_index_ok E s'"
      by (simp add: s' client_index_ok_def)
    then show ?thesis using None no by (simp add: e s' ef 3)
  qed
  then show "EntityFor s' j = (if j = i then Some e else EntityFor s j)"
    "alive E s' e" "c_identity (cm E s' e) = Some i" "client_index_ok E s'"
    "e' \<noteq> e \<Longrightarrow> cm E s' e' = cm E s e'" "isNew \<longleftrightarrow> EntityFor s i = None"
    "j \<noteq> i \<Longrightarrow> EntityFor s j \<noteq> Some e" by auto
qed

section \<open>Applying one state\<close>

text \<open>What the client holds for a state once it is applied.\<close>

definition holds_state :: "EntityStateDTO \<Rightarrow> components \<Rightarrow> bool" where
  "holds_state st c \<longleftrightarrow> c_identity c = Some (mv_entityId (es_movement st))
     \<and> c_transform c = Some \<lparr>tf_x = mv_x (es_movement st), tf_y = mv_y (es_movement st)\<rparr>
     \<and> c_velocity c = Some \<lparr>vl_vx = mv_vx (es_movement st), vl_vy = mv_vy (es_movement st)\<rparr>
     \<and> c_aim c = Some \<lparr>am_x = mv_aimX (es_movement st), am_y = mv_aimY (es_movement st)\<rparr>
     \<and> c_owner c = Some (rp_ownerClientId (es_replication st))"

definition same_index :: "'r entt_ops \<Rightarrow> entity \<Rightarrow> 'r GameSimulation \<Rightarrow> 'r GameSimulation \<Rightarrow> bool" where
  "same_index E e s s' \<longleftrightarrow> gs_entityByNetworkId s' = gs_entityByNetworkId s
     \<and> (\<forall>e'. alive E s' e' = alive E s e') \<and> (\<forall>e'. e' \<noteq> e \<longrightarrow> cm E s' e' = cm E s e')"

lemma same_index_refl [simp]: "same_index E e s s"
  by (simp add: same_index_def)

lemma same_index_QueueEvent [simp]: "same_index E e s (QueueEvent ev s') = same_index E e s s'"
  by (simp add: same_index_def)

lemma same_index_upd [simp]: "entt_laws E \<Longrightarrow> same_index E e s (upd E e f s') = same_index E e s s'"
  by (simp add: same_index_def)

lemma same_index_players [simp]:
  "same_index E e s (s'\<lparr>gs_playerByClient := m\<rparr>) = same_index E e s s'"
  by (simp add: same_index_def create_playerByClient)

lemma apply_player_simps [simp]:
  "c_identity (apply_player st c) = c_identity c" "c_transform (apply_player st c) = c_transform c"
  "c_velocity (apply_player st c) = c_velocity c" "c_aim (apply_player st c) = c_aim c"
  "c_owner (apply_player st c) = c_owner c"
  by (simp_all add: apply_player_def Let_def)

lemma apply_projectile_simps [simp]:
  "c_identity (apply_projectile cfg ms st c) = c_identity c"
  "c_transform (apply_projectile cfg ms st c) = c_transform c"
  "c_velocity (apply_projectile cfg ms st c) = c_velocity c" "c_aim (apply_projectile cfg ms st c) = c_aim c"
  "c_owner (apply_projectile cfg ms st c) = c_owner c"
  by (simp_all add: apply_projectile_def Let_def)

lemma apply_state_effect:
  assumes E: "entt_laws E" and s: "client_index_ok E s"
    and r: "resolve_entity E cl (mv_entityId (es_movement st)) s = (e, isNew, s1)"
  shows "same_index E e s1 (apply_state E ms cl st s)"
    and "holds_state st (cm E (apply_state E ms cl st s) e)"
proof -
  note res = resolve_entity_effect [OF E s r]
  let ?m = "es_movement st" and ?rep = "es_replication st"
  let ?i = "mv_entityId ?m"
  define s2 where "s2 = upd E e ensure_movement s1"
  define old where "old = (case c_transform (cm E s2 e) of Some t \<Rightarrow> t | None \<Rightarrow> default_Transform)"
  define moved where "moved = (tf_x old \<noteq> mv_x ?m \<or> tf_y old \<noteq> mv_y ?m)"
  define s3 where "s3 = (if \<not> isNew \<and> owned_by_local cl st \<and> c_predicted (cm E s2 e) \<and> moved
    then QueueEvent (LocalPredictionCorrected ?i (tf_x old) (tf_y old) (mv_x ?m) (mv_y ?m)) s2 else s2)"
  define s4 where "s4 = upd E e (movement_of_state st) s3"
  define s5 where "s5 = upd E e (\<lambda>c. c\<lparr>c_owner := Some (rp_ownerClientId ?rep)\<rparr>) s4"
  define s6 where "s6 = upd E e (\<lambda>c. c\<lparr>c_replication := Some AreaOfInterest\<rparr>) s5"
  define s7 where "s7 = (if rp_kind ?rep = Player
    then let s = upd E e (apply_player st) s6
         in if rp_ownerClientId ?rep \<noteq> 0
            then s\<lparr>gs_playerByClient := um_put (rp_ownerClientId ?rep) ?i (gs_playerByClient s)\<rparr> else s
    else upd E e (apply_projectile (gs_config s6) ms st) s6)"
  define s8 where "s8 = (if owned_by_local cl st
    then upd E e (\<lambda>c. c\<lparr>c_interpolated := False, c_predicted := True\<rparr>) s7
    else upd E e (\<lambda>c. c\<lparr>c_predicted := False, c_interpolated := True\<rparr>) s7)"
  define s9 where "s9 = (if sc_mode (gs_config s8) = ServerAuthoritative
    then upd E e (\<lambda>c. c\<lparr>c_authoritative := True\<rparr>) s8 else s8)"
  have eq: "apply_state E ms cl st s = (if \<not> isNew \<and> moved \<and> c_player (cm E s9 e) \<noteq> None
      then QueueEvent (PlayerMoved ?i (tf_x old) (tf_y old) (mv_x ?m) (mv_y ?m)) s9 else s9)"
    unfolding apply_state_def r Let_def prod.case
    unfolding s2_def [symmetric] old_def [symmetric] moved_def [symmetric]
    unfolding s3_def [symmetric] s4_def [symmetric] s5_def [symmetric] s6_def [symmetric]
    unfolding s7_def [unfolded Let_def, symmetric] s8_def [symmetric] s9_def [symmetric] ..
  have a: "alive E s2 e" "alive E s3 e" "alive E s4 e" "alive E s5 e" "alive E s6 e" "alive E s7 e" "alive E s8 e"
    using res(2) by (simp_all add: s2_def s3_def s4_def s5_def s6_def s7_def s8_def E Let_def create_playerByClient)
  have "same_index E e s1 s2" by (simp add: s2_def E)
  then have "same_index E e s1 s3" by (simp add: s3_def)
  then have "same_index E e s1 s6" by (simp add: s6_def s5_def s4_def E)
  then have "same_index E e s1 s7" by (simp add: s7_def Let_def E)
  then have "same_index E e s1 s9" by (simp add: s9_def s8_def E)
  then show "same_index E e s1 (apply_state E ms cl st s)" by (simp add: eq)
  have id3: "c_identity (cm E s3 e) = Some ?i"
    using res(2,3) by (simp add: s3_def s2_def E ensure_movement_def)
  have "holds_state st (cm E s6 e)"
    using id3 a by (simp add: s6_def s5_def s4_def E holds_state_def movement_of_state_def Let_def)
  then have "holds_state st (cm E s7 e)"
    using a by (simp add: s7_def Let_def E holds_state_def create_playerByClient)
  then have "holds_state st (cm E s8 e)" using a by (simp add: s8_def E holds_state_def)
  then have "holds_state st (cm E s9 e)" using a by (simp add: s9_def E holds_state_def)
  then show "holds_state st (cm E (apply_state E ms cl st s) e)" by (simp add: eq)
qed

text \<open>After the loop: every state is held, and nothing else is new.\<close>

definition seen_id :: "EntityStateDTO \<Rightarrow> NetworkEntityId" where
  "seen_id st = mv_entityId (es_movement st)"

definition state_held :: "'r entt_ops \<Rightarrow> 'r GameSimulation \<Rightarrow> EntityStateDTO \<Rightarrow> bool" where
  "state_held E s st \<longleftrightarrow> (\<exists>e. EntityFor s (seen_id st) = Some e \<and> holds_state st (cm E s e))"

lemma apply_state_step:
  fixes E s ms cl st
  assumes E: "entt_laws E" and s: "client_index_ok E s"
  defines "s' \<equiv> apply_state E ms cl st s"
  shows "client_index_ok E s'" and "state_held E s' st"
    and "EntityFor s' j \<noteq> None \<longleftrightarrow> j = seen_id st \<or> EntityFor s j \<noteq> None"
    and "seen_id st' \<noteq> seen_id st \<Longrightarrow> state_held E s st' \<Longrightarrow> state_held E s' st'"
    and "j \<noteq> seen_id st \<Longrightarrow> EntityFor s' j = EntityFor s j"
    and "j \<noteq> seen_id st \<Longrightarrow> EntityFor s j = Some e' \<Longrightarrow> cm E s' e' = cm E s e'"
proof -
  obtain e isNew s1 where r: "resolve_entity E cl (mv_entityId (es_movement st)) s = (e, isNew, s1)"
    by (metis prod_cases3)
  note res = resolve_entity_effect [OF E s r]
  note ap = apply_state_effect [OF E s r, of ms, folded s'_def]
  have ef: "EntityFor s' j = (if j = seen_id st then Some e else EntityFor s j)" for j
    using ap(1) res(1) [of j] by (simp add: same_index_def EntityFor_def seen_id_def)
  have cm: "e' \<noteq> e \<Longrightarrow> cm E s' e' = cm E s e'" for e'
    using ap(1) res(5) by (simp add: same_index_def)
  have ne: "j \<noteq> seen_id st \<Longrightarrow> EntityFor s j \<noteq> Some e" for j using res(7) by (simp add: seen_id_def)
  have um: "um_ok (gs_entityByNetworkId s')"
    using ap(1) res(4) by (simp add: same_index_def client_index_ok_def)
  show held: "state_held E s' st" using ap(2) ef by (simp add: state_held_def)
  show "client_index_ok E s'"
    unfolding client_index_ok_def
  proof (intro conjI allI impI)
    fix j e' assume j: "EntityFor s' j = Some e'"
    show "c_identity (cm E s' e') = Some j"
    proof (cases "j = seen_id st")
      case True
      then show ?thesis using j ap(2) by (simp add: ef holds_state_def seen_id_def)
    next
      case False
      then have "EntityFor s j = Some e'" using j by (simp add: ef)
      moreover from this have "e' \<noteq> e" using ne [OF False] by auto
      ultimately show ?thesis using s cm by (simp add: client_index_ok_def)
    qed
  qed (rule um)
  show "EntityFor s' j \<noteq> None \<longleftrightarrow> j = seen_id st \<or> EntityFor s j \<noteq> None" by (simp add: ef)
  show "j \<noteq> seen_id st \<Longrightarrow> EntityFor s' j = EntityFor s j" by (simp add: ef)
  show keep: "j \<noteq> seen_id st \<Longrightarrow> EntityFor s j = Some e' \<Longrightarrow> cm E s' e' = cm E s e'" for j e'
    using ne cm by metis
  show "seen_id st' \<noteq> seen_id st \<Longrightarrow> state_held E s st' \<Longrightarrow> state_held E s' st'"
    using keep by (auto simp: state_held_def ef)
qed

lemma apply_states:
  fixes E s ms cl sts
  assumes E: "entt_laws E" and "client_index_ok E s" and "distinct (map seen_id sts)"
  defines "s' \<equiv> fold (apply_state E ms cl) sts s"
  shows "client_index_ok E s' \<and> (\<forall>st\<in>set sts. state_held E s' st)
     \<and> (\<forall>j. EntityFor s' j \<noteq> None \<longleftrightarrow> j \<in> seen_id ` set sts \<or> EntityFor s j \<noteq> None)
     \<and> (\<forall>st. seen_id st \<notin> seen_id ` set sts \<longrightarrow> state_held E s st \<longrightarrow> state_held E s' st)
     \<and> (\<forall>j e. j \<notin> seen_id ` set sts \<longrightarrow> EntityFor s j = Some e \<longrightarrow>
          EntityFor s' j = Some e \<and> cm E s' e = cm E s e)"
  using assms(2,3) unfolding s'_def
proof (induction sts arbitrary: s)
  case Nil
  then show ?case by simp
next
  case (Cons st sts)
  let ?s1 = "apply_state E ms cl st s"
  note step = apply_state_step [OF E Cons.prems(1), where ms = ms and cl = cl and st = st]
  from Cons.prems have "distinct (map seen_id sts)" "seen_id st \<notin> seen_id ` set sts" by auto
  with Cons.IH [OF step(1)] step show ?case by auto
qed

section \<open>Leaving\<close>

lemma leave_entity_effect:
  assumes E: "entt_laws E" and s: "client_index_ok E s"
  shows "client_index_ok E (leave_entity E cl i s)"
    and "EntityFor (leave_entity E cl i s) j = (if j = i then None else EntityFor s j)"
    and "j \<noteq> i \<Longrightarrow> EntityFor s j = Some e \<Longrightarrow> cm E (leave_entity E cl i s) e = cm E s e"
proof -
  have "client_index_ok E (leave_entity E cl i s)
      \<and> (\<forall>j. EntityFor (leave_entity E cl i s) j = (if j = i then None else EntityFor s j))
      \<and> (\<forall>j e. j \<noteq> i \<longrightarrow> EntityFor s j = Some e \<longrightarrow> cm E (leave_entity E cl i s) e = cm E s e)"
  proof (cases "EntityFor s i")
    case None
    then show ?thesis using s by (auto simp: leave_entity_def)
  next
    case (Some e0)
    let ?s = "leave_entity E cl i s"
    have reg: "gs_registry ?s = en_destroy E e0 (gs_registry s)"
      and ebn: "gs_entityByNetworkId ?s = um_erase i (gs_entityByNetworkId s)"
      using Some by (auto simp: leave_entity_def Let_def split: option.splits)
    have cm: "e \<noteq> e0 \<Longrightarrow> cm E ?s e = cm E s e" for e
      by (simp add: cm_def comps_def reg E)
    have ef: "EntityFor ?s j = (if j = i then None else EntityFor s j)" for j
      by (simp add: EntityFor_def ebn)
    have ne: "j \<noteq> i \<Longrightarrow> EntityFor s j = Some e \<Longrightarrow> e \<noteq> e0" for j e
      using client_index_unique [OF s Some] by blast
    have "client_index_ok E ?s"
      using s ne cm by (auto simp: client_index_ok_def ef ebn split: if_splits)
    then show ?thesis using ef ne cm by auto
  qed
  then show "client_index_ok E (leave_entity E cl i s)"
    "EntityFor (leave_entity E cl i s) j = (if j = i then None else EntityFor s j)"
    "j \<noteq> i \<Longrightarrow> EntityFor s j = Some e \<Longrightarrow> cm E (leave_entity E cl i s) e = cm E s e" by auto
qed

lemma leave_all:
  fixes E s cl js
  assumes E: "entt_laws E" and "client_index_ok E s"
  defines "s' \<equiv> fold (leave_entity E cl) js s"
  shows "client_index_ok E s' \<and> (\<forall>j. EntityFor s' j = (if j \<in> set js then None else EntityFor s j))
     \<and> (\<forall>j e. j \<notin> set js \<longrightarrow> EntityFor s j = Some e \<longrightarrow> cm E s' e = cm E s e)"
  using assms(2) unfolding s'_def
proof (induction js arbitrary: s)
  case (Cons i js)
  note l = leave_entity_effect [OF E Cons.prems, where cl = cl and i = i]
  from Cons.IH [OF l(1)] l(2,3) show ?case by auto
qed simp

section \<open>Applying a snapshot\<close>

lemma set_leaving_ids:
  assumes "client_index_ok E s"
  shows "j \<in> set (leaving_ids E seen cl s) \<longleftrightarrow>
     j \<notin> seen \<and> (\<exists>e. EntityFor s j = Some e \<and> c_owner (cm E s e) \<noteq> Some cl)"
proof -
  have "um_ok (gs_entityByNetworkId s)" using assms by (simp add: client_index_ok_def)
  note um_ok_find_iff [OF this]
  then show ?thesis by (force simp: leaving_ids_def EntityFor_def)
qed

text \<open>
  After a snapshot the client holds each of its states, and knows exactly the entities of the
  snapshot and, of the others, those it owns.
\<close>

lemma ApplySnapshot_effect:
  fixes E s cl sn
  assumes E: "entt_laws E" and s: "client_index_ok E s" and d: "distinct (map seen_id (sn_entities sn))"
  defines "s' \<equiv> ApplySnapshot E sn cl s"
  shows "client_index_ok E s'"
    and "st \<in> set (sn_entities sn) \<Longrightarrow> state_held E s' st"
    and "EntityFor s' j \<noteq> None \<longleftrightarrow> j \<in> seen_id ` set (sn_entities sn)
           \<or> (\<exists>e. EntityFor s j = Some e \<and> c_owner (cm E s e) = Some cl)"
    and "last (gs_events s') = SnapshotApplied (sn_snapshotId sn) (sn_baselineId sn) (sn_ackedInputSequence sn)"
proof -
  let ?sts = "sn_entities sn"
  define s1 where "s1 = fold (apply_state E (sn_serverTimeMs sn) cl) ?sts s"
  define L where "L = leaving_ids E (seen_id ` set ?sts) cl s1"
  define s2 where "s2 = fold (leave_entity E cl) L s1"
  have eq: "s' = QueueEvent (SnapshotApplied (sn_snapshotId sn) (sn_baselineId sn) (sn_ackedInputSequence sn)) s2"
    by (simp add: s'_def ApplySnapshot_def Let_def s1_def s2_def L_def seen_id_def [abs_def] o_def)
  note a = apply_states [OF E s d, where ms = "sn_serverTimeMs sn" and cl = cl, folded s1_def]
  then have s1: "client_index_ok E s1" by blast
  note l = leave_all [OF E s1, where cl = cl and js = L, folded s2_def]
  note L = set_leaving_ids [OF s1, where seen = "seen_id ` set ?sts" and cl = cl, folded L_def]
  have "client_index_ok E s2" using l by blast
  then show "client_index_ok E s'" by (simp add: eq client_index_ok_def)
  show "state_held E s' st" if "st \<in> set ?sts"
  proof -
    have "seen_id st \<notin> set L" using that by (simp add: L)
    moreover have "state_held E s1 st" using a that by blast
    ultimately show ?thesis using l by (auto simp: state_held_def eq)
  qed
  show "last (gs_events s') = SnapshotApplied (sn_snapshotId sn) (sn_baselineId sn) (sn_ackedInputSequence sn)"
    by (simp add: eq)
  have same: "EntityFor s1 j = Some e \<longleftrightarrow> EntityFor s j = Some e" "EntityFor s j = Some e \<Longrightarrow> cm E s1 e = cm E s e"
    if "j \<notin> seen_id ` set ?sts" for e
  proof -
    have kn: "EntityFor s1 j \<noteq> None \<longleftrightarrow> EntityFor s j \<noteq> None" using a that by blast
    have kp: "EntityFor s j = Some e \<Longrightarrow> EntityFor s1 j = Some e \<and> cm E s1 e = cm E s e" for e
      using a that by blast
    show "EntityFor s1 j = Some e \<longleftrightarrow> EntityFor s j = Some e"
      using kn kp by (cases "EntityFor s j") auto
    show "EntityFor s j = Some e \<Longrightarrow> cm E s1 e = cm E s e" using kp by blast
  qed
  show "EntityFor s' j \<noteq> None \<longleftrightarrow> j \<in> seen_id ` set ?sts
           \<or> (\<exists>e. EntityFor s j = Some e \<and> c_owner (cm E s e) = Some cl)"
  proof (cases "j \<in> seen_id ` set ?sts")
    case True
    then have "j \<notin> set L" "EntityFor s1 j \<noteq> None" using a by (simp add: L, blast)
    then show ?thesis using True l by (simp add: eq)
  next
    case False
    have "EntityFor s' j \<noteq> None \<longleftrightarrow> j \<notin> set L \<and> EntityFor s1 j \<noteq> None"
      using l by (simp add: eq)
    also have "\<dots> \<longleftrightarrow> (\<exists>e. EntityFor s j = Some e \<and> c_owner (cm E s e) = Some cl)"
      using False same [OF False] by (auto simp: L)
    finally show ?thesis using False by simp
  qed
qed

lemma state_held_movement:
  "state_held E s st \<Longrightarrow> MovementForEntity E s (seen_id st) = Some (es_movement st)"
  by (auto simp: state_held_def MovementForEntity_def holds_state_def seen_id_def)

end
