(* ===== verification/Game_Properties.thy ===== *)
theory Game_Properties
  imports Message_Codecs Snapshot_Store Snapshot_Delta Replication_Planner Interest Network_Protocol
    Time_Sync Sim_Rules Sim_Replication
begin

text \<open>
  The properties of the game logic. Each rests on the lemmas of the theory of its component; a
  property with hypotheses is followed by a witness at a concrete input.
\<close>

section \<open>Messages\<close>

text \<open>C21. A byte string decodes to a snapshot exactly when it is that snapshot's encoding (for
  snapshots whose entity count fits the 32-bit count field). So decoding inverts encoding, and no
  truncated, extended or differently encoded message is ever accepted.\<close>

theorem snapshot_decodes_iff:
  "DeserializeSnapshot bs = Some s \<longleftrightarrow> length (sn_entities s) < 2 ^ 32 \<and> bs = SerializeSnapshot s"
  using snapshot_msg.dec_iff [of bs s] by simp

text \<open>C39. A byte string decodes to a protocol message (login, input, either acknowledgement, either time-sync
  message, the movement state, or a reliable network event of any of the ten payload kinds) exactly when it is the
  encoding of that message.\<close>

theorem messages_decode_iff:
  "(DeserializeLoginCommand bs = Some login \<longleftrightarrow> bs = SerializeLoginCommand login)
   \<and> (DeserializeClientInputPacket bs = Some input \<longleftrightarrow> bs = SerializeClientInputPacket input)
   \<and> (DeserializeSnapshotAck bs = Some sack \<longleftrightarrow> bs = SerializeSnapshotAck sack)
   \<and> (DeserializeNetworkEventAck bs = Some eack \<longleftrightarrow> bs = SerializeNetworkEventAck eack)
   \<and> (DeserializeTimeSyncRequest bs = Some req \<longleftrightarrow> bs = SerializeTimeSyncRequest req)
   \<and> (DeserializeTimeSyncResponse bs = Some resp \<longleftrightarrow> bs = SerializeTimeSyncResponse resp)
   \<and> (DeserializeMovementState bs = Some mv \<longleftrightarrow> bs = SerializeMovementState mv)
   \<and> (DeserializeNetworkEvent bs = Some ev \<longleftrightarrow> bs = SerializeNetworkEvent ev)"
  using login_msg.dec_iff input_msg.dec_iff snapshot_ack_msg.dec_iff event_ack_msg.dec_iff
    sync_request_msg.dec_iff sync_response_msg.dec_iff movement_msg.dec_iff event_msg.dec_iff by simp

text \<open>C40. No snapshot message survives a cut: every proper prefix of an encoding is rejected, and so
  is every extension of it.\<close>

theorem snapshot_cut_rejected:
  assumes "length (sn_entities s) < 2 ^ 32" and "n < length (SerializeSnapshot s)" and "extra \<noteq> []"
  shows "DeserializeSnapshot (take n (SerializeSnapshot s)) = None
     \<and> DeserializeSnapshot (SerializeSnapshot s @ extra) = None"
  using snapshot_msg.truncated_rejected snapshot_msg.trailing_rejected assms by simp

definition sample_snapshot :: SnapshotDTO where
  "sample_snapshot = \<lparr>sn_snapshotId = 7, sn_baselineId = 3, sn_deliveryKind = Full, sn_serverTick = 9,
     sn_serverTimeMs = 144, sn_ackedInputSequence = 2, sn_entities =
       [\<lparr>es_movement = \<lparr>mv_entityId = 1, mv_x = 5, mv_y = -6, mv_vx = 0, mv_vy = 0, mv_aimX = 1000, mv_aimY = 0\<rparr>,
         es_combat = Some default_CombatStateDTO,
         es_replication = \<lparr>rp_entityId = 1, rp_ownerClientId = 42, rp_kind = Player, rp_priority = High\<rparr>\<rparr>]\<rparr>"

theorem snapshot_cut_rejected_witness:
  "DeserializeSnapshot (take 10 (SerializeSnapshot sample_snapshot)) = None
   \<and> DeserializeSnapshot (SerializeSnapshot sample_snapshot @ [0]) = None"
proof (rule snapshot_cut_rejected)
  show "length (sn_entities sample_snapshot) < 2 ^ 32" by (simp add: sample_snapshot_def)
  show "10 < length (SerializeSnapshot sample_snapshot)"
    by (simp add: sample_snapshot_def SerializeSnapshot_def Let_def writer_defs WriteEntity_def
        WriteMovement_def WriteCombat_def WriteReplication_def)
qed simp

text \<open>A domain event has a network form exactly when it is not one of the three local kinds, and
  the network form converts back to the same event.\<close>

theorem network_event_conversion:
  "(ToNetworkEventDTO i t ms e = Some ev \<longleftrightarrow>
     ToDomainEvent ev = Some e \<and> ne_eventId ev = i \<and> ne_serverTick ev = t \<and> ne_serverTimeMs ev = ms)
   \<and> (ToNetworkEventDTO i t ms e = None \<longleftrightarrow> local_only e)"
  using of_to_payload [of e "ne_payload ev"] to_payload_None [of e]
  by (auto simp: ToNetworkEventDTO_Some ToDomainEvent_def)
    (auto simp: ToNetworkEventDTO_def split: option.splits)

text \<open>An envelope passes validation exactly when its version is the protocol's, its payload is
  within the limit and its channel is the one its message class belongs to; and exactly the classes
  that tolerate loss travel on an unreliable channel.\<close>

theorem envelope_validation:
  "(Ok (ValidateEnvelope e) \<longleftrightarrow> ev_protocolVersion e = kProtocolVersion
      \<and> length (ev_payload e) \<le> kMaxNetworkPayloadBytes
      \<and> ev_channel e = ExpectedChannelFor (ev_messageClass e))
   \<and> (cp_reliability (PolicyFor (ExpectedChannelFor m)) = Reliable \<longleftrightarrow>
      m \<in> {Mc_CombatEvent, Mc_LoginRequest, Mc_SpawnAccepted, Mc_InterestEvent, Mc_NetworkEventAck, Mc_ChatUi})"
  using valid_envelope_iff [of e] reliable_classes [of m] by (cases m) (auto simp: loss_tolerant_def)

section \<open>The map\<close>

text \<open>Every position, on the map or off it, falls into a chunk of the grid, and around that
  chunk the list of chunks of interest is, without repetitions, the set of grid chunks that pass
  the area-of-interest test the snapshots use.\<close>

theorem area_of_interest_agrees:
  assumes "map_ok config" and "sint (maxChunkX config) \<le> 2 ^ 30" and "sint (maxChunkY config) \<le> 2 ^ 30"
  shows "chunk_on_map config (ChunkForPosition config x y)
     \<and> set (ChunksInAreaOfInterest config (ChunkForPosition config x y)) =
         {c. chunk_on_map config c \<and> IsChunkInAreaOfInterest config (ChunkForPosition config x y) c}
     \<and> distinct (ChunksInAreaOfInterest config (ChunkForPosition config x y))"
  using ChunkForPosition_on_map [OF assms(1), of x y] assms
  by (auto simp: ChunksInAreaOfInterest_iff distinct_ChunksInAreaOfInterest)

theorem area_of_interest_agrees_witness:
  "chunk_on_map default_MapConfig (ChunkForPosition default_MapConfig (-5) 99999999)
   \<and> set (ChunksInAreaOfInterest default_MapConfig (ChunkForPosition default_MapConfig (-5) 99999999)) =
       {c. chunk_on_map default_MapConfig c
          \<and> IsChunkInAreaOfInterest default_MapConfig (ChunkForPosition default_MapConfig (-5) 99999999) c}
   \<and> distinct (ChunksInAreaOfInterest default_MapConfig (ChunkForPosition default_MapConfig (-5) 99999999))"
  by (rule area_of_interest_agrees)
    (simp_all add: map_ok_default sint_maxChunk, simp_all add: default_MapConfig_def)

section \<open>Planning and deltas\<close>

text \<open>C35. A prioritizing planner sends a subset of the snapshot's entities in its order (the
  observer's own first when so configured, then by priority, then by id): together with the dropped
  ones they are exactly the input, nothing is dropped without a budget, the budget is used up, and
  no dropped entity would have come before a sent one. The statistics add up.\<close>

theorem planner_sends_best:
  assumes "pc_prioritizeHigherFirst config"
  shows "let es = sn_entities (pl_snapshot (Plan config s obs)); st = pl_stats (Plan config s obs)
     in (\<exists>dropped. mset (sn_entities s) = mset es + mset dropped
           \<and> (pc_maxEntitiesPerSnapshot config = 0 \<longrightarrow> dropped = [])
           \<and> (pc_maxEntitiesPerSnapshot config \<noteq> 0 \<longrightarrow>
                length es = min (pc_maxEntitiesPerSnapshot config) (length (sn_entities s)))
           \<and> sorted (map (planner_key config obs) es)
           \<and> (\<forall>e\<in>set es. \<forall>d\<in>set dropped. planner_key config obs e \<le> planner_key config obs d)
           \<and> ps_droppedEntityCount st = length dropped)
        \<and> ps_outputEntityCount st = length es
        \<and> ps_highPriorityCount st + ps_mediumPriorityCount st + ps_lowPriorityCount st = length es"
proof -
  define es where "es = sn_entities (pl_snapshot (Plan config s obs))"
  obtain dropped where d: "mset (sn_entities s) = mset es + mset dropped"
    "pc_maxEntitiesPerSnapshot config = 0 \<longrightarrow> dropped = []"
    "pc_maxEntitiesPerSnapshot config \<noteq> 0 \<longrightarrow>
       length es = min (pc_maxEntitiesPerSnapshot config) (length (sn_entities s))"
    "sorted (map (planner_key config obs) es)"
    "\<forall>e\<in>set es. \<forall>d\<in>set dropped. \<not> planner_less config obs d e"
    using Plan_split [OF assms, of s obs, folded es_def] by (elim exE conjE) (rule that; assumption)
  have "length (sn_entities s) = length es + length dropped"
    using arg_cong [OF d(1), of size] by simp
  then have "ps_droppedEntityCount (pl_stats (Plan config s obs)) = length dropped"
    using Plan_stats [of config s obs] by (simp add: es_def)
  moreover have "\<forall>e\<in>set es. \<forall>d\<in>set dropped. planner_key config obs e \<le> planner_key config obs d"
    using d(5) by (simp add: planner_less_key not_less)
  ultimately show ?thesis
    using d Plan_stats [of config s obs] unfolding es_def [symmetric] Let_def by auto
qed

theorem planner_sends_best_witness:
  "ps_outputEntityCount (pl_stats (Plan default_PlannerConfig sample_snapshot 42)) = 1"
proof -
  have "pc_prioritizeHigherFirst default_PlannerConfig" by (simp add: default_PlannerConfig_def)
  from planner_sends_best [OF this, of sample_snapshot 42] show ?thesis
    by (auto simp: Let_def default_PlannerConfig_def sample_snapshot_def Plan_def)
qed

text \<open>The entities that compare equal under the planner's order keep their order: the plan is
  deterministic, whatever the order of equal entities.\<close>

theorem planner_stable:
  assumes "pc_prioritizeHigherFirst config" and "pc_maxEntitiesPerSnapshot config = 0"
  shows "filter (\<lambda>e. planner_key config obs e = k) (sn_entities (pl_snapshot (Plan config s obs))) =
     filter (\<lambda>e. planner_key config obs e = k) (sn_entities s)"
  unfolding Plan_entities using assms
  by (simp add: Let_def stable_sort_stable [where P = "\<lambda>e. planner_key config obs e = k"] planner_less_key)

theorem planner_stable_witness:
  "filter (\<lambda>e. planner_key default_PlannerConfig 42 e = 1) (sn_entities (pl_snapshot
     (Plan default_PlannerConfig sample_snapshot 42))) =
   filter (\<lambda>e. planner_key default_PlannerConfig 42 e = 1) (sn_entities sample_snapshot)"
  by (rule planner_stable) (simp_all add: default_PlannerConfig_def)

text \<open>C34. A delta plan is sound and complete: from the baseline and the states of the added and
  changed entities alone, in the plan's order, exactly the current entity list is rebuilt.\<close>

theorem delta_plan_rebuilds:
  assumes "distinct (entity_ids current)"
  shows "apply_plan (PlanSnapshotDelta current baseline) baseline
           (sent_states (PlanSnapshotDelta current baseline) current) = map Some (sn_entities current)"
  using assms by (rule apply_plan_PlanSnapshotDelta)

theorem delta_plan_rebuilds_witness:
  "apply_plan (PlanSnapshotDelta sample_snapshot sample_snapshot) sample_snapshot
     (sent_states (PlanSnapshotDelta sample_snapshot sample_snapshot) sample_snapshot)
   = map Some (sn_entities sample_snapshot)"
  by (rule delta_plan_rebuilds) (simp add: sample_snapshot_def)

text \<open>The four counters of a delta plan count its entries: the added, changed and unchanged ones
  are the current entities, and the removed ones the baseline entities that are gone.\<close>

theorem delta_plan_counts:
  "let plan = PlanSnapshotDelta current baseline
   in dp_addedCount plan + dp_changedCount plan + dp_unchangedCount plan = length (sn_entities current)
      \<and> dp_removedCount plan =
          length (filter (\<lambda>e. entity_id e \<notin> set (entity_ids current)) (sn_entities baseline))
      \<and> length (dp_entities plan) = length (sn_entities current) + dp_removedCount plan"
proof -
  let ?d = "\<lambda>e. \<lparr>sd_entityId = entity_id e, sd_kind = delta_kind baseline e\<rparr>"
  let ?gone = "filter (\<lambda>e. entity_id e \<notin> set (entity_ids current)) (sn_entities baseline)"
  have "length (filter (\<lambda>e. delta_kind baseline e = Added) es)
      + length (filter (\<lambda>e. delta_kind baseline e = Changed) es)
      + length (filter (\<lambda>e. delta_kind baseline e = Unchanged) es) = length es" for es
  proof (induction es)
    case (Cons e es)
    then show ?case using delta_kind_not_Removed [of baseline e] by (cases "delta_kind baseline e") simp_all
  qed simp
  then show ?thesis
    using PlanSnapshotDelta_counts [of current baseline]
    by (simp add: Let_def counts_ok_def count_kind_def PlanSnapshotDelta_entities filter_map o_def filter_False)
qed

section \<open>Stores\<close>

text \<open>C33. Whatever is stored for a client, its cache holds the last \<open>maxBaselinesPerClient\<close>
  snapshots, so it is bounded, and a baseline is granted exactly when it is one of those and not the
  reserved id 0; the decision is a delta exactly when it names the requested baseline. Storing for
  another client changes nothing.\<close>

theorem baseline_cache_bounded:
  "let cache = fold (Store c) ss (new_BaselineCache config);
       kept = drop (length ss - maxBaselinesPerClient config) ss;
       d = Decide cache c i
   in BaselineCount cache c = min (maxBaselinesPerClient config) (length ss)
      \<and> (bd_baselineAvailable d \<longleftrightarrow> i \<noteq> 0 \<and> i \<in> sn_snapshotId ` set kept)
      \<and> (bd_deliveryKind d = DeltaEligible \<longleftrightarrow> bd_baselineAvailable d)
      \<and> bd_effectiveBaselineId d = (if bd_baselineAvailable d then i else 0)
      \<and> client_baselines c' (Store c s cache) =
          (if c' = c then pop_front_to (maxBaselinesPerClient config) (kept @ [s])
           else client_baselines c' cache)"
proof -
  define cache where "cache = fold (Store c) ss (new_BaselineCache config)"
  have "client_baselines c (new_BaselineCache config) = []"
    "bc_config (new_BaselineCache config) = config"
    by (simp_all add: client_baselines_def new_BaselineCache_def)
  then have "client_baselines c cache = pop_front_to (maxBaselinesPerClient config) ss"
    and limit: "maxBaselinesPerClient (bc_config cache) = maxBaselinesPerClient config"
    using baselines.entries_fold [of c "new_BaselineCache config" ss]
      baselines.limit_fold [of c ss "new_BaselineCache config"] by (simp_all add: cache_def)
  then have kept: "client_baselines c cache = drop (length ss - maxBaselinesPerClient config) ss"
    by (simp add: pop_front_to_drop)
  show ?thesis
    unfolding Let_def cache_def [symmetric]
    using Decide_available [of cache c i] Decide_consistent [of cache c i]
    by (auto simp: kept limit BaselineCount_eq)
qed

text \<open>C30. A rewind query is accepted exactly when it is answered with a stored snapshot, and that is one no newer
  than the mapped time; none stored is between the two when the snapshots were recorded in time order. Unless the
  end of the window wraps around, the query is accepted exactly when its mapped time lies in the window from
  \<open>maxRewindMs\<close> before the server's time to \<open>futureToleranceMs\<close> after it and a snapshot that old is stored.\<close>

theorem lag_compensation_window:
  "(lr_accepted (Query config h q) \<longleftrightarrow> lr_historicalSnapshot (Query config h q) \<noteq> None)
   \<and> (lr_accepted (Query config h q) \<longleftrightarrow> lr_rejectReason (Query config h q) = NoReject)
   \<and> (\<forall>s. lr_historicalSnapshot (Query config h q) = Some s \<longrightarrow>
        s \<in> set (lh_snapshots h) \<and> sn_serverTimeMs s \<le> MapClientTimeToServerTime q
        \<and> (in_time_order (lh_snapshots h) \<longrightarrow> (\<forall>s'\<in>set (lh_snapshots h).
             sn_serverTimeMs s' \<le> MapClientTimeToServerTime q \<longrightarrow> sn_serverTimeMs s' \<le> sn_serverTimeMs s)))
   \<and> (unat (lq_serverNowMs q) + unat (lc_futureToleranceMs config) < 2 ^ 64 \<longrightarrow>
        (lr_accepted (Query config h q) \<longleftrightarrow>
           in_rewind_window config (lq_serverNowMs q) (MapClientTimeToServerTime q)
           \<and> (\<exists>s\<in>set (lh_snapshots h). sn_serverTimeMs s \<le> MapClientTimeToServerTime q)))"
proof -
  let ?t = "MapClientTimeToServerTime q"
  have "ClosestAtOrBefore h ?t \<noteq> None \<longleftrightarrow> (\<exists>s\<in>set (lh_snapshots h). sn_serverTimeMs s \<le> ?t)"
    using ClosestAtOrBefore_None [of h ?t] by (auto simp: not_less)
  moreover have "lr_historicalSnapshot (Query config h q) = Some s \<Longrightarrow> ClosestAtOrBefore h ?t = Some s" for s
    by (auto simp: Query_def Let_def split: if_splits)
  ultimately show ?thesis
    using Query_accepted [of q config h] Query_reason [of config h q] ClosestAtOrBefore_closest(3) [of h ?t]
      ClosestAtOrBefore_found [of h ?t] by blast
qed

definition sample_history :: LagCompensationHistory where
  "sample_history = Record_history sample_snapshot (new_LagHistory 128)"

definition sample_query :: LagCompensationQuery where
  "sample_query = \<lparr>lq_clientId = 42, lq_sequence = 3, lq_clientTimestampMs = 100,
     lq_clientToServerOffsetMs = 50, lq_serverNowMs = 200\<rparr>"

theorem lag_compensation_window_witness:
  "lr_accepted (Query default_LagConfig sample_history sample_query)
   \<and> lr_historicalSnapshot (Query default_LagConfig sample_history sample_query) \<noteq> None"
proof -
  have h: "lh_snapshots sample_history = [sample_snapshot]"
    by (simp add: sample_history_def Record_history_def new_LagHistory_def)
  have t: "MapClientTimeToServerTime sample_query = 150"
    by (simp add: MapClientTimeToServerTime_def sample_query_def)
  have "in_rewind_window default_LagConfig (lq_serverNowMs sample_query) 150"
    by (simp add: in_rewind_window_def default_LagConfig_def sample_query_def)
  moreover have "unat (lq_serverNowMs sample_query) + unat (lc_futureToleranceMs default_LagConfig) < 2 ^ 64"
    by (simp add: sample_query_def default_LagConfig_def)
  ultimately show ?thesis
    using lag_compensation_window [of default_LagConfig sample_history sample_query]
    by (auto simp: h t sample_snapshot_def)
qed

section \<open>Interest\<close>

text \<open>The three lists of an interest frame split the snapshot's ids and the previously known ones:
  entered are the new ids, stayed the known ones that are still there, exited the known ones that
  are gone; afterwards exactly the snapshot's ids are known. Over any sequence of snapshots an
  entity enters once more than it leaves when it ends up known, and as often when it does not.\<close>

theorem interest_frames:
  "(let (f, t') = Update_interest s t
    in fr_entered f @ fr_exited f @ fr_stayed f =
         filter (\<lambda>i. \<not> Contains_interest t i) (entity_ids s)
         @ filter (\<lambda>i. \<not> Contains_interest t' i) (it_knownEntities t)
         @ filter (\<lambda>i. Contains_interest t i) (entity_ids s)
       \<and> (\<forall>i. Contains_interest t' i \<longleftrightarrow> i \<in> set (entity_ids s))
       \<and> KnownEntityCount t' = card (set (entity_ids s)))
   \<and> (let (fs, t') = Update_all ss new_InterestTracker
      in net_entries i fs = (if Contains_interest t' i then 1 else 0))"
proof -
  obtain f t' where f: "Update_interest s t = (f, t')" by fastforce
  obtain fs t'' where fs: "Update_all ss new_InterestTracker = (fs, t'')" by fastforce
  have "\<not> Contains_interest new_InterestTracker i"
    by (simp add: Contains_interest_def new_InterestTracker_def)
  then show ?thesis
    using Update_interest_frame [OF f] KnownEntityCount_Update [OF f] Update_all_net_entries [OF fs, of i]
    by (simp add: f fs Contains_interest_def)
qed

section \<open>Time\<close>

text \<open>After any samples the interpolation delay is between 50 and 250 ms, and after at least one
  it is half the smoothed round trip plus 50 ms, cut at 250 ms.\<close>

theorem interpolation_delay_bounds:
  "let clock = fold RecordSample samples new_NetworkClock
   in 50 \<le> unat (InterpolationDelayMs clock) \<and> unat (InterpolationDelayMs clock) \<le> 250
      \<and> (samples = [] \<or> unat (InterpolationDelayMs clock) = min 250 (unat (RttMs clock) div 2 + 50))"
proof -
  have inv: "clock_ok (fold RecordSample samples c) \<and> (samples \<noteq> [] \<longrightarrow> nc_hasSample (fold RecordSample samples c))"
    if "clock_ok c" for c
    using that
  proof (induction samples arbitrary: c)
    case (Cons x xs)
    have "nc_hasSample (RecordSample x c)" by (simp add: RecordSample_def Let_def)
    moreover have "nc_hasSample c' \<Longrightarrow> nc_hasSample (fold RecordSample xs c')" for c'
      by (induction xs arbitrary: c') (simp_all add: RecordSample_def Let_def)
    ultimately show ?case using Cons.IH [OF clock_ok_RecordSample, of x c] by simp
  qed simp
  show ?thesis
    using inv [OF clock_ok_new]
    by (auto simp: Let_def clock_ok_def InterpolationDelayMs_def RttMs_def delay_value word_le_nat_alt)
qed

text \<open>A first sample over a path with equal delays gives the exact clock offset, and a smoothed
  round trip lies between the old and the measured one as long as eight of them fit 64 bits.\<close>

theorem clock_sample_exact:
  assumes "\<not> nc_hasSample c" and "t + 2 * k < 2 ^ 63" and "nc_hasSample c'"
    and "unat (nc_rttMs c') * 7 + unat (measured_rtt s) < 2 ^ 64"
  shows "nc_serverOffsetMs (RecordSample
       \<lparr>ts_clientSentAtMs = of_nat t, ts_serverReceivedAtMs = of_nat (t + k) + d,
        ts_clientReceivedAtMs = of_nat (t + 2 * k)\<rparr> c) = d
     \<and> min (unat (nc_rttMs c')) (unat (measured_rtt s)) \<le> unat (nc_rttMs (RecordSample s c'))
     \<and> unat (nc_rttMs (RecordSample s c')) \<le> max (unat (nc_rttMs c')) (unat (measured_rtt s))"
  using RecordSample_symmetric [OF assms(1,2)] smooth_rtt_between [OF assms(4)] assms(3)
  by (simp add: RecordSample_rtt)

theorem clock_sample_exact_witness:
  "nc_serverOffsetMs (RecordSample \<lparr>ts_clientSentAtMs = of_nat 100, ts_serverReceivedAtMs = of_nat (100 + 20) + 5,
     ts_clientReceivedAtMs = of_nat (100 + 2 * 20)\<rparr> new_NetworkClock) = 5"
  using clock_sample_exact [of new_NetworkClock 100 20 "new_NetworkClock\<lparr>nc_hasSample := True\<rparr>"
      "\<lparr>ts_clientSentAtMs = 1, ts_serverReceivedAtMs = 2, ts_clientReceivedAtMs = 3\<rparr>" 5]
  by (simp add: new_NetworkClock_def measured_rtt_def)

section \<open>The simulation\<close>

text \<open>C1. In every state a server's simulation can reach, every player has its health between zero and
  the configured maximum, is defeated exactly at zero health, stands on the map and moves within the
  speed limit on each axis.\<close>

theorem players_always_valid:
  assumes "entt_laws E" and "config_ok config" and "sim_reachable E config s"
    and "c_player (cm E s e) = Some p"
  shows "0 \<le> sint (pl_health p) \<and> sint (pl_health p) \<le> sint (sc_maxPlayerHealth config)
     \<and> (pl_defeated p \<longleftrightarrow> sint (pl_health p) = 0)
     \<and> (\<exists>t v. c_transform (cm E s e) = Some t \<and> c_velocity (cm E s e) = Some v
          \<and> 0 \<le> sint (tf_x t) \<and> sint (tf_x t) < sint (MapWidthFixed (sc_map config))
          \<and> 0 \<le> sint (tf_y t) \<and> sint (tf_y t) < sint (MapHeightFixed (sc_map config))
          \<and> \<bar>sint (vl_vx v)\<bar> \<le> sint (sc_maxMoveSpeedPerSecond config)
          \<and> \<bar>sint (vl_vy v)\<bar> \<le> sint (sc_maxMoveSpeedPerSecond config))"
proof -
  have ok: "sim_ok E s" "gs_config s = config" using sim_reachable_ok [OF assms(1-3)] by auto
  have "entity_ok config (cm E s e)"
    using ok alive_player [OF assms(4)] by (auto simp: sim_ok_def)
  then show ?thesis
    using assms(4) map_limit [OF assms(2)]
    by (auto simp: entity_ok_def player_ok_def on_map_def speed_ok_def)
qed

text \<open>A simulation after one login, one input and a tick, on the executable registry.\<close>

definition sample_login :: LoginCommand where
  "sample_login = \<lparr>lg_header = \<lparr>hd_clientId = 42, hd_sequence = 1, hd_clientTimestampMs = 0\<rparr>\<rparr>"

definition sample_input :: ClientInputPacket where
  "sample_input = \<lparr>ip_header = \<lparr>hd_clientId = 42, hd_sequence = 2, hd_clientTimestampMs = 16\<rparr>,
     ip_input = \<lparr>if_moveX = 1, if_moveY = 0, if_aimX = 1000, if_aimY = 0, if_fire = True\<rparr>\<rparr>"

definition sample_sim0 :: "list_registry GameSimulation" where
  "sample_sim0 = snd (SubmitLogin list_registry sample_login
     (new_GameSimulation list_registry default_SimulationConfig))"

definition sample_sim :: "list_registry GameSimulation" where
  "sample_sim = TickFixed list_registry (snd (SubmitInput sample_input sample_sim0))"

lemma sample_sim0_reachable: "sim_reachable list_registry default_SimulationConfig sample_sim0"
proof (rule sim_reachable.step [OF sim_reachable.init])
  have "id_room (new_GameSimulation list_registry default_SimulationConfig)"
    by (simp add: id_room_def new_GameSimulation_def)
  then show "sim_step list_registry (new_GameSimulation list_registry default_SimulationConfig) sample_sim0"
    by (rule sim_step.login [where cmd = sample_login]) (simp add: sample_sim0_def prod_eq_iff)
qed

lemma sample_sim0_player:
  "c_player (cm list_registry sample_sim0 1) =
     Some (default_Player\<lparr>pl_clientId := 42, pl_health := 100, pl_maxHealth := 100\<rparr>)"
  "PlayerEntityForClient sample_sim0 42 = Some 1" "EntityFor sample_sim0 1 = Some 1"
proof -
  let ?s = "new_GameSimulation list_registry default_SimulationConfig"
  have "en_create list_registry (gs_registry ?s) = (1, 1, [(1, no_components)])"
    by (simp add: list_registry_def new_GameSimulation_def)
  from SubmitLogin_creates [OF list_registry_laws _ _ this, of sample_login]
  show "c_player (cm list_registry sample_sim0 1) =
     Some (default_Player\<lparr>pl_clientId := 42, pl_health := 100, pl_maxHealth := 100\<rparr>)"
    "PlayerEntityForClient sample_sim0 42 = Some 1" "EntityFor sample_sim0 1 = Some 1"
    by (simp_all add: sample_sim0_def sample_login_def new_GameSimulation_def um_contains_def
        default_SimulationConfig_def player_components_def)
qed

theorem players_always_valid_witness:
  "sint (pl_health (the (c_player (cm list_registry sample_sim0 1)))) \<le> 100"
proof -
  have "sint (pl_health p) \<le> 100" if "c_player (cm list_registry sample_sim0 e) = Some p" for e p
    using players_always_valid [OF list_registry_laws config_ok_default sample_sim0_reachable that]
    by (simp add: default_SimulationConfig_def)
  from this [OF sample_sim0_player(1)] show ?thesis unfolding sample_sim0_player(1) option.sel .
qed

text \<open>C16. In every state that a server's simulation reaches by logins, inputs, ticks and event drains, as
  long as entity ids are left before each login and each tick (\<open>id_room\<close>), the id index and the registry
  agree: an id leads to the one live entity that carries it, every live entity can be found by its id, every
  client that logged in has a live player of its own, ids in use are below the next one, and there are never
  more players than the configured maximum. (A client's simulation, which applies snapshots, keeps the weaker
  \<open>client_index_ok\<close> instead.)\<close>

theorem index_always_consistent:
  assumes "entt_laws E" and "config_ok config" and "sim_reachable E config s"
  shows "(EntityFor s i = Some e \<longleftrightarrow> c_identity (cm E s e) = Some i)
     \<and> (alive E s e \<longrightarrow> (\<exists>i. EntityFor s i = Some e))
     \<and> (PlayerEntityForClient s cl = Some i \<longrightarrow>
          (\<exists>e p. EntityFor s i = Some e \<and> c_player (cm E s e) = Some p \<and> pl_clientId p = cl))
     \<and> (EntityFor s i \<noteq> None \<longrightarrow> i < gs_nextNetworkId s)
     \<and> length (gs_playerByClient s) \<le> unat (sc_maxPlayers config)"
proof -
  have ok: "index_ok E s" "gs_config s = config"
    using sim_reachable_ok [OF assms] by (auto simp: sim_ok_def)
  note idx = index_okD [OF ok(1)]
  show ?thesis
  proof (intro conjI impI)
    show "EntityFor s i = Some e \<longleftrightarrow> c_identity (cm E s e) = Some i" by (rule idx(3))
    show "\<exists>i. EntityFor s i = Some e" if "alive E s e" using idx(4) [OF that] idx(3) by blast
    show "\<exists>e p. EntityFor s i = Some e \<and> c_player (cm E s e) = Some p \<and> pl_clientId p = cl"
      if "PlayerEntityForClient s cl = Some i" using clients_okE [OF idx(5) that] by blast
    show "i < gs_nextNetworkId s" if "EntityFor s i \<noteq> None" using that idx(6) by blast
    show "length (gs_playerByClient s) \<le> unat (sc_maxPlayers config)" using idx(7) ok(2) by simp
  qed
qed

theorem index_always_consistent_witness:
  "\<exists>e p. EntityFor sample_sim0 1 = Some e \<and> c_player (cm list_registry sample_sim0 e) = Some p
     \<and> pl_clientId p = 42"
  using index_always_consistent [OF list_registry_laws config_ok_default sample_sim0_reachable, of 1 1 42]
  by (simp add: sample_sim0_player)

text \<open>C29. Of any sequence of input packets, those the simulation accepts carry, per client, strictly
  increasing sequence numbers, all beyond the last one accepted before; they are queued in that
  order and a rejected packet changes nothing. A packet is accepted exactly when its client has
  logged in and its sequence is new.\<close>

theorem accepted_inputs_increase:
  "(let (acc, s') = submit_all ps s
    in gs_pendingInputs s' = gs_pendingInputs s @ acc
       \<and> sorted_wrt (\<lambda>p q. packet_client p = packet_client q \<longrightarrow> packet_sequence p < packet_sequence q) acc
       \<and> (\<forall>p\<in>set acc. beyond_last s (packet_client p) (packet_sequence p)))
   \<and> (fst (SubmitInput p s) \<longleftrightarrow> PlayerEntityForClient s (packet_client p) \<noteq> None
        \<and> beyond_last s (packet_client p) (packet_sequence p))
   \<and> (fst (SubmitInput p s) \<or> snd (SubmitInput p s) = s)"
  using submit_all_accepted [of ps s] SubmitInput_iff SubmitInput_rejected [of p s]
  by (auto split: prod.splits)

theorem accepted_inputs_increase_witness:
  "fst (SubmitInput sample_input sample_sim0) \<longleftrightarrow>
     PlayerEntityForClient sample_sim0 42 \<noteq> None \<and> beyond_last sample_sim0 42 2"
  using accepted_inputs_increase [of "[sample_input]" sample_sim0 sample_input]
  by (simp add: sample_input_def)

text \<open>C37. One tick moves an entity that is on the map by exactly its velocity times the tick on each axis, rounded
  towards zero and cut off at the map's edges, and without any overflow of the 32-bit or 64-bit arithmetic: for a valid configuration with a
  tick of at most a second whose map and fastest speed together stay below \<open>2 ^ 31\<close> (\<open>movement_fits\<close>), and a
  velocity within that speed.\<close>

theorem movement_is_exact:
  fixes config t v
  defines "x \<equiv> sint (tf_x t) + (sint (vl_vx v) * sint (sc_tickDurationMs config)) sdiv 1000"
    and "y \<equiv> sint (tf_y t) + (sint (vl_vy v) * sint (sc_tickDurationMs config)) sdiv 1000"
    and "moved \<equiv> ClampToMap config (advance_transform config v t)"
  assumes "movement_fits config" and "on_map config t" and "speed_ok config v"
  shows "sint (tf_x (advance_transform config v t)) = x \<and> sint (tf_y (advance_transform config v t)) = y
     \<and> sint (tf_x moved) = max 0 (min x (sint (MapWidthFixed (sc_map config)) - 1))
     \<and> sint (tf_y moved) = max 0 (min y (sint (MapHeightFixed (sc_map config)) - 1))
     \<and> on_map config moved \<and> \<bar>sint (tf_x moved) - sint (tf_x t)\<bar> \<le> \<bar>x - sint (tf_x t)\<bar>
     \<and> \<bar>sint (tf_y moved) - sint (tf_y t)\<bar> \<le> \<bar>y - sint (tf_y t)\<bar>"
  using movement_exact [OF assms(4-6)] movement_step [OF assms(4-6)] by (simp add: x_def y_def moved_def)

theorem movement_is_exact_witness:
  "on_map default_SimulationConfig (ClampToMap default_SimulationConfig (advance_transform
     default_SimulationConfig \<lparr>vl_vx = 360000, vl_vy = 0\<rparr> \<lparr>tf_x = 0, tf_y = 0\<rparr>))"
proof -
  have "on_map default_SimulationConfig \<lparr>tf_x = 0, tf_y = 0\<rparr>"
    using map_limit [OF config_ok_default] by (simp add: on_map_def)
  moreover have "speed_ok default_SimulationConfig \<lparr>vl_vx = 360000, vl_vy = 0\<rparr>"
    by (simp add: speed_ok_def default_SimulationConfig_def PixelsToFixed_def kFixedOne_def)
  ultimately show ?thesis using movement_is_exact [OF movement_fits_default] by blast
qed

text \<open>C36. A hit takes the weapon's damage from the player's health, stops at zero, defeats the player
  exactly when the damage reaches the health, and queues the hit, the damage with the new health and,
  on defeat, the death, in that order.\<close>

theorem hit_deals_damage:
  assumes "entt_laws E" and "c_player (cm E s e) = Some p" and "\<not> pl_defeated p"
    and "player_ok config p"
    and "FindWeaponDefinition (sc_weapons (gs_config s)) (pj_sourceWeapon pj) = Some w"
    and "0 \<le> sint (wd_damage w)"
  shows "\<exists>p'. c_player (cm E (hit_player E pid pj e i p s) e) = Some p'
     \<and> sint (pl_health p') = max 0 (sint (pl_health p) - sint (wd_damage w))
     \<and> (pl_defeated p' \<longleftrightarrow> sint (pl_health p) \<le> sint (wd_damage w))
     \<and> gs_events (hit_player E pid pj e i p s) = gs_events s
         @ [HitConfirmed (pj_ownerId pj) i pid (gs_timeMs s),
            PlayerDamaged i (pj_ownerId pj) (wd_damage w) (pl_health p')]
         @ (if pl_defeated p' then [PlayerDied i (pj_ownerId pj) (pl_respawnAtMs p')] else [])"
  using assms by (rule hit_player_effect)

theorem hit_deals_damage_witness:
  "\<exists>p'. c_player (cm list_registry (hit_player list_registry 9
      \<lparr>pj_ownerId = 5, pj_spawnedAtMs = 0, pj_expiresAtMs = 2000, pj_sourceWeapon = WeaponBow\<rparr> 1 1
      (default_Player\<lparr>pl_clientId := 42, pl_health := 100, pl_maxHealth := 100\<rparr>) sample_sim0) 1) = Some p'
     \<and> sint (pl_health p') = 65"
proof -
  have cfg: "gs_config sample_sim0 = default_SimulationConfig"
    using sim_reachable_ok [OF list_registry_laws config_ok_default sample_sim0_reachable] by simp
  have "FindWeaponDefinition (sc_weapons (gs_config sample_sim0)) WeaponBow = Some (DefaultWeaponDefinition WeaponBow)"
    by (simp add: cfg default_SimulationConfig_def DefaultWeaponDefinitions_def)
  then show ?thesis
    using hit_deals_damage [OF list_registry_laws sample_sim0_player(1), of default_SimulationConfig
        "\<lparr>pj_ownerId = 5, pj_spawnedAtMs = 0, pj_expiresAtMs = 2000, pj_sourceWeapon = WeaponBow\<rparr>"
        "DefaultWeaponDefinition WeaponBow" 9 1]
    by (auto simp: default_Player_def player_ok_def default_SimulationConfig_def)
qed

text \<open>C38. A predicting client never fires: the warm-up step of its tick queues no event, takes no
  entity id and adds no entity, so projectiles exist only where the server made them.\<close>

theorem client_never_fires:
  assumes "sc_mode (gs_config s) = ClientPrediction"
  shows "gs_events (ProcessWeaponWarmups E s) = gs_events s
     \<and> gs_nextNetworkId (ProcessWeaponWarmups E s) = gs_nextNetworkId s
     \<and> gs_entityByNetworkId (ProcessWeaponWarmups E s) = gs_entityByNetworkId s"
  using ProcessWeaponWarmups_client [OF assms] by simp

theorem client_never_fires_witness:
  "gs_events (ProcessWeaponWarmups list_registry (new_GameSimulation list_registry
     (default_SimulationConfig\<lparr>sc_mode := ClientPrediction\<rparr>))) = []"
proof -
  let ?s = "new_GameSimulation list_registry (default_SimulationConfig\<lparr>sc_mode := ClientPrediction\<rparr>)"
  have "sc_mode (gs_config ?s) = ClientPrediction" by (simp add: new_GameSimulation_def)
  from client_never_fires [OF this, of list_registry] show ?thesis by (simp add: new_GameSimulation_def)
qed

section \<open>Replication\<close>

text \<open>C24. A snapshot for an observer holds each entity at most once: while the observer has no position, exactly
  the entities that are placed in the world; once it has one, exactly those of them that are the observer's
  own or in its area of interest.\<close>

theorem snapshot_holds_visible:
  assumes "entt_laws E" and "index_ok E s"
  shows "(i \<in> set (entity_ids (BuildSnapshot E s obs sid bid)) \<longleftrightarrow>
       (\<exists>e t v. EntityFor s i = Some e \<and> placed E s i e t v
          \<and> (case observer_chunk E s obs of
                None \<Rightarrow> True
              | Some chunk \<Rightarrow> c_owner (cm E s e) = Some obs
                  \<or> IsChunkInAreaOfInterest (sc_map (gs_config s)) chunk
                       (ChunkForPosition (sc_map (gs_config s)) (tf_x t) (tf_y t)))))
     \<and> distinct (entity_ids (BuildSnapshot E s obs sid bid))"
proof -
  have "i \<in> set (entity_ids (BuildSnapshot E s obs sid bid)) \<longleftrightarrow>
      (\<exists>e t v. placed E s i e t v \<and> entity_visible E s obs (observer_chunk E s obs) t e)"
    (is "?l \<longleftrightarrow> ?r")
  proof
    assume ?l
    then obtain st where "st \<in> set (sn_entities (BuildSnapshot E s obs sid bid))" "entity_id st = i"
      by (auto simp: image_iff)
    then obtain e t v where "placed E s i e t v" "entity_visible E s obs (observer_chunk E s obs) t e"
      unfolding set_BuildSnapshot [OF assms(1)] by auto
    then show ?r by blast
  next
    assume ?r
    then obtain e t v where e: "placed E s i e t v" "entity_visible E s obs (observer_chunk E s obs) t e"
      by blast
    show ?l
      unfolding set_map
      by (rule image_eqI [where x = "entity_state E s obs e i t v"])
        (use e in \<open>auto simp: set_BuildSnapshot [OF assms(1)]\<close>)
  qed
  moreover have "placed E s i e t v \<Longrightarrow> EntityFor s i = Some e" for e t v
    using index_okD(3) [OF assms(2)] by (simp add: placed_def)
  ultimately show ?thesis
    using distinct_BuildSnapshot [OF assms] unfolding entity_visible_def Let_def by blast
qed

theorem snapshot_holds_visible_witness:
  "distinct (entity_ids (BuildSnapshot list_registry sample_sim0 42 1 0))"
proof -
  have "index_ok list_registry sample_sim0"
    using sim_reachable_ok [OF list_registry_laws config_ok_default sample_sim0_reachable]
    by (simp add: sim_ok_def)
  from snapshot_holds_visible [OF list_registry_laws this] show ?thesis by blast
qed

text \<open>C23. After applying a snapshot a client's copy answers, for every entity of the snapshot, the
  movement the snapshot gives; it knows exactly those entities and, of the others, the ones it owns;
  and the last queued event reports the snapshot.\<close>

theorem client_follows_snapshot:
  assumes "entt_laws E" and "client_index_ok E s" and "distinct (map seen_id (sn_entities sn))"
  shows "(\<forall>st\<in>set (sn_entities sn).
        MovementForEntity E (ApplySnapshot E sn cl s) (seen_id st) = Some (es_movement st))
     \<and> (EntityFor (ApplySnapshot E sn cl s) j \<noteq> None \<longleftrightarrow> j \<in> seen_id ` set (sn_entities sn)
          \<or> (\<exists>e. EntityFor s j = Some e \<and> c_owner (cm E s e) = Some cl))
     \<and> last (gs_events (ApplySnapshot E sn cl s)) =
          SnapshotApplied (sn_snapshotId sn) (sn_baselineId sn) (sn_ackedInputSequence sn)"
  using ApplySnapshot_effect [OF assms, where cl = cl] state_held_movement by metis

theorem client_follows_snapshot_witness:
  "MovementForEntity list_registry (ApplySnapshot list_registry sample_snapshot 42
     (new_GameSimulation list_registry default_SimulationConfig)) 1 = Some
     \<lparr>mv_entityId = 1, mv_x = 5, mv_y = -6, mv_vx = 0, mv_vy = 0, mv_aimX = 1000, mv_aimY = 0\<rparr>"
proof -
  let ?s = "new_GameSimulation list_registry default_SimulationConfig"
  have "client_index_ok list_registry ?s"
    by (simp add: client_index_ok_def new_GameSimulation_def EntityFor_def)
  moreover have "distinct (map seen_id (sn_entities sample_snapshot))" by (simp add: sample_snapshot_def)
  ultimately show ?thesis
    using client_follows_snapshot [OF list_registry_laws, of ?s sample_snapshot 42]
    by (simp add: sample_snapshot_def seen_id_def)
qed

end
