(* ===== verification/Packet_Codec.thy ===== *)
theory Packet_Codec
  imports Message_Codecs Network_Protocol
begin

text \<open>
  \<open>src/Networking/src/TransportPacketCodec.cpp\<close>: the frame that carries an envelope over a data
  channel. Its reader differs from the one of \<open>Serialization\<close>: every failed read overwrites the
  error, and it can read a block of bytes.

  The codec interprets \<open>message_codec\<close> on the valid envelopes: a frame decodes to an envelope
  exactly when the envelope is valid and the frame is its encoding.
\<close>

section \<open>The reader\<close>

datatype TransportPacketDecodeError =
    Packet_None | Packet_UnexpectedEof | Packet_UnsupportedVersion | Packet_InvalidChannel
  | Packet_InvalidMessageClass | Packet_PayloadTooLarge | Packet_ChannelMismatch | Packet_TrailingBytes

type_synonym preader = "TransportPacketDecodeError reader"

definition open_packet :: "byte list \<Rightarrow> preader" where
  "open_packet bytes = \<lparr>rd_bytes = bytes, rd_offset = 0, rd_error = Packet_None\<rparr>"

definition packet_eof :: "preader \<Rightarrow> preader" where
  "packet_eof r = r\<lparr>rd_error := Packet_UnexpectedEof\<rparr>"

definition PacketReadPod :: "preader \<Rightarrow> 'a::len word option \<times> preader" where
  "PacketReadPod = read_pod packet_eof"

definition ReadBytes :: "nat \<Rightarrow> preader \<Rightarrow> byte list option \<times> preader" where
  "ReadBytes byteCount r =
     (if rd_offset r + byteCount > length (rd_bytes r) then (None, packet_eof r)
      else (Some (take byteCount (drop (rd_offset r) (rd_bytes r))), advance byteCount r))"

definition PacketFinished :: "preader \<Rightarrow> bool \<times> preader" where
  "PacketFinished r =
     (if rd_error r \<noteq> Packet_None then (False, r)
      else if rd_offset r \<noteq> length (rd_bytes r) then (False, r\<lparr>rd_error := Packet_TrailingBytes\<rparr>)
      else (True, r))"

section \<open>Enumeration values\<close>

fun u8_of_channel :: "NetworkChannel \<Rightarrow> u8" where
  "u8_of_channel Ch_MovementInput = 0"
| "u8_of_channel Ch_Snapshots = 1"
| "u8_of_channel Ch_CombatEvents = 2"
| "u8_of_channel Ch_LoginSpawn = 3"
| "u8_of_channel Ch_ChatUi = 4"
| "u8_of_channel Ch_TimeSync = 5"

text \<open>\<open>static_cast\<close> from the byte; it is only applied to bytes that passed the range check.\<close>

definition channel_of_u8 :: "u8 \<Rightarrow> NetworkChannel" where
  "channel_of_u8 v = (if v = 0 then Ch_MovementInput else if v = 1 then Ch_Snapshots
     else if v = 2 then Ch_CombatEvents else if v = 3 then Ch_LoginSpawn
     else if v = 4 then Ch_ChatUi else Ch_TimeSync)"

fun u8_of_class :: "MessageClass \<Rightarrow> u8" where
  "u8_of_class Mc_ClientInput = 0"
| "u8_of_class Mc_Snapshot = 1"
| "u8_of_class Mc_SnapshotAck = 2"
| "u8_of_class Mc_CombatEvent = 3"
| "u8_of_class Mc_LoginRequest = 4"
| "u8_of_class Mc_SpawnAccepted = 5"
| "u8_of_class Mc_InterestEvent = 6"
| "u8_of_class Mc_NetworkEventAck = 7"
| "u8_of_class Mc_ChatUi = 8"
| "u8_of_class Mc_TimeSyncRequest = 9"
| "u8_of_class Mc_TimeSyncResponse = 10"

definition class_of_u8 :: "u8 \<Rightarrow> MessageClass" where
  "class_of_u8 v = (if v = 0 then Mc_ClientInput else if v = 1 then Mc_Snapshot
     else if v = 2 then Mc_SnapshotAck else if v = 3 then Mc_CombatEvent
     else if v = 4 then Mc_LoginRequest else if v = 5 then Mc_SpawnAccepted
     else if v = 6 then Mc_InterestEvent else if v = 7 then Mc_NetworkEventAck
     else if v = 8 then Mc_ChatUi else if v = 9 then Mc_TimeSyncRequest else Mc_TimeSyncResponse)"

definition IsValidChannel :: "u8 \<Rightarrow> bool" where
  "IsValidChannel v \<longleftrightarrow> v \<le> u8_of_channel Ch_TimeSync"

definition IsValidMessageClass :: "u8 \<Rightarrow> bool" where
  "IsValidMessageClass v \<longleftrightarrow> v \<le> u8_of_class Mc_TimeSyncResponse"

lemma channel_of_u8_of [simp]: "channel_of_u8 (u8_of_channel c) = c" "IsValidChannel (u8_of_channel c)"
  by (cases c; simp add: channel_of_u8_def IsValidChannel_def)+

lemma class_of_u8_of [simp]: "class_of_u8 (u8_of_class c) = c" "IsValidMessageClass (u8_of_class c)"
  by (cases c; simp add: class_of_u8_def IsValidMessageClass_def)+

lemma u8_of_channel_of: "IsValidChannel v \<Longrightarrow> u8_of_channel (channel_of_u8 v) = v"
proof -
  assume "IsValidChannel v"
  then have "v \<le> 5" by (simp add: IsValidChannel_def)
  from u8_le_cases [OF this] show ?thesis
    by (simp add: atMost_nat_numeral atMost_Suc, auto simp: channel_of_u8_def)
qed

lemma u8_of_class_of: "IsValidMessageClass v \<Longrightarrow> u8_of_class (class_of_u8 v) = v"
proof -
  assume "IsValidMessageClass v"
  then have "v \<le> 10" by (simp add: IsValidMessageClass_def)
  from u8_le_cases [OF this] show ?thesis
    by (simp add: atMost_nat_numeral atMost_Suc, auto simp: class_of_u8_def)
qed

fun MapValidationError :: "ProtocolError \<Rightarrow> TransportPacketDecodeError" where
  "MapValidationError NoProtocolError = Packet_None"
| "MapValidationError UnsupportedVersion = Packet_UnsupportedVersion"
| "MapValidationError PayloadTooLarge = Packet_PayloadTooLarge"
| "MapValidationError ChannelMismatch = Packet_ChannelMismatch"

section \<open>Encoding and decoding\<close>

record TransportPacketDecodeResult =
  pk_envelope :: "NetworkEnvelope option"
  pk_error :: TransportPacketDecodeError

definition packet_ok :: "TransportPacketDecodeResult \<Rightarrow> bool" where
  "packet_ok res \<longleftrightarrow> pk_envelope res \<noteq> None \<and> pk_error res = Packet_None"

definition EncodeTransportPacket :: "NetworkEnvelope \<Rightarrow> byte list" where
  "EncodeTransportPacket envelope =
     (let w = WritePod (ev_protocolVersion envelope) [];
          w = WritePod (ev_peerId envelope) w;
          w = WritePod (u8_of_channel (ev_channel envelope)) w;
          w = WritePod (u8_of_class (ev_messageClass envelope)) w;
          w = WritePod (ev_sequence envelope) w;
          w = WritePod (of_nat (length (ev_payload envelope)) :: u32) w
      in w @ ev_payload envelope)"

text \<open>The header fields, all read before any is looked at.\<close>

definition packet_failure :: "TransportPacketDecodeError \<Rightarrow> TransportPacketDecodeResult" where
  "packet_failure e = \<lparr>pk_envelope = None, pk_error = e\<rparr>"

definition decode_payload ::
    "u16 \<Rightarrow> ClientId \<Rightarrow> u8 \<Rightarrow> u8 \<Rightarrow> u32 \<Rightarrow> u32 \<Rightarrow> preader \<Rightarrow> TransportPacketDecodeResult" where
  "decode_payload version peerId channel messageClass sequence payloadSize r =
     (if \<not> IsValidChannel channel then packet_failure Packet_InvalidChannel
      else if \<not> IsValidMessageClass messageClass then packet_failure Packet_InvalidMessageClass
      else if unat payloadSize > kMaxNetworkPayloadBytes then packet_failure Packet_PayloadTooLarge
      else
      case ReadBytes (unat payloadSize) r of
        (None, r) \<Rightarrow> packet_failure (rd_error r)
      | (Some payload, r) \<Rightarrow>
          (case PacketFinished r of
             (False, r) \<Rightarrow> packet_failure (rd_error r)
           | (True, r) \<Rightarrow>
               let envelope = \<lparr>ev_protocolVersion = version, ev_peerId = peerId,
                     ev_channel = channel_of_u8 channel, ev_messageClass = class_of_u8 messageClass,
                     ev_sequence = sequence, ev_payload = payload\<rparr>;
                   validation = ValidateEnvelope envelope
               in if \<not> Ok validation then packet_failure (MapValidationError validation)
                  else \<lparr>pk_envelope = Some envelope, pk_error = Packet_None\<rparr>))"

definition DecodeTransportPacket :: "byte list \<Rightarrow> TransportPacketDecodeResult" where
  "DecodeTransportPacket bytes =
     (let r = open_packet bytes;
          (version, r) = PacketReadPod r;
          (peerId, r) = PacketReadPod r;
          (channel, r) = PacketReadPod r;
          (messageClass, r) = PacketReadPod r;
          (sequence, r) = PacketReadPod r;
          (payloadSize, r) = PacketReadPod r
      in case (version, peerId, channel, messageClass, sequence, payloadSize) of
           (Some version, Some peerId, Some channel, Some messageClass, Some sequence, Some payloadSize) \<Rightarrow>
             decode_payload version peerId channel messageClass sequence payloadSize r
         | _ \<Rightarrow> packet_failure (rd_error r))"

section \<open>The codec\<close>

lemma field_codec_PacketReadPod [field_codecs]:
  "LENGTH('a::len) = 8 * (LENGTH('a) div 8) \<Longrightarrow> field_codec UNIV (pod_bytes :: 'a word \<Rightarrow> _) PacketReadPod"
  unfolding PacketReadPod_def by (rule field_codec_pod)

definition read_payload :: "preader \<Rightarrow> byte list option \<times> preader" where
  "read_payload r =
     (case PacketReadPod r of
        (None, r) \<Rightarrow> (None, r)
      | (Some n, r) \<Rightarrow> if unat (n :: u32) \<le> kMaxNetworkPayloadBytes then ReadBytes (unat n) r else (None, r))"

lemma field_codec_read_payload [field_codecs]:
  "field_codec {p. length p \<le> kMaxNetworkPayloadBytes} counted_bytes read_payload"
proof (rule field_codec_counted [where pod = PacketReadPod])
  show "field_codec UNIV pod_bytes (PacketReadPod :: preader \<Rightarrow> u32 option \<times> preader)"
    by (rule field_codec_PacketReadPod) simp
  show "read_payload r = (Some x, r') \<longleftrightarrow> (\<exists>n r1. PacketReadPod r = (Some (n :: u32), r1)
        \<and> unat n \<le> kMaxNetworkPayloadBytes \<and> rd_offset r1 + unat n \<le> length (rd_bytes r1)
        \<and> x = take (unat n) (rest_of r1) \<and> r' = advance (unat n) r1)" for r x r'
    by (auto simp: read_payload_def ReadBytes_def rest_of_def not_less
        split: prod.splits option.splits if_splits)
qed (simp add: kMaxNetworkPayloadBytes_def)

definition packet_fields ::
    "preader \<Rightarrow> (u16 \<times> ClientId \<times> u8 \<times> u8 \<times> u32 \<times> byte list) option \<times> preader" where
  "packet_fields = read_pair PacketReadPod (read_pair PacketReadPod (read_pair PacketReadPod
     (read_pair PacketReadPod (read_pair PacketReadPod read_payload))))"

definition packet_tuple :: "NetworkEnvelope \<Rightarrow> u16 \<times> ClientId \<times> u8 \<times> u8 \<times> u32 \<times> byte list" where
  "packet_tuple e = (ev_protocolVersion e, ev_peerId e, u8_of_channel (ev_channel e),
     u8_of_class (ev_messageClass e), ev_sequence e, ev_payload e)"

definition packet_bytes :: "u16 \<times> ClientId \<times> u8 \<times> u8 \<times> u32 \<times> byte list \<Rightarrow> byte list" where
  "packet_bytes = (\<lambda>(v, p, c, m, s, d). pod_bytes v @ pod_bytes p @ pod_bytes c @ pod_bytes m
     @ pod_bytes s @ counted_bytes d)"

lemma field_codec_packet:
  "field_codec {(v, p, c, m, s, d). length d \<le> kMaxNetworkPayloadBytes} packet_bytes packet_fields"
proof (rule field_codec_cong)
  have "field_codec (UNIV \<times> UNIV \<times> UNIV \<times> UNIV \<times> UNIV \<times> {p. length p \<le> kMaxNetworkPayloadBytes})
      (\<lambda>(x, y). pod_bytes x @ (case y of (x, y) \<Rightarrow> pod_bytes x @ (case y of (x, y) \<Rightarrow> pod_bytes x
        @ (case y of (x, y) \<Rightarrow> pod_bytes x @ (case y of (x, y) \<Rightarrow> pod_bytes x @ counted_bytes y)))))
      packet_fields"
    unfolding packet_fields_def by (intro field_codecs) simp_all
  moreover have "UNIV \<times> UNIV \<times> UNIV \<times> UNIV \<times> UNIV \<times> {p. length p \<le> kMaxNetworkPayloadBytes}
      = {(v, p, c, m, s, d). length d \<le> kMaxNetworkPayloadBytes}" by auto
  ultimately show "field_codec {(v, p, c, m, s, d). length d \<le> kMaxNetworkPayloadBytes}
      (\<lambda>(x, y). pod_bytes x @ (case y of (x, y) \<Rightarrow> pod_bytes x @ (case y of (x, y) \<Rightarrow> pod_bytes x
        @ (case y of (x, y) \<Rightarrow> pod_bytes x @ (case y of (x, y) \<Rightarrow> pod_bytes x @ counted_bytes y)))))
      packet_fields" by (rule back_subst [where P = "\<lambda>A. field_codec A _ _"])
qed (auto simp: packet_bytes_def)

lemma EncodeTransportPacket_eq: "EncodeTransportPacket e = packet_bytes (packet_tuple e)"
  by (simp add: EncodeTransportPacket_def packet_bytes_def packet_tuple_def Let_def WritePod_def
      counted_bytes_def)

lemma decode_payload_iff:
  "pk_envelope (decode_payload v p c m s n r) = Some e \<longleftrightarrow>
     IsValidChannel c \<and> IsValidMessageClass m \<and> unat n \<le> kMaxNetworkPayloadBytes
     \<and> (\<exists>payload r'. ReadBytes (unat n) r = (Some payload, r') \<and> fst (PacketFinished r')
          \<and> e = \<lparr>ev_protocolVersion = v, ev_peerId = p, ev_channel = channel_of_u8 c,
                ev_messageClass = class_of_u8 m, ev_sequence = s, ev_payload = payload\<rparr>)
     \<and> valid_envelope e"
  by (auto simp: decode_payload_def packet_failure_def Let_def not_less
      split: prod.splits option.splits bool.splits if_splits)

text \<open>What the decoder accepts, in terms of the field reader.\<close>

lemma DecodeTransportPacket_iff:
  "pk_envelope (DecodeTransportPacket bs) = Some e \<longleftrightarrow>
     valid_envelope e \<and> (\<exists>r'. packet_fields (open_packet bs) = (Some (packet_tuple e), r')
       \<and> rd_offset r' = length bs)"
proof -
  obtain v r1 where 1: "PacketReadPod (open_packet bs) = (v :: u16 option, r1)" by fastforce
  obtain p r2 where 2: "PacketReadPod r1 = (p :: u32 option, r2)" by fastforce
  obtain c r3 where 3: "PacketReadPod r2 = (c :: u8 option, r3)" by fastforce
  obtain m r4 where 4: "PacketReadPod r3 = (m :: u8 option, r4)" by fastforce
  obtain s r5 where 5: "PacketReadPod r4 = (s :: u32 option, r5)" by fastforce
  obtain n r6 where 6: "PacketReadPod r5 = (n :: u32 option, r6)" by fastforce
  note reads = 1 2 3 4 5 6
  show ?thesis
  proof (cases "v = None \<or> p = None \<or> c = None \<or> m = None \<or> s = None \<or> n = None")
    case True
    then have "pk_envelope (DecodeTransportPacket bs) = None"
      by (elim disjE) (simp_all add: DecodeTransportPacket_def reads packet_failure_def
          split: option.splits)
    moreover from True have "fst (packet_fields (open_packet bs)) = None"
      by (elim disjE) (simp_all add: packet_fields_def read_pair_def read_payload_def reads
          split: option.splits prod.splits bind_splits)
    ultimately show ?thesis by auto
  next
    case False
    then obtain v' p' c' m' s' n' where vs: "v = Some v'" "p = Some p'" "c = Some c'" "m = Some m'"
        "s = Some s'" "n = Some n'" by auto
    have r6: "rd_bytes r6 = bs" "rd_error r6 = Packet_None"
      using reads vs by (auto simp: PacketReadPod_def read_pod_def Let_def open_packet_def
          split: if_splits)
    have block: "rd_bytes r' = bs \<and> rd_error r' = Packet_None"
      if "ReadBytes k r6 = (Some payload, r')" for k payload r'
      using that r6 by (auto simp: ReadBytes_def split: if_splits)
    have fin: "fst (PacketFinished r') \<longleftrightarrow> rd_offset r' = length bs"
      if "ReadBytes k r6 = (Some payload, r')" for k payload r'
      using block [OF that] by (simp add: PacketFinished_def)
    have fields: "packet_fields (open_packet bs) = (Some (packet_tuple e), r') \<longleftrightarrow>
        v' = ev_protocolVersion e \<and> p' = ev_peerId e \<and> c' = u8_of_channel (ev_channel e)
        \<and> m' = u8_of_class (ev_messageClass e) \<and> s' = ev_sequence e
        \<and> unat n' \<le> kMaxNetworkPayloadBytes \<and> ReadBytes (unat n') r6 = (Some (ev_payload e), r')" for r'
      by (auto simp: packet_fields_def read_pair_def read_payload_def reads vs packet_tuple_def
          split: prod.splits option.splits bind_splits if_splits)
    have dec: "DecodeTransportPacket bs = decode_payload v' p' c' m' s' n' r6"
      by (simp add: DecodeTransportPacket_def reads vs)
    show ?thesis
      unfolding dec decode_payload_iff fields using fin
      by (cases e) (auto simp: u8_of_channel_of u8_of_class_of)
  qed
qed

lemma packet_read_error:
  assumes "PacketReadPod r = (x, r')"
  shows "x = None \<longrightarrow> rd_error r' = Packet_UnexpectedEof"
    and "rd_error r = Packet_UnexpectedEof \<longrightarrow> rd_error r' = Packet_UnexpectedEof"
  using assms by (auto simp: PacketReadPod_def read_pod_def packet_eof_def Let_def split: if_splits)

lemma DecodeTransportPacket_error:
  "pk_error (DecodeTransportPacket bs) = Packet_None \<longleftrightarrow> pk_envelope (DecodeTransportPacket bs) \<noteq> None"
proof -
  obtain v r1 where 1: "PacketReadPod (open_packet bs) = (v :: u16 option, r1)" by fastforce
  obtain p r2 where 2: "PacketReadPod r1 = (p :: u32 option, r2)" by fastforce
  obtain c r3 where 3: "PacketReadPod r2 = (c :: u8 option, r3)" by fastforce
  obtain m r4 where 4: "PacketReadPod r3 = (m :: u8 option, r4)" by fastforce
  obtain s r5 where 5: "PacketReadPod r4 = (s :: u32 option, r5)" by fastforce
  obtain n r6 where 6: "PacketReadPod r5 = (n :: u32 option, r6)" by fastforce
  note reads = 1 2 3 4 5 6
  show ?thesis
  proof (cases "v = None \<or> p = None \<or> c = None \<or> m = None \<or> s = None \<or> n = None")
    case True
    then have "rd_error r6 = Packet_UnexpectedEof" using reads [THEN packet_read_error(1)] reads [THEN packet_read_error(2)] by auto
    with True show ?thesis
      by (elim disjE) (simp_all add: DecodeTransportPacket_def reads packet_failure_def
          split: option.splits)
  next
    case False
    then obtain v' p' c' m' s' n' where vs: "v = Some v'" "p = Some p'" "c = Some c'" "m = Some m'"
        "s = Some s'" "n = Some n'" by auto
    have "MapValidationError x = Packet_None \<longleftrightarrow> Ok x" for x by (cases x) (simp_all add: Ok_def)
    then show ?thesis
      by (auto simp: DecodeTransportPacket_def reads vs decode_payload_def packet_failure_def Let_def
          ReadBytes_def packet_eof_def PacketFinished_def split: option.splits prod.splits bool.splits if_splits)
  qed
qed

lemma packet_ok_iff: "packet_ok (DecodeTransportPacket bs) \<longleftrightarrow> pk_envelope (DecodeTransportPacket bs) \<noteq> None"
  by (simp add: packet_ok_def DecodeTransportPacket_error)

interpretation packet: message_codec "{e. valid_envelope e}" EncodeTransportPacket
  "\<lambda>bs. pk_envelope (DecodeTransportPacket bs)"
proof
  have A: "packet_tuple e \<in> {(v, p, c, m, s, d). length d \<le> kMaxNetworkPayloadBytes}"
    if "valid_envelope e" for e
    using that by (simp add: packet_tuple_def valid_envelope_iff)
  have inj: "packet_tuple e = packet_tuple e' \<Longrightarrow> e = e'" for e e'
    by (cases e, cases e') (auto simp: packet_tuple_def dest: arg_cong [of _ _ channel_of_u8]
        arg_cong [of _ _ class_of_u8])
  show "pk_envelope (DecodeTransportPacket bs) = Some e \<longleftrightarrow>
      e \<in> {e. valid_envelope e} \<and> bs = EncodeTransportPacket e" for bs e
    using field_codec.decode_iff [OF field_codec_packet, of bs Packet_None "packet_tuple e"] A [of e]
    by (auto simp: DecodeTransportPacket_iff open_packet_def EncodeTransportPacket_eq)
  show "e = e'" if "e \<in> {e. valid_envelope e}" "e' \<in> {e. valid_envelope e}"
    "EncodeTransportPacket e @ xs = EncodeTransportPacket e' @ ys" for e e' xs ys
    using field_codec.prefix_free [OF field_codec_packet A A, of e e' xs ys] that
    by (auto simp: EncodeTransportPacket_eq intro: inj)
qed

end
