(* ===== verification/Rtc_Signaling.thy ===== *)
theory Rtc_Signaling
  imports Message_Codecs
begin

text \<open>
  \<open>src/Networking/src/RtcSignaling.cpp\<close>: the messages two peers exchange to set up a data
  channel, their validation and their codec. A \<open>std::string\<close> is its byte list. The codec
  interprets \<open>message_codec\<close> on the valid messages whose session name has at most 256 bytes, the
  bound that only the decoder checks.
\<close>

type_synonym std_string = "byte list"

definition bytes_of :: "string \<Rightarrow> std_string" where
  "bytes_of s = map of_char s"

definition kMaxRtcSignalingPayloadBytes :: nat where
  "kMaxRtcSignalingPayloadBytes = 32 * 1024"

datatype RtcSignalingMessageKind =
    Sig_Join | Sig_Offer | Sig_Answer | Sig_IceCandidate | Sig_DataChannelReady | Sig_Leave | Sig_Error

record RtcSignalingMessage =
  sg_kind :: RtcSignalingMessageKind
  sg_senderPeerId :: ClientId
  sg_targetPeerId :: ClientId
  sg_sequence :: u32
  sg_sessionId :: std_string
  sg_payload :: std_string

datatype RtcSignalingValidationError =
    Signal_NoError | Signal_MissingSender | Signal_MissingSession | Signal_PayloadTooLarge

datatype RtcSignalingDecodeError =
    Signal_None | Signal_UnexpectedEof | Signal_InvalidKind | Signal_InvalidCount
  | Signal_ValidationFailed | Signal_TrailingBytes

definition ValidateRtcSignalingMessage :: "RtcSignalingMessage \<Rightarrow> RtcSignalingValidationError" where
  "ValidateRtcSignalingMessage message =
     (if sg_senderPeerId message = 0 then Signal_MissingSender
      else if sg_sessionId message = [] then Signal_MissingSession
      else if length (sg_payload message) > kMaxRtcSignalingPayloadBytes then Signal_PayloadTooLarge
      else Signal_NoError)"

abbreviation valid_signal :: "RtcSignalingMessage \<Rightarrow> bool" where
  "valid_signal m \<equiv> ValidateRtcSignalingMessage m = Signal_NoError"

lemma valid_signal_iff:
  "valid_signal m \<longleftrightarrow> sg_senderPeerId m \<noteq> 0 \<and> sg_sessionId m \<noteq> []
     \<and> length (sg_payload m) \<le> kMaxRtcSignalingPayloadBytes"
  by (auto simp: ValidateRtcSignalingMessage_def)

section \<open>The reader\<close>

type_synonym sreader = "RtcSignalingDecodeError reader"

definition open_signal :: "byte list \<Rightarrow> sreader" where
  "open_signal bytes = \<lparr>rd_bytes = bytes, rd_offset = 0, rd_error = Signal_None\<rparr>"

definition SignalFail :: "RtcSignalingDecodeError \<Rightarrow> sreader \<Rightarrow> sreader" where
  "SignalFail error r = (if rd_error r = Signal_None then r\<lparr>rd_error := error\<rparr> else r)"

definition SignalReadPod :: "sreader \<Rightarrow> 'a::len word option \<times> sreader" where
  "SignalReadPod = read_pod (SignalFail Signal_UnexpectedEof)"

definition ReadString :: "nat \<Rightarrow> sreader \<Rightarrow> std_string option \<times> sreader" where
  "ReadString maxBytes r =
     (case SignalReadPod r of
        (None, r) \<Rightarrow> (None, r)
      | (Some byteCount, r) \<Rightarrow>
          if unat (byteCount :: u32) > maxBytes \<or> rd_offset r + unat byteCount > length (rd_bytes r)
          then (None, SignalFail Signal_InvalidCount r)
          else (Some (take (unat byteCount) (drop (rd_offset r) (rd_bytes r))), advance (unat byteCount) r))"

definition SignalFinished :: "sreader \<Rightarrow> bool \<times> sreader" where
  "SignalFinished r =
     (if rd_error r \<noteq> Signal_None then (False, r)
      else if rd_offset r \<noteq> length (rd_bytes r) then (False, SignalFail Signal_TrailingBytes r)
      else (True, r))"

definition WriteString :: "std_string \<Rightarrow> byte list \<Rightarrow> byte list" where
  "WriteString value w = WritePod (of_nat (length value) :: u32) w @ value"

fun u8_of_signal_kind :: "RtcSignalingMessageKind \<Rightarrow> u8" where
  "u8_of_signal_kind Sig_Join = 0"
| "u8_of_signal_kind Sig_Offer = 1"
| "u8_of_signal_kind Sig_Answer = 2"
| "u8_of_signal_kind Sig_IceCandidate = 3"
| "u8_of_signal_kind Sig_DataChannelReady = 4"
| "u8_of_signal_kind Sig_Leave = 5"
| "u8_of_signal_kind Sig_Error = 6"

definition signal_kind_of_u8 :: "u8 \<Rightarrow> RtcSignalingMessageKind" where
  "signal_kind_of_u8 v = (if v = 0 then Sig_Join else if v = 1 then Sig_Offer
     else if v = 2 then Sig_Answer else if v = 3 then Sig_IceCandidate
     else if v = 4 then Sig_DataChannelReady else if v = 5 then Sig_Leave else Sig_Error)"

definition IsValidKind :: "u8 \<Rightarrow> bool" where
  "IsValidKind v \<longleftrightarrow> v \<le> u8_of_signal_kind Sig_Error"

lemma signal_kind_of_u8_of [simp]:
  "signal_kind_of_u8 (u8_of_signal_kind k) = k" "IsValidKind (u8_of_signal_kind k)"
  by (cases k; simp add: signal_kind_of_u8_def IsValidKind_def)+

lemma u8_of_signal_kind_of: "IsValidKind v \<Longrightarrow> u8_of_signal_kind (signal_kind_of_u8 v) = v"
proof -
  assume "IsValidKind v"
  then have "v \<le> 6" by (simp add: IsValidKind_def)
  from u8_le_cases [OF this] show ?thesis
    by (simp add: atMost_nat_numeral atMost_Suc, auto simp: signal_kind_of_u8_def)
qed

section \<open>Encoding and decoding\<close>

record RtcSignalingDecodeResult =
  sr_message :: "RtcSignalingMessage option"
  sr_error :: RtcSignalingDecodeError

definition signal_ok :: "RtcSignalingDecodeResult \<Rightarrow> bool" where
  "signal_ok res \<longleftrightarrow> sr_message res \<noteq> None \<and> sr_error res = Signal_None"

definition SerializeRtcSignalingMessage :: "RtcSignalingMessage \<Rightarrow> byte list" where
  "SerializeRtcSignalingMessage message =
     (let w = WritePod (u8_of_signal_kind (sg_kind message)) [];
          w = WritePod (sg_senderPeerId message) w;
          w = WritePod (sg_targetPeerId message) w;
          w = WritePod (sg_sequence message) w;
          w = WriteString (sg_sessionId message) w
      in WriteString (sg_payload message) w)"

definition signal_failure :: "RtcSignalingDecodeError \<Rightarrow> RtcSignalingDecodeResult" where
  "signal_failure e = \<lparr>sr_message = None, sr_error = e\<rparr>"

text \<open>The checks after the reads.\<close>

definition finish_signal ::
    "u8 \<Rightarrow> ClientId \<Rightarrow> ClientId \<Rightarrow> u32 \<Rightarrow> std_string \<Rightarrow> std_string \<Rightarrow> sreader \<Rightarrow> RtcSignalingDecodeResult" where
  "finish_signal kind sender target sequence sessionId payload r =
     (if \<not> IsValidKind kind then signal_failure Signal_InvalidKind
      else
      case SignalFinished r of
        (False, r) \<Rightarrow> signal_failure (rd_error r)
      | (True, r) \<Rightarrow>
          let message = \<lparr>sg_kind = signal_kind_of_u8 kind, sg_senderPeerId = sender,
                sg_targetPeerId = target, sg_sequence = sequence, sg_sessionId = sessionId,
                sg_payload = payload\<rparr>
          in if ValidateRtcSignalingMessage message \<noteq> Signal_NoError
             then signal_failure Signal_ValidationFailed
             else \<lparr>sr_message = Some message, sr_error = Signal_None\<rparr>)"

definition DeserializeRtcSignalingMessage :: "byte list \<Rightarrow> RtcSignalingDecodeResult" where
  "DeserializeRtcSignalingMessage bytes =
     (let r = open_signal bytes;
          (kind, r) = SignalReadPod r;
          (sender, r) = SignalReadPod r;
          (target, r) = SignalReadPod r;
          (sequence, r) = SignalReadPod r;
          (sessionId, r) = ReadString 256 r;
          (payload, r) = ReadString kMaxRtcSignalingPayloadBytes r
      in case (kind, sender, target, sequence, sessionId, payload) of
           (Some kind, Some sender, Some target, Some sequence, Some sessionId, Some payload) \<Rightarrow>
             finish_signal kind sender target sequence sessionId payload r
         | _ \<Rightarrow> signal_failure (rd_error r))"

section \<open>The codec\<close>

lemma field_codec_SignalReadPod [field_codecs]:
  "LENGTH('a::len) = 8 * (LENGTH('a) div 8) \<Longrightarrow> field_codec UNIV (pod_bytes :: 'a word \<Rightarrow> _) SignalReadPod"
  unfolding SignalReadPod_def by (rule field_codec_pod)

lemma field_codec_ReadString [field_codecs]:
  assumes "mx < 2 ^ 32"
  shows "field_codec {p. length p \<le> mx} counted_bytes (ReadString mx)"
proof (rule field_codec_counted [where pod = SignalReadPod, OF _ assms])
  show "field_codec UNIV pod_bytes (SignalReadPod :: sreader \<Rightarrow> u32 option \<times> sreader)"
    by (rule field_codec_SignalReadPod) simp
  show "ReadString mx r = (Some x, r') \<longleftrightarrow> (\<exists>n r1. SignalReadPod r = (Some (n :: u32), r1)
        \<and> unat n \<le> mx \<and> rd_offset r1 + unat n \<le> length (rd_bytes r1)
        \<and> x = take (unat n) (rest_of r1) \<and> r' = advance (unat n) r1)" for r x r'
    by (auto simp: ReadString_def rest_of_def not_less split: prod.splits option.splits if_splits)
qed

definition signal_fields ::
    "sreader \<Rightarrow> (u8 \<times> ClientId \<times> ClientId \<times> u32 \<times> std_string \<times> std_string) option \<times> sreader" where
  "signal_fields = read_pair SignalReadPod (read_pair SignalReadPod (read_pair SignalReadPod
     (read_pair SignalReadPod (read_pair (ReadString 256) (ReadString kMaxRtcSignalingPayloadBytes)))))"

definition signal_tuple ::
    "RtcSignalingMessage \<Rightarrow> u8 \<times> ClientId \<times> ClientId \<times> u32 \<times> std_string \<times> std_string" where
  "signal_tuple m = (u8_of_signal_kind (sg_kind m), sg_senderPeerId m, sg_targetPeerId m,
     sg_sequence m, sg_sessionId m, sg_payload m)"

definition signal_bytes :: "u8 \<times> ClientId \<times> ClientId \<times> u32 \<times> std_string \<times> std_string \<Rightarrow> byte list" where
  "signal_bytes = (\<lambda>(k, s, t, n, i, p). pod_bytes k @ pod_bytes s @ pod_bytes t @ pod_bytes n
     @ counted_bytes i @ counted_bytes p)"

abbreviation signal_tuples :: "(u8 \<times> ClientId \<times> ClientId \<times> u32 \<times> std_string \<times> std_string) set" where
  "signal_tuples \<equiv> {(k, s, t, n, i, p). length i \<le> 256 \<and> length p \<le> kMaxRtcSignalingPayloadBytes}"

lemma field_codec_signal: "field_codec signal_tuples signal_bytes signal_fields"
proof (rule field_codec_cong)
  let ?e = "\<lambda>(x, y). pod_bytes x @ (case y of (x, y) \<Rightarrow> pod_bytes x @ (case y of (x, y) \<Rightarrow>
      pod_bytes x @ (case y of (x, y) \<Rightarrow> pod_bytes x @ (case y of (x, y) \<Rightarrow>
        counted_bytes x @ counted_bytes y))))"
  have "field_codec (UNIV \<times> UNIV \<times> UNIV \<times> UNIV \<times> {p. length p \<le> 256}
      \<times> {p. length p \<le> kMaxRtcSignalingPayloadBytes}) ?e signal_fields"
    unfolding signal_fields_def
    by (intro field_codecs) (simp_all add: kMaxRtcSignalingPayloadBytes_def)
  moreover have "UNIV \<times> UNIV \<times> UNIV \<times> UNIV \<times> {p. length p \<le> 256}
      \<times> {p. length p \<le> kMaxRtcSignalingPayloadBytes} = signal_tuples" by auto
  ultimately show "field_codec signal_tuples ?e signal_fields"
    by (rule back_subst [where P = "\<lambda>A. field_codec A _ _"])
qed (auto simp: signal_bytes_def)

lemma SerializeRtcSignalingMessage_eq: "SerializeRtcSignalingMessage m = signal_bytes (signal_tuple m)"
  by (simp add: SerializeRtcSignalingMessage_def signal_bytes_def signal_tuple_def Let_def WritePod_def
      WriteString_def counted_bytes_def)

lemma finish_signal_iff:
  "sr_message (finish_signal k s t n i p r) = Some m \<longleftrightarrow>
     IsValidKind k \<and> fst (SignalFinished r)
     \<and> m = \<lparr>sg_kind = signal_kind_of_u8 k, sg_senderPeerId = s, sg_targetPeerId = t, sg_sequence = n,
            sg_sessionId = i, sg_payload = p\<rparr>
     \<and> valid_signal m"
  by (auto simp: finish_signal_def signal_failure_def Let_def split: prod.splits bool.splits if_splits)

text \<open>A read that succeeds keeps the error; one that fails leaves one, and it stays.\<close>

lemma signal_read_some:
  assumes "SignalReadPod r = (x, r')"
  shows "rd_bytes r' = rd_bytes r" "x \<noteq> None \<Longrightarrow> rd_error r' = rd_error r"
    "x = None \<or> rd_error r \<noteq> Signal_None \<Longrightarrow> rd_error r' \<noteq> Signal_None"
  using assms by (auto simp: SignalReadPod_def read_pod_def SignalFail_def Let_def split: if_splits)

lemma ReadString_some:
  assumes "ReadString mx r = (x, r')"
  shows "rd_bytes r' = rd_bytes r" "x \<noteq> None \<Longrightarrow> rd_error r' = rd_error r"
    "x = None \<or> rd_error r \<noteq> Signal_None \<Longrightarrow> rd_error r' \<noteq> Signal_None"
proof -
  obtain n r1 where n: "SignalReadPod r = (n :: u32 option, r1)" by fastforce
  note r1 = signal_read_some [OF n]
  show "rd_bytes r' = rd_bytes r" "x \<noteq> None \<Longrightarrow> rd_error r' = rd_error r"
    "x = None \<or> rd_error r \<noteq> Signal_None \<Longrightarrow> rd_error r' \<noteq> Signal_None"
    using assms r1 by (auto simp: ReadString_def n SignalFail_def split: option.splits if_splits)
qed

lemma DeserializeRtcSignalingMessage_iff:
  "sr_message (DeserializeRtcSignalingMessage bs) = Some x \<longleftrightarrow>
     valid_signal x \<and> (\<exists>r'. signal_fields (open_signal bs) = (Some (signal_tuple x), r')
       \<and> rd_offset r' = length bs)"
proof -
  obtain k r1 where 1: "SignalReadPod (open_signal bs) = (k :: u8 option, r1)" by fastforce
  obtain s r2 where 2: "SignalReadPod r1 = (s :: u32 option, r2)" by fastforce
  obtain t r3 where 3: "SignalReadPod r2 = (t :: u32 option, r3)" by fastforce
  obtain n r4 where 4: "SignalReadPod r3 = (n :: u32 option, r4)" by fastforce
  obtain i r5 where 5: "ReadString 256 r4 = (i, r5)" by fastforce
  obtain p r6 where 6: "ReadString kMaxRtcSignalingPayloadBytes r5 = (p, r6)" by fastforce
  note reads = 1 2 3 4 5 6
  have fields: "signal_fields (open_signal bs) = (do { k \<leftarrow> k; s \<leftarrow> s; t \<leftarrow> t; n \<leftarrow> n; i \<leftarrow> i; p \<leftarrow> p;
      Some (k, s, t, n, i, p) }, r6)"
    by (simp add: signal_fields_def read_pair_def reads split: prod.splits bind_splits)
  show ?thesis
  proof (cases "k = None \<or> s = None \<or> t = None \<or> n = None \<or> i = None \<or> p = None")
    case True
    then have "sr_message (DeserializeRtcSignalingMessage bs) = None"
      by (elim disjE) (simp_all add: DeserializeRtcSignalingMessage_def reads signal_failure_def
          split: option.splits)
    moreover from True have "fst (signal_fields (open_signal bs)) = None"
      unfolding fields by (elim disjE) (simp_all split: bind_splits)
    ultimately show ?thesis by auto
  next
    case False
    then obtain k' s' t' n' i' p' where vs: "k = Some k'" "s = Some s'" "t = Some t'" "n = Some n'"
        "i = Some i'" "p = Some p'" by auto
    have "rd_bytes r6 = bs \<and> rd_error r6 = Signal_None"
      using signal_read_some [OF 1] signal_read_some [OF 2] signal_read_some [OF 3]
        signal_read_some [OF 4] ReadString_some [OF 5] ReadString_some [OF 6]
      by (simp add: vs open_signal_def)
    then have fin: "fst (SignalFinished r6) \<longleftrightarrow> rd_offset r6 = length bs"
      by (simp add: SignalFinished_def)
    have dec: "DeserializeRtcSignalingMessage bs = finish_signal k' s' t' n' i' p' r6"
      by (simp add: DeserializeRtcSignalingMessage_def reads vs)
    show ?thesis
      unfolding dec finish_signal_iff fields vs fin
      by (cases x) (auto simp: signal_tuple_def u8_of_signal_kind_of)
  qed
qed

lemma DeserializeRtcSignalingMessage_error:
  "sr_error (DeserializeRtcSignalingMessage bs) = Signal_None \<longleftrightarrow>
     sr_message (DeserializeRtcSignalingMessage bs) \<noteq> None"
proof -
  obtain k r1 where 1: "SignalReadPod (open_signal bs) = (k :: u8 option, r1)" by fastforce
  obtain s r2 where 2: "SignalReadPod r1 = (s :: u32 option, r2)" by fastforce
  obtain t r3 where 3: "SignalReadPod r2 = (t :: u32 option, r3)" by fastforce
  obtain n r4 where 4: "SignalReadPod r3 = (n :: u32 option, r4)" by fastforce
  obtain i r5 where 5: "ReadString 256 r4 = (i, r5)" by fastforce
  obtain p r6 where 6: "ReadString kMaxRtcSignalingPayloadBytes r5 = (p, r6)" by fastforce
  note reads = 1 2 3 4 5 6
  show ?thesis
  proof (cases "k = None \<or> s = None \<or> t = None \<or> n = None \<or> i = None \<or> p = None")
    case True
    then have "rd_error r6 \<noteq> Signal_None"
      using signal_read_some(3) [OF 1] signal_read_some(3) [OF 2] signal_read_some(3) [OF 3]
        signal_read_some(3) [OF 4] ReadString_some(3) [OF 5] ReadString_some(3) [OF 6] by blast
    with True show ?thesis
      by (elim disjE) (simp_all add: DeserializeRtcSignalingMessage_def reads signal_failure_def
          split: option.splits)
  next
    case False
    then obtain k' s' t' n' i' p' where "k = Some k'" "s = Some s'" "t = Some t'" "n = Some n'"
        "i = Some i'" "p = Some p'" by auto
    then show ?thesis
      by (simp add: DeserializeRtcSignalingMessage_def reads finish_signal_def signal_failure_def Let_def
          SignalFinished_def SignalFail_def)
  qed
qed

lemma signal_ok_iff:
  "signal_ok (DeserializeRtcSignalingMessage bs) \<longleftrightarrow> sr_message (DeserializeRtcSignalingMessage bs) \<noteq> None"
  by (simp add: signal_ok_def DeserializeRtcSignalingMessage_error)

interpretation signal: message_codec "{m. valid_signal m \<and> length (sg_sessionId m) \<le> 256}"
  SerializeRtcSignalingMessage "\<lambda>bs. sr_message (DeserializeRtcSignalingMessage bs)"
proof
  have A: "signal_tuple m \<in> signal_tuples" if "valid_signal m" "length (sg_sessionId m) \<le> 256" for m
    using that by (simp add: signal_tuple_def valid_signal_iff)
  have A': "length (sg_sessionId m) \<le> 256" if "signal_tuple m \<in> signal_tuples" for m
    using that by (simp add: signal_tuple_def)
  have inj: "signal_tuple m = signal_tuple m' \<Longrightarrow> m = m'" for m m'
    by (cases m, cases m') (auto simp: signal_tuple_def dest: arg_cong [of _ _ signal_kind_of_u8])
  show "sr_message (DeserializeRtcSignalingMessage bs) = Some m \<longleftrightarrow>
      m \<in> {m. valid_signal m \<and> length (sg_sessionId m) \<le> 256} \<and> bs = SerializeRtcSignalingMessage m" for bs m
    using field_codec.decode_iff [OF field_codec_signal, of bs Signal_None "signal_tuple m"] A [of m] A' [of m]
    by (auto simp: DeserializeRtcSignalingMessage_iff open_signal_def SerializeRtcSignalingMessage_eq)
  show "m = m'" if "m \<in> {m. valid_signal m \<and> length (sg_sessionId m) \<le> 256}"
    "m' \<in> {m. valid_signal m \<and> length (sg_sessionId m) \<le> 256}"
    "SerializeRtcSignalingMessage m @ xs = SerializeRtcSignalingMessage m' @ ys" for m m' xs ys
    using field_codec.prefix_free [OF field_codec_signal A A, of m m' xs ys] that
    by (auto simp: SerializeRtcSignalingMessage_eq intro: inj)
qed

end
