(* ===== verification/Transport.thy ===== *)
theory Transport
  imports Network_Protocol "HOL-Library.Monad_Syntax"
begin

text \<open>
  \<open>src/Networking/include/Networking/ITransport.hpp\<close>. The abstract class is a record of its
  operations over the state of an implementation; the locale \<open>transport\<close> holds the laws that the
  server host and the client sessions rely on, and each implementation of the repository interprets
  it. \<open>poll_loop\<close> is the loop \<open>while (auto x = source.Poll())\<close> that the server, the client and the
  pumps share; it has the value \<open>None\<close> when the loop does not end, so that ending is something to prove.
\<close>

section \<open>The interface\<close>

datatype TransportState = Disconnected | Connecting | Connected | Closing | Failed

datatype TransportError =
    TE_None | TE_NotConnected | TE_ProtocolRejected | TE_NotImplemented | TE_InvalidConfiguration
  | TE_PeerClosed

text \<open>The counters are \<open>size_t\<close>; they are natural numbers here, which no run wraps.\<close>

record TransportStats =
  st_envelopesSent :: nat
  st_envelopesReceived :: nat
  st_sendFailures :: nat
  st_receiveFailures :: nat
  st_bytesSent :: nat
  st_bytesReceived :: nat
  st_envelopesDroppedByCondition :: nat
  st_envelopesDelayedByCondition :: nat

definition zero_TransportStats :: TransportStats where
  "zero_TransportStats = \<lparr>st_envelopesSent = 0, st_envelopesReceived = 0, st_sendFailures = 0,
     st_receiveFailures = 0, st_bytesSent = 0, st_bytesReceived = 0,
     st_envelopesDroppedByCondition = 0, st_envelopesDelayedByCondition = 0\<rparr>"

record 't transport_ops =
  tp_connect :: "'t \<Rightarrow> bool \<times> 't"
  tp_update :: "'t \<Rightarrow> 't"
  tp_close :: "'t \<Rightarrow> 't"
  tp_send :: "NetworkEnvelope \<Rightarrow> 't \<Rightarrow> bool \<times> 't"
  tp_poll :: "'t \<Rightarrow> NetworkEnvelope option \<times> 't"
  tp_state :: "'t \<Rightarrow> TransportState"
  tp_stats :: "'t \<Rightarrow> TransportStats"
  tp_lastError :: "'t \<Rightarrow> TransportError"

section \<open>Poll loops\<close>

partial_function (option) poll_loop ::
    "('s \<Rightarrow> 'e option \<times> 's) \<Rightarrow> ('e \<Rightarrow> 's \<Rightarrow> 's) \<Rightarrow> 's \<Rightarrow> 's option" where
  "poll_loop poll body s =
     (case poll s of
        (None, s') \<Rightarrow> Some s'
      | (Some e, s') \<Rightarrow> poll_loop poll body (body e s'))"

text \<open>
  A loop whose iterations keep an invariant and make a measure smaller ends, in a state where the
  invariant holds.
\<close>

lemma poll_loop_returns:
  assumes "Inv s"
    and some: "\<And>s e s'. Inv s \<Longrightarrow> poll s = (Some e, s') \<Longrightarrow> Inv (body e s') \<and> (m (body e s') :: nat) < m s"
    and none: "\<And>s s'. Inv s \<Longrightarrow> poll s = (None, s') \<Longrightarrow> Inv s' \<and> Post s'"
  shows "\<exists>s'. poll_loop poll body s = Some s' \<and> Inv s' \<and> Post s'"
  using assms(1)
proof (induction "m s" arbitrary: s rule: less_induct)
  case less
  show ?case
  proof (cases "poll s")
    case (Pair r s')
    show ?thesis
    proof (cases r)
      case None
      then show ?thesis using none [OF less.prems] Pair by (simp add: poll_loop.simps)
    next
      case (Some e)
      then have "Inv (body e s')" "m (body e s') < m s" using some [OF less.prems] Pair by auto
      then show ?thesis using less.hyps [of "body e s'"] Pair Some
        by (subst poll_loop.simps) simp
    qed
  qed
qed

section \<open>The contract\<close>

text \<open>
  \<open>ok\<close> is the invariant of an implementation and \<open>backlog\<close> the number of envelopes it has to hand
  out. A poll takes one of them, and it is valid; a send accepts only valid envelopes on an open
  connection and adds nothing to the sender's own backlog. What handlers do to a transport is sending, so
  what they keep needs \<open>sending\<close> only.
\<close>

locale sending =
  fixes T :: "'t transport_ops" and ok :: "'t \<Rightarrow> bool" and backlog :: "'t \<Rightarrow> nat"
  assumes send_ok: "ok t \<Longrightarrow> tp_send T e t = (b, t') \<Longrightarrow> ok t' \<and> backlog t' \<le> backlog t"
begin

text \<open>Sends in a row, as a handler makes them.\<close>

lemma sends_ok:
  assumes "ok t"
  shows "ok (fold (\<lambda>e t. snd (tp_send T e t)) es t)
     \<and> backlog (fold (\<lambda>e t. snd (tp_send T e t)) es t) \<le> backlog t"
  using assms
proof (induction es arbitrary: t)
  case (Cons e es)
  obtain b t' where t': "tp_send T e t = (b, t')" by fastforce
  from send_ok [OF Cons.prems t'] Cons.IH [of t'] show ?case by (simp add: t')
qed simp

end

locale transport = sending T ok backlog
  for T :: "'t transport_ops" and ok :: "'t \<Rightarrow> bool" and backlog :: "'t \<Rightarrow> nat" +
  assumes connect_ok: "ok t \<Longrightarrow> tp_connect T t = (b, t') \<Longrightarrow> ok t'"
    and update_ok: "ok t \<Longrightarrow> ok (tp_update T t)"
    and close_ok: "ok t \<Longrightarrow> ok (tp_close T t)"
    and send_valid: "ok t \<Longrightarrow> tp_send T e t = (True, t') \<Longrightarrow> valid_envelope e \<and> tp_state T t' = Connected"
    and poll_none: "ok t \<Longrightarrow> tp_poll T t = (None, t') \<Longrightarrow> ok t' \<and> backlog t' \<le> backlog t"
    and poll_some: "ok t \<Longrightarrow> tp_poll T t = (Some e, t') \<Longrightarrow> ok t' \<and> valid_envelope e \<and> backlog t' < backlog t"
begin

text \<open>
  A loop that polls the transport \<open>get s\<close> inside a larger state ends, when its body touches the
  transport only by sending.
\<close>

lemma loop_returns:
  assumes "ok (get s)" and "Inv s"
    and get: "\<And>t s. get (put t s) = t"
    and body: "\<And>e s. ok (get s) \<Longrightarrow> valid_envelope e \<Longrightarrow> ok (get (body e s)) \<and> backlog (get (body e s)) \<le> backlog (get s)"
    and inv: "\<And>e t s. Inv s \<Longrightarrow> valid_envelope e \<Longrightarrow> Inv (body e (put t s))" "\<And>t s. Inv s \<Longrightarrow> Inv (put t s)"
  shows "\<exists>s'. poll_loop (\<lambda>s. let (e, t) = tp_poll T (get s) in (e, put t s)) body s = Some s'
     \<and> (ok (get s') \<and> Inv s') \<and> True"
proof (rule poll_loop_returns [where m = "\<lambda>s. backlog (get s)"])
  show "ok (get s) \<and> Inv s" using assms(1,2) ..
next
  fix s e s'
  assume s: "ok (get s) \<and> Inv s" and "(let (e, t) = tp_poll T (get s) in (e, put t s)) = (Some e, s')"
  then obtain t where t: "tp_poll T (get s) = (Some e, t)" "s' = put t s"
    by (auto split: prod.splits)
  from poll_some [OF _ t(1)] s have "ok t" "valid_envelope e" "backlog t < backlog (get s)" by auto
  with body [of s' e] inv(1) [of s e t] s show "(ok (get (body e s')) \<and> Inv (body e s'))
      \<and> backlog (get (body e s')) < backlog (get s)"
    by (simp add: t(2) get)
next
  fix s s'
  assume s: "ok (get s) \<and> Inv s" and "(let (e, t) = tp_poll T (get s) in (e, put t s)) = (None, s')"
  then obtain t where t: "tp_poll T (get s) = (None, t)" "s' = put t s"
    by (auto split: prod.splits)
  from poll_none [OF _ t(1)] s inv(2) show "(ok (get s') \<and> Inv s') \<and> True" by (simp add: t(2) get)
qed

end

end
