(* ===== verification/Kcp_Transport.thy ===== *)
theory Kcp_Transport
  imports Packet_Codec Rtc_Signaling Transport
begin

text \<open>
  \<open>src/Networking/src/KcpRtcTransport.cpp\<close>: the transport over a data channel that two peers set up
  by signaling messages. It queues outgoing signals and frames, which a pump takes out, and is fed
  with incoming signals and frames.

  The invariant \<open>kcp_ok\<close> ties the connection phase to the transport state and the buffered byte
  count to the queued frames; every operation keeps it, and it interprets the locale \<open>transport\<close>.
\<close>

section \<open>State\<close>

datatype KcpRtcRole = Role_Client | Role_Server

record KcpRtcTransportConfig =
  kc_role :: KcpRtcRole
  kc_localPeerId :: ClientId
  kc_peerName :: std_string
  kc_signalingUrl :: std_string
  kc_dataChannelLabel :: std_string
  kc_maxBufferedAmountBytes :: nat
  kc_unorderedDataChannel :: bool
  kc_sessionId :: std_string

definition default_KcpConfig :: KcpRtcTransportConfig where
  "default_KcpConfig = \<lparr>kc_role = Role_Client, kc_localPeerId = 0, kc_peerName = [],
     kc_signalingUrl = [], kc_dataChannelLabel = bytes_of ''game'',
     kc_maxBufferedAmountBytes = 1024 * 1024, kc_unorderedDataChannel = True,
     kc_sessionId = bytes_of ''default''\<rparr>"

datatype KcpRtcConnectionPhase =
  Phase_Disconnected | Phase_Signaling | Phase_DataChannelConnecting | Phase_Connected | Phase_Failed

record KcpRtcTransportDiagnostics =
  kd_phase :: KcpRtcConnectionPhase
  kd_outgoingSignalsQueued :: nat
  kd_outgoingFramesQueued :: nat
  kd_incomingFramesQueued :: nat

record KcpRtcTransport =
  kt_config :: KcpRtcTransportConfig
  kt_state :: TransportState
  kt_phase :: KcpRtcConnectionPhase
  kt_stats :: TransportStats
  kt_lastError :: TransportError
  kt_nextSignalSequence :: u32
  kt_remotePeerId :: ClientId
  kt_outgoingSignals :: "RtcSignalingMessage list"
  kt_outgoingFrames :: "byte list list"
  kt_incomingEnvelopes :: "NetworkEnvelope list"
  kt_bufferedOutgoingFrameBytes :: nat
  kt_localDataChannelReady :: bool

definition new_KcpRtcTransport :: "KcpRtcTransportConfig \<Rightarrow> KcpRtcTransport" where
  "new_KcpRtcTransport config =
     \<lparr>kt_config = config, kt_state = Disconnected, kt_phase = Phase_Disconnected,
      kt_stats = zero_TransportStats, kt_lastError = TE_None, kt_nextSignalSequence = 1,
      kt_remotePeerId = 0, kt_outgoingSignals = [], kt_outgoingFrames = [], kt_incomingEnvelopes = [],
      kt_bufferedOutgoingFrameBytes = 0, kt_localDataChannelReady = False\<rparr>"

section \<open>Operations\<close>

definition HasValidConfig :: "KcpRtcTransport \<Rightarrow> bool" where
  "HasValidConfig t \<longleftrightarrow>
     (let c = kt_config t
      in kc_localPeerId c \<noteq> 0 \<and> kc_peerName c \<noteq> [] \<and> kc_signalingUrl c \<noteq> []
         \<and> kc_dataChannelLabel c \<noteq> [] \<and> kc_maxBufferedAmountBytes c \<noteq> 0 \<and> kc_sessionId c \<noteq> [])"

definition QueueSignal :: "RtcSignalingMessageKind \<Rightarrow> ClientId \<Rightarrow> std_string \<Rightarrow> KcpRtcTransport \<Rightarrow> KcpRtcTransport" where
  "QueueSignal kind targetPeerId payload t =
     t\<lparr>kt_outgoingSignals := kt_outgoingSignals t @
         [\<lparr>sg_kind = kind, sg_senderPeerId = kc_localPeerId (kt_config t), sg_targetPeerId = targetPeerId,
           sg_sequence = kt_nextSignalSequence t, sg_sessionId = kc_sessionId (kt_config t),
           sg_payload = payload\<rparr>],
       kt_nextSignalSequence := kt_nextSignalSequence t + 1\<rparr>"

definition TransitionToConnected :: "KcpRtcTransport \<Rightarrow> KcpRtcTransport" where
  "TransitionToConnected t = t\<lparr>kt_state := Connected, kt_phase := Phase_Connected\<rparr>"

definition Kcp_Connect :: "KcpRtcTransport \<Rightarrow> bool \<times> KcpRtcTransport" where
  "Kcp_Connect t =
     (if \<not> HasValidConfig t
      then (False, t\<lparr>kt_state := Failed, kt_phase := Phase_Failed, kt_lastError := TE_InvalidConfiguration\<rparr>)
      else
      let t = t\<lparr>kt_state := Connecting, kt_phase := Phase_Signaling, kt_lastError := TE_None\<rparr>;
          t = QueueSignal Sig_Join 0 (kc_peerName (kt_config t)) t;
          t = (if kc_role (kt_config t) = Role_Client
               then QueueSignal Sig_Offer 0 (kc_dataChannelLabel (kt_config t)) t else t)
      in (True, t))"

definition Kcp_Update :: "KcpRtcTransport \<Rightarrow> KcpRtcTransport" where
  "Kcp_Update t = t"

definition Kcp_Close :: "KcpRtcTransport \<Rightarrow> KcpRtcTransport" where
  "Kcp_Close t = t\<lparr>kt_state := Disconnected, kt_phase := Phase_Disconnected, kt_lastError := TE_None,
     kt_outgoingSignals := [], kt_outgoingFrames := [], kt_incomingEnvelopes := [],
     kt_bufferedOutgoingFrameBytes := 0, kt_remotePeerId := 0, kt_localDataChannelReady := False\<rparr>"

definition kcp_send_failure :: "TransportError \<Rightarrow> KcpRtcTransport \<Rightarrow> bool \<times> KcpRtcTransport" where
  "kcp_send_failure e t =
     (False, t\<lparr>kt_stats := (kt_stats t)\<lparr>st_sendFailures := st_sendFailures (kt_stats t) + 1\<rparr>, kt_lastError := e\<rparr>)"

definition Kcp_Send :: "NetworkEnvelope \<Rightarrow> KcpRtcTransport \<Rightarrow> bool \<times> KcpRtcTransport" where
  "Kcp_Send envelope t =
     (if \<not> Ok (ValidateEnvelope envelope) then kcp_send_failure TE_ProtocolRejected t
      else if kt_state t \<noteq> Connected then kcp_send_failure TE_NotConnected t
      else
      let frame = EncodeTransportPacket envelope
      in if kt_bufferedOutgoingFrameBytes t + length frame > kc_maxBufferedAmountBytes (kt_config t)
         then kcp_send_failure TE_ProtocolRejected t
         else (True, t\<lparr>kt_stats := (kt_stats t)\<lparr>st_bytesSent := st_bytesSent (kt_stats t) + length frame,
                         st_envelopesSent := st_envelopesSent (kt_stats t) + 1\<rparr>,
                       kt_bufferedOutgoingFrameBytes := kt_bufferedOutgoingFrameBytes t + length frame,
                       kt_outgoingFrames := kt_outgoingFrames t @ [frame],
                       kt_lastError := TE_None\<rparr>))"

definition Kcp_Poll :: "KcpRtcTransport \<Rightarrow> NetworkEnvelope option \<times> KcpRtcTransport" where
  "Kcp_Poll t =
     (case kt_incomingEnvelopes t of
        [] \<Rightarrow> (None, t)
      | envelope # rest \<Rightarrow>
          (Some envelope, t\<lparr>kt_incomingEnvelopes := rest,
             kt_stats := (kt_stats t)\<lparr>st_envelopesReceived := st_envelopesReceived (kt_stats t) + 1,
               st_bytesReceived := st_bytesReceived (kt_stats t) + length (ev_payload envelope)\<rparr>,
             kt_lastError := TE_None\<rparr>))"

definition Diagnostics :: "KcpRtcTransport \<Rightarrow> KcpRtcTransportDiagnostics" where
  "Diagnostics t = \<lparr>kd_phase = kt_phase t, kd_outgoingSignalsQueued = length (kt_outgoingSignals t),
     kd_outgoingFramesQueued = length (kt_outgoingFrames t),
     kd_incomingFramesQueued = length (kt_incomingEnvelopes t)\<rparr>"

definition NotifyDataChannelReady :: "KcpRtcTransport \<Rightarrow> bool \<times> KcpRtcTransport" where
  "NotifyDataChannelReady t =
     (if kt_state t = Disconnected \<or> kt_state t = Failed then (False, t\<lparr>kt_lastError := TE_NotConnected\<rparr>)
      else
      let t = (if \<not> kt_localDataChannelReady t
               then (QueueSignal Sig_DataChannelReady (kt_remotePeerId t) [] t)\<lparr>kt_localDataChannelReady := True\<rparr>
               else t)
      in (True, (TransitionToConnected t)\<lparr>kt_lastError := TE_None\<rparr>))"

definition PollOutgoingSignal :: "KcpRtcTransport \<Rightarrow> RtcSignalingMessage option \<times> KcpRtcTransport" where
  "PollOutgoingSignal t =
     (case kt_outgoingSignals t of
        [] \<Rightarrow> (None, t)
      | signal # rest \<Rightarrow> (Some signal, t\<lparr>kt_outgoingSignals := rest\<rparr>))"

definition rejected :: "KcpRtcTransport \<Rightarrow> bool \<times> KcpRtcTransport" where
  "rejected t = (False, t\<lparr>kt_lastError := TE_ProtocolRejected\<rparr>)"

definition ReceiveSignalingMessage :: "RtcSignalingMessage \<Rightarrow> KcpRtcTransport \<Rightarrow> bool \<times> KcpRtcTransport" where
  "ReceiveSignalingMessage message t =
     (if ValidateRtcSignalingMessage message \<noteq> Signal_NoError
         \<or> sg_sessionId message \<noteq> kc_sessionId (kt_config t)
         \<or> (sg_targetPeerId message \<noteq> 0 \<and> sg_targetPeerId message \<noteq> kc_localPeerId (kt_config t))
      then rejected t
      else if sg_senderPeerId message = kc_localPeerId (kt_config t) then rejected t
      else
      let t = t\<lparr>kt_remotePeerId := sg_senderPeerId message\<rparr>
      in case sg_kind message of
           Sig_Offer \<Rightarrow>
             if kc_role (kt_config t) \<noteq> Role_Server then rejected t
             else let t = t\<lparr>kt_phase := Phase_DataChannelConnecting, kt_state := Connecting\<rparr>;
                      t = QueueSignal Sig_Answer (sg_senderPeerId message) (kc_dataChannelLabel (kt_config t)) t
                  in (True, t\<lparr>kt_lastError := TE_None\<rparr>)
         | Sig_Answer \<Rightarrow>
             if kc_role (kt_config t) \<noteq> Role_Client then rejected t
             else (True, t\<lparr>kt_phase := Phase_DataChannelConnecting, kt_state := Connecting,
                           kt_lastError := TE_None\<rparr>)
         | Sig_DataChannelReady \<Rightarrow> (True, (TransitionToConnected t)\<lparr>kt_lastError := TE_None\<rparr>)
         | Sig_Leave \<Rightarrow>
             (True, t\<lparr>kt_state := Disconnected, kt_phase := Phase_Disconnected, kt_lastError := TE_None\<rparr>)
         | Sig_Error \<Rightarrow>
             (False, t\<lparr>kt_state := Failed, kt_phase := Phase_Failed, kt_lastError := TE_PeerClosed\<rparr>)
         | Sig_Join \<Rightarrow> (True, t\<lparr>kt_lastError := TE_None\<rparr>)
         | Sig_IceCandidate \<Rightarrow> (True, t\<lparr>kt_lastError := TE_None\<rparr>))"

definition PollOutgoingFrame :: "KcpRtcTransport \<Rightarrow> byte list option \<times> KcpRtcTransport" where
  "PollOutgoingFrame t =
     (case kt_outgoingFrames t of
        [] \<Rightarrow> (None, t)
      | frame # rest \<Rightarrow>
          (Some frame, t\<lparr>kt_outgoingFrames := rest,
             kt_bufferedOutgoingFrameBytes := kt_bufferedOutgoingFrameBytes t - length frame\<rparr>))"

definition receive_failure :: "TransportError \<Rightarrow> KcpRtcTransport \<Rightarrow> bool \<times> KcpRtcTransport" where
  "receive_failure e t = (False, t\<lparr>kt_lastError := e,
     kt_stats := (kt_stats t)\<lparr>st_receiveFailures := st_receiveFailures (kt_stats t) + 1\<rparr>\<rparr>)"

definition ReceiveFrame :: "byte list \<Rightarrow> KcpRtcTransport \<Rightarrow> bool \<times> KcpRtcTransport" where
  "ReceiveFrame bytes t =
     (if kt_state t \<noteq> Connected then receive_failure TE_NotConnected t
      else
      let decoded = DecodeTransportPacket bytes
      in if \<not> packet_ok decoded then receive_failure TE_ProtocolRejected t
         else case pk_envelope decoded of
                None \<Rightarrow> receive_failure TE_ProtocolRejected t
              | Some envelope \<Rightarrow>
                  (True, t\<lparr>kt_incomingEnvelopes := kt_incomingEnvelopes t @ [envelope],
                           kt_lastError := TE_None\<rparr>))"

definition kcp_transport :: "KcpRtcTransport transport_ops" where
  "kcp_transport = \<lparr>tp_connect = Kcp_Connect, tp_update = Kcp_Update, tp_close = Kcp_Close,
     tp_send = Kcp_Send, tp_poll = Kcp_Poll, tp_state = kt_state, tp_stats = kt_stats,
     tp_lastError = kt_lastError\<rparr>"

section \<open>The invariant\<close>

text \<open>The transport state each phase goes with.\<close>

fun phase_state :: "KcpRtcConnectionPhase \<Rightarrow> TransportState" where
  "phase_state Phase_Disconnected = Disconnected"
| "phase_state Phase_Signaling = Connecting"
| "phase_state Phase_DataChannelConnecting = Connecting"
| "phase_state Phase_Connected = Connected"
| "phase_state Phase_Failed = Failed"

definition kcp_ok :: "KcpRtcTransport \<Rightarrow> bool" where
  "kcp_ok t \<longleftrightarrow> kt_state t = phase_state (kt_phase t)
     \<and> kt_bufferedOutgoingFrameBytes t = sum_list (map length (kt_outgoingFrames t))
     \<and> kt_bufferedOutgoingFrameBytes t \<le> kc_maxBufferedAmountBytes (kt_config t)
     \<and> (\<forall>f\<in>set (kt_outgoingFrames t). \<exists>e. valid_envelope e \<and> f = EncodeTransportPacket e)
     \<and> (\<forall>e\<in>set (kt_incomingEnvelopes t). valid_envelope e)"

lemmas kcp_defs = Kcp_Connect_def Kcp_Update_def Kcp_Close_def Kcp_Send_def kcp_send_failure_def
  Kcp_Poll_def NotifyDataChannelReady_def PollOutgoingSignal_def rejected_def
  ReceiveSignalingMessage_def PollOutgoingFrame_def receive_failure_def ReceiveFrame_def
  QueueSignal_def TransitionToConnected_def Let_def

lemma kcp_ok_new: "kcp_ok (new_KcpRtcTransport config)"
  by (simp add: kcp_ok_def new_KcpRtcTransport_def)

lemma kcp_ok_Connect: "kcp_ok t \<Longrightarrow> Kcp_Connect t = (b, t') \<Longrightarrow> kcp_ok t'"
  by (auto simp: kcp_ok_def kcp_defs split: if_splits)

lemma kcp_ok_Close: "kcp_ok t \<Longrightarrow> kcp_ok (Kcp_Close t)"
  by (simp add: kcp_ok_def kcp_defs)

lemma kcp_ok_Send: "kcp_ok t \<Longrightarrow> Kcp_Send e t = (b, t') \<Longrightarrow> kcp_ok t'"
  by (auto simp: kcp_ok_def kcp_defs split: if_splits)

lemma kcp_ok_Poll: "kcp_ok t \<Longrightarrow> Kcp_Poll t = (r, t') \<Longrightarrow> kcp_ok t'"
  by (auto simp: kcp_ok_def kcp_defs split: list.splits)

lemma kcp_ok_NotifyDataChannelReady: "kcp_ok t \<Longrightarrow> NotifyDataChannelReady t = (b, t') \<Longrightarrow> kcp_ok t'"
  by (auto simp: kcp_ok_def kcp_defs split: if_splits)

lemma kcp_ok_PollOutgoingSignal: "kcp_ok t \<Longrightarrow> PollOutgoingSignal t = (r, t') \<Longrightarrow> kcp_ok t'"
  by (auto simp: kcp_ok_def kcp_defs split: list.splits)

lemma kcp_ok_PollOutgoingFrame: "kcp_ok t \<Longrightarrow> PollOutgoingFrame t = (r, t') \<Longrightarrow> kcp_ok t'"
  by (auto simp: kcp_ok_def kcp_defs split: list.splits)

lemma kcp_ok_ReceiveSignalingMessage: "kcp_ok t \<Longrightarrow> ReceiveSignalingMessage m t = (b, t') \<Longrightarrow> kcp_ok t'"
  by (cases "sg_kind m") (auto simp: kcp_ok_def kcp_defs split: if_splits)

lemma kcp_ok_ReceiveFrame: "kcp_ok t \<Longrightarrow> ReceiveFrame f t = (b, t') \<Longrightarrow> kcp_ok t'"
proof -
  assume ok: "kcp_ok t" and rf: "ReceiveFrame f t = (b, t')"
  have "valid_envelope x" if "pk_envelope (DecodeTransportPacket f) = Some x" for x
    using packet.dec_iff that by simp
  then show ?thesis
    using ok rf unfolding ReceiveFrame_def receive_failure_def Let_def
    by (auto simp: kcp_ok_def split: if_splits option.splits)
qed

lemmas kcp_ok_steps = kcp_ok_Connect kcp_ok_Close kcp_ok_Send kcp_ok_Poll kcp_ok_NotifyDataChannelReady
  kcp_ok_PollOutgoingSignal kcp_ok_PollOutgoingFrame kcp_ok_ReceiveSignalingMessage kcp_ok_ReceiveFrame

interpretation kcp: transport kcp_transport kcp_ok "\<lambda>t. length (kt_incomingEnvelopes t)"
proof
  show "kcp_ok t'" if "kcp_ok t" "tp_connect kcp_transport t = (b, t')" for t b t'
    using that kcp_ok_Connect by (simp add: kcp_transport_def)
  show "kcp_ok (tp_update kcp_transport t)" "kcp_ok (tp_close kcp_transport t)" if "kcp_ok t" for t
    using that kcp_ok_Close by (simp_all add: kcp_transport_def Kcp_Update_def)
  show "kcp_ok t' \<and> length (kt_incomingEnvelopes t') \<le> length (kt_incomingEnvelopes t)"
    if "kcp_ok t" "tp_send kcp_transport e t = (b, t')" for t e b t'
    using that kcp_ok_Send [of t e b t'] by (auto simp: kcp_transport_def kcp_defs split: if_splits)
  show "valid_envelope e \<and> tp_state kcp_transport t' = Connected"
    if "kcp_ok t" "tp_send kcp_transport e t = (True, t')" for t e t'
    using that by (auto simp: kcp_transport_def kcp_defs split: if_splits)
  show "kcp_ok t' \<and> length (kt_incomingEnvelopes t') \<le> length (kt_incomingEnvelopes t)"
    if "kcp_ok t" "tp_poll kcp_transport t = (None, t')" for t t'
    using that by (auto simp: kcp_transport_def Kcp_Poll_def split: list.splits)
  show "kcp_ok t' \<and> valid_envelope e \<and> length (kt_incomingEnvelopes t') < length (kt_incomingEnvelopes t)"
    if "kcp_ok t" "tp_poll kcp_transport t = (Some e, t')" for t e t'
    using that kcp_ok_Poll [of t "Some e" t']
    by (auto simp: kcp_transport_def Kcp_Poll_def kcp_ok_def split: list.splits)
qed

section \<open>Frames between two transports\<close>

text \<open>A frame that one connected transport accepted is the envelope again at another.\<close>

lemma ReceiveFrame_Encode:
  assumes "kt_state t = Connected" and "valid_envelope e"
  shows "ReceiveFrame (EncodeTransportPacket e) t =
     (True, t\<lparr>kt_incomingEnvelopes := kt_incomingEnvelopes t @ [e], kt_lastError := TE_None\<rparr>)"
proof -
  have "pk_envelope (DecodeTransportPacket (EncodeTransportPacket e)) = Some e"
    using packet.round_trip [of e] assms(2) by simp
  then show ?thesis using assms(1) by (simp add: ReceiveFrame_def packet_ok_iff Let_def)
qed

end
