(* ===== verification/Kcp_States.thy ===== *)
theory Kcp_States
  imports Kcp_Transport
begin

text \<open>
  The life of one \<open>KcpRtcTransport\<close> (\<open>src/Networking/src/KcpRtcTransport.cpp\<close>) as a step relation: its
  public operations in any order, with any envelopes, signals and frames from outside. The states
  that can be reached satisfy \<open>kcp_ok\<close> and the invariant \<open>signals_ok\<close> of the signals it queues.
\<close>

section \<open>Steps and reachable states\<close>

inductive kcp_step :: "KcpRtcTransport \<Rightarrow> KcpRtcTransport \<Rightarrow> bool" where
  connect: "Kcp_Connect t = (b, t') \<Longrightarrow> kcp_step t t'"
| update: "kcp_step t (Kcp_Update t)"
| close: "kcp_step t (Kcp_Close t)"
| send: "Kcp_Send envelope t = (b, t') \<Longrightarrow> kcp_step t t'"
| poll: "Kcp_Poll t = (r, t') \<Longrightarrow> kcp_step t t'"
| notify: "NotifyDataChannelReady t = (b, t') \<Longrightarrow> kcp_step t t'"
| poll_signal: "PollOutgoingSignal t = (r', t') \<Longrightarrow> kcp_step t t'"
| receive_signal: "ReceiveSignalingMessage message t = (b, t') \<Longrightarrow> kcp_step t t'"
| poll_frame: "PollOutgoingFrame t = (f, t') \<Longrightarrow> kcp_step t t'"
| receive_frame: "ReceiveFrame bytes t = (b, t') \<Longrightarrow> kcp_step t t'"

inductive kcp_reachable :: "KcpRtcTransportConfig \<Rightarrow> KcpRtcTransport \<Rightarrow> bool" for config where
  init: "kcp_reachable config (new_KcpRtcTransport config)"
| step: "kcp_reachable config t \<Longrightarrow> kcp_step t t' \<Longrightarrow> kcp_reachable config t'"

section \<open>The queued signals\<close>

text \<open>
  Every queued signal carries the sender and the session of the configuration, a payload the
  transport itself names, and the sequence numbers are consecutive up to the next one.
\<close>

definition own_signal :: "KcpRtcTransportConfig \<Rightarrow> RtcSignalingMessage \<Rightarrow> bool" where
  "own_signal c m \<longleftrightarrow> sg_senderPeerId m = kc_localPeerId c \<and> sg_sessionId m = kc_sessionId c
     \<and> sg_payload m \<in> {[], kc_peerName c, kc_dataChannelLabel c}"

definition sequence_before :: "u32 \<Rightarrow> nat \<Rightarrow> u32 list" where
  "sequence_before next n = map (\<lambda>i. next - of_nat n + of_nat i) [0..<n]"

definition signals_ok :: "KcpRtcTransportConfig \<Rightarrow> KcpRtcTransport \<Rightarrow> bool" where
  "signals_ok c t \<longleftrightarrow> kt_config t = c
     \<and> (\<forall>m\<in>set (kt_outgoingSignals t). own_signal c m)
     \<and> map sg_sequence (kt_outgoingSignals t)
         = sequence_before (kt_nextSignalSequence t) (length (kt_outgoingSignals t))
     \<and> (kt_remotePeerId t = 0 \<or> kt_remotePeerId t \<noteq> kc_localPeerId c)"

lemma sequence_before_push [simp]: "sequence_before (next + 1) (Suc n) = sequence_before next n @ [next]"
  by (simp add: sequence_before_def)

lemma sequence_before_pop [simp]: "tl (sequence_before next (Suc n)) = sequence_before next n"
proof -
  have "[0..<Suc n] = 0 # map Suc [0..<n]" by (simp add: map_Suc_upt upt_conv_Cons)
  then show ?thesis by (simp add: sequence_before_def del: upt_Suc)
qed

lemma sequence_before_Nil [simp]: "sequence_before next 0 = []"
  by (simp add: sequence_before_def)

lemma signals_ok_QueueSignal:
  "signals_ok c t \<Longrightarrow> payload \<in> {[], kc_peerName c, kc_dataChannelLabel c} \<Longrightarrow> signals_ok c (QueueSignal kind target payload t)"
  by (auto simp: signals_ok_def QueueSignal_def own_signal_def)

text \<open>Steps that touch neither the signals nor the peer.\<close>

lemma signals_ok_same:
  "signals_ok c t \<Longrightarrow> kt_config t' = kt_config t \<Longrightarrow> kt_outgoingSignals t' = kt_outgoingSignals t
     \<Longrightarrow> kt_nextSignalSequence t' = kt_nextSignalSequence t \<Longrightarrow> kt_remotePeerId t' = kt_remotePeerId t
     \<Longrightarrow> signals_ok c t'"
  by (simp add: signals_ok_def)

lemma signals_ok_fields [simp]:
  "signals_ok c (t\<lparr>kt_state := s\<rparr>) = signals_ok c t" "signals_ok c (t\<lparr>kt_phase := p\<rparr>) = signals_ok c t"
  "signals_ok c (t\<lparr>kt_lastError := e\<rparr>) = signals_ok c t"
  "signals_ok c (t\<lparr>kt_localDataChannelReady := b\<rparr>) = signals_ok c t"
  "signals_ok c (t\<lparr>kt_stats := st\<rparr>) = signals_ok c t"
  by (simp_all add: signals_ok_def)

lemma signals_ok_remote:
  "signals_ok c t \<Longrightarrow> p \<noteq> kc_localPeerId c \<Longrightarrow> signals_ok c (t\<lparr>kt_remotePeerId := p\<rparr>)"
  by (simp add: signals_ok_def)

lemma signals_ok_config: "signals_ok c t \<Longrightarrow> kt_config t = c"
  by (simp add: signals_ok_def)

lemma QueueSignal_config [simp]: "kt_config (QueueSignal kind target payload t) = kt_config t"
  by (simp add: QueueSignal_def)

lemma signals_ok_Connect: "signals_ok c t \<Longrightarrow> Kcp_Connect t = (b, t') \<Longrightarrow> signals_ok c t'"
  by (auto simp: Kcp_Connect_def Let_def signals_ok_config split: if_splits intro!: signals_ok_QueueSignal)

lemma signals_ok_Receive:
  assumes "signals_ok c t" and "ReceiveSignalingMessage m t = (b, t')"
  shows "signals_ok c t'"
proof -
  note c = signals_ok_config [OF assms(1)]
  have "signals_ok c (t\<lparr>kt_remotePeerId := sg_senderPeerId m\<rparr>)" if "sg_senderPeerId m \<noteq> kc_localPeerId c"
    using signals_ok_remote [OF assms(1) that] .
  with assms c show ?thesis
    by (auto simp: ReceiveSignalingMessage_def rejected_def TransitionToConnected_def Let_def
        split: if_splits RtcSignalingMessageKind.splits intro!: signals_ok_QueueSignal)
qed

lemma signals_ok_Notify: "signals_ok c t \<Longrightarrow> NotifyDataChannelReady t = (b, t') \<Longrightarrow> signals_ok c t'"
  by (auto simp: NotifyDataChannelReady_def TransitionToConnected_def Let_def split: if_splits
      intro!: signals_ok_QueueSignal)

lemma signals_ok_PollSignal: "signals_ok c t \<Longrightarrow> PollOutgoingSignal t = (r, t') \<Longrightarrow> signals_ok c t'"
proof (cases "kt_outgoingSignals t")
  case (Cons m ms)
  assume ok: "signals_ok c t" and "PollOutgoingSignal t = (r, t')"
  then have t': "t' = t\<lparr>kt_outgoingSignals := ms\<rparr>" by (simp add: PollOutgoingSignal_def Cons)
  from ok have "map sg_sequence (m # ms) = sequence_before (kt_nextSignalSequence t) (Suc (length ms))"
    by (simp add: signals_ok_def Cons)
  then have "map sg_sequence ms = tl (sequence_before (kt_nextSignalSequence t) (Suc (length ms)))"
    by (metis list.sel(3) list.map(2))
  with ok show ?thesis by (simp add: signals_ok_def t' Cons)
qed (simp add: PollOutgoingSignal_def)

lemma kcp_step_ok:
  assumes "kcp_step t t'" and "kcp_ok t" and "signals_ok c t"
  shows "kcp_ok t' \<and> signals_ok c t'"
  using assms
proof (induction rule: kcp_step.induct)
  case (connect t b t')
  then show ?case using kcp_ok_Connect signals_ok_Connect by blast
next
  case (update t)
  then show ?case by (simp add: Kcp_Update_def)
next
  case (close t)
  then show ?case using kcp_ok_Close by (simp add: signals_ok_def Kcp_Close_def)
next
  case (send envelope t b t')
  then have "signals_ok c t'"
    by (auto simp: Kcp_Send_def kcp_send_failure_def Let_def split: if_splits elim: signals_ok_same)
  with send show ?case using kcp_ok_Send by blast
next
  case (poll t r t')
  then have "signals_ok c t'" by (auto simp: Kcp_Poll_def split: list.splits elim: signals_ok_same)
  with poll show ?case using kcp_ok_Poll by blast
next
  case (notify t b t')
  then show ?case using kcp_ok_NotifyDataChannelReady signals_ok_Notify by blast
next
  case (poll_signal t r t')
  then show ?case using kcp_ok_PollOutgoingSignal signals_ok_PollSignal by blast
next
  case (receive_signal message t b t')
  then show ?case using kcp_ok_ReceiveSignalingMessage signals_ok_Receive by blast
next
  case (poll_frame t f t')
  then have "signals_ok c t'" by (auto simp: PollOutgoingFrame_def split: list.splits elim: signals_ok_same)
  with poll_frame show ?case using kcp_ok_PollOutgoingFrame by blast
next
  case (receive_frame bytes t b t')
  then have "signals_ok c t'"
    by (auto simp: ReceiveFrame_def receive_failure_def Let_def split: if_splits option.splits elim: signals_ok_same)
  with receive_frame show ?case using kcp_ok_ReceiveFrame by blast
qed

lemma kcp_reachable_inv: "kcp_reachable config t \<Longrightarrow> kcp_ok t \<and> signals_ok config t"
proof (induction rule: kcp_reachable.induct)
  case init
  show ?case by (simp add: kcp_ok_new signals_ok_def) (simp add: new_KcpRtcTransport_def)
next
  case (step t t')
  then show ?case using kcp_step_ok by blast
qed

text \<open>A signal of a transport whose configuration can be connected passes every receiver's validation.\<close>

lemma own_signal_valid:
  assumes "own_signal c m" and "kc_localPeerId c \<noteq> 0" and "kc_sessionId c \<noteq> []"
    and "length (kc_peerName c) \<le> kMaxRtcSignalingPayloadBytes"
    and "length (kc_dataChannelLabel c) \<le> kMaxRtcSignalingPayloadBytes"
  shows "valid_signal m"
  using assms by (auto simp: own_signal_def valid_signal_iff)

text \<open>A peer's ready signal connects in every phase, also a transport that was never connected or was closed.\<close>

lemma ready_signal_connects:
  assumes "valid_signal m" and "sg_kind m = Sig_DataChannelReady" and "sg_targetPeerId m = 0"
    and "sg_sessionId m = kc_sessionId (kt_config t)" and "sg_senderPeerId m \<noteq> kc_localPeerId (kt_config t)"
  shows "kt_phase (snd (ReceiveSignalingMessage m t)) = Phase_Connected"
  using assms by (simp add: ReceiveSignalingMessage_def TransitionToConnected_def Let_def)

end
