(* ===== verification/Rtc_Signaling_Client.thy ===== *)
theory Rtc_Signaling_Client
  imports Rtc_Signaling Transport
begin

text \<open>
  \<open>src/Networking/src/RtcSignalingClient.cpp\<close>: the hub that routes signaling messages between
  registered peers, the client on top of it, and the client that stands for a missing backend. The
  abstract class \<open>IRtcSignalingClient\<close> is a record of operations with the locale
  \<open>signaling_client\<close> as its contract; both clients interpret it.
\<close>

section \<open>The interface\<close>

datatype RtcSignalingConnectionState = Rtc_Disconnected | Rtc_Connected | Rtc_Failed

datatype RtcSignalingClientError =
    SCE_None | SCE_InvalidConfiguration | SCE_NotConnected | SCE_NotImplemented
  | SCE_ProtocolRejected | SCE_RouteUnavailable

record RtcSignalingClientConfig =
  sf_peerId :: ClientId
  sf_sessionId :: std_string

record RtcSignalingClientStats =
  ss_messagesSent :: nat
  ss_messagesReceived :: nat
  ss_sendFailures :: nat
  ss_receiveFailures :: nat
  ss_bytesSent :: nat
  ss_bytesReceived :: nat

definition zero_SignalingStats :: RtcSignalingClientStats where
  "zero_SignalingStats = \<lparr>ss_messagesSent = 0, ss_messagesReceived = 0, ss_sendFailures = 0,
     ss_receiveFailures = 0, ss_bytesSent = 0, ss_bytesReceived = 0\<rparr>"

record 'c signaling_client_ops =
  sc_connect :: "'c \<Rightarrow> bool \<times> 'c"
  sc_close :: "'c \<Rightarrow> 'c"
  sc_send :: "RtcSignalingMessage \<Rightarrow> 'c \<Rightarrow> bool \<times> 'c"
  sc_poll :: "'c \<Rightarrow> RtcSignalingMessage option \<times> 'c"
  sc_state :: "'c \<Rightarrow> RtcSignalingConnectionState"
  sc_stats :: "'c \<Rightarrow> RtcSignalingClientStats"
  sc_lastError :: "'c \<Rightarrow> RtcSignalingClientError"

text \<open>\<open>backlog\<close> counts the messages a client still has to hand out; each poll that gives one takes it.\<close>

locale signaling_client =
  fixes S :: "'c signaling_client_ops" and backlog :: "'c \<Rightarrow> nat"
  assumes poll_message: "sc_poll S c = (Some m, c') \<Longrightarrow> valid_signal m \<and> backlog c' < backlog c"
    and poll_none: "sc_poll S c = (None, c') \<Longrightarrow> backlog c' \<le> backlog c"
begin

text \<open>Polling a client until it has no message ends, and hands out no more than the backlog.\<close>

lemma drain_ends: "\<exists>s'. poll_loop (\<lambda>(c, ms). let (m, c) = sc_poll S c in (m, (c, ms)))
    (\<lambda>m (c, ms). (c, ms @ [m])) (c, []) = Some s' \<and> length (snd s') \<le> backlog c"
proof -
  have "\<exists>s'. poll_loop (\<lambda>(c, ms). let (m, c) = sc_poll S c in (m, (c, ms)))
      (\<lambda>m (c, ms). (c, ms @ [m])) (c, []) = Some s' \<and> backlog (fst s') + length (snd s') \<le> backlog c \<and> True"
  proof (rule poll_loop_returns [where m = "\<lambda>s. backlog (fst s)"])
    fix s s' :: "'c \<times> RtcSignalingMessage list" and e
    assume s: "backlog (fst s) + length (snd s) \<le> backlog c"
      and "(\<lambda>(c, ms). let (m, c) = sc_poll S c in (m, (c, ms))) s = (Some e, s')"
    then obtain c1 where "sc_poll S (fst s) = (Some e, c1)" "s' = (c1, snd s)"
      by (auto simp: Let_def split: prod.splits)
    with poll_message [OF this(1)] s
    show "backlog (fst ((\<lambda>(c, ms). (c, ms @ [e])) s')) + length (snd ((\<lambda>(c, ms). (c, ms @ [e])) s')) \<le> backlog c
        \<and> backlog (fst ((\<lambda>(c, ms). (c, ms @ [e])) s')) < backlog (fst s)" by simp
  next
    fix s s' :: "'c \<times> RtcSignalingMessage list"
    assume s: "backlog (fst s) + length (snd s) \<le> backlog c"
      and "(\<lambda>(c, ms). let (m, c) = sc_poll S c in (m, (c, ms))) s = (None, s')"
    then obtain c1 where "sc_poll S (fst s) = (None, c1)" "s' = (c1, snd s)"
      by (auto simp: Let_def split: prod.splits)
    with poll_none [OF this(1)] s show "backlog (fst s') + length (snd s') \<le> backlog c \<and> True" by simp
  qed simp
  then show ?thesis by fastforce
qed

end

section \<open>The hub\<close>

record PeerQueue =
  pq_sessionId :: std_string
  pq_incoming :: "byte list list"

type_synonym InMemoryRtcSignalingHub = "(ClientId, PeerQueue) umap"

text \<open>Registering again replaces the peer's queue by an empty one.\<close>

definition RegisterPeer :: "ClientId \<Rightarrow> std_string \<Rightarrow> InMemoryRtcSignalingHub \<Rightarrow> bool \<times> InMemoryRtcSignalingHub" where
  "RegisterPeer peerId sessionId hub =
     (if peerId = 0 \<or> sessionId = [] then (False, hub)
      else (True, um_put peerId \<lparr>pq_sessionId = sessionId, pq_incoming = []\<rparr> hub))"

definition UnregisterPeer :: "ClientId \<Rightarrow> InMemoryRtcSignalingHub \<Rightarrow> InMemoryRtcSignalingHub" where
  "UnregisterPeer peerId hub = um_erase peerId hub"

definition push_frame :: "byte list \<Rightarrow> PeerQueue \<Rightarrow> PeerQueue" where
  "push_frame bytes peer = peer\<lparr>pq_incoming := pq_incoming peer @ [bytes]\<rparr>"

text \<open>The loop over all peers of a broadcast.\<close>

fun broadcast ::
    "RtcSignalingMessage \<Rightarrow> byte list \<Rightarrow> InMemoryRtcSignalingHub \<Rightarrow> bool \<times> InMemoryRtcSignalingHub" where
  "broadcast message bytes [] = (False, [])"
| "broadcast message bytes ((peerId, peer) # peers) =
     (let (delivered, rest) = broadcast message bytes peers
      in if peerId = sg_senderPeerId message \<or> pq_sessionId peer \<noteq> sg_sessionId message
         then (delivered, (peerId, peer) # rest)
         else (True, (peerId, push_frame bytes peer) # rest))"

definition Route :: "byte list \<Rightarrow> InMemoryRtcSignalingHub \<Rightarrow> bool \<times> InMemoryRtcSignalingHub" where
  "Route bytes hub =
     (let decoded = DeserializeRtcSignalingMessage bytes
      in if \<not> signal_ok decoded then (False, hub)
         else case sr_message decoded of
                None \<Rightarrow> (False, hub)
              | Some message \<Rightarrow>
                  (case um_find hub (sg_senderPeerId message) of
                     None \<Rightarrow> (False, hub)
                   | Some sender \<Rightarrow>
                       if pq_sessionId sender \<noteq> sg_sessionId message then (False, hub)
                       else if sg_targetPeerId message \<noteq> 0
                       then (case um_find hub (sg_targetPeerId message) of
                               None \<Rightarrow> (False, hub)
                             | Some target \<Rightarrow>
                                 if pq_sessionId target \<noteq> sg_sessionId message then (False, hub)
                                 else (True, um_put (sg_targetPeerId message) (push_frame bytes target) hub))
                       else broadcast message bytes hub))"

definition Hub_Poll :: "ClientId \<Rightarrow> InMemoryRtcSignalingHub \<Rightarrow> byte list option \<times> InMemoryRtcSignalingHub" where
  "Hub_Poll peerId hub =
     (case um_find hub peerId of
        None \<Rightarrow> (None, hub)
      | Some peer \<Rightarrow>
          (case pq_incoming peer of
             [] \<Rightarrow> (None, hub)
           | bytes # rest \<Rightarrow> (Some bytes, um_put peerId (peer\<lparr>pq_incoming := rest\<rparr>) hub)))"

definition PeerCount :: "InMemoryRtcSignalingHub \<Rightarrow> nat" where
  "PeerCount hub = length hub"

section \<open>The clients\<close>

record InMemoryRtcSignalingClient =
  ic_hub :: "InMemoryRtcSignalingHub option"
  ic_config :: RtcSignalingClientConfig
  ic_state :: RtcSignalingConnectionState
  ic_stats :: RtcSignalingClientStats
  ic_lastError :: RtcSignalingClientError

definition new_InMemoryRtcSignalingClient ::
    "InMemoryRtcSignalingHub option \<Rightarrow> RtcSignalingClientConfig \<Rightarrow> InMemoryRtcSignalingClient" where
  "new_InMemoryRtcSignalingClient hub config =
     \<lparr>ic_hub = hub, ic_config = config, ic_state = Rtc_Disconnected, ic_stats = zero_SignalingStats,
      ic_lastError = SCE_None\<rparr>"

definition HasValidConfig_signaling :: "InMemoryRtcSignalingClient \<Rightarrow> bool" where
  "HasValidConfig_signaling c \<longleftrightarrow> sf_peerId (ic_config c) \<noteq> 0 \<and> sf_sessionId (ic_config c) \<noteq> []"

definition Signaling_Connect :: "InMemoryRtcSignalingClient \<Rightarrow> bool \<times> InMemoryRtcSignalingClient" where
  "Signaling_Connect c =
     (let failed = (False, c\<lparr>ic_state := Rtc_Failed, ic_lastError := SCE_InvalidConfiguration\<rparr>)
      in case ic_hub c of
           None \<Rightarrow> failed
         | Some hub \<Rightarrow>
             if \<not> HasValidConfig_signaling c then failed
             else (case RegisterPeer (sf_peerId (ic_config c)) (sf_sessionId (ic_config c)) hub of
                     (False, hub) \<Rightarrow> (False, c\<lparr>ic_hub := Some hub, ic_state := Rtc_Failed,
                                        ic_lastError := SCE_InvalidConfiguration\<rparr>)
                   | (True, hub) \<Rightarrow> (True, c\<lparr>ic_hub := Some hub, ic_state := Rtc_Connected,
                                        ic_lastError := SCE_None\<rparr>)))"

definition Signaling_Close :: "InMemoryRtcSignalingClient \<Rightarrow> InMemoryRtcSignalingClient" where
  "Signaling_Close c = c\<lparr>ic_hub := map_option (UnregisterPeer (sf_peerId (ic_config c))) (ic_hub c),
     ic_state := Rtc_Disconnected, ic_lastError := SCE_None\<rparr>"

definition signaling_send_failure :: "RtcSignalingClientError \<Rightarrow> InMemoryRtcSignalingClient \<Rightarrow> bool \<times> InMemoryRtcSignalingClient" where
  "signaling_send_failure e c =
     (False, c\<lparr>ic_stats := (ic_stats c)\<lparr>ss_sendFailures := ss_sendFailures (ic_stats c) + 1\<rparr>, ic_lastError := e\<rparr>)"

definition Signaling_Send :: "RtcSignalingMessage \<Rightarrow> InMemoryRtcSignalingClient \<Rightarrow> bool \<times> InMemoryRtcSignalingClient" where
  "Signaling_Send message c =
     (case ic_hub c of
        None \<Rightarrow> signaling_send_failure SCE_NotConnected c
      | Some hub \<Rightarrow>
          if ic_state c \<noteq> Rtc_Connected then signaling_send_failure SCE_NotConnected c
          else if ValidateRtcSignalingMessage message \<noteq> Signal_NoError
                  \<or> sg_senderPeerId message \<noteq> sf_peerId (ic_config c)
                  \<or> sg_sessionId message \<noteq> sf_sessionId (ic_config c)
          then signaling_send_failure SCE_ProtocolRejected c
          else
          let bytes = SerializeRtcSignalingMessage message
          in case Route bytes hub of
               (False, hub) \<Rightarrow> signaling_send_failure SCE_RouteUnavailable (c\<lparr>ic_hub := Some hub\<rparr>)
             | (True, hub) \<Rightarrow>
                 (True, c\<lparr>ic_hub := Some hub,
                    ic_stats := (ic_stats c)\<lparr>ss_messagesSent := ss_messagesSent (ic_stats c) + 1,
                      ss_bytesSent := ss_bytesSent (ic_stats c) + length bytes\<rparr>,
                    ic_lastError := SCE_None\<rparr>))"

definition Signaling_Poll :: "InMemoryRtcSignalingClient \<Rightarrow> RtcSignalingMessage option \<times> InMemoryRtcSignalingClient" where
  "Signaling_Poll c =
     (case ic_hub c of
        None \<Rightarrow> (None, c)
      | Some hub \<Rightarrow>
          if ic_state c \<noteq> Rtc_Connected then (None, c)
          else case Hub_Poll (sf_peerId (ic_config c)) hub of
                 (None, hub) \<Rightarrow> (None, c\<lparr>ic_hub := Some hub\<rparr>)
               | (Some bytes, hub) \<Rightarrow>
                   let c = c\<lparr>ic_hub := Some hub\<rparr>; decoded = DeserializeRtcSignalingMessage bytes
                   in if \<not> signal_ok decoded
                      then (None, c\<lparr>ic_stats := (ic_stats c)\<lparr>ss_receiveFailures := ss_receiveFailures (ic_stats c) + 1\<rparr>,
                              ic_lastError := SCE_ProtocolRejected\<rparr>)
                      else (sr_message decoded, c\<lparr>ic_stats := (ic_stats c)\<lparr>
                              ss_messagesReceived := ss_messagesReceived (ic_stats c) + 1,
                              ss_bytesReceived := ss_bytesReceived (ic_stats c) + length bytes\<rparr>,
                              ic_lastError := SCE_None\<rparr>))"

definition in_memory_signaling :: "InMemoryRtcSignalingClient signaling_client_ops" where
  "in_memory_signaling = \<lparr>sc_connect = Signaling_Connect, sc_close = Signaling_Close,
     sc_send = Signaling_Send, sc_poll = Signaling_Poll, sc_state = ic_state, sc_stats = ic_stats,
     sc_lastError = ic_lastError\<rparr>"

record UnsupportedRtcSignalingClient =
  us_state :: RtcSignalingConnectionState
  us_stats :: RtcSignalingClientStats
  us_lastError :: RtcSignalingClientError

definition new_UnsupportedRtcSignalingClient :: UnsupportedRtcSignalingClient where
  "new_UnsupportedRtcSignalingClient =
     \<lparr>us_state = Rtc_Disconnected, us_stats = zero_SignalingStats, us_lastError = SCE_None\<rparr>"

definition unsupported_signaling :: "UnsupportedRtcSignalingClient signaling_client_ops" where
  "unsupported_signaling =
     \<lparr>sc_connect = (\<lambda>c. (False, c\<lparr>us_state := Rtc_Failed, us_lastError := SCE_NotImplemented\<rparr>)),
      sc_close = (\<lambda>c. c\<lparr>us_state := Rtc_Disconnected, us_lastError := SCE_None\<rparr>),
      sc_send = (\<lambda>m c. (False, c\<lparr>us_stats := (us_stats c)\<lparr>ss_sendFailures := ss_sendFailures (us_stats c) + 1\<rparr>,
                    us_lastError := SCE_NotImplemented\<rparr>)),
      sc_poll = (\<lambda>c. (None, c)), sc_state = us_state, sc_stats = us_stats, sc_lastError = us_lastError\<rparr>"

section \<open>The contract\<close>

definition hub_queue :: "ClientId \<Rightarrow> InMemoryRtcSignalingHub \<Rightarrow> byte list list" where
  "hub_queue p hub = (case um_find hub p of Some peer \<Rightarrow> pq_incoming peer | None \<Rightarrow> [])"

definition signaling_backlog :: "InMemoryRtcSignalingClient \<Rightarrow> nat" where
  "signaling_backlog c = (case ic_hub c of Some hub \<Rightarrow> length (hub_queue (sf_peerId (ic_config c)) hub) | None \<Rightarrow> 0)"

lemma Hub_Poll_queue:
  "Hub_Poll p hub = (r, hub') \<Longrightarrow> hub_queue p hub = (case r of Some bytes \<Rightarrow> [bytes] | None \<Rightarrow> []) @ hub_queue p hub'"
  by (auto simp: Hub_Poll_def hub_queue_def split: option.splits list.splits)

lemma Signaling_Poll_cases:
  assumes "Signaling_Poll c = (r, c')"
  shows "(r = None \<and> signaling_backlog c' \<le> signaling_backlog c)
     \<or> (\<exists>m. r = Some m \<and> valid_signal m \<and> signaling_backlog c' < signaling_backlog c)"
proof (cases "ic_hub c")
  case None
  then show ?thesis using assms by (auto simp: Signaling_Poll_def)
next
  case (Some hub)
  obtain b hub' where poll: "Hub_Poll (sf_peerId (ic_config c)) hub = (b, hub')" by fastforce
  show ?thesis
  proof (cases b)
    case None
    then show ?thesis using assms poll Some Hub_Poll_queue [OF poll]
      by (auto simp: Signaling_Poll_def signaling_backlog_def split: if_splits)
  next
    case (Some bytes)
    have "sr_message (DeserializeRtcSignalingMessage bytes) = Some m \<Longrightarrow> valid_signal m" for m
      using signal.dec_iff by simp
    then show ?thesis using assms poll Some \<open>ic_hub c = Some hub\<close> Hub_Poll_queue [OF poll]
      by (auto simp: Signaling_Poll_def signaling_backlog_def Let_def signal_ok_iff split: if_splits)
  qed
qed

interpretation in_memory_signaling: signaling_client in_memory_signaling signaling_backlog
proof
  show "valid_signal m \<and> signaling_backlog c' < signaling_backlog c"
    if "sc_poll in_memory_signaling c = (Some m, c')" for c m c'
    using Signaling_Poll_cases [of c "Some m" c'] that by (simp add: in_memory_signaling_def)
  show "signaling_backlog c' \<le> signaling_backlog c" if "sc_poll in_memory_signaling c = (None, c')" for c c'
    using Signaling_Poll_cases [of c None c'] that by (simp add: in_memory_signaling_def)
qed

interpretation unsupported_signaling: signaling_client unsupported_signaling "\<lambda>c. 0"
  by unfold_locales (simp_all add: unsupported_signaling_def)

section \<open>Routing\<close>

text \<open>Whom a message is for: the peers of its session it is addressed to, never a broadcast's sender.\<close>

definition addressed :: "RtcSignalingMessage \<Rightarrow> ClientId \<Rightarrow> InMemoryRtcSignalingHub \<Rightarrow> bool" where
  "addressed m p hub \<longleftrightarrow> (\<exists>peer. um_find hub p = Some peer \<and> pq_sessionId peer = sg_sessionId m)
     \<and> (if sg_targetPeerId m = 0 then p \<noteq> sg_senderPeerId m else p = sg_targetPeerId m)"

definition sender_registered :: "RtcSignalingMessage \<Rightarrow> InMemoryRtcSignalingHub \<Rightarrow> bool" where
  "sender_registered m hub \<longleftrightarrow>
     (\<exists>peer. um_find hub (sg_senderPeerId m) = Some peer \<and> pq_sessionId peer = sg_sessionId m)"

lemma broadcast_find:
  assumes "um_ok hub"
  shows "um_find (snd (broadcast m bytes hub)) p = map_option (\<lambda>peer.
       if p \<noteq> sg_senderPeerId m \<and> pq_sessionId peer = sg_sessionId m then push_frame bytes peer else peer) (um_find hub p)
     \<and> (fst (broadcast m bytes hub) \<longleftrightarrow> (\<exists>q peer. (q, peer) \<in> set hub \<and> q \<noteq> sg_senderPeerId m
          \<and> pq_sessionId peer = sg_sessionId m))"
  using assms
proof (induction hub)
  case (Cons x hub)
  obtain q peer where x: "x = (q, peer)" by fastforce
  have "um_ok hub" using Cons.prems by (simp add: um_ok_def)
  obtain d rest where b: "broadcast m bytes hub = (d, rest)" by fastforce
  from Cons.IH [OF \<open>um_ok hub\<close>] show ?case by (auto simp: x b)
qed simp

lemma hub_queue_broadcast:
  "um_ok hub \<Longrightarrow> sg_targetPeerId m = 0 \<Longrightarrow>
     hub_queue p (snd (broadcast m bytes hub)) = hub_queue p hub @ (if addressed m p hub then [bytes] else [])"
  by (auto simp: hub_queue_def broadcast_find addressed_def push_frame_def split: option.splits)

lemma Route_effect:
  assumes ok: "um_ok hub"
  shows "case sr_message (DeserializeRtcSignalingMessage bytes) of
       None \<Rightarrow> Route bytes hub = (False, hub)
     | Some m \<Rightarrow>
         hub_queue p (snd (Route bytes hub)) =
           hub_queue p hub @ (if sender_registered m hub \<and> addressed m p hub then [bytes] else [])
         \<and> (fst (Route bytes hub) \<longleftrightarrow> sender_registered m hub \<and> (\<exists>q. addressed m q hub))"
proof (cases "sr_message (DeserializeRtcSignalingMessage bytes)")
  case None
  then show ?thesis by (simp add: Route_def signal_ok_iff)
next
  case (Some m)
  note decoded = Some
  then have ok': "signal_ok (DeserializeRtcSignalingMessage bytes)" by (simp add: signal_ok_iff)
  show ?thesis
  proof (cases "sender_registered m hub")
    case False
    then have "Route bytes hub = (False, hub)"
      by (auto simp: Route_def decoded ok' sender_registered_def split: option.splits)
    then show ?thesis using False by (simp add: decoded)
  next
    case True
    then obtain sender where s: "um_find hub (sg_senderPeerId m) = Some sender"
      "pq_sessionId sender = sg_sessionId m" by (auto simp: sender_registered_def)
    show ?thesis
    proof (cases "sg_targetPeerId m = 0")
      case t: True
      have R: "Route bytes hub = broadcast m bytes hub" by (simp add: Route_def decoded ok' s t)
      have "(\<exists>q peer. (q, peer) \<in> set hub \<and> q \<noteq> sg_senderPeerId m \<and> pq_sessionId peer = sg_sessionId m)
          \<longleftrightarrow> (\<exists>q. addressed m q hub)"
        using um_ok_find_iff [OF ok] t by (auto simp: addressed_def)
      then show ?thesis
        using broadcast_find [OF ok, of m bytes p] hub_queue_broadcast [OF ok t, of p bytes] True
        by (simp add: decoded R)
    next
      case t: False
      show ?thesis
      proof (cases "um_find hub (sg_targetPeerId m)")
        case None
        then show ?thesis using t True by (auto simp: Route_def decoded ok' s addressed_def)
      next
        case (Some target)
        then show ?thesis using t True
          by (auto simp: Route_def decoded ok' s addressed_def hub_queue_def push_frame_def)
      qed
    qed
  qed
qed

end
