(* ===== verification/Rtc_Data_Channel.thy ===== *)
theory Rtc_Data_Channel
  imports Prelude Transport
begin

text \<open>
  \<open>src/Networking/src/RtcDataChannel.cpp\<close>: a channel of byte frames between two ends in one
  process, and the channel that stands for a missing backend. \<open>IRtcDataChannel\<close> is a record of
  operations with the locale \<open>data_channel\<close> as its contract; both channels interpret it.
\<close>

section \<open>The interface\<close>

datatype RtcDataChannelState = Channel_Closed | Channel_Open | Channel_Failed

datatype RtcDataChannelError =
  DCE_None | DCE_NotOpen | DCE_NotImplemented | DCE_BufferFull | DCE_InvalidFrame

record RtcDataChannelStats =
  ds_framesSent :: nat
  ds_framesReceived :: nat
  ds_sendFailures :: nat
  ds_receiveFailures :: nat
  ds_bytesSent :: nat
  ds_bytesReceived :: nat

definition zero_ChannelStats :: RtcDataChannelStats where
  "zero_ChannelStats = \<lparr>ds_framesSent = 0, ds_framesReceived = 0, ds_sendFailures = 0,
     ds_receiveFailures = 0, ds_bytesSent = 0, ds_bytesReceived = 0\<rparr>"

record 'd data_channel_ops =
  dc_sendFrame :: "byte list \<Rightarrow> 'd \<Rightarrow> bool \<times> 'd"
  dc_pollFrame :: "'d \<Rightarrow> byte list option \<times> 'd"
  dc_state :: "'d \<Rightarrow> RtcDataChannelState"
  dc_stats :: "'d \<Rightarrow> RtcDataChannelStats"
  dc_lastError :: "'d \<Rightarrow> RtcDataChannelError"

text \<open>
  Frames come out of \<open>incoming\<close> one at a time, in order; sending does not touch what has come in,
  and puts an accepted frame at the end of \<open>outgoing\<close>.
\<close>

locale data_channel =
  fixes C :: "'d data_channel_ops" and incoming outgoing :: "'d \<Rightarrow> byte list list"
  assumes poll_frame: "dc_pollFrame C d = (Some f, d') \<Longrightarrow>
        incoming d = f # incoming d' \<and> outgoing d' = outgoing d \<and> dc_state C d = Channel_Open"
    and poll_none: "dc_pollFrame C d = (None, d') \<Longrightarrow> incoming d' = incoming d \<and> outgoing d' = outgoing d"
    and send_frame: "dc_sendFrame C f d = (b, d') \<Longrightarrow>
        incoming d' = incoming d \<and> outgoing d' = outgoing d @ (if b then [f] else [])
        \<and> (b \<longrightarrow> dc_state C d = Channel_Open \<and> f \<noteq> [])"
begin

text \<open>Sending frames one after another adds the accepted ones to the outgoing frames, in order.\<close>

lemma sends_outgoing:
  "incoming (fold (\<lambda>f d. snd (dc_sendFrame C f d)) fs d) = incoming d
     \<and> (\<exists>ds. outgoing (fold (\<lambda>f d. snd (dc_sendFrame C f d)) fs d) = outgoing d @ ds \<and> length ds \<le> length fs)"
proof (induction fs arbitrary: d)
  case (Cons f fs)
  obtain b d' where s: "dc_sendFrame C f d = (b, d')" by fastforce
  note eff = send_frame [OF s]
  from Cons.IH [of d'] obtain ds where
    "incoming (fold (\<lambda>f d. snd (dc_sendFrame C f d)) fs d') = incoming d'"
    "outgoing (fold (\<lambda>f d. snd (dc_sendFrame C f d)) fs d') = outgoing d' @ ds" "length ds \<le> length fs" by blast
  with eff show ?case
    by (auto simp: s intro!: exI [of _ "(if b then [f] else []) @ ds"])
qed simp

end

section \<open>The in-memory channel\<close>

record ChannelShared =
  ch_aToB :: "byte list list"
  ch_bToA :: "byte list list"

definition empty_ChannelShared :: ChannelShared where
  "empty_ChannelShared = \<lparr>ch_aToB = [], ch_bToA = []\<rparr>"

datatype ChannelEndpoint = Channel_A | Channel_B

record InMemoryRtcDataChannel =
  md_state :: "ChannelShared option"
  md_endpoint :: ChannelEndpoint
  md_stateValue :: RtcDataChannelState
  md_stats :: RtcDataChannelStats
  md_lastError :: RtcDataChannelError

definition default_InMemoryRtcDataChannel :: InMemoryRtcDataChannel where
  "default_InMemoryRtcDataChannel = \<lparr>md_state = None, md_endpoint = Channel_A,
     md_stateValue = Channel_Closed, md_stats = zero_ChannelStats, md_lastError = DCE_None\<rparr>"

definition new_InMemoryRtcDataChannel :: "ChannelShared \<Rightarrow> ChannelEndpoint \<Rightarrow> InMemoryRtcDataChannel" where
  "new_InMemoryRtcDataChannel state endpoint =
     default_InMemoryRtcDataChannel\<lparr>md_state := Some state, md_endpoint := endpoint, md_stateValue := Channel_Open\<rparr>"

definition Channel_CreatePair :: "InMemoryRtcDataChannel \<times> InMemoryRtcDataChannel" where
  "Channel_CreatePair = (new_InMemoryRtcDataChannel empty_ChannelShared Channel_A,
     new_InMemoryRtcDataChannel empty_ChannelShared Channel_B)"

definition channel_queues :: "InMemoryRtcDataChannel \<Rightarrow> ChannelShared" where
  "channel_queues d = (case md_state d of Some q \<Rightarrow> q | None \<Rightarrow> empty_ChannelShared)"

definition Channel_Incoming :: "InMemoryRtcDataChannel \<Rightarrow> byte list list" where
  "Channel_Incoming d = (if md_endpoint d = Channel_A then ch_bToA (channel_queues d) else ch_aToB (channel_queues d))"

definition Channel_Outgoing :: "InMemoryRtcDataChannel \<Rightarrow> byte list list" where
  "Channel_Outgoing d = (if md_endpoint d = Channel_A then ch_aToB (channel_queues d) else ch_bToA (channel_queues d))"

definition set_Channel_Incoming :: "byte list list \<Rightarrow> InMemoryRtcDataChannel \<Rightarrow> InMemoryRtcDataChannel" where
  "set_Channel_Incoming q d = d\<lparr>md_state := Some (if md_endpoint d = Channel_A
     then (channel_queues d)\<lparr>ch_bToA := q\<rparr> else (channel_queues d)\<lparr>ch_aToB := q\<rparr>)\<rparr>"

definition set_Channel_Outgoing :: "byte list list \<Rightarrow> InMemoryRtcDataChannel \<Rightarrow> InMemoryRtcDataChannel" where
  "set_Channel_Outgoing q d = d\<lparr>md_state := Some (if md_endpoint d = Channel_A
     then (channel_queues d)\<lparr>ch_aToB := q\<rparr> else (channel_queues d)\<lparr>ch_bToA := q\<rparr>)\<rparr>"

definition Channel_SendFrame :: "byte list \<Rightarrow> InMemoryRtcDataChannel \<Rightarrow> bool \<times> InMemoryRtcDataChannel" where
  "Channel_SendFrame bytes d =
     (if md_state d = None \<or> md_stateValue d \<noteq> Channel_Open
      then (False, d\<lparr>md_stats := (md_stats d)\<lparr>ds_sendFailures := ds_sendFailures (md_stats d) + 1\<rparr>,
              md_lastError := DCE_NotOpen\<rparr>)
      else if bytes = []
      then (False, d\<lparr>md_stats := (md_stats d)\<lparr>ds_sendFailures := ds_sendFailures (md_stats d) + 1\<rparr>,
              md_lastError := DCE_InvalidFrame\<rparr>)
      else let d = set_Channel_Outgoing (Channel_Outgoing d @ [bytes]) d
           in (True, d\<lparr>md_stats := (md_stats d)\<lparr>ds_framesSent := ds_framesSent (md_stats d) + 1,
                   ds_bytesSent := ds_bytesSent (md_stats d) + length bytes\<rparr>, md_lastError := DCE_None\<rparr>))"

definition Channel_PollFrame :: "InMemoryRtcDataChannel \<Rightarrow> byte list option \<times> InMemoryRtcDataChannel" where
  "Channel_PollFrame d =
     (if md_state d = None \<or> md_stateValue d \<noteq> Channel_Open then (None, d)
      else case Channel_Incoming d of
             [] \<Rightarrow> (None, d)
           | bytes # rest \<Rightarrow>
               let d = set_Channel_Incoming rest d
               in (Some bytes, d\<lparr>md_stats := (md_stats d)\<lparr>ds_framesReceived := ds_framesReceived (md_stats d) + 1,
                     ds_bytesReceived := ds_bytesReceived (md_stats d) + length bytes\<rparr>, md_lastError := DCE_None\<rparr>))"

definition Channel_Close :: "InMemoryRtcDataChannel \<Rightarrow> InMemoryRtcDataChannel" where
  "Channel_Close d = d\<lparr>md_stateValue := Channel_Closed, md_lastError := DCE_None\<rparr>"

definition in_memory_channel :: "InMemoryRtcDataChannel data_channel_ops" where
  "in_memory_channel = \<lparr>dc_sendFrame = Channel_SendFrame, dc_pollFrame = Channel_PollFrame,
     dc_state = md_stateValue, dc_stats = md_stats, dc_lastError = md_lastError\<rparr>"

section \<open>The channel without a backend\<close>

record UnsupportedRtcDataChannel =
  ud_stats :: RtcDataChannelStats
  ud_lastError :: RtcDataChannelError

definition new_UnsupportedRtcDataChannel :: UnsupportedRtcDataChannel where
  "new_UnsupportedRtcDataChannel = \<lparr>ud_stats = zero_ChannelStats, ud_lastError = DCE_NotImplemented\<rparr>"

definition unsupported_channel :: "UnsupportedRtcDataChannel data_channel_ops" where
  "unsupported_channel =
     \<lparr>dc_sendFrame = (\<lambda>bytes d. (False, d\<lparr>ud_stats := (ud_stats d)\<lparr>ds_sendFailures := ds_sendFailures (ud_stats d) + 1\<rparr>,
        ud_lastError := DCE_NotImplemented\<rparr>)),
      dc_pollFrame = (\<lambda>d. (None, d)), dc_state = (\<lambda>d. Channel_Failed), dc_stats = ud_stats,
      dc_lastError = ud_lastError\<rparr>"

section \<open>The contract\<close>

lemma channel_after [simp]:
  "Channel_Incoming (set_Channel_Incoming q d) = q" "Channel_Outgoing (set_Channel_Incoming q d) = Channel_Outgoing d"
  "Channel_Incoming (set_Channel_Outgoing q d) = Channel_Incoming d" "Channel_Outgoing (set_Channel_Outgoing q d) = q"
  by (auto simp: Channel_Incoming_def Channel_Outgoing_def set_Channel_Incoming_def set_Channel_Outgoing_def
      channel_queues_def)

lemma channel_fields [simp]:
  "Channel_Incoming (d\<lparr>md_stats := s\<rparr>) = Channel_Incoming d" "Channel_Outgoing (d\<lparr>md_stats := s\<rparr>) = Channel_Outgoing d"
  "Channel_Incoming (d\<lparr>md_lastError := e\<rparr>) = Channel_Incoming d"
  "Channel_Outgoing (d\<lparr>md_lastError := e\<rparr>) = Channel_Outgoing d"
  "Channel_Incoming (d\<lparr>md_stateValue := v\<rparr>) = Channel_Incoming d"
  "Channel_Outgoing (d\<lparr>md_stateValue := v\<rparr>) = Channel_Outgoing d"
  by (simp_all add: Channel_Incoming_def Channel_Outgoing_def channel_queues_def)

interpretation in_memory_channel: data_channel in_memory_channel Channel_Incoming Channel_Outgoing
proof
  show "Channel_Incoming d = f # Channel_Incoming d' \<and> Channel_Outgoing d' = Channel_Outgoing d
      \<and> dc_state in_memory_channel d = Channel_Open"
    if "dc_pollFrame in_memory_channel d = (Some f, d')" for d f d'
    using that by (cases "Channel_Incoming d")
      (auto simp: in_memory_channel_def Channel_PollFrame_def Let_def split: if_splits)
  show "Channel_Incoming d' = Channel_Incoming d \<and> Channel_Outgoing d' = Channel_Outgoing d"
    if "dc_pollFrame in_memory_channel d = (None, d')" for d d'
    using that by (cases "Channel_Incoming d")
      (auto simp: in_memory_channel_def Channel_PollFrame_def Let_def split: if_splits)
  show "Channel_Incoming d' = Channel_Incoming d
      \<and> Channel_Outgoing d' = Channel_Outgoing d @ (if b then [f] else [])
      \<and> (b \<longrightarrow> dc_state in_memory_channel d = Channel_Open \<and> f \<noteq> [])"
    if "dc_sendFrame in_memory_channel f d = (b, d')" for f d b d'
    using that by (auto simp: in_memory_channel_def Channel_SendFrame_def Let_def split: if_splits)
qed

interpretation unsupported_channel: data_channel unsupported_channel "\<lambda>d. []" "\<lambda>d. []"
  by unfold_locales (auto simp: unsupported_channel_def)

end
