(* ===== verification/Kcp_Pumped.thy ===== *)
theory Kcp_Pumped
  imports Kcp_Transport Rtc_Signaling_Client Rtc_Data_Channel
begin

text \<open>
  \<open>src/Networking/src/KcpRtcSignalingPump.cpp\<close>, \<open>KcpRtcDataChannelPump.cpp\<close> and
  \<open>KcpRtcPumpedTransport.cpp\<close>: the loops that carry signals and frames between a KCP-RTC transport
  and its backends, the transport that runs them, and the factory for remote transports.

  The loops run on any backend, so each operation that runs one has an option as its value, \<open>None\<close>
  when a loop does not end; on backends that keep the contracts \<open>signaling_client\<close> and
  \<open>data_channel\<close> they all end.
\<close>

section \<open>The signaling pump\<close>

record KcpRtcSignalingPumpResult =
  sp_outgoingSignalsSent :: nat
  sp_incomingSignalsApplied :: nat
  sp_failures :: nat

definition zero_SignalingPump :: KcpRtcSignalingPumpResult where
  "zero_SignalingPump = \<lparr>sp_outgoingSignalsSent = 0, sp_incomingSignalsApplied = 0, sp_failures = 0\<rparr>"

type_synonym 'c signaling_pump = "KcpRtcSignalingPumpResult \<times> KcpRtcTransport \<times> 'c"

definition poll_transport_signal :: "'c signaling_pump \<Rightarrow> RtcSignalingMessage option \<times> 'c signaling_pump" where
  "poll_transport_signal = (\<lambda>(r, t, c). case PollOutgoingSignal t of (m, t) \<Rightarrow> (m, (r, t, c)))"

definition send_signal ::
    "'c signaling_client_ops \<Rightarrow> RtcSignalingMessage \<Rightarrow> 'c signaling_pump \<Rightarrow> 'c signaling_pump" where
  "send_signal S signal = (\<lambda>(r, t, c).
     case sc_send S signal c of
       (True, c) \<Rightarrow> (r\<lparr>sp_outgoingSignalsSent := sp_outgoingSignalsSent r + 1\<rparr>, t, c)
     | (False, c) \<Rightarrow> (r\<lparr>sp_failures := sp_failures r + 1\<rparr>, t, c))"

definition poll_client_signal ::
    "'c signaling_client_ops \<Rightarrow> 'c signaling_pump \<Rightarrow> RtcSignalingMessage option \<times> 'c signaling_pump" where
  "poll_client_signal S = (\<lambda>(r, t, c). case sc_poll S c of (m, c) \<Rightarrow> (m, (r, t, c)))"

definition receive_signal :: "RtcSignalingMessage \<Rightarrow> 'c signaling_pump \<Rightarrow> 'c signaling_pump" where
  "receive_signal signal = (\<lambda>(r, t, c).
     case ReceiveSignalingMessage signal t of
       (True, t) \<Rightarrow> (r\<lparr>sp_incomingSignalsApplied := sp_incomingSignalsApplied r + 1\<rparr>, t, c)
     | (False, t) \<Rightarrow> (r\<lparr>sp_failures := sp_failures r + 1\<rparr>, t, c))"

definition PumpKcpRtcSignaling ::
    "'c signaling_client_ops \<Rightarrow> KcpRtcTransport \<Rightarrow> 'c \<Rightarrow> 'c signaling_pump option" where
  "PumpKcpRtcSignaling S t signalingClient = do {
     s \<leftarrow> poll_loop poll_transport_signal (send_signal S) (zero_SignalingPump, t, signalingClient);
     poll_loop (poll_client_signal S) receive_signal s
   }"

section \<open>The data channel pump\<close>

record KcpRtcDataChannelPumpResult =
  fp_outgoingFramesSent :: nat
  fp_incomingFramesApplied :: nat
  fp_failures :: nat

definition zero_ChannelPump :: KcpRtcDataChannelPumpResult where
  "zero_ChannelPump = \<lparr>fp_outgoingFramesSent = 0, fp_incomingFramesApplied = 0, fp_failures = 0\<rparr>"

type_synonym 'd channel_pump = "KcpRtcDataChannelPumpResult \<times> KcpRtcTransport \<times> 'd"

definition poll_transport_frame :: "'d channel_pump \<Rightarrow> byte list option \<times> 'd channel_pump" where
  "poll_transport_frame = (\<lambda>(r, t, d). case PollOutgoingFrame t of (f, t) \<Rightarrow> (f, (r, t, d)))"

definition send_frame :: "'d data_channel_ops \<Rightarrow> byte list \<Rightarrow> 'd channel_pump \<Rightarrow> 'd channel_pump" where
  "send_frame C frame = (\<lambda>(r, t, d).
     case dc_sendFrame C frame d of
       (True, d) \<Rightarrow> (r\<lparr>fp_outgoingFramesSent := fp_outgoingFramesSent r + 1\<rparr>, t, d)
     | (False, d) \<Rightarrow> (r\<lparr>fp_failures := fp_failures r + 1\<rparr>, t, d))"

definition poll_channel_frame ::
    "'d data_channel_ops \<Rightarrow> 'd channel_pump \<Rightarrow> byte list option \<times> 'd channel_pump" where
  "poll_channel_frame C = (\<lambda>(r, t, d). case dc_pollFrame C d of (f, d) \<Rightarrow> (f, (r, t, d)))"

definition receive_frame :: "byte list \<Rightarrow> 'd channel_pump \<Rightarrow> 'd channel_pump" where
  "receive_frame frame = (\<lambda>(r, t, d).
     case ReceiveFrame frame t of
       (True, t) \<Rightarrow> (r\<lparr>fp_incomingFramesApplied := fp_incomingFramesApplied r + 1\<rparr>, t, d)
     | (False, t) \<Rightarrow> (r\<lparr>fp_failures := fp_failures r + 1\<rparr>, t, d))"

definition PumpKcpRtcDataChannel ::
    "'d data_channel_ops \<Rightarrow> KcpRtcTransport \<Rightarrow> 'd \<Rightarrow> 'd channel_pump option" where
  "PumpKcpRtcDataChannel C t dataChannel = do {
     s \<leftarrow> poll_loop poll_transport_frame (send_frame C) (zero_ChannelPump, t, dataChannel);
     poll_loop (poll_channel_frame C) receive_frame s
   }"

section \<open>The pumped transport\<close>

fun MapSignalingError :: "RtcSignalingClientError \<Rightarrow> TransportError" where
  "MapSignalingError SCE_None = TE_None"
| "MapSignalingError SCE_InvalidConfiguration = TE_InvalidConfiguration"
| "MapSignalingError SCE_NotConnected = TE_NotConnected"
| "MapSignalingError SCE_RouteUnavailable = TE_NotConnected"
| "MapSignalingError SCE_NotImplemented = TE_NotImplemented"
| "MapSignalingError SCE_ProtocolRejected = TE_ProtocolRejected"

fun MapDataChannelError :: "RtcDataChannelError \<Rightarrow> TransportError" where
  "MapDataChannelError DCE_None = TE_None"
| "MapDataChannelError DCE_NotOpen = TE_NotConnected"
| "MapDataChannelError DCE_NotImplemented = TE_NotImplemented"
| "MapDataChannelError DCE_BufferFull = TE_ProtocolRejected"
| "MapDataChannelError DCE_InvalidFrame = TE_ProtocolRejected"

text \<open>A null pointer to a backend is \<open>None\<close>.\<close>

record ('c, 'd) KcpRtcPumpedTransport =
  pt_transport :: KcpRtcTransport
  pt_signalingClient :: "'c option"
  pt_dataChannel :: "'d option"
  pt_lastError :: TransportError
  pt_readyNotified :: bool

definition new_KcpRtcPumpedTransport ::
    "KcpRtcTransportConfig \<Rightarrow> 'c option \<Rightarrow> 'd option \<Rightarrow> ('c, 'd) KcpRtcPumpedTransport" where
  "new_KcpRtcPumpedTransport transportConfig signalingClient dataChannel =
     \<lparr>pt_transport = new_KcpRtcTransport transportConfig, pt_signalingClient = signalingClient,
      pt_dataChannel = dataChannel, pt_lastError = TE_None, pt_readyNotified = False\<rparr>"

definition Pumped_Connect ::
    "'c signaling_client_ops \<Rightarrow> ('c, 'd) KcpRtcPumpedTransport \<Rightarrow> bool \<times> ('c, 'd) KcpRtcPumpedTransport" where
  "Pumped_Connect S p =
     (case (pt_signalingClient p, pt_dataChannel p) of
        (Some c, Some d) \<Rightarrow>
          let (up, c) = (if sc_state S c \<noteq> Rtc_Connected then sc_connect S c else (True, c));
              p = p\<lparr>pt_signalingClient := Some c\<rparr>
          in if \<not> up then (False, p\<lparr>pt_lastError := MapSignalingError (sc_lastError S c)\<rparr>)
             else let (connected, t) = Kcp_Connect (pt_transport p)
                  in (connected, p\<lparr>pt_transport := t,
                        pt_lastError := (if connected then TE_None else kt_lastError t)\<rparr>)
      | _ \<Rightarrow> (False, p\<lparr>pt_lastError := TE_InvalidConfiguration\<rparr>))"

definition NotifyReadyIfPossible ::
    "'d data_channel_ops \<Rightarrow> ('c, 'd) KcpRtcPumpedTransport \<Rightarrow> ('c, 'd) KcpRtcPumpedTransport" where
  "NotifyReadyIfPossible C p =
     (case pt_dataChannel p of
        None \<Rightarrow> p
      | Some d \<Rightarrow>
          if pt_readyNotified p \<or> kt_phase (pt_transport p) \<noteq> Phase_DataChannelConnecting
             \<or> dc_state C d \<noteq> Channel_Open
          then p
          else let (ready, t) = NotifyDataChannelReady (pt_transport p)
               in p\<lparr>pt_transport := t, pt_readyNotified := ready\<rparr>)"

definition pump_signaling ::
    "'c signaling_client_ops \<Rightarrow> 'c \<Rightarrow> ('c, 'd) KcpRtcPumpedTransport \<Rightarrow> ('c, 'd) KcpRtcPumpedTransport option" where
  "pump_signaling S c p = do {
     (r, t, c) \<leftarrow> PumpKcpRtcSignaling S (pt_transport p) c;
     Some (p\<lparr>pt_transport := t, pt_signalingClient := Some c\<rparr>)
   }"

definition pump_data_channel ::
    "'d data_channel_ops \<Rightarrow> 'd \<Rightarrow> ('c, 'd) KcpRtcPumpedTransport \<Rightarrow> ('c, 'd) KcpRtcPumpedTransport option" where
  "pump_data_channel C d p = do {
     (r, t, d) \<leftarrow> PumpKcpRtcDataChannel C (pt_transport p) d;
     Some (p\<lparr>pt_transport := t, pt_dataChannel := Some d\<rparr>)
   }"

definition Pumped_Update ::
    "'c signaling_client_ops \<Rightarrow> 'd data_channel_ops \<Rightarrow> ('c, 'd) KcpRtcPumpedTransport
     \<Rightarrow> ('c, 'd) KcpRtcPumpedTransport option" where
  "Pumped_Update S C p =
     (case (pt_signalingClient p, pt_dataChannel p) of
        (Some c, Some d) \<Rightarrow> do {
          p \<leftarrow> pump_signaling S c p;
          let p = NotifyReadyIfPossible C p;
          c \<leftarrow> pt_signalingClient p;
          p \<leftarrow> pump_signaling S c p;
          p \<leftarrow> pump_data_channel C d p;
          d \<leftarrow> pt_dataChannel p;
          Some (p\<lparr>pt_lastError := (if dc_state C d = Channel_Failed then MapDataChannelError (dc_lastError C d)
                                   else kt_lastError (pt_transport p))\<rparr>)
        }
      | _ \<Rightarrow> Some (p\<lparr>pt_lastError := TE_InvalidConfiguration\<rparr>))"

definition Pumped_Close ::
    "'c signaling_client_ops \<Rightarrow> ('c, 'd) KcpRtcPumpedTransport \<Rightarrow> ('c, 'd) KcpRtcPumpedTransport" where
  "Pumped_Close S p = p\<lparr>pt_transport := Kcp_Close (pt_transport p),
     pt_signalingClient := map_option (sc_close S) (pt_signalingClient p),
     pt_readyNotified := False, pt_lastError := TE_None\<rparr>"

text \<open>
  A send that the inner transport accepts without a data channel dereferences a null pointer; it has
  the value \<open>None\<close> too.
\<close>

definition Pumped_Send ::
    "'c signaling_client_ops \<Rightarrow> 'd data_channel_ops \<Rightarrow> NetworkEnvelope \<Rightarrow> ('c, 'd) KcpRtcPumpedTransport
     \<Rightarrow> (bool \<times> ('c, 'd) KcpRtcPumpedTransport) option" where
  "Pumped_Send S C envelope p = do {
     p \<leftarrow> Pumped_Update S C p;
     let (sent, t) = Kcp_Send envelope (pt_transport p);
     let p = p\<lparr>pt_transport := t\<rparr>;
     p \<leftarrow> (if sent then do { d \<leftarrow> pt_dataChannel p; pump_data_channel C d p } else Some p);
     Some (sent, p\<lparr>pt_lastError := (if sent then TE_None else kt_lastError (pt_transport p))\<rparr>)
   }"

definition Pumped_Poll ::
    "'c signaling_client_ops \<Rightarrow> 'd data_channel_ops \<Rightarrow> ('c, 'd) KcpRtcPumpedTransport
     \<Rightarrow> (NetworkEnvelope option \<times> ('c, 'd) KcpRtcPumpedTransport) option" where
  "Pumped_Poll S C p = do {
     p \<leftarrow> Pumped_Update S C p;
     let (e, t) = Kcp_Poll (pt_transport p);
     Some (e, p\<lparr>pt_transport := t\<rparr>)
   }"

definition Pumped_State :: "('c, 'd) KcpRtcPumpedTransport \<Rightarrow> TransportState" where
  "Pumped_State p = kt_state (pt_transport p)"

definition Pumped_LastError :: "('c, 'd) KcpRtcPumpedTransport \<Rightarrow> TransportError" where
  "Pumped_LastError p = (if pt_lastError p = TE_None then kt_lastError (pt_transport p) else pt_lastError p)"

section \<open>The factory for remote transports\<close>

datatype RemoteTransportKind = Remote_KcpRtc | Remote_KcpRtcPumped

datatype RtcBackendKind = Backend_UnsupportedNative

record RemoteTransportConfig =
  rt_kind :: RemoteTransportKind
  rt_kcpRtc :: KcpRtcTransportConfig
  rt_rtcBackend :: RtcBackendKind

datatype RemoteTransport =
    Remote_Transport KcpRtcTransport
  | Remote_Pumped "(UnsupportedRtcSignalingClient, UnsupportedRtcDataChannel) KcpRtcPumpedTransport"

fun CreatePumpedRtcTransport :: "RemoteTransportConfig \<Rightarrow> RemoteTransport" where
  "CreatePumpedRtcTransport config = (case rt_rtcBackend config of
     Backend_UnsupportedNative \<Rightarrow> Remote_Pumped (new_KcpRtcPumpedTransport (rt_kcpRtc config)
       (Some new_UnsupportedRtcSignalingClient) (Some new_UnsupportedRtcDataChannel)))"

definition CreateRemoteTransport :: "RemoteTransportConfig \<Rightarrow> RemoteTransport" where
  "CreateRemoteTransport config = (case rt_kind config of
     Remote_KcpRtc \<Rightarrow> Remote_Transport (new_KcpRtcTransport (rt_kcpRtc config))
   | Remote_KcpRtcPumped \<Rightarrow> CreatePumpedRtcTransport config)"

section \<open>The loops end\<close>

text \<open>Sending changes the backend and the counters, not the transport.\<close>

lemma send_signal_keeps: "\<exists>r' c'. \<forall>t. send_signal S m (r, t, c) = (r', t, c')"
  by (cases "sc_send S m c"; cases "fst (sc_send S m c)") (simp_all add: send_signal_def)

lemma send_frame_keeps: "\<exists>r' d'. \<forall>t. send_frame C f (r, t, d) = (r', t, d')"
  by (cases "dc_sendFrame C f d"; cases "fst (dc_sendFrame C f d)") (simp_all add: send_frame_def)

lemma send_signals_keep: "\<exists>r' c'. \<forall>t. fold (send_signal S) ms (r, t, c) = (r', t, c')"
proof (induction ms arbitrary: r c)
  case (Cons m ms)
  obtain r1 c1 where "send_signal S m (r, t, c) = (r1, t, c1)" for t
    using send_signal_keeps [of S m r c] by blast
  with Cons.IH [of r1 c1] show ?case by simp
qed simp

lemma send_frames_keep: "\<exists>r' d'. \<forall>t. fold (send_frame C) fs (r, t, d) = (r', t, d')"
proof (induction fs arbitrary: r d)
  case (Cons f fs)
  obtain r1 d1 where "send_frame C f (r, t, d) = (r1, t, d1)" for t
    using send_frame_keeps [of C f r d] by blast
  with Cons.IH [of r1 d1] show ?case by simp
qed simp

lemma send_signals_loop:
  "poll_loop poll_transport_signal (send_signal S) (r, t, c)
     = Some (fold (send_signal S) (kt_outgoingSignals t) (r, t\<lparr>kt_outgoingSignals := []\<rparr>, c))"
proof (induction "kt_outgoingSignals t" arbitrary: r t c)
  case Nil
  then have "t\<lparr>kt_outgoingSignals := []\<rparr> = t" by simp
  with Nil show ?case
    by (subst poll_loop.simps) (simp add: poll_transport_signal_def PollOutgoingSignal_def flip: Nil)
next
  case (Cons m ms)
  let ?t = "t\<lparr>kt_outgoingSignals := ms\<rparr>"
  obtain r' c' where s: "send_signal S m (r, t1, c) = (r', t1, c')" for t1
    using send_signal_keeps [of S m r c] by blast
  have "poll_loop poll_transport_signal (send_signal S) (r, t, c)
      = poll_loop poll_transport_signal (send_signal S) (send_signal S m (r, ?t, c))"
    by (subst poll_loop.simps) (simp add: poll_transport_signal_def PollOutgoingSignal_def flip: Cons.hyps(2))
  also have "\<dots> = Some (fold (send_signal S) ms (r', t\<lparr>kt_outgoingSignals := []\<rparr>, c'))"
    using Cons.hyps(1) [of ?t r' c'] by (simp add: s)
  finally show ?case by (simp add: s flip: Cons.hyps(2))
qed

lemma send_frames_loop:
  "\<exists>b. poll_loop poll_transport_frame (send_frame C) (r, t, d)
     = Some (fold (send_frame C) (kt_outgoingFrames t)
         (r, t\<lparr>kt_outgoingFrames := [], kt_bufferedOutgoingFrameBytes := b\<rparr>, d))
     \<and> (kt_bufferedOutgoingFrameBytes t = sum_list (map length (kt_outgoingFrames t)) \<longrightarrow> b = 0)"
proof (induction "kt_outgoingFrames t" arbitrary: r t d)
  case Nil
  then have "t\<lparr>kt_outgoingFrames := [], kt_bufferedOutgoingFrameBytes := kt_bufferedOutgoingFrameBytes t\<rparr> = t" by simp
  with Nil show ?case
    by (intro exI [of _ "kt_bufferedOutgoingFrameBytes t"], subst poll_loop.simps)
      (simp add: poll_transport_frame_def PollOutgoingFrame_def flip: Nil)
next
  case (Cons f fs)
  let ?t = "t\<lparr>kt_outgoingFrames := fs,
    kt_bufferedOutgoingFrameBytes := kt_bufferedOutgoingFrameBytes t - length f\<rparr>"
  let ?u = "\<lambda>b. t\<lparr>kt_outgoingFrames := [], kt_bufferedOutgoingFrameBytes := b\<rparr>"
  obtain r' d' where s: "send_frame C f (r, t1, d) = (r', t1, d')" for t1
    using send_frame_keeps [of C f r d] by blast
  have "poll_loop poll_transport_frame (send_frame C) (r, t, d)
      = poll_loop poll_transport_frame (send_frame C) (send_frame C f (r, ?t, d))"
    by (subst poll_loop.simps) (simp add: poll_transport_frame_def PollOutgoingFrame_def flip: Cons.hyps(2))
  moreover obtain b where "poll_loop poll_transport_frame (send_frame C) (r', ?t, d')
      = Some (fold (send_frame C) fs (r', ?u b, d'))"
    "kt_bufferedOutgoingFrameBytes ?t = sum_list (map length fs) \<longrightarrow> b = 0"
    using Cons.hyps(1) [of ?t r' d'] by auto
  ultimately show ?case by (intro exI [of _ b]) (auto simp: s simp flip: Cons.hyps(2))
qed

lemma snd_receive_signal [simp]:
  "snd (receive_signal m (r, t, c)) = (snd (ReceiveSignalingMessage m t), c)"
  by (cases "ReceiveSignalingMessage m t"; cases "fst (ReceiveSignalingMessage m t)")
    (simp_all add: receive_signal_def)

lemma snd_receive_frame [simp]: "snd (receive_frame f (r, t, d)) = (snd (ReceiveFrame f t), d)"
  by (cases "ReceiveFrame f t"; cases "fst (ReceiveFrame f t)") (simp_all add: receive_frame_def)

lemma kcp_ok_received:
  "kcp_ok t \<Longrightarrow> kcp_ok (snd (ReceiveSignalingMessage m t))" "kcp_ok t \<Longrightarrow> kcp_ok (snd (ReceiveFrame f t))"
  using kcp_ok_ReceiveSignalingMessage [of t m] kcp_ok_ReceiveFrame [of t f] by (metis prod.collapse)+

context signaling_client
begin

lemma receive_signals_loop:
  "\<exists>r' t' c'. poll_loop (poll_client_signal S) receive_signal (r, t, c) = Some (r', t', c')
     \<and> (kcp_ok t \<longrightarrow> kcp_ok t')"
proof -
  have "\<exists>s'. poll_loop (poll_client_signal S) receive_signal (r, t, c) = Some s'
      \<and> (kcp_ok t \<longrightarrow> kcp_ok (fst (snd s'))) \<and> True"
  proof (rule poll_loop_returns [where m = "\<lambda>s. backlog (snd (snd s))"])
    fix s e s'
    assume inv: "kcp_ok t \<longrightarrow> kcp_ok (fst (snd s))" and poll: "poll_client_signal S s = (Some e, s')"
    obtain r1 t1 c1 where s: "s = (r1, t1, c1)" by (cases s)
    with poll obtain c2 where c2: "sc_poll S c1 = (Some e, c2)" "s' = (r1, t1, c2)"
      by (auto simp: poll_client_signal_def split: prod.splits)
    from poll_message [OF c2(1)] inv kcp_ok_received(1) [of t1 e]
    show "(kcp_ok t \<longrightarrow> kcp_ok (fst (snd (receive_signal e s'))))
        \<and> backlog (snd (snd (receive_signal e s'))) < backlog (snd (snd s))"
      by (simp add: s c2(2))
  next
    fix s s'
    assume "kcp_ok t \<longrightarrow> kcp_ok (fst (snd s))" and "poll_client_signal S s = (None, s')"
    then show "(kcp_ok t \<longrightarrow> kcp_ok (fst (snd s'))) \<and> True"
      by (auto simp: poll_client_signal_def split: prod.splits)
  qed simp
  then show ?thesis by auto
qed

lemma PumpKcpRtcSignaling_returns:
  "\<exists>r t' c'. PumpKcpRtcSignaling S t c = Some (r, t', c') \<and> (kcp_ok t \<longrightarrow> kcp_ok t')"
proof -
  let ?t = "t\<lparr>kt_outgoingSignals := []\<rparr>"
  obtain r c1 where s: "fold (send_signal S) (kt_outgoingSignals t) (zero_SignalingPump, ?t, c) = (r, ?t, c1)"
    using send_signals_keep [of S "kt_outgoingSignals t" zero_SignalingPump c] by blast
  from receive_signals_loop [of r ?t c1] obtain r' t' c' where
    "poll_loop (poll_client_signal S) receive_signal (r, ?t, c1) = Some (r', t', c')" "kcp_ok ?t \<longrightarrow> kcp_ok t'" by blast
  moreover have "kcp_ok ?t = kcp_ok t" by (simp add: kcp_ok_def)
  ultimately show ?thesis by (simp add: PumpKcpRtcSignaling_def send_signals_loop s)
qed

end

context data_channel
begin

lemma receive_frames_loop:
  "\<exists>r' t' d'. poll_loop (poll_channel_frame C) receive_frame (r, t, d) = Some (r', t', d')
     \<and> (kcp_ok t \<longrightarrow> kcp_ok t')"
proof -
  have "\<exists>s'. poll_loop (poll_channel_frame C) receive_frame (r, t, d) = Some s'
      \<and> (kcp_ok t \<longrightarrow> kcp_ok (fst (snd s'))) \<and> True"
  proof (rule poll_loop_returns [where m = "\<lambda>s. length (incoming (snd (snd s)))"])
    fix s e s'
    assume inv: "kcp_ok t \<longrightarrow> kcp_ok (fst (snd s))" and poll: "poll_channel_frame C s = (Some e, s')"
    obtain r1 t1 d1 where s: "s = (r1, t1, d1)" by (cases s)
    with poll obtain d2 where d2: "dc_pollFrame C d1 = (Some e, d2)" "s' = (r1, t1, d2)"
      by (auto simp: poll_channel_frame_def split: prod.splits)
    from poll_frame [OF d2(1)] inv kcp_ok_received(2) [of t1 e]
    show "(kcp_ok t \<longrightarrow> kcp_ok (fst (snd (receive_frame e s'))))
        \<and> length (incoming (snd (snd (receive_frame e s')))) < length (incoming (snd (snd s)))"
      by (simp add: s d2(2))
  next
    fix s s'
    assume "kcp_ok t \<longrightarrow> kcp_ok (fst (snd s))" and "poll_channel_frame C s = (None, s')"
    then show "(kcp_ok t \<longrightarrow> kcp_ok (fst (snd s'))) \<and> True"
      by (auto simp: poll_channel_frame_def split: prod.splits)
  qed simp
  then show ?thesis by auto
qed

lemma PumpKcpRtcDataChannel_returns:
  "\<exists>r t' d'. PumpKcpRtcDataChannel C t d = Some (r, t', d') \<and> (kcp_ok t \<longrightarrow> kcp_ok t')"
proof -
  let ?t = "\<lambda>b. t\<lparr>kt_outgoingFrames := [], kt_bufferedOutgoingFrameBytes := b\<rparr>"
  obtain b where loop: "poll_loop poll_transport_frame (send_frame C) (zero_ChannelPump, t, d)
      = Some (fold (send_frame C) (kt_outgoingFrames t) (zero_ChannelPump, ?t b, d))"
    and b: "kt_bufferedOutgoingFrameBytes t = sum_list (map length (kt_outgoingFrames t)) \<longrightarrow> b = 0"
    using send_frames_loop [of C zero_ChannelPump t d] by blast
  obtain r d1 where s: "fold (send_frame C) (kt_outgoingFrames t) (zero_ChannelPump, ?t b, d) = (r, ?t b, d1)"
    using send_frames_keep [of C "kt_outgoingFrames t" zero_ChannelPump d] by blast
  from receive_frames_loop [of r "?t b" d1] obtain r' t' d' where
    "poll_loop (poll_channel_frame C) receive_frame (r, ?t b, d1) = Some (r', t', d')"
    "kcp_ok (?t b) \<longrightarrow> kcp_ok t'" by blast
  moreover have "kcp_ok t \<longrightarrow> kcp_ok (?t b)" using b by (simp add: kcp_ok_def)
  ultimately show ?thesis by (simp add: PumpKcpRtcDataChannel_def loop s)
qed

end

text \<open>
  The pumped transport on backends that keep their contracts: an update, a send and a poll all
  return, and keep the invariant of the inner transport.
\<close>

definition pumped_ok :: "('c, 'd) KcpRtcPumpedTransport \<Rightarrow> bool" where
  "pumped_ok p \<longleftrightarrow> kcp_ok (pt_transport p) \<and> pt_signalingClient p \<noteq> None \<and> pt_dataChannel p \<noteq> None"

locale rtc_backends = signaling_client S backlog + data_channel C incoming outgoing
  for S :: "'c signaling_client_ops" and backlog and C :: "'d data_channel_ops" and incoming outgoing
begin

lemma pump_signaling_returns:
  assumes "pumped_ok p"
  shows "\<exists>p'. pump_signaling S c p = Some p' \<and> pumped_ok p' \<and> pt_dataChannel p' = pt_dataChannel p"
proof -
  obtain r t c' where "PumpKcpRtcSignaling S (pt_transport p) c = Some (r, t, c')"
    "kcp_ok (pt_transport p) \<longrightarrow> kcp_ok t" using PumpKcpRtcSignaling_returns by blast
  with assms show ?thesis by (simp add: pump_signaling_def pumped_ok_def)
qed

lemma pump_data_channel_returns:
  assumes "pumped_ok p"
  shows "\<exists>p'. pump_data_channel C d p = Some p' \<and> pumped_ok p'"
proof -
  obtain r t d' where "PumpKcpRtcDataChannel C (pt_transport p) d = Some (r, t, d')"
    "kcp_ok (pt_transport p) \<longrightarrow> kcp_ok t" using PumpKcpRtcDataChannel_returns by blast
  with assms show ?thesis by (simp add: pump_data_channel_def pumped_ok_def)
qed

lemma NotifyReadyIfPossible_ok:
  assumes "pumped_ok p"
  shows "pumped_ok (NotifyReadyIfPossible C p)"
    and "pt_dataChannel (NotifyReadyIfPossible C p) = pt_dataChannel p"
proof -
  obtain b t where n: "NotifyDataChannelReady (pt_transport p) = (b, t)" by fastforce
  show "pumped_ok (NotifyReadyIfPossible C p)"
    using kcp_ok_NotifyDataChannelReady [OF _ n] assms
    by (auto simp: NotifyReadyIfPossible_def pumped_ok_def n split: option.splits)
  show "pt_dataChannel (NotifyReadyIfPossible C p) = pt_dataChannel p"
    by (auto simp: NotifyReadyIfPossible_def n split: option.splits)
qed

lemma Pumped_Update_returns:
  assumes "pumped_ok p"
  shows "\<exists>p'. Pumped_Update S C p = Some p' \<and> pumped_ok p'"
proof -
  obtain c d where cd: "pt_signalingClient p = Some c" "pt_dataChannel p = Some d"
    using assms by (auto simp: pumped_ok_def)
  obtain p1 where p1: "pump_signaling S c p = Some p1" "pumped_ok p1"
    using pump_signaling_returns [OF assms, of c] by blast
  let ?p2 = "NotifyReadyIfPossible C p1"
  have p2: "pumped_ok ?p2" using NotifyReadyIfPossible_ok(1) [OF p1(2)] .
  obtain c2 where c2: "pt_signalingClient ?p2 = Some c2" using p2 by (auto simp: pumped_ok_def)
  obtain p3 where p3: "pump_signaling S c2 ?p2 = Some p3" "pumped_ok p3"
    using pump_signaling_returns [OF p2, of c2] by blast
  obtain p4 where p4: "pump_data_channel C d p3 = Some p4" "pumped_ok p4"
    using pump_data_channel_returns [OF p3(2), of d] by blast
  obtain d4 where "pt_dataChannel p4 = Some d4" using p4(2) by (auto simp: pumped_ok_def)
  with p4 show ?thesis by (simp add: Pumped_Update_def cd p1 p2 c2 p3 Let_def) (simp add: pumped_ok_def)
qed

lemma Pumped_Send_returns:
  assumes "pumped_ok p"
  shows "\<exists>b p'. Pumped_Send S C e p = Some (b, p') \<and> pumped_ok p'"
proof -
  obtain p1 where p1: "Pumped_Update S C p = Some p1" "pumped_ok p1" using Pumped_Update_returns [OF assms] by blast
  obtain b t where t: "Kcp_Send e (pt_transport p1) = (b, t)" by fastforce
  let ?p2 = "p1\<lparr>pt_transport := t\<rparr>"
  have p2: "pumped_ok ?p2" using kcp_ok_Send [OF _ t] p1(2) by (simp add: pumped_ok_def)
  obtain d where d: "pt_dataChannel ?p2 = Some d" using p2 by (auto simp: pumped_ok_def)
  obtain p3 where p3: "pump_data_channel C d ?p2 = Some p3" "pumped_ok p3"
    using pump_data_channel_returns [OF p2, of d] by blast
  have "pumped_ok (q\<lparr>pt_lastError := x\<rparr>) = pumped_ok q" for q :: "('c, 'd) KcpRtcPumpedTransport" and x
    by (simp add: pumped_ok_def)
  with p2 p3 d show ?thesis by (cases b) (auto simp: Pumped_Send_def p1 t)
qed

lemma Pumped_Poll_returns:
  assumes "pumped_ok p"
  shows "\<exists>e p'. Pumped_Poll S C p = Some (e, p') \<and> pumped_ok p'
    \<and> (\<forall>x. e = Some x \<longrightarrow> valid_envelope x)"
proof -
  obtain p1 where p1: "Pumped_Update S C p = Some p1" "pumped_ok p1" using Pumped_Update_returns [OF assms] by blast
  obtain e t where t: "Kcp_Poll (pt_transport p1) = (e, t)" by fastforce
  have "kcp_ok (pt_transport p1)" using p1(2) by (simp add: pumped_ok_def)
  then have "kcp_ok t \<and> (\<forall>x. e = Some x \<longrightarrow> valid_envelope x)"
    using kcp_ok_Poll [OF _ t] t by (auto simp: Kcp_Poll_def kcp_ok_def split: list.splits)
  with p1 show ?thesis by (simp add: Pumped_Poll_def t pumped_ok_def)
qed

end

interpretation in_memory_rtc: rtc_backends in_memory_signaling signaling_backlog
    in_memory_channel Channel_Incoming Channel_Outgoing
  by unfold_locales

interpretation unsupported_rtc: rtc_backends unsupported_signaling "\<lambda>c. 0"
    unsupported_channel "\<lambda>d. []" "\<lambda>d. []"
  by unfold_locales

end
