(* ===== verification/Kcp_Pair.thy ===== *)
theory Kcp_Pair
  imports Kcp_Pumped
begin

text \<open>
  \<open>CreateInMemoryKcpRtcTransportPair\<close> of \<open>src/Networking/src/KcpRtcPumpedTransport.cpp\<close>: two pumped
  transports over one signaling hub and one pair of data channels, from the connection handshake to
  the exchange of envelopes.

  The hub and the channel's queues are shared pointers in the code. Here the world record
  \<open>rtc_world\<close> owns them: an operation at one end runs on that end with the shared contents filled
  in, and the contents it leaves are stored back. Once connected, the pair refines two queues of
  envelopes, one in each direction.
\<close>

section \<open>The pair\<close>

record InMemoryKcpRtcTransportPairConfig =
  pc_clientPeerId :: ClientId
  pc_serverPeerId :: ClientId
  pc_sessionId :: std_string
  pc_dataChannelLabel :: std_string
  pc_maxBufferedAmountBytes :: nat

definition default_PairConfig :: InMemoryKcpRtcTransportPairConfig where
  "default_PairConfig = \<lparr>pc_clientPeerId = 1, pc_serverPeerId = 2, pc_sessionId = bytes_of ''default'',
     pc_dataChannelLabel = bytes_of ''game'', pc_maxBufferedAmountBytes = 1024 * 1024\<rparr>"

datatype rtc_end = Client_End | Server_End

type_synonym rtc_endpoint = "(InMemoryRtcSignalingClient, InMemoryRtcDataChannel) KcpRtcPumpedTransport"

record rtc_world =
  rw_client :: rtc_endpoint
  rw_server :: rtc_endpoint
  rw_hub :: InMemoryRtcSignalingHub
  rw_channel :: ChannelShared

fun peer_id :: "InMemoryKcpRtcTransportPairConfig \<Rightarrow> rtc_end \<Rightarrow> ClientId" where
  "peer_id config Client_End = pc_clientPeerId config"
| "peer_id config Server_End = pc_serverPeerId config"

fun other_end :: "rtc_end \<Rightarrow> rtc_end" where
  "other_end Client_End = Server_End"
| "other_end Server_End = Client_End"

fun end_config :: "InMemoryKcpRtcTransportPairConfig \<Rightarrow> rtc_end \<Rightarrow> KcpRtcTransportConfig" where
  "end_config config Client_End = default_KcpConfig\<lparr>kc_role := Role_Client,
     kc_localPeerId := pc_clientPeerId config, kc_peerName := bytes_of ''client'',
     kc_signalingUrl := bytes_of ''memory://signaling'', kc_dataChannelLabel := pc_dataChannelLabel config,
     kc_maxBufferedAmountBytes := pc_maxBufferedAmountBytes config, kc_sessionId := pc_sessionId config\<rparr>"
| "end_config config Server_End = default_KcpConfig\<lparr>kc_role := Role_Server,
     kc_localPeerId := pc_serverPeerId config, kc_peerName := bytes_of ''server'',
     kc_signalingUrl := bytes_of ''memory://signaling'', kc_dataChannelLabel := pc_dataChannelLabel config,
     kc_maxBufferedAmountBytes := pc_maxBufferedAmountBytes config, kc_sessionId := pc_sessionId config\<rparr>"

definition new_endpoint :: "InMemoryKcpRtcTransportPairConfig \<Rightarrow> rtc_end \<Rightarrow> InMemoryRtcDataChannel \<Rightarrow> rtc_endpoint" where
  "new_endpoint config e d = new_KcpRtcPumpedTransport (end_config config e)
     (Some (new_InMemoryRtcSignalingClient (Some [])
        \<lparr>sf_peerId = peer_id config e, sf_sessionId = pc_sessionId config\<rparr>))
     (Some d)"

definition CreateInMemoryKcpRtcTransportPair :: "InMemoryKcpRtcTransportPairConfig \<Rightarrow> rtc_world" where
  "CreateInMemoryKcpRtcTransportPair config =
     (let dataChannels = Channel_CreatePair
      in \<lparr>rw_client = new_endpoint config Client_End (fst dataChannels),
          rw_server = new_endpoint config Server_End (snd dataChannels),
          rw_hub = [], rw_channel = empty_ChannelShared\<rparr>)"

section \<open>Running an operation at one end\<close>

fun rw_end :: "rtc_end \<Rightarrow> rtc_world \<Rightarrow> rtc_endpoint" where
  "rw_end Client_End w = rw_client w"
| "rw_end Server_End w = rw_server w"

definition load_end :: "rtc_end \<Rightarrow> rtc_world \<Rightarrow> rtc_endpoint" where
  "load_end e w = (rw_end e w)\<lparr>
     pt_signalingClient := map_option (\<lambda>c. c\<lparr>ic_hub := Some (rw_hub w)\<rparr>) (pt_signalingClient (rw_end e w)),
     pt_dataChannel := map_option (\<lambda>d. d\<lparr>md_state := Some (rw_channel w)\<rparr>) (pt_dataChannel (rw_end e w))\<rparr>"

definition end_hub :: "rtc_endpoint \<Rightarrow> InMemoryRtcSignalingHub" where
  "end_hub p = (case pt_signalingClient p of Some c \<Rightarrow> (case ic_hub c of Some hub \<Rightarrow> hub | None \<Rightarrow> []) | None \<Rightarrow> [])"

definition end_channel :: "rtc_endpoint \<Rightarrow> ChannelShared" where
  "end_channel p = (case pt_dataChannel p of Some d \<Rightarrow> channel_queues d | None \<Rightarrow> empty_ChannelShared)"

fun store_end :: "rtc_end \<Rightarrow> rtc_endpoint \<Rightarrow> rtc_world \<Rightarrow> rtc_world" where
  "store_end Client_End p w = w\<lparr>rw_client := p, rw_hub := end_hub p, rw_channel := end_channel p\<rparr>"
| "store_end Server_End p w = w\<lparr>rw_server := p, rw_hub := end_hub p, rw_channel := end_channel p\<rparr>"

definition pair_connect :: "rtc_end \<Rightarrow> rtc_world \<Rightarrow> bool \<times> rtc_world" where
  "pair_connect e w = (case Pumped_Connect in_memory_signaling (load_end e w) of (b, p) \<Rightarrow> (b, store_end e p w))"

definition pair_update :: "rtc_end \<Rightarrow> rtc_world \<Rightarrow> rtc_world option" where
  "pair_update e w = do {
     p \<leftarrow> Pumped_Update in_memory_signaling in_memory_channel (load_end e w);
     Some (store_end e p w)
   }"

definition pair_send :: "rtc_end \<Rightarrow> NetworkEnvelope \<Rightarrow> rtc_world \<Rightarrow> (bool \<times> rtc_world) option" where
  "pair_send e x w = do {
     (b, p) \<leftarrow> Pumped_Send in_memory_signaling in_memory_channel x (load_end e w);
     Some (b, store_end e p w)
   }"

definition pair_poll :: "rtc_end \<Rightarrow> rtc_world \<Rightarrow> (NetworkEnvelope option \<times> rtc_world) option" where
  "pair_poll e w = do {
     (x, p) \<leftarrow> Pumped_Poll in_memory_signaling in_memory_channel (load_end e w);
     Some (x, store_end e p w)
   }"

text \<open>The calls that bring a connection up.\<close>

definition handshake :: "rtc_world \<Rightarrow> rtc_world option" where
  "handshake w = do {
     let (_, w) = pair_connect Client_End w;
     let (_, w) = pair_connect Server_End w;
     w \<leftarrow> pair_update Client_End w;
     w \<leftarrow> pair_update Server_End w;
     pair_update Client_End w
   }"

section \<open>Signals and frames on their way\<close>

text \<open>A configuration the signaling code can encode: session identifiers are at most 256 bytes on the wire.\<close>

definition pair_config_ok :: "InMemoryKcpRtcTransportPairConfig \<Rightarrow> bool" where
  "pair_config_ok config \<longleftrightarrow> pc_clientPeerId config \<noteq> 0 \<and> pc_serverPeerId config \<noteq> 0
     \<and> pc_clientPeerId config \<noteq> pc_serverPeerId config
     \<and> pc_sessionId config \<noteq> [] \<and> length (pc_sessionId config) \<le> 256
     \<and> pc_dataChannelLabel config \<noteq> [] \<and> length (pc_dataChannelLabel config) \<le> kMaxRtcSignalingPayloadBytes
     \<and> pc_maxBufferedAmountBytes config \<noteq> 0"

text \<open>Both peers are registered in the hub with the session, and nobody else.\<close>

definition hub_pair :: "InMemoryKcpRtcTransportPairConfig \<Rightarrow> InMemoryRtcSignalingHub \<Rightarrow> bool" where
  "hub_pair config hub \<longleftrightarrow> um_ok hub
     \<and> (\<forall>p. map_option pq_sessionId (um_find hub p) =
          (if p = pc_clientPeerId config \<or> p = pc_serverPeerId config then Some (pc_sessionId config) else None))"

definition signal_from :: "InMemoryKcpRtcTransportPairConfig \<Rightarrow> rtc_end \<Rightarrow> RtcSignalingMessage \<Rightarrow> bool" where
  "signal_from config e m \<longleftrightarrow> valid_signal m \<and> sg_senderPeerId m = peer_id config e
     \<and> sg_sessionId m = pc_sessionId config \<and> sg_targetPeerId m \<in> {0, peer_id config (other_end e)}"

text \<open>The signaling client of an end, with the signals queued for each end.\<close>

definition client_ready :: "InMemoryKcpRtcTransportPairConfig \<Rightarrow> rtc_end \<Rightarrow> InMemoryRtcSignalingClient
    \<Rightarrow> (rtc_end \<Rightarrow> RtcSignalingMessage list) \<Rightarrow> bool" where
  "client_ready config e c sig \<longleftrightarrow> ic_state c = Rtc_Connected
     \<and> ic_config c = \<lparr>sf_peerId = peer_id config e, sf_sessionId = pc_sessionId config\<rparr>
     \<and> (\<exists>hub. ic_hub c = Some hub \<and> hub_pair config hub
          \<and> (\<forall>i. hub_queue (peer_id config i) hub = map SerializeRtcSignalingMessage (sig i)))"

lemma other_end_neq [simp]: "other_end e \<noteq> e" "e \<noteq> other_end e" "other_end (other_end e) = e"
  by (cases e; simp)+

lemma neq_end: "i \<noteq> e \<longleftrightarrow> i = other_end e"
  by (cases i; cases e) simp_all

lemma end_cases: "P e \<Longrightarrow> P (other_end e) \<Longrightarrow> P (i :: rtc_end)"
  by (cases e; cases i) auto

lemma peer_id_inj: "pair_config_ok config \<Longrightarrow> peer_id config i = peer_id config j \<longleftrightarrow> i = j"
  by (cases i; cases j) (auto simp: pair_config_ok_def)

lemma peer_id_nonzero: "pair_config_ok config \<Longrightarrow> peer_id config i \<noteq> 0"
  by (cases i) (auto simp: pair_config_ok_def)

lemma hub_pair_find: "hub_pair config hub \<Longrightarrow> \<exists>peer. um_find hub (peer_id config i) = Some peer
    \<and> pq_sessionId peer = pc_sessionId config"
  unfolding hub_pair_def by (cases i) (auto split: if_splits)

lemma hub_pair_only: "hub_pair config hub \<Longrightarrow> um_find hub p = Some peer \<Longrightarrow> \<exists>i. p = peer_id config i"
  unfolding hub_pair_def by (metis option.distinct(1) option.map(2) peer_id.simps)

lemma Route_sessions:
  assumes "um_ok hub"
  shows "um_ok (snd (Route bytes hub))
     \<and> map_option pq_sessionId (um_find (snd (Route bytes hub)) p) = map_option pq_sessionId (um_find hub p)"
proof -
  have fst: "map fst (snd (broadcast m bytes hub)) = map fst hub" for m
    by (induction hub) (auto simp: Let_def split: prod.splits)
  have "um_ok (snd (broadcast m bytes hub))" for m using assms by (simp add: um_ok_def fst)
  moreover have "map_option pq_sessionId (um_find (snd (broadcast m bytes hub)) p) = map_option pq_sessionId (um_find hub p)" for m
    using broadcast_find [OF assms, of m bytes p] by (cases "um_find hub p") (auto simp: push_frame_def)
  ultimately show ?thesis
    using assms by (auto simp: Route_def push_frame_def Let_def split: option.splits)
qed

lemma send_ready:
  assumes config: "pair_config_ok config" and ready: "client_ready config e c sig"
    and m: "signal_from config e m"
  shows "\<exists>c'. Signaling_Send m c = (True, c')
     \<and> client_ready config e c' (sig(other_end e := sig (other_end e) @ [m]))"
proof -
  from ready obtain hub where hub: "ic_hub c = Some hub" "hub_pair config hub"
    "\<And>i. hub_queue (peer_id config i) hub = map SerializeRtcSignalingMessage (sig i)"
    by (auto simp: client_ready_def)
  let ?bytes = "SerializeRtcSignalingMessage m"
  have valid: "valid_signal m" "length (sg_sessionId m) \<le> 256"
    using m config by (auto simp: signal_from_def pair_config_ok_def)
  have dec: "sr_message (DeserializeRtcSignalingMessage ?bytes) = Some m"
    using signal.round_trip [of m] valid by simp
  have ok: "um_ok hub" using hub(2) by (simp add: hub_pair_def)
  have from_e: "sg_senderPeerId m = peer_id config e" "sg_sessionId m = pc_sessionId config"
    "sg_targetPeerId m = 0 \<or> sg_targetPeerId m = peer_id config (other_end e)"
    using m by (auto simp: signal_from_def)
  have registered: "sender_registered m hub"
    using hub_pair_find [OF hub(2), of e] by (simp add: sender_registered_def from_e)
  have addr: "addressed m (peer_id config i) hub \<longleftrightarrow> i = other_end e" for i
    using hub_pair_find [OF hub(2), of i] from_e(3) peer_id_nonzero [OF config, of "other_end e"]
    by (auto simp: addressed_def from_e(1,2) peer_id_inj [OF config] neq_end)
  have "fst (Route ?bytes hub)"
    using Route_effect [OF ok, of ?bytes] registered addr [of "other_end e"] by (auto simp: dec)
  then obtain hub' where R: "Route ?bytes hub = (True, hub')" by (cases "Route ?bytes hub") simp
  have "hub_pair config hub'"
    using Route_sessions [OF ok, of ?bytes] hub(2) by (simp add: R hub_pair_def)
  moreover have "hub_queue (peer_id config i) hub'
      = map SerializeRtcSignalingMessage ((sig(other_end e := sig (other_end e) @ [m])) i)" for i
    using Route_effect [OF ok, of ?bytes "peer_id config i"] hub(3)
    by (simp add: dec registered addr R)
  ultimately show ?thesis using ready from_e valid hub(1)
    by (auto simp: Signaling_Send_def client_ready_def R)
qed

lemma poll_ready_nil:
  assumes "client_ready config e c sig" and "sig e = []"
  shows "Signaling_Poll c = (None, c)"
proof -
  from assms obtain hub where hub: "ic_hub c = Some hub" "hub_pair config hub" "hub_queue (peer_id config e) hub = []"
    by (fastforce simp: client_ready_def)
  obtain peer where "um_find hub (peer_id config e) = Some peer" using hub_pair_find [OF hub(2)] by blast
  with hub(1,3) assms(1) show ?thesis
    by (auto simp: Signaling_Poll_def client_ready_def Hub_Poll_def hub_queue_def)
qed

lemma poll_ready:
  assumes config: "pair_config_ok config" and ready: "client_ready config e c sig" and q: "sig e = m # ms"
    and m: "valid_signal m" "length (sg_sessionId m) \<le> 256"
  shows "\<exists>c'. Signaling_Poll c = (Some m, c') \<and> client_ready config e c' (sig(e := ms))"
proof -
  from ready obtain hub where hub: "ic_hub c = Some hub" "hub_pair config hub"
    "\<And>i. hub_queue (peer_id config i) hub = map SerializeRtcSignalingMessage (sig i)"
    by (auto simp: client_ready_def)
  obtain peer where peer: "um_find hub (peer_id config e) = Some peer" "pq_sessionId peer = pc_sessionId config"
    using hub_pair_find [OF hub(2)] by blast
  let ?bytes = "SerializeRtcSignalingMessage m"
  let ?hub = "um_put (peer_id config e) (peer\<lparr>pq_incoming := map SerializeRtcSignalingMessage ms\<rparr>) hub"
  have "pq_incoming peer = ?bytes # map SerializeRtcSignalingMessage ms"
    using hub(3) [of e] by (simp add: hub_queue_def peer q)
  then have poll: "Hub_Poll (peer_id config e) hub = (Some ?bytes, ?hub)" by (simp add: Hub_Poll_def peer)
  have dec: "sr_message (DeserializeRtcSignalingMessage ?bytes) = Some m"
    using signal.round_trip [of m] m by simp
  have "map_option pq_sessionId (um_find ?hub p) = map_option pq_sessionId (um_find hub p)" for p
    by (simp add: peer)
  with hub(2) have "hub_pair config ?hub" by (simp add: hub_pair_def)
  moreover have "hub_queue (peer_id config i) ?hub = map SerializeRtcSignalingMessage ((sig(e := ms)) i)" for i
    using hub(3) [of i] peer_id_inj [OF config, of i e] by (auto simp: hub_queue_def)
  ultimately show ?thesis using ready hub(1)
    by (auto simp: Signaling_Poll_def client_ready_def poll signal_ok_iff dec)
qed

section \<open>Pumping signals\<close>

abbreviation receive_signals :: "RtcSignalingMessage list \<Rightarrow> KcpRtcTransport \<Rightarrow> KcpRtcTransport" where
  "receive_signals \<equiv> fold (\<lambda>m t. snd (ReceiveSignalingMessage m t))"

lemma send_all_ready:
  assumes config: "pair_config_ok config" and "client_ready config e c sig"
    and "\<forall>m\<in>set ms. signal_from config e m"
  shows "\<exists>r' c'. fold (send_signal in_memory_signaling) ms (r, t, c) = (r', t, c')
     \<and> client_ready config e c' (sig(other_end e := sig (other_end e) @ ms))"
  using assms(2,3)
proof (induction ms arbitrary: r c sig)
  case (Cons m ms)
  from send_ready [OF config Cons.prems(1)] Cons.prems(2) obtain c1 where
    s: "Signaling_Send m c = (True, c1)"
    and c1: "client_ready config e c1 (sig(other_end e := sig (other_end e) @ [m]))" by auto
  let ?r = "r\<lparr>sp_outgoingSignalsSent := sp_outgoingSignalsSent r + 1\<rparr>"
  have step: "send_signal in_memory_signaling m (r, t, c) = (?r, t, c1)"
    by (simp add: send_signal_def in_memory_signaling_def s)
  have sig: "(sig(other_end e := sig (other_end e) @ [m]))(other_end e :=
        (sig(other_end e := sig (other_end e) @ [m])) (other_end e) @ ms)
      = sig(other_end e := sig (other_end e) @ m # ms)" by simp
  from Cons.IH [OF c1, of ?r, unfolded sig] Cons.prems(2) show ?case by (simp add: step)
qed (simp add: assms)

lemma receive_all_ready:
  assumes config: "pair_config_ok config" and "client_ready config e c sig"
    and "\<forall>m\<in>set (sig e). valid_signal m \<and> length (sg_sessionId m) \<le> 256"
  shows "\<exists>r' c'. poll_loop (poll_client_signal in_memory_signaling) receive_signal (r, t, c)
       = Some (r', receive_signals (sig e) t, c')
     \<and> client_ready config e c' (sig(e := []))"
  using assms(2,3)
proof (induction "sig e" arbitrary: r c t sig)
  case Nil
  then have "Signaling_Poll c = (None, c)" and "sig(e := []) = sig" using poll_ready_nil [OF Nil.prems(1)] by auto
  then show ?case using Nil
    by (subst poll_loop.simps) (simp add: poll_client_signal_def in_memory_signaling_def flip: Nil.hyps)
next
  case (Cons m ms)
  have "valid_signal m" "length (sg_sessionId m) \<le> 256"
    using Cons.prems(2) by (simp_all add: Cons.hyps(2) [symmetric])
  from poll_ready [OF config Cons.prems(1) Cons.hyps(2) [symmetric] this]
  obtain c1 where p: "Signaling_Poll c = (Some m, c1)" and c1: "client_ready config e c1 (sig(e := ms))" by blast
  obtain r1 where r1: "receive_signal m (r, t, c1) = (r1, snd (ReceiveSignalingMessage m t), c1)"
    using snd_receive_signal [of m r t c1] by (metis prod.collapse)
  have "poll_loop (poll_client_signal in_memory_signaling) receive_signal (r, t, c)
      = poll_loop (poll_client_signal in_memory_signaling) receive_signal (r1, snd (ReceiveSignalingMessage m t), c1)"
    by (subst poll_loop.simps) (simp add: poll_client_signal_def in_memory_signaling_def p r1)
  moreover
  have pre: "ms = (sig(e := ms)) e" "\<forall>m\<in>set ((sig(e := ms)) e). valid_signal m \<and> length (sg_sessionId m) \<le> 256"
    using Cons.prems(2) by (simp_all add: Cons.hyps(2) [symmetric])
  from Cons.hyps(1) [OF pre(1) c1 pre(2), of r1 "snd (ReceiveSignalingMessage m t)"]
  obtain r' c' where "poll_loop (poll_client_signal in_memory_signaling) receive_signal
      (r1, snd (ReceiveSignalingMessage m t), c1) = Some (r', receive_signals ms (snd (ReceiveSignalingMessage m t)), c')"
    "client_ready config e c' (sig(e := []))" unfolding fun_upd_upd fun_upd_same by blast
  ultimately show ?case by (simp flip: Cons.hyps(2))
qed

text \<open>One pump sends every queued signal and then applies every signal that is waiting, in order.\<close>

lemma pump_ready:
  assumes config: "pair_config_ok config" and ready: "client_ready config e c sig"
    and sent: "\<forall>m\<in>set (kt_outgoingSignals t). signal_from config e m"
    and waiting: "\<forall>m\<in>set (sig e). valid_signal m \<and> length (sg_sessionId m) \<le> 256"
  shows "\<exists>r c'. PumpKcpRtcSignaling in_memory_signaling t c
       = Some (r, receive_signals (sig e) (t\<lparr>kt_outgoingSignals := []\<rparr>), c')
     \<and> client_ready config e c' (sig(e := [], other_end e := sig (other_end e) @ kt_outgoingSignals t))"
proof -
  let ?t = "t\<lparr>kt_outgoingSignals := []\<rparr>"
  let ?sig = "sig(other_end e := sig (other_end e) @ kt_outgoingSignals t)"
  obtain r1 c1 where s: "fold (send_signal in_memory_signaling) (kt_outgoingSignals t) (zero_SignalingPump, ?t, c)
      = (r1, ?t, c1)" and c1: "client_ready config e c1 ?sig"
    using send_all_ready [OF config ready sent] by blast
  from receive_all_ready [OF config c1, of r1 ?t] waiting obtain r2 c2 where
    "poll_loop (poll_client_signal in_memory_signaling) receive_signal (r1, ?t, c1)
       = Some (r2, receive_signals (sig e) ?t, c2)" "client_ready config e c2 (?sig(e := []))" by auto
  moreover have "?sig(e := []) = sig(e := [], other_end e := sig (other_end e) @ kt_outgoingSignals t)"
    by (auto simp: fun_eq_iff)
  ultimately show ?thesis by (simp add: PumpKcpRtcSignaling_def send_signals_loop s)
qed

section \<open>Pumping frames\<close>

fun channel_end :: "rtc_end \<Rightarrow> ChannelEndpoint" where
  "channel_end Client_End = Channel_A"
| "channel_end Server_End = Channel_B"

definition channel_ready :: "rtc_end \<Rightarrow> InMemoryRtcDataChannel \<Rightarrow> (rtc_end \<Rightarrow> byte list list) \<Rightarrow> bool" where
  "channel_ready e d fr \<longleftrightarrow> md_stateValue d = Channel_Open \<and> md_endpoint d = channel_end e
     \<and> md_state d = Some \<lparr>ch_aToB = fr Server_End, ch_bToA = fr Client_End\<rparr>"

abbreviation receive_frames :: "byte list list \<Rightarrow> KcpRtcTransport \<Rightarrow> KcpRtcTransport" where
  "receive_frames \<equiv> fold (\<lambda>f t. snd (ReceiveFrame f t))"

lemma send_frame_ready:
  assumes "channel_ready e d fr" and "f \<noteq> []"
  shows "\<exists>d'. Channel_SendFrame f d = (True, d') \<and> channel_ready e d' (fr(other_end e := fr (other_end e) @ [f]))"
  using assms by (cases e)
    (simp_all add: channel_ready_def Channel_SendFrame_def Channel_Outgoing_def set_Channel_Outgoing_def channel_queues_def)

lemma poll_frame_ready:
  assumes "channel_ready e d fr"
  shows "fr e = [] \<Longrightarrow> Channel_PollFrame d = (None, d)"
    and "fr e = f # fs \<Longrightarrow> \<exists>d'. Channel_PollFrame d = (Some f, d') \<and> channel_ready e d' (fr(e := fs))"
  using assms by (cases e;
    simp add: channel_ready_def Channel_PollFrame_def Channel_Incoming_def set_Channel_Incoming_def channel_queues_def)+

lemma send_frames_ready:
  assumes "channel_ready e d fr" and "\<forall>f\<in>set fs. f \<noteq> []"
  shows "\<exists>r' d'. fold (send_frame in_memory_channel) fs (r, t, d) = (r', t, d')
     \<and> channel_ready e d' (fr(other_end e := fr (other_end e) @ fs))"
  using assms
proof (induction fs arbitrary: r d fr)
  case (Cons f fs)
  from send_frame_ready [OF Cons.prems(1), of f] Cons.prems(2) obtain d1 where
    s: "Channel_SendFrame f d = (True, d1)"
    and d1: "channel_ready e d1 (fr(other_end e := fr (other_end e) @ [f]))" by auto
  let ?r = "r\<lparr>fp_outgoingFramesSent := fp_outgoingFramesSent r + 1\<rparr>"
  have step: "send_frame in_memory_channel f (r, t, d) = (?r, t, d1)"
    by (simp add: send_frame_def in_memory_channel_def s)
  have fr: "(fr(other_end e := fr (other_end e) @ [f]))(other_end e :=
        (fr(other_end e := fr (other_end e) @ [f])) (other_end e) @ fs)
      = fr(other_end e := fr (other_end e) @ f # fs)" by simp
  from Cons.IH [OF d1, of ?r, unfolded fr] Cons.prems(2) show ?case by (simp add: step)
qed simp

lemma receive_frames_ready:
  assumes "channel_ready e d fr"
  shows "\<exists>r' d'. poll_loop (poll_channel_frame in_memory_channel) receive_frame (r, t, d)
       = Some (r', receive_frames (fr e) t, d') \<and> channel_ready e d' (fr(e := []))"
  using assms
proof (induction "fr e" arbitrary: r d t fr)
  case Nil
  then have "Channel_PollFrame d = (None, d)" and "fr(e := []) = fr" using poll_frame_ready(1) [OF Nil.prems] by auto
  then show ?case using Nil
    by (subst poll_loop.simps) (simp add: poll_channel_frame_def in_memory_channel_def flip: Nil.hyps)
next
  case (Cons f fs)
  from poll_frame_ready(2) [OF Cons.prems Cons.hyps(2) [symmetric]]
  obtain d1 where p: "Channel_PollFrame d = (Some f, d1)" and d1: "channel_ready e d1 (fr(e := fs))" by blast
  obtain r1 where r1: "receive_frame f (r, t, d1) = (r1, snd (ReceiveFrame f t), d1)"
    using snd_receive_frame [of f r t d1] by (metis prod.collapse)
  have "poll_loop (poll_channel_frame in_memory_channel) receive_frame (r, t, d)
      = poll_loop (poll_channel_frame in_memory_channel) receive_frame (r1, snd (ReceiveFrame f t), d1)"
    by (subst poll_loop.simps) (simp add: poll_channel_frame_def in_memory_channel_def p r1)
  moreover
  have pre: "fs = (fr(e := fs)) e" by simp
  from Cons.hyps(1) [OF pre d1, of r1 "snd (ReceiveFrame f t)"]
  obtain r' d' where "poll_loop (poll_channel_frame in_memory_channel) receive_frame (r1, snd (ReceiveFrame f t), d1)
      = Some (r', receive_frames fs (snd (ReceiveFrame f t)), d')" "channel_ready e d' (fr(e := []))"
    unfolding fun_upd_upd fun_upd_same by blast
  ultimately show ?case by (simp flip: Cons.hyps(2))
qed

lemma EncodeTransportPacket_nonempty: "EncodeTransportPacket e \<noteq> []"
  by (simp add: EncodeTransportPacket_eq packet_bytes_def packet_tuple_def pod_bytes_def flip: length_0_conv)

lemma pump_frames_ready:
  assumes ready: "channel_ready e d fr" and ok: "kcp_ok t"
  shows "\<exists>r d'. PumpKcpRtcDataChannel in_memory_channel t d
       = Some (r, receive_frames (fr e) (t\<lparr>kt_outgoingFrames := [], kt_bufferedOutgoingFrameBytes := 0\<rparr>), d')
     \<and> channel_ready e d' (fr(e := [], other_end e := fr (other_end e) @ kt_outgoingFrames t))"
proof -
  let ?t = "t\<lparr>kt_outgoingFrames := [], kt_bufferedOutgoingFrameBytes := 0\<rparr>"
  let ?fr = "fr(other_end e := fr (other_end e) @ kt_outgoingFrames t)"
  have nonempty: "\<forall>f\<in>set (kt_outgoingFrames t). f \<noteq> []"
  proof
    fix f assume "f \<in> set (kt_outgoingFrames t)"
    then obtain x where "f = EncodeTransportPacket x" using ok by (auto simp: kcp_ok_def)
    then show "f \<noteq> []" by (simp add: EncodeTransportPacket_nonempty)
  qed
  obtain b where loop: "poll_loop poll_transport_frame (send_frame in_memory_channel) (zero_ChannelPump, t, d)
      = Some (fold (send_frame in_memory_channel) (kt_outgoingFrames t)
          (zero_ChannelPump, t\<lparr>kt_outgoingFrames := [], kt_bufferedOutgoingFrameBytes := b\<rparr>, d))" "b = 0"
    using send_frames_loop [of in_memory_channel zero_ChannelPump t d] ok by (auto simp: kcp_ok_def)
  obtain r1 d1 where s: "fold (send_frame in_memory_channel) (kt_outgoingFrames t) (zero_ChannelPump, ?t, d)
      = (r1, ?t, d1)" and d1: "channel_ready e d1 ?fr"
    using send_frames_ready [OF ready nonempty] by blast
  have fr: "?fr e = fr e" "?fr(e := []) = fr(e := [], other_end e := fr (other_end e) @ kt_outgoingFrames t)"
    by (auto simp: fun_eq_iff)
  from receive_frames_ready [OF d1, of r1 ?t, unfolded fr] obtain r2 d2 where
    "poll_loop (poll_channel_frame in_memory_channel) receive_frame (r1, ?t, d1)
       = Some (r2, receive_frames (fr e) ?t, d2)"
    "channel_ready e d2 (fr(e := [], other_end e := fr (other_end e) @ kt_outgoingFrames t))" by blast
  then show ?thesis by (simp add: PumpKcpRtcDataChannel_def loop s)
qed

section \<open>An update at one end\<close>

definition endpoint_ready :: "InMemoryKcpRtcTransportPairConfig \<Rightarrow> rtc_end \<Rightarrow> rtc_endpoint
    \<Rightarrow> (rtc_end \<Rightarrow> RtcSignalingMessage list) \<Rightarrow> (rtc_end \<Rightarrow> byte list list) \<Rightarrow> bool" where
  "endpoint_ready config e p sig fr \<longleftrightarrow>
     (\<exists>c d. pt_signalingClient p = Some c \<and> pt_dataChannel p = Some d
        \<and> client_ready config e c sig \<and> channel_ready e d fr)"

text \<open>What \<open>NotifyReadyIfPossible\<close> does to the transport and the flag when the channel is open.\<close>

definition notify :: "bool \<times> KcpRtcTransport \<Rightarrow> bool \<times> KcpRtcTransport" where
  "notify = (\<lambda>(b, t). if b \<or> kt_phase t \<noteq> Phase_DataChannelConnecting then (b, t) else NotifyDataChannelReady t)"

lemma notify_ready:
  assumes "endpoint_ready config e p sig fr"
  shows "NotifyReadyIfPossible in_memory_channel p = p\<lparr>
      pt_transport := snd (notify (pt_readyNotified p, pt_transport p)),
      pt_readyNotified := fst (notify (pt_readyNotified p, pt_transport p))\<rparr>"
  using assms by (auto simp: NotifyReadyIfPossible_def endpoint_ready_def channel_ready_def notify_def
      in_memory_channel_def split: prod.splits)

text \<open>
  The effect of an update: it hands over the signals \<open>o\<^sub>1\<close> that were queued and those \<open>o\<^sub>2\<close> that the
  waiting signals led to, and the frames, and applies what was waiting.
\<close>

definition updated :: "RtcSignalingMessage list \<Rightarrow> bool \<Rightarrow> KcpRtcTransport \<Rightarrow> bool \<times> KcpRtcTransport" where
  "updated signals flag t = notify (flag, receive_signals signals (t\<lparr>kt_outgoingSignals := []\<rparr>))"

lemma receive_signals_ok: "kcp_ok t \<Longrightarrow> kcp_ok (receive_signals ms t)"
  by (induction ms arbitrary: t) (simp_all add: kcp_ok_received)

lemma updated_ok:
  assumes "updated ms b t = (b', t')" and "kcp_ok t"
  shows "kcp_ok t'"
proof -
  have "kcp_ok (t\<lparr>kt_outgoingSignals := []\<rparr>)" using assms(2) by (simp add: kcp_ok_def)
  then have "kcp_ok (receive_signals ms (t\<lparr>kt_outgoingSignals := []\<rparr>))" by (rule receive_signals_ok)
  with assms(1) kcp_ok_NotifyDataChannelReady show ?thesis
    by (auto simp: updated_def notify_def split: if_splits)
qed

lemma pump_endpoint_ready:
  assumes config: "pair_config_ok config" and ready: "endpoint_ready config e p sig fr"
    and "pt_signalingClient p = Some c"
    and "\<forall>m\<in>set (kt_outgoingSignals (pt_transport p)). signal_from config e m"
    and "\<forall>m\<in>set (sig e). valid_signal m \<and> length (sg_sessionId m) \<le> 256"
  shows "\<exists>p'. pump_signaling in_memory_signaling c p = Some p'
     \<and> pt_transport p' = receive_signals (sig e) ((pt_transport p)\<lparr>kt_outgoingSignals := []\<rparr>)
     \<and> pt_readyNotified p' = pt_readyNotified p \<and> pt_dataChannel p' = pt_dataChannel p
     \<and> endpoint_ready config e p'
         (sig(e := [], other_end e := sig (other_end e) @ kt_outgoingSignals (pt_transport p))) fr"
proof -
  from ready assms(3) obtain d where d: "pt_dataChannel p = Some d" and c: "client_ready config e c sig"
    and cd: "channel_ready e d fr" by (auto simp: endpoint_ready_def)
  from pump_ready [OF config c assms(4,5)] d cd show ?thesis
    by (auto simp: pump_signaling_def endpoint_ready_def)
qed

lemma update_ready:
  assumes config: "pair_config_ok config" and ready: "endpoint_ready config e p sig fr"
    and ok: "kcp_ok (pt_transport p)"
    and sent: "\<forall>m\<in>set (kt_outgoingSignals (pt_transport p)). signal_from config e m"
    and waiting: "\<forall>m\<in>set (sig e). valid_signal m \<and> length (sg_sessionId m) \<le> 256"
    and up: "updated (sig e) (pt_readyNotified p) (pt_transport p) = (b, t)"
    and led: "\<forall>m\<in>set (kt_outgoingSignals t). signal_from config e m"
  shows "\<exists>p'. Pumped_Update in_memory_signaling in_memory_channel p = Some p'
     \<and> pt_transport p' = receive_frames (fr e) (t\<lparr>kt_outgoingSignals := [], kt_outgoingFrames := [],
          kt_bufferedOutgoingFrameBytes := 0\<rparr>)
     \<and> pt_readyNotified p' = b
     \<and> endpoint_ready config e p'
         (sig(e := [], other_end e := sig (other_end e) @ kt_outgoingSignals (pt_transport p) @ kt_outgoingSignals t))
         (fr(e := [], other_end e := fr (other_end e) @ kt_outgoingFrames t))"
proof -
  let ?t0 = "(pt_transport p)\<lparr>kt_outgoingSignals := []\<rparr>"
  let ?t1 = "receive_signals (sig e) ?t0"
  let ?sig1 = "sig(e := [], other_end e := sig (other_end e) @ kt_outgoingSignals (pt_transport p))"
  let ?sig2 = "sig(e := [], other_end e := sig (other_end e) @ kt_outgoingSignals (pt_transport p) @ kt_outgoingSignals t)"
  let ?t3 = "t\<lparr>kt_outgoingSignals := []\<rparr>"
  obtain c d where cd: "pt_signalingClient p = Some c" "pt_dataChannel p = Some d"
    using ready by (auto simp: endpoint_ready_def)
  obtain p1 where p1: "pump_signaling in_memory_signaling c p = Some p1" "pt_transport p1 = ?t1"
    "pt_readyNotified p1 = pt_readyNotified p" "pt_dataChannel p1 = Some d"
    and r1: "endpoint_ready config e p1 ?sig1 fr"
    using pump_endpoint_ready [OF config ready cd(1) sent waiting] cd(2) by auto
  define p2 where "p2 = NotifyReadyIfPossible in_memory_channel p1"
  have p2: "p2 = p1\<lparr>pt_transport := t, pt_readyNotified := b\<rparr>"
    using notify_ready [OF r1] up by (simp add: p2_def p1 updated_def)
  have r2: "endpoint_ready config e p2 ?sig1 fr" using r1 by (simp add: p2 endpoint_ready_def)
  obtain c2 where c2: "pt_signalingClient p2 = Some c2" using r2 by (auto simp: endpoint_ready_def)
  have sig: "?sig1 e = []" "?sig1(e := [], other_end e := ?sig1 (other_end e) @ kt_outgoingSignals t) = ?sig2"
    by (auto simp: fun_eq_iff)
  have t2: "pt_transport p2 = t" "pt_readyNotified p2 = b" "pt_dataChannel p2 = Some d"
    by (simp_all add: p2 p1)
  from pump_endpoint_ready [OF config r2 c2, unfolded t2 sig] led
  obtain p3 where p3: "pump_signaling in_memory_signaling c2 p2 = Some p3" "pt_transport p3 = ?t3"
    "pt_readyNotified p3 = b" "pt_dataChannel p3 = Some d"
    and r3: "endpoint_ready config e p3 ?sig2 fr" by auto
  have "kcp_ok ?t3" using updated_ok [OF up ok] by (simp add: kcp_ok_def)
  moreover have "channel_ready e d fr" using r3 p3(4) by (auto simp: endpoint_ready_def)
  ultimately obtain r d4 where pump: "PumpKcpRtcDataChannel in_memory_channel ?t3 d
      = Some (r, receive_frames (fr e) (?t3\<lparr>kt_outgoingFrames := [], kt_bufferedOutgoingFrameBytes := 0\<rparr>), d4)"
    and d4: "channel_ready e d4 (fr(e := [], other_end e := fr (other_end e) @ kt_outgoingFrames ?t3))"
    using pump_frames_ready by blast
  let ?p4 = "p3\<lparr>pt_transport := receive_frames (fr e) (?t3\<lparr>kt_outgoingFrames := [],
      kt_bufferedOutgoingFrameBytes := 0\<rparr>), pt_dataChannel := Some d4\<rparr>"
  have "dc_state in_memory_channel d4 \<noteq> Channel_Failed"
    using d4 by (simp add: channel_ready_def in_memory_channel_def)
  then have "Pumped_Update in_memory_signaling in_memory_channel p
      = Some (?p4\<lparr>pt_lastError := kt_lastError (pt_transport ?p4)\<rparr>)"
    by (simp add: Pumped_Update_def cd p1(1) p2_def [symmetric] c2 p3 pump_data_channel_def pump Let_def)
  moreover have "endpoint_ready config e (?p4\<lparr>pt_lastError := kt_lastError (pt_transport ?p4)\<rparr>) ?sig2
      (fr(e := [], other_end e := fr (other_end e) @ kt_outgoingFrames t))"
    using r3 d4 by (auto simp: endpoint_ready_def)
  ultimately show ?thesis using p3(3) by simp
qed

text \<open>The world: both ends see the same signals and frames on their way.\<close>

definition pair_ready :: "InMemoryKcpRtcTransportPairConfig \<Rightarrow> rtc_world
    \<Rightarrow> (rtc_end \<Rightarrow> RtcSignalingMessage list) \<Rightarrow> (rtc_end \<Rightarrow> byte list list) \<Rightarrow> bool" where
  "pair_ready config w sig fr \<longleftrightarrow> (\<forall>e. endpoint_ready config e (load_end e w) sig fr)"

lemma rw_end_store [simp]: "rw_end i (store_end e p w) = (if i = e then p else rw_end i w)"
  by (cases i; cases e) simp_all

lemma shared_store [simp]: "rw_hub (store_end e p w) = end_hub p" "rw_channel (store_end e p w) = end_channel p"
  by (cases e; simp)+

lemma pt_load [simp]: "pt_transport (load_end e w) = pt_transport (rw_end e w)"
  "pt_readyNotified (load_end e w) = pt_readyNotified (rw_end e w)"
  by (simp_all add: load_end_def)

lemma store_ready:
  assumes w: "pair_ready config w sig fr" and p: "endpoint_ready config e p sig' fr'"
  shows "pair_ready config (store_end e p w) sig' fr'"
proof -
  from p obtain c d hub where c: "pt_signalingClient p = Some c" "ic_hub c = Some hub" "hub_pair config hub"
      "\<And>i. hub_queue (peer_id config i) hub = map SerializeRtcSignalingMessage (sig' i)"
      "client_ready config e c sig'"
    and d: "pt_dataChannel p = Some d" "channel_ready e d fr'"
    by (fastforce simp: endpoint_ready_def client_ready_def)
  have shared: "end_hub p = hub" "end_channel p = \<lparr>ch_aToB = fr' Server_End, ch_bToA = fr' Client_End\<rparr>"
    using c d by (auto simp: end_hub_def end_channel_def channel_queues_def channel_ready_def)
  have "endpoint_ready config e (load_end e (store_end e p w)) sig' fr'"
    using c d by (simp add: load_end_def endpoint_ready_def shared client_ready_def channel_ready_def)
  moreover have "endpoint_ready config (other_end e) (load_end (other_end e) (store_end e p w)) sig' fr'"
  proof -
    obtain c1 d1 where "pt_signalingClient (rw_end (other_end e) w) = Some c1" "pt_dataChannel (rw_end (other_end e) w) = Some d1"
      "client_ready config (other_end e) (c1\<lparr>ic_hub := Some (rw_hub w)\<rparr>) sig"
      "channel_ready (other_end e) (d1\<lparr>md_state := Some (rw_channel w)\<rparr>) fr"
      using w by (auto simp: pair_ready_def endpoint_ready_def load_end_def dest!: spec [of _ "other_end e"])
    then show ?thesis
      using c by (simp add: load_end_def endpoint_ready_def shared client_ready_def channel_ready_def)
  qed
  ultimately show ?thesis using end_cases [of "\<lambda>i. endpoint_ready config i (load_end i (store_end e p w)) sig' fr'" e]
    by (auto simp: pair_ready_def)
qed

lemma pair_update_ready:
  assumes config: "pair_config_ok config" and ready: "pair_ready config w sig fr"
    and ok: "kcp_ok (pt_transport (rw_end e w))"
    and sent: "\<forall>m\<in>set (kt_outgoingSignals (pt_transport (rw_end e w))). signal_from config e m"
    and waiting: "\<forall>m\<in>set (sig e). valid_signal m \<and> length (sg_sessionId m) \<le> 256"
    and up: "updated (sig e) (pt_readyNotified (rw_end e w)) (pt_transport (rw_end e w)) = (b, t)"
    and led: "\<forall>m\<in>set (kt_outgoingSignals t). signal_from config e m"
  shows "\<exists>w'. pair_update e w = Some w'
     \<and> pt_transport (rw_end e w') = receive_frames (fr e) (t\<lparr>kt_outgoingSignals := [], kt_outgoingFrames := [],
          kt_bufferedOutgoingFrameBytes := 0\<rparr>)
     \<and> pt_readyNotified (rw_end e w') = b \<and> rw_end (other_end e) w' = rw_end (other_end e) w
     \<and> pair_ready config w'
         (sig(e := [], other_end e := sig (other_end e)
            @ kt_outgoingSignals (pt_transport (rw_end e w)) @ kt_outgoingSignals t))
         (fr(e := [], other_end e := fr (other_end e) @ kt_outgoingFrames t))"
proof -
  have "endpoint_ready config e (load_end e w) sig fr" using ready by (simp add: pair_ready_def)
  from update_ready [OF config this, unfolded pt_load, OF ok sent waiting up led] store_ready [OF ready]
  show ?thesis by (fastforce simp: pair_update_def)
qed

section \<open>The handshake\<close>

text \<open>The signals of the handshake.\<close>

definition signal_of :: "InMemoryKcpRtcTransportPairConfig \<Rightarrow> rtc_end \<Rightarrow> RtcSignalingMessageKind \<Rightarrow> ClientId \<Rightarrow> u32
    \<Rightarrow> std_string \<Rightarrow> RtcSignalingMessage" where
  "signal_of config e kind target n payload = \<lparr>sg_kind = kind, sg_senderPeerId = peer_id config e,
     sg_targetPeerId = target, sg_sequence = n, sg_sessionId = pc_sessionId config, sg_payload = payload\<rparr>"

abbreviation join_of :: "InMemoryKcpRtcTransportPairConfig \<Rightarrow> rtc_end \<Rightarrow> RtcSignalingMessage" where
  "join_of config e \<equiv> signal_of config e Sig_Join 0 1 (kc_peerName (end_config config e))"

abbreviation offer_of :: "InMemoryKcpRtcTransportPairConfig \<Rightarrow> RtcSignalingMessage" where
  "offer_of config \<equiv> signal_of config Client_End Sig_Offer 0 2 (pc_dataChannelLabel config)"

abbreviation answer_of :: "InMemoryKcpRtcTransportPairConfig \<Rightarrow> RtcSignalingMessage" where
  "answer_of config \<equiv> signal_of config Server_End Sig_Answer (pc_clientPeerId config) 2 (pc_dataChannelLabel config)"

abbreviation ready_of :: "InMemoryKcpRtcTransportPairConfig \<Rightarrow> RtcSignalingMessage" where
  "ready_of config \<equiv> signal_of config Server_End Sig_DataChannelReady (pc_clientPeerId config) 3 []"

lemma signal_of_valid:
  assumes "pair_config_ok config" and "length payload \<le> kMaxRtcSignalingPayloadBytes"
  shows "valid_signal (signal_of config e kind target n payload)"
    and "length (sg_sessionId (signal_of config e kind target n payload)) \<le> 256"
    and "target = 0 \<or> target = peer_id config (other_end e) \<Longrightarrow> signal_from config e (signal_of config e kind target n payload)"
  using assms peer_id_nonzero [OF assms(1), of e]
  by (auto simp: signal_of_def ValidateRtcSignalingMessage_def pair_config_ok_def signal_from_def)

lemma payload_bounds:
  "length (kc_peerName (end_config config e)) \<le> kMaxRtcSignalingPayloadBytes"
  "pair_config_ok config \<Longrightarrow> length (pc_dataChannelLabel config) \<le> kMaxRtcSignalingPayloadBytes"
  by (cases e; simp add: kMaxRtcSignalingPayloadBytes_def bytes_of_def)
    (simp add: pair_config_ok_def)

lemma end_config_fields [simp]:
  "kc_localPeerId (end_config config e) = peer_id config e"
  "kc_sessionId (end_config config e) = pc_sessionId config"
  "kc_dataChannelLabel (end_config config e) = pc_dataChannelLabel config"
  "kc_maxBufferedAmountBytes (end_config config e) = pc_maxBufferedAmountBytes config"
  "kc_role (end_config config e) = (if e = Client_End then Role_Client else Role_Server)"
  by (cases e; simp)+

text \<open>The transports after each step.\<close>

definition connecting :: "InMemoryKcpRtcTransportPairConfig \<Rightarrow> rtc_end \<Rightarrow> KcpRtcTransport" where
  "connecting config e = (new_KcpRtcTransport (end_config config e))\<lparr>kt_state := Connecting,
     kt_phase := Phase_Signaling,
     kt_outgoingSignals := join_of config e # (if e = Client_End then [offer_of config] else []),
     kt_nextSignalSequence := (if e = Client_End then 3 else 2)\<rparr>"

definition answered :: "InMemoryKcpRtcTransportPairConfig \<Rightarrow> KcpRtcTransport" where
  "answered config = (new_KcpRtcTransport (end_config config Server_End))\<lparr>kt_state := Connected,
     kt_phase := Phase_Connected, kt_remotePeerId := pc_clientPeerId config,
     kt_outgoingSignals := [answer_of config, ready_of config], kt_nextSignalSequence := 4,
     kt_localDataChannelReady := True\<rparr>"

definition opened :: "InMemoryKcpRtcTransportPairConfig \<Rightarrow> KcpRtcTransport" where
  "opened config = (new_KcpRtcTransport (end_config config Client_End))\<lparr>kt_state := Connected,
     kt_phase := Phase_Connected, kt_remotePeerId := pc_serverPeerId config, kt_nextSignalSequence := 3\<rparr>"

lemma Kcp_Connect_end:
  assumes "pair_config_ok config"
  shows "Kcp_Connect (new_KcpRtcTransport (end_config config e)) = (True, connecting config e)"
proof -
  have "HasValidConfig (new_KcpRtcTransport (end_config config e))"
    using assms by (cases e) (simp_all add: HasValidConfig_def new_KcpRtcTransport_def pair_config_ok_def bytes_of_def)
  then show ?thesis
    by (cases e) (simp_all add: Kcp_Connect_def new_KcpRtcTransport_def connecting_def QueueSignal_def signal_of_def)
qed

lemma updated_idle: "kt_phase t \<noteq> Phase_DataChannelConnecting \<Longrightarrow>
    updated [] b t = (b, t\<lparr>kt_outgoingSignals := []\<rparr>)"
  by (simp add: updated_def notify_def)

text \<open>A well-formed signal from the other end is handled by its kind.\<close>

lemma ReceiveSignalingMessage_from:
  assumes "pair_config_ok config" and "kt_config t = end_config config e"
    and "length payload \<le> kMaxRtcSignalingPayloadBytes" and "target = 0 \<or> target = peer_id config e"
  shows "ReceiveSignalingMessage (signal_of config (other_end e) kind target n payload) t =
    (let t = t\<lparr>kt_remotePeerId := peer_id config (other_end e)\<rparr>
     in case kind of
          Sig_Offer \<Rightarrow>
            if e \<noteq> Server_End then rejected t
            else let t = t\<lparr>kt_phase := Phase_DataChannelConnecting, kt_state := Connecting\<rparr>;
                     t = QueueSignal Sig_Answer (peer_id config (other_end e)) (pc_dataChannelLabel config) t
                 in (True, t\<lparr>kt_lastError := TE_None\<rparr>)
        | Sig_Answer \<Rightarrow>
            if e \<noteq> Client_End then rejected t
            else (True, t\<lparr>kt_phase := Phase_DataChannelConnecting, kt_state := Connecting, kt_lastError := TE_None\<rparr>)
        | Sig_DataChannelReady \<Rightarrow> (True, (TransitionToConnected t)\<lparr>kt_lastError := TE_None\<rparr>)
        | Sig_Leave \<Rightarrow> (True, t\<lparr>kt_state := Disconnected, kt_phase := Phase_Disconnected, kt_lastError := TE_None\<rparr>)
        | Sig_Error \<Rightarrow> (False, t\<lparr>kt_state := Failed, kt_phase := Phase_Failed, kt_lastError := TE_PeerClosed\<rparr>)
        | _ \<Rightarrow> (True, t\<lparr>kt_lastError := TE_None\<rparr>))"
proof -
  have "valid_signal (signal_of config (other_end e) kind target n payload)"
    by (rule signal_of_valid(1) [OF assms(1,3)])
  moreover have "peer_id config (other_end e) \<noteq> peer_id config e" using peer_id_inj [OF assms(1)] by simp
  ultimately show ?thesis using assms(2,4) unfolding ReceiveSignalingMessage_def
    by (cases kind; cases e) (auto simp: signal_of_def Let_def)
qed

lemma updated_server:
  assumes config: "pair_config_ok config"
  shows "updated [join_of config Client_End, offer_of config] False (connecting config Server_End) = (True, answered config)"
proof -
  note recv = ReceiveSignalingMessage_from [OF config, of _ Server_End, unfolded other_end.simps peer_id.simps]
  show ?thesis
    using payload_bounds(1) [of config Client_End] payload_bounds(2) [OF config]
    by (simp add: updated_def recv connecting_def new_KcpRtcTransport_def notify_def NotifyDataChannelReady_def
        QueueSignal_def TransitionToConnected_def answered_def Let_def del: end_config.simps) (simp add: signal_of_def)
qed

lemma updated_client:
  assumes config: "pair_config_ok config"
  shows "updated [join_of config Server_End, answer_of config, ready_of config] False
      ((connecting config Client_End)\<lparr>kt_outgoingSignals := []\<rparr>) = (False, opened config)"
proof -
  note recv = ReceiveSignalingMessage_from [OF config, of _ Client_End, unfolded other_end.simps peer_id.simps]
  show ?thesis
    using payload_bounds(1) [of config Server_End] payload_bounds(2) [OF config]
    by (simp add: updated_def recv connecting_def new_KcpRtcTransport_def notify_def TransitionToConnected_def
        opened_def Let_def del: end_config.simps)
qed

definition both_connecting :: "InMemoryKcpRtcTransportPairConfig \<Rightarrow> rtc_world" where
  "both_connecting config = snd (pair_connect Server_End
     (snd (pair_connect Client_End (CreateInMemoryKcpRtcTransportPair config))))"

text \<open>An end whose signaling client has connected to the hub.\<close>

abbreviation fresh_client :: "InMemoryKcpRtcTransportPairConfig \<Rightarrow> rtc_end \<Rightarrow> InMemoryRtcSignalingHub \<Rightarrow> InMemoryRtcSignalingClient" where
  "fresh_client config e hub \<equiv> new_InMemoryRtcSignalingClient (Some hub)
     \<lparr>sf_peerId = peer_id config e, sf_sessionId = pc_sessionId config\<rparr>"

definition connecting_end :: "InMemoryKcpRtcTransportPairConfig \<Rightarrow> rtc_end \<Rightarrow> InMemoryRtcSignalingHub
    \<Rightarrow> InMemoryRtcDataChannel \<Rightarrow> rtc_endpoint" where
  "connecting_end config e hub d = (new_endpoint config e d)\<lparr>pt_transport := connecting config e,
     pt_signalingClient := Some ((fresh_client config e hub)\<lparr>ic_state := Rtc_Connected\<rparr>)\<rparr>"

abbreviation peer_registered :: "InMemoryKcpRtcTransportPairConfig \<Rightarrow> rtc_end \<Rightarrow> InMemoryRtcSignalingHub \<Rightarrow> InMemoryRtcSignalingHub" where
  "peer_registered config e hub \<equiv> um_put (peer_id config e) \<lparr>pq_sessionId = pc_sessionId config, pq_incoming = []\<rparr> hub"

lemma Signaling_Connect_fresh:
  assumes "pair_config_ok config"
  shows "Signaling_Connect (fresh_client config e hub)
     = (True, (fresh_client config e (peer_registered config e hub))\<lparr>ic_state := Rtc_Connected\<rparr>)"
  using assms peer_id_nonzero [OF assms]
  by (simp add: Signaling_Connect_def new_InMemoryRtcSignalingClient_def HasValidConfig_signaling_def
      RegisterPeer_def pair_config_ok_def)

lemma Pumped_Connect_fresh:
  assumes "pair_config_ok config"
  shows "Pumped_Connect in_memory_signaling
      (new_KcpRtcPumpedTransport (end_config config e) (Some (fresh_client config e hub)) (Some d))
     = (True, connecting_end config e (peer_registered config e hub) d)"
proof -
  have "ic_state (fresh_client config e hub) \<noteq> Rtc_Connected" by (simp add: new_InMemoryRtcSignalingClient_def)
  then show ?thesis
    by (simp add: Pumped_Connect_def new_KcpRtcPumpedTransport_def in_memory_signaling_def
        Signaling_Connect_fresh [OF assms] Kcp_Connect_end [OF assms] new_endpoint_def connecting_end_def
        del: end_config.simps)
qed

lemma load_fresh:
  assumes "rw_end e w = new_endpoint config e d" and "md_state d = Some (rw_channel w)"
  shows "load_end e w
     = new_KcpRtcPumpedTransport (end_config config e) (Some (fresh_client config e (rw_hub w))) (Some d)"
  using assms by (simp add: load_end_def new_endpoint_def new_KcpRtcPumpedTransport_def
      new_InMemoryRtcSignalingClient_def del: end_config.simps)

lemma end_shared_connecting:
  "end_hub (connecting_end config e hub d) = hub"
  "md_state d = Some q \<Longrightarrow> end_channel (connecting_end config e hub d) = q"
  by (simp_all add: end_hub_def end_channel_def connecting_end_def new_endpoint_def new_KcpRtcPumpedTransport_def
      new_InMemoryRtcSignalingClient_def channel_queues_def)

lemma pair_connect_fresh:
  assumes "pair_config_ok config" and "rw_end e w = new_endpoint config e d" and "md_state d = Some (rw_channel w)"
  shows "pair_connect e w = (True, store_end e (connecting_end config e (peer_registered config e (rw_hub w)) d) w)"
  by (simp add: pair_connect_def load_fresh [OF assms(2,3)] Pumped_Connect_fresh [OF assms(1)] del: end_config.simps)

lemma both_connecting_ready:
  assumes config: "pair_config_ok config"
  shows "pair_ready config (both_connecting config) (\<lambda>_. []) (\<lambda>_. [])
     \<and> pt_transport (rw_end e (both_connecting config)) = connecting config e
     \<and> \<not> pt_readyNotified (rw_end e (both_connecting config))"
proof -
  let ?da = "fst Channel_CreatePair" and ?db = "snd Channel_CreatePair"
  let ?hub1 = "peer_registered config Client_End []"
  let ?hub2 = "peer_registered config Server_End ?hub1"
  let ?w0 = "CreateInMemoryKcpRtcTransportPair config"
  let ?w1 = "store_end Client_End (connecting_end config Client_End ?hub1 ?da) ?w0"
  let ?w2 = "store_end Server_End (connecting_end config Server_End ?hub2 ?db) ?w1"
  have w0: "rw_end Client_End ?w0 = new_endpoint config Client_End ?da"
    "rw_end Server_End ?w0 = new_endpoint config Server_End ?db" "rw_hub ?w0 = []" "rw_channel ?w0 = empty_ChannelShared"
    by (simp_all add: CreateInMemoryKcpRtcTransportPair_def)
  have d: "md_state ?da = Some empty_ChannelShared" "md_state ?db = Some empty_ChannelShared"
    "md_stateValue ?da = Channel_Open" "md_stateValue ?db = Channel_Open"
    "md_endpoint ?da = Channel_A" "md_endpoint ?db = Channel_B"
    by (simp_all add: Channel_CreatePair_def new_InMemoryRtcDataChannel_def default_InMemoryRtcDataChannel_def)
  have c1: "pair_connect Client_End ?w0 = (True, ?w1)"
    using pair_connect_fresh [OF config w0(1)] d(1) w0(3,4) by (simp only:)
  have w1: "rw_end Server_End ?w1 = new_endpoint config Server_End ?db" "rw_hub ?w1 = ?hub1" "rw_channel ?w1 = empty_ChannelShared"
    using w0 d by (simp_all only: rw_end_store shared_store end_shared_connecting rtc_end.simps if_False simp_thms)
  have "pair_connect Server_End ?w1 = (True, ?w2)"
    using pair_connect_fresh [OF config w1(1)] d(2) w1(2,3) by (simp only:)
  with c1 have w2: "both_connecting config = ?w2" by (simp only: both_connecting_def snd_conv)
  have ends: "rw_end Client_End ?w2 = connecting_end config Client_End ?hub1 ?da"
    "rw_end Server_End ?w2 = connecting_end config Server_End ?hub2 ?db" "rw_hub ?w2 = ?hub2" "rw_channel ?w2 = empty_ChannelShared"
    using d by (simp_all only: rw_end_store shared_store end_shared_connecting rtc_end.simps if_False if_True simp_thms)
  have "um_ok ?hub2" by (intro um_ok_put um_ok_Nil)
  then have hub: "hub_pair config ?hub2" by (simp add: hub_pair_def del: AList.update.simps)
  have queue: "hub_queue (peer_id config i) ?hub2 = []" for i
    by (cases i) (simp_all add: hub_queue_def del: AList.update.simps)
  have "endpoint_ready config i (load_end i ?w2) (\<lambda>_. []) (\<lambda>_. [])" for i
    using hub queue d by (cases i) (simp_all only: load_end_def ends, simp_all add: connecting_end_def endpoint_ready_def
        client_ready_def channel_ready_def new_endpoint_def new_KcpRtcPumpedTransport_def
        new_InMemoryRtcSignalingClient_def empty_ChannelShared_def)
  moreover have "pt_transport (rw_end e ?w2) = connecting config e \<and> \<not> pt_readyNotified (rw_end e ?w2)"
    by (cases e) (simp_all only: ends, simp_all add: connecting_end_def new_endpoint_def new_KcpRtcPumpedTransport_def)
  ultimately show ?thesis by (simp only: w2 pair_ready_def simp_thms)
qed

section \<open>A connected pair\<close>

text \<open>A connected transport that has nothing to hand over, with the envelopes it has received.\<close>

definition link_ok :: "InMemoryKcpRtcTransportPairConfig \<Rightarrow> rtc_end \<Rightarrow> KcpRtcTransport \<Rightarrow> NetworkEnvelope list \<Rightarrow> bool" where
  "link_ok config e t ins \<longleftrightarrow> kcp_ok t \<and> kt_state t = Connected \<and> kt_config t = end_config config e
     \<and> kt_outgoingSignals t = [] \<and> kt_outgoingFrames t = [] \<and> kt_incomingEnvelopes t = ins"

lemma kcp_ok_connecting: "kcp_ok (connecting config e)"
  by (simp add: connecting_def kcp_ok_def new_KcpRtcTransport_def)

lemma link_ok_handshake: "link_ok config Client_End (opened config) []"
  "link_ok config Server_End ((answered config)\<lparr>kt_outgoingSignals := []\<rparr>) []"
  by (simp_all add: link_ok_def opened_def answered_def kcp_ok_def new_KcpRtcTransport_def)

text \<open>The world of a connected pair: \<open>fl e\<close> are the envelopes on their way to the end \<open>e\<close>.\<close>

definition pair_connected :: "InMemoryKcpRtcTransportPairConfig \<Rightarrow> rtc_world
    \<Rightarrow> (rtc_end \<Rightarrow> NetworkEnvelope list) \<Rightarrow> bool" where
  "pair_connected config w fl \<longleftrightarrow>
     (\<exists>ins xs. pair_ready config w (\<lambda>_. []) (\<lambda>e. map EncodeTransportPacket (xs e))
        \<and> (\<forall>e. link_ok config e (pt_transport (rw_end e w)) (ins e) \<and> (\<forall>x\<in>set (xs e). valid_envelope x)
             \<and> fl e = ins e @ xs e))"

lemma handshake_connects:
  assumes config: "pair_config_ok config"
  shows "\<exists>w. handshake (CreateInMemoryKcpRtcTransportPair config) = Some w \<and> pair_connected config w (\<lambda>_. [])"
proof -
  let ?none = "\<lambda>_ :: rtc_end. []" and ?w = "both_connecting config"
  let ?start = "[join_of config Client_End, offer_of config]"
  let ?reply = "[join_of config Server_End, answer_of config, ready_of config]"
  let ?sent = "(connecting config Client_End)\<lparr>kt_outgoingSignals := []\<rparr>"
  note ready = both_connecting_ready [OF config]
  note valid = signal_of_valid [OF config payload_bounds(1)] signal_of_valid [OF config payload_bounds(2) [OF config]]
    signal_of_valid [OF config, of "[]", simplified]
  have out: "kt_outgoingSignals (connecting config Client_End) = ?start"
    "kt_outgoingSignals (connecting config Server_End) = [join_of config Server_End]"
    "kt_outgoingSignals (answered config) = [answer_of config, ready_of config]"
    by (simp_all add: connecting_def answered_def)
  have idle: "updated [] False (connecting config Client_End) = (False, ?sent)"
    by (rule updated_idle) (simp add: connecting_def)
  have from_client: "\<forall>m\<in>set ?start. signal_from config Client_End m \<and> valid_signal m \<and> length (sg_sessionId m) \<le> 256"
    using valid by (simp del: end_config.simps)
  have from_server: "\<forall>m\<in>set ?reply. signal_from config Server_End m \<and> valid_signal m \<and> length (sg_sessionId m) \<le> 256"
    using valid by (simp del: end_config.simps)
  let ?idle = "\<lambda>t. t\<lparr>kt_outgoingSignals := [], kt_outgoingFrames := [], kt_bufferedOutgoingFrameBytes := 0\<rparr>"
  have rest: "?idle ?sent = ?sent" "?idle (answered config) = (answered config)\<lparr>kt_outgoingSignals := []\<rparr>"
    "?idle (opened config) = opened config" "kt_outgoingSignals ?sent = []" "kt_outgoingFrames ?sent = []"
    "kt_outgoingFrames (answered config) = []" "kt_outgoingFrames (opened config) = []" "kt_outgoingSignals (opened config) = []"
    by (simp_all add: connecting_def answered_def opened_def new_KcpRtcTransport_def)
  have sent_ok: "kcp_ok ?sent" using kcp_ok_connecting [of config Client_End] by (simp add: kcp_ok_def)
  have start: "\<forall>m\<in>set ?start. signal_from config Client_End m" "\<forall>m\<in>set ?start. valid_signal m \<and> length (sg_sessionId m) \<le> 256"
    and reply: "\<forall>m\<in>set [join_of config Server_End]. signal_from config Server_End m"
    "\<forall>m\<in>set [answer_of config, ready_of config]. signal_from config Server_End m"
    "\<forall>m\<in>set ?reply. valid_signal m \<and> length (sg_sessionId m) \<le> 256"
    using from_client from_server by auto
  have sig: "?none(e := [], other_end e := x) = ?none(other_end e := x)"
    "(?none(e := y))(e := [], other_end e := x) = ?none(other_end e := x)" for e and x y :: "'x list"
    by (auto simp: fun_eq_iff)
  have t: "pt_transport (rw_end e ?w) = connecting config e" "pt_readyNotified (rw_end e ?w) = False" for e
    using ready by simp_all
  have r0: "pair_ready config ?w ?none ?none" using ready by simp
  obtain w1 where w1: "pair_update Client_End ?w = Some w1" "pt_transport (rw_end Client_End w1) = ?sent"
    "pt_readyNotified (rw_end Client_End w1) = False" "rw_end Server_End w1 = rw_end Server_End ?w"
    and r1: "pair_ready config w1 (?none(Server_End := ?start)) ?none"
    using pair_update_ready [OF config r0, where e = Client_End, unfolded t out, OF kcp_ok_connecting start(1) _ idle]
    unfolding rest other_end.simps by (auto simp: fun_upd_idem)
  have t1: "pt_transport (rw_end Server_End w1) = connecting config Server_End" "pt_readyNotified (rw_end Server_End w1) = False"
    by (simp_all only: w1 t)
  obtain w2 where w2: "pair_update Server_End w1 = Some w2"
    "pt_transport (rw_end Server_End w2) = (answered config)\<lparr>kt_outgoingSignals := []\<rparr>"
    "rw_end Client_End w2 = rw_end Client_End w1"
    and r2: "pair_ready config w2 (?none(Client_End := ?reply)) ?none"
    using pair_update_ready [OF config r1, where e = Server_End, unfolded t1 out fun_upd_same, OF kcp_ok_connecting reply(1) start(2)
        updated_server [OF config], unfolded out, OF reply(2)]
    unfolding rest other_end.simps by (auto simp: fun_upd_idem fun_upd_twist)
  have t2: "pt_transport (rw_end Client_End w2) = ?sent" "pt_readyNotified (rw_end Client_End w2) = False"
    by (simp_all only: w2 w1)
  obtain w3 where w3: "pair_update Client_End w2 = Some w3" "pt_transport (rw_end Client_End w3) = opened config"
    "rw_end Server_End w3 = rw_end Server_End w2" and r3: "pair_ready config w3 ?none ?none"
    using pair_update_ready [OF config r2, where e = Client_End, unfolded t2 fun_upd_same, OF sent_ok _ reply(3)
        updated_client [OF config]]
    unfolding rest other_end.simps by (auto simp: fun_upd_idem)
  have "handshake (CreateInMemoryKcpRtcTransportPair config) = Some w3"
    using w1(1) w2(1) w3(1) by (simp add: handshake_def both_connecting_def split_def Let_def)
  moreover have "pair_connected config w3 (\<lambda>_. [])"
    unfolding pair_connected_def
  proof (intro exI [of _ "\<lambda>_. []"] conjI allI)
    show "link_ok config e (pt_transport (rw_end e w3)) []" for e
      using link_ok_handshake by (cases e) (simp_all only: w3 w2)
  qed (use r3 in simp_all)
  ultimately show ?thesis by blast
qed

text \<open>A connected pair without envelopes on their way has none anywhere, and no signal either.\<close>

lemma pair_connected_idle:
  assumes "pair_connected config w (\<lambda>_. [])"
  shows "link_ok config e (pt_transport (rw_end e w)) []" and "hub_queue (peer_id config e) (rw_hub w) = []"
    and "rw_channel w = empty_ChannelShared"
proof -
  obtain ins xs where w: "pair_ready config w (\<lambda>_. []) (\<lambda>e. map EncodeTransportPacket (xs e))"
    and all: "\<forall>i. link_ok config i (pt_transport (rw_end i w)) (ins i) \<and> (\<forall>x\<in>set (xs i). valid_envelope x)
      \<and> [] = ins i @ xs i"
    using assms unfolding pair_connected_def by blast
  then have none: "ins i = []" "xs i = []" for i by simp_all
  show "link_ok config e (pt_transport (rw_end e w)) []" using all none by metis
  obtain c d where "pt_signalingClient (rw_end e w) = Some c" "pt_dataChannel (rw_end e w) = Some d"
    "client_ready config e (c\<lparr>ic_hub := Some (rw_hub w)\<rparr>) (\<lambda>_. [])"
    "channel_ready e (d\<lparr>md_state := Some (rw_channel w)\<rparr>) (\<lambda>e. map EncodeTransportPacket (xs e))"
    using w by (auto simp: pair_ready_def endpoint_ready_def load_end_def dest!: spec [of _ e])
  then show "hub_queue (peer_id config e) (rw_hub w) = []" "rw_channel w = empty_ChannelShared"
    by (auto simp: none client_ready_def channel_ready_def empty_ChannelShared_def)
qed

section \<open>Refinement of two queues\<close>

text \<open>
  The calls on a connected pair and their results; the specification keeps one queue of envelopes
  for each end. A send is accepted when the envelope is valid and its packet fits in the buffer.
\<close>

datatype link_call = Link_Update rtc_end | Link_Send rtc_end NetworkEnvelope | Link_Poll rtc_end

datatype link_result = Updated | Sent bool | Polled "NetworkEnvelope option"

definition fits :: "InMemoryKcpRtcTransportPairConfig \<Rightarrow> NetworkEnvelope \<Rightarrow> bool" where
  "fits config x \<longleftrightarrow> valid_envelope x \<and> length (EncodeTransportPacket x) \<le> pc_maxBufferedAmountBytes config"

fun link_spec :: "InMemoryKcpRtcTransportPairConfig \<Rightarrow> link_call \<Rightarrow> (rtc_end \<Rightarrow> NetworkEnvelope list)
    \<Rightarrow> link_result \<times> (rtc_end \<Rightarrow> NetworkEnvelope list)" where
  "link_spec config (Link_Update e) fl = (Updated, fl)"
| "link_spec config (Link_Send e x) fl =
     (Sent (fits config x), if fits config x then fl(other_end e := fl (other_end e) @ [x]) else fl)"
| "link_spec config (Link_Poll e) fl =
     (case fl e of [] \<Rightarrow> (Polled None, fl) | x # xs \<Rightarrow> (Polled (Some x), fl(e := xs)))"

fun link_calls :: "InMemoryKcpRtcTransportPairConfig \<Rightarrow> link_call list \<Rightarrow> (rtc_end \<Rightarrow> NetworkEnvelope list)
    \<Rightarrow> link_result list" where
  "link_calls config [] fl = []"
| "link_calls config (call # calls) fl =
     (let (r, fl) = link_spec config call fl in r # link_calls config calls fl)"

fun pair_call :: "link_call \<Rightarrow> rtc_world \<Rightarrow> (link_result \<times> rtc_world) option" where
  "pair_call (Link_Update e) w = do { w \<leftarrow> pair_update e w; Some (Updated, w) }"
| "pair_call (Link_Send e x) w = do { (b, w) \<leftarrow> pair_send e x w; Some (Sent b, w) }"
| "pair_call (Link_Poll e) w = do { (r, w) \<leftarrow> pair_poll e w; Some (Polled r, w) }"

fun pair_calls :: "link_call list \<Rightarrow> rtc_world \<Rightarrow> link_result list option" where
  "pair_calls [] w = Some []"
| "pair_calls (call # calls) w = do {
     (r, w) \<leftarrow> pair_call call w;
     rs \<leftarrow> pair_calls calls w;
     Some (r # rs)
   }"

lemma receive_frames_link:
  assumes "link_ok config e t ins" and "\<forall>x\<in>set xs. valid_envelope x"
  shows "link_ok config e (receive_frames (map EncodeTransportPacket xs) t) (ins @ xs)"
  using assms
proof (induction xs arbitrary: t ins)
  case (Cons x xs)
  have "ReceiveFrame (EncodeTransportPacket x) t =
      (True, t\<lparr>kt_incomingEnvelopes := kt_incomingEnvelopes t @ [x], kt_lastError := TE_None\<rparr>)"
    using ReceiveFrame_Encode Cons.prems by (simp add: link_ok_def)
  moreover have "link_ok config e (t\<lparr>kt_incomingEnvelopes := kt_incomingEnvelopes t @ [x], kt_lastError := TE_None\<rparr>) (ins @ [x])"
    using Cons.prems by (auto simp: link_ok_def kcp_ok_def)
  ultimately show ?case using Cons.IH [of _ "ins @ [x]"] Cons.prems(2) by simp
qed simp

abbreviation endpoint_link :: "InMemoryKcpRtcTransportPairConfig \<Rightarrow> rtc_end \<Rightarrow> rtc_endpoint
    \<Rightarrow> (rtc_end \<Rightarrow> byte list list) \<Rightarrow> NetworkEnvelope list \<Rightarrow> bool" where
  "endpoint_link config e p fr ins \<equiv>
     endpoint_ready config e p (\<lambda>_. []) fr \<and> link_ok config e (pt_transport p) ins"

lemma update_link:
  assumes config: "pair_config_ok config" and p: "endpoint_link config e p fr ins"
    and fr: "fr e = map EncodeTransportPacket xs" and xs: "\<forall>x\<in>set xs. valid_envelope x"
  shows "\<exists>p'. Pumped_Update in_memory_signaling in_memory_channel p = Some p'
     \<and> endpoint_link config e p' (fr(e := [])) (ins @ xs)"
proof -
  let ?t = "pt_transport p"
  from p have t: "kcp_ok ?t" "kt_state ?t = Connected" "kt_outgoingSignals ?t = []" "kt_outgoingFrames ?t = []"
    and link: "link_ok config e ?t ins" by (auto simp: link_ok_def)
  have "kt_phase ?t \<noteq> Phase_DataChannelConnecting" using t(1,2) by (auto simp: kcp_ok_def)
  then have up: "updated [] (pt_readyNotified p) ?t = (pt_readyNotified p, ?t)"
    using updated_idle t(3) by simp
  have idle: "?t\<lparr>kt_outgoingSignals := [], kt_outgoingFrames := [], kt_bufferedOutgoingFrameBytes := 0\<rparr> = ?t"
    using t by (simp add: kcp_ok_def)
  have fl: "(\<lambda>_. [])(e := [], other_end e := []) = (\<lambda>_. [])" "fr(e := [], other_end e := fr (other_end e)) = fr(e := [])"
    by (auto simp: fun_eq_iff)
  obtain p' where "Pumped_Update in_memory_signaling in_memory_channel p = Some p'"
    "pt_transport p' = receive_frames (fr e) ?t" "endpoint_ready config e p' (\<lambda>_. []) (fr(e := []))"
    using update_ready [OF config _ t(1), of e "\<lambda>_. []" fr "pt_readyNotified p" ?t] p up t(3,4)
    by (auto simp: idle fl)
  with receive_frames_link [OF link xs] fr show ?thesis by auto
qed

lemma poll_link:
  assumes "link_ok config e t ins"
  shows "Kcp_Poll t = (case ins of [] \<Rightarrow> (None, t) | x # xs \<Rightarrow> (Some x, snd (Kcp_Poll t)))
     \<and> link_ok config e (snd (Kcp_Poll t)) (tl ins)"
  using assms by (cases ins) (auto simp: link_ok_def Kcp_Poll_def kcp_ok_def)

lemma send_link:
  assumes config: "pair_config_ok config" and p: "endpoint_link config e p fr ins" and fr: "fr e = []"
  shows "\<exists>p'. (let (sent, t) = Kcp_Send x (pt_transport p);
         p = p\<lparr>pt_transport := t\<rparr>
       in do {
         p \<leftarrow> (if sent then do { d \<leftarrow> pt_dataChannel p; pump_data_channel in_memory_channel d p } else Some p);
         Some (sent, p\<lparr>pt_lastError := (if sent then TE_None else kt_lastError (pt_transport p))\<rparr>)
       }) = Some (fits config x, p')
     \<and> endpoint_link config e p' (if fits config x then fr(other_end e := fr (other_end e) @ [EncodeTransportPacket x]) else fr) ins"
proof (cases "fits config x")
  case True
  let ?t = "pt_transport p" and ?f = "EncodeTransportPacket x"
  have t: "kcp_ok ?t" "kt_state ?t = Connected" "kt_outgoingFrames ?t = []" "kt_bufferedOutgoingFrameBytes ?t = 0"
    "kt_config ?t = end_config config e" using p by (auto simp: link_ok_def kcp_ok_def)
  obtain t' where send: "Kcp_Send x ?t = (True, t')" "kt_outgoingFrames t' = [?f]"
    and link: "link_ok config e (t'\<lparr>kt_outgoingFrames := [], kt_bufferedOutgoingFrameBytes := 0\<rparr>) ins"
    using t p True by (auto simp: Kcp_Send_def fits_def link_ok_def kcp_ok_def Let_def)
  obtain d where d: "pt_dataChannel p = Some d" "channel_ready e d fr" using p by (auto simp: endpoint_ready_def)
  have "fr(e := [], other_end e := fr (other_end e) @ [?f]) = fr(other_end e := fr (other_end e) @ [?f])"
    using fr by (auto simp: fun_eq_iff)
  with pump_frames_ready [OF d(2) kcp_ok_Send [OF t(1) send(1)]] obtain r d' where
    "PumpKcpRtcDataChannel in_memory_channel t' d
       = Some (r, t'\<lparr>kt_outgoingFrames := [], kt_bufferedOutgoingFrameBytes := 0\<rparr>, d')"
    "channel_ready e d' (fr(other_end e := fr (other_end e) @ [?f]))" by (auto simp: fr send(2))
  with True send d link p show ?thesis by (auto simp: pump_data_channel_def endpoint_ready_def)
next
  case False
  then have "fst (Kcp_Send x (pt_transport p)) = False \<and> link_ok config e (snd (Kcp_Send x (pt_transport p))) ins"
    using p by (auto simp: Kcp_Send_def fits_def link_ok_def kcp_ok_def kcp_send_failure_def Let_def)
  with False p show ?thesis by (auto simp: endpoint_ready_def split: prod.splits)
qed

lemma endpoint_link_connected:
  assumes w: "pair_connected config w fl"
  shows "\<exists>ins xs. endpoint_link config e (load_end e w) (\<lambda>i. map EncodeTransportPacket (xs i)) (ins e)
     \<and> pair_ready config w (\<lambda>_. []) (\<lambda>i. map EncodeTransportPacket (xs i))
     \<and> (\<forall>i. link_ok config i (pt_transport (rw_end i w)) (ins i) \<and> (\<forall>x\<in>set (xs i). valid_envelope x)
          \<and> fl i = ins i @ xs i)"
  using w unfolding pair_connected_def pair_ready_def by fastforce

text \<open>Storing an end that keeps the link gives a connected pair again.\<close>

lemma store_connected:
  assumes w: "pair_ready config w sig fr"
    and others: "link_ok config (other_end e) (pt_transport (rw_end (other_end e) w)) (ins (other_end e))"
    and p: "endpoint_link config e p (\<lambda>i. map EncodeTransportPacket (xs i)) (ins e)"
    and xs: "\<And>i. \<forall>x\<in>set (xs i). valid_envelope x"
  shows "pair_connected config (store_end e p w) (\<lambda>i. ins i @ xs i)"
  unfolding pair_connected_def
proof (rule exI [of _ ins], rule exI [of _ xs], intro conjI allI)
  show "pair_ready config (store_end e p w) (\<lambda>_. []) (\<lambda>e. map EncodeTransportPacket (xs e))"
    using store_ready [OF w] p by blast
  show "link_ok config i (pt_transport (rw_end i (store_end e p w))) (ins i)" for i
    using p others neq_end [of i e] by (cases "i = e") auto
qed (use xs in simp_all)

lemma pair_update_connected:
  assumes config: "pair_config_ok config" and w: "pair_connected config w fl"
  shows "\<exists>p ins xs. Pumped_Update in_memory_signaling in_memory_channel (load_end e w) = Some p
     \<and> endpoint_link config e p (\<lambda>i. map EncodeTransportPacket (xs i)) (ins e) \<and> xs e = []
     \<and> (\<forall>i. (\<forall>x\<in>set (xs i). valid_envelope x) \<and> fl i = ins i @ xs i)
     \<and> (\<forall>p' ins' xs'. endpoint_link config e p' (\<lambda>i. map EncodeTransportPacket (xs' i)) (ins' e)
          \<longrightarrow> ins' (other_end e) = ins (other_end e) \<longrightarrow> (\<forall>i. \<forall>x\<in>set (xs' i). valid_envelope x)
          \<longrightarrow> pair_connected config (store_end e p' w) (\<lambda>i. ins' i @ xs' i))"
proof -
  obtain ins xs where all: "endpoint_link config e (load_end e w) (\<lambda>i. map EncodeTransportPacket (xs i)) (ins e)
      \<and> pair_ready config w (\<lambda>_. []) (\<lambda>i. map EncodeTransportPacket (xs i))
      \<and> (\<forall>i. link_ok config i (pt_transport (rw_end i w)) (ins i) \<and> (\<forall>x\<in>set (xs i). valid_envelope x)
           \<and> fl i = ins i @ xs i)"
    using endpoint_link_connected [OF w, of e] by (elim exE) (rule that)
  note p = all [THEN conjunct1] and r = all [THEN conjunct2, THEN conjunct1]
  have links: "link_ok config i (pt_transport (rw_end i w)) (ins i)" "\<forall>x\<in>set (xs i). valid_envelope x"
    and fl: "fl i = ins i @ xs i" for i using all by auto
  let ?ins = "ins(e := ins e @ xs e)" and ?xs = "xs(e := [])"
  have fr: "(\<lambda>i. map EncodeTransportPacket (xs i))(e := []) = (\<lambda>i. map EncodeTransportPacket (?xs i))"
    by (auto simp: fun_eq_iff)
  obtain p' where p': "Pumped_Update in_memory_signaling in_memory_channel (load_end e w) = Some p'"
    "endpoint_link config e p' (\<lambda>i. map EncodeTransportPacket (?xs i)) (ins e @ xs e)"
    using update_link [OF config p refl links(2)] unfolding fr by blast
  show ?thesis
  proof (rule exI [of _ p'], rule exI [of _ ?ins], rule exI [of _ ?xs], intro conjI allI impI)
    fix q ins' xs'
    assume "endpoint_link config e q (\<lambda>i. map EncodeTransportPacket (xs' i)) (ins' e)"
      and "ins' (other_end e) = ?ins (other_end e)" and "\<forall>i. \<forall>x\<in>set (xs' i). valid_envelope x"
    then show "pair_connected config (store_end e q w) (\<lambda>i. ins' i @ xs' i)"
      using store_connected [OF r, of e ins' q xs'] links(1) [of "other_end e"] by simp
  qed (use p' links(2) fl in auto)
qed

text \<open>
  An update, a send and a poll each leave a connected pair whose envelopes on their way are those of
  the specification.
\<close>

lemma pair_call_refines:
  assumes config: "pair_config_ok config" and w: "pair_connected config w fl"
  shows "\<exists>w'. pair_call call w = Some (fst (link_spec config call fl), w')
     \<and> pair_connected config w' (snd (link_spec config call fl))"
proof -
  have "\<exists>e. call = Link_Update e \<or> (\<exists>x. call = Link_Send e x) \<or> call = Link_Poll e" by (cases call) auto
  then obtain e where e: "call = Link_Update e \<or> (\<exists>x. call = Link_Send e x) \<or> call = Link_Poll e" by blast
  obtain p ins xs where all: "Pumped_Update in_memory_signaling in_memory_channel (load_end e w) = Some p
      \<and> endpoint_link config e p (\<lambda>i. map EncodeTransportPacket (xs i)) (ins e) \<and> xs e = []
      \<and> (\<forall>i. (\<forall>x\<in>set (xs i). valid_envelope x) \<and> fl i = ins i @ xs i)
      \<and> (\<forall>p' ins' xs'. endpoint_link config e p' (\<lambda>i. map EncodeTransportPacket (xs' i)) (ins' e)
           \<longrightarrow> ins' (other_end e) = ins (other_end e) \<longrightarrow> (\<forall>i. \<forall>x\<in>set (xs' i). valid_envelope x)
           \<longrightarrow> pair_connected config (store_end e p' w) (\<lambda>i. ins' i @ xs' i))"
    using pair_update_connected [OF config w, of e] by (elim exE) (rule that)
  note up = all [THEN conjunct1] and link = all [THEN conjunct2, THEN conjunct1]
    and empty = all [THEN conjunct2, THEN conjunct2, THEN conjunct1]
  have valid: "\<forall>x\<in>set (xs i). valid_envelope x" and fl: "fl i = ins i @ xs i" for i using all by simp_all
  have stored: "pair_connected config (store_end e p' w) (\<lambda>i. ins' i @ xs' i)"
    if "endpoint_link config e p' (\<lambda>i. map EncodeTransportPacket (xs' i)) (ins' e)"
      "ins' (other_end e) = ins (other_end e)" "\<forall>i. \<forall>x\<in>set (xs' i). valid_envelope x" for p' ins' xs'
    using all [THEN conjunct2, THEN conjunct2, THEN conjunct2, THEN conjunct2] that by blast
  from e show ?thesis
  proof (elim disjE exE)
    assume "call = Link_Update e"
    moreover have "(\<lambda>i. ins i @ xs i) = fl" by (simp add: fl fun_eq_iff)
    with stored [OF link refl] valid have "pair_connected config (store_end e p w) fl" by simp
    ultimately show ?thesis by (simp add: pair_update_def up)
  next
    fix x assume call: "call = Link_Send e x"
    let ?xs = "if fits config x then xs(other_end e := xs (other_end e) @ [x]) else xs"
    have enc: "(if fits config x then (\<lambda>i. map EncodeTransportPacket (xs i))(other_end e :=
          map EncodeTransportPacket (xs (other_end e)) @ [EncodeTransportPacket x])
        else (\<lambda>i. map EncodeTransportPacket (xs i))) = (\<lambda>i. map EncodeTransportPacket (?xs i))"
      by (auto simp: fun_eq_iff)
    obtain p' where p': "Pumped_Send in_memory_signaling in_memory_channel x (load_end e w) = Some (fits config x, p')"
      "endpoint_link config e p' (\<lambda>i. map EncodeTransportPacket (?xs i)) (ins e)"
      using send_link [OF config link, of x, unfolded enc] empty by (auto simp: Pumped_Send_def up)
    have "\<forall>i. \<forall>x\<in>set (?xs i). valid_envelope x" using valid by (auto simp: fits_def)
    moreover have "(\<lambda>i. ins i @ ?xs i) = snd (link_spec config call fl)" by (auto simp: call fl fun_eq_iff)
    ultimately show ?thesis using stored [OF p'(2) refl] by (simp add: call pair_send_def p'(1) split del: if_split)
  next
    assume call: "call = Link_Poll e"
    let ?t = "pt_transport p" and ?ins = "ins(e := tl (ins e))"
    have poll: "Kcp_Poll ?t = (case ins e of [] \<Rightarrow> (None, ?t) | x # xs \<Rightarrow> (Some x, snd (Kcp_Poll ?t)))"
      "link_ok config e (snd (Kcp_Poll ?t)) (?ins e)" using poll_link link by auto
    let ?p = "p\<lparr>pt_transport := snd (Kcp_Poll ?t)\<rparr>"
    have "endpoint_link config e ?p (\<lambda>i. map EncodeTransportPacket (xs i)) (?ins e)"
      using link poll(2) by (simp add: endpoint_ready_def)
    then have conn: "pair_connected config (store_end e ?p w) (\<lambda>i. ?ins i @ xs i)"
      using stored [of ?p xs ?ins] valid by simp
    have "fl e = ins e" by (simp add: fl empty)
    then have "(\<lambda>i. ?ins i @ xs i) = snd (link_spec config call fl)"
      and res: "fst (link_spec config call fl) = Polled (case ins e of [] \<Rightarrow> None | x # xs \<Rightarrow> Some x)"
      using empty by (cases "ins e"; auto simp: call fl fun_eq_iff)+
    moreover have "Pumped_Poll in_memory_signaling in_memory_channel (load_end e w)
        = Some (case ins e of [] \<Rightarrow> None | x # xs \<Rightarrow> Some x, ?p)"
      using poll(1) by (cases "ins e"; cases "Kcp_Poll ?t") (simp_all add: Pumped_Poll_def up)
    ultimately show ?thesis using conn by (simp add: call pair_poll_def)
  qed
qed

lemma pair_calls_refine:
  assumes "pair_config_ok config" and "pair_connected config w fl"
  shows "pair_calls calls w = Some (link_calls config calls fl)"
  using assms(2)
proof (induction calls arbitrary: w fl)
  case (Cons call calls)
  from pair_call_refines [OF assms(1) Cons.prems, of call] Cons.IH show ?case
    by (cases "link_spec config call fl") auto
qed simp

end
