(* ===== verification/Loopback.thy ===== *)
theory Loopback
  imports Transport "HOL-Library.Multiset"
begin

text \<open>
  \<open>src/Networking/src/LoopbackTransport.cpp\<close>: two endpoints in one process that share four
  queues. An endpoint is a record; its \<open>shared_ptr\<close> to the queues is an option of their contents,
  so an operation works on the queues it holds. \<open>loopback_pair\<close> is the store with the two endpoints
  and the one copy of the queues: a call on an endpoint loads the queues into it and stores them back.
\<close>

section \<open>State\<close>

record LoopbackNetworkConditions =
  dropEveryNthOutgoingEnvelope :: u32
  delayEveryNthOutgoingEnvelope :: u32

definition no_conditions :: LoopbackNetworkConditions where
  "no_conditions = \<lparr>dropEveryNthOutgoingEnvelope = 0, delayEveryNthOutgoingEnvelope = 0\<rparr>"

datatype Endpoint = Endpoint_A | Endpoint_B

record SharedState =
  lb_aToB :: "NetworkEnvelope list"
  lb_bToA :: "NetworkEnvelope list"
  lb_delayedAToB :: "NetworkEnvelope list"
  lb_delayedBToA :: "NetworkEnvelope list"

definition empty_SharedState :: SharedState where
  "empty_SharedState = \<lparr>lb_aToB = [], lb_bToA = [], lb_delayedAToB = [], lb_delayedBToA = []\<rparr>"

record LoopbackTransport =
  lt_state :: "SharedState option"
  lt_endpoint :: Endpoint
  lt_conditions :: LoopbackNetworkConditions
  lt_outgoingEnvelopeOrdinal :: u32
  lt_stateValue :: TransportState
  lt_stats :: TransportStats
  lt_lastError :: TransportError

text \<open>The default constructor, and the private one that \<open>CreatePair\<close> uses.\<close>

definition default_LoopbackTransport :: LoopbackTransport where
  "default_LoopbackTransport = \<lparr>lt_state = None, lt_endpoint = Endpoint_A, lt_conditions = no_conditions,
     lt_outgoingEnvelopeOrdinal = 0, lt_stateValue = Disconnected, lt_stats = zero_TransportStats,
     lt_lastError = TE_None\<rparr>"

definition new_LoopbackTransport :: "SharedState \<Rightarrow> Endpoint \<Rightarrow> LoopbackNetworkConditions \<Rightarrow> LoopbackTransport" where
  "new_LoopbackTransport state endpoint conditions =
     default_LoopbackTransport\<lparr>lt_state := Some state, lt_endpoint := endpoint,
       lt_conditions := conditions, lt_stateValue := Connected\<rparr>"

section \<open>Operations\<close>

text \<open>The queues behind \<open>state_\<close>; the code only follows the pointer when it is not null.\<close>

definition queues :: "LoopbackTransport \<Rightarrow> SharedState" where
  "queues t = (case lt_state t of Some q \<Rightarrow> q | None \<Rightarrow> empty_SharedState)"

definition IncomingQueue :: "LoopbackTransport \<Rightarrow> NetworkEnvelope list" where
  "IncomingQueue t = (if lt_endpoint t = Endpoint_A then lb_bToA (queues t) else lb_aToB (queues t))"

definition OutgoingQueue :: "LoopbackTransport \<Rightarrow> NetworkEnvelope list" where
  "OutgoingQueue t = (if lt_endpoint t = Endpoint_A then lb_aToB (queues t) else lb_bToA (queues t))"

definition DelayedOutgoingQueue :: "LoopbackTransport \<Rightarrow> NetworkEnvelope list" where
  "DelayedOutgoingQueue t =
     (if lt_endpoint t = Endpoint_A then lb_delayedAToB (queues t) else lb_delayedBToA (queues t))"

definition set_IncomingQueue :: "NetworkEnvelope list \<Rightarrow> LoopbackTransport \<Rightarrow> LoopbackTransport" where
  "set_IncomingQueue q t = t\<lparr>lt_state := Some (if lt_endpoint t = Endpoint_A then (queues t)\<lparr>lb_bToA := q\<rparr>
     else (queues t)\<lparr>lb_aToB := q\<rparr>)\<rparr>"

definition set_OutgoingQueue :: "NetworkEnvelope list \<Rightarrow> LoopbackTransport \<Rightarrow> LoopbackTransport" where
  "set_OutgoingQueue q t = t\<lparr>lt_state := Some (if lt_endpoint t = Endpoint_A then (queues t)\<lparr>lb_aToB := q\<rparr>
     else (queues t)\<lparr>lb_bToA := q\<rparr>)\<rparr>"

definition set_DelayedOutgoingQueue :: "NetworkEnvelope list \<Rightarrow> LoopbackTransport \<Rightarrow> LoopbackTransport" where
  "set_DelayedOutgoingQueue q t = t\<lparr>lt_state := Some (if lt_endpoint t = Endpoint_A
     then (queues t)\<lparr>lb_delayedAToB := q\<rparr> else (queues t)\<lparr>lb_delayedBToA := q\<rparr>)\<rparr>"

definition ShouldDropOutgoing :: "LoopbackTransport \<Rightarrow> bool" where
  "ShouldDropOutgoing t \<longleftrightarrow> dropEveryNthOutgoingEnvelope (lt_conditions t) \<noteq> 0
     \<and> lt_outgoingEnvelopeOrdinal t mod dropEveryNthOutgoingEnvelope (lt_conditions t) = 0"

definition ShouldDelayOutgoing :: "LoopbackTransport \<Rightarrow> bool" where
  "ShouldDelayOutgoing t \<longleftrightarrow> delayEveryNthOutgoingEnvelope (lt_conditions t) \<noteq> 0
     \<and> lt_outgoingEnvelopeOrdinal t mod delayEveryNthOutgoingEnvelope (lt_conditions t) = 0"

definition PushOutgoing :: "NetworkEnvelope \<Rightarrow> LoopbackTransport \<Rightarrow> LoopbackTransport" where
  "PushOutgoing envelope t =
     (let t = t\<lparr>lt_stats := (lt_stats t)\<lparr>st_bytesSent := st_bytesSent (lt_stats t) + length (ev_payload envelope),
                 st_envelopesSent := st_envelopesSent (lt_stats t) + 1\<rparr>\<rparr>
      in set_OutgoingQueue (OutgoingQueue t @ [envelope]) t)"

definition ReleaseOneDelayed :: "LoopbackTransport \<Rightarrow> LoopbackTransport" where
  "ReleaseOneDelayed t =
     (if lt_state t = None then t
      else case DelayedOutgoingQueue t of
             [] \<Rightarrow> t
           | delayed # rest \<Rightarrow> PushOutgoing delayed (set_DelayedOutgoingQueue rest t))"

definition SetNetworkConditions :: "LoopbackNetworkConditions \<Rightarrow> LoopbackTransport \<Rightarrow> LoopbackTransport" where
  "SetNetworkConditions conditions t = t\<lparr>lt_conditions := conditions\<rparr>"

lemmas queue_defs = queues_def IncomingQueue_def OutgoingQueue_def DelayedOutgoingQueue_def
  set_IncomingQueue_def set_OutgoingQueue_def set_DelayedOutgoingQueue_def

lemma queues_after [simp]:
  "IncomingQueue (set_IncomingQueue q t) = q" "OutgoingQueue (set_IncomingQueue q t) = OutgoingQueue t"
  "DelayedOutgoingQueue (set_IncomingQueue q t) = DelayedOutgoingQueue t"
  "IncomingQueue (set_OutgoingQueue q t) = IncomingQueue t" "OutgoingQueue (set_OutgoingQueue q t) = q"
  "DelayedOutgoingQueue (set_OutgoingQueue q t) = DelayedOutgoingQueue t"
  "IncomingQueue (set_DelayedOutgoingQueue q t) = IncomingQueue t"
  "OutgoingQueue (set_DelayedOutgoingQueue q t) = OutgoingQueue t"
  "DelayedOutgoingQueue (set_DelayedOutgoingQueue q t) = q"
  by (auto simp: queue_defs)

lemma DelayedOutgoingQueue_PushOutgoing [simp]: "DelayedOutgoingQueue (PushOutgoing e t) = DelayedOutgoingQueue t"
  by (simp add: PushOutgoing_def Let_def) (simp add: queue_defs)

lemma DelayedOutgoingQueue_state: "DelayedOutgoingQueue t \<noteq> [] \<Longrightarrow> lt_state t \<noteq> None"
  by (cases "lt_state t") (auto simp: queue_defs empty_SharedState_def split: if_splits)

lemma DelayedOutgoingQueue_ReleaseOneDelayed [simp]:
  "DelayedOutgoingQueue (ReleaseOneDelayed t) = tl (DelayedOutgoingQueue t)"
  using DelayedOutgoingQueue_state [of t]
  by (cases "DelayedOutgoingQueue t") (auto simp: ReleaseOneDelayed_def)

text \<open>The loop of \<open>FlushDelayed\<close>: it ends because every iteration takes one envelope out.\<close>

function flush_loop :: "LoopbackTransport \<Rightarrow> LoopbackTransport" where
  "flush_loop t = (if DelayedOutgoingQueue t = [] then t else flush_loop (ReleaseOneDelayed t))"
  by pat_completeness auto
termination
  by (relation "measure (\<lambda>t. length (DelayedOutgoingQueue t))") simp_all

declare flush_loop.simps [simp del]

definition FlushDelayed :: "LoopbackTransport \<Rightarrow> LoopbackTransport" where
  "FlushDelayed t = (if lt_state t = None then t else flush_loop t)"

definition Loopback_Connect :: "LoopbackTransport \<Rightarrow> bool \<times> LoopbackTransport" where
  "Loopback_Connect t =
     (if lt_state t = None then (False, t\<lparr>lt_stateValue := Failed, lt_lastError := TE_NotConnected\<rparr>)
      else (True, t\<lparr>lt_stateValue := Connected, lt_lastError := TE_None\<rparr>))"

definition Loopback_Update :: "LoopbackTransport \<Rightarrow> LoopbackTransport" where
  "Loopback_Update t = ReleaseOneDelayed t"

definition Loopback_Close :: "LoopbackTransport \<Rightarrow> LoopbackTransport" where
  "Loopback_Close t = t\<lparr>lt_stateValue := Disconnected\<rparr>"

definition loopback_send_failure :: "TransportError \<Rightarrow> LoopbackTransport \<Rightarrow> bool \<times> LoopbackTransport" where
  "loopback_send_failure e t =
     (False, t\<lparr>lt_lastError := e, lt_stats := (lt_stats t)\<lparr>st_sendFailures := st_sendFailures (lt_stats t) + 1\<rparr>\<rparr>)"

definition Loopback_Send :: "NetworkEnvelope \<Rightarrow> LoopbackTransport \<Rightarrow> bool \<times> LoopbackTransport" where
  "Loopback_Send envelope t =
     (if lt_state t = None \<or> lt_stateValue t \<noteq> Connected then loopback_send_failure TE_NotConnected t
      else if \<not> Ok (ValidateEnvelope envelope) then loopback_send_failure TE_ProtocolRejected t
      else
      let t = t\<lparr>lt_outgoingEnvelopeOrdinal := lt_outgoingEnvelopeOrdinal t + 1\<rparr>
      in if ShouldDropOutgoing t
         then (True, t\<lparr>lt_stats := (lt_stats t)\<lparr>st_envelopesDroppedByCondition :=
                         st_envelopesDroppedByCondition (lt_stats t) + 1\<rparr>, lt_lastError := TE_None\<rparr>)
         else if ShouldDelayOutgoing t
         then let t = set_DelayedOutgoingQueue (DelayedOutgoingQueue t @ [envelope]) t
              in (True, t\<lparr>lt_stats := (lt_stats t)\<lparr>st_envelopesDelayedByCondition :=
                            st_envelopesDelayedByCondition (lt_stats t) + 1\<rparr>, lt_lastError := TE_None\<rparr>)
         else (True, (ReleaseOneDelayed (PushOutgoing envelope t))\<lparr>lt_lastError := TE_None\<rparr>))"

definition Loopback_Poll :: "LoopbackTransport \<Rightarrow> NetworkEnvelope option \<times> LoopbackTransport" where
  "Loopback_Poll t =
     (if lt_state t = None \<or> lt_stateValue t \<noteq> Connected then (None, t)
      else case IncomingQueue t of
             [] \<Rightarrow> (None, t)
           | envelope # rest \<Rightarrow>
               let t = set_IncomingQueue rest t
               in if \<not> Ok (ValidateEnvelope envelope)
                  then (None, t\<lparr>lt_lastError := TE_ProtocolRejected,
                          lt_stats := (lt_stats t)\<lparr>st_receiveFailures := st_receiveFailures (lt_stats t) + 1\<rparr>\<rparr>)
                  else (Some envelope, t\<lparr>lt_stats := (lt_stats t)\<lparr>
                          st_envelopesReceived := st_envelopesReceived (lt_stats t) + 1,
                          st_bytesReceived := st_bytesReceived (lt_stats t) + length (ev_payload envelope)\<rparr>,
                          lt_lastError := TE_None\<rparr>))"

definition loopback_transport :: "LoopbackTransport transport_ops" where
  "loopback_transport = \<lparr>tp_connect = Loopback_Connect, tp_update = Loopback_Update,
     tp_close = Loopback_Close, tp_send = Loopback_Send, tp_poll = Loopback_Poll,
     tp_state = lt_stateValue, tp_stats = lt_stats, tp_lastError = lt_lastError\<rparr>"

section \<open>The contract\<close>

text \<open>What each operation does to the three queues of an endpoint.\<close>

lemma queues_fields [simp]:
  "IncomingQueue (t\<lparr>lt_stateValue := v\<rparr>) = IncomingQueue t" "IncomingQueue (t\<lparr>lt_lastError := e\<rparr>) = IncomingQueue t"
  "IncomingQueue (t\<lparr>lt_stats := s\<rparr>) = IncomingQueue t" "IncomingQueue (t\<lparr>lt_outgoingEnvelopeOrdinal := n\<rparr>) = IncomingQueue t"
  "OutgoingQueue (t\<lparr>lt_stateValue := v\<rparr>) = OutgoingQueue t" "OutgoingQueue (t\<lparr>lt_lastError := e\<rparr>) = OutgoingQueue t"
  "OutgoingQueue (t\<lparr>lt_stats := s\<rparr>) = OutgoingQueue t" "OutgoingQueue (t\<lparr>lt_outgoingEnvelopeOrdinal := n\<rparr>) = OutgoingQueue t"
  "DelayedOutgoingQueue (t\<lparr>lt_stateValue := v\<rparr>) = DelayedOutgoingQueue t"
  "DelayedOutgoingQueue (t\<lparr>lt_lastError := e\<rparr>) = DelayedOutgoingQueue t"
  "DelayedOutgoingQueue (t\<lparr>lt_stats := s\<rparr>) = DelayedOutgoingQueue t"
  "DelayedOutgoingQueue (t\<lparr>lt_outgoingEnvelopeOrdinal := n\<rparr>) = DelayedOutgoingQueue t"
  by (simp_all add: queue_defs)

lemma push_queues [simp]:
  "IncomingQueue (PushOutgoing e t) = IncomingQueue t" "OutgoingQueue (PushOutgoing e t) = OutgoingQueue t @ [e]"
  by (simp_all add: PushOutgoing_def Let_def)

lemma IncomingQueue_ReleaseOneDelayed [simp]: "IncomingQueue (ReleaseOneDelayed t) = IncomingQueue t"
  by (auto simp: ReleaseOneDelayed_def split: list.splits)

lemma OutgoingQueue_ReleaseOneDelayed [simp]:
  "OutgoingQueue (ReleaseOneDelayed t) = OutgoingQueue t @ take 1 (DelayedOutgoingQueue t)"
  using DelayedOutgoingQueue_state [of t]
  by (cases "DelayedOutgoingQueue t") (auto simp: ReleaseOneDelayed_def)

lemma flush_loop_queues:
  "IncomingQueue (flush_loop t) = IncomingQueue t"
  "OutgoingQueue (flush_loop t) = OutgoingQueue t @ DelayedOutgoingQueue t"
  "DelayedOutgoingQueue (flush_loop t) = []"
proof (induction t rule: flush_loop.induct)
  case (1 t)
  have "take (Suc 0) xs @ tl xs = xs" for xs :: "NetworkEnvelope list" by (cases xs) simp_all
  with 1 show "IncomingQueue (flush_loop t) = IncomingQueue t"
    "OutgoingQueue (flush_loop t) = OutgoingQueue t @ DelayedOutgoingQueue t"
    "DelayedOutgoingQueue (flush_loop t) = []"
    by (cases "DelayedOutgoingQueue t = []"; simp add: flush_loop.simps [of t])+
qed

definition loopback_ok :: "LoopbackTransport \<Rightarrow> bool" where
  "loopback_ok t \<longleftrightarrow> (\<forall>e\<in>set (IncomingQueue t). valid_envelope e)"

lemma pushing_state [simp]:
  "lt_stateValue (set_OutgoingQueue q t) = lt_stateValue t"
  "lt_stateValue (set_DelayedOutgoingQueue q t) = lt_stateValue t"
  "lt_stateValue (PushOutgoing e t) = lt_stateValue t" "lt_stateValue (ReleaseOneDelayed t) = lt_stateValue t"
  by (auto simp: set_OutgoingQueue_def set_DelayedOutgoingQueue_def PushOutgoing_def ReleaseOneDelayed_def Let_def
      split: list.splits option.splits)

interpretation loopback: transport loopback_transport loopback_ok "\<lambda>t. length (IncomingQueue t)"
proof
  show "loopback_ok t'" if "loopback_ok t" "tp_connect loopback_transport t = (b, t')" for t b t'
    using that by (auto simp: loopback_transport_def Loopback_Connect_def loopback_ok_def split: if_splits)
  show "loopback_ok (tp_update loopback_transport t)" "loopback_ok (tp_close loopback_transport t)"
    if "loopback_ok t" for t
    using that by (simp_all add: loopback_transport_def Loopback_Update_def Loopback_Close_def loopback_ok_def)
  show "loopback_ok t' \<and> length (IncomingQueue t') \<le> length (IncomingQueue t)"
    if "loopback_ok t" "tp_send loopback_transport e t = (b, t')" for t e b t'
    using that by (auto simp: loopback_transport_def Loopback_Send_def loopback_send_failure_def Let_def
        loopback_ok_def split: if_splits)
  show "valid_envelope e \<and> tp_state loopback_transport t' = Connected"
    if "loopback_ok t" "tp_send loopback_transport e t = (True, t')" for t e t'
    using that by (auto simp: loopback_transport_def Loopback_Send_def loopback_send_failure_def Let_def split: if_splits)
  show "loopback_ok t' \<and> length (IncomingQueue t') \<le> length (IncomingQueue t)"
    if "loopback_ok t" "tp_poll loopback_transport t = (None, t')" for t t'
    using that by (auto simp: loopback_transport_def Loopback_Poll_def Let_def loopback_ok_def
        split: if_splits list.splits)
  show "loopback_ok t' \<and> valid_envelope e \<and> length (IncomingQueue t') < length (IncomingQueue t)"
    if "loopback_ok t" "tp_poll loopback_transport t = (Some e, t')" for t e t'
    using that by (auto simp: loopback_transport_def Loopback_Poll_def Let_def loopback_ok_def
        split: if_splits list.splits)
qed

end
