(* ===== verification/Loopback_Pair.thy ===== *)
theory Loopback_Pair
  imports Loopback
begin

text \<open>
  Two loopback endpoints over the queues they share, and what any sequence of calls on them does:
  no envelope is lost, invented or duplicated, and without network conditions they arrive in the
  order in which they were sent.
\<close>

section \<open>The pair and its runs\<close>

record loopback_pair =
  pr_queues :: SharedState
  pr_a :: LoopbackTransport
  pr_b :: LoopbackTransport

definition CreatePair :: "LoopbackNetworkConditions \<Rightarrow> loopback_pair" where
  "CreatePair conditions =
     \<lparr>pr_queues = empty_SharedState,
      pr_a = new_LoopbackTransport empty_SharedState Endpoint_A conditions,
      pr_b = new_LoopbackTransport empty_SharedState Endpoint_B conditions\<rparr>"

text \<open>The endpoint with the shared queues loaded, and the way back.\<close>

definition endpoint_of :: "Endpoint \<Rightarrow> loopback_pair \<Rightarrow> LoopbackTransport" where
  "endpoint_of x p = (if x = Endpoint_A then pr_a p else pr_b p)\<lparr>lt_state := Some (pr_queues p)\<rparr>"

definition put_endpoint :: "Endpoint \<Rightarrow> LoopbackTransport \<Rightarrow> loopback_pair \<Rightarrow> loopback_pair" where
  "put_endpoint x t p =
     (if x = Endpoint_A then p\<lparr>pr_a := t, pr_queues := queues t\<rparr> else p\<lparr>pr_b := t, pr_queues := queues t\<rparr>)"

datatype loopback_call =
  Call_Send NetworkEnvelope | Call_Poll | Call_Update | Call_Flush | Call_Connect | Call_Close

text \<open>A run with the envelopes each endpoint had accepted by \<open>Send\<close> and returned by \<open>Poll\<close> so far.\<close>

record loopback_run =
  rn_pair :: loopback_pair
  rn_accepted :: "Endpoint \<Rightarrow> NetworkEnvelope list"
  rn_received :: "Endpoint \<Rightarrow> NetworkEnvelope list"

definition new_run :: "LoopbackNetworkConditions \<Rightarrow> loopback_run" where
  "new_run conditions =
     \<lparr>rn_pair = CreatePair conditions, rn_accepted = (\<lambda>x. []), rn_received = (\<lambda>x. [])\<rparr>"

fun loopback_step :: "Endpoint \<times> loopback_call \<Rightarrow> loopback_run \<Rightarrow> loopback_run" where
  "loopback_step (x, Call_Send e) r =
     (let (sent, t) = Loopback_Send e (endpoint_of x (rn_pair r))
      in r\<lparr>rn_pair := put_endpoint x t (rn_pair r),
           rn_accepted := (rn_accepted r)(x := rn_accepted r x @ (if sent then [e] else []))\<rparr>)"
| "loopback_step (x, Call_Poll) r =
     (let (e, t) = Loopback_Poll (endpoint_of x (rn_pair r))
      in r\<lparr>rn_pair := put_endpoint x t (rn_pair r),
           rn_received := (rn_received r)(x := rn_received r x @ (case e of Some e \<Rightarrow> [e] | None \<Rightarrow> []))\<rparr>)"
| "loopback_step (x, Call_Update) r =
     r\<lparr>rn_pair := put_endpoint x (Loopback_Update (endpoint_of x (rn_pair r))) (rn_pair r)\<rparr>"
| "loopback_step (x, Call_Flush) r =
     r\<lparr>rn_pair := put_endpoint x (FlushDelayed (endpoint_of x (rn_pair r))) (rn_pair r)\<rparr>"
| "loopback_step (x, Call_Connect) r =
     r\<lparr>rn_pair := put_endpoint x (snd (Loopback_Connect (endpoint_of x (rn_pair r)))) (rn_pair r)\<rparr>"
| "loopback_step (x, Call_Close) r =
     r\<lparr>rn_pair := put_endpoint x (Loopback_Close (endpoint_of x (rn_pair r))) (rn_pair r)\<rparr>"

section \<open>The effect of a call on the shared queues\<close>

fun other :: "Endpoint \<Rightarrow> Endpoint" where
  "other Endpoint_A = Endpoint_B"
| "other Endpoint_B = Endpoint_A"

text \<open>The queue of envelopes on their way from an endpoint, and of those it delays.\<close>

definition sent_by :: "Endpoint \<Rightarrow> SharedState \<Rightarrow> NetworkEnvelope list" where
  "sent_by x q = (if x = Endpoint_A then lb_aToB q else lb_bToA q)"

definition delayed_by :: "Endpoint \<Rightarrow> SharedState \<Rightarrow> NetworkEnvelope list" where
  "delayed_by x q = (if x = Endpoint_A then lb_delayedAToB q else lb_delayedBToA q)"

lemma other_simps [simp]: "other (other x) = x" "other x \<noteq> x" "x \<noteq> other x"
  by (cases x; simp)+

lemma endpoint_queues:
  "OutgoingQueue t = sent_by (lt_endpoint t) (queues t)"
  "IncomingQueue t = sent_by (other (lt_endpoint t)) (queues t)"
  "DelayedOutgoingQueue t = delayed_by (lt_endpoint t) (queues t)"
  by (cases "lt_endpoint t"; simp add: OutgoingQueue_def IncomingQueue_def DelayedOutgoingQueue_def
      sent_by_def delayed_by_def)+

text \<open>The parts of an endpoint that no call of a run changes, and the peer's delayed queue.\<close>

definition fixed_parts :: "LoopbackTransport \<Rightarrow> Endpoint \<times> LoopbackNetworkConditions \<times> NetworkEnvelope list" where
  "fixed_parts t = (lt_endpoint t, lt_conditions t, delayed_by (other (lt_endpoint t)) (queues t))"

abbreviation dropped_count :: "LoopbackTransport \<Rightarrow> nat" where
  "dropped_count t \<equiv> st_envelopesDroppedByCondition (lt_stats t)"

lemma fixed_parts_set [simp]:
  "fixed_parts (set_IncomingQueue q t) = fixed_parts t" "fixed_parts (set_OutgoingQueue q t) = fixed_parts t"
  "fixed_parts (set_DelayedOutgoingQueue q t) = fixed_parts t"
  "fixed_parts (t\<lparr>lt_stats := s\<rparr>) = fixed_parts t" "fixed_parts (t\<lparr>lt_lastError := e\<rparr>) = fixed_parts t"
  "fixed_parts (t\<lparr>lt_stateValue := v\<rparr>) = fixed_parts t"
  "fixed_parts (t\<lparr>lt_outgoingEnvelopeOrdinal := n\<rparr>) = fixed_parts t"
  by (cases "lt_endpoint t"; simp add: fixed_parts_def delayed_by_def set_IncomingQueue_def
      set_OutgoingQueue_def set_DelayedOutgoingQueue_def; simp add: queues_def)+

lemma stats_set [simp]:
  "lt_stats (set_IncomingQueue q t) = lt_stats t" "lt_stats (set_OutgoingQueue q t) = lt_stats t"
  "lt_stats (set_DelayedOutgoingQueue q t) = lt_stats t"
  by (simp_all add: set_IncomingQueue_def set_OutgoingQueue_def set_DelayedOutgoingQueue_def)

lemma fixed_parts_push [simp]:
  "fixed_parts (PushOutgoing e t) = fixed_parts t" "dropped_count (PushOutgoing e t) = dropped_count t"
  by (simp_all add: PushOutgoing_def Let_def)

lemma fixed_parts_release [simp]:
  "fixed_parts (ReleaseOneDelayed t) = fixed_parts t" "dropped_count (ReleaseOneDelayed t) = dropped_count t"
  by (simp_all add: ReleaseOneDelayed_def split: list.splits)

lemma fixed_parts_flush [simp]:
  "fixed_parts (flush_loop t) = fixed_parts t" "dropped_count (flush_loop t) = dropped_count t"
  by (induction t rule: flush_loop.induct; subst flush_loop.simps; simp)+

section \<open>Conservation\<close>

text \<open>
  The flow from one endpoint to its peer: what was accepted is what was received, is on its way,
  is delayed or was dropped by the conditions, and is valid; and in order when there are no conditions.
\<close>

definition flow ::
    "LoopbackNetworkConditions \<Rightarrow> NetworkEnvelope list \<Rightarrow> NetworkEnvelope list \<Rightarrow> NetworkEnvelope list
     \<Rightarrow> NetworkEnvelope list \<Rightarrow> nat \<Rightarrow> bool" where
  "flow c accepted received out delayed drops \<longleftrightarrow>
     (\<exists>dropped. mset accepted = mset received + mset out + mset delayed + mset dropped \<and> length dropped = drops)
     \<and> (\<forall>e\<in>set accepted. valid_envelope e)
     \<and> (c = no_conditions \<longrightarrow> delayed = [] \<and> accepted = received @ out \<and> drops = 0)"

lemma flow_valid: "flow c acc rcv out del n \<Longrightarrow> e \<in> set out \<Longrightarrow> valid_envelope e"
  unfolding flow_def by (metis UnCI set_mset_mset set_mset_union)

lemma flow_poll: "flow c acc rcv (e # out) del n \<Longrightarrow> flow c acc (rcv @ [e]) out del n"
  by (auto simp: flow_def)

lemma flow_release: "flow c acc rcv out del n \<Longrightarrow> flow c acc rcv (out @ take 1 del) (tl del) n"
  by (cases del) (auto simp: flow_def)

lemma flow_flush: "flow c acc rcv out del n \<Longrightarrow> flow c acc rcv (out @ del) [] n"
  by (auto simp: flow_def)

lemma flow_send: "flow c acc rcv out del n \<Longrightarrow> valid_envelope e \<Longrightarrow> flow c (acc @ [e]) rcv (out @ [e]) del n"
  by (auto simp: flow_def)

lemma flow_delay:
  "flow c acc rcv out del n \<Longrightarrow> valid_envelope e \<Longrightarrow> c \<noteq> no_conditions \<Longrightarrow> flow c (acc @ [e]) rcv out (del @ [e]) n"
  by (auto simp: flow_def)

lemma flow_drop:
  assumes "flow c acc rcv out del n" and "valid_envelope e" and "c \<noteq> no_conditions"
  shows "flow c (acc @ [e]) rcv out del (Suc n)"
proof -
  obtain dropped where "mset acc = mset rcv + mset out + mset del + mset dropped" "length dropped = n"
    using assms(1) by (auto simp: flow_def)
  then have "mset (acc @ [e]) = mset rcv + mset out + mset del + mset (e # dropped) \<and> length (e # dropped) = Suc n"
    by simp
  then show ?thesis using assms by (auto simp only: flow_def set_append) auto
qed

text \<open>One endpoint's view of both flows: what it sends, and what comes in.\<close>

definition sends :: "LoopbackTransport \<Rightarrow> NetworkEnvelope list \<Rightarrow> NetworkEnvelope list \<Rightarrow> bool" where
  "sends t acc rcv \<longleftrightarrow>
     flow (lt_conditions t) acc rcv (OutgoingQueue t) (DelayedOutgoingQueue t) (dropped_count t)"

lemma conditions_simps [simp]:
  "\<not> ShouldDropOutgoing t" "\<not> ShouldDelayOutgoing t" if "lt_conditions t = no_conditions"
  using that by (simp_all add: ShouldDropOutgoing_def ShouldDelayOutgoing_def no_conditions_def)

lemma sends_fields [simp]:
  "sends (t\<lparr>lt_lastError := e\<rparr>) = sends t" "sends (t\<lparr>lt_stateValue := v\<rparr>) = sends t"
  "sends (t\<lparr>lt_outgoingEnvelopeOrdinal := k\<rparr>) = sends t"
  by (simp_all add: sends_def fun_eq_iff)

lemma sends_stats:
  "st_envelopesDroppedByCondition s = dropped_count t \<Longrightarrow> sends (t\<lparr>lt_stats := s\<rparr>) = sends t"
  by (simp add: sends_def fun_eq_iff)

lemma lt_conditions_fixed: "fixed_parts t' = fixed_parts t \<Longrightarrow> lt_conditions t' = lt_conditions t"
  by (simp add: fixed_parts_def)

lemma sends_PushOutgoing: "sends t acc rcv \<Longrightarrow> valid_envelope e \<Longrightarrow> sends (PushOutgoing e t) (acc @ [e]) rcv"
  using lt_conditions_fixed [of "PushOutgoing e t" t] by (simp add: sends_def flow_send)

lemma sends_ReleaseOneDelayed: "sends t acc rcv \<Longrightarrow> sends (ReleaseOneDelayed t) acc rcv"
  using lt_conditions_fixed [of "ReleaseOneDelayed t" t] flow_release by (simp add: sends_def)

lemma sends_FlushDelayed: "sends t acc rcv \<Longrightarrow> sends (FlushDelayed t) acc rcv"
  using lt_conditions_fixed [of "flush_loop t" t]
  by (auto simp: FlushDelayed_def sends_def flush_loop_queues flow_flush)

lemma Loopback_Send_effect:
  assumes "Loopback_Send e t = (b, t')" and "sends t acc rcv"
  shows "sends t' (acc @ (if b then [e] else [])) rcv \<and> fixed_parts t' = fixed_parts t
     \<and> IncomingQueue t' = IncomingQueue t"
proof -
  let ?t = "t\<lparr>lt_outgoingEnvelopeOrdinal := lt_outgoingEnvelopeOrdinal t + 1\<rparr>"
  have t: "sends ?t acc rcv" using assms(2) by simp
  consider (fail) "lt_state t = None \<or> lt_stateValue t \<noteq> Connected \<or> \<not> valid_envelope e"
    | (drop) "lt_state t \<noteq> None" "lt_stateValue t = Connected" "valid_envelope e" "ShouldDropOutgoing ?t"
    | (delay) "lt_state t \<noteq> None" "lt_stateValue t = Connected" "valid_envelope e" "\<not> ShouldDropOutgoing ?t"
        "ShouldDelayOutgoing ?t"
    | (send) "lt_state t \<noteq> None" "lt_stateValue t = Connected" "valid_envelope e" "\<not> ShouldDropOutgoing ?t"
        "\<not> ShouldDelayOutgoing ?t" by blast
  then show ?thesis
  proof cases
    case fail
    then show ?thesis using assms
      by (auto simp: Loopback_Send_def loopback_send_failure_def sends_stats split: if_splits)
  next
    case drop
    then have "lt_conditions t \<noteq> no_conditions" using conditions_simps(1) [of ?t] by auto
    with drop show ?thesis using assms t flow_drop
      by (auto simp: Loopback_Send_def Let_def sends_def)
  next
    case delay
    then have c: "lt_conditions t \<noteq> no_conditions" using conditions_simps(2) [of ?t] by auto
    have "lt_conditions (set_DelayedOutgoingQueue q u) = lt_conditions u" for q u
      by (simp add: set_DelayedOutgoingQueue_def)
    with delay c show ?thesis using assms t flow_delay
      by (auto simp: Loopback_Send_def Let_def sends_def)
  next
    case send
    have "sends (ReleaseOneDelayed (PushOutgoing e ?t)) (acc @ [e]) rcv"
      using t send(3) by (intro sends_ReleaseOneDelayed sends_PushOutgoing)
    with send show ?thesis using assms by (auto simp: Loopback_Send_def Let_def)
  qed
qed

lemma Loopback_Poll_effect:
  assumes "Loopback_Poll t = (r, t')" and "\<forall>e\<in>set (IncomingQueue t). valid_envelope e"
  shows "fixed_parts t' = fixed_parts t \<and> OutgoingQueue t' = OutgoingQueue t
     \<and> DelayedOutgoingQueue t' = DelayedOutgoingQueue t \<and> dropped_count t' = dropped_count t
     \<and> IncomingQueue t = (case r of Some e \<Rightarrow> [e] | None \<Rightarrow> []) @ IncomingQueue t'"
  using assms by (auto simp: Loopback_Poll_def Let_def split: if_splits list.splits)

text \<open>The invariant of a run.\<close>

definition run_ok :: "LoopbackNetworkConditions \<Rightarrow> loopback_run \<Rightarrow> bool" where
  "run_ok c r \<longleftrightarrow> (\<forall>x. let t = endpoint_of x (rn_pair r)
     in lt_endpoint t = x \<and> lt_conditions t = c \<and> sends t (rn_accepted r x) (rn_received r (other x)))"

lemma queues_endpoint_of [simp]: "queues (endpoint_of x p) = pr_queues p"
  by (simp add: endpoint_of_def queues_def)

text \<open>The endpoints after a call on \<open>x\<close>: its own parts come from the call, the peer only sees new queues.\<close>

lemma run_ok_call:
  assumes r: "run_ok c r" and t: "fixed_parts t = fixed_parts (endpoint_of x (rn_pair r))"
    and own: "sends t (acc x) (rcv (other x))"
    and inc: "flow c (acc (other x)) (rcv x) (IncomingQueue t)
        (delayed_by (other x) (pr_queues (rn_pair r))) (dropped_count (endpoint_of (other x) (rn_pair r)))"
  shows "run_ok c (r\<lparr>rn_pair := put_endpoint x t (rn_pair r), rn_accepted := acc, rn_received := rcv\<rparr>)"
proof -
  let ?p = "rn_pair r" and ?p' = "put_endpoint x t (rn_pair r)"
  have x: "lt_endpoint t = x" "lt_conditions t = c"
    "delayed_by (other x) (queues t) = delayed_by (other x) (pr_queues ?p)"
    using r t by (auto simp: run_ok_def Let_def fixed_parts_def)
  have same: "endpoint_of x ?p' = t\<lparr>lt_state := Some (queues t)\<rparr>"
    by (cases x) (simp_all add: endpoint_of_def put_endpoint_def)
  have peer: "endpoint_of (other x) ?p' = (endpoint_of (other x) ?p)\<lparr>lt_state := Some (queues t)\<rparr>"
    by (cases x) (simp_all add: endpoint_of_def put_endpoint_def)
  have q: "queues (u\<lparr>lt_state := Some qs\<rparr>) = qs" for u qs by (simp add: queues_def)
  have "sends (endpoint_of x ?p') (acc x) (rcv (other x))"
    using own by (simp add: same sends_def endpoint_queues q)
  moreover have "lt_endpoint (endpoint_of (other x) ?p) = other x" "lt_conditions (endpoint_of (other x) ?p) = c"
    using r by (simp_all add: run_ok_def Let_def)
  then have "sends (endpoint_of (other x) ?p') (acc (other x)) (rcv x)"
    using inc x by (simp add: peer sends_def endpoint_queues q)
  moreover have "lt_endpoint (endpoint_of x ?p') = x" "lt_conditions (endpoint_of x ?p') = c"
    "lt_endpoint (endpoint_of (other x) ?p') = other x" "lt_conditions (endpoint_of (other x) ?p') = c"
    using x r by (simp_all add: same peer run_ok_def Let_def)
  moreover have "(\<forall>y. P y) \<longleftrightarrow> P x \<and> P (other x)" for P by (cases x) (metis Endpoint.exhaust other.simps)+
  ultimately show ?thesis unfolding run_ok_def Let_def by simp
qed

lemma run_ok_step:
  assumes r: "run_ok c r"
  shows "run_ok c (loopback_step (x, call) r)"
proof -
  let ?t = "endpoint_of x (rn_pair r)" and ?p = "endpoint_of (other x) (rn_pair r)"
  have own: "sends ?t (rn_accepted r x) (rn_received r (other x))"
    and ids: "lt_endpoint ?t = x" "lt_endpoint ?p = other x" "lt_conditions ?p = c"
    using r by (simp_all add: run_ok_def Let_def)
  have "sends ?p (rn_accepted r (other x)) (rn_received r x)"
    using r unfolding run_ok_def Let_def by (metis other_simps(1))
  then have inc: "flow c (rn_accepted r (other x)) (rn_received r x) (IncomingQueue ?t)
      (delayed_by (other x) (pr_queues (rn_pair r))) (dropped_count ?p)"
    using ids by (simp add: sends_def endpoint_queues)
  have quiet: "run_ok c (r\<lparr>rn_pair := put_endpoint x t (rn_pair r)\<rparr>)"
    if "fixed_parts t = fixed_parts ?t" "sends t (rn_accepted r x) (rn_received r (other x))"
      "IncomingQueue t = IncomingQueue ?t" for t
    using run_ok_call [OF r that(1), of "rn_accepted r" "rn_received r"] that(2,3) inc by simp
  show ?thesis
  proof (cases call)
    case (Call_Send e)
    obtain b t where t: "Loopback_Send e ?t = (b, t)" by fastforce
    from Loopback_Send_effect [OF t own] inc show ?thesis
      using run_ok_call [OF r, of t x "(rn_accepted r)(x := rn_accepted r x @ (if b then [e] else []))" "rn_received r"]
      by (simp add: Call_Send t)
  next
    case Call_Poll
    obtain e t where t: "Loopback_Poll ?t = (e, t)" by fastforce
    note eff = Loopback_Poll_effect [OF t]
    have "\<forall>e\<in>set (IncomingQueue ?t). valid_envelope e" using flow_valid [OF inc] by blast
    note eff = eff [OF this]
    have "lt_conditions t = lt_conditions ?t" by (rule lt_conditions_fixed) (use eff in blast)
    then have "sends t (rn_accepted r x) (rn_received r (other x))"
      using own eff by (simp add: sends_def)
    moreover have "flow c (rn_accepted r (other x)) (rn_received r x @ (case e of Some e \<Rightarrow> [e] | None \<Rightarrow> []))
        (IncomingQueue t) (delayed_by (other x) (pr_queues (rn_pair r))) (dropped_count ?p)"
      using inc eff flow_poll by (cases e) auto
    ultimately show ?thesis
      using run_ok_call [OF r, of t x "rn_accepted r"
          "(rn_received r)(x := rn_received r x @ (case e of Some e \<Rightarrow> [e] | None \<Rightarrow> []))"] eff
      by (simp add: Call_Poll t)
  next
    case Call_Update
    show ?thesis
      using quiet [of "ReleaseOneDelayed ?t"] own
      by (simp add: Call_Update Loopback_Update_def sends_ReleaseOneDelayed)
  next
    case Call_Flush
    have "fixed_parts (FlushDelayed ?t) = fixed_parts ?t" "IncomingQueue (FlushDelayed ?t) = IncomingQueue ?t"
      by (simp_all add: FlushDelayed_def flush_loop_queues)
    then show ?thesis
      using quiet [of "FlushDelayed ?t"] sends_FlushDelayed [OF own] by (simp add: Call_Flush)
  next
    case Call_Connect
    have "\<exists>v e. snd (Loopback_Connect ?t) = ?t\<lparr>lt_stateValue := v, lt_lastError := e\<rparr>"
      by (auto simp: Loopback_Connect_def)
    then show ?thesis using quiet [of "snd (Loopback_Connect ?t)"] own by (auto simp: Call_Connect)
  next
    case Call_Close
    show ?thesis using quiet [of "Loopback_Close ?t"] own by (simp add: Call_Close Loopback_Close_def)
  qed
qed

lemma run_ok_new: "run_ok c (new_run c)"
proof -
  have "flow c [] [] [] [] 0" by (simp add: flow_def)
  then show ?thesis
    unfolding run_ok_def Let_def
    by (auto simp: new_run_def CreatePair_def endpoint_of_def new_LoopbackTransport_def
        default_LoopbackTransport_def sends_def empty_SharedState_def queue_defs zero_TransportStats_def
        intro: Endpoint.exhaust)
qed

lemma run_ok_run: "run_ok c r \<Longrightarrow> run_ok c (fold loopback_step calls r)"
proof (induction calls arbitrary: r)
  case (Cons a calls)
  then show ?case using run_ok_step [of c r "fst a" "snd a"] by simp
qed simp

section \<open>The contract over the shared queues\<close>

text \<open>
  Where the two endpoints take turns, a call on one must also keep what the other relies on: every
  queue holds valid envelopes only.
\<close>

definition queues_valid :: "SharedState \<Rightarrow> bool" where
  "queues_valid q \<longleftrightarrow> (\<forall>x. (\<forall>e\<in>set (sent_by x q). valid_envelope e) \<and> (\<forall>e\<in>set (delayed_by x q). valid_envelope e))"

definition shared_ok :: "Endpoint \<Rightarrow> LoopbackTransport \<Rightarrow> bool" where
  "shared_ok x t \<longleftrightarrow> lt_endpoint t = x \<and> queues_valid (queues t)"

lemma all_endpoints: "(\<forall>y. P y) \<longleftrightarrow> P x \<and> P (other x)"
  by (cases x) (metis Endpoint.exhaust other.simps)+

lemma shared_ok_iff:
  "shared_ok x t \<longleftrightarrow> lt_endpoint t = x \<and> (\<forall>e\<in>set (IncomingQueue t) \<union> set (OutgoingQueue t)
     \<union> set (DelayedOutgoingQueue t) \<union> set (delayed_by (other x) (queues t)). valid_envelope e)"
  unfolding shared_ok_def queues_valid_def all_endpoints [where x = x] by (auto simp: endpoint_queues)

lemma shared_ok_fields [simp]:
  "shared_ok x (t\<lparr>lt_stateValue := v\<rparr>) = shared_ok x t" "shared_ok x (t\<lparr>lt_lastError := e\<rparr>) = shared_ok x t"
  "shared_ok x (t\<lparr>lt_stats := s\<rparr>) = shared_ok x t" "shared_ok x (t\<lparr>lt_outgoingEnvelopeOrdinal := n\<rparr>) = shared_ok x t"
  by (simp_all add: shared_ok_def queues_def)

text \<open>A call that leaves the peer's delayed queue alone and takes its envelopes from the queues and \<open>es\<close>.\<close>

lemma shared_ok_call:
  assumes "shared_ok x t" and "fixed_parts t' = fixed_parts t" and "\<forall>e\<in>set es. valid_envelope e"
    and "set (IncomingQueue t') \<union> set (OutgoingQueue t') \<union> set (DelayedOutgoingQueue t')
      \<subseteq> set (IncomingQueue t) \<union> set (OutgoingQueue t) \<union> set (DelayedOutgoingQueue t) \<union> set es"
  shows "shared_ok x t'"
proof -
  have "lt_endpoint t' = x" "delayed_by (other x) (queues t') = delayed_by (other x) (queues t)"
    using assms(1,2) by (auto simp: fixed_parts_def shared_ok_def)
  moreover have "\<forall>e\<in>set (IncomingQueue t) \<union> set (OutgoingQueue t) \<union> set (DelayedOutgoingQueue t) \<union> set es
      \<union> set (delayed_by (other x) (queues t)). valid_envelope e"
    using assms(1,3) by (auto simp: shared_ok_iff)
  ultimately show ?thesis using assms(4) unfolding shared_ok_iff by (auto dest: subsetD)
qed

lemma shared_ok_ReleaseOneDelayed: "shared_ok x t \<Longrightarrow> shared_ok x (ReleaseOneDelayed t)"
  by (rule shared_ok_call [where es = "[]"]) (auto dest: in_set_takeD list.set_sel(2) simp del: set_take_subset,
      (cases "DelayedOutgoingQueue t"; auto)+)

lemma shared_ok_Send:
  assumes "shared_ok x t" and "Loopback_Send e t = (b, t')"
  shows "shared_ok x t'"
proof (cases "lt_state t = None \<or> lt_stateValue t \<noteq> Connected \<or> \<not> Ok (ValidateEnvelope e)")
  case True
  then have "Loopback_Send e t = loopback_send_failure TE_NotConnected t
      \<or> Loopback_Send e t = loopback_send_failure TE_ProtocolRejected t"
    by (auto simp: Loopback_Send_def)
  then show ?thesis using assms by (auto simp: loopback_send_failure_def)
next
  case False
  let ?t = "t\<lparr>lt_outgoingEnvelopeOrdinal := lt_outgoingEnvelopeOrdinal t + 1\<rparr>"
  have delayed: "shared_ok x (set_DelayedOutgoingQueue (DelayedOutgoingQueue ?t @ [e]) ?t)"
    by (rule shared_ok_call [OF assms(1), where es = "[e]"]) (use False in auto)
  have "shared_ok x (PushOutgoing e ?t)"
    by (rule shared_ok_call [OF assms(1), where es = "[e]"]) (use False in auto)
  note pushed = shared_ok_ReleaseOneDelayed [OF this]
  show ?thesis using False assms(2) delayed pushed assms(1)
    by (auto simp: Loopback_Send_def Let_def split: if_splits)
qed

lemma shared_ok_Poll:
  assumes "shared_ok x t" and "Loopback_Poll t = (r, t')" shows "shared_ok x t'"
proof -
  have "shared_ok x (set_IncomingQueue rest t)" if "IncomingQueue t = e # rest" for e rest
    by (rule shared_ok_call [OF assms(1), where es = "[]"]) (use that in auto)
  then show ?thesis using assms
    by (auto simp: Loopback_Poll_def Let_def split: if_splits list.splits)
qed

interpretation shared: transport loopback_transport "shared_ok x" "\<lambda>t. length (IncomingQueue t)"
proof
  have ok: "loopback_ok t" if "shared_ok x t" for t
    using that by (simp add: shared_ok_iff loopback_ok_def)
  show "shared_ok x t'" if "shared_ok x t" "tp_connect loopback_transport t = (b, t')" for t b t'
    using that by (auto simp: loopback_transport_def Loopback_Connect_def split: if_splits)
  show "shared_ok x (tp_update loopback_transport t)" "shared_ok x (tp_close loopback_transport t)"
    if "shared_ok x t" for t
    using that shared_ok_ReleaseOneDelayed
    by (simp_all add: loopback_transport_def Loopback_Update_def Loopback_Close_def)
  show "shared_ok x t' \<and> length (IncomingQueue t') \<le> length (IncomingQueue t)"
    if "shared_ok x t" "tp_send loopback_transport e t = (b, t')" for t e b t'
    using shared_ok_Send loopback.send_ok [OF ok] that by (simp add: loopback_transport_def)
  show "valid_envelope e \<and> tp_state loopback_transport t' = Connected"
    if "shared_ok x t" "tp_send loopback_transport e t = (True, t')" for t e t'
    using loopback.send_valid [OF ok] that by blast
  show "shared_ok x t' \<and> length (IncomingQueue t') \<le> length (IncomingQueue t)"
    if "shared_ok x t" "tp_poll loopback_transport t = (None, t')" for t t'
    using shared_ok_Poll loopback.poll_none [OF ok] that by (simp add: loopback_transport_def)
  show "shared_ok x t' \<and> valid_envelope e \<and> length (IncomingQueue t') < length (IncomingQueue t)"
    if "shared_ok x t" "tp_poll loopback_transport t = (Some e, t')" for t e t'
    using shared_ok_Poll loopback.poll_some [OF ok] that by (simp add: loopback_transport_def)
qed

text \<open>The two ends of one pair.\<close>

definition pair_ok :: "loopback_pair \<Rightarrow> bool" where
  "pair_ok p \<longleftrightarrow> lt_endpoint (pr_a p) = Endpoint_A \<and> lt_endpoint (pr_b p) = Endpoint_B \<and> queues_valid (pr_queues p)"

lemma pair_ok_load: "pair_ok p \<Longrightarrow> shared_ok x (endpoint_of x p)"
  by (cases x) (simp_all add: pair_ok_def shared_ok_def endpoint_of_def queues_def)

lemma pair_ok_store: "pair_ok p \<Longrightarrow> shared_ok x t \<Longrightarrow> pair_ok (put_endpoint x t p)"
  by (cases x) (simp_all add: pair_ok_def shared_ok_def put_endpoint_def)

lemma pair_ok_CreatePair: "pair_ok (CreatePair c)"
  by (simp add: pair_ok_def CreatePair_def new_LoopbackTransport_def queues_valid_def empty_SharedState_def
      sent_by_def delayed_by_def)

end
