(* ===== verification/Multi_Client.thy ===== *)
theory Multi_Client
  imports Prelude Transport
begin

text \<open>
  \<open>src/Networking/src/MultiClientLoopbackTransport.cpp\<close>: one server endpoint and any number of
  client endpoints around a hub of queues. As for the loopback pair, an endpoint holds the hub its
  \<open>shared_ptr\<close> points to; \<open>multi_world\<close> is the store with the one hub and all endpoints.
\<close>

section \<open>State and operations\<close>

record Hub =
  hub_toServer :: "NetworkEnvelope list"
  hub_toClients :: "(ClientId, NetworkEnvelope list) umap"

definition CreateHub :: Hub where
  "CreateHub = \<lparr>hub_toServer = [], hub_toClients = []\<rparr>"

datatype MultiEndpoint = Endpoint_Server | Endpoint_Client

record MultiClientLoopbackTransport =
  mt_hub :: "Hub option"
  mt_endpoint :: MultiEndpoint
  mt_clientId :: ClientId
  mt_state :: TransportState
  mt_stats :: TransportStats
  mt_lastError :: TransportError

definition new_MultiClientLoopbackTransport :: "Hub option \<Rightarrow> MultiEndpoint \<Rightarrow> ClientId \<Rightarrow> MultiClientLoopbackTransport" where
  "new_MultiClientLoopbackTransport hub endpoint clientId =
     \<lparr>mt_hub = hub, mt_endpoint = endpoint, mt_clientId = clientId, mt_state = Connected,
      mt_stats = zero_TransportStats, mt_lastError = TE_None\<rparr>"

definition CreateServer :: "Hub option \<Rightarrow> MultiClientLoopbackTransport" where
  "CreateServer hub = new_MultiClientLoopbackTransport hub Endpoint_Server 0"

definition CreateClient :: "Hub option \<Rightarrow> ClientId \<Rightarrow> MultiClientLoopbackTransport" where
  "CreateClient hub clientId = new_MultiClientLoopbackTransport hub Endpoint_Client clientId"

text \<open>\<open>toClients[id]\<close>: a missing queue is the empty one that \<open>operator[]\<close> inserts.\<close>

definition client_queue :: "ClientId \<Rightarrow> Hub \<Rightarrow> NetworkEnvelope list" where
  "client_queue c hub = (case um_find (hub_toClients hub) c of Some q \<Rightarrow> q | None \<Rightarrow> [])"

definition set_client_queue :: "ClientId \<Rightarrow> NetworkEnvelope list \<Rightarrow> Hub \<Rightarrow> Hub" where
  "set_client_queue c q hub = hub\<lparr>hub_toClients := um_put c q (hub_toClients hub)\<rparr>"

definition Multi_Connect :: "MultiClientLoopbackTransport \<Rightarrow> bool \<times> MultiClientLoopbackTransport" where
  "Multi_Connect t =
     (if mt_hub t = None then (False, t\<lparr>mt_state := Failed, mt_lastError := TE_NotConnected\<rparr>)
      else (True, t\<lparr>mt_state := Connected, mt_lastError := TE_None\<rparr>))"

definition Multi_Update :: "MultiClientLoopbackTransport \<Rightarrow> MultiClientLoopbackTransport" where
  "Multi_Update t = t"

definition Multi_Close :: "MultiClientLoopbackTransport \<Rightarrow> MultiClientLoopbackTransport" where
  "Multi_Close t = t\<lparr>mt_state := Disconnected\<rparr>"

definition multi_send_failure :: "TransportError \<Rightarrow> MultiClientLoopbackTransport \<Rightarrow> bool \<times> MultiClientLoopbackTransport" where
  "multi_send_failure e t =
     (False, t\<lparr>mt_lastError := e, mt_stats := (mt_stats t)\<lparr>st_sendFailures := st_sendFailures (mt_stats t) + 1\<rparr>\<rparr>)"

text \<open>The envelope as it is put into the hub: a client's carries the client's own id.\<close>

definition routed_envelope :: "MultiClientLoopbackTransport \<Rightarrow> NetworkEnvelope \<Rightarrow> NetworkEnvelope" where
  "routed_envelope t envelope =
     (if mt_endpoint t = Endpoint_Client then envelope\<lparr>ev_peerId := mt_clientId t\<rparr> else envelope)"

definition Multi_Send :: "NetworkEnvelope \<Rightarrow> MultiClientLoopbackTransport \<Rightarrow> bool \<times> MultiClientLoopbackTransport" where
  "Multi_Send envelope t =
     (case mt_hub t of
        None \<Rightarrow> multi_send_failure TE_NotConnected t
      | Some hub \<Rightarrow>
          if mt_state t \<noteq> Connected then multi_send_failure TE_NotConnected t
          else if \<not> Ok (ValidateEnvelope envelope) then multi_send_failure TE_ProtocolRejected t
          else if mt_endpoint t \<noteq> Endpoint_Client \<and> ev_peerId envelope = 0
               then multi_send_failure TE_ProtocolRejected t
          else
          let routed = routed_envelope t envelope;
              hub = (if mt_endpoint t = Endpoint_Client then hub\<lparr>hub_toServer := hub_toServer hub @ [routed]\<rparr>
                     else set_client_queue (ev_peerId routed) (client_queue (ev_peerId routed) hub @ [routed]) hub)
          in (True, t\<lparr>mt_hub := Some hub,
                mt_stats := (mt_stats t)\<lparr>st_envelopesSent := st_envelopesSent (mt_stats t) + 1,
                  st_bytesSent := st_bytesSent (mt_stats t) + length (ev_payload envelope)\<rparr>,
                mt_lastError := TE_None\<rparr>))"

definition incoming :: "MultiClientLoopbackTransport \<Rightarrow> Hub \<Rightarrow> NetworkEnvelope list" where
  "incoming t hub = (if mt_endpoint t = Endpoint_Server then hub_toServer hub else client_queue (mt_clientId t) hub)"

definition set_incoming :: "MultiClientLoopbackTransport \<Rightarrow> NetworkEnvelope list \<Rightarrow> Hub \<Rightarrow> Hub" where
  "set_incoming t q hub = (if mt_endpoint t = Endpoint_Server then hub\<lparr>hub_toServer := q\<rparr>
     else set_client_queue (mt_clientId t) q hub)"

definition Multi_Poll :: "MultiClientLoopbackTransport \<Rightarrow> NetworkEnvelope option \<times> MultiClientLoopbackTransport" where
  "Multi_Poll t =
     (case mt_hub t of
        None \<Rightarrow> (None, t)
      | Some hub \<Rightarrow>
          if mt_state t \<noteq> Connected then (None, t)
          else
          let queue = incoming t hub
          in case queue of
               [] \<Rightarrow> (None, t\<lparr>mt_hub := Some (set_incoming t [] hub)\<rparr>)
             | envelope # rest \<Rightarrow>
                 let t = t\<lparr>mt_hub := Some (set_incoming t rest hub)\<rparr>
                 in if \<not> Ok (ValidateEnvelope envelope)
                    then (None, t\<lparr>mt_lastError := TE_ProtocolRejected,
                            mt_stats := (mt_stats t)\<lparr>st_receiveFailures := st_receiveFailures (mt_stats t) + 1\<rparr>\<rparr>)
                    else (Some envelope, t\<lparr>mt_stats := (mt_stats t)\<lparr>
                            st_envelopesReceived := st_envelopesReceived (mt_stats t) + 1,
                            st_bytesReceived := st_bytesReceived (mt_stats t) + length (ev_payload envelope)\<rparr>,
                            mt_lastError := TE_None\<rparr>))"

definition multi_transport :: "MultiClientLoopbackTransport transport_ops" where
  "multi_transport = \<lparr>tp_connect = Multi_Connect, tp_update = Multi_Update, tp_close = Multi_Close,
     tp_send = Multi_Send, tp_poll = Multi_Poll, tp_state = mt_state, tp_stats = mt_stats,
     tp_lastError = mt_lastError\<rparr>"

section \<open>The contract\<close>

lemma client_queue_set [simp]:
  "client_queue c (set_client_queue c' q hub) = (if c = c' then q else client_queue c hub)"
  "hub_toServer (set_client_queue c' q hub) = hub_toServer hub"
  by (auto simp: client_queue_def set_client_queue_def)

lemma client_queue_toServer [simp]: "client_queue c (hub\<lparr>hub_toServer := q\<rparr>) = client_queue c hub"
  by (simp add: client_queue_def)

lemma valid_envelope_peer [simp]: "valid_envelope (e\<lparr>ev_peerId := c\<rparr>) \<longleftrightarrow> valid_envelope e"
  by (simp add: valid_envelope_iff)

lemma incoming_set [simp]: "incoming t (set_incoming t q hub) = q"
  by (simp add: incoming_def set_incoming_def)

lemma incoming_fields [simp]:
  "incoming (t\<lparr>mt_hub := h\<rparr>) = incoming t" "incoming (t\<lparr>mt_stats := s\<rparr>) = incoming t"
  "incoming (t\<lparr>mt_lastError := e\<rparr>) = incoming t" "incoming (t\<lparr>mt_state := v\<rparr>) = incoming t"
  by (simp_all add: fun_eq_iff incoming_def)

definition multi_queue :: "MultiClientLoopbackTransport \<Rightarrow> NetworkEnvelope list" where
  "multi_queue t = (case mt_hub t of Some hub \<Rightarrow> incoming t hub | None \<Rightarrow> [])"

definition multi_ok :: "MultiClientLoopbackTransport \<Rightarrow> bool" where
  "multi_ok t \<longleftrightarrow> (\<forall>e\<in>set (multi_queue t). valid_envelope e)"

lemma Multi_Send_queue:
  assumes "Multi_Send e t = (b, t')"
  shows "multi_queue t' = multi_queue t"
proof (cases "mt_hub t")
  case None
  then show ?thesis using assms by (auto simp: Multi_Send_def multi_send_failure_def multi_queue_def)
next
  case (Some hub)
  then show ?thesis using assms
    by (cases "mt_endpoint t") (auto simp: Multi_Send_def multi_send_failure_def Let_def multi_queue_def
        incoming_def split: if_splits)
qed

lemma Multi_Poll_queue:
  assumes ok: "multi_ok t" and poll: "Multi_Poll t = (r, t')"
  shows "multi_queue t = (case r of Some e \<Rightarrow> [e] | None \<Rightarrow> []) @ multi_queue t'"
proof (cases "mt_hub t")
  case None
  then show ?thesis using poll by (auto simp: Multi_Poll_def multi_queue_def)
next
  case (Some hub)
  then have valid: "\<forall>e\<in>set (incoming t hub). valid_envelope e"
    using ok by (simp add: multi_ok_def multi_queue_def)
  show ?thesis
  proof (cases "incoming t hub")
    case Nil
    then show ?thesis using poll Some
      by (auto simp: Multi_Poll_def Let_def multi_queue_def split: if_splits)
  next
    case (Cons e rest)
    then show ?thesis using poll Some valid
      by (auto simp: Multi_Poll_def Let_def multi_queue_def split: if_splits)
  qed
qed

interpretation multi: transport multi_transport multi_ok "\<lambda>t. length (multi_queue t)"
proof
  show "multi_ok t'" if "multi_ok t" "tp_connect multi_transport t = (b, t')" for t b t'
    using that by (auto simp: multi_transport_def Multi_Connect_def multi_ok_def multi_queue_def split: if_splits)
  show "multi_ok (tp_update multi_transport t)" "multi_ok (tp_close multi_transport t)" if "multi_ok t" for t
    using that by (auto simp: multi_transport_def Multi_Update_def Multi_Close_def multi_ok_def multi_queue_def)
  show "multi_ok t' \<and> length (multi_queue t') \<le> length (multi_queue t)"
    if "multi_ok t" "tp_send multi_transport e t = (b, t')" for t e b t'
    using that Multi_Send_queue [of e t b t'] by (simp add: multi_transport_def multi_ok_def)
  show "valid_envelope e \<and> tp_state multi_transport t' = Connected"
    if "multi_ok t" "tp_send multi_transport e t = (True, t')" for t e t'
    using that by (auto simp: multi_transport_def Multi_Send_def multi_send_failure_def Let_def
        split: option.splits if_splits)
  show "multi_ok t' \<and> length (multi_queue t') \<le> length (multi_queue t)"
    if "multi_ok t" "tp_poll multi_transport t = (None, t')" for t t'
    using that Multi_Poll_queue [OF that(1), of None t'] by (auto simp: multi_transport_def multi_ok_def)
  show "multi_ok t' \<and> valid_envelope e \<and> length (multi_queue t') < length (multi_queue t)"
    if "multi_ok t" "tp_poll multi_transport t = (Some e, t')" for t e t'
    using that Multi_Poll_queue [OF that(1), of "Some e" t'] by (auto simp: multi_transport_def multi_ok_def)
qed

section \<open>Many clients around one hub\<close>

text \<open>The hub, the server endpoint, the client endpoints, and what each has sent and received.\<close>

record multi_world =
  mw_hub :: Hub
  mw_server :: MultiClientLoopbackTransport
  mw_clients :: "ClientId \<Rightarrow> MultiClientLoopbackTransport"
  mw_serverSent :: "NetworkEnvelope list"
  mw_serverReceived :: "NetworkEnvelope list"
  mw_clientSent :: "NetworkEnvelope list"
  mw_clientReceived :: "ClientId \<Rightarrow> NetworkEnvelope list"

definition new_world :: multi_world where
  "new_world = \<lparr>mw_hub = CreateHub, mw_server = CreateServer (Some CreateHub),
     mw_clients = CreateClient (Some CreateHub), mw_serverSent = [], mw_serverReceived = [],
     mw_clientSent = [], mw_clientReceived = (\<lambda>c. [])\<rparr>"

datatype multi_call =
    Server_Sends NetworkEnvelope | Server_Polls | Server_Closes | Server_Connects
  | Client_Sends ClientId NetworkEnvelope | Client_Polls ClientId | Client_Closes ClientId
  | Client_Connects ClientId

definition server_of :: "multi_world \<Rightarrow> MultiClientLoopbackTransport" where
  "server_of w = (mw_server w)\<lparr>mt_hub := Some (mw_hub w)\<rparr>"

definition client_of :: "ClientId \<Rightarrow> multi_world \<Rightarrow> MultiClientLoopbackTransport" where
  "client_of c w = (mw_clients w c)\<lparr>mt_hub := Some (mw_hub w)\<rparr>"

definition hub_of :: "MultiClientLoopbackTransport \<Rightarrow> Hub" where
  "hub_of t = (case mt_hub t of Some hub \<Rightarrow> hub | None \<Rightarrow> CreateHub)"

definition put_server :: "MultiClientLoopbackTransport \<Rightarrow> multi_world \<Rightarrow> multi_world" where
  "put_server t w = w\<lparr>mw_server := t, mw_hub := hub_of t\<rparr>"

definition put_client :: "ClientId \<Rightarrow> MultiClientLoopbackTransport \<Rightarrow> multi_world \<Rightarrow> multi_world" where
  "put_client c t w = w\<lparr>mw_clients := (mw_clients w)(c := t), mw_hub := hub_of t\<rparr>"

fun multi_step :: "multi_call \<Rightarrow> multi_world \<Rightarrow> multi_world" where
  "multi_step (Server_Sends e) w =
     (let (sent, t) = Multi_Send e (server_of w)
      in (put_server t w)\<lparr>mw_serverSent := mw_serverSent w @ (if sent then [e] else [])\<rparr>)"
| "multi_step Server_Polls w =
     (let (e, t) = Multi_Poll (server_of w)
      in (put_server t w)\<lparr>mw_serverReceived := mw_serverReceived w @ (case e of Some e \<Rightarrow> [e] | None \<Rightarrow> [])\<rparr>)"
| "multi_step Server_Closes w = put_server (Multi_Close (server_of w)) w"
| "multi_step Server_Connects w = put_server (snd (Multi_Connect (server_of w))) w"
| "multi_step (Client_Sends c e) w =
     (let (sent, t) = Multi_Send e (client_of c w)
      in (put_client c t w)\<lparr>mw_clientSent := mw_clientSent w @ (if sent then [e\<lparr>ev_peerId := c\<rparr>] else [])\<rparr>)"
| "multi_step (Client_Polls c) w =
     (let (e, t) = Multi_Poll (client_of c w)
      in (put_client c t w)\<lparr>mw_clientReceived := (mw_clientReceived w)
           (c := mw_clientReceived w c @ (case e of Some e \<Rightarrow> [e] | None \<Rightarrow> []))\<rparr>)"
| "multi_step (Client_Closes c) w = put_client c (Multi_Close (client_of c w)) w"
| "multi_step (Client_Connects c) w = put_client c (snd (Multi_Connect (client_of c w))) w"

text \<open>
  What holds in every world: each client's queue and receipts are the server's envelopes for it, in
  order; the server's queue and receipts are the clients' envelopes under their true ids, in order.
\<close>

definition world_ok :: "multi_world \<Rightarrow> bool" where
  "world_ok w \<longleftrightarrow>
     mt_endpoint (mw_server w) = Endpoint_Server
     \<and> (\<forall>c. mt_endpoint (mw_clients w c) = Endpoint_Client \<and> mt_clientId (mw_clients w c) = c)
     \<and> (\<forall>c. filter (\<lambda>e. ev_peerId e = c) (mw_serverSent w) = mw_clientReceived w c @ client_queue c (mw_hub w))
     \<and> mw_clientSent w = mw_serverReceived w @ hub_toServer (mw_hub w)
     \<and> (\<forall>e\<in>set (mw_serverSent w) \<union> set (mw_clientSent w). valid_envelope e)"

lemma world_ok_new: "world_ok new_world"
  by (simp add: world_ok_def new_world_def CreateServer_def CreateClient_def
      new_MultiClientLoopbackTransport_def CreateHub_def client_queue_def)

lemma server_send_effect:
  assumes "Multi_Send e t = (b, t')" and "mt_hub t = Some hub" and "mt_endpoint t = Endpoint_Server"
  shows "mt_endpoint t' = Endpoint_Server"
    and "hub_toServer (hub_of t') = hub_toServer hub"
    and "client_queue c (hub_of t') = client_queue c hub @ filter (\<lambda>e. ev_peerId e = c) (if b then [e] else [])"
    and "b \<Longrightarrow> valid_envelope e"
  using assms by (auto simp: Multi_Send_def multi_send_failure_def Let_def routed_envelope_def hub_of_def
      split: if_splits)

lemma client_send_effect:
  assumes "Multi_Send e t = (b, t')" and "mt_hub t = Some hub" and "mt_endpoint t = Endpoint_Client"
  shows "mt_endpoint t' = Endpoint_Client" "mt_clientId t' = mt_clientId t"
    and "hub_toServer (hub_of t') = hub_toServer hub @ (if b then [e\<lparr>ev_peerId := mt_clientId t\<rparr>] else [])"
    and "client_queue c (hub_of t') = client_queue c hub"
    and "b \<Longrightarrow> valid_envelope e"
  using assms by (auto simp: Multi_Send_def multi_send_failure_def Let_def routed_envelope_def hub_of_def
      split: if_splits)

lemma poll_effect:
  assumes "Multi_Poll t = (r, t')" and "mt_hub t = Some hub" and "\<forall>e\<in>set (incoming t hub). valid_envelope e"
  shows "mt_endpoint t' = mt_endpoint t \<and> mt_clientId t' = mt_clientId t
     \<and> incoming t hub = (case r of Some e \<Rightarrow> [e] | None \<Rightarrow> []) @ incoming t (hub_of t')
     \<and> (hub_of t' = hub \<or> (\<exists>q. hub_of t' = set_incoming t q hub))"
proof (cases "incoming t hub")
  case Nil
  then show ?thesis using assms
    by (auto simp: Multi_Poll_def Let_def hub_of_def split: if_splits)
next
  case (Cons e rest)
  then show ?thesis using assms
    by (auto simp: Multi_Poll_def Let_def hub_of_def split: if_splits)
qed

lemma world_okD:
  assumes "world_ok w"
  shows "mt_endpoint (mw_server w) = Endpoint_Server" "mt_endpoint (mw_clients w c) = Endpoint_Client"
    "mt_clientId (mw_clients w c) = c"
    "filter (\<lambda>e. ev_peerId e = c) (mw_serverSent w) = mw_clientReceived w c @ client_queue c (mw_hub w)"
    "mw_clientSent w = mw_serverReceived w @ hub_toServer (mw_hub w)"
    "e \<in> set (mw_serverSent w) \<Longrightarrow> valid_envelope e" "e \<in> set (mw_clientSent w) \<Longrightarrow> valid_envelope e"
  using assms by (simp_all add: world_ok_def)

text \<open>A call of the server, and of a client, that moves the queues as the flows say.\<close>

lemma world_ok_server:
  assumes w: "world_ok w" and t: "mt_endpoint t = Endpoint_Server"
    and "\<And>c. client_queue c (hub_of t) = client_queue c (mw_hub w) @ filter (\<lambda>e. ev_peerId e = c) sent"
    and "hub_toServer (mw_hub w) = received @ hub_toServer (hub_of t)"
    and "\<And>e. e \<in> set sent \<Longrightarrow> valid_envelope e"
  shows "world_ok ((put_server t w)\<lparr>mw_serverSent := mw_serverSent w @ sent,
     mw_serverReceived := mw_serverReceived w @ received\<rparr>)"
  unfolding world_ok_def put_server_def using assms(3-5) t world_okD [OF w] by auto

lemma world_ok_client:
  assumes w: "world_ok w" and t: "mt_endpoint t = Endpoint_Client" "mt_clientId t = c"
    and "client_queue c (mw_hub w) = received @ client_queue c (hub_of t)"
    and "\<And>d. d \<noteq> c \<Longrightarrow> client_queue d (hub_of t) = client_queue d (mw_hub w)"
    and "hub_toServer (hub_of t) = hub_toServer (mw_hub w) @ sent"
    and "\<And>e. e \<in> set sent \<Longrightarrow> valid_envelope e"
  shows "world_ok ((put_client c t w)\<lparr>mw_clientSent := mw_clientSent w @ sent,
     mw_clientReceived := (mw_clientReceived w)(c := mw_clientReceived w c @ received)\<rparr>)"
  unfolding world_ok_def put_client_def using assms(4-7) t world_okD [OF w] by auto

lemma world_ok_step:
  assumes w: "world_ok w"
  shows "world_ok (multi_step call w)"
proof -
  note D = world_okD [OF w]
  have server: "mt_hub (server_of w) = Some (mw_hub w)" "mt_endpoint (server_of w) = Endpoint_Server"
    using D by (simp_all add: server_of_def)
  have client: "mt_hub (client_of c w) = Some (mw_hub w)" "mt_endpoint (client_of c w) = Endpoint_Client"
    "mt_clientId (client_of c w) = c" for c
    using D by (simp_all add: client_of_def)
  have valid: "\<forall>e\<in>set (incoming (server_of w) (mw_hub w)). valid_envelope e"
    using D(5,7) server by (auto simp: incoming_def)
  have valid_c: "\<forall>e\<in>set (incoming (client_of c w) (mw_hub w)). valid_envelope e" for c
  proof
    fix e assume "e \<in> set (incoming (client_of c w) (mw_hub w))"
    then have "e \<in> set (mw_clientReceived w c @ client_queue c (mw_hub w))" using client by (simp add: incoming_def)
    then have "e \<in> set (filter (\<lambda>e. ev_peerId e = c) (mw_serverSent w))" unfolding D(4) .
    then show "valid_envelope e" using D(6) by simp
  qed
  show ?thesis
  proof (cases call)
    case (Server_Sends e)
    obtain b t where t: "Multi_Send e (server_of w) = (b, t)" by fastforce
    note eff = server_send_effect [OF t server]
    have "world_ok ((put_server t w)\<lparr>mw_serverSent := mw_serverSent w @ (if b then [e] else []),
        mw_serverReceived := mw_serverReceived w @ []\<rparr>)"
      by (rule world_ok_server [OF w]) (use eff in \<open>auto split: if_splits\<close>)
    then show ?thesis by (simp add: Server_Sends t put_server_def)
  next
    case Server_Polls
    obtain r t where t: "Multi_Poll (server_of w) = (r, t)" by fastforce
    note eff = poll_effect [OF t server(1) valid]
    have "world_ok ((put_server t w)\<lparr>mw_serverSent := mw_serverSent w @ [],
        mw_serverReceived := mw_serverReceived w @ (case r of Some e \<Rightarrow> [e] | None \<Rightarrow> [])\<rparr>)"
      by (rule world_ok_server [OF w]) (use eff server in \<open>auto simp: incoming_def set_incoming_def\<close>)
    then show ?thesis by (simp add: Server_Polls t put_server_def)
  next
    case Server_Closes
    then show ?thesis
      using world_ok_server [OF w, of "Multi_Close (server_of w)" "[]" "[]"] server
      by (simp add: put_server_def Multi_Close_def hub_of_def)
  next
    case Server_Connects
    then show ?thesis
      using world_ok_server [OF w, of "snd (Multi_Connect (server_of w))" "[]" "[]"] server
      by (simp add: put_server_def Multi_Connect_def hub_of_def)
  next
    case (Client_Sends c e)
    obtain b t where t: "Multi_Send e (client_of c w) = (b, t)" by fastforce
    note eff = client_send_effect [OF t client(1,2)]
    have "world_ok ((put_client c t w)\<lparr>mw_clientSent := mw_clientSent w @ (if b then [e\<lparr>ev_peerId := c\<rparr>] else []),
        mw_clientReceived := (mw_clientReceived w)(c := mw_clientReceived w c @ [])\<rparr>)"
      by (rule world_ok_client [OF w]) (use eff client [of c] in \<open>auto split: if_splits\<close>)
    then show ?thesis by (simp add: Client_Sends t put_client_def)
  next
    case (Client_Polls c)
    obtain r t where t: "Multi_Poll (client_of c w) = (r, t)" by fastforce
    note eff = poll_effect [OF t client(1) valid_c]
    have "world_ok ((put_client c t w)\<lparr>mw_clientSent := mw_clientSent w @ [],
        mw_clientReceived := (mw_clientReceived w)(c := mw_clientReceived w c @ (case r of Some e \<Rightarrow> [e] | None \<Rightarrow> []))\<rparr>)"
      by (rule world_ok_client [OF w]) (use eff client [of c] in \<open>auto simp: incoming_def set_incoming_def\<close>)
    then show ?thesis by (simp add: Client_Polls t put_client_def)
  next
    case (Client_Closes c)
    then show ?thesis
      using world_ok_client [OF w, of "Multi_Close (client_of c w)" c "[]" "[]"] client [of c]
      by (simp add: put_client_def Multi_Close_def hub_of_def)
  next
    case (Client_Connects c)
    then show ?thesis
      using world_ok_client [OF w, of "snd (Multi_Connect (client_of c w))" c "[]" "[]"] client [of c]
      by (simp add: put_client_def Multi_Connect_def hub_of_def)
  qed
qed

lemma world_ok_run: "world_ok w \<Longrightarrow> world_ok (fold multi_step calls w)"
  by (induction calls arbitrary: w) (simp_all add: world_ok_step)

end
