(* ===== verification/Network_Properties.thy ===== *)
theory Network_Properties
  imports Kcp_States Kcp_Pair Loopback_Pair Multi_Client
begin

text \<open>
  The properties of the networking library: its wire formats, its in-memory transports, the signaling
  hub, and the transport over a data channel with the handshake that connects it.
\<close>

section \<open>Wire formats\<close>

text \<open>C22. A byte string is accepted as a transport packet exactly when it is the encoding of a valid
  envelope, and it decodes to that envelope; and a byte string is accepted as a signaling message
  exactly when it is the encoding of a valid message whose session identifier has at most 256 bytes.\<close>

theorem wire_formats_exact:
  "(pk_envelope (DecodeTransportPacket bs) = Some e
       \<longleftrightarrow> Ok (ValidateEnvelope e) \<and> bs = EncodeTransportPacket e)
   \<and> (sr_message (DeserializeRtcSignalingMessage bs) = Some m
       \<longleftrightarrow> ValidateRtcSignalingMessage m = Signal_NoError \<and> length (sg_sessionId m) \<le> 256
           \<and> bs = SerializeRtcSignalingMessage m)"
  using packet.dec_iff [of bs e] signal.dec_iff [of bs m] by auto

section \<open>In-memory transports\<close>

text \<open>C19. Over any calls on a pair of loopback endpoints, no envelope is invented or duplicated: what one
  endpoint accepted is what the other received, what is on its way, what is delayed, and as many
  dropped envelopes as the counter says. Without network conditions nothing is dropped or delayed, and
  the envelopes arrive in the order in which they were sent.\<close>

theorem loopback_conserves:
  fixes calls :: "(Endpoint \<times> loopback_call) list"
  defines "r c \<equiv> fold loopback_step calls (new_run c)"
  shows "(\<exists>dropped. mset (rn_accepted (r c) x) = mset (rn_received (r c) (other x))
        + mset (OutgoingQueue (endpoint_of x (rn_pair (r c))))
        + mset (DelayedOutgoingQueue (endpoint_of x (rn_pair (r c)))) + mset dropped
      \<and> length dropped = st_envelopesDroppedByCondition (lt_stats (endpoint_of x (rn_pair (r c)))))
     \<and> rn_accepted (r no_conditions) x =
         rn_received (r no_conditions) (other x) @ OutgoingQueue (endpoint_of x (rn_pair (r no_conditions)))"
proof -
  have "lt_conditions (endpoint_of x (rn_pair (r c))) = c
      \<and> sends (endpoint_of x (rn_pair (r c))) (rn_accepted (r c) x) (rn_received (r c) (other x))" for c
    using run_ok_run [OF run_ok_new, of c calls] by (simp add: run_ok_def Let_def r_def)
  then have "flow c (rn_accepted (r c) x) (rn_received (r c) (other x))
      (OutgoingQueue (endpoint_of x (rn_pair (r c)))) (DelayedOutgoingQueue (endpoint_of x (rn_pair (r c))))
      (dropped_count (endpoint_of x (rn_pair (r c))))" for c
    by (metis sends_def)
  from this [of c] this [of no_conditions] show ?thesis by (simp add: flow_def)
qed

text \<open>C20. Around a hub with any number of clients, over any calls: each client has received, in order, a
  beginning of what the server sent to it and nothing of any other client; and the server has received,
  in order, a beginning of what all clients sent, each envelope under the identifier of the client that
  sent it.\<close>

theorem multi_client_isolated:
  fixes calls :: "multi_call list" and c :: ClientId
  defines "w \<equiv> fold multi_step calls new_world"
  shows "filter (\<lambda>e. ev_peerId e = c) (mw_serverSent w) = mw_clientReceived w c @ client_queue c (mw_hub w)
     \<and> mw_clientSent w = mw_serverReceived w @ hub_toServer (mw_hub w)
     \<and> set (mw_clientReceived w c) \<subseteq> {e. ev_peerId e = c \<and> Ok (ValidateEnvelope e)}
     \<and> set (mw_serverReceived w) \<subseteq> {e. Ok (ValidateEnvelope e)}"
proof -
  note D = world_okD [OF world_ok_run [OF world_ok_new, of calls], folded w_def]
  have c: "set (mw_clientReceived w c) \<subseteq> set (filter (\<lambda>e. ev_peerId e = c) (mw_serverSent w))"
    unfolding D(4) by simp
  have s: "set (mw_serverReceived w) \<subseteq> set (mw_clientSent w)" unfolding D(5) by simp
  from c s D(6,7) have "set (mw_clientReceived w c) \<subseteq> {e. ev_peerId e = c \<and> Ok (ValidateEnvelope e)}"
    "set (mw_serverReceived w) \<subseteq> {e. Ok (ValidateEnvelope e)}" by auto
  with D(4) [of c] D(5) show ?thesis by simp
qed

section \<open>Signaling\<close>

text \<open>C26. The hub refuses what does not decode and what its sender is not registered for. Any other
  message it appends unchanged to the queue of its target, or of every other peer of the session for a
  target of zero, and to no other queue; it reports success exactly when there is a recipient.\<close>

theorem signal_routing_exact:
  assumes "distinct (map fst hub)"
  shows "case sr_message (DeserializeRtcSignalingMessage bytes) of
       None \<Rightarrow> Route bytes hub = (False, hub)
     | Some m \<Rightarrow>
         hub_queue p (snd (Route bytes hub)) =
           hub_queue p hub @ (if sender_registered m hub \<and> addressed m p hub then [bytes] else [])
         \<and> (fst (Route bytes hub) \<longleftrightarrow> sender_registered m hub \<and> (\<exists>q. addressed m q hub))"
  using Route_effect [of hub bytes p] assms by (simp add: um_ok_def)

definition sample_hub :: InMemoryRtcSignalingHub where
  "sample_hub = [(1, \<lparr>pq_sessionId = bytes_of ''s'', pq_incoming = []\<rparr>),
     (2, \<lparr>pq_sessionId = bytes_of ''s'', pq_incoming = []\<rparr>)]"

definition sample_signal :: RtcSignalingMessage where
  "sample_signal = \<lparr>sg_kind = Sig_Join, sg_senderPeerId = 1, sg_targetPeerId = 0, sg_sequence = 1,
     sg_sessionId = bytes_of ''s'', sg_payload = []\<rparr>"

theorem signal_routing_exact_witness:
  "hub_queue 2 (snd (Route (SerializeRtcSignalingMessage sample_signal) sample_hub)) =
     [SerializeRtcSignalingMessage sample_signal]"
proof -
  have "sr_message (DeserializeRtcSignalingMessage (SerializeRtcSignalingMessage sample_signal)) = Some sample_signal"
    by (rule signal.round_trip) (simp add: sample_signal_def valid_signal_iff bytes_of_def)
  moreover have "distinct (map fst sample_hub)" by (simp add: sample_hub_def)
  ultimately show ?thesis
    using signal_routing_exact [of sample_hub "SerializeRtcSignalingMessage sample_signal" 2]
    by (simp add: sender_registered_def addressed_def hub_queue_def sample_hub_def sample_signal_def)
qed

section \<open>The transport over a data channel\<close>

text \<open>C18. Whatever calls a transport gets, in any order and with any envelopes, signals and frames: its
  state is the one of its phase; the buffered byte count is the number of bytes of the queued frames and
  within the configured limit; every queued frame is the packet of a valid envelope, and every envelope
  to be polled is valid; every queued signal carries its own identifier and session and the signals are
  numbered consecutively; and its remote peer is never itself.\<close>

theorem kcp_state_well_formed:
  assumes "kcp_reachable config t"
  shows "kt_config t = config \<and> kt_state t = phase_state (kt_phase t)
     \<and> kt_bufferedOutgoingFrameBytes t = sum_list (map length (kt_outgoingFrames t))
     \<and> kt_bufferedOutgoingFrameBytes t \<le> kc_maxBufferedAmountBytes config
     \<and> set (kt_outgoingFrames t) \<subseteq> EncodeTransportPacket ` {e. Ok (ValidateEnvelope e)}
     \<and> set (kt_incomingEnvelopes t) \<subseteq> {e. Ok (ValidateEnvelope e)}
     \<and> set (kt_outgoingSignals t) \<subseteq> {m. sg_senderPeerId m = kc_localPeerId config \<and> sg_sessionId m = kc_sessionId config}
     \<and> map sg_sequence (kt_outgoingSignals t) =
         sequence_before (kt_nextSignalSequence t) (length (kt_outgoingSignals t))
     \<and> (kt_remotePeerId t = 0 \<or> kt_remotePeerId t \<noteq> kc_localPeerId config)"
  using kcp_reachable_inv [OF assms] by (auto simp: kcp_ok_def signals_ok_def own_signal_def)

theorem kcp_state_well_formed_witness:
  "\<exists>t. kcp_reachable default_KcpConfig t \<and> kt_phase t = Phase_Failed \<and> kt_state t = Failed"
proof -
  let ?t = "snd (Kcp_Connect (new_KcpRtcTransport default_KcpConfig))"
  have "kcp_reachable default_KcpConfig ?t"
    by (rule kcp_reachable.step [OF kcp_reachable.init kcp_step.connect [OF surjective_pairing]])
  moreover have "kt_phase ?t = Phase_Failed"
    by (simp add: Kcp_Connect_def HasValidConfig_def new_KcpRtcTransport_def default_KcpConfig_def)
  ultimately show ?thesis using kcp_state_well_formed [of default_KcpConfig ?t] by auto
qed

text \<open>C11. The handshake connects: for every configuration the signaling messages can carry, connecting
  both ends of an in-memory pair and updating the client, the server and the client once more returns,
  and leaves both ends connected under their own configuration, with nothing on its way: no signal at an
  end or in the hub, no frame at an end or in the data channels, and no envelope that has arrived.\<close>

theorem kcp_handshake_connects:
  assumes "pair_config_ok config"
  shows "\<exists>w. handshake (CreateInMemoryKcpRtcTransportPair config) = Some w \<and> rw_channel w = empty_ChannelShared
     \<and> (\<forall>e. kt_state (pt_transport (rw_end e w)) = Connected
          \<and> kt_phase (pt_transport (rw_end e w)) = Phase_Connected
          \<and> kt_config (pt_transport (rw_end e w)) = end_config config e
          \<and> hub_queue (peer_id config e) (rw_hub w) = []
          \<and> kt_outgoingSignals (pt_transport (rw_end e w)) = []
          \<and> kt_outgoingFrames (pt_transport (rw_end e w)) = []
          \<and> kt_incomingEnvelopes (pt_transport (rw_end e w)) = [])"
proof -
  obtain w where w: "handshake (CreateInMemoryKcpRtcTransportPair config) = Some w"
    "pair_connected config w (\<lambda>_. [])" using handshake_connects [OF assms] by blast
  moreover have "kt_phase t = Phase_Connected" if "link_ok config e t []" for t e
    using that by (cases "kt_phase t") (auto simp: link_ok_def kcp_ok_def)
  ultimately show ?thesis using pair_connected_idle [OF w(2)] by (auto simp: link_ok_def)
qed

lemma default_PairConfig_ok: "pair_config_ok default_PairConfig"
  by (simp add: pair_config_ok_def default_PairConfig_def bytes_of_def kMaxRtcSignalingPayloadBytes_def)

theorem kcp_handshake_connects_witness:
  "\<exists>w. handshake (CreateInMemoryKcpRtcTransportPair default_PairConfig) = Some w
     \<and> kt_state (pt_transport (rw_end Server_End w)) = Connected"
  using kcp_handshake_connects [OF default_PairConfig_ok] by blast

text \<open>C12. Once connected, the pair is two queues: every sequence of updates, sends and polls on the two
  ends returns, with exactly the results of a specification that keeps one queue of envelopes for each
  end, in which a send is accepted when the envelope is valid and its packet fits in the buffer.\<close>

theorem kcp_link_refines_queues:
  assumes "pair_config_ok config"
  shows "\<exists>w. handshake (CreateInMemoryKcpRtcTransportPair config) = Some w
     \<and> pair_calls calls w = Some (link_calls config calls (\<lambda>_. []))"
  using handshake_connects [OF assms] pair_calls_refine [OF assms] by blast

definition sample_envelope :: NetworkEnvelope where
  "sample_envelope = \<lparr>ev_protocolVersion = kProtocolVersion, ev_peerId = 0, ev_channel = Ch_MovementInput,
     ev_messageClass = Mc_ClientInput, ev_sequence = 1, ev_payload = [1, 2, 3]\<rparr>"

lemma sample_envelope_fits: "fits default_PairConfig sample_envelope"
  by (simp add: fits_def sample_envelope_def valid_envelope_iff kMaxNetworkPayloadBytes_def
      EncodeTransportPacket_def WritePod_def default_PairConfig_def)

theorem kcp_link_refines_queues_witness:
  "\<exists>w. handshake (CreateInMemoryKcpRtcTransportPair default_PairConfig) = Some w
     \<and> pair_calls [Link_Send Client_End sample_envelope, Link_Update Server_End, Link_Poll Server_End] w
         = Some [Sent True, Updated, Polled (Some sample_envelope)]"
  using kcp_link_refines_queues [OF default_PairConfig_ok,
      of "[Link_Send Client_End sample_envelope, Link_Update Server_End, Link_Poll Server_End]"]
  by (simp add: sample_envelope_fits)

end
