(* ===== verification/Floats.thy ===== *)
theory Floats
  imports Game_Types
begin

text \<open>
  Floating-point arithmetic, single and double precision, as a parameter: the record of the operations
  the source uses. Nothing in the development depends on their results, so what is proved holds for IEEE
  rounding, infinities and NaN alike. \<open>fl_ratio n d\<close> is the literal of value \<open>n / d\<close>; the conversions to
  words are \<open>static_cast\<close>s.
\<close>

record 'f float_ops =
  fl_add :: "'f \<Rightarrow> 'f \<Rightarrow> 'f"
  fl_sub :: "'f \<Rightarrow> 'f \<Rightarrow> 'f"
  fl_mul :: "'f \<Rightarrow> 'f \<Rightarrow> 'f"
  fl_div :: "'f \<Rightarrow> 'f \<Rightarrow> 'f"
  fl_less :: "'f \<Rightarrow> 'f \<Rightarrow> bool"
  fl_leq :: "'f \<Rightarrow> 'f \<Rightarrow> bool"
  fl_sqrt :: "'f \<Rightarrow> 'f"
  fl_floor :: "'f \<Rightarrow> 'f"
  fl_ceil :: "'f \<Rightarrow> 'f"
  fl_ratio :: "nat \<Rightarrow> nat \<Rightarrow> 'f"
  fl_of_int :: "int \<Rightarrow> 'f"
  fl_to_u8 :: "'f \<Rightarrow> u8"
  fl_to_u16 :: "'f \<Rightarrow> u16"
  fl_to_i16 :: "'f \<Rightarrow> i16"
  fl_to_i32 :: "'f \<Rightarrow> i32"

text \<open>\<open>std::clamp\<close>.\<close>

definition fl_clamp :: "'f float_ops \<Rightarrow> 'f \<Rightarrow> 'f \<Rightarrow> 'f \<Rightarrow> 'f" where
  "fl_clamp F v lo hi = (if fl_less F v lo then lo else if fl_less F hi v then hi else v)"

text \<open>A literal below zero.\<close>

abbreviation fl_minus :: "'f float_ops \<Rightarrow> nat \<Rightarrow> 'f" where
  "fl_minus F n \<equiv> fl_of_int F (- int n)"

abbreviation fl_nat :: "'f float_ops \<Rightarrow> nat \<Rightarrow> 'f" where
  "fl_nat F n \<equiv> fl_ratio F n 1"

end
