(* ===== verification/Server_Runtime.thy ===== *)
theory Server_Runtime
  imports Sim_Invariants Sim_Snapshot Snapshot_Store Floats
begin

text \<open>
  \<open>src/Server/src/ServerRuntime.cpp\<close>: the authoritative simulation with its snapshot history for lag
  compensation, and \<open>SimulationOnlyClientDriver.cpp\<close>, which feeds it the input of a scripted client.
\<close>

section \<open>The runtime\<close>

record 'r ServerRuntime =
  sv_simulation :: "'r GameSimulation"
  sv_history :: LagCompensationHistory
  sv_nextSnapshotId :: SnapshotId
  sv_nextHistorySnapshotId :: SnapshotId

definition new_ServerRuntime :: "'r entt_ops \<Rightarrow> SimulationConfig \<Rightarrow> 'r ServerRuntime" where
  "new_ServerRuntime E config =
     \<lparr>sv_simulation = new_GameSimulation E (config\<lparr>sc_mode := ServerAuthoritative\<rparr>),
      sv_history = new_LagHistory 128, sv_nextSnapshotId = 1, sv_nextHistorySnapshotId = 1\<rparr>"

definition Runtime_ConnectClient ::
    "'r entt_ops \<Rightarrow> ClientId \<Rightarrow> TimestampMs \<Rightarrow> 'r ServerRuntime \<Rightarrow> bool \<times> 'r ServerRuntime" where
  "Runtime_ConnectClient E clientId clientTimestampMs v =
     (let login = \<lparr>lg_header = \<lparr>hd_clientId = clientId, hd_sequence = 0,
                                hd_clientTimestampMs = clientTimestampMs\<rparr>\<rparr>;
          (b, s) = SubmitLogin E login (sv_simulation v)
      in (b, v\<lparr>sv_simulation := s\<rparr>))"

definition Runtime_SubmitInput :: "ClientInputPacket \<Rightarrow> 'r ServerRuntime \<Rightarrow> bool \<times> 'r ServerRuntime" where
  "Runtime_SubmitInput packet v =
     (let (b, s) = SubmitInput packet (sv_simulation v) in (b, v\<lparr>sv_simulation := s\<rparr>))"

definition Runtime_Tick :: "'r entt_ops \<Rightarrow> 'r ServerRuntime \<Rightarrow> 'r ServerRuntime" where
  "Runtime_Tick E v =
     (let s = TickFixed E (sv_simulation v);
          snapshot = BuildSnapshot E s 0 (sv_nextHistorySnapshotId v) 0
      in v\<lparr>sv_simulation := s, sv_nextHistorySnapshotId := sv_nextHistorySnapshotId v + 1,
           sv_history := Record_history snapshot (sv_history v)\<rparr>)"

definition BuildSnapshotFor ::
    "'r entt_ops \<Rightarrow> ClientId \<Rightarrow> SnapshotId \<Rightarrow> 'r ServerRuntime \<Rightarrow> SnapshotDTO \<times> 'r ServerRuntime" where
  "BuildSnapshotFor E clientId baselineId v =
     (BuildSnapshot E (sv_simulation v) clientId (sv_nextSnapshotId v) baselineId,
      v\<lparr>sv_nextSnapshotId := sv_nextSnapshotId v + 1\<rparr>)"

definition HistoricalSnapshotAtOrBefore :: "TimestampMs \<Rightarrow> 'r ServerRuntime \<Rightarrow> SnapshotDTO option" where
  "HistoricalSnapshotAtOrBefore serverTimeMs v = ClosestAtOrBefore (sv_history v) serverTimeMs"

definition QueryLagCompensation ::
    "ClientInputPacket \<Rightarrow> i64 \<Rightarrow> 'r ServerRuntime \<Rightarrow> LagCompensationResult" where
  "QueryLagCompensation packet clientToServerOffsetMs v =
     Query default_LagConfig (sv_history v)
       \<lparr>lq_clientId = hd_clientId (ip_header packet), lq_sequence = hd_sequence (ip_header packet),
        lq_clientTimestampMs = hd_clientTimestampMs (ip_header packet),
        lq_clientToServerOffsetMs = clientToServerOffsetMs,
        lq_serverNowMs = gs_timeMs (sv_simulation v)\<rparr>"

definition Runtime_DrainEvents :: "'r ServerRuntime \<Rightarrow> EventList \<times> 'r ServerRuntime" where
  "Runtime_DrainEvents v =
     (let (events, s) = DrainEvents (sv_simulation v) in (events, v\<lparr>sv_simulation := s\<rparr>))"

section \<open>The scripted client\<close>

record SimulationOnlyClientDriverConfig =
  sd_clientId :: ClientId
  sd_targetClientId :: ClientId
  sd_firstFireAtMs :: TimestampMs
  sd_fireIntervalMs :: TimestampMs

record SimulationOnlyClientDriver =
  so_config :: SimulationOnlyClientDriverConfig
  so_nextSequence :: CommandSequence
  so_nextFireAtMs :: TimestampMs

definition new_SimulationOnlyClientDriver :: "SimulationOnlyClientDriverConfig \<Rightarrow> SimulationOnlyClientDriver" where
  "new_SimulationOnlyClientDriver config =
     \<lparr>so_config = config, so_nextSequence = 1, so_nextFireAtMs = sd_firstFireAtMs config\<rparr>"

text \<open>
  The aim is computed in double precision from the two positions, with \<open>None\<close> for a distance of at most a
  thousandth. \<open>BuildInput\<close> takes the computation as an argument; the program passes \<open>driver_aim\<close>.
\<close>

type_synonym aim_at = "MovementStateDTO \<Rightarrow> MovementStateDTO \<Rightarrow> (i16 \<times> i16) option"

definition AimComponentFromRatio :: "'f float_ops \<Rightarrow> 'f \<Rightarrow> i16" where
  "AimComponentFromRatio D ratio =
     fl_to_i16 D (fl_clamp D (fl_mul D ratio (fl_nat D 1000)) (fl_minus D 1000) (fl_nat D 1000))"

definition driver_aim :: "'f float_ops \<Rightarrow> aim_at" where
  "driver_aim D selfMovement targetMovement =
     (let dx = fl_sub D (fl_of_int D (sint (mv_x targetMovement))) (fl_of_int D (sint (mv_x selfMovement)));
          dy = fl_sub D (fl_of_int D (sint (mv_y targetMovement))) (fl_of_int D (sint (mv_y selfMovement)));
          len = fl_sqrt D (fl_add D (fl_mul D dx dx) (fl_mul D dy dy))
      in if fl_leq D len (fl_ratio D 1 1000) then None
         else Some (AimComponentFromRatio D (fl_div D dx len), AimComponentFromRatio D (fl_div D dy len)))"

definition BuildInput ::
    "'r entt_ops \<Rightarrow> aim_at \<Rightarrow> 'r ServerRuntime \<Rightarrow> bool \<Rightarrow> SimulationOnlyClientDriver \<Rightarrow> InputFrame" where
  "BuildInput E aim v shouldFire d =
     (let input = default_InputFrame\<lparr>if_aimX := 1000, if_fire := shouldFire\<rparr>; s = sv_simulation v
      in case (PlayerEntityForClient s (sd_clientId (so_config d)),
               PlayerEntityForClient s (sd_targetClientId (so_config d))) of
           (Some self, Some target) \<Rightarrow>
             (case (MovementForEntity E s self, MovementForEntity E s target) of
                (Some selfMovement, Some targetMovement) \<Rightarrow>
                  (case aim selfMovement targetMovement of
                     None \<Rightarrow> input
                   | Some (x, y) \<Rightarrow> input\<lparr>if_aimX := x, if_aimY := y\<rparr>)
              | _ \<Rightarrow> input)
         | _ \<Rightarrow> input)"

definition Driver_Tick ::
    "'r entt_ops \<Rightarrow> aim_at \<Rightarrow> TimestampMs \<Rightarrow> SimulationOnlyClientDriver \<Rightarrow> 'r ServerRuntime
     \<Rightarrow> bool \<times> SimulationOnlyClientDriver \<times> 'r ServerRuntime" where
  "Driver_Tick E aim nowMs d v =
     (let shouldFire = (nowMs \<ge> so_nextFireAtMs d);
          input = BuildInput E aim v shouldFire d;
          d = (if shouldFire then d\<lparr>so_nextFireAtMs := nowMs + sd_fireIntervalMs (so_config d)\<rparr> else d);
          packet = \<lparr>ip_header = \<lparr>hd_clientId = sd_clientId (so_config d), hd_sequence = so_nextSequence d,
                                 hd_clientTimestampMs = nowMs\<rparr>, ip_input = input\<rparr>;
          (b, v) = Runtime_SubmitInput packet v
      in (b, d\<lparr>so_nextSequence := so_nextSequence d + 1\<rparr>, v))"

section \<open>The invariant\<close>

definition runtime_ok :: "'r entt_ops \<Rightarrow> 'r ServerRuntime \<Rightarrow> bool" where
  "runtime_ok E v \<longleftrightarrow> config_ok (gs_config (sv_simulation v)) \<and> sim_ok E (sv_simulation v)
     \<and> length (lh_snapshots (sv_history v)) \<le> 128 \<and> lh_maxSnapshots (sv_history v) = 128"

lemma runtime_ok_new:
  assumes "entt_laws E" and "config_ok config"
  shows "runtime_ok E (new_ServerRuntime E config)"
proof -
  have "config_ok (config\<lparr>sc_mode := ServerAuthoritative\<rparr>)" using assms(2) by (simp add: config_ok_def)
  then show ?thesis using sim_ok_new [OF assms(1)]
    by (simp add: runtime_ok_def new_ServerRuntime_def new_GameSimulation_def new_LagHistory_def)
qed

lemma runtime_ok_ConnectClient:
  assumes "entt_laws E" and "runtime_ok E v" and "id_room (sv_simulation v)"
  shows "runtime_ok E (snd (Runtime_ConnectClient E c t v))"
proof -
  have "unat (gs_nextNetworkId (sv_simulation v)) + 1 < 2 ^ 32" using assms(3) by (simp add: id_room_def)
  with SubmitLogin_ok [OF assms(1)] assms(2) show ?thesis
    by (auto simp: Runtime_ConnectClient_def runtime_ok_def Let_def split_def)
qed

lemma runtime_ok_SubmitInput: "runtime_ok E v \<Longrightarrow> runtime_ok E (snd (Runtime_SubmitInput p v))"
  using SubmitInput_ok SubmitInput_frame(3) [of p "sv_simulation v"]
  by (auto simp: Runtime_SubmitInput_def runtime_ok_def split_def Let_def)

lemma runtime_ok_Tick:
  assumes "entt_laws E" and "runtime_ok E v" and "id_room (sv_simulation v)"
  shows "runtime_ok E (Runtime_Tick E v)"
  using TickFixed_ok [OF assms(1) _ _ assms(3)] assms(2)
  by (auto simp: Runtime_Tick_def runtime_ok_def Record_history_def Let_def)

lemma runtime_ok_BuildSnapshotFor: "runtime_ok E v \<Longrightarrow> runtime_ok E (snd (BuildSnapshotFor E c b v))"
  by (simp add: BuildSnapshotFor_def runtime_ok_def)

lemma runtime_ok_DrainEvents:
  assumes "runtime_ok E v" shows "runtime_ok E (snd (Runtime_DrainEvents v))"
proof -
  have "sim_ok E (sv_simulation v\<lparr>gs_events := []\<rparr>) \<longleftrightarrow> sim_ok E (sv_simulation v)"
    by (rule sim_ok_cong) (simp_all add: alive_def cm_def)
  with assms show ?thesis by (simp add: Runtime_DrainEvents_def DrainEvents_def runtime_ok_def)
qed

end
