(* ===== verification/Server_Replication.thy ===== *)
theory Server_Replication
  imports Interest Network_Events
begin

text \<open>
  \<open>src/Server/include/Server/ServerClientReplicationState.hpp\<close>: what the server remembers of each
  client it replicates to, the snapshot the client has acknowledged and the reliable events it has
  not acknowledged yet, with their resend schedule.
\<close>

section \<open>State\<close>

record PendingReliableEvent =
  pe_event :: NetworkEventDTO
  pe_firstSentAtMs :: TimestampMs
  pe_lastSentAtMs :: TimestampMs
  pe_sendCount :: u32

record ServerClientReplicationState =
  rs_clientId :: ClientId
  rs_ackedSnapshot :: SnapshotId
  rs_nextSnapshotSendAtMs :: TimestampMs
  rs_interest :: InterestTracker
  rs_pendingReliableEvents :: "(NetworkEventId, PendingReliableEvent) umap"

definition new_ReplicationState :: "ClientId \<Rightarrow> ServerClientReplicationState" where
  "new_ReplicationState clientId = \<lparr>rs_clientId = clientId, rs_ackedSnapshot = 0,
     rs_nextSnapshotSendAtMs = 0, rs_interest = new_InterestTracker, rs_pendingReliableEvents = []\<rparr>"

section \<open>Operations\<close>

definition AcknowledgeSnapshot ::
    "SnapshotId \<Rightarrow> ServerClientReplicationState \<Rightarrow> bool \<times> ServerClientReplicationState" where
  "AcknowledgeSnapshot snapshotId r =
     (if snapshotId \<le> rs_ackedSnapshot r then (False, r)
      else (True, r\<lparr>rs_ackedSnapshot := snapshotId\<rparr>))"

definition ShouldSendSnapshot_state :: "TimestampMs \<Rightarrow> ServerClientReplicationState \<Rightarrow> bool" where
  "ShouldSendSnapshot_state nowMs r \<longleftrightarrow> nowMs \<ge> rs_nextSnapshotSendAtMs r"

definition MarkSnapshotSent_state ::
    "TimestampMs \<Rightarrow> TimestampMs \<Rightarrow> ServerClientReplicationState \<Rightarrow> ServerClientReplicationState" where
  "MarkSnapshotSent_state nowMs intervalMs r = r\<lparr>rs_nextSnapshotSendAtMs := nowMs + intervalMs\<rparr>"

text \<open>
  \<open>pendingReliableEvents_[event.eventId]\<close> makes a default entry with a send count of zero, whose
  event is then overwritten; an entry that exists keeps its event and first sending time.
\<close>

definition TrackReliableEvent ::
    "NetworkEventDTO \<Rightarrow> TimestampMs \<Rightarrow> ServerClientReplicationState \<Rightarrow> ServerClientReplicationState" where
  "TrackReliableEvent event nowMs r =
     (let fresh = \<lparr>pe_event = event, pe_firstSentAtMs = nowMs, pe_lastSentAtMs = 0, pe_sendCount = 0\<rparr>;
          pending = (case um_find (rs_pendingReliableEvents r) (ne_eventId event) of
                       None \<Rightarrow> fresh
                     | Some p \<Rightarrow> if pe_sendCount p = 0
                                 then p\<lparr>pe_firstSentAtMs := nowMs, pe_event := event\<rparr> else p);
          pending = pending\<lparr>pe_lastSentAtMs := nowMs, pe_sendCount := pe_sendCount pending + 1\<rparr>
      in r\<lparr>rs_pendingReliableEvents := um_put (ne_eventId event) pending (rs_pendingReliableEvents r)\<rparr>)"

definition AcknowledgeReliableEvent ::
    "NetworkEventId \<Rightarrow> ServerClientReplicationState \<Rightarrow> bool \<times> ServerClientReplicationState" where
  "AcknowledgeReliableEvent eventId r =
     (um_contains (rs_pendingReliableEvents r) eventId,
      r\<lparr>rs_pendingReliableEvents := um_erase eventId (rs_pendingReliableEvents r)\<rparr>)"

definition PendingReliableEventCount :: "ServerClientReplicationState \<Rightarrow> nat" where
  "PendingReliableEventCount r = length (rs_pendingReliableEvents r)"

text \<open>Whether the loop body of \<open>ReliableEventsDueForResend\<close> takes a pending event; times wrap at 64 bits.\<close>

definition due_for_resend :: "TimestampMs \<Rightarrow> TimestampMs \<Rightarrow> u32 \<Rightarrow> PendingReliableEvent \<Rightarrow> bool" where
  "due_for_resend nowMs baseIntervalMs maxSendCount pending \<longleftrightarrow>
     (if maxSendCount \<noteq> 0 \<and> pe_sendCount pending \<ge> maxSendCount then False
      else
      let backoffShift = min (if pe_sendCount pending > 0 then pe_sendCount pending - 1 else 0) 4;
          resendDelayMs = push_bit (unat backoffShift) baseIntervalMs
      in nowMs \<ge> pe_lastSentAtMs pending + resendDelayMs)"

definition ReliableEventsDueForResend ::
    "TimestampMs \<Rightarrow> TimestampMs \<Rightarrow> u32 \<Rightarrow> ServerClientReplicationState \<Rightarrow> NetworkEventDTO list" where
  "ReliableEventsDueForResend nowMs baseIntervalMs maxSendCount r =
     map (pe_event \<circ> snd)
       (filter (due_for_resend nowMs baseIntervalMs maxSendCount \<circ> snd) (rs_pendingReliableEvents r))"

section \<open>The invariant\<close>

text \<open>
  Pending events are found under their own identifier, were sent at least once, and no more often
  than the limit when there is one.
\<close>

definition pending_ok :: "u32 \<Rightarrow> NetworkEventId \<Rightarrow> PendingReliableEvent \<Rightarrow> bool" where
  "pending_ok limit i p \<longleftrightarrow> ne_eventId (pe_event p) = i
     \<and> (limit \<noteq> 0 \<longrightarrow> 0 < pe_sendCount p \<and> pe_sendCount p \<le> limit)"

definition replication_ok :: "u32 \<Rightarrow> ServerClientReplicationState \<Rightarrow> bool" where
  "replication_ok limit r \<longleftrightarrow> um_ok (rs_pendingReliableEvents r)
     \<and> (\<forall>i p. um_find (rs_pendingReliableEvents r) i = Some p \<longrightarrow> pending_ok limit i p)"

lemma replication_ok_new: "replication_ok limit (new_ReplicationState c)"
  by (simp add: replication_ok_def new_ReplicationState_def)

lemma replication_ok_fields [simp]:
  "replication_ok limit (r\<lparr>rs_ackedSnapshot := a\<rparr>) = replication_ok limit r"
  "replication_ok limit (r\<lparr>rs_nextSnapshotSendAtMs := t\<rparr>) = replication_ok limit r"
  "replication_ok limit (r\<lparr>rs_interest := n\<rparr>) = replication_ok limit r"
  by (simp_all add: replication_ok_def)

lemma replication_ok_AcknowledgeReliableEvent:
  "replication_ok limit r \<Longrightarrow> replication_ok limit (snd (AcknowledgeReliableEvent i r))"
  by (auto simp: replication_ok_def AcknowledgeReliableEvent_def)

text \<open>An event may be tracked when it is new or was sent fewer times than the limit.\<close>

definition may_track :: "u32 \<Rightarrow> NetworkEventDTO \<Rightarrow> ServerClientReplicationState \<Rightarrow> bool" where
  "may_track limit event r \<longleftrightarrow>
     (case um_find (rs_pendingReliableEvents r) (ne_eventId event) of
        None \<Rightarrow> True | Some p \<Rightarrow> limit \<noteq> 0 \<longrightarrow> pe_sendCount p < limit)"

lemma u32_succ: "(x :: u32) < y \<Longrightarrow> 0 < x + 1 \<and> x + 1 \<le> y"
  by unat_arith

lemma replication_ok_TrackReliableEvent:
  assumes "replication_ok limit r" and "may_track limit event r"
  shows "replication_ok limit (TrackReliableEvent event nowMs r)"
proof -
  have "pending_ok limit i p"
    if "um_find (rs_pendingReliableEvents (TrackReliableEvent event nowMs r)) i = Some p" for i p
    using assms that u32_succ [of _ limit] u32_succ [of 0 limit]
    by (auto simp: replication_ok_def may_track_def TrackReliableEvent_def pending_ok_def Let_def word_gt_0
        split: if_splits option.splits)
  moreover have "um_ok (rs_pendingReliableEvents (TrackReliableEvent event nowMs r))"
    using assms by (simp add: replication_ok_def TrackReliableEvent_def Let_def)
  ultimately show ?thesis by (simp add: replication_ok_def)
qed

text \<open>What is due was sent fewer times than the limit, and its entry may be tracked again.\<close>

lemma due_may_track:
  assumes "replication_ok limit r" and "e \<in> set (ReliableEventsDueForResend now base limit r)"
  shows "may_track limit e r"
proof -
  from assms(2) obtain i p where p: "(i, p) \<in> set (rs_pendingReliableEvents r)" "e = pe_event p"
    "due_for_resend now base limit p" by (auto simp: ReliableEventsDueForResend_def)
  then have f: "um_find (rs_pendingReliableEvents r) i = Some p"
    using assms(1) by (simp add: replication_ok_def um_ok_find_iff)
  then have "ne_eventId e = i" using assms(1) p(2) by (auto simp: replication_ok_def pending_ok_def)
  then show ?thesis using f p(3) by (auto simp: may_track_def due_for_resend_def split: if_splits)
qed

end
