(* ===== verification/Server_Host.thy ===== *)
theory Server_Host
  imports Server_Runtime Server_Replication Transport Replication_Planner Snapshot_Delta Message_Codecs
begin

text \<open>
  \<open>src/Server/src/ServerNetworkHost.cpp\<close>: the server between its transport and its runtime. It polls
  client messages and handles them by class, ticks the simulation, and sends each client its
  snapshots and reliable events.

  The host holds a reference to a transport; its contents are the field \<open>nh_transport\<close>. The
  transport is any implementation \<open>T\<close> of the interface, and the poll loop is option-valued.
\<close>

section \<open>State\<close>

record ServerNetworkStats =
  ns_connectedClients :: nat
  ns_loginRequests :: nat
  ns_inputsReceived :: nat
  ns_snapshotAcksReceived :: nat
  ns_staleSnapshotAcksRejected :: nat
  ns_timeSyncRequestsReceived :: nat
  ns_timeSyncResponsesSent :: nat
  ns_reliableEventsSent :: nat
  ns_reliableEventsResent :: nat
  ns_reliableEventAcksReceived :: nat
  ns_staleReliableEventAcksRejected :: nat
  ns_snapshotsSent :: nat
  ns_snapshotsSkippedBySchedule :: nat
  ns_fullSnapshotsSent :: nat
  ns_deltaEligibleSnapshotsSent :: nat
  ns_baselineMisses :: nat
  ns_deltaPlaceholderSnapshotsPlanned :: nat
  ns_deltaPlaceholderAddedEntities :: nat
  ns_deltaPlaceholderChangedEntities :: nat
  ns_deltaPlaceholderRemovedEntities :: nat
  ns_deltaPlaceholderUnchangedEntities :: nat
  ns_snapshotEntitiesSent :: nat
  ns_snapshotEntitiesDropped :: nat
  ns_interestEnterEvents :: nat
  ns_interestStayEvents :: nat
  ns_interestExitEvents :: nat

definition zero_ServerNetworkStats :: ServerNetworkStats where
  "zero_ServerNetworkStats =
     \<lparr>ns_connectedClients = 0, ns_loginRequests = 0, ns_inputsReceived = 0, ns_snapshotAcksReceived = 0,
      ns_staleSnapshotAcksRejected = 0, ns_timeSyncRequestsReceived = 0, ns_timeSyncResponsesSent = 0,
      ns_reliableEventsSent = 0, ns_reliableEventsResent = 0, ns_reliableEventAcksReceived = 0,
      ns_staleReliableEventAcksRejected = 0, ns_snapshotsSent = 0, ns_snapshotsSkippedBySchedule = 0,
      ns_fullSnapshotsSent = 0, ns_deltaEligibleSnapshotsSent = 0, ns_baselineMisses = 0,
      ns_deltaPlaceholderSnapshotsPlanned = 0, ns_deltaPlaceholderAddedEntities = 0,
      ns_deltaPlaceholderChangedEntities = 0, ns_deltaPlaceholderRemovedEntities = 0,
      ns_deltaPlaceholderUnchangedEntities = 0, ns_snapshotEntitiesSent = 0, ns_snapshotEntitiesDropped = 0,
      ns_interestEnterEvents = 0, ns_interestStayEvents = 0, ns_interestExitEvents = 0\<rparr>"

record ServerNetworkHostConfig =
  nc_replication :: ReplicationPlannerConfig
  nc_baselines :: SnapshotBaselineCacheConfig
  nc_snapshotSendIntervalMs :: TimestampMs
  nc_reliableEventResendBaseIntervalMs :: TimestampMs
  nc_reliableEventMaxSendCount :: u32

definition default_HostConfig :: ServerNetworkHostConfig where
  "default_HostConfig = \<lparr>nc_replication = default_PlannerConfig, nc_baselines = default_BaselineConfig,
     nc_snapshotSendIntervalMs = 16, nc_reliableEventResendBaseIntervalMs = 250,
     nc_reliableEventMaxSendCount = 8\<rparr>"

record ('t, 'r) ServerNetworkHost =
  nh_transport :: 't
  nh_config :: ServerNetworkHostConfig
  nh_runtime :: "'r ServerRuntime"
  nh_baselineCache :: SnapshotBaselineCache
  nh_clients :: "ClientId list"
  nh_clientStateById :: "(ClientId, ServerClientReplicationState) umap"
  nh_drainedEvents :: EventList
  nh_nextNetworkEventId :: NetworkEventId
  nh_stats :: ServerNetworkStats

definition new_ServerNetworkHost ::
    "'r entt_ops \<Rightarrow> 't \<Rightarrow> ServerNetworkHostConfig \<Rightarrow> ('t, 'r) ServerNetworkHost" where
  "new_ServerNetworkHost E t config =
     \<lparr>nh_transport = t, nh_config = config, nh_runtime = new_ServerRuntime E default_SimulationConfig,
      nh_baselineCache = new_BaselineCache (nc_baselines config), nh_clients = [],
      nh_clientStateById = [], nh_drainedEvents = [], nh_nextNetworkEventId = 1,
      nh_stats = zero_ServerNetworkStats\<rparr>"

definition host_stat ::
    "(ServerNetworkStats \<Rightarrow> ServerNetworkStats) \<Rightarrow> ('t, 'r) ServerNetworkHost \<Rightarrow> ('t, 'r) ServerNetworkHost" where
  "host_stat f h = h\<lparr>nh_stats := f (nh_stats h)\<rparr>"

section \<open>Messages from clients\<close>

definition ConnectSimulationOnlyClient ::
    "'r entt_ops \<Rightarrow> ClientId \<Rightarrow> TimestampMs \<Rightarrow> ('t, 'r) ServerNetworkHost \<Rightarrow> bool \<times> ('t, 'r) ServerNetworkHost" where
  "ConnectSimulationOnlyClient E clientId nowMs h =
     (let (b, v) = Runtime_ConnectClient E clientId nowMs (nh_runtime h) in (b, h\<lparr>nh_runtime := v\<rparr>))"

definition HandleLoginEnvelope ::
    "'r entt_ops \<Rightarrow> NetworkEnvelope \<Rightarrow> ('t, 'r) ServerNetworkHost \<Rightarrow> ('t, 'r) ServerNetworkHost" where
  "HandleLoginEnvelope E envelope h =
     (case DeserializeLoginCommand (ev_payload envelope) of
        None \<Rightarrow> h
      | Some login \<Rightarrow>
          let h = host_stat (\<lambda>s. s\<lparr>ns_loginRequests := ns_loginRequests s + 1\<rparr>) h;
              clientId = hd_clientId (lg_header login);
              (accepted, v) = Runtime_ConnectClient E clientId (hd_clientTimestampMs (lg_header login)) (nh_runtime h);
              h = h\<lparr>nh_runtime := v\<rparr>
          in if \<not> accepted then h
             else if clientId \<notin> set (nh_clients h)
             then let h = h\<lparr>nh_clients := nh_clients h @ [clientId]\<rparr>;
                      h = (if um_contains (nh_clientStateById h) clientId then h
                           else h\<lparr>nh_clientStateById :=
                                    um_put clientId (new_ReplicationState clientId) (nh_clientStateById h)\<rparr>)
                  in host_stat (\<lambda>s. s\<lparr>ns_connectedClients := length (nh_clients h)\<rparr>) h
             else h)"

definition HandleInputEnvelope ::
    "NetworkEnvelope \<Rightarrow> ('t, 'r) ServerNetworkHost \<Rightarrow> ('t, 'r) ServerNetworkHost" where
  "HandleInputEnvelope envelope h =
     (case DeserializeClientInputPacket (ev_payload envelope) of
        None \<Rightarrow> h
      | Some packet \<Rightarrow>
          let (accepted, v) = Runtime_SubmitInput packet (nh_runtime h);
              h = h\<lparr>nh_runtime := v\<rparr>
          in if accepted then host_stat (\<lambda>s. s\<lparr>ns_inputsReceived := ns_inputsReceived s + 1\<rparr>) h else h)"

definition HandleSnapshotAckEnvelope ::
    "NetworkEnvelope \<Rightarrow> ('t, 'r) ServerNetworkHost \<Rightarrow> ('t, 'r) ServerNetworkHost" where
  "HandleSnapshotAckEnvelope envelope h =
     (case DeserializeSnapshotAck (ev_payload envelope) of
        None \<Rightarrow> h
      | Some ack \<Rightarrow>
          let stale = host_stat (\<lambda>s. s\<lparr>ns_staleSnapshotAcksRejected := ns_staleSnapshotAcksRejected s + 1\<rparr>)
          in case um_find (nh_clientStateById h) (sa_clientId ack) of
               None \<Rightarrow> stale h
             | Some state \<Rightarrow>
                 if Find_baseline (nh_baselineCache h) (sa_clientId ack) (sa_snapshotId ack) = None then stale h
                 else case AcknowledgeSnapshot (sa_snapshotId ack) state of
                        (False, state) \<Rightarrow> stale h
                      | (True, state) \<Rightarrow>
                          host_stat (\<lambda>s. s\<lparr>ns_snapshotAcksReceived := ns_snapshotAcksReceived s + 1\<rparr>)
                            (h\<lparr>nh_clientStateById := um_put (sa_clientId ack) state (nh_clientStateById h)\<rparr>))"

definition HandleNetworkEventAckEnvelope ::
    "NetworkEnvelope \<Rightarrow> ('t, 'r) ServerNetworkHost \<Rightarrow> ('t, 'r) ServerNetworkHost" where
  "HandleNetworkEventAckEnvelope envelope h =
     (case DeserializeNetworkEventAck (ev_payload envelope) of
        None \<Rightarrow> h
      | Some ack \<Rightarrow>
          let stale = host_stat (\<lambda>s. s\<lparr>ns_staleReliableEventAcksRejected := ns_staleReliableEventAcksRejected s + 1\<rparr>)
          in case um_find (nh_clientStateById h) (na_clientId ack) of
               None \<Rightarrow> stale h
             | Some state \<Rightarrow>
                 let (known, state) = AcknowledgeReliableEvent (na_eventId ack) state;
                     h = h\<lparr>nh_clientStateById := um_put (na_clientId ack) state (nh_clientStateById h)\<rparr>
                 in if \<not> known then stale h
                    else host_stat (\<lambda>s. s\<lparr>ns_reliableEventAcksReceived := ns_reliableEventAcksReceived s + 1\<rparr>) h)"

definition time_sync_response :: "TimeSyncRequest \<Rightarrow> TimestampMs \<Rightarrow> NetworkEnvelope" where
  "time_sync_response request serverNowMs =
     \<lparr>ev_protocolVersion = kProtocolVersion, ev_peerId = tq_clientId request, ev_channel = Ch_TimeSync,
      ev_messageClass = Mc_TimeSyncResponse, ev_sequence = tq_sequence request,
      ev_payload = SerializeTimeSyncResponse
        \<lparr>tr_clientId = tq_clientId request, tr_sequence = tq_sequence request,
         tr_clientSentAtMs = tq_clientSentAtMs request, tr_serverReceivedAtMs = serverNowMs,
         tr_serverSentAtMs = serverNowMs\<rparr>\<rparr>"

definition host_send ::
    "'t transport_ops \<Rightarrow> NetworkEnvelope \<Rightarrow> ('t, 'r) ServerNetworkHost \<Rightarrow> bool \<times> ('t, 'r) ServerNetworkHost" where
  "host_send T envelope h =
     (let (sent, t) = tp_send T envelope (nh_transport h) in (sent, h\<lparr>nh_transport := t\<rparr>))"

definition HandleTimeSyncEnvelope ::
    "'t transport_ops \<Rightarrow> NetworkEnvelope \<Rightarrow> ('t, 'r) ServerNetworkHost \<Rightarrow> ('t, 'r) ServerNetworkHost" where
  "HandleTimeSyncEnvelope T envelope h =
     (case DeserializeTimeSyncRequest (ev_payload envelope) of
        None \<Rightarrow> h
      | Some request \<Rightarrow>
          let h = host_stat (\<lambda>s. s\<lparr>ns_timeSyncRequestsReceived := ns_timeSyncRequestsReceived s + 1\<rparr>) h;
              (sent, h) = host_send T (time_sync_response request (gs_timeMs (sv_simulation (nh_runtime h)))) h
          in if sent then host_stat (\<lambda>s. s\<lparr>ns_timeSyncResponsesSent := ns_timeSyncResponsesSent s + 1\<rparr>) h else h)"

definition handle_message ::
    "'t transport_ops \<Rightarrow> 'r entt_ops \<Rightarrow> NetworkEnvelope \<Rightarrow> ('t, 'r) ServerNetworkHost \<Rightarrow> ('t, 'r) ServerNetworkHost" where
  "handle_message T E envelope h =
     (if \<not> Ok (ValidateEnvelope envelope) then h
      else case ev_messageClass envelope of
             Mc_LoginRequest \<Rightarrow> HandleLoginEnvelope E envelope h
           | Mc_ClientInput \<Rightarrow> HandleInputEnvelope envelope h
           | Mc_SnapshotAck \<Rightarrow> HandleSnapshotAckEnvelope envelope h
           | Mc_NetworkEventAck \<Rightarrow> HandleNetworkEventAckEnvelope envelope h
           | Mc_TimeSyncRequest \<Rightarrow> HandleTimeSyncEnvelope T envelope h
           | _ \<Rightarrow> h)"

definition host_poll ::
    "'t transport_ops \<Rightarrow> ('t, 'r) ServerNetworkHost \<Rightarrow> NetworkEnvelope option \<times> ('t, 'r) ServerNetworkHost" where
  "host_poll T h = (let (e, t) = tp_poll T (nh_transport h) in (e, h\<lparr>nh_transport := t\<rparr>))"

definition PumpClientMessages ::
    "'t transport_ops \<Rightarrow> 'r entt_ops \<Rightarrow> ('t, 'r) ServerNetworkHost \<Rightarrow> ('t, 'r) ServerNetworkHost option" where
  "PumpClientMessages T E h = poll_loop (host_poll T) (handle_message T E) h"

section \<open>Reliable events\<close>

fun event_channel :: "NetworkEventKind \<Rightarrow> NetworkChannel \<times> MessageClass" where
  "event_channel Kind_PlayerSpawned = (Ch_LoginSpawn, Mc_SpawnAccepted)"
| "event_channel Kind_EntityEnteredInterest = (Ch_LoginSpawn, Mc_InterestEvent)"
| "event_channel Kind_EntityLeftInterest = (Ch_LoginSpawn, Mc_InterestEvent)"
| "event_channel Kind_WeaponWarmupStarted = (Ch_CombatEvents, Mc_CombatEvent)"
| "event_channel Kind_BowFired = (Ch_CombatEvents, Mc_CombatEvent)"
| "event_channel Kind_ProjectileSpawned = (Ch_CombatEvents, Mc_CombatEvent)"
| "event_channel Kind_HitConfirmed = (Ch_CombatEvents, Mc_CombatEvent)"
| "event_channel Kind_PlayerDamaged = (Ch_CombatEvents, Mc_CombatEvent)"
| "event_channel Kind_PlayerDied = (Ch_CombatEvents, Mc_CombatEvent)"
| "event_channel Kind_PlayerRespawned = (Ch_CombatEvents, Mc_CombatEvent)"

definition event_envelope :: "ClientId \<Rightarrow> NetworkEventDTO \<Rightarrow> NetworkEnvelope" where
  "event_envelope clientId event =
     (let (channel, messageClass) = event_channel (KindForNetworkEvent event)
      in \<lparr>ev_protocolVersion = kProtocolVersion, ev_peerId = clientId, ev_channel = channel,
          ev_messageClass = messageClass, ev_sequence = ne_eventId event,
          ev_payload = SerializeNetworkEvent event\<rparr>)"

definition SendReliableEvent ::
    "'t transport_ops \<Rightarrow> ClientId \<Rightarrow> NetworkEventDTO \<Rightarrow> TimestampMs \<Rightarrow> bool
     \<Rightarrow> ('t, 'r) ServerNetworkHost \<Rightarrow> ('t, 'r) ServerNetworkHost" where
  "SendReliableEvent T clientId event nowMs isResend h =
     (let (sent, h) = host_send T (event_envelope clientId event) h
      in if \<not> sent then h
         else
         let h = (case um_find (nh_clientStateById h) clientId of
                    None \<Rightarrow> h
                  | Some state \<Rightarrow> h\<lparr>nh_clientStateById :=
                      um_put clientId (TrackReliableEvent event nowMs state) (nh_clientStateById h)\<rparr>);
             h = host_stat (\<lambda>s. s\<lparr>ns_reliableEventsSent := ns_reliableEventsSent s + 1\<rparr>) h
         in if isResend then host_stat (\<lambda>s. s\<lparr>ns_reliableEventsResent := ns_reliableEventsResent s + 1\<rparr>) h
            else h)"

definition next_event ::
    "DomainEvent \<Rightarrow> ('t, 'r) ServerNetworkHost \<Rightarrow> NetworkEventDTO option \<times> ('t, 'r) ServerNetworkHost" where
  "next_event event h =
     (ToNetworkEventDTO (nh_nextNetworkEventId h) (gs_tick (sv_simulation (nh_runtime h)))
        (gs_timeMs (sv_simulation (nh_runtime h))) event,
      h\<lparr>nh_nextNetworkEventId := nh_nextNetworkEventId h + 1\<rparr>)"

text \<open>The client that alone observes an event, if there is one.\<close>

fun observer_only :: "NetworkEventPayloadDTO \<Rightarrow> ClientId option" where
  "observer_only (EntityEnteredInterestEventDTO e c) = Some c"
| "observer_only (EntityLeftInterestEventDTO e c) = Some c"
| "observer_only _ = None"

definition broadcast_event ::
    "'t transport_ops \<Rightarrow> TimestampMs \<Rightarrow> DomainEvent \<Rightarrow> ('t, 'r) ServerNetworkHost \<Rightarrow> ('t, 'r) ServerNetworkHost" where
  "broadcast_event T nowMs event h =
     (case next_event event h of
        (None, h) \<Rightarrow> h
      | (Some networkEvent, h) \<Rightarrow>
          let observerOnly = observer_only (ne_payload networkEvent)
          in fold (\<lambda>clientId h.
               if observerOnly \<noteq> None \<and> observerOnly \<noteq> Some clientId then h
               else SendReliableEvent T clientId networkEvent nowMs False h) (nh_clients h) h)"

definition BroadcastReliableEvents ::
    "'t transport_ops \<Rightarrow> EventList \<Rightarrow> TimestampMs \<Rightarrow> ('t, 'r) ServerNetworkHost \<Rightarrow> ('t, 'r) ServerNetworkHost" where
  "BroadcastReliableEvents T events nowMs h = fold (broadcast_event T nowMs) events h"

text \<open>
  The loop runs over the clients' states, and each send changes the state of its own client only;
  the due events of a client are collected before they are sent.
\<close>

definition resend_client ::
    "'t transport_ops \<Rightarrow> TimestampMs \<Rightarrow> ClientId \<Rightarrow> ('t, 'r) ServerNetworkHost \<Rightarrow> ('t, 'r) ServerNetworkHost" where
  "resend_client T nowMs clientId h =
     (case um_find (nh_clientStateById h) clientId of
        None \<Rightarrow> h
      | Some state \<Rightarrow>
          fold (\<lambda>event. SendReliableEvent T clientId event nowMs True)
            (ReliableEventsDueForResend nowMs (nc_reliableEventResendBaseIntervalMs (nh_config h))
               (nc_reliableEventMaxSendCount (nh_config h)) state) h)"

definition ResendPendingReliableEvents ::
    "'t transport_ops \<Rightarrow> TimestampMs \<Rightarrow> ('t, 'r) ServerNetworkHost \<Rightarrow> ('t, 'r) ServerNetworkHost" where
  "ResendPendingReliableEvents T nowMs h = fold (resend_client T nowMs) (map fst (nh_clientStateById h)) h"

definition send_interest ::
    "'t transport_ops \<Rightarrow> ClientId \<Rightarrow> TimestampMs \<Rightarrow> DomainEvent \<Rightarrow> ('t, 'r) ServerNetworkHost
     \<Rightarrow> ('t, 'r) ServerNetworkHost" where
  "send_interest T clientId nowMs event h =
     (case next_event event h of
        (None, h) \<Rightarrow> h
      | (Some networkEvent, h) \<Rightarrow> SendReliableEvent T clientId networkEvent nowMs False h)"

definition SendInterestEvents ::
    "'t transport_ops \<Rightarrow> ClientId \<Rightarrow> InterestFrame \<Rightarrow> TimestampMs \<Rightarrow> ('t, 'r) ServerNetworkHost
     \<Rightarrow> ('t, 'r) ServerNetworkHost" where
  "SendInterestEvents T clientId interestFrame nowMs h =
     (let h = fold (\<lambda>entityId. send_interest T clientId nowMs (EntityEnteredInterest entityId clientId))
                (fr_entered interestFrame) h
      in fold (\<lambda>entityId. send_interest T clientId nowMs (EntityLeftInterest entityId clientId))
           (fr_exited interestFrame) h)"

section \<open>Snapshots\<close>

definition host_ShouldSendSnapshot :: "ClientId \<Rightarrow> TimestampMs \<Rightarrow> ('t, 'r) ServerNetworkHost \<Rightarrow> bool" where
  "host_ShouldSendSnapshot clientId nowMs h =
     (case um_find (nh_clientStateById h) clientId of
        None \<Rightarrow> True | Some state \<Rightarrow> ShouldSendSnapshot_state nowMs state)"

definition host_MarkSnapshotSent ::
    "ClientId \<Rightarrow> TimestampMs \<Rightarrow> ('t, 'r) ServerNetworkHost \<Rightarrow> ('t, 'r) ServerNetworkHost" where
  "host_MarkSnapshotSent clientId nowMs h =
     (case um_find (nh_clientStateById h) clientId of
        None \<Rightarrow> h
      | Some state \<Rightarrow> h\<lparr>nh_clientStateById := um_put clientId
          (MarkSnapshotSent_state nowMs (nc_snapshotSendIntervalMs (nh_config h)) state) (nh_clientStateById h)\<rparr>)"

definition snapshot_envelope :: "ClientId \<Rightarrow> SnapshotDTO \<Rightarrow> NetworkEnvelope" where
  "snapshot_envelope clientId snapshot =
     \<lparr>ev_protocolVersion = kProtocolVersion, ev_peerId = clientId, ev_channel = Ch_Snapshots,
      ev_messageClass = Mc_Snapshot, ev_sequence = sn_snapshotId snapshot,
      ev_payload = SerializeSnapshot snapshot\<rparr>"

text \<open>The baseline the client has acknowledged, zero for a client without a state.\<close>

definition requested_baseline :: "ClientId \<Rightarrow> ('t, 'r) ServerNetworkHost \<Rightarrow> SnapshotId" where
  "requested_baseline clientId h =
     (case um_find (nh_clientStateById h) clientId of None \<Rightarrow> 0 | Some state \<Rightarrow> rs_ackedSnapshot state)"

definition plan_snapshot ::
    "'r entt_ops \<Rightarrow> ClientId \<Rightarrow> ('t, 'r) ServerNetworkHost \<Rightarrow> PlannedSnapshot \<times> ('t, 'r) ServerNetworkHost" where
  "plan_snapshot E clientId h =
     (let decision = Decide (nh_baselineCache h) clientId (requested_baseline clientId h);
          (snapshot, v) = BuildSnapshotFor E clientId (bd_effectiveBaselineId decision) (nh_runtime h);
          snapshot = snapshot\<lparr>sn_deliveryKind := bd_deliveryKind decision\<rparr>
      in (Plan (nc_replication (nh_config h)) snapshot clientId, h\<lparr>nh_runtime := v\<rparr>))"

definition count_delta ::
    "ClientId \<Rightarrow> PlannedSnapshot \<Rightarrow> ('t, 'r) ServerNetworkHost \<Rightarrow> ('t, 'r) ServerNetworkHost" where
  "count_delta clientId planned h =
     (if sn_deliveryKind (pl_snapshot planned) = DeltaEligible
      then case Find_baseline (nh_baselineCache h) clientId (sn_baselineId (pl_snapshot planned)) of
             None \<Rightarrow> h
           | Some baseline \<Rightarrow>
               let deltaPlan = PlanSnapshotDelta (pl_snapshot planned) baseline
               in if dp_baselineMatched deltaPlan
                  then host_stat (\<lambda>s. s\<lparr>
                     ns_deltaPlaceholderSnapshotsPlanned := ns_deltaPlaceholderSnapshotsPlanned s + 1,
                     ns_deltaPlaceholderAddedEntities := ns_deltaPlaceholderAddedEntities s + dp_addedCount deltaPlan,
                     ns_deltaPlaceholderChangedEntities := ns_deltaPlaceholderChangedEntities s + dp_changedCount deltaPlan,
                     ns_deltaPlaceholderRemovedEntities := ns_deltaPlaceholderRemovedEntities s + dp_removedCount deltaPlan,
                     ns_deltaPlaceholderUnchangedEntities := ns_deltaPlaceholderUnchangedEntities s + dp_unchangedCount deltaPlan\<rparr>) h
                  else h
      else h)"

definition update_interest ::
    "'t transport_ops \<Rightarrow> ClientId \<Rightarrow> SnapshotDTO \<Rightarrow> TimestampMs \<Rightarrow> ('t, 'r) ServerNetworkHost
     \<Rightarrow> ('t, 'r) ServerNetworkHost" where
  "update_interest T clientId snapshot nowMs h =
     (case um_find (nh_clientStateById h) clientId of
        None \<Rightarrow> h
      | Some state \<Rightarrow>
          let (interestFrame, tracker) = Update_interest snapshot (rs_interest state);
              h = h\<lparr>nh_clientStateById :=
                      um_put clientId (state\<lparr>rs_interest := tracker\<rparr>) (nh_clientStateById h)\<rparr>;
              h = host_stat (\<lambda>s. s\<lparr>
                ns_interestEnterEvents := ns_interestEnterEvents s + length (fr_entered interestFrame),
                ns_interestStayEvents := ns_interestStayEvents s + length (fr_stayed interestFrame),
                ns_interestExitEvents := ns_interestExitEvents s + length (fr_exited interestFrame)\<rparr>) h
          in SendInterestEvents T clientId interestFrame nowMs h)"

definition SendSnapshot ::
    "'t transport_ops \<Rightarrow> 'r entt_ops \<Rightarrow> ClientId \<Rightarrow> TimestampMs \<Rightarrow> ('t, 'r) ServerNetworkHost
     \<Rightarrow> bool \<times> ('t, 'r) ServerNetworkHost" where
  "SendSnapshot T E clientId nowMs h =
     (let requestedBaselineId = requested_baseline clientId h;
          baselineDecision = Decide (nh_baselineCache h) clientId requestedBaselineId;
          (planned, h) = plan_snapshot E clientId h;
          h = count_delta clientId planned h;
          (sent, h) = host_send T (snapshot_envelope clientId (pl_snapshot planned)) h
      in if \<not> sent then (False, h)
         else
         let h = update_interest T clientId (pl_snapshot planned) nowMs h;
             h = h\<lparr>nh_baselineCache := Store clientId (pl_snapshot planned) (nh_baselineCache h)\<rparr>;
             h = host_stat (\<lambda>s. s\<lparr>ns_snapshotsSent := ns_snapshotsSent s + 1\<rparr>) h;
             h = (if sn_deliveryKind (pl_snapshot planned) = DeltaEligible
                  then host_stat (\<lambda>s. s\<lparr>ns_deltaEligibleSnapshotsSent := ns_deltaEligibleSnapshotsSent s + 1\<rparr>) h
                  else host_stat (\<lambda>s. s\<lparr>ns_fullSnapshotsSent := ns_fullSnapshotsSent s + 1\<rparr>) h);
             h = (if requestedBaselineId \<noteq> 0 \<and> \<not> bd_baselineAvailable baselineDecision
                  then host_stat (\<lambda>s. s\<lparr>ns_baselineMisses := ns_baselineMisses s + 1\<rparr>) h else h)
         in (True, host_stat (\<lambda>s. s\<lparr>
              ns_snapshotEntitiesSent := ns_snapshotEntitiesSent s + ps_outputEntityCount (pl_stats planned),
              ns_snapshotEntitiesDropped := ns_snapshotEntitiesDropped s + ps_droppedEntityCount (pl_stats planned)\<rparr>) h))"

definition snapshot_turn ::
    "'t transport_ops \<Rightarrow> 'r entt_ops \<Rightarrow> TimestampMs \<Rightarrow> ClientId \<Rightarrow> ('t, 'r) ServerNetworkHost
     \<Rightarrow> ('t, 'r) ServerNetworkHost" where
  "snapshot_turn T E nowMs clientId h =
     (if \<not> host_ShouldSendSnapshot clientId nowMs h
      then host_stat (\<lambda>s. s\<lparr>ns_snapshotsSkippedBySchedule := ns_snapshotsSkippedBySchedule s + 1\<rparr>) h
      else case SendSnapshot T E clientId nowMs h of
             (True, h) \<Rightarrow> host_MarkSnapshotSent clientId nowMs h
           | (False, h) \<Rightarrow> h)"

definition TickAndSendSnapshots ::
    "'t transport_ops \<Rightarrow> 'r entt_ops \<Rightarrow> TimestampMs \<Rightarrow> ('t, 'r) ServerNetworkHost \<Rightarrow> ('t, 'r) ServerNetworkHost" where
  "TickAndSendSnapshots T E nowMs h =
     (let h = h\<lparr>nh_runtime := Runtime_Tick E (nh_runtime h)\<rparr>;
          (tickEvents, v) = Runtime_DrainEvents (nh_runtime h);
          h = h\<lparr>nh_runtime := v\<rparr>;
          h = fold (snapshot_turn T E nowMs) (nh_clients h) h;
          h = BroadcastReliableEvents T tickEvents nowMs h;
          h = ResendPendingReliableEvents T nowMs h
      in h\<lparr>nh_drainedEvents := nh_drainedEvents h @ tickEvents\<rparr>)"

definition host_DrainEvents :: "('t, 'r) ServerNetworkHost \<Rightarrow> EventList \<times> ('t, 'r) ServerNetworkHost" where
  "host_DrainEvents h = (nh_drainedEvents h, h\<lparr>nh_drainedEvents := []\<rparr>)"

end
