(* ===== verification/Server_App.thy ===== *)
theory Server_App
  imports Server_Host
begin

text \<open>
  \<open>src/Server/src/ServerApplication.cpp\<close>: starting and stopping the server and its tick loop; and what
  every operation of the server host keeps, on any transport that keeps its contract.

  The application owns the transport and the host refers to it. The model keeps the transport in
  \<open>sa_transport\<close> and fills it into the host for the time of a tick.
\<close>

section \<open>The application\<close>

record ServerApplicationConfig =
  sp_tickDurationMs :: TimestampMs
  sp_network :: ServerNetworkHostConfig

definition default_ServerApplicationConfig :: ServerApplicationConfig where
  "default_ServerApplicationConfig = \<lparr>sp_tickDurationMs = 16, sp_network = default_HostConfig\<rparr>"

record ServerApplicationStats =
  as_ticksRun :: Tick
  as_running :: bool
  as_network :: ServerNetworkStats

record ('t, 'r) ServerApplication =
  sa_transport :: "'t option"
  sa_config :: ServerApplicationConfig
  sa_networkHost :: "('t, 'r) ServerNetworkHost option"
  sa_ticksRun :: Tick
  sa_running :: bool

definition new_ServerApplication :: "'t option \<Rightarrow> ServerApplicationConfig \<Rightarrow> ('t, 'r) ServerApplication" where
  "new_ServerApplication t config = \<lparr>sa_transport = t, sa_config = config, sa_networkHost = None,
     sa_ticksRun = 0, sa_running = False\<rparr>"

definition Start ::
    "'t transport_ops \<Rightarrow> 'r entt_ops \<Rightarrow> ('t, 'r) ServerApplication \<Rightarrow> bool \<times> ('t, 'r) ServerApplication" where
  "Start T E a =
     (case sa_transport a of
        None \<Rightarrow> (False, a)
      | Some t \<Rightarrow>
          (case tp_connect T t of
             (False, t) \<Rightarrow> (False, a\<lparr>sa_transport := Some t\<rparr>)
           | (True, t) \<Rightarrow> (True, a\<lparr>sa_transport := Some t,
               sa_networkHost := Some (new_ServerNetworkHost E t (sp_network (sa_config a))),
               sa_running := True\<rparr>)))"

definition RequestStop :: "'t transport_ops \<Rightarrow> ('t, 'r) ServerApplication \<Rightarrow> ('t, 'r) ServerApplication" where
  "RequestStop T a = a\<lparr>sa_running := False, sa_transport := map_option (tp_close T) (sa_transport a)\<rparr>"

definition TickOnce ::
    "'t transport_ops \<Rightarrow> 'r entt_ops \<Rightarrow> TimestampMs \<Rightarrow> ('t, 'r) ServerApplication
     \<Rightarrow> ('t, 'r) ServerApplication option" where
  "TickOnce T E nowMs a =
     (case (sa_running a, sa_transport a, sa_networkHost a) of
        (True, Some t, Some h) \<Rightarrow> do {
          let h = h\<lparr>nh_transport := tp_update T t\<rparr>;
          h \<leftarrow> PumpClientMessages T E h;
          let h = TickAndSendSnapshots T E nowMs h;
          Some (a\<lparr>sa_transport := Some (nh_transport h), sa_networkHost := Some h,
                  sa_ticksRun := sa_ticksRun a + 1\<rparr>)
        }
      | _ \<Rightarrow> Some a)"

text \<open>The loop of \<open>RunForTicks\<close> from an index on.\<close>

fun run_ticks ::
    "'t transport_ops \<Rightarrow> 'r entt_ops \<Rightarrow> TimestampMs \<Rightarrow> nat list \<Rightarrow> ('t, 'r) ServerApplication
     \<Rightarrow> ('t, 'r) ServerApplication option" where
  "run_ticks T E startTimeMs [] a = Some a"
| "run_ticks T E startTimeMs (index # rest) a =
     (if \<not> sa_running a then Some a
      else do {
        a \<leftarrow> TickOnce T E (startTimeMs + of_nat index * sp_tickDurationMs (sa_config a)) a;
        run_ticks T E startTimeMs rest a
      })"

definition RunForTicks ::
    "'t transport_ops \<Rightarrow> 'r entt_ops \<Rightarrow> nat \<Rightarrow> TimestampMs \<Rightarrow> ('t, 'r) ServerApplication
     \<Rightarrow> ('t, 'r) ServerApplication option" where
  "RunForTicks T E tickCount startTimeMs a = run_ticks T E startTimeMs [0..<tickCount] a"

definition App_Stats :: "('t, 'r) ServerApplication \<Rightarrow> ServerApplicationStats" where
  "App_Stats a = \<lparr>as_ticksRun = sa_ticksRun a, as_running = sa_running a,
     as_network = (case sa_networkHost a of Some h \<Rightarrow> nh_stats h | None \<Rightarrow> zero_ServerNetworkStats)\<rparr>"

section \<open>The invariant of the host\<close>

text \<open>
  Every client is registered once and has one replication state under its own identifier; the
  transport is in a good state with at most \<open>b\<close> envelopes to hand out.
\<close>

definition registered :: "('t, 'r) ServerNetworkHost \<Rightarrow> bool" where
  "registered h \<longleftrightarrow> distinct (nh_clients h) \<and> um_ok (nh_clientStateById h)
     \<and> (\<forall>c. um_find (nh_clientStateById h) c \<noteq> None \<longleftrightarrow> c \<in> set (nh_clients h))
     \<and> (\<forall>c r. um_find (nh_clientStateById h) c = Some r \<longrightarrow> rs_clientId r = c)"

definition host_inv :: "('t \<Rightarrow> bool) \<Rightarrow> ('t \<Rightarrow> nat) \<Rightarrow> nat \<Rightarrow> ('t, 'r) ServerNetworkHost \<Rightarrow> bool" where
  "host_inv ok backlog b h \<longleftrightarrow> ok (nh_transport h) \<and> backlog (nh_transport h) \<le> b \<and> registered h"

lemma registered_fields [simp]:
  "registered (h\<lparr>nh_transport := t\<rparr>) = registered h" "registered (h\<lparr>nh_runtime := v\<rparr>) = registered h"
  "registered (h\<lparr>nh_baselineCache := c\<rparr>) = registered h" "registered (h\<lparr>nh_drainedEvents := d\<rparr>) = registered h"
  "registered (h\<lparr>nh_nextNetworkEventId := i\<rparr>) = registered h" "registered (h\<lparr>nh_stats := s\<rparr>) = registered h"
  by (simp_all add: registered_def)

lemma host_inv_fields [simp]:
  "host_inv ok backlog b (h\<lparr>nh_runtime := v\<rparr>) = host_inv ok backlog b h"
  "host_inv ok backlog b (h\<lparr>nh_baselineCache := c\<rparr>) = host_inv ok backlog b h"
  "host_inv ok backlog b (h\<lparr>nh_drainedEvents := d\<rparr>) = host_inv ok backlog b h"
  "host_inv ok backlog b (h\<lparr>nh_nextNetworkEventId := i\<rparr>) = host_inv ok backlog b h"
  "host_inv ok backlog b (host_stat f h) = host_inv ok backlog b h"
  by (simp_all add: host_inv_def host_stat_def)

text \<open>Writing back the state of a registered client.\<close>

lemma host_inv_put:
  assumes "host_inv ok backlog b h" and "um_find (nh_clientStateById h) c = Some r"
    and "rs_clientId r' = rs_clientId r"
  shows "host_inv ok backlog b (h\<lparr>nh_clientStateById := um_put c r' (nh_clientStateById h)\<rparr>)"
  using assms by (auto simp: host_inv_def registered_def)

lemma rs_clientId_kept [simp]:
  "rs_clientId (TrackReliableEvent ev now r) = rs_clientId r"
  "rs_clientId (MarkSnapshotSent_state now ms r) = rs_clientId r"
  "rs_clientId (snd (AcknowledgeSnapshot i r)) = rs_clientId r"
  "rs_clientId (snd (AcknowledgeReliableEvent j r)) = rs_clientId r"
  by (simp_all add: TrackReliableEvent_def MarkSnapshotSent_state_def AcknowledgeSnapshot_def
      AcknowledgeReliableEvent_def Let_def)

lemma fold_keeps: "P s \<Longrightarrow> (\<And>x s. P s \<Longrightarrow> P (f x s)) \<Longrightarrow> P (fold f xs s)"
  by (induction xs arbitrary: s) auto

context sending
begin

lemma host_send_inv:
  assumes "host_inv ok backlog b h" and "host_send T e h = (sent, h')"
  shows "host_inv ok backlog b h'"
proof -
  obtain t where t: "tp_send T e (nh_transport h) = (sent, t)" "h' = h\<lparr>nh_transport := t\<rparr>"
    using assms(2) by (auto simp: host_send_def split: prod.splits)
  from send_ok [OF _ t(1)] assms(1) show ?thesis by (auto simp: host_inv_def t(2))
qed

lemma SendReliableEvent_inv:
  assumes "host_inv ok backlog b h"
  shows "host_inv ok backlog b (SendReliableEvent T c ev now resend h)"
proof -
  obtain sent h1 where s: "host_send T (event_envelope c ev) h = (sent, h1)" by fastforce
  note inv = host_send_inv [OF assms s]
  show ?thesis
    using inv host_inv_put [OF inv, of c]
    by (auto simp: SendReliableEvent_def s Let_def split: option.splits)
qed

lemma send_interest_inv:
  "host_inv ok backlog b h \<Longrightarrow> host_inv ok backlog b (send_interest T c now ev h)"
  by (auto simp: send_interest_def next_event_def intro!: SendReliableEvent_inv split: option.splits)

lemma SendInterestEvents_inv:
  "host_inv ok backlog b h \<Longrightarrow> host_inv ok backlog b (SendInterestEvents T c fr now h)"
  by (auto simp: SendInterestEvents_def Let_def intro!: fold_keeps [where P = "host_inv ok backlog b"] send_interest_inv)

lemma update_interest_inv:
  assumes "host_inv ok backlog b h"
  shows "host_inv ok backlog b (update_interest T c sn now h)"
proof (cases "um_find (nh_clientStateById h) c")
  case (Some r)
  obtain fr tracker where u: "Update_interest sn (rs_interest r) = (fr, tracker)" by fastforce
  have "host_inv ok backlog b (h\<lparr>nh_clientStateById := um_put c (r\<lparr>rs_interest := tracker\<rparr>) (nh_clientStateById h)\<rparr>)"
    by (rule host_inv_put [OF assms Some]) simp
  then show ?thesis by (simp add: update_interest_def Some u SendInterestEvents_inv)
qed (simp add: update_interest_def assms)

lemma SendSnapshot_inv:
  assumes "host_inv ok backlog b h"
  shows "host_inv ok backlog b (snd (SendSnapshot T E c now h))"
proof -
  obtain planned h1 where p: "plan_snapshot E c h = (planned, h1)" by fastforce
  have "host_inv ok backlog b h1" using p assms by (auto simp: plan_snapshot_def Let_def split: prod.splits)
  then have 2: "host_inv ok backlog b (count_delta c planned h1)"
    by (simp add: count_delta_def Let_def split: option.splits)
  obtain sent h3 where s: "host_send T (snapshot_envelope c (pl_snapshot planned)) (count_delta c planned h1) = (sent, h3)"
    by fastforce
  note 3 = host_send_inv [OF 2 s]
  show ?thesis using 3 update_interest_inv [OF 3] by (simp add: SendSnapshot_def p s Let_def)
qed

lemma snapshot_turn_inv:
  assumes "host_inv ok backlog b h"
  shows "host_inv ok backlog b (snapshot_turn T E now c h)"
proof -
  obtain sent h1 where s: "SendSnapshot T E c now h = (sent, h1)" by fastforce
  then have inv: "host_inv ok backlog b h1" using SendSnapshot_inv [OF assms, of E c now] by simp
  then have "host_inv ok backlog b (host_MarkSnapshotSent c now h1)"
    using host_inv_put [OF inv, of c] by (auto simp: host_MarkSnapshotSent_def split: option.splits)
  with inv assms show ?thesis by (simp add: snapshot_turn_def s split: bool.splits)
qed

lemma broadcast_event_inv:
  assumes "host_inv ok backlog b h"
  shows "host_inv ok backlog b (broadcast_event T now ev h)"
proof -
  obtain n h1 where e: "next_event ev h = (n, h1)" by fastforce
  then have "host_inv ok backlog b h1" using assms by (auto simp: next_event_def)
  then show ?thesis
    by (auto simp: broadcast_event_def e Let_def split: option.splits
        intro!: fold_keeps [where P = "host_inv ok backlog b"] SendReliableEvent_inv)
qed

lemma resend_client_inv:
  "host_inv ok backlog b h \<Longrightarrow> host_inv ok backlog b (resend_client T now c h)"
  by (auto simp: resend_client_def split: option.splits
      intro!: fold_keeps [where P = "host_inv ok backlog b"] SendReliableEvent_inv)

lemma TickAndSendSnapshots_inv:
  assumes "host_inv ok backlog b h"
  shows "host_inv ok backlog b (TickAndSendSnapshots T E now h)"
  using assms
  by (auto simp: TickAndSendSnapshots_def BroadcastReliableEvents_def ResendPendingReliableEvents_def Let_def split_def
      intro!: fold_keeps [where P = "host_inv ok backlog b"] snapshot_turn_inv broadcast_event_inv resend_client_inv)

lemma handle_message_inv:
  assumes "host_inv ok backlog b h"
  shows "host_inv ok backlog b (handle_message T E e h)"
proof -
  have login: "host_inv ok backlog b (HandleLoginEnvelope E e h)"
    using assms by (auto simp: HandleLoginEnvelope_def host_inv_def registered_def new_ReplicationState_def
        um_contains_def host_stat_def Let_def split: option.splits prod.splits)
  have input: "host_inv ok backlog b (HandleInputEnvelope e h)"
    using assms by (auto simp: HandleInputEnvelope_def Let_def split: option.splits prod.splits)
  have ack: "host_inv ok backlog b (HandleSnapshotAckEnvelope e h)"
    using assms host_inv_put [OF assms] rs_clientId_kept(3)
    by (auto simp: HandleSnapshotAckEnvelope_def Let_def AcknowledgeSnapshot_def split: option.splits)
  have event_ack: "host_inv ok backlog b (HandleNetworkEventAckEnvelope e h)"
    using assms host_inv_put [OF assms]
    by (auto simp: HandleNetworkEventAckEnvelope_def Let_def AcknowledgeReliableEvent_def split: option.splits)
  have sync: "host_inv ok backlog b (HandleTimeSyncEnvelope T e h)"
    using assms host_send_inv [of b "host_stat f h" for f]
    by (auto simp: HandleTimeSyncEnvelope_def Let_def split: option.splits prod.splits)
  show ?thesis using assms login input ack event_ack sync
    by (auto simp: handle_message_def split: MessageClass.splits)
qed

end

text \<open>The loop over the client messages returns.\<close>

context transport
begin

lemma PumpClientMessages_inv:
  fixes h :: "('t, 'r) ServerNetworkHost"
  assumes "host_inv ok backlog b h" and "Inv h"
    and some: "\<And>k e t. host_inv ok backlog b k \<Longrightarrow> Inv k \<Longrightarrow> tp_poll T (nh_transport k) = (Some e, t) \<Longrightarrow>
        valid_envelope e \<Longrightarrow> Inv (handle_message T E e (k\<lparr>nh_transport := t\<rparr>))"
    and none: "\<And>k t. host_inv ok backlog b k \<Longrightarrow> Inv k \<Longrightarrow> tp_poll T (nh_transport k) = (None, t) \<Longrightarrow>
        Inv (k\<lparr>nh_transport := t\<rparr>) \<and> Post (k\<lparr>nh_transport := t\<rparr>)"
  shows "\<exists>h'. PumpClientMessages T E h = Some h' \<and> host_inv ok backlog b h' \<and> Inv h' \<and> Post h'"
proof -
  have "\<exists>h'. poll_loop (host_poll T) (handle_message T E) h = Some h' \<and> (host_inv ok backlog b h' \<and> Inv h') \<and> Post h'"
  proof (rule poll_loop_returns [where m = "\<lambda>h. backlog (nh_transport h)"])
    fix k k' :: "('t, 'r) ServerNetworkHost" and e
    assume k: "host_inv ok backlog b k \<and> Inv k" and "host_poll T k = (Some e, k')"
    then obtain t where t: "tp_poll T (nh_transport k) = (Some e, t)" "k' = k\<lparr>nh_transport := t\<rparr>"
      by (auto simp: host_poll_def split: prod.splits)
    from poll_some [OF _ t(1)] k have less: "valid_envelope e" "backlog t < backlog (nh_transport k)"
      and k': "host_inv ok backlog (backlog t) k'" by (auto simp: host_inv_def t(2))
    from handle_message_inv [OF k', of E e] less k some [OF _ _ t(1)]
    show "(host_inv ok backlog b (handle_message T E e k') \<and> Inv (handle_message T E e k'))
        \<and> backlog (nh_transport (handle_message T E e k')) < backlog (nh_transport k)"
      by (auto simp: host_inv_def t(2))
  next
    fix k k' :: "('t, 'r) ServerNetworkHost"
    assume k: "host_inv ok backlog b k \<and> Inv k" and "host_poll T k = (None, k')"
    then obtain t where t: "tp_poll T (nh_transport k) = (None, t)" "k' = k\<lparr>nh_transport := t\<rparr>"
      by (auto simp: host_poll_def split: prod.splits)
    from poll_none [OF _ t(1)] k none [OF _ _ t(1)]
    show "(host_inv ok backlog b k' \<and> Inv k') \<and> Post k'" by (auto simp: host_inv_def t(2))
  qed (use assms(1,2) in simp)
  then show ?thesis by (simp add: PumpClientMessages_def conj_assoc)
qed

lemma PumpClientMessages_returns:
  fixes h :: "('t, 'r) ServerNetworkHost"
  assumes "host_inv ok backlog b h"
  shows "\<exists>h'. PumpClientMessages T E h = Some h' \<and> host_inv ok backlog b h'"
  using PumpClientMessages_inv [OF assms, where Inv = "\<lambda>k. True" and Post = "\<lambda>k. True"] by simp

end

section \<open>The tick loop\<close>

definition app_ok :: "('t \<Rightarrow> bool) \<Rightarrow> ('t, 'r) ServerApplication \<Rightarrow> bool" where
  "app_ok ok a \<longleftrightarrow> (\<forall>t. sa_transport a = Some t \<longrightarrow> ok t)
     \<and> (\<forall>h. sa_networkHost a = Some h \<longrightarrow> registered h)
     \<and> (sa_running a \<longrightarrow> sa_transport a \<noteq> None \<and> sa_networkHost a \<noteq> None)"

lemma app_ok_new: "(\<And>t'. t = Some t' \<Longrightarrow> ok t') \<Longrightarrow> app_ok ok (new_ServerApplication t config)"
  by (simp add: app_ok_def new_ServerApplication_def)

context transport
begin

lemma Start_ok: "app_ok ok a \<Longrightarrow> app_ok ok (snd (Start T E a))"
  using connect_ok by (auto simp: Start_def app_ok_def new_ServerNetworkHost_def registered_def
      split: option.splits bool.splits prod.splits)

lemma RequestStop_ok: "app_ok ok a \<Longrightarrow> app_ok ok (RequestStop T a)"
  using close_ok by (auto simp: RequestStop_def app_ok_def)

lemma TickOnce_returns:
  assumes "app_ok ok a"
  shows "\<exists>a'. TickOnce T E now a = Some a' \<and> app_ok ok a' \<and> sa_running a' = sa_running a
     \<and> sa_config a' = sa_config a \<and> sa_ticksRun a' = sa_ticksRun a + (if sa_running a then 1 else 0)"
proof (cases "sa_running a")
  case True
  then obtain t h where th: "sa_transport a = Some t" "sa_networkHost a = Some h"
    using assms by (auto simp: app_ok_def)
  let ?h = "h\<lparr>nh_transport := tp_update T t\<rparr>"
  have "host_inv ok backlog (backlog (tp_update T t)) ?h"
    using assms th update_ok by (simp add: app_ok_def host_inv_def)
  from PumpClientMessages_returns [OF this, of E] obtain h' where
    p: "PumpClientMessages T E ?h = Some h'" "host_inv ok backlog (backlog (tp_update T t)) h'" by blast
  note q = TickAndSendSnapshots_inv [OF p(2), of E now]
  then show ?thesis
    by (simp add: TickOnce_def True th p(1) Let_def) (simp add: app_ok_def host_inv_def)
next
  case False
  then show ?thesis using assms by (simp add: TickOnce_def)
qed

lemma run_ticks_returns:
  assumes "app_ok ok a"
  shows "\<exists>a'. run_ticks T E start is a = Some a' \<and> app_ok ok a' \<and> sa_running a' = sa_running a
     \<and> sa_ticksRun a' = sa_ticksRun a + (if sa_running a then of_nat (length is) else 0)"
  using assms
proof (induction "is" arbitrary: a)
  case (Cons i "is")
  obtain a1 where a1: "TickOnce T E (start + of_nat i * sp_tickDurationMs (sa_config a)) a = Some a1"
    "app_ok ok a1" "sa_running a1 = sa_running a" "sa_ticksRun a1 = sa_ticksRun a + (if sa_running a then 1 else 0)"
    using TickOnce_returns [OF Cons.prems] by blast
  from Cons.IH [OF a1(2)] a1 Cons.prems show ?case by (cases "sa_running a") auto
qed simp

end

end
