(* ===== verification/Server_Rules.thy ===== *)
theory Server_Rules
  imports Server_App
begin

text \<open>
  What the server host guarantees to its clients: which acknowledgements count, what a snapshot is
  planned against, and how often a reliable event is sent.
\<close>

section \<open>Acknowledged snapshots\<close>

text \<open>
  Compared with an earlier state, the cache is the same, and the snapshot a client has acknowledged
  is the same or a newer one that the cache holds for that client.
\<close>

definition newer_ack :: "SnapshotBaselineCache \<Rightarrow> ClientId \<Rightarrow> SnapshotId \<Rightarrow> SnapshotId \<Rightarrow> bool" where
  "newer_ack cache c old new \<longleftrightarrow> new = old \<or> old < new \<and> Find_baseline cache c new \<noteq> None"

definition acks_since :: "('t, 'r) ServerNetworkHost \<Rightarrow> ('t, 'r) ServerNetworkHost \<Rightarrow> bool" where
  "acks_since h0 h \<longleftrightarrow> nh_baselineCache h = nh_baselineCache h0
     \<and> (\<forall>c r0. um_find (nh_clientStateById h0) c = Some r0 \<longrightarrow>
          (\<exists>r. um_find (nh_clientStateById h) c = Some r
             \<and> newer_ack (nh_baselineCache h0) c (rs_ackedSnapshot r0) (rs_ackedSnapshot r)))"

lemma newer_ack_refl [simp]: "newer_ack cache c a a"
  by (simp add: newer_ack_def)

lemma newer_ack_trans: "newer_ack cache c a a' \<Longrightarrow> newer_ack cache c a' a'' \<Longrightarrow> newer_ack cache c a a''"
  by (auto simp: newer_ack_def)

lemma acks_since_refl: "acks_since h h"
  by (simp add: acks_since_def)

lemma acks_sinceD:
  "acks_since h0 h \<Longrightarrow> um_find (nh_clientStateById h0) c = Some r0 \<Longrightarrow>
     \<exists>r. um_find (nh_clientStateById h) c = Some r
       \<and> newer_ack (nh_baselineCache h0) c (rs_ackedSnapshot r0) (rs_ackedSnapshot r)"
  by (simp add: acks_since_def)

lemma host_stat_fields [simp]:
  "nh_transport (host_stat f h) = nh_transport h" "nh_runtime (host_stat f h) = nh_runtime h"
  "nh_clientStateById (host_stat f h) = nh_clientStateById h" "nh_clients (host_stat f h) = nh_clients h"
  "nh_baselineCache (host_stat f h) = nh_baselineCache h" "nh_config (host_stat f h) = nh_config h"
  "nh_nextNetworkEventId (host_stat f h) = nh_nextNetworkEventId h"
  by (simp_all add: host_stat_def)

lemma acks_since_fields [simp]:
  "acks_since h0 (h\<lparr>nh_transport := t\<rparr>) = acks_since h0 h" "acks_since h0 (h\<lparr>nh_runtime := v\<rparr>) = acks_since h0 h"
  "acks_since h0 (h\<lparr>nh_clients := cs\<rparr>) = acks_since h0 h" "acks_since h0 (host_stat f h) = acks_since h0 h"
  by (simp_all add: acks_since_def)

lemma acks_since_put:
  assumes "acks_since h0 h"
    and "\<And>r. um_find (nh_clientStateById h) c = Some r \<Longrightarrow>
        newer_ack (nh_baselineCache h) c (rs_ackedSnapshot r) (rs_ackedSnapshot r')"
  shows "acks_since h0 (h\<lparr>nh_clientStateById := um_put c r' (nh_clientStateById h)\<rparr>)"
proof -
  have cache: "nh_baselineCache h = nh_baselineCache h0" using assms(1) by (simp add: acks_since_def)
  have "\<exists>r. um_find (um_put c r' (nh_clientStateById h)) d = Some r
      \<and> newer_ack (nh_baselineCache h0) d (rs_ackedSnapshot r0) (rs_ackedSnapshot r)"
    if "um_find (nh_clientStateById h0) d = Some r0" for d r0
    using acks_sinceD [OF assms(1) that] assms(2) newer_ack_trans by (auto simp: cache)
  then show ?thesis using cache by (simp add: acks_since_def)
qed

lemma acks_since_handle:
  assumes "acks_since h0 h"
  shows "acks_since h0 (handle_message T E e h)"
proof -
  have login: "acks_since h0 (HandleLoginEnvelope E e h)"
  proof (cases "DeserializeLoginCommand (ev_payload e)")
    case (Some login)
    let ?c = "hd_clientId (lg_header login)" and ?h = "host_stat (\<lambda>s. s\<lparr>ns_loginRequests := ns_loginRequests s + 1\<rparr>) h"
    obtain ok v where v: "Runtime_ConnectClient E ?c (hd_clientTimestampMs (lg_header login)) (nh_runtime ?h) = (ok, v)"
      by fastforce
    let ?g = "?h\<lparr>nh_runtime := v, nh_clients := nh_clients h @ [?c]\<rparr>"
    have "acks_since h0 (?g\<lparr>nh_clientStateById := um_put ?c (new_ReplicationState ?c) (nh_clientStateById ?g)\<rparr>)"
      if "um_find (nh_clientStateById h) ?c = None"
      by (rule acks_since_put) (use assms that in simp_all)
    then show ?thesis using assms Some v
      by (simp add: HandleLoginEnvelope_def um_contains_def Let_def)
  qed (simp add: HandleLoginEnvelope_def assms)
  have input: "acks_since h0 (HandleInputEnvelope e h)"
    using assms by (simp add: HandleInputEnvelope_def Let_def split_def split: option.splits)
  have ack: "acks_since h0 (HandleSnapshotAckEnvelope e h)"
    using assms
    by (auto simp: HandleSnapshotAckEnvelope_def Let_def AcknowledgeSnapshot_def newer_ack_def split: option.splits
        intro!: acks_since_put)
  have event_ack: "acks_since h0 (HandleNetworkEventAckEnvelope e h)"
    using assms
    by (auto simp: HandleNetworkEventAckEnvelope_def Let_def AcknowledgeReliableEvent_def split: option.splits
        intro!: acks_since_put)
  have sync: "acks_since h0 (HandleTimeSyncEnvelope T e h)"
    using assms by (simp add: HandleTimeSyncEnvelope_def host_send_def Let_def split_def split: option.splits)
  show ?thesis using assms login input ack event_ack sync
    by (simp add: handle_message_def split: MessageClass.splits)
qed

context transport
begin

lemma PumpClientMessages_acks:
  fixes h :: "('t, 'r) ServerNetworkHost"
  assumes "host_inv ok backlog b h"
  shows "\<exists>h'. PumpClientMessages T E h = Some h' \<and> host_inv ok backlog b h' \<and> acks_since h h'"
proof -
  have "\<exists>h'. PumpClientMessages T E h = Some h' \<and> host_inv ok backlog b h' \<and> acks_since h h' \<and> True"
    by (rule PumpClientMessages_inv [OF assms]) (simp_all add: acks_since_refl acks_since_handle)
  then show ?thesis by simp
qed

end

section \<open>Snapshots that are sent\<close>

lemma host_send_def2: "host_send T e h = (fst (tp_send T e (nh_transport h)), h\<lparr>nh_transport := snd (tp_send T e (nh_transport h))\<rparr>)"
  by (simp add: host_send_def split_def Let_def)

lemma plan_snapshot_header:
  "sn_snapshotId (pl_snapshot (fst (plan_snapshot E c h))) = sv_nextSnapshotId (nh_runtime h)"
  "sn_deliveryKind (pl_snapshot (fst (plan_snapshot E c h))) = DeltaEligible
     \<longleftrightarrow> requested_baseline c h \<noteq> 0 \<and> Find_baseline (nh_baselineCache h) c (requested_baseline c h) \<noteq> None"
  "sn_baselineId (pl_snapshot (fst (plan_snapshot E c h))) =
     (if sn_deliveryKind (pl_snapshot (fst (plan_snapshot E c h))) = DeltaEligible then requested_baseline c h else 0)"
  by (auto simp: plan_snapshot_def Plan_def BuildSnapshotFor_def BuildSnapshot_def Decide_def Let_def
      split: option.splits)

lemma plan_snapshot_keeps:
  "nh_clientStateById (snd (plan_snapshot E c h)) = nh_clientStateById h"
  "nh_baselineCache (snd (plan_snapshot E c h)) = nh_baselineCache h"
  "nh_transport (snd (plan_snapshot E c h)) = nh_transport h"
  "nh_nextNetworkEventId (snd (plan_snapshot E c h)) = nh_nextNetworkEventId h"
  by (simp_all add: plan_snapshot_def Let_def split_def)

lemma count_delta_keeps:
  "nh_clientStateById (count_delta c p h) = nh_clientStateById h"
  "nh_baselineCache (count_delta c p h) = nh_baselineCache h" "nh_transport (count_delta c p h) = nh_transport h"
  "nh_nextNetworkEventId (count_delta c p h) = nh_nextNetworkEventId h"
  by (auto simp: count_delta_def host_stat_def Let_def split: option.splits)

lemma SendReliableEvent_cache: "nh_baselineCache (SendReliableEvent T c ev now b h) = nh_baselineCache h"
  by (auto simp: SendReliableEvent_def host_send_def2 host_stat_def Let_def split: option.splits)

lemma update_interest_cache: "nh_baselineCache (update_interest T c sn now h) = nh_baselineCache h"
proof -
  have one: "nh_baselineCache (send_interest T c now ev h) = nh_baselineCache h" for ev and h :: "('a, 'b) ServerNetworkHost"
    by (auto simp: send_interest_def next_event_def SendReliableEvent_cache split: option.splits)
  have "nh_baselineCache (SendInterestEvents T c fr now h) = nh_baselineCache h" for fr and h :: "('a, 'b) ServerNetworkHost"
    unfolding SendInterestEvents_def Let_def
    by (intro fold_keeps [where P = "\<lambda>g. nh_baselineCache g = nh_baselineCache h"]) (simp_all add: one)
  then show ?thesis by (simp add: update_interest_def host_stat_def Let_def split_def split: option.splits)
qed

lemma SendSnapshot_cases:
  assumes "planned = pl_snapshot (fst (plan_snapshot E c h))"
  shows "(fst (SendSnapshot T E c now h) \<longleftrightarrow> fst (tp_send T (snapshot_envelope c planned) (nh_transport h)))
     \<and> nh_baselineCache (snd (SendSnapshot T E c now h)) =
         (if fst (SendSnapshot T E c now h) then Store c planned (nh_baselineCache h) else nh_baselineCache h)
     \<and> (\<not> fst (SendSnapshot T E c now h) \<longrightarrow>
          nh_clientStateById (snd (SendSnapshot T E c now h)) = nh_clientStateById h)"
proof -
  obtain p h1 where p: "plan_snapshot E c h = (p, h1)" by fastforce
  have h1: "nh_clientStateById h1 = nh_clientStateById h" "nh_baselineCache h1 = nh_baselineCache h" "nh_transport h1 = nh_transport h"
    using plan_snapshot_keeps [of E c h] p by simp_all
  show ?thesis
    by (simp add: SendSnapshot_def p assms host_send_def2 count_delta_keeps h1 update_interest_cache host_stat_def Let_def)
qed

section \<open>Reliable events\<close>

text \<open>
  Every client's pending events keep the send limit and carry identifiers that have been given out;
  \<open>n\<close> more identifiers can be given out before the counter wraps.
\<close>

definition replicated :: "nat \<Rightarrow> ('t, 'r) ServerNetworkHost \<Rightarrow> bool" where
  "replicated n h \<longleftrightarrow> unat (nh_nextNetworkEventId h) + n < 2 ^ 32
     \<and> (\<forall>c r. um_find (nh_clientStateById h) c = Some r \<longrightarrow>
          replication_ok (nc_reliableEventMaxSendCount (nh_config h)) r
          \<and> (\<forall>i. um_find (rs_pendingReliableEvents r) i \<noteq> None \<longrightarrow> i < nh_nextNetworkEventId h))"

lemma replicatedD:
  assumes "replicated n h" and "um_find (nh_clientStateById h) c = Some r"
  shows "replication_ok (nc_reliableEventMaxSendCount (nh_config h)) r"
    and "um_find (rs_pendingReliableEvents r) i \<noteq> None \<Longrightarrow> i < nh_nextNetworkEventId h"
  using assms by (auto simp: replicated_def)

lemma replicated_fields [simp]:
  "replicated n (h\<lparr>nh_transport := t\<rparr>) = replicated n h" "replicated n (host_stat f h) = replicated n h"
  "replicated n (h\<lparr>nh_runtime := v\<rparr>) = replicated n h"
  by (simp_all add: replicated_def)

lemma replicated_mono: "replicated n h \<Longrightarrow> m \<le> n \<Longrightarrow> replicated m h"
  by (simp add: replicated_def)

lemma replicated_put:
  assumes "replicated n h" and "replication_ok (nc_reliableEventMaxSendCount (nh_config h)) r'"
    and "\<And>i. um_find (rs_pendingReliableEvents r') i \<noteq> None \<Longrightarrow> i < nh_nextNetworkEventId h"
  shows "replicated n (h\<lparr>nh_clientStateById := um_put c r' (nh_clientStateById h)\<rparr>)"
  using assms unfolding replicated_def by (auto split: if_splits)

lemma pending_after_track:
  "um_find (rs_pendingReliableEvents (TrackReliableEvent ev now r)) i \<noteq> None
     \<longleftrightarrow> i = ne_eventId ev \<or> um_find (rs_pendingReliableEvents r) i \<noteq> None"
  by (simp add: TrackReliableEvent_def Let_def)

text \<open>Sending an event that may be tracked, and that has an identifier that was given out.\<close>

definition sendable :: "ClientId \<Rightarrow> NetworkEventDTO \<Rightarrow> ('t, 'r) ServerNetworkHost \<Rightarrow> bool" where
  "sendable c ev h \<longleftrightarrow> ne_eventId ev < nh_nextNetworkEventId h
     \<and> (\<forall>r. um_find (nh_clientStateById h) c = Some r \<longrightarrow>
          may_track (nc_reliableEventMaxSendCount (nh_config h)) ev r)"

lemma SendReliableEvent_replicated:
  assumes "replicated n h" and "sendable c ev h"
  shows "replicated n (SendReliableEvent T c ev now b h)"
proof -
  have "replicated n (h\<lparr>nh_transport := t, nh_clientStateById := um_put c (TrackReliableEvent ev now r) (nh_clientStateById h)\<rparr>)"
    if r: "um_find (nh_clientStateById h) c = Some r" for r t
  proof -
    have "replicated n ((h\<lparr>nh_transport := t\<rparr>)\<lparr>nh_clientStateById :=
        um_put c (TrackReliableEvent ev now r) (nh_clientStateById (h\<lparr>nh_transport := t\<rparr>))\<rparr>)"
    proof (rule replicated_put)
      show "replication_ok (nc_reliableEventMaxSendCount (nh_config (h\<lparr>nh_transport := t\<rparr>))) (TrackReliableEvent ev now r)"
        using replication_ok_TrackReliableEvent [OF replicatedD(1) [OF assms(1) r]] assms(2) r by (simp add: sendable_def)
      show "i < nh_nextNetworkEventId (h\<lparr>nh_transport := t\<rparr>)"
        if "um_find (rs_pendingReliableEvents (TrackReliableEvent ev now r)) i \<noteq> None" for i
        using pending_after_track [THEN iffD1, OF that] replicatedD(2) [OF assms(1) r, of i] assms(2)
        by auto (auto simp: sendable_def)
    qed (use assms(1) in simp)
    then show ?thesis by simp
  qed
  with assms(1) show ?thesis
    by (simp add: SendReliableEvent_def host_send_def2 Let_def split: option.splits)
qed

text \<open>A send leaves the other clients' states alone, and another event of the same client sendable.\<close>

lemma SendReliableEvent_sendable:
  assumes "sendable d ev' h" and "d \<noteq> c \<or> ne_eventId ev' \<noteq> ne_eventId ev"
  shows "sendable d ev' (SendReliableEvent T c ev now b h)"
proof -
  have "may_track m ev' (TrackReliableEvent ev now r) = may_track m ev' r" if "ne_eventId ev' \<noteq> ne_eventId ev" for m r
    using that by (simp add: may_track_def TrackReliableEvent_def Let_def)
  with assms show ?thesis
    by (auto simp: SendReliableEvent_def host_send_def2 sendable_def Let_def split: option.splits if_splits)
qed

lemma SendReliableEvent_keeps:
  "nh_nextNetworkEventId (SendReliableEvent T c ev now b h) = nh_nextNetworkEventId h"
  "nh_config (SendReliableEvent T c ev now b h) = nh_config h"
  by (auto simp: SendReliableEvent_def host_send_def2 host_stat_def Let_def split: option.splits)

lemma send_all_replicated:
  assumes "replicated n h" and "\<forall>ev\<in>set evs. sendable c ev h" and "distinct (map ne_eventId evs)"
  shows "replicated n (fold (\<lambda>ev. SendReliableEvent T c ev now b) evs h)"
  using assms
proof (induction evs arbitrary: h)
  case (Cons ev evs)
  have "\<forall>e\<in>set evs. sendable c e (SendReliableEvent T c ev now b h)"
  proof
    fix e assume "e \<in> set evs"
    then have "sendable c e h" and "ne_eventId e \<in> ne_eventId ` set evs" using Cons.prems(2) by simp_all
    moreover have "ne_eventId ev \<notin> ne_eventId ` set evs" using Cons.prems(3) by simp
    ultimately have "sendable c e h" and "ne_eventId e \<noteq> ne_eventId ev" by metis+
    then show "sendable c e (SendReliableEvent T c ev now b h)" by (intro SendReliableEvent_sendable) simp_all
  qed
  with Cons.IH [of "SendReliableEvent T c ev now b h"] SendReliableEvent_replicated [of n h c ev] Cons.prems
  show ?case by simp
qed simp

lemma resend_client_replicated:
  assumes "replicated n h"
  shows "replicated n (resend_client T now c h)"
proof (cases "um_find (nh_clientStateById h) c")
  case (Some r)
  let ?limit = "nc_reliableEventMaxSendCount (nh_config h)" and ?base = "nc_reliableEventResendBaseIntervalMs (nh_config h)"
  let ?due = "ReliableEventsDueForResend now ?base ?limit r"
  note ok = replicatedD(1) [OF assms Some]
  have own: "ne_eventId (pe_event p) = i" if "(i, p) \<in> set (rs_pendingReliableEvents r)" for i p
    using ok that by (auto simp: replication_ok_def pending_ok_def um_ok_find_iff)
  let ?f = "filter (due_for_resend now ?base ?limit \<circ> snd) (rs_pendingReliableEvents r)"
  have "map ne_eventId ?due = map fst ?f"
    using own by (auto simp: ReliableEventsDueForResend_def)
  moreover have "distinct (map fst ?f)"
    using ok by (auto simp: replication_ok_def um_ok_def intro: distinct_map_filter)
  ultimately have d: "distinct (map ne_eventId ?due)" by simp
  have "sendable c ev h" if ev: "ev \<in> set ?due" for ev
  proof -
    from ev obtain i p where p: "(i, p) \<in> set (rs_pendingReliableEvents r)" "ev = pe_event p"
      by (auto simp: ReliableEventsDueForResend_def)
    then have "um_find (rs_pendingReliableEvents r) i \<noteq> None"
      using ok by (auto simp: replication_ok_def um_ok_find_iff [symmetric])
    with replicatedD(2) [OF assms Some] own [OF p(1)] p(2) have "ne_eventId ev < nh_nextNetworkEventId h" by simp
    with due_may_track [OF ok ev] Some show ?thesis by (simp add: sendable_def)
  qed
  with send_all_replicated [OF assms _ d] Some show ?thesis by (simp add: resend_client_def)
qed (simp add: resend_client_def assms)

lemma ResendPendingReliableEvents_replicated:
  "replicated n h \<Longrightarrow> replicated n (ResendPendingReliableEvents T now h)"
  unfolding ResendPendingReliableEvents_def
  by (rule fold_keeps [where P = "replicated n"]) (simp_all add: resend_client_replicated)

lemma broadcast_event_replicated:
  fixes T :: "'a transport_ops" and h :: "('a, 'b) ServerNetworkHost"
  assumes "replicated (Suc n) h" and "distinct (nh_clients h)"
  shows "replicated n (broadcast_event T now ev h)" and "nh_clients (broadcast_event T now ev h) = nh_clients h"
proof -
  let ?id = "nh_nextNetworkEventId h"
  let ?h = "h\<lparr>nh_nextNetworkEventId := ?id + 1\<rparr>"
  have room: "unat ?id + 1 < 2 ^ 32" using assms(1) by (simp add: replicated_def)
  then have next_id: "unat (?id + 1) = unat ?id + 1" by (simp add: unat_word_ariths)
  then have less: "i < ?id \<Longrightarrow> i < ?id + 1" "?id < ?id + 1" for i by (simp_all add: word_less_nat_alt)
  have rep: "replicated n ?h" using assms(1) next_id less(1) by (auto simp: replicated_def)
  have fresh: "sendable c x ?h" if "ne_eventId x = ?id" for c x
    using replicatedD(2) [OF assms(1)] less(2) that
    by (fastforce simp: sendable_def may_track_def split: option.splits)
  have send: "replicated n (fold (\<lambda>c h. if P c then h else SendReliableEvent T c x now False h) cs g)"
    if "replicated n g" "\<forall>c\<in>set cs. sendable c x g" "distinct cs" for P cs g x
    using that
  proof (induction cs arbitrary: g)
    case (Cons c cs)
    have "\<forall>d\<in>set cs. sendable d x (SendReliableEvent T c x now False g)"
      using Cons.prems by (auto intro!: SendReliableEvent_sendable)
    with Cons show ?case using SendReliableEvent_replicated [of n g c x] by simp
  qed simp
  show "replicated n (broadcast_event T now ev h)"
    using rep send [of ?h] fresh assms(2)
    by (auto simp: broadcast_event_def next_event_def ToNetworkEventDTO_def Let_def split: option.splits)
  have clients: "nh_clients (SendReliableEvent T c x now False g) = nh_clients g" for c x and g :: "('a, 'b) ServerNetworkHost"
    by (auto simp: SendReliableEvent_def host_send_def2 Let_def split: option.splits)
  have "nh_clients (fold (\<lambda>c h. if P c then h else SendReliableEvent T c x now False h) cs g) = nh_clients g"
    for P x cs and g :: "('a, 'b) ServerNetworkHost"
    by (intro fold_keeps [where P = "\<lambda>g'. nh_clients g' = nh_clients g"]) (simp_all add: clients)
  then show "nh_clients (broadcast_event T now ev h) = nh_clients h"
    by (auto simp: broadcast_event_def next_event_def Let_def split: option.splits)
qed

lemma BroadcastReliableEvents_replicated:
  assumes "replicated (length evs + n) h" and "distinct (nh_clients h)"
  shows "replicated n (BroadcastReliableEvents T evs now h)"
  using assms unfolding BroadcastReliableEvents_def
proof (induction evs arbitrary: h)
  case (Cons ev evs)
  then show ?case using broadcast_event_replicated [of "length evs + n" h] by simp
qed simp

text \<open>The schedule: the delay doubles with each send, up to sixteen times the base interval.\<close>

lemma due_for_resend_iff:
  assumes "limit \<noteq> 0" and "0 < pe_sendCount p"
    and "unat (pe_lastSentAtMs p) + unat base * 16 < 2 ^ 64"
  shows "due_for_resend now base limit p \<longleftrightarrow> pe_sendCount p < limit
     \<and> unat (pe_lastSentAtMs p) + unat base * 2 ^ min (unat (pe_sendCount p) - 1) 4 \<le> unat now"
proof -
  let ?n = "min (unat (pe_sendCount p) - 1) 4"
  have "unat (pe_sendCount p - 1) = unat (pe_sendCount p) - 1"
    using assms(2) by (simp add: unat_minus_one word_gt_0)
  then have shift: "unat (min (pe_sendCount p - 1) 4) = ?n"
    by (auto simp: min_def word_le_nat_alt)
  have "(2 :: nat) ^ ?n \<le> 2 ^ 4" by (rule power_increasing) simp_all
  then have pow: "(2 :: nat) ^ ?n \<le> 16" by simp
  then have le: "unat base * 2 ^ ?n \<le> unat base * 16" by simp
  then have "unat base * 2 ^ ?n < 2 ^ 64" using assms(3) by linarith
  then have delay: "unat (push_bit ?n base) = unat base * 2 ^ ?n"
    by (simp only: unsigned_push_bit_eq) (simp add: push_bit_eq_mult [where 'a = nat] take_bit_nat_eq_self)
  have "unat (pe_lastSentAtMs p) + unat base * 2 ^ ?n < 2 ^ 64" using le assms(3) by linarith
  then have "unat (pe_lastSentAtMs p + push_bit ?n base) = unat (pe_lastSentAtMs p) + unat base * 2 ^ ?n"
    by (simp add: unat_word_ariths delay [simplified])
  then show ?thesis
    using assms(1,2) shift by (auto simp: due_for_resend_def Let_def word_le_nat_alt word_less_nat_alt not_le)
qed

section \<open>The clients stay\<close>

definition same_clients :: "('t, 'r) ServerNetworkHost \<Rightarrow> ('t, 'r) ServerNetworkHost \<Rightarrow> bool" where
  "same_clients h h' \<longleftrightarrow> nh_clients h' = nh_clients h \<and> nh_config h' = nh_config h"

lemma SendReliableEvent_same: "same_clients h (SendReliableEvent T c ev now b h)"
  by (auto simp: same_clients_def SendReliableEvent_def host_send_def2 Let_def split: option.splits)

lemma fold_same:
  assumes "\<And>x g. same_clients g (f x g)"
  shows "same_clients h (fold f xs h)"
  by (rule fold_keeps [where P = "same_clients h"]) (use assms in \<open>auto simp: same_clients_def\<close>)

lemma broadcast_event_same:
  fixes h :: "('t, 'r) ServerNetworkHost"
  shows "same_clients h (broadcast_event T now ev h)"
proof -
  have "same_clients g (fold (\<lambda>c h. if P c then h else SendReliableEvent T c x now False h) cs g)"
    for P x cs and g :: "('t, 'r) ServerNetworkHost"
    by (rule fold_same) (simp add: SendReliableEvent_same, simp add: same_clients_def)
  then show ?thesis
    by (auto simp: broadcast_event_def next_event_def Let_def same_clients_def split: option.splits)
qed

lemma resend_client_same: "same_clients h (resend_client T now c h)"
  by (auto simp: resend_client_def same_clients_def [of h h] split: option.splits
      intro!: fold_same SendReliableEvent_same)

lemma resend_same: "same_clients h (ResendPendingReliableEvents T now h)"
  unfolding ResendPendingReliableEvents_def by (rule fold_same) (rule resend_client_same)

lemma broadcast_same: "same_clients h (BroadcastReliableEvents T evs now h)"
  unfolding BroadcastReliableEvents_def by (rule fold_same) (rule broadcast_event_same)

lemma same_clients_trans: "same_clients h k \<Longrightarrow> same_clients k l \<Longrightarrow> same_clients h l"
  by (simp add: same_clients_def)

text \<open>Sending a snapshot, with the events of its interest frame.\<close>

lemma update_interest_same: "same_clients h (update_interest T c sn now h)"
proof -
  have one: "same_clients k (send_interest T c now ev k)" for ev and k :: "('a, 'b) ServerNetworkHost"
    using SendReliableEvent_same [of "k\<lparr>nh_nextNetworkEventId := nh_nextNetworkEventId k + 1\<rparr>"]
    by (auto simp: send_interest_def next_event_def same_clients_def split: option.splits)
  have "same_clients k (SendInterestEvents T c fr now k)" for fr and k :: "('a, 'b) ServerNetworkHost"
    unfolding SendInterestEvents_def Let_def by (rule same_clients_trans; rule fold_same; rule one)
  then show ?thesis
    by (auto simp: update_interest_def same_clients_def host_stat_def split: option.splits prod.splits)
qed

lemma snapshot_turn_same: "same_clients h (snapshot_turn T E now c h)"
proof -
  have plan: "same_clients h (snd (plan_snapshot E c h))"
    by (simp add: plan_snapshot_def same_clients_def Let_def split_def)
  have count: "same_clients k (count_delta c p k)" for p and k :: "('a, 'b) ServerNetworkHost"
    by (simp add: count_delta_def same_clients_def host_stat_def Let_def split: option.splits)
  have "same_clients h (snd (SendSnapshot T E c now h))"
    using same_clients_trans [OF plan count]
    by (simp add: SendSnapshot_def host_send_def2 split_def Let_def)
      (simp add: same_clients_def update_interest_same [unfolded same_clients_def])
  then show ?thesis
    by (auto simp: snapshot_turn_def host_MarkSnapshotSent_def same_clients_def host_stat_def
        split: bool.splits option.splits prod.splits)
qed

end
