(* ===== verification/Reliable_Events.thy ===== *)
theory Reliable_Events
  imports Server_Rules
begin

text \<open>
  The reliable events between a server and its clients: ticks that give out events and resend the pending ones,
  and the acknowledgements that come in between. The specification \<open>outstanding_call\<close> numbers the events and remembers
  for one client those it was to be told and has not acknowledged; the host's pending events are shown to be these.
\<close>

section \<open>The calls\<close>

text \<open>The events of a tick with the resends after it, as \<open>TickAndSendSnapshots\<close> makes them.\<close>

definition event_round :: "'t transport_ops \<Rightarrow> TimestampMs \<times> EventList
    \<Rightarrow> ('t, 'r) ServerNetworkHost \<Rightarrow> ('t, 'r) ServerNetworkHost" where
  "event_round T tick h =
     (case tick of (now, evs) \<Rightarrow> ResendPendingReliableEvents T now (BroadcastReliableEvents T evs now h))"

datatype event_call = Event_Round TimestampMs EventList | Event_Ack NetworkEnvelope

fun event_run :: "'t transport_ops \<Rightarrow> event_call \<Rightarrow> ('t, 'r) ServerNetworkHost \<Rightarrow> ('t, 'r) ServerNetworkHost" where
  "event_run T (Event_Round now evs) h = event_round T (now, evs) h"
| "event_run T (Event_Ack envelope) h = HandleNetworkEventAckEnvelope envelope h"

fun call_events :: "event_call \<Rightarrow> EventList" where
  "call_events (Event_Round now evs) = evs"
| "call_events (Event_Ack envelope) = []"

section \<open>The invariant of the pending events\<close>

lemma event_round_same: "same_clients h (event_round T tick h)"
  by (cases tick) (simp add: event_round_def same_clients_trans [OF broadcast_same resend_same])

lemma HandleNetworkEventAck_same: "same_clients h (HandleNetworkEventAckEnvelope e h)"
  by (simp add: HandleNetworkEventAckEnvelope_def same_clients_def host_stat_def Let_def split_def split: option.split)

lemma event_run_same: "same_clients h (event_run T x h)"
  by (cases x) (simp_all add: event_round_same HandleNetworkEventAck_same)

lemma HandleNetworkEventAck_replicated:
  assumes "replicated n h" shows "replicated n (HandleNetworkEventAckEnvelope e h)"
proof -
  have "replicated n (h\<lparr>nh_clientStateById := um_put c (snd (AcknowledgeReliableEvent i r)) (nh_clientStateById h)\<rparr>)"
    if r: "um_find (nh_clientStateById h) c = Some r" for c i r
  proof (rule replicated_put [OF assms])
    show "replication_ok (nc_reliableEventMaxSendCount (nh_config h)) (snd (AcknowledgeReliableEvent i r))"
      by (rule replication_ok_AcknowledgeReliableEvent [OF replicatedD(1) [OF assms r]])
    show "j < nh_nextNetworkEventId h" if "um_find (rs_pendingReliableEvents (snd (AcknowledgeReliableEvent i r))) j \<noteq> None" for j
      using replicatedD(2) [OF assms r, of j] that by (simp add: AcknowledgeReliableEvent_def split: if_splits)
  qed
  then show ?thesis using assms
    by (simp add: HandleNetworkEventAckEnvelope_def Let_def split_def split: option.split)
qed

lemma event_run_replicated:
  assumes "replicated (length (call_events x) + n) h" and "distinct (nh_clients h)"
  shows "replicated n (event_run T x h)"
  using assms BroadcastReliableEvents_replicated [of "call_events x" n h] HandleNetworkEventAck_replicated
  by (cases x) (simp_all add: event_round_def ResendPendingReliableEvents_replicated)

lemma event_runs_replicated:
  assumes "replicated (length (concat (map call_events xs))) h" and "distinct (nh_clients h)"
  shows "replicated 0 (fold (event_run T) xs h)"
  using assms
proof (induction xs arbitrary: h)
  case (Cons x xs)
  with event_run_replicated [of x "length (concat (map call_events xs))" h T] event_run_same [of h T x] show ?case
    by (simp add: same_clients_def)
qed simp

section \<open>The events a client has still to acknowledge\<close>

type_synonym outstanding = "NetworkEventId \<times> (NetworkEventId \<Rightarrow> NetworkEventPayloadDTO option)"

definition give_event :: "ClientId \<Rightarrow> DomainEvent \<Rightarrow> outstanding \<Rightarrow> outstanding" where
  "give_event c event = (\<lambda>(n, pending). (n + 1,
     case to_payload event of
       None \<Rightarrow> pending
     | Some p \<Rightarrow> if observer_only p = None \<or> observer_only p = Some c then pending(n := Some p) else pending))"

fun outstanding_call :: "ClientId \<Rightarrow> event_call \<Rightarrow> outstanding \<Rightarrow> outstanding" where
  "outstanding_call c (Event_Round now evs) x = fold (give_event c) evs x"
| "outstanding_call c (Event_Ack envelope) (n, pending) =
     (n, case DeserializeNetworkEventAck (ev_payload envelope) of
           None \<Rightarrow> pending
         | Some ack \<Rightarrow> if na_clientId ack = c then pending(na_eventId ack := None) else pending)"

definition pending_payloads :: "ClientId \<Rightarrow> ('t, 'r) ServerNetworkHost \<Rightarrow> NetworkEventId \<Rightarrow> NetworkEventPayloadDTO option" where
  "pending_payloads c h i = (case um_find (nh_clientStateById h) c of
     None \<Rightarrow> None
   | Some r \<Rightarrow> map_option (\<lambda>p. ne_payload (pe_event p)) (um_find (rs_pendingReliableEvents r) i))"

definition outstanding_of :: "ClientId \<Rightarrow> ('t, 'r) ServerNetworkHost \<Rightarrow> outstanding" where
  "outstanding_of c h = (nh_nextNetworkEventId h, pending_payloads c h)"

lemma pending_payloads_fields [simp]:
  "pending_payloads c (h\<lparr>nh_transport := t\<rparr>) = pending_payloads c h"
  "pending_payloads c (h\<lparr>nh_nextNetworkEventId := n\<rparr>) = pending_payloads c h"
  "pending_payloads c (host_stat f h) = pending_payloads c h"
  by (simp_all add: pending_payloads_def fun_eq_iff host_stat_def)

text \<open>A transport that accepts every valid envelope for the client.\<close>

definition takes_events :: "'t transport_ops \<Rightarrow> ('t \<Rightarrow> bool) \<Rightarrow> ClientId \<Rightarrow> bool" where
  "takes_events T ok c \<longleftrightarrow> (\<forall>t e. ok t \<longrightarrow> ok (snd (tp_send T e t)) \<and> (ev_peerId e = c \<longrightarrow> valid_envelope e \<longrightarrow> fst (tp_send T e t)))"

lemma event_envelope_valid: "valid_envelope (event_envelope c ev)" "ev_peerId (event_envelope c ev) = c"
proof -
  have "length (SerializeNetworkEvent ev) \<le> kMaxNetworkPayloadBytes"
    by (cases "ne_payload ev") (simp_all add: SerializeNetworkEvent_def codec_unfold kMaxNetworkPayloadBytes_def)
  then show "valid_envelope (event_envelope c ev)"
    by (cases "KindForNetworkEvent ev") (simp_all add: valid_envelope_iff event_envelope_def)
  show "ev_peerId (event_envelope c ev) = c" by (simp add: event_envelope_def split_def Let_def)
qed

text \<open>A client with a replication state, over a transport that takes its events.\<close>

definition listening :: "('t \<Rightarrow> bool) \<Rightarrow> ClientId \<Rightarrow> ('t, 'r) ServerNetworkHost \<Rightarrow> bool" where
  "listening ok c h \<longleftrightarrow> ok (nh_transport h) \<and> um_find (nh_clientStateById h) c \<noteq> None"

section \<open>A send\<close>

lemma track_payload:
  "map_option (\<lambda>p. ne_payload (pe_event p)) (um_find (rs_pendingReliableEvents (TrackReliableEvent ev now r)) i) =
     (if i = ne_eventId ev
      then Some (case um_find (rs_pendingReliableEvents r) i of
             None \<Rightarrow> ne_payload ev | Some p \<Rightarrow> if pe_sendCount p = 0 then ne_payload ev else ne_payload (pe_event p))
      else map_option (\<lambda>p. ne_payload (pe_event p)) (um_find (rs_pendingReliableEvents r) i))"
  by (auto simp: TrackReliableEvent_def Let_def split: option.split)

lemma SendReliableEvent_listening:
  assumes "takes_events T ok c" and "listening ok c h" shows "listening ok c (SendReliableEvent T d ev now b h)"
  using assms by (auto simp: listening_def takes_events_def SendReliableEvent_def host_send_def2 host_stat_def Let_def split: option.split)

lemma SendReliableEvent_other:
  "d \<noteq> c \<Longrightarrow> pending_payloads c (SendReliableEvent T d ev now b h) = pending_payloads c h"
  by (simp add: SendReliableEvent_def host_send_def2 Let_def split: option.split)
    (simp add: pending_payloads_def fun_eq_iff)

text \<open>An event that is pending stays as it is, whether the transport takes it or not; a new one is pending.\<close>

lemma SendReliableEvent_again:
  assumes "pending_payloads c h (ne_eventId ev) = Some (ne_payload ev)"
  shows "pending_payloads d (SendReliableEvent T c ev now b h) = pending_payloads d h"
proof (cases "d = c")
  case True
  have "pending_payloads c (h\<lparr>nh_transport := t, nh_clientStateById := um_put c (TrackReliableEvent ev now r) (nh_clientStateById h)\<rparr>)
      = pending_payloads c h" if "um_find (nh_clientStateById h) c = Some r" for r t
    using assms that by (auto simp: pending_payloads_def track_payload fun_eq_iff split: option.splits)
  then show ?thesis using True
    by (simp add: SendReliableEvent_def host_send_def2 Let_def split: option.split)
qed (metis SendReliableEvent_other)

lemma SendReliableEvent_new:
  assumes "takes_events T ok c" and "listening ok c h" and "pending_payloads c h (ne_eventId ev) = None"
  shows "pending_payloads c (SendReliableEvent T c ev now b h) = (pending_payloads c h)(ne_eventId ev := Some (ne_payload ev))"
proof -
  obtain r where r: "um_find (nh_clientStateById h) c = Some r" using assms(2) by (auto simp: listening_def)
  have "fst (tp_send T (event_envelope c ev) (nh_transport h))"
    using assms(1,2) event_envelope_valid [of c ev] by (auto simp: takes_events_def listening_def)
  then show ?thesis using assms(3) r
    by (simp add: SendReliableEvent_def host_send_def2 Let_def) (auto simp: pending_payloads_def track_payload fun_eq_iff)
qed

lemma sends_again:
  assumes "\<forall>ev\<in>set evs. pending_payloads c h (ne_eventId ev) = Some (ne_payload ev)"
  shows "pending_payloads d (fold (\<lambda>ev. SendReliableEvent T c ev now b) evs h) = pending_payloads d h"
  using assms by (induction evs arbitrary: h) (simp_all add: SendReliableEvent_again)

section \<open>A tick\<close>

lemma resend_client_payloads:
  assumes "replicated n h" shows "pending_payloads d (resend_client T now c h) = pending_payloads d h"
proof (cases "um_find (nh_clientStateById h) c")
  case (Some r)
  note ok = replicatedD(1) [OF assms Some]
  have "pending_payloads c h (ne_eventId ev) = Some (ne_payload ev)"
    if ev: "ev \<in> set (ReliableEventsDueForResend now base limit r)" for ev base limit
  proof -
    from ev obtain i p where "(i, p) \<in> set (rs_pendingReliableEvents r)" "ev = pe_event p"
      by (auto simp: ReliableEventsDueForResend_def)
    then show ?thesis using ok Some
      by (auto simp: replication_ok_def pending_ok_def um_ok_find_iff [symmetric] pending_payloads_def)
  qed
  then show ?thesis by (simp add: resend_client_def Some sends_again)
qed (simp add: resend_client_def)

lemma ResendPending_payloads:
  fixes h :: "('a, 'b) ServerNetworkHost"
  assumes "replicated n h" shows "pending_payloads d (ResendPendingReliableEvents T now h) = pending_payloads d h"
proof -
  have "replicated n (fold (resend_client T now) cs h) \<and> pending_payloads d (fold (resend_client T now) cs h) = pending_payloads d h" for cs
  proof (rule fold_keeps [where P = "\<lambda>g. replicated n g \<and> pending_payloads d g = pending_payloads d h"])
    fix c and g :: "('a, 'b) ServerNetworkHost"
    assume "replicated n g \<and> pending_payloads d g = pending_payloads d h"
    then show "replicated n (resend_client T now c g) \<and> pending_payloads d (resend_client T now c g) = pending_payloads d h"
      using resend_client_replicated resend_client_payloads by metis
  qed (simp add: assms)
  then show ?thesis by (simp add: ResendPendingReliableEvents_def)
qed

lemma resend_client_listening:
  assumes "takes_events T ok c" and "listening ok c h"
  shows "listening ok c (resend_client T now d h)" and "nh_nextNetworkEventId (resend_client T now d h) = nh_nextNetworkEventId h"
proof -
  have "listening ok c (fold (\<lambda>ev. SendReliableEvent T d ev now b) evs h)
      \<and> nh_nextNetworkEventId (fold (\<lambda>ev. SendReliableEvent T d ev now b) evs h) = nh_nextNetworkEventId h" for evs b
    by (rule fold_keeps [where P = "\<lambda>g. listening ok c g \<and> nh_nextNetworkEventId g = nh_nextNetworkEventId h"])
      (simp_all add: assms SendReliableEvent_listening SendReliableEvent_keeps)
  with assms show "listening ok c (resend_client T now d h)" "nh_nextNetworkEventId (resend_client T now d h) = nh_nextNetworkEventId h"
    by (simp_all add: resend_client_def split: option.split)
qed

lemma ResendPending_listening:
  assumes "takes_events T ok c" and "listening ok c h"
  shows "listening ok c (ResendPendingReliableEvents T now h)"
    and "nh_nextNetworkEventId (ResendPendingReliableEvents T now h) = nh_nextNetworkEventId h"
proof -
  have "listening ok c (fold (resend_client T now) cs h) \<and> nh_nextNetworkEventId (fold (resend_client T now) cs h) = nh_nextNetworkEventId h" for cs
    by (rule fold_keeps [where P = "\<lambda>g. listening ok c g \<and> nh_nextNetworkEventId g = nh_nextNetworkEventId h"])
      (simp_all add: assms resend_client_listening [OF assms(1)])
  then show "listening ok c (ResendPendingReliableEvents T now h)"
    "nh_nextNetworkEventId (ResendPendingReliableEvents T now h) = nh_nextNetworkEventId h"
    by (simp_all add: ResendPendingReliableEvents_def)
qed

text \<open>An event that is given out is pending for the clients that are to be told it.\<close>

lemma sends_to_others:
  assumes "takes_events T ok c" and "listening ok c h" and "c \<notin> set cs"
  shows "listening ok c (fold (\<lambda>d g. if P d then g else SendReliableEvent T d ev now b g) cs h)
     \<and> outstanding_of c (fold (\<lambda>d g. if P d then g else SendReliableEvent T d ev now b g) cs h) = outstanding_of c h"
  using assms(2,3)
proof (induction cs arbitrary: h)
  case (Cons d cs)
  let ?h = "if P d then h else SendReliableEvent T d ev now b h"
  have "d \<noteq> c" using Cons.prems(2) by auto
  then have "listening ok c ?h" "outstanding_of c ?h = outstanding_of c h"
    using Cons.prems(1)
    by (simp_all add: outstanding_of_def SendReliableEvent_listening [OF assms(1)] SendReliableEvent_other SendReliableEvent_keeps)
  with Cons.IH [of ?h] Cons.prems(2) show ?case by simp
qed simp

lemma broadcast_event_outstanding:
  fixes h :: "('t, 'r) ServerNetworkHost"
  assumes T: "takes_events T ok c" and h: "listening ok c h" and rep: "replicated n h"
    and c: "distinct (nh_clients h)" "c \<in> set (nh_clients h)"
  shows "outstanding_of c (broadcast_event T now event h) = give_event c event (outstanding_of c h)"
    and "listening ok c (broadcast_event T now event h)"
proof -
  let ?n = "nh_nextNetworkEventId h"
  let ?h = "h\<lparr>nh_nextNetworkEventId := ?n + 1\<rparr>"
  have "outstanding_of c (broadcast_event T now event h) = give_event c event (outstanding_of c h)
     \<and> listening ok c (broadcast_event T now event h)"
  proof (cases "to_payload event")
    case None
    then show ?thesis using h
      by (simp add: broadcast_event_def next_event_def ToNetworkEventDTO_def give_event_def outstanding_of_def listening_def)
  next
    case (Some p)
    obtain ev where ev: "next_event event h = (Some ev, ?h)" "ne_eventId ev = ?n" "ne_payload ev = p"
      using Some by (simp add: next_event_def ToNetworkEventDTO_def)
    define f :: "ClientId \<Rightarrow> ('t, 'r) ServerNetworkHost \<Rightarrow> ('t, 'r) ServerNetworkHost" where
      "f = (\<lambda>d g. if observer_only p \<noteq> None \<and> observer_only p \<noteq> Some d then g else SendReliableEvent T d ev now False g)"
    obtain cs ds where clients: "nh_clients h = cs @ c # ds" "c \<notin> set cs" "c \<notin> set ds"
      using c by (metis distinct.simps(2) distinct_append not_distinct_conv_prefix split_list_first)
    have others: "listening ok c (fold f xs g) \<and> outstanding_of c (fold f xs g) = outstanding_of c g"
      if "listening ok c g" "c \<notin> set xs" for xs g
      using sends_to_others [OF T that] by (simp add: f_def)
    have h1: "listening ok c ?h" "outstanding_of c ?h = (?n + 1, pending_payloads c h)"
      using h by (simp_all add: listening_def outstanding_of_def)
    have fresh: "pending_payloads c h ?n = None"
      using replicatedD(2) [OF rep, of c _ ?n] by (force simp: pending_payloads_def split: option.split)
    have at_c: "listening ok c (f c g) \<and> outstanding_of c (f c g) = give_event c event (outstanding_of c h)"
      if g: "listening ok c g" "outstanding_of c g = outstanding_of c ?h" for g
    proof -
      have "pending_payloads c g = pending_payloads c h" "nh_nextNetworkEventId g = ?n + 1"
        using g(2) h1(2) by (simp_all add: outstanding_of_def)
      then show ?thesis using SendReliableEvent_new [OF T g(1), of ev] SendReliableEvent_listening [OF T g(1)] fresh g(1)
        by (auto simp: f_def outstanding_of_def give_event_def Some ev SendReliableEvent_keeps)
    qed
    have "broadcast_event T now event h = fold f ds (f c (fold f cs ?h))"
      by (simp add: broadcast_event_def ev(1,3) f_def Let_def) (simp add: clients(1))
    then show ?thesis using others [OF h1(1) clients(2)] at_c others [OF _ clients(3)] by metis
  qed
  then show "outstanding_of c (broadcast_event T now event h) = give_event c event (outstanding_of c h)"
    "listening ok c (broadcast_event T now event h)" by blast+
qed

lemma Broadcast_outstanding:
  assumes T: "takes_events T ok c"
  shows "listening ok c h \<Longrightarrow> replicated (length events) h \<Longrightarrow> distinct (nh_clients h) \<Longrightarrow> c \<in> set (nh_clients h) \<Longrightarrow>
     outstanding_of c (BroadcastReliableEvents T events now h) = fold (give_event c) events (outstanding_of c h)
     \<and> listening ok c (BroadcastReliableEvents T events now h)"
  unfolding BroadcastReliableEvents_def
proof (induction events arbitrary: h)
  case (Cons event events)
  let ?h = "broadcast_event T now event h"
  note step = broadcast_event_outstanding [OF T Cons.prems, of now event]
  have "replicated (length events) ?h" "nh_clients ?h = nh_clients h"
    using broadcast_event_replicated [of "length events" h T now event] Cons.prems by simp_all
  with Cons.IH [of ?h] Cons.prems step show ?case by simp
qed simp

section \<open>Any calls\<close>

lemma HandleNetworkEventAck_outstanding:
  "listening ok c h \<Longrightarrow> listening ok c (HandleNetworkEventAckEnvelope e h)"
  "outstanding_of c (HandleNetworkEventAckEnvelope e h) = outstanding_call c (Event_Ack e) (outstanding_of c h)"
proof -
  have "nh_nextNetworkEventId (HandleNetworkEventAckEnvelope e h) = nh_nextNetworkEventId h"
    by (simp add: HandleNetworkEventAckEnvelope_def host_stat_def Let_def split_def split: option.split)
  moreover have "pending_payloads c (HandleNetworkEventAckEnvelope e h) =
      (case DeserializeNetworkEventAck (ev_payload e) of None \<Rightarrow> pending_payloads c h
       | Some ack \<Rightarrow> if na_clientId ack = c then (pending_payloads c h)(na_eventId ack := None) else pending_payloads c h)"
    by (auto simp: HandleNetworkEventAckEnvelope_def AcknowledgeReliableEvent_def Let_def fun_eq_iff split: option.split)
      (auto simp: pending_payloads_def split: option.split)
  ultimately show "outstanding_of c (HandleNetworkEventAckEnvelope e h) = outstanding_call c (Event_Ack e) (outstanding_of c h)"
    by (simp add: outstanding_of_def)
  show "listening ok c h \<Longrightarrow> listening ok c (HandleNetworkEventAckEnvelope e h)"
    by (auto simp: HandleNetworkEventAckEnvelope_def listening_def host_stat_def Let_def split_def split: option.split)
qed

lemma event_run_outstanding:
  assumes T: "takes_events T ok c" and h: "listening ok c h" "replicated (length (call_events x)) h"
    and c: "distinct (nh_clients h)" "c \<in> set (nh_clients h)"
  shows "outstanding_of c (event_run T x h) = outstanding_call c x (outstanding_of c h) \<and> listening ok c (event_run T x h)"
proof (cases x)
  case (Event_Round now evs)
  let ?h = "BroadcastReliableEvents T evs now h"
  have rep: "replicated 0 ?h" using BroadcastReliableEvents_replicated [of evs 0 h] h(2) c(1) by (simp add: Event_Round)
  have "outstanding_of c ?h = fold (give_event c) evs (outstanding_of c h)" and l: "listening ok c ?h"
    using Broadcast_outstanding [OF T h(1) _ c] h(2) by (simp_all add: Event_Round)
  then show ?thesis using ResendPending_payloads [OF rep] ResendPending_listening [OF T l]
    by (simp add: Event_Round event_round_def outstanding_of_def)
qed (simp add: HandleNetworkEventAck_outstanding h(1) del: outstanding_call.simps)

lemma event_runs_outstanding:
  assumes T: "takes_events T ok c"
  shows "listening ok c h \<Longrightarrow> replicated (length (concat (map call_events xs))) h \<Longrightarrow> distinct (nh_clients h) \<Longrightarrow>
     c \<in> set (nh_clients h) \<Longrightarrow> outstanding_of c (fold (event_run T) xs h) = fold (outstanding_call c) xs (outstanding_of c h)"
proof (induction xs arbitrary: h)
  case (Cons x xs)
  let ?h = "event_run T x h" and ?n = "length (concat (map call_events xs))"
  have "replicated (length (call_events x)) h" by (rule replicated_mono [OF Cons.prems(2)]) simp
  note step = event_run_outstanding [OF T Cons.prems(1) this Cons.prems(3,4)]
  have "replicated ?n ?h" using event_run_replicated [of x ?n h T] Cons.prems(2,3) by simp
  with Cons.IH [of ?h] Cons.prems(3,4) step event_run_same [of h T x] show ?case by (simp add: same_clients_def)
qed simp

end
