(* ===== verification/Server_Properties.thy ===== *)
theory Server_Properties
  imports Reliable_Events Game_Properties Loopback_Pair
begin

text \<open>
  The properties of the server: its tick loop, the acknowledgements it believes, what it plans snapshots
  against, which events it keeps for a client and how often it sends one. The transport is any that keeps the contract
  \<open>transport\<close>; the witnesses take the loopback transport.
\<close>

section \<open>The tick loop\<close>

text \<open>C17. The server runs: over any transport that keeps its contract, and whatever the clients have sent,
  an application that was started runs the number of ticks it is asked for and is still running; the
  loop that pumps the clients' messages always ends.\<close>

theorem server_runs:
  fixes T :: "'t transport_ops" and E :: "'r entt_ops"
  assumes "transport T ok backlog" and "ok t"
    and "Start T E (new_ServerApplication (Some t) config) = (True, a)"
  shows "\<exists>a'. RunForTicks T E n startTimeMs a = Some a' \<and> as_running (App_Stats a')
     \<and> as_ticksRun (App_Stats a') = of_nat n"
proof -
  have "app_ok ok (new_ServerApplication (Some t) config :: ('t, 'r) ServerApplication)"
    by (rule app_ok_new) (use assms(2) in simp)
  from transport.Start_ok [OF assms(1) this, of E] have "app_ok ok a" by (simp add: assms(3))
  from transport.run_ticks_returns [OF assms(1) this, of E startTimeMs "[0..<n]"] obtain a' where
    "run_ticks T E startTimeMs [0..<n] a = Some a'" "sa_running a' = sa_running a"
    "sa_ticksRun a' = sa_ticksRun a + (if sa_running a then of_nat n else 0)" by auto
  moreover have "sa_running a" "sa_ticksRun a = 0"
    using assms(3) by (auto simp: Start_def new_ServerApplication_def split: prod.splits bool.splits)
  ultimately show ?thesis by (simp add: RunForTicks_def App_Stats_def)
qed

abbreviation server_end :: LoopbackTransport where
  "server_end \<equiv> endpoint_of Endpoint_B (CreatePair no_conditions)"

lemma server_end_ok: "loopback_ok server_end" "lt_state server_end \<noteq> None"
  by (simp_all add: loopback_ok_def endpoint_of_def CreatePair_def new_LoopbackTransport_def
      default_LoopbackTransport_def IncomingQueue_def queues_def empty_SharedState_def)

theorem server_runs_witness:
  "\<exists>a'. RunForTicks loopback_transport list_registry 3 0 (snd (Start loopback_transport list_registry
        (new_ServerApplication (Some server_end) default_ServerApplicationConfig))) = Some a'
     \<and> as_ticksRun (App_Stats a') = 3"
proof -
  let ?s = "Start loopback_transport list_registry
    (new_ServerApplication (Some server_end) default_ServerApplicationConfig)"
  have "fst ?s" using server_end_ok(2)
    by (auto simp: Start_def new_ServerApplication_def loopback_transport_def Loopback_Connect_def
        split: prod.splits)
  then have "?s = (True, snd ?s)" by (metis prod.collapse)
  from server_runs [OF loopback.transport_axioms server_end_ok(1) this, of 3 0] show ?thesis by auto
qed

section \<open>Acknowledgements\<close>

text \<open>C13. Pumping the clients' messages, whatever they are, ends; it forgets no client, and it moves the
  acknowledged snapshot of a client only forward and only to a snapshot the baseline cache holds for that
  very client.\<close>

theorem server_acks_only_grow:
  fixes h :: "('t, 'r) ServerNetworkHost"
  assumes "transport T ok backlog" and "ok (nh_transport h)" and "registered h"
    and "um_find (nh_clientStateById h) c = Some r"
  shows "\<exists>h' r'. PumpClientMessages T E h = Some h' \<and> um_find (nh_clientStateById h') c = Some r'
     \<and> (rs_ackedSnapshot r' = rs_ackedSnapshot r
        \<or> rs_ackedSnapshot r < rs_ackedSnapshot r'
          \<and> Find_baseline (nh_baselineCache h) c (rs_ackedSnapshot r') \<noteq> None)"
proof -
  have "host_inv ok backlog (backlog (nh_transport h)) h" using assms(2,3) by (simp add: host_inv_def)
  from transport.PumpClientMessages_acks [OF assms(1) this, of E] obtain h' where
    h': "PumpClientMessages T E h = Some h'" "acks_since h h'" by blast
  from acks_sinceD [OF h'(2) assms(4)] h'(1) show ?thesis by (auto simp: newer_ack_def)
qed

definition sample_host :: "(LoopbackTransport, list_registry) ServerNetworkHost" where
  "sample_host = (new_ServerNetworkHost list_registry server_end default_HostConfig)
     \<lparr>nh_clients := [42], nh_clientStateById := [(42, new_ReplicationState 42)]\<rparr>"

theorem server_acks_only_grow_witness:
  "\<exists>h' r'. PumpClientMessages loopback_transport list_registry sample_host = Some h'
     \<and> um_find (nh_clientStateById h') 42 = Some r'"
proof -
  have "registered sample_host"
    by (auto simp: registered_def sample_host_def um_ok_def new_ReplicationState_def)
  moreover have "nh_transport sample_host = server_end"
    by (simp add: sample_host_def new_ServerNetworkHost_def)
  moreover have "um_find (nh_clientStateById sample_host) 42 = Some (new_ReplicationState 42)"
    by (simp add: sample_host_def)
  ultimately show ?thesis
    using server_acks_only_grow [OF loopback.transport_axioms, of sample_host 42] server_end_ok(1) by fastforce
qed

section \<open>Snapshots\<close>

text \<open>C25. A snapshot is planned with the next snapshot number, and it is eligible for a delta exactly when
  the client has acknowledged a snapshot that the cache still holds for it; that snapshot is then its
  baseline, and otherwise it is full with baseline zero. It becomes a baseline itself exactly when the
  transport accepted it, and a snapshot that was not accepted changes no client's state.\<close>

theorem delta_only_against_ack:
  fixes h :: "('t, 'r) ServerNetworkHost" and T E c now
  defines "sn \<equiv> pl_snapshot (fst (plan_snapshot E c h))"
    and "sent \<equiv> fst (SendSnapshot T E c now h)" and "h' \<equiv> snd (SendSnapshot T E c now h)"
  shows "sn_snapshotId sn = sv_nextSnapshotId (nh_runtime h)
     \<and> (sn_deliveryKind sn = DeltaEligible \<longleftrightarrow> requested_baseline c h \<noteq> 0
          \<and> Find_baseline (nh_baselineCache h) c (requested_baseline c h) \<noteq> None)
     \<and> sn_baselineId sn = (if sn_deliveryKind sn = DeltaEligible then requested_baseline c h else 0)
     \<and> (sent \<longleftrightarrow> fst (tp_send T (snapshot_envelope c sn) (nh_transport h)))
     \<and> nh_baselineCache h' = (if sent then Store c sn (nh_baselineCache h) else nh_baselineCache h)
     \<and> (if sent then True else nh_clientStateById h' = nh_clientStateById h)"
  using plan_snapshot_header [of E c h] SendSnapshot_cases [of sn E c h T now]
  by (simp add: sn_def sent_def h'_def)

section \<open>Reliable events\<close>

text \<open>C14. Every event that a client has not acknowledged is pending, and resending is bounded. Over any rounds, each the
  part of a tick that broadcasts its events and resends (the events of interest that snapshots cause are left aside),
  and any acknowledgements between them: what is pending for a client over a transport that takes its messages is
  exactly what it was to be told since the start and has not acknowledged, each event under the
  number it was given. Whatever the transport does, a pending event carries its own number, one that was given out, and was
  sent at least once and at most as often as the limit. As long as the times do not wrap it is due again exactly when it was
  sent fewer times than that and the base interval, doubled with every send up to sixteen times, has passed since it was
  sent last. The host starts without pending events and with distinct clients, has a limit, and does not run out of
  numbers.\<close>

theorem reliable_resend_bounded:
  fixes h :: "('t, 'r) ServerNetworkHost" and calls T c
  defines "h' \<equiv> fold (event_run T) calls h"
  assumes "distinct (nh_clients h)"
    and "\<forall>c r. um_find (nh_clientStateById h) c = Some r \<longrightarrow> rs_pendingReliableEvents r = []"
    and "unat (nh_nextNetworkEventId h) + length (concat (map call_events calls)) < 2 ^ 32"
    and limit: "limit = nc_reliableEventMaxSendCount (nh_config h)" "limit \<noteq> 0"
    and r: "um_find (nh_clientStateById h') c = Some r"
  shows "(takes_events T ok c \<and> listening ok c h \<and> c \<in> set (nh_clients h) \<longrightarrow>
       (nh_nextNetworkEventId h', \<lambda>i. map_option (\<lambda>p. ne_payload (pe_event p)) (um_find (rs_pendingReliableEvents r) i))
       = fold (outstanding_call c) calls (nh_nextNetworkEventId h, \<lambda>i. None))
     \<and> (\<forall>i p. um_find (rs_pendingReliableEvents r) i = Some p \<longrightarrow>
          ne_eventId (pe_event p) = i \<and> i < nh_nextNetworkEventId h' \<and> 0 < pe_sendCount p \<and> pe_sendCount p \<le> limit
          \<and> (unat (pe_lastSentAtMs p) + unat base * 16 < 2 ^ 64 \<longrightarrow>
               (due_for_resend now base limit p \<longleftrightarrow> pe_sendCount p < limit
                  \<and> unat (pe_lastSentAtMs p) + unat base * 2 ^ min (unat (pe_sendCount p) - 1) 4 \<le> unat now)))"
proof -
  have start: "replicated (length (concat (map call_events calls))) h"
    using assms(3,4) by (auto simp: replicated_def replication_ok_def)
  from event_runs_replicated [OF this assms(2), of T] have rep: "replicated 0 h'" by (simp add: h'_def)
  have "same_clients h h'" unfolding h'_def by (rule fold_same) (rule event_run_same)
  then have "nc_reliableEventMaxSendCount (nh_config h') = limit" by (simp add: same_clients_def limit)
  with replicatedD(1) [OF rep r] have ok: "replication_ok limit r" by simp
  then have pend: "um_find (rs_pendingReliableEvents r) i = Some p \<Longrightarrow> pending_ok limit i p" for i p
    by (simp add: replication_ok_def)
  have none: "pending_payloads c h = (\<lambda>i. None)"
    using assms(3) by (auto simp: pending_payloads_def fun_eq_iff split: option.split)
  have now: "outstanding_of c h' = (nh_nextNetworkEventId h', \<lambda>i. map_option (\<lambda>p. ne_payload (pe_event p)) (um_find (rs_pendingReliableEvents r) i))"
    by (simp add: outstanding_of_def pending_payloads_def r fun_eq_iff)
  show ?thesis
    using event_runs_outstanding [OF _ _ start assms(2), of T ok c] now none pend replicatedD(2) [OF rep r]
      due_for_resend_iff [OF limit(2)] limit(2)
    by (auto simp: outstanding_of_def pending_ok_def h'_def)
qed

text \<open>For the witness: a transport that accepts what it is given, with one client at the server.\<close>

definition accepting_transport :: "unit transport_ops" where
  "accepting_transport = \<lparr>tp_connect = \<lambda>t. (True, t), tp_update = \<lambda>t. t, tp_close = \<lambda>t. t,
     tp_send = \<lambda>e t. (True, t), tp_poll = \<lambda>t. (None, t), tp_state = \<lambda>t. Connected,
     tp_stats = \<lambda>t. zero_TransportStats, tp_lastError = \<lambda>t. TE_None\<rparr>"

definition one_client_host :: "(unit, list_registry) ServerNetworkHost" where
  "one_client_host = (new_ServerNetworkHost list_registry () default_HostConfig)
     \<lparr>nh_clients := [42], nh_clientStateById := [(42, new_ReplicationState 42)]\<rparr>"

text \<open>A player dies and returns, the client acknowledges the second event, and a later tick resends the first.\<close>

definition sample_ack :: NetworkEnvelope where
  "sample_ack = \<lparr>ev_protocolVersion = kProtocolVersion, ev_peerId = 42, ev_channel = ExpectedChannelFor Mc_NetworkEventAck,
     ev_messageClass = Mc_NetworkEventAck, ev_sequence = 1,
     ev_payload = SerializeNetworkEventAck \<lparr>na_clientId = 42, na_eventId = 2, na_clientReceivedAtMs = 120\<rparr>\<rparr>"

definition sample_calls :: "event_call list" where
  "sample_calls = [Event_Round 100 [PlayerDied 1 2 900, PlayerRespawned 1 5 5], Event_Ack sample_ack, Event_Round 350 []]"

lemma sample_ack_read: "DeserializeNetworkEventAck (ev_payload sample_ack) = Some \<lparr>na_clientId = 42, na_eventId = 2, na_clientReceivedAtMs = 120\<rparr>"
  using event_ack_msg.dec_iff [of "ev_payload sample_ack"] by (simp add: sample_ack_def)

lemma sample_runs:
  "\<exists>r p. um_find (nh_clientStateById (fold (event_run accepting_transport) sample_calls one_client_host)) 42 = Some r
     \<and> um_find (rs_pendingReliableEvents r) 1 = Some p \<and> pe_lastSentAtMs p = 350 \<and> pe_sendCount p = 2"
  by (simp add: sample_calls_def one_client_host_def new_ServerNetworkHost_def event_round_def
      HandleNetworkEventAckEnvelope_def sample_ack_read AcknowledgeReliableEvent_def
      BroadcastReliableEvents_def broadcast_event_def next_event_def ToNetworkEventDTO_def SendReliableEvent_def
      host_send_def accepting_transport_def host_stat_def TrackReliableEvent_def new_ReplicationState_def
      ResendPendingReliableEvents_def resend_client_def ReliableEventsDueForResend_def due_for_resend_def
      default_HostConfig_def Let_def word_le_nat_alt)

theorem reliable_resend_bounded_witness:
  "\<exists>r p. um_find (nh_clientStateById (fold (event_run accepting_transport) sample_calls one_client_host)) 42 = Some r
     \<and> um_find (rs_pendingReliableEvents r) 1 = Some p \<and> ne_payload (pe_event p) = PlayerDiedEventDTO 1 2 900
     \<and> um_find (rs_pendingReliableEvents r) 2 = None \<and> \<not> due_for_resend 849 250 8 p \<and> due_for_resend 850 250 8 p"
proof -
  obtain r p where rp: "um_find (nh_clientStateById (fold (event_run accepting_transport) sample_calls one_client_host)) 42 = Some r"
    "um_find (rs_pendingReliableEvents r) 1 = Some p" "pe_lastSentAtMs p = 350" "pe_sendCount p = 2"
    using sample_runs by blast
  have start: "distinct (nh_clients one_client_host)" "nh_nextNetworkEventId one_client_host = 1" and "42 \<in> set (nh_clients one_client_host)"
    by (simp_all add: one_client_host_def new_ServerNetworkHost_def)
  have none: "\<forall>c r. um_find (nh_clientStateById one_client_host) c = Some r \<longrightarrow> rs_pendingReliableEvents r = []"
    by (auto simp: one_client_host_def new_ReplicationState_def split: if_splits)
  have room: "unat (nh_nextNetworkEventId one_client_host) + length (concat (map call_events sample_calls)) < 2 ^ 32"
    and limit: "8 = nc_reliableEventMaxSendCount (nh_config one_client_host)" "(8 :: u32) \<noteq> 0"
    by (simp_all add: one_client_host_def new_ServerNetworkHost_def default_HostConfig_def sample_calls_def)
  note T = reliable_resend_bounded [where ok = "\<lambda>t. True" and base = 250, OF start(1) none room limit rp(1)]
  have "takes_events accepting_transport (\<lambda>t. True) 42" "listening (\<lambda>t. True) 42 one_client_host"
    by (simp_all add: takes_events_def accepting_transport_def listening_def one_client_host_def)
  with \<open>42 \<in> set (nh_clients one_client_host)\<close> have "(nh_nextNetworkEventId (fold (event_run accepting_transport) sample_calls one_client_host),
        \<lambda>i. map_option (\<lambda>p. ne_payload (pe_event p)) (um_find (rs_pendingReliableEvents r) i))
       = fold (outstanding_call 42) sample_calls (1, \<lambda>i. None)"
    using T [THEN conjunct1] unfolding start(2) by blast
  from arg_cong [OF this, of "\<lambda>x. snd x 1"] arg_cong [OF this, of "\<lambda>x. snd x 2"]
  have "ne_payload (pe_event p) = PlayerDiedEventDTO 1 2 900" "um_find (rs_pendingReliableEvents r) 2 = None"
    by (simp_all add: sample_calls_def give_event_def sample_ack_read rp(2))
  moreover have "due_for_resend now 250 8 p \<longleftrightarrow> 850 \<le> unat now" for now
    using T [THEN conjunct2, rule_format, OF rp(2), of now] rp(3,4) by simp
  then have "\<not> due_for_resend 849 250 8 p" "due_for_resend 850 250 8 p" by simp_all
  ultimately show ?thesis using rp by blast
qed

end
