(* ===== verification/Client_Presentation.thy ===== *)
theory Client_Presentation
  imports Snapshot_Store
begin

text \<open>
  The client's buffers of snapshots and inputs: the inputs that the server has not acknowledged
  (\<open>src/Client/src/PendingInputHistory.cpp\<close>), the interpolation buffer of \<open>ClientRuntime.hpp\<close>, and
  the interpolator that samples a frame between two snapshots (\<open>PresentationInterpolator.cpp\<close>).
  Both snapshot buffers interpret \<open>bounded_history\<close>.
\<close>

section \<open>Pending inputs\<close>

record PendingInputHistory =
  ph_unackedInputs :: "ClientInputPacket list"

definition new_PendingInputHistory :: PendingInputHistory where
  "new_PendingInputHistory = \<lparr>ph_unackedInputs = []\<rparr>"

definition Record_input :: "ClientInputPacket \<Rightarrow> PendingInputHistory \<Rightarrow> PendingInputHistory" where
  "Record_input packet h = h\<lparr>ph_unackedInputs := ph_unackedInputs h @ [packet]\<rparr>"

definition AcknowledgeThrough :: "CommandSequence \<Rightarrow> PendingInputHistory \<Rightarrow> PendingInputHistory" where
  "AcknowledgeThrough sequence h =
     h\<lparr>ph_unackedInputs := filter (\<lambda>packet. \<not> hd_sequence (ip_header packet) \<le> sequence) (ph_unackedInputs h)\<rparr>"

definition pending_size :: "PendingInputHistory \<Rightarrow> nat" where
  "pending_size h = length (ph_unackedInputs h)"

definition pending_Clear :: "PendingInputHistory \<Rightarrow> PendingInputHistory" where
  "pending_Clear h = h\<lparr>ph_unackedInputs := []\<rparr>"

section \<open>The interpolation buffer\<close>

record InterpolationBuffer =
  ib_snapshots :: "SnapshotDTO list"
  ib_maxSnapshots :: nat

definition new_InterpolationBuffer :: InterpolationBuffer where
  "new_InterpolationBuffer = \<lparr>ib_snapshots = [], ib_maxSnapshots = 32\<rparr>"

definition Push_interpolation :: "SnapshotDTO \<Rightarrow> InterpolationBuffer \<Rightarrow> InterpolationBuffer" where
  "Push_interpolation snapshot b =
     b\<lparr>ib_snapshots := pop_front_to (ib_maxSnapshots b) (ib_snapshots b @ [snapshot])\<rparr>"

definition SampleAt :: "InterpolationBuffer \<Rightarrow> TimestampMs \<Rightarrow> SnapshotDTO option" where
  "SampleAt b serverRenderTimeMs =
     last_such (\<lambda>snapshot. sn_serverTimeMs snapshot \<le> serverRenderTimeMs) (ib_snapshots b) None"

definition interpolation_size :: "InterpolationBuffer \<Rightarrow> nat" where
  "interpolation_size b = length (ib_snapshots b)"

interpretation interpolation: bounded_history Push_interpolation ib_snapshots ib_maxSnapshots
  by unfold_locales (simp_all add: Push_interpolation_def)

section \<open>The presentation interpolator\<close>

record PresentationInterpolationConfig =
  pc_interpolationDelayMs :: TimestampMs
  pc_maxSnapshots :: nat

definition default_PresentationConfig :: PresentationInterpolationConfig where
  "default_PresentationConfig = \<lparr>pc_interpolationDelayMs = 100, pc_maxSnapshots = 32\<rparr>"

record InterpolatedEntityState =
  ie_entityId :: NetworkEntityId
  ie_ownerClientId :: ClientId
  ie_kind :: ReplicatedEntityKind
  ie_priority :: SnapshotPriority
  ie_x :: Fixed
  ie_y :: Fixed
  ie_aimX :: i16
  ie_aimY :: i16
  ie_health :: i32
  ie_maxHealth :: i32
  ie_weaponType :: WeaponType
  ie_weaponWarming :: bool
  ie_defeated :: bool
  ie_serverOwnedProjectile :: bool

record PresentationFrame =
  pf_renderServerTimeMs :: TimestampMs
  pf_fromSnapshotId :: SnapshotId
  pf_toSnapshotId :: SnapshotId
  pf_alphaPermille :: u16
  pf_entities :: "InterpolatedEntityState list"

definition empty_PresentationFrame :: PresentationFrame where
  "empty_PresentationFrame = \<lparr>pf_renderServerTimeMs = 0, pf_fromSnapshotId = 0, pf_toSnapshotId = 0,
     pf_alphaPermille = 0, pf_entities = []\<rparr>"

record PresentationInterpolator =
  pi_config :: PresentationInterpolationConfig
  pi_snapshots :: "SnapshotDTO list"

definition new_PresentationInterpolator :: "PresentationInterpolationConfig \<Rightarrow> PresentationInterpolator" where
  "new_PresentationInterpolator config = \<lparr>pi_config = config, pi_snapshots = []\<rparr>"

definition PushSnapshot :: "SnapshotDTO \<Rightarrow> PresentationInterpolator \<Rightarrow> PresentationInterpolator" where
  "PushSnapshot snapshot p =
     p\<lparr>pi_snapshots := pop_front_to (pc_maxSnapshots (pi_config p)) (pi_snapshots p @ [snapshot])\<rparr>"

interpretation presentation: bounded_history PushSnapshot pi_snapshots "\<lambda>p. pc_maxSnapshots (pi_config p)"
  by unfold_locales (simp_all add: PushSnapshot_def)

definition FindSourceEntity :: "SnapshotDTO \<Rightarrow> NetworkEntityId \<Rightarrow> EntityStateDTO option" where
  "FindSourceEntity snapshot entityId =
     find (\<lambda>entity. rp_entityId (es_replication entity) = entityId) (sn_entities snapshot)"

definition LerpFixed :: "Fixed \<Rightarrow> Fixed \<Rightarrow> u16 \<Rightarrow> Fixed" where
  "LerpFixed src dst alphaPermille =
     (let delta = sint dst - sint src
      in cast_i32 (sint src + wrap64 (delta * uint alphaPermille) sdiv 1000))"

text \<open>The product is a 32-bit signed one.\<close>

definition LerpAim :: "i16 \<Rightarrow> i16 \<Rightarrow> u16 \<Rightarrow> i16" where
  "LerpAim src dst alphaPermille =
     (let delta = sint dst - sint src
      in cast_i16 (sint src + sint (cast_i32 (delta * uint alphaPermille)) sdiv 1000))"

definition ToInterpolatedEntity ::
    "EntityStateDTO \<Rightarrow> EntityStateDTO option \<Rightarrow> u16 \<Rightarrow> InterpolatedEntityState" where
  "ToInterpolatedEntity target source alphaPermille =
     (let r = es_replication target; m = es_movement target;
          entity = \<lparr>ie_entityId = rp_entityId r, ie_ownerClientId = rp_ownerClientId r, ie_kind = rp_kind r,
            ie_priority = rp_priority r, ie_x = mv_x m, ie_y = mv_y m, ie_aimX = mv_aimX m, ie_aimY = mv_aimY m,
            ie_health = 100, ie_maxHealth = 100, ie_weaponType = WeaponNone, ie_weaponWarming = False,
            ie_defeated = False, ie_serverOwnedProjectile = False\<rparr>;
          entity = (case source of
              None \<Rightarrow> entity
            | Some src \<Rightarrow> let f = es_movement src in entity\<lparr>
                ie_x := LerpFixed (mv_x f) (mv_x m) alphaPermille,
                ie_y := LerpFixed (mv_y f) (mv_y m) alphaPermille,
                ie_aimX := LerpAim (mv_aimX f) (mv_aimX m) alphaPermille,
                ie_aimY := LerpAim (mv_aimY f) (mv_aimY m) alphaPermille\<rparr>)
      in case es_combat target of
           None \<Rightarrow> entity
         | Some combat \<Rightarrow> entity\<lparr>ie_health := cb_health combat, ie_maxHealth := cb_maxHealth combat,
             ie_weaponType := cb_weaponType combat, ie_weaponWarming := cb_weaponWarming combat,
             ie_defeated := cb_defeated combat, ie_serverOwnedProjectile := cb_serverOwnedProjectile combat\<rparr>)"

text \<open>
  The scan for the two snapshots around the render time. It works on pointers into the buffer, and
  the code compares them; the model keeps their indexes.
\<close>

fun scan_snapshots :: "TimestampMs \<Rightarrow> SnapshotDTO list \<Rightarrow> nat \<Rightarrow> nat option \<Rightarrow> nat option \<times> nat option" where
  "scan_snapshots render [] i src = (src, None)"
| "scan_snapshots render (snapshot # rest) i src =
     (if sn_serverTimeMs snapshot \<le> render then scan_snapshots render rest (i + 1) (Some i)
      else (src, Some i))"

definition render_time :: "PresentationInterpolator \<Rightarrow> TimestampMs \<Rightarrow> TimestampMs" where
  "render_time p now =
     (let delay = pc_interpolationDelayMs (pi_config p) in if now > delay then now - delay else 0)"

definition sample_bounds :: "SnapshotDTO list \<Rightarrow> TimestampMs \<Rightarrow> nat \<times> nat" where
  "sample_bounds snapshots render =
     (let (src, dst) = scan_snapshots render snapshots 0 None;
          src = (case src of None \<Rightarrow> 0 | Some i \<Rightarrow> i)
      in (src, case dst of None \<Rightarrow> src | Some i \<Rightarrow> i))"

definition sample_alpha :: "SnapshotDTO \<Rightarrow> SnapshotDTO \<Rightarrow> TimestampMs \<Rightarrow> u16" where
  "sample_alpha src dst render =
     (let elapsedMs = (if render > sn_serverTimeMs src then render - sn_serverTimeMs src else 0);
          durationMs = sn_serverTimeMs dst - sn_serverTimeMs src
      in ucast (min ((elapsedMs * 1000) div durationMs) 1000))"

definition Sample :: "PresentationInterpolator \<Rightarrow> TimestampMs \<Rightarrow> PresentationFrame" where
  "Sample p estimatedServerNowMs =
     (if pi_snapshots p = [] then empty_PresentationFrame
      else
      let render = render_time p estimatedServerNowMs;
          (i, j) = sample_bounds (pi_snapshots p) render;
          src = pi_snapshots p ! i;
          dst = pi_snapshots p ! j;
          alpha = (if j \<noteq> i \<and> sn_serverTimeMs dst > sn_serverTimeMs src
                   then sample_alpha src dst render else 0)
      in \<lparr>pf_renderServerTimeMs = render, pf_fromSnapshotId = sn_snapshotId src,
          pf_toSnapshotId = sn_snapshotId dst, pf_alphaPermille = alpha,
          pf_entities = map (\<lambda>target. ToInterpolatedEntity target
            (if i = j then None else FindSourceEntity src (rp_entityId (es_replication target))) alpha)
            (sn_entities dst)\<rparr>)"

definition SnapshotCount :: "PresentationInterpolator \<Rightarrow> nat" where
  "SnapshotCount p = length (pi_snapshots p)"

definition presentation_Clear :: "PresentationInterpolator \<Rightarrow> PresentationInterpolator" where
  "presentation_Clear p = p\<lparr>pi_snapshots := []\<rparr>"

section \<open>Interpolation stays between its endpoints\<close>

definition between :: "int \<Rightarrow> int \<Rightarrow> int \<Rightarrow> bool" where
  "between a b v \<longleftrightarrow> min a b \<le> v \<and> v \<le> max a b"

lemma scaled_between:
  assumes "0 \<le> k" and "k \<le> (1000 :: int)"
  shows "between a b (a + ((b - a) * k) sdiv 1000)"
proof (cases "a \<le> b")
  case True
  then have "0 \<le> (b - a) * k" "(b - a) * k \<le> (b - a) * 1000"
    using assms mult_left_mono [of k 1000 "b - a"] by (auto simp only: diff_ge_0_iff_ge intro: mult_nonneg_nonneg)
  then have "0 sdiv 1000 \<le> ((b - a) * k) sdiv 1000" "((b - a) * k) sdiv 1000 \<le> ((b - a) * 1000) sdiv 1000"
    by (simp_all only: sdiv_mono)
  then have "0 \<le> ((b - a) * k) sdiv 1000 \<and> ((b - a) * k) sdiv 1000 \<le> b - a"
    using sdiv_mult_cancel [of 1000 "b - a"] by auto
  with True show ?thesis by (simp add: between_def)
next
  case False
  then have "(b - a) * k \<le> 0" "(b - a) * 1000 \<le> (b - a) * k"
    using assms mult_left_mono_neg [of k 1000 "b - a"] by (auto simp only: diff_le_0_iff_le not_le less_imp_le intro: mult_nonpos_nonneg)
  then have "((b - a) * k) sdiv 1000 \<le> 0 sdiv 1000" "((b - a) * 1000) sdiv 1000 \<le> ((b - a) * k) sdiv 1000"
    by (simp_all only: sdiv_mono)
  then have "((b - a) * k) sdiv 1000 \<le> 0 \<and> b - a \<le> ((b - a) * k) sdiv 1000"
    using sdiv_mult_cancel [of 1000 "b - a"] by auto
  with False show ?thesis by (simp add: between_def)
qed

lemma scaled_bound:
  assumes "\<bar>d\<bar> \<le> (B :: int)" and "0 \<le> k" and "k \<le> 1000"
  shows "\<bar>d * k\<bar> \<le> B * 1000"
  using assms by (simp add: abs_mult mult_mono)

lemma range_diff:
  "- B \<le> x \<and> x < (B :: int) \<Longrightarrow> - B \<le> y \<and> y < B \<Longrightarrow> \<bar>y - x\<bar> \<le> 2 * B"
  by auto

lemma wrap64_scaled: "\<bar>p\<bar> \<le> 2 * 2 ^ 31 * 1000 \<Longrightarrow> wrap64 p = p"
  by (rule wrap64_id) (simp_all add: abs_le_iff)

lemma cast_i32_scaled: "\<bar>p\<bar> \<le> 2 * 2 ^ 15 * 1000 \<Longrightarrow> sint (cast_i32 p) = p"
  by (rule sint_cast_i32) (simp_all add: abs_le_iff)

lemma sint_cast_i32_between: "between (sint (a :: i32)) (sint (b :: i32)) v \<Longrightarrow> sint (cast_i32 v) = v"
  using sint_i32_range [of a] sint_i32_range [of b]
  by (intro sint_cast_i32) (simp_all add: between_def min_le_iff_disj le_max_iff_disj, linarith+)

lemma sint_cast_i16_between: "between (sint (a :: i16)) (sint (b :: i16)) v \<Longrightarrow> sint (cast_i16 v) = v"
  using sint_i16_range [of a] sint_i16_range [of b]
  by (intro sint_cast_i16) (simp_all add: between_def min_le_iff_disj le_max_iff_disj, linarith+)

lemma LerpFixed_between:
  assumes "unat alpha \<le> 1000"
  shows "between (sint a) (sint b) (sint (LerpFixed a b alpha))"
proof -
  let ?k = "uint alpha" and ?d = "sint b - sint a"
  have k: "0 \<le> ?k" "?k \<le> 1000" using assms by (simp_all only: unat_eq_nat_uint nat_le_iff of_nat_numeral uint_ge_0)
  from wrap64_scaled [OF scaled_bound [OF range_diff [OF sint_i32_range sint_i32_range] k]] have "wrap64 (?d * ?k) = ?d * ?k" .
  then show ?thesis using scaled_between [OF k]
    by (simp only: LerpFixed_def Let_def sint_cast_i32_between [OF scaled_between [OF k]])
qed

lemma LerpAim_between:
  assumes "unat alpha \<le> 1000"
  shows "between (sint a) (sint b) (sint (LerpAim a b alpha))"
proof -
  let ?k = "uint alpha" and ?d = "sint b - sint a"
  have k: "0 \<le> ?k" "?k \<le> 1000" using assms by (simp_all only: unat_eq_nat_uint nat_le_iff of_nat_numeral uint_ge_0)
  from cast_i32_scaled [OF scaled_bound [OF range_diff [OF sint_i16_range sint_i16_range] k]] have "sint (cast_i32 (?d * ?k)) = ?d * ?k" .
  then show ?thesis using scaled_between [OF k]
    by (simp only: LerpAim_def Let_def sint_cast_i16_between [OF scaled_between [OF k]])
qed

lemma sample_alpha_bound: "unat (sample_alpha src dst render) \<le> 1000"
proof -
  define v where "v = min (((if render > sn_serverTimeMs src then render - sn_serverTimeMs src else 0) * 1000)
    div (sn_serverTimeMs dst - sn_serverTimeMs src)) (1000 :: u64)"
  have "v \<le> 1000" by (simp add: v_def)
  then have "unat v \<le> 1000" by (simp add: word_le_nat_alt)
  then show ?thesis by (simp add: sample_alpha_def Let_def flip: v_def) (simp add: unsigned_ucast_eq unsigned_take_bit_eq take_bit_nat_eq_self)
qed

section \<open>The snapshots around the render time\<close>

lemma scan_snapshots_eq:
  "scan_snapshots render xs i src =
     (let n = length (takeWhile (\<lambda>s. sn_serverTimeMs s \<le> render) xs)
      in (if n = 0 then src else Some (i + n - 1), if n < length xs then Some (i + n) else None))"
  by (induction xs arbitrary: i src) (auto simp: Let_def)

lemma sample_bounds_eq:
  "sample_bounds xs render =
     (let n = length (takeWhile (\<lambda>s. sn_serverTimeMs s \<le> render) xs)
      in (n - 1, if n < length xs then n else n - 1))"
  by (auto simp: sample_bounds_def scan_snapshots_eq Let_def)

text \<open>
  Both are snapshots of the buffer, next to each other; the first is the last of those that the
  render time has reached, and the second is the first that it has not, where there are such.
\<close>

lemma sample_bounds_around:
  assumes "sample_bounds xs render = (i, j)" and "xs \<noteq> []"
  shows "i < length xs \<and> j < length xs \<and> (j = i \<or> j = Suc i)
     \<and> (i \<noteq> j \<longrightarrow> sn_serverTimeMs (xs ! i) \<le> render \<and> render < sn_serverTimeMs (xs ! j))
     \<and> (\<forall>k<i. sn_serverTimeMs (xs ! k) \<le> render)"
proof -
  define n where "n = length (takeWhile (\<lambda>s. sn_serverTimeMs s \<le> render) xs)"
  have ij: "i = n - 1" "j = (if n < length xs then n else n - 1)"
    using assms(1) by (auto simp: sample_bounds_eq Let_def n_def)
  have n: "n \<le> length xs" by (simp add: n_def length_takeWhile_le)
  have below: "sn_serverTimeMs (xs ! k) \<le> render" if "k < n" for k
    using that nth_mem [of k "takeWhile (\<lambda>s. sn_serverTimeMs s \<le> render) xs"]
    by (auto simp: n_def takeWhile_nth dest: set_takeWhileD)
  have above: "render < sn_serverTimeMs (xs ! n)" if "n < length xs"
    using nth_length_takeWhile [of "\<lambda>s. sn_serverTimeMs s \<le> render" xs] that by (simp add: n_def not_le)
  show ?thesis
  proof (cases n)
    case 0
    then show ?thesis using ij assms(2) by auto
  next
    case (Suc m)
    then show ?thesis using ij n below above by (auto simp: not_less)
  qed
qed

lemma sample_bounds_exact:
  assumes "sample_bounds xs render = (i, j)" and "xs \<noteq> []"
  shows "if render < sn_serverTimeMs (hd xs) then i = 0 \<and> j = 0
     else (\<forall>k\<le>i. sn_serverTimeMs (xs ! k) \<le> render)
       \<and> (if Suc i = length xs then j = i else j = Suc i \<and> render < sn_serverTimeMs (xs ! j))"
    and "i < length xs" and "j < length xs"
proof -
  note around = sample_bounds_around [OF assms]
  then show "i < length xs" "j < length xs" by auto
  define n where "n = length (takeWhile (\<lambda>s. sn_serverTimeMs s \<le> render) xs)"
  have ij: "i = n - 1" "j = (if n < length xs then n else n - 1)"
    using assms(1) by (auto simp: sample_bounds_eq Let_def n_def)
  have n: "n \<le> length xs" by (simp add: n_def length_takeWhile_le)
  have none: "n = 0 \<longleftrightarrow> render < sn_serverTimeMs (hd xs)"
    using assms(2) by (cases xs) (auto simp: n_def)
  have "sn_serverTimeMs (xs ! k) \<le> render" if "k < n" for k
    using that nth_mem [of k "takeWhile (\<lambda>s. sn_serverTimeMs s \<le> render) xs"]
    by (auto simp: n_def takeWhile_nth dest: set_takeWhileD)
  moreover have "render < sn_serverTimeMs (xs ! n)" if "n < length xs"
    using nth_length_takeWhile [of "\<lambda>s. sn_serverTimeMs s \<le> render" xs] that by (simp add: n_def not_le)
  ultimately show "if render < sn_serverTimeMs (hd xs) then i = 0 \<and> j = 0
     else (\<forall>k\<le>i. sn_serverTimeMs (xs ! k) \<le> render)
       \<and> (if Suc i = length xs then j = i else j = Suc i \<and> render < sn_serverTimeMs (xs ! j))"
    using ij n none assms(2) by (cases n) auto
qed

text \<open>The blend, as a natural number.\<close>

lemma sample_alpha_exact:
  assumes "sn_serverTimeMs src \<le> render" and "render < sn_serverTimeMs dst"
    and "(unat render - unat (sn_serverTimeMs src)) * 1000 < 2 ^ 64"
  shows "unat (sample_alpha src dst render) =
     (unat render - unat (sn_serverTimeMs src)) * 1000 div (unat (sn_serverTimeMs dst) - unat (sn_serverTimeMs src))"
proof -
  let ?p = "unat render - unat (sn_serverTimeMs src)"
    and ?d = "unat (sn_serverTimeMs dst) - unat (sn_serverTimeMs src)"
  have le: "unat (sn_serverTimeMs src) \<le> unat render" "unat render < unat (sn_serverTimeMs dst)"
    using assms(1,2) by (simp_all add: word_le_nat_alt word_less_nat_alt)
  have p: "unat (render - sn_serverTimeMs src) = ?p" "unat (sn_serverTimeMs dst - sn_serverTimeMs src) = ?d"
    using assms(1,2) by (simp_all add: unat_sub)
  have "unat ((render - sn_serverTimeMs src) * 1000) = ?p * 1000"
    using assms(3) by (simp only: unat_word_ariths(2) p(1)) simp
  then have q: "unat ((render - sn_serverTimeMs src) * 1000 div (sn_serverTimeMs dst - sn_serverTimeMs src)) = ?p * 1000 div ?d"
    by (simp only: unat_div p(2))
  have small: "?p * 1000 div ?d < 1000" using le by (subst div_less_iff_less_mult) auto
  let ?w = "(render - sn_serverTimeMs src) * 1000 div (sn_serverTimeMs dst - sn_serverTimeMs src)"
  have "?w \<le> 1000" using q small by (simp add: word_le_nat_alt)
  moreover have "(if render > sn_serverTimeMs src then render - sn_serverTimeMs src else 0) = render - sn_serverTimeMs src"
    using assms(1) by auto
  ultimately have "sample_alpha src dst render = ucast ?w" by (simp add: sample_alpha_def Let_def min_def)
  then show ?thesis using q small by (simp add: unsigned_ucast_eq take_bit_nat_eq_self)
qed

lemma Sample_alpha:
  assumes "pi_snapshots p \<noteq> []" and "sample_bounds (pi_snapshots p) (render_time p now) = (i, j)"
    and "(unat (render_time p now) - unat (sn_serverTimeMs (pi_snapshots p ! i))) * 1000 < 2 ^ 64"
  shows "unat (pf_alphaPermille (Sample p now)) = (if i = j then 0
     else (unat (render_time p now) - unat (sn_serverTimeMs (pi_snapshots p ! i))) * 1000
       div (unat (sn_serverTimeMs (pi_snapshots p ! j)) - unat (sn_serverTimeMs (pi_snapshots p ! i))))"
proof -
  have "i \<noteq> j \<Longrightarrow> sn_serverTimeMs (pi_snapshots p ! i) \<le> render_time p now
      \<and> render_time p now < sn_serverTimeMs (pi_snapshots p ! j)"
    using sample_bounds_around [OF assms(2,1)] by blast
  then show ?thesis
    using assms sample_alpha_exact [of "pi_snapshots p ! i" "render_time p now" "pi_snapshots p ! j"]
    by (auto simp: Sample_def Let_def)
qed

text \<open>
  A sampled frame shows exactly the entities of its later snapshot, in its order, each between the
  position it had in the earlier one and the position it has in the later one.
\<close>

definition interpolates :: "SnapshotDTO \<Rightarrow> SnapshotDTO \<Rightarrow> EntityStateDTO \<Rightarrow> InterpolatedEntityState \<Rightarrow> bool" where
  "interpolates src dst target e \<longleftrightarrow>
     ie_entityId e = rp_entityId (es_replication target) \<and> ie_kind e = rp_kind (es_replication target)
     \<and> ie_ownerClientId e = rp_ownerClientId (es_replication target)
     \<and> (let t = es_movement target;
            s = (case FindSourceEntity src (ie_entityId e) of None \<Rightarrow> t | Some f \<Rightarrow> es_movement f)
        in between (sint (mv_x s)) (sint (mv_x t)) (sint (ie_x e))
         \<and> between (sint (mv_y s)) (sint (mv_y t)) (sint (ie_y e))
         \<and> between (sint (mv_aimX s)) (sint (mv_aimX t)) (sint (ie_aimX e))
         \<and> between (sint (mv_aimY s)) (sint (mv_aimY t)) (sint (ie_aimY e)))"

lemma between_end [simp]: "between a b b"
  by (simp add: between_def)

lemma ToInterpolatedEntity_interpolates:
  assumes "unat alpha \<le> 1000"
    and "source = None \<or> source = FindSourceEntity src (rp_entityId (es_replication target))"
  shows "interpolates src dst target (ToInterpolatedEntity target source alpha)"
  using assms LerpFixed_between [OF assms(1)] LerpAim_between [OF assms(1)]
  by (cases source; cases "es_combat target")
    (auto simp: interpolates_def ToInterpolatedEntity_def Let_def split: option.splits)

lemma Sample_interpolates:
  assumes "pi_snapshots p \<noteq> []" and "sample_bounds (pi_snapshots p) (render_time p now) = (i, j)"
  shows "list_all2 (interpolates (pi_snapshots p ! i) (pi_snapshots p ! j))
       (sn_entities (pi_snapshots p ! j)) (pf_entities (Sample p now))
     \<and> unat (pf_alphaPermille (Sample p now)) \<le> 1000
     \<and> pf_fromSnapshotId (Sample p now) = sn_snapshotId (pi_snapshots p ! i)
     \<and> pf_toSnapshotId (Sample p now) = sn_snapshotId (pi_snapshots p ! j)"
proof -
  define alpha where "alpha = (if j \<noteq> i \<and> sn_serverTimeMs (pi_snapshots p ! j) > sn_serverTimeMs (pi_snapshots p ! i)
     then sample_alpha (pi_snapshots p ! i) (pi_snapshots p ! j) (render_time p now) else 0)"
  have alpha: "unat alpha \<le> 1000" using sample_alpha_bound by (simp add: alpha_def)
  have s: "Sample p now = \<lparr>pf_renderServerTimeMs = render_time p now,
      pf_fromSnapshotId = sn_snapshotId (pi_snapshots p ! i), pf_toSnapshotId = sn_snapshotId (pi_snapshots p ! j),
      pf_alphaPermille = alpha, pf_entities = map (\<lambda>target. ToInterpolatedEntity target
        (if i = j then None else FindSourceEntity (pi_snapshots p ! i) (rp_entityId (es_replication target))) alpha)
        (sn_entities (pi_snapshots p ! j))\<rparr>"
    using assms by (simp add: Sample_def Let_def alpha_def)
  show ?thesis
    using alpha by (auto simp: s list.rel_map intro!: list.rel_refl_strong ToInterpolatedEntity_interpolates)
qed

end
