(* ===== verification/Client_Runtime.thy ===== *)
theory Client_Runtime
  imports Client_Presentation Sim_Invariants Sim_Snapshot Time_Sync
begin

text \<open>
  \<open>src/Client/src/ClientRuntime.cpp\<close>: the client's predicted simulation, its unacknowledged inputs and
  its snapshot buffers; and, over any sequence of its operations, which inputs it still holds.
\<close>

section \<open>The runtime\<close>

record 'r ClientRuntime =
  cr_localClientId :: ClientId
  cr_nextSequence :: CommandSequence
  cr_simulation :: "'r GameSimulation"
  cr_clock :: NetworkClock
  cr_pendingInputs :: PendingInputHistory
  cr_interpolation :: InterpolationBuffer
  cr_presentationInterpolator :: PresentationInterpolator

definition new_ClientRuntime :: "'r entt_ops \<Rightarrow> ClientId \<Rightarrow> SimulationConfig \<Rightarrow> 'r ClientRuntime" where
  "new_ClientRuntime E localClientId config =
     \<lparr>cr_localClientId = localClientId, cr_nextSequence = 1,
      cr_simulation = new_GameSimulation E (config\<lparr>sc_mode := ClientPrediction\<rparr>),
      cr_clock = new_NetworkClock, cr_pendingInputs = new_PendingInputHistory,
      cr_interpolation = new_InterpolationBuffer,
      cr_presentationInterpolator = new_PresentationInterpolator default_PresentationConfig\<rparr>"

definition ConnectLocal :: "'r entt_ops \<Rightarrow> TimestampMs \<Rightarrow> 'r ClientRuntime \<Rightarrow> bool \<times> 'r ClientRuntime" where
  "ConnectLocal E localTimeMs r =
     (let login = \<lparr>lg_header = \<lparr>hd_clientId = cr_localClientId r, hd_sequence = 0,
                                hd_clientTimestampMs = localTimeMs\<rparr>\<rparr>;
          (b, s) = SubmitLogin E login (cr_simulation r)
      in (b, r\<lparr>cr_simulation := s\<rparr>))"

definition QueueInput :: "InputFrame \<Rightarrow> TimestampMs \<Rightarrow> 'r ClientRuntime \<Rightarrow> ClientInputPacket \<times> 'r ClientRuntime" where
  "QueueInput input localTimeMs r =
     (let packet = \<lparr>ip_header = \<lparr>hd_clientId = cr_localClientId r, hd_sequence = cr_nextSequence r,
                                 hd_clientTimestampMs = localTimeMs\<rparr>, ip_input = input\<rparr>;
          r = r\<lparr>cr_nextSequence := cr_nextSequence r + 1\<rparr>;
          r = r\<lparr>cr_pendingInputs := Record_input packet (cr_pendingInputs r)\<rparr>;
          (b, s) = SubmitInput packet (cr_simulation r)
      in (packet, r\<lparr>cr_simulation := s\<rparr>))"

definition TickSimulation :: "'r entt_ops \<Rightarrow> 'r ClientRuntime \<Rightarrow> 'r ClientRuntime" where
  "TickSimulation E r = r\<lparr>cr_simulation := TickFixed E (cr_simulation r)\<rparr>"

definition ApplyServerSnapshot :: "'r entt_ops \<Rightarrow> SnapshotDTO \<Rightarrow> 'r ClientRuntime \<Rightarrow> 'r ClientRuntime" where
  "ApplyServerSnapshot E snapshot r =
     (let r = r\<lparr>cr_interpolation := Push_interpolation snapshot (cr_interpolation r)\<rparr>;
          r = r\<lparr>cr_presentationInterpolator := PushSnapshot snapshot (cr_presentationInterpolator r)\<rparr>;
          r = r\<lparr>cr_simulation := ApplySnapshot E snapshot (cr_localClientId r) (cr_simulation r)\<rparr>;
          r = r\<lparr>cr_pendingInputs := AcknowledgeThrough (sn_ackedInputSequence snapshot) (cr_pendingInputs r)\<rparr>
      in r\<lparr>cr_simulation := ReplayLocalInputsForPrediction E (ph_unackedInputs (cr_pendingInputs r))
                              (cr_simulation r)\<rparr>)"

definition RecordTimeSyncSample :: "TimeSyncSample \<Rightarrow> 'r ClientRuntime \<Rightarrow> 'r ClientRuntime" where
  "RecordTimeSyncSample sample r = r\<lparr>cr_clock := RecordSample sample (cr_clock r)\<rparr>"

definition Client_DrainEvents :: "'r ClientRuntime \<Rightarrow> EventList \<times> 'r ClientRuntime" where
  "Client_DrainEvents r =
     (let (events, s) = DrainEvents (cr_simulation r) in (events, r\<lparr>cr_simulation := s\<rparr>))"

definition UnackedInputs :: "'r ClientRuntime \<Rightarrow> ClientInputPacket list" where
  "UnackedInputs r = ph_unackedInputs (cr_pendingInputs r)"

section \<open>Runs of the runtime\<close>

text \<open>The calls of a session on its runtime, with the inputs it has queued so far.\<close>

datatype client_call =
    Client_Input InputFrame TimestampMs
  | Client_Snapshot SnapshotDTO
  | Client_Tick
  | Client_Sync TimeSyncSample
  | Client_Drain

fun run_client_call :: "'r entt_ops \<Rightarrow> client_call \<Rightarrow> 'r ClientRuntime \<times> ClientInputPacket list
    \<Rightarrow> 'r ClientRuntime \<times> ClientInputPacket list" where
  "run_client_call E (Client_Input input now) (r, sent) =
     (let (packet, r) = QueueInput input now r in (r, sent @ [packet]))"
| "run_client_call E (Client_Snapshot snapshot) (r, sent) = (ApplyServerSnapshot E snapshot r, sent)"
| "run_client_call E Client_Tick (r, sent) = (TickSimulation E r, sent)"
| "run_client_call E (Client_Sync sample) (r, sent) = (RecordTimeSyncSample sample r, sent)"
| "run_client_call E Client_Drain (r, sent) = (snd (Client_DrainEvents r), sent)"

definition client_run :: "'r entt_ops \<Rightarrow> client_call list \<Rightarrow> 'r ClientRuntime \<Rightarrow> 'r ClientRuntime \<times> ClientInputPacket list" where
  "client_run E calls r = fold (run_client_call E) calls (r, [])"

text \<open>
  What a server can send back: a snapshot acknowledges only inputs that were queued before it. \<open>n\<close>
  counts the inputs queued so far; the sequence numbers start at one.
\<close>

fun honest_acks :: "nat \<Rightarrow> client_call list \<Rightarrow> bool" where
  "honest_acks n [] = True"
| "honest_acks n (Client_Input i t # calls) = honest_acks (Suc n) calls"
| "honest_acks n (Client_Snapshot s # calls) = (unat (sn_ackedInputSequence s) \<le> n \<and> honest_acks n calls)"
| "honest_acks n (_ # calls) = honest_acks n calls"

fun highest_ack :: "nat \<Rightarrow> client_call list \<Rightarrow> nat" where
  "highest_ack a [] = a"
| "highest_ack a (Client_Snapshot s # calls) = highest_ack (max a (unat (sn_ackedInputSequence s))) calls"
| "highest_ack a (_ # calls) = highest_ack a calls"

definition input_sequence :: "ClientInputPacket \<Rightarrow> nat" where
  "input_sequence packet = unat (hd_sequence (ip_header packet))"

text \<open>
  The invariant: the inputs are numbered from one in their order, they carry the local client's
  identifier, and the unacknowledged ones are those beyond the highest acknowledgement.
\<close>

definition inputs_ok :: "'r ClientRuntime \<Rightarrow> ClientInputPacket list \<Rightarrow> nat \<Rightarrow> bool" where
  "inputs_ok r sent ack \<longleftrightarrow>
     map input_sequence sent = [1..<length sent + 1] \<and> unat (cr_nextSequence r) = length sent + 1
     \<and> (\<forall>p\<in>set sent. hd_clientId (ip_header p) = cr_localClientId r)
     \<and> UnackedInputs r = drop ack sent \<and> ack \<le> length sent"

lemma inputs_ok_fields [simp]:
  "inputs_ok (r\<lparr>cr_simulation := s\<rparr>) = inputs_ok r" "inputs_ok (r\<lparr>cr_clock := c\<rparr>) = inputs_ok r"
  "inputs_ok (r\<lparr>cr_interpolation := i\<rparr>) = inputs_ok r"
  "inputs_ok (r\<lparr>cr_presentationInterpolator := p\<rparr>) = inputs_ok r"
  by (simp_all add: inputs_ok_def fun_eq_iff UnackedInputs_def)

lemma inputs_ok_new: "inputs_ok (new_ClientRuntime E c config) [] 0"
  by (simp add: inputs_ok_def new_ClientRuntime_def UnackedInputs_def new_PendingInputHistory_def)

lemma inputs_ok_QueueInput:
  assumes "inputs_ok r sent ack" and "length sent + 2 < 2 ^ 32" and "QueueInput i t r = (p, r')"
  shows "inputs_ok r' (sent @ [p]) ack"
proof -
  have n: "unat (cr_nextSequence r) = length sent + 1" using assms(1) by (simp add: inputs_ok_def)
  have "unat (cr_nextSequence r + 1) = length sent + 2"
    using assms(2) n by (simp add: unat_word_ariths)
  then show ?thesis
    using assms(1,3) n
    by (auto simp: QueueInput_def Let_def Record_input_def inputs_ok_def UnackedInputs_def input_sequence_def
        split: prod.splits)
qed

text \<open>The inputs beyond an acknowledgement, in a list numbered from one.\<close>

lemma numbered_filter:
  assumes "map input_sequence xs = [k + 1..<k + 1 + length xs]" and "n \<le> k + length xs"
  shows "filter (\<lambda>p. \<not> input_sequence p \<le> n) xs = drop (n - k) xs"
  using assms
proof (induction xs arbitrary: k)
  case (Cons x xs)
  have x: "input_sequence x = k + 1" and xs: "map input_sequence xs = [Suc k + 1..<Suc k + 1 + length xs]"
    using Cons.prems(1) by (simp_all add: upt_conv_Cons del: upt_Suc)
  have above: "Suc k < input_sequence p" if "p \<in> set xs" for p
  proof -
    have "input_sequence p \<in> set [Suc k + 1..<Suc k + 1 + length xs]"
      using that by (simp only: flip: xs) simp
    then show ?thesis by (simp only: set_upt atLeastLessThan_iff) simp
  qed
  then have all: "filter (\<lambda>p. \<not> input_sequence p \<le> n) xs = xs" if "n \<le> k"
    using that by (fastforce simp: filter_id_conv)
  show ?case using Cons.IH [OF xs] Cons.prems(2) x all by (auto simp: drop_Cons' Suc_diff_le)
qed simp

lemma inputs_ok_ack:
  assumes "inputs_ok r sent ack" and "unat (sn_ackedInputSequence sn) \<le> length sent"
  shows "inputs_ok (ApplyServerSnapshot E sn r) sent (max ack (unat (sn_ackedInputSequence sn)))"
proof -
  let ?n = "unat (sn_ackedInputSequence sn)"
  have p: "UnackedInputs r = drop ack sent" "map input_sequence sent = [1..<length sent + 1]" "ack \<le> length sent"
    using assms(1) by (simp_all add: inputs_ok_def)
  have d: "map input_sequence (drop ack sent) = [ack + 1..<ack + 1 + length (drop ack sent)]"
    using p by (simp add: drop_map [symmetric] del: upt_Suc)
  have "filter (\<lambda>p. \<not> input_sequence p \<le> ?n) (drop ack sent) = drop (max ack ?n) sent"
    using numbered_filter [OF d, of ?n] assms(2) p(3) by (simp add: max_def)
  then have "UnackedInputs (ApplyServerSnapshot E sn r) = drop (max ack ?n) sent"
    using p(1) by (simp add: ApplyServerSnapshot_def Let_def AcknowledgeThrough_def UnackedInputs_def
        input_sequence_def word_le_nat_alt)
  then show ?thesis using assms by (simp add: inputs_ok_def) (simp add: ApplyServerSnapshot_def Let_def)
qed

lemma client_run_inputs:
  assumes "inputs_ok r sent ack" and "length sent + length calls + 1 < 2 ^ 32" and "honest_acks (length sent) calls"
  shows "\<exists>r' sent'. fold (run_client_call E) calls (r, sent) = (r', sent') \<and> inputs_ok r' sent' (highest_ack ack calls)"
  using assms
proof (induction calls arbitrary: r sent ack)
  case (Cons call calls)
  show ?case
  proof (cases call)
    case (Client_Input i t)
    obtain p r1 where q: "QueueInput i t r = (p, r1)" by fastforce
    have "inputs_ok r1 (sent @ [p]) ack" using inputs_ok_QueueInput [OF Cons.prems(1) _ q] Cons.prems(2) by simp
    from Cons.IH [OF this] Cons.prems show ?thesis by (simp add: Client_Input q)
  next
    case (Client_Snapshot sn)
    from Cons.IH [OF inputs_ok_ack [OF Cons.prems(1)]] Cons.prems show ?thesis by (simp add: Client_Snapshot)
  next
    case Client_Tick
    from Cons.IH [of "TickSimulation E r" sent ack] Cons.prems show ?thesis
      by (simp add: Client_Tick TickSimulation_def)
  next
    case (Client_Sync sample)
    from Cons.IH [of "RecordTimeSyncSample sample r" sent ack] Cons.prems show ?thesis
      by (simp add: Client_Sync RecordTimeSyncSample_def)
  next
    case Client_Drain
    from Cons.IH [of "snd (Client_DrainEvents r)" sent ack] Cons.prems show ?thesis
      by (simp add: Client_Drain Client_DrainEvents_def split_def Let_def)
  qed
qed simp

end
