(* ===== verification/Client_Pump.thy ===== *)
theory Client_Pump
  imports Client_Runtime Message_Codecs Network_Events Transport
begin

text \<open>
  \<open>src/Client/src/ClientProtocolPump.cpp\<close>: the client's messages to the server, and the loop that
  handles what has arrived: time-sync responses, reliable events, which it acknowledges, and snapshots,
  which it applies and acknowledges.

  The pump refers to its transport and changes the runtime, the statistics and the event list that it is
  given; \<open>pump_state\<close> holds the four of them, with the count of applied snapshots.
\<close>

section \<open>The session's statistics\<close>

datatype ClientConnectionState = CS_Disconnected | CS_Connecting | CS_AwaitingSpawn | CS_Connected | CS_LocalPreview

record ClientSessionStats =
  ss_localClientId :: ClientId
  ss_connectionState :: ClientConnectionState
  ss_lastSnapshotId :: SnapshotId
  ss_lastBaselineId :: SnapshotId
  ss_lastAckedInputSequence :: CommandSequence
  ss_lastTimeSyncSequence :: CommandSequence
  ss_snapshotsApplied :: nat
  ss_snapshotAcksSent :: nat
  ss_timeSyncRequestsSent :: nat
  ss_timeSyncResponsesApplied :: nat
  ss_reliableEventsReceived :: nat
  ss_reliableEventAcksSent :: nat
  ss_spawnAcceptedEventsReceived :: nat

definition zero_ClientSessionStats :: ClientSessionStats where
  "zero_ClientSessionStats = \<lparr>ss_localClientId = 0, ss_connectionState = CS_Disconnected, ss_lastSnapshotId = 0,
     ss_lastBaselineId = 0, ss_lastAckedInputSequence = 0, ss_lastTimeSyncSequence = 0, ss_snapshotsApplied = 0,
     ss_snapshotAcksSent = 0, ss_timeSyncRequestsSent = 0, ss_timeSyncResponsesApplied = 0,
     ss_reliableEventsReceived = 0, ss_reliableEventAcksSent = 0, ss_spawnAcceptedEventsReceived = 0\<rparr>"

section \<open>Messages to the server\<close>

definition client_envelope :: "NetworkChannel \<Rightarrow> MessageClass \<Rightarrow> u32 \<Rightarrow> byte list \<Rightarrow> NetworkEnvelope" where
  "client_envelope channel messageClass sequence payload =
     \<lparr>ev_protocolVersion = kProtocolVersion, ev_peerId = 0, ev_channel = channel,
      ev_messageClass = messageClass, ev_sequence = sequence, ev_payload = payload\<rparr>"

definition Pump_SendLogin :: "'t transport_ops \<Rightarrow> LoginCommand \<Rightarrow> 't \<Rightarrow> bool \<times> 't" where
  "Pump_SendLogin T command = tp_send T (client_envelope Ch_LoginSpawn Mc_LoginRequest
     (hd_sequence (lg_header command)) (SerializeLoginCommand command))"

definition Pump_SendInput :: "'t transport_ops \<Rightarrow> ClientInputPacket \<Rightarrow> 't \<Rightarrow> bool \<times> 't" where
  "Pump_SendInput T packet = tp_send T (client_envelope Ch_MovementInput Mc_ClientInput
     (hd_sequence (ip_header packet)) (SerializeClientInputPacket packet))"

definition SendSnapshotAck :: "'t transport_ops \<Rightarrow> SnapshotAckDTO \<Rightarrow> 't \<Rightarrow> bool \<times> 't" where
  "SendSnapshotAck T ack = tp_send T (client_envelope Ch_Snapshots Mc_SnapshotAck
     (sa_snapshotId ack) (SerializeSnapshotAck ack))"

definition SendNetworkEventAck :: "'t transport_ops \<Rightarrow> NetworkEventAckDTO \<Rightarrow> 't \<Rightarrow> bool \<times> 't" where
  "SendNetworkEventAck T ack = tp_send T (client_envelope Ch_LoginSpawn Mc_NetworkEventAck
     (na_eventId ack) (SerializeNetworkEventAck ack))"

definition SendTimeSyncRequest :: "'t transport_ops \<Rightarrow> TimeSyncRequest \<Rightarrow> 't \<Rightarrow> bool \<times> 't" where
  "SendTimeSyncRequest T request = tp_send T (client_envelope Ch_TimeSync Mc_TimeSyncRequest
     (tq_sequence request) (SerializeTimeSyncRequest request))"

section \<open>Messages from the server\<close>

record ('t, 'r) pump_state =
  pu_transport :: 't
  pu_runtime :: "'r ClientRuntime"
  pu_stats :: ClientSessionStats
  pu_reliableEvents :: EventList
  pu_applied :: i32

definition handle_time_sync ::
    "TimestampMs \<Rightarrow> NetworkEnvelope \<Rightarrow> ('t, 'r) pump_state \<Rightarrow> ('t, 'r) pump_state" where
  "handle_time_sync localReceiveTimeMs envelope p =
     (case DeserializeTimeSyncResponse (ev_payload envelope) of
        None \<Rightarrow> p
      | Some response \<Rightarrow> p\<lparr>
          pu_runtime := RecordTimeSyncSample
            \<lparr>ts_clientSentAtMs = tr_clientSentAtMs response,
             ts_serverReceivedAtMs = tr_serverReceivedAtMs response,
             ts_clientReceivedAtMs =
               (if localReceiveTimeMs \<noteq> 0 then localReceiveTimeMs else tr_clientSentAtMs response)\<rparr> (pu_runtime p),
          pu_stats := (pu_stats p)\<lparr>ss_lastTimeSyncSequence := tr_sequence response,
            ss_timeSyncResponsesApplied := ss_timeSyncResponsesApplied (pu_stats p) + 1\<rparr>\<rparr>)"

definition note_spawn :: "NetworkEventPayloadDTO \<Rightarrow> ClientSessionStats \<Rightarrow> ClientSessionStats" where
  "note_spawn payload stats =
     (case payload of
        PlayerSpawnedEventDTO entityId clientId x y \<Rightarrow>
          if clientId = ss_localClientId stats
          then stats\<lparr>ss_connectionState := CS_Connected,
                     ss_spawnAcceptedEventsReceived := ss_spawnAcceptedEventsReceived stats + 1\<rparr>
          else stats
      | _ \<Rightarrow> stats)"

definition handle_event ::
    "'t transport_ops \<Rightarrow> TimestampMs \<Rightarrow> NetworkEnvelope \<Rightarrow> ('t, 'r) pump_state \<Rightarrow> ('t, 'r) pump_state" where
  "handle_event T localReceiveTimeMs envelope p =
     (case DeserializeNetworkEvent (ev_payload envelope) of
        None \<Rightarrow> p
      | Some networkEvent \<Rightarrow>
          (case ToDomainEvent networkEvent of
             None \<Rightarrow> p
           | Some domainEvent \<Rightarrow>
               let (acked, t) = SendNetworkEventAck T
                     \<lparr>na_clientId = ss_localClientId (pu_stats p), na_eventId = ne_eventId networkEvent,
                      na_clientReceivedAtMs = localReceiveTimeMs\<rparr> (pu_transport p);
                   stats = pu_stats p;
                   stats = (if acked then stats\<lparr>ss_reliableEventAcksSent := ss_reliableEventAcksSent stats + 1\<rparr>
                            else stats);
                   stats = note_spawn (ne_payload networkEvent) stats;
                   stats = stats\<lparr>ss_reliableEventsReceived := ss_reliableEventsReceived stats + 1\<rparr>
               in p\<lparr>pu_transport := t, pu_stats := stats,
                    pu_reliableEvents := pu_reliableEvents p @ [domainEvent]\<rparr>))"

definition handle_snapshot ::
    "'t transport_ops \<Rightarrow> 'r entt_ops \<Rightarrow> TimestampMs \<Rightarrow> NetworkEnvelope \<Rightarrow> ('t, 'r) pump_state
     \<Rightarrow> ('t, 'r) pump_state" where
  "handle_snapshot T E localReceiveTimeMs envelope p =
     (case DeserializeSnapshot (ev_payload envelope) of
        None \<Rightarrow> p
      | Some snapshot \<Rightarrow>
          let runtime = ApplyServerSnapshot E snapshot (pu_runtime p);
              (acked, t) = SendSnapshotAck T
                \<lparr>sa_clientId = ss_localClientId (pu_stats p), sa_snapshotId = sn_snapshotId snapshot,
                 sa_baselineId = sn_baselineId snapshot, sa_ackedInputSequence = sn_ackedInputSequence snapshot,
                 sa_clientReceivedAtMs = localReceiveTimeMs\<rparr> (pu_transport p);
              stats = pu_stats p;
              stats = (if acked then stats\<lparr>ss_snapshotAcksSent := ss_snapshotAcksSent stats + 1\<rparr> else stats);
              stats = stats\<lparr>ss_lastSnapshotId := sn_snapshotId snapshot, ss_lastBaselineId := sn_baselineId snapshot,
                ss_lastAckedInputSequence := sn_ackedInputSequence snapshot,
                ss_snapshotsApplied := ss_snapshotsApplied stats + 1\<rparr>
          in p\<lparr>pu_transport := t, pu_runtime := runtime, pu_stats := stats, pu_applied := pu_applied p + 1\<rparr>)"

definition handle_incoming ::
    "'t transport_ops \<Rightarrow> 'r entt_ops \<Rightarrow> TimestampMs \<Rightarrow> NetworkEnvelope \<Rightarrow> ('t, 'r) pump_state
     \<Rightarrow> ('t, 'r) pump_state" where
  "handle_incoming T E localReceiveTimeMs envelope p =
     (if \<not> Ok (ValidateEnvelope envelope) then p
      else if ev_messageClass envelope = Mc_TimeSyncResponse then handle_time_sync localReceiveTimeMs envelope p
      else if ev_messageClass envelope = Mc_CombatEvent \<or> ev_messageClass envelope = Mc_SpawnAccepted
        \<or> ev_messageClass envelope = Mc_InterestEvent then handle_event T localReceiveTimeMs envelope p
      else if ev_messageClass envelope \<noteq> Mc_Snapshot then p
      else handle_snapshot T E localReceiveTimeMs envelope p)"

definition pump_poll :: "'t transport_ops \<Rightarrow> ('t, 'r) pump_state \<Rightarrow> NetworkEnvelope option \<times> ('t, 'r) pump_state" where
  "pump_poll T p = (let (e, t) = tp_poll T (pu_transport p) in (e, p\<lparr>pu_transport := t\<rparr>))"

definition PumpIncoming ::
    "'t transport_ops \<Rightarrow> 'r entt_ops \<Rightarrow> TimestampMs \<Rightarrow> ('t, 'r) pump_state \<Rightarrow> ('t, 'r) pump_state option" where
  "PumpIncoming T E localReceiveTimeMs p =
     poll_loop (pump_poll T) (handle_incoming T E localReceiveTimeMs) (p\<lparr>pu_applied := 0\<rparr>)"

text \<open>The variant that ignores the events works on an event list of its own.\<close>

definition PumpSnapshots ::
    "'t transport_ops \<Rightarrow> 'r entt_ops \<Rightarrow> TimestampMs \<Rightarrow> ('t, 'r) pump_state \<Rightarrow> ('t, 'r) pump_state option" where
  "PumpSnapshots T E localReceiveTimeMs p =
     map_option (\<lambda>q. q\<lparr>pu_reliableEvents := pu_reliableEvents p\<rparr>)
       (PumpIncoming T E localReceiveTimeMs (p\<lparr>pu_reliableEvents := []\<rparr>))"

section \<open>What a pump does to the runtime\<close>

text \<open>A pump only applies snapshots and time-sync samples.\<close>

fun from_server :: "client_call \<Rightarrow> bool" where
  "from_server (Client_Snapshot _) = True"
| "from_server (Client_Sync _) = True"
| "from_server _ = False"

definition server_calls :: "'r entt_ops \<Rightarrow> 'r ClientRuntime \<Rightarrow> 'r ClientRuntime \<Rightarrow> bool" where
  "server_calls E r r' \<longleftrightarrow> (\<exists>calls. list_all from_server calls \<and> (r', []) = client_run E calls r)"

lemma server_calls_refl [simp]: "server_calls E r r"
  unfolding server_calls_def by (rule exI [of _ "[]"]) (simp add: client_run_def)

lemma server_calls_step:
  assumes "server_calls E r r'" and "from_server call"
  shows "server_calls E r (fst (run_client_call E call (r', [])))"
proof -
  obtain calls where c: "list_all from_server calls" "(r', []) = client_run E calls r"
    using assms(1) by (auto simp: server_calls_def)
  have "client_run E (calls @ [call]) r = run_client_call E call (r', [])"
    using c(2) by (simp add: client_run_def)
  moreover have "snd (run_client_call E call (r', [])) = []" using assms(2) by (cases call) auto
  ultimately show ?thesis using c(1) assms(2)
    unfolding server_calls_def by (intro exI [of _ "calls @ [call]"]) (simp add: prod_eq_iff)
qed

lemma server_calls_trans:
  assumes "server_calls E r r'" and "server_calls E r' r''" shows "server_calls E r r''"
proof -
  obtain cs ds where c: "list_all from_server cs" "client_run E cs r = (r', [])"
    and d: "list_all from_server ds" "client_run E ds r' = (r'', [])"
    using assms unfolding server_calls_def by metis
  have "client_run E (cs @ ds) r = (r'', [])" using c(2) d(2) by (simp add: client_run_def)
  then show ?thesis using c(1) d(1)
    unfolding server_calls_def by (intro exI [of _ "cs @ ds"]) simp
qed

lemma handle_incoming_runtime:
  "server_calls E (pu_runtime p) (pu_runtime (handle_incoming T E now e p))"
proof -
  have "server_calls E (pu_runtime p) (pu_runtime (handle_snapshot T E now e p))"
    using server_calls_step [OF server_calls_refl, of "Client_Snapshot s" E "pu_runtime p" for s]
    by (auto simp: handle_snapshot_def Let_def split_def split: option.splits)
  moreover have "server_calls E (pu_runtime p) (pu_runtime (handle_time_sync now e p))"
    using server_calls_step [OF server_calls_refl, of "Client_Sync s" E "pu_runtime p" for s]
    by (auto simp: handle_time_sync_def split: option.splits)
  moreover have "pu_runtime (handle_event T now e p) = pu_runtime p"
    by (simp add: handle_event_def Let_def split_def split: option.splits)
  ultimately show ?thesis by (simp add: handle_incoming_def)
qed

lemma handle_incoming_client [simp]:
  "ss_localClientId (pu_stats (handle_incoming T E now e p)) = ss_localClientId (pu_stats p)"
  by (simp add: handle_incoming_def handle_snapshot_def handle_event_def handle_time_sync_def note_spawn_def
      Let_def split_def split: option.splits NetworkEventPayloadDTO.splits)

definition pump_inv ::
    "('t \<Rightarrow> bool) \<Rightarrow> ('t, 'r) pump_state \<Rightarrow> 'r entt_ops \<Rightarrow> ('t, 'r) pump_state \<Rightarrow> bool" where
  "pump_inv ok p0 E p \<longleftrightarrow> ok (pu_transport p) \<and> server_calls E (pu_runtime p0) (pu_runtime p)
     \<and> ss_localClientId (pu_stats p) = ss_localClientId (pu_stats p0)"

context sending
begin

lemma handle_incoming_transport:
  assumes "ok (pu_transport p)"
  shows "ok (pu_transport (handle_incoming T E now e p))
     \<and> backlog (pu_transport (handle_incoming T E now e p)) \<le> backlog (pu_transport p)"
proof -
  have send: "ok (snd (tp_send T env (pu_transport p))) \<and> backlog (snd (tp_send T env (pu_transport p))) \<le> backlog (pu_transport p)"
    for env using send_ok [OF assms, of env] by (metis prod.collapse)
  show ?thesis using assms send
    by (simp add: handle_incoming_def handle_snapshot_def handle_event_def handle_time_sync_def
        SendSnapshotAck_def SendNetworkEventAck_def Let_def split_def split: option.splits)
qed

end

text \<open>The loop over the server's messages returns.\<close>

context transport
begin

lemma PumpIncoming_returns:
  fixes p :: "('t, 'r) pump_state"
  assumes "ok (pu_transport p)"
  shows "\<exists>p'. PumpIncoming T E now p = Some p' \<and> pump_inv ok p E p'"
proof -
  have "\<exists>p'. poll_loop (pump_poll T) (handle_incoming T E now) (p\<lparr>pu_applied := 0\<rparr>) = Some p' \<and> pump_inv ok p E p' \<and> True"
  proof (rule poll_loop_returns [where m = "\<lambda>p. backlog (pu_transport p)"])
    fix q q' :: "('t, 'r) pump_state" and e
    assume q: "pump_inv ok p E q" and "pump_poll T q = (Some e, q')"
    then obtain t where t: "tp_poll T (pu_transport q) = (Some e, t)" "q' = q\<lparr>pu_transport := t\<rparr>"
      by (auto simp: pump_poll_def split: prod.splits)
    have t': "ok t" "backlog t < backlog (pu_transport q)"
      using poll_some [OF _ t(1)] q by (auto simp: pump_inv_def)
    have "server_calls E (pu_runtime p) (pu_runtime (handle_incoming T E now e q'))"
      using server_calls_trans [OF _ handle_incoming_runtime, of E "pu_runtime p" q' T now e] q
      by (simp add: pump_inv_def t(2))
    then show "pump_inv ok p E (handle_incoming T E now e q')
        \<and> backlog (pu_transport (handle_incoming T E now e q')) < backlog (pu_transport q)"
      using handle_incoming_transport [of q' E now e] t' q by (auto simp: pump_inv_def t(2))
  next
    fix q q' :: "('t, 'r) pump_state"
    assume q: "pump_inv ok p E q" and "pump_poll T q = (None, q')"
    then obtain t where t: "tp_poll T (pu_transport q) = (None, t)" "q' = q\<lparr>pu_transport := t\<rparr>"
      by (auto simp: pump_poll_def split: prod.splits)
    from poll_none [OF _ t(1)] q show "pump_inv ok p E q' \<and> True" by (auto simp: pump_inv_def t(2))
  qed (simp add: pump_inv_def assms)
  then show ?thesis by (simp add: PumpIncoming_def)
qed

end

end
