(* ===== verification/Client_Session.thy ===== *)
theory Client_Session
  imports Client_Pump
begin

text \<open>
  \<open>src/Client/include/Client/IClientSession.hpp\<close> and the sessions that need no server of their own:
  \<open>LocalPreviewClientSession.cpp\<close> and \<open>RemoteClientSession.cpp\<close>. The abstract class is a record of its
  operations over the state of an implementation; the locale \<open>client_session\<close> holds what the client
  application relies on. The operations that run a poll loop are option-valued.
\<close>

section \<open>The interface\<close>

record ('s, 'r) session_ops =
  cs_connect :: "ClientId \<Rightarrow> TimestampMs \<Rightarrow> 's \<Rightarrow> (bool \<times> 's) option"
  cs_sendInput :: "ClientInputPacket \<Rightarrow> 's \<Rightarrow> 's"
  cs_tick :: "TimestampMs \<Rightarrow> 's \<Rightarrow> 's option"
  cs_pump :: "'r ClientRuntime \<Rightarrow> 's \<Rightarrow> ('r ClientRuntime \<times> 's) option"
  cs_drainEvents :: "'s \<Rightarrow> EventList \<times> 's"
  cs_stats :: "'s \<Rightarrow> ClientSessionStats"

text \<open>
  Every operation returns and keeps the implementation's invariant; a pump touches the client's runtime
  only by applying what the server sent; events are drained once.
\<close>

locale client_session =
  fixes E :: "'r entt_ops" and S :: "('s, 'r) session_ops" and ok :: "'s \<Rightarrow> bool"
  assumes connect_returns: "ok s \<Longrightarrow> \<exists>b s'. cs_connect S c now s = Some (b, s') \<and> ok s'"
    and send_input_ok: "ok s \<Longrightarrow> ok (cs_sendInput S packet s)"
    and tick_returns: "ok s \<Longrightarrow> \<exists>s'. cs_tick S now s = Some s' \<and> ok s'"
    and pump_returns: "ok s \<Longrightarrow> \<exists>r' s'. cs_pump S r s = Some (r', s') \<and> ok s' \<and> server_calls E r r'"
    and drain_ok: "ok s \<Longrightarrow> cs_drainEvents S s = (events, s') \<Longrightarrow> ok s' \<and> fst (cs_drainEvents S s') = []"

section \<open>The local preview\<close>

record LocalPreviewClientSession =
  lp_stats :: ClientSessionStats

definition Preview_Connect ::
    "ClientId \<Rightarrow> TimestampMs \<Rightarrow> LocalPreviewClientSession \<Rightarrow> bool \<times> LocalPreviewClientSession" where
  "Preview_Connect localClientId nowMs s =
     (True, s\<lparr>lp_stats := (lp_stats s)\<lparr>ss_localClientId := localClientId, ss_connectionState := CS_LocalPreview\<rparr>\<rparr>)"

definition preview_session :: "(LocalPreviewClientSession, 'r) session_ops" where
  "preview_session = \<lparr>cs_connect = (\<lambda>c now s. Some (Preview_Connect c now s)), cs_sendInput = (\<lambda>packet s. s),
     cs_tick = (\<lambda>now s. Some s), cs_pump = (\<lambda>r s. Some (r, s)), cs_drainEvents = (\<lambda>s. ([], s)),
     cs_stats = lp_stats\<rparr>"

interpretation preview: client_session E preview_session "\<lambda>s. True"
  by unfold_locales (auto simp: preview_session_def Preview_Connect_def)

section \<open>The remote session\<close>

record 't RemoteClientSession =
  rm_transport :: "'t option"
  rm_stats :: ClientSessionStats
  rm_localClientId :: ClientId
  rm_nextTimeSyncAtMs :: TimestampMs
  rm_lastTickTimeMs :: TimestampMs
  rm_nextTimeSyncSequence :: CommandSequence
  rm_reliableEvents :: EventList
  rm_sessionActive :: bool
  rm_loginSent :: bool

definition new_RemoteClientSession :: "'t option \<Rightarrow> 't RemoteClientSession" where
  "new_RemoteClientSession t = \<lparr>rm_transport = t, rm_stats = zero_ClientSessionStats, rm_localClientId = 0,
     rm_nextTimeSyncAtMs = 0, rm_lastTickTimeMs = 0, rm_nextTimeSyncSequence = 1, rm_reliableEvents = [],
     rm_sessionActive = False, rm_loginSent = False\<rparr>"

definition remote_state :: "ClientConnectionState \<Rightarrow> 't RemoteClientSession \<Rightarrow> 't RemoteClientSession" where
  "remote_state v s = s\<lparr>rm_stats := (rm_stats s)\<lparr>ss_connectionState := v\<rparr>\<rparr>"

definition login_command :: "ClientId \<Rightarrow> TimestampMs \<Rightarrow> LoginCommand" where
  "login_command clientId nowMs =
     \<lparr>lg_header = \<lparr>hd_clientId = clientId, hd_sequence = 0, hd_clientTimestampMs = nowMs\<rparr>\<rparr>"

definition TrySendLogin ::
    "'t transport_ops \<Rightarrow> TimestampMs \<Rightarrow> 't RemoteClientSession \<Rightarrow> bool \<times> 't RemoteClientSession" where
  "TrySendLogin T nowMs s =
     (case rm_transport s of
        None \<Rightarrow> (False, s)
      | Some t \<Rightarrow>
          if \<not> rm_sessionActive s then (False, s)
          else if rm_loginSent s then (True, s)
          else if tp_state T t \<noteq> Connected then (False, remote_state CS_Connecting s)
          else
          let (sent, t) = Pump_SendLogin T (login_command (rm_localClientId s) nowMs) t;
              s = s\<lparr>rm_transport := Some t, rm_loginSent := sent\<rparr>;
              s = remote_state (if sent then CS_AwaitingSpawn else CS_Disconnected) s
          in (sent, s\<lparr>rm_sessionActive := sent\<rparr>))"

definition Remote_Connect ::
    "'t transport_ops \<Rightarrow> ClientId \<Rightarrow> TimestampMs \<Rightarrow> 't RemoteClientSession \<Rightarrow> bool \<times> 't RemoteClientSession" where
  "Remote_Connect T localClientId nowMs s =
     (case rm_transport s of
        None \<Rightarrow> (False, s)
      | Some t \<Rightarrow>
          let s = s\<lparr>rm_stats := (rm_stats s)\<lparr>ss_localClientId := localClientId\<rparr>\<rparr>;
              s = remote_state CS_Connecting s;
              s = s\<lparr>rm_localClientId := localClientId, rm_lastTickTimeMs := nowMs\<rparr>;
              (connected, t) = tp_connect T t;
              s = s\<lparr>rm_transport := Some t\<rparr>
          in if \<not> connected then (False, remote_state CS_Disconnected s)
             else let s = s\<lparr>rm_sessionActive := True\<rparr>
                  in if tp_state T t \<noteq> Connected then (True, s) else TrySendLogin T nowMs s)"

definition Remote_SendInput ::
    "'t transport_ops \<Rightarrow> ClientInputPacket \<Rightarrow> 't RemoteClientSession \<Rightarrow> 't RemoteClientSession" where
  "Remote_SendInput T packet s =
     (case rm_transport s of
        None \<Rightarrow> s
      | Some t \<Rightarrow> if \<not> rm_sessionActive s \<or> \<not> rm_loginSent s then s
                  else s\<lparr>rm_transport := Some (snd (Pump_SendInput T packet t))\<rparr>)"

definition remote_update :: "'t transport_ops \<Rightarrow> 't RemoteClientSession \<Rightarrow> 't RemoteClientSession" where
  "remote_update T s = s\<lparr>rm_transport := map_option (tp_update T) (rm_transport s)\<rparr>"

definition send_time_sync ::
    "'t transport_ops \<Rightarrow> TimestampMs \<Rightarrow> 't RemoteClientSession \<Rightarrow> 't RemoteClientSession" where
  "send_time_sync T nowMs s =
     (case rm_transport s of
        None \<Rightarrow> s
      | Some t \<Rightarrow>
          let request = \<lparr>tq_clientId = rm_localClientId s, tq_sequence = rm_nextTimeSyncSequence s,
                         tq_clientSentAtMs = nowMs\<rparr>;
              (sent, t) = SendTimeSyncRequest T request t;
              s = s\<lparr>rm_nextTimeSyncSequence := rm_nextTimeSyncSequence s + 1, rm_transport := Some t\<rparr>;
              s = (if sent
                   then s\<lparr>rm_stats := (rm_stats s)\<lparr>ss_timeSyncRequestsSent := ss_timeSyncRequestsSent (rm_stats s) + 1\<rparr>\<rparr>
                   else s)
          in s\<lparr>rm_nextTimeSyncAtMs := nowMs + 1000\<rparr>)"

definition Remote_Tick :: "'t transport_ops \<Rightarrow> TimestampMs \<Rightarrow> 't RemoteClientSession \<Rightarrow> 't RemoteClientSession" where
  "Remote_Tick T nowMs s =
     (let s = s\<lparr>rm_lastTickTimeMs := nowMs\<rparr>
      in if \<not> rm_sessionActive s \<or> rm_transport s = None then s
         else
         let s = remote_update T s
         in if \<not> rm_loginSent s then snd (TrySendLogin T nowMs s)
            else if nowMs < rm_nextTimeSyncAtMs s then s
            else send_time_sync T nowMs s)"

definition Remote_Pump ::
    "'t transport_ops \<Rightarrow> 'r entt_ops \<Rightarrow> 'r ClientRuntime \<Rightarrow> 't RemoteClientSession
     \<Rightarrow> ('r ClientRuntime \<times> 't RemoteClientSession) option" where
  "Remote_Pump T E runtime s =
     (case rm_transport s of
        None \<Rightarrow> Some (runtime, s)
      | Some t \<Rightarrow>
          if \<not> rm_sessionActive s then Some (runtime, s)
          else
          let t = tp_update T t; s = s\<lparr>rm_transport := Some t\<rparr>
          in if \<not> rm_loginSent s then Some (runtime, snd (TrySendLogin T (rm_lastTickTimeMs s) s))
             else do {
               p \<leftarrow> PumpIncoming T E (rm_lastTickTimeMs s)
                 \<lparr>pu_transport = t, pu_runtime = runtime, pu_stats = rm_stats s,
                  pu_reliableEvents = rm_reliableEvents s, pu_applied = 0\<rparr>;
               Some (pu_runtime p, s\<lparr>rm_transport := Some (pu_transport p), rm_stats := pu_stats p,
                       rm_reliableEvents := pu_reliableEvents p\<rparr>)
             })"

definition Remote_DrainEvents :: "'t RemoteClientSession \<Rightarrow> EventList \<times> 't RemoteClientSession" where
  "Remote_DrainEvents s = (rm_reliableEvents s, s\<lparr>rm_reliableEvents := []\<rparr>)"

definition remote_session :: "'t transport_ops \<Rightarrow> 'r entt_ops \<Rightarrow> ('t RemoteClientSession, 'r) session_ops" where
  "remote_session T E = \<lparr>cs_connect = (\<lambda>c now s. Some (Remote_Connect T c now s)),
     cs_sendInput = Remote_SendInput T, cs_tick = (\<lambda>now s. Some (Remote_Tick T now s)),
     cs_pump = Remote_Pump T E, cs_drainEvents = Remote_DrainEvents, cs_stats = rm_stats\<rparr>"

definition remote_ok :: "('t \<Rightarrow> bool) \<Rightarrow> 't RemoteClientSession \<Rightarrow> bool" where
  "remote_ok ok s \<longleftrightarrow> (\<forall>t. rm_transport s = Some t \<longrightarrow> ok t)
     \<and> ss_localClientId (rm_stats s) = rm_localClientId s"

lemma remote_ok_new: "(\<And>t'. t = Some t' \<Longrightarrow> ok t') \<Longrightarrow> remote_ok ok (new_RemoteClientSession t)"
  by (simp add: remote_ok_def new_RemoteClientSession_def zero_ClientSessionStats_def)

context transport
begin

lemma sent_ok: "ok t \<Longrightarrow> ok (snd (tp_send T e t))"
  using send_ok [of t e] by (metis prod.collapse)

lemma connected_ok: "ok t \<Longrightarrow> ok (snd (tp_connect T t))"
  using connect_ok [of t] by (metis prod.collapse)

lemma TrySendLogin_ok: "remote_ok ok s \<Longrightarrow> remote_ok ok (snd (TrySendLogin T now s))"
  using sent_ok by (auto simp: TrySendLogin_def remote_ok_def remote_state_def Pump_SendLogin_def Let_def split_def
      split: option.splits)

lemma Remote_Connect_ok:
  assumes "remote_ok ok s" shows "remote_ok ok (snd (Remote_Connect T c now s))"
proof (cases "rm_transport s")
  case (Some t)
  let ?s = "(remote_state CS_Connecting (s\<lparr>rm_stats := (rm_stats s)\<lparr>ss_localClientId := c\<rparr>\<rparr>))
      \<lparr>rm_localClientId := c, rm_lastTickTimeMs := now, rm_transport := Some (snd (tp_connect T t))\<rparr>"
  have s: "remote_ok ok ?s"
    using assms connected_ok by (simp add: Some remote_ok_def remote_state_def)
  then have "remote_ok ok (remote_state CS_Disconnected ?s)" "remote_ok ok (?s\<lparr>rm_sessionActive := True\<rparr>)"
    by (simp_all add: remote_ok_def remote_state_def)
  then show ?thesis using TrySendLogin_ok [of "?s\<lparr>rm_sessionActive := True\<rparr>" now]
    by (simp add: Remote_Connect_def Some Let_def split_def)
qed (simp add: Remote_Connect_def assms)

lemma Remote_Tick_ok:
  assumes "remote_ok ok s" shows "remote_ok ok (Remote_Tick T now s)"
proof -
  let ?s = "remote_update T (s\<lparr>rm_lastTickTimeMs := now\<rparr>)"
  have s: "remote_ok ok ?s" using assms update_ok by (auto simp: remote_ok_def remote_update_def)
  moreover have "remote_ok ok (send_time_sync T now ?s)"
    using s sent_ok by (auto simp: send_time_sync_def SendTimeSyncRequest_def remote_ok_def Let_def split_def
        split: option.splits)
  ultimately show ?thesis using assms TrySendLogin_ok [OF s]
    by (simp add: Remote_Tick_def Let_def) (simp add: remote_ok_def)
qed

lemma Remote_Pump_returns:
  assumes "remote_ok ok s"
  shows "\<exists>r' s'. Remote_Pump T E r s = Some (r', s') \<and> remote_ok ok s' \<and> server_calls E r r'"
proof (cases "rm_transport s")
  case (Some t)
  let ?t = "tp_update T t"
  let ?s = "s\<lparr>rm_transport := Some ?t\<rparr>"
  let ?p = "\<lparr>pu_transport = ?t, pu_runtime = r, pu_stats = rm_stats s,
                  pu_reliableEvents = rm_reliableEvents s, pu_applied = 0\<rparr>"
  have t: "ok ?t" using assms Some update_ok by (simp add: remote_ok_def)
  then have s: "remote_ok ok ?s" using assms by (simp add: remote_ok_def)
  obtain p where "PumpIncoming T E (rm_lastTickTimeMs s) ?p = Some p" "pump_inv ok ?p E p"
    using PumpIncoming_returns [of ?p E "rm_lastTickTimeMs s"] t by auto
  then show ?thesis using s TrySendLogin_ok [OF s] assms
    by (auto simp: Remote_Pump_def Some Let_def pump_inv_def remote_ok_def)
qed (simp add: Remote_Pump_def assms)

text \<open>A remote session keeps the session contract on every transport that keeps the transport's.\<close>

lemma Remote_SendInput_ok: "remote_ok ok s \<Longrightarrow> remote_ok ok (Remote_SendInput T packet s)"
  using sent_ok by (simp add: Remote_SendInput_def Pump_SendInput_def remote_ok_def split: option.splits)

lemma remote_client_session: "client_session E (remote_session T E) (remote_ok ok)"
proof
  show "\<exists>b s'. cs_connect (remote_session T E) c now s = Some (b, s') \<and> remote_ok ok s'" if "remote_ok ok s" for s c now
    using Remote_Connect_ok [OF that, of c now] by (simp add: remote_session_def) (metis prod.collapse)
  show "\<exists>s'. cs_tick (remote_session T E) now s = Some s' \<and> remote_ok ok s'" if "remote_ok ok s" for s now
    using Remote_Tick_ok [OF that] by (simp add: remote_session_def)
  show "\<exists>r' s'. cs_pump (remote_session T E) r s = Some (r', s') \<and> remote_ok ok s' \<and> server_calls E r r'"
    if "remote_ok ok s" for s r
    using Remote_Pump_returns [OF that, of E r] by (simp add: remote_session_def)
  show "remote_ok ok (cs_sendInput (remote_session T E) packet s)" if "remote_ok ok s" for s packet
    using Remote_SendInput_ok [OF that] by (simp add: remote_session_def)
  show "remote_ok ok s' \<and> fst (cs_drainEvents (remote_session T E) s') = []"
    if "remote_ok ok s" "cs_drainEvents (remote_session T E) s = (events, s')" for s events s'
    using that by (auto simp: remote_session_def Remote_DrainEvents_def remote_ok_def)
qed

end

end
