(* ===== verification/Client_InProcess.thy ===== *)
theory Client_InProcess
  imports Client_Session Loopback_Pair Server_App
begin

text \<open>
  \<open>src/Client/src/InProcessClientSession.cpp\<close>: the single-process game, a client session that holds the
  server host and the scripted clients, with a loopback pair between the two. The client has endpoint A
  and the server endpoint B; the host's reference to its transport is filled in from the pair for the time
  of a call.
\<close>

section \<open>State\<close>

record InProcessClientSessionConfig =
  xc_extraServerClients :: "ClientId list"
  xc_enableScriptedServerClients :: bool

definition default_InProcessConfig :: InProcessClientSessionConfig where
  "default_InProcessConfig = \<lparr>xc_extraServerClients = [2], xc_enableScriptedServerClients = True\<rparr>"

record 'r InProcessClientSession =
  xs_config :: InProcessClientSessionConfig
  xs_transports :: loopback_pair
  xs_serverHost :: "(LoopbackTransport, 'r) ServerNetworkHost option"
  xs_localClientId :: ClientId
  xs_nextTimeSyncAtMs :: TimestampMs
  xs_lastTickTimeMs :: TimestampMs
  xs_nextTimeSyncSequence :: CommandSequence
  xs_reliableEvents :: EventList
  xs_simulationOnlyDrivers :: "SimulationOnlyClientDriver list"
  xs_stats :: ClientSessionStats
  xs_connected :: bool

definition new_InProcessClientSession :: "InProcessClientSessionConfig \<Rightarrow> 'r InProcessClientSession" where
  "new_InProcessClientSession config = \<lparr>xs_config = config,
     xs_transports = \<lparr>pr_queues = empty_SharedState, pr_a = default_LoopbackTransport, pr_b = default_LoopbackTransport\<rparr>,
     xs_serverHost = None, xs_localClientId = 0, xs_nextTimeSyncAtMs = 0, xs_lastTickTimeMs = 0,
     xs_nextTimeSyncSequence = 1, xs_reliableEvents = [], xs_simulationOnlyDrivers = [],
     xs_stats = zero_ClientSessionStats, xs_connected = False\<rparr>"

definition client_end :: "'r InProcessClientSession \<Rightarrow> LoopbackTransport" where
  "client_end s = endpoint_of Endpoint_A (xs_transports s)"

definition put_client_end :: "LoopbackTransport \<Rightarrow> 'r InProcessClientSession \<Rightarrow> 'r InProcessClientSession" where
  "put_client_end t s = s\<lparr>xs_transports := put_endpoint Endpoint_A t (xs_transports s)\<rparr>"

text \<open>The host with its endpoint filled in, and the way back.\<close>

definition server_host :: "'r InProcessClientSession \<Rightarrow> (LoopbackTransport, 'r) ServerNetworkHost option" where
  "server_host s =
     map_option (\<lambda>h. h\<lparr>nh_transport := endpoint_of Endpoint_B (xs_transports s)\<rparr>) (xs_serverHost s)"

definition put_server_host ::
    "(LoopbackTransport, 'r) ServerNetworkHost \<Rightarrow> 'r InProcessClientSession \<Rightarrow> 'r InProcessClientSession" where
  "put_server_host h s =
     s\<lparr>xs_serverHost := Some h, xs_transports := put_endpoint Endpoint_B (nh_transport h) (xs_transports s)\<rparr>"

section \<open>Operations\<close>

text \<open>One turn of the loop over the extra clients.\<close>

definition add_server_client ::
    "'r entt_ops \<Rightarrow> TimestampMs \<Rightarrow> ClientId
     \<Rightarrow> 'r InProcessClientSession \<times> (LoopbackTransport, 'r) ServerNetworkHost
     \<Rightarrow> 'r InProcessClientSession \<times> (LoopbackTransport, 'r) ServerNetworkHost" where
  "add_server_client E nowMs clientId sh =
     (case sh of (s, h) \<Rightarrow>
        if clientId = xs_localClientId s then (s, h)
        else
        let (accepted, h) = ConnectSimulationOnlyClient E clientId nowMs h;
            s = s\<lparr>xs_connected := accepted \<and> xs_connected s\<rparr>;
            s = (if xs_connected s \<and> xc_enableScriptedServerClients (xs_config s)
                 then s\<lparr>xs_simulationOnlyDrivers := xs_simulationOnlyDrivers s @
                        [new_SimulationOnlyClientDriver \<lparr>sd_clientId = clientId,
                           sd_targetClientId = xs_localClientId s, sd_firstFireAtMs = 1000,
                           sd_fireIntervalMs = 1600\<rparr>]\<rparr>
                 else s)
        in (s, h))"

definition InProcess_Connect ::
    "'r entt_ops \<Rightarrow> ClientId \<Rightarrow> TimestampMs \<Rightarrow> 'r InProcessClientSession
     \<Rightarrow> (bool \<times> 'r InProcessClientSession) option" where
  "InProcess_Connect E localClientId nowMs s =
     (let s = s\<lparr>xs_localClientId := localClientId,
            xs_stats := (xs_stats s)\<lparr>ss_localClientId := localClientId, ss_connectionState := CS_Connecting\<rparr>,
            xs_simulationOnlyDrivers := [], xs_transports := CreatePair no_conditions\<rparr>;
          s = s\<lparr>xs_serverHost := Some (new_ServerNetworkHost E (endpoint_of Endpoint_B (xs_transports s)) default_HostConfig)\<rparr>;
          (sent, t) = Pump_SendLogin loopback_transport (login_command localClientId nowMs) (client_end s);
          s = put_client_end t s;
          s = s\<lparr>xs_connected := sent,
            xs_stats := (xs_stats s)\<lparr>ss_connectionState := (if sent then CS_AwaitingSpawn else CS_Disconnected)\<rparr>\<rparr>
      in do {
        h \<leftarrow> server_host s;
        h \<leftarrow> PumpClientMessages loopback_transport E h;
        let (s, h) = fold (add_server_client E nowMs) (xc_extraServerClients (xs_config s)) (s, h);
        let s = put_server_host h s;
        Some (xs_connected s, s)
      })"

definition InProcess_SendInput ::
    "ClientInputPacket \<Rightarrow> 'r InProcessClientSession \<Rightarrow> 'r InProcessClientSession" where
  "InProcess_SendInput packet s =
     (if \<not> xs_connected s then s
      else put_client_end (snd (Pump_SendInput loopback_transport packet (client_end s))) s)"

definition in_process_time_sync :: "TimestampMs \<Rightarrow> 'r InProcessClientSession \<Rightarrow> 'r InProcessClientSession" where
  "in_process_time_sync nowMs s =
     (let request = \<lparr>tq_clientId = xs_localClientId s, tq_sequence = xs_nextTimeSyncSequence s,
                     tq_clientSentAtMs = nowMs\<rparr>;
          s = s\<lparr>xs_nextTimeSyncSequence := xs_nextTimeSyncSequence s + 1\<rparr>;
          (sent, t) = SendTimeSyncRequest loopback_transport request (client_end s);
          s = put_client_end t s;
          s = (if sent
               then s\<lparr>xs_stats := (xs_stats s)\<lparr>ss_timeSyncRequestsSent := ss_timeSyncRequestsSent (xs_stats s) + 1\<rparr>\<rparr>
               else s)
      in s\<lparr>xs_nextTimeSyncAtMs := nowMs + 1000\<rparr>)"

text \<open>The scripted clients act on the server's runtime one after the other.\<close>

fun drive_all ::
    "'r entt_ops \<Rightarrow> aim_at \<Rightarrow> TimestampMs \<Rightarrow> SimulationOnlyClientDriver list \<Rightarrow> 'r ServerRuntime
     \<Rightarrow> SimulationOnlyClientDriver list \<times> 'r ServerRuntime" where
  "drive_all E aim nowMs [] v = ([], v)"
| "drive_all E aim nowMs (d # ds) v =
     (let (b, d, v) = Driver_Tick E aim nowMs d v; (ds, v) = drive_all E aim nowMs ds v in (d # ds, v))"

definition InProcess_Tick ::
    "'r entt_ops \<Rightarrow> aim_at \<Rightarrow> TimestampMs \<Rightarrow> 'r InProcessClientSession \<Rightarrow> 'r InProcessClientSession option" where
  "InProcess_Tick E aim nowMs s =
     (if \<not> xs_connected s \<or> xs_serverHost s = None then Some s
      else
      let s = s\<lparr>xs_lastTickTimeMs := nowMs\<rparr>;
          s = (if nowMs \<ge> xs_nextTimeSyncAtMs s then in_process_time_sync nowMs s else s)
      in do {
        h \<leftarrow> server_host s;
        h \<leftarrow> PumpClientMessages loopback_transport E h;
        let (drivers, v) = drive_all E aim nowMs (xs_simulationOnlyDrivers s) (nh_runtime h);
        let s = s\<lparr>xs_simulationOnlyDrivers := drivers\<rparr>;
        let h = TickAndSendSnapshots loopback_transport E nowMs (h\<lparr>nh_runtime := v\<rparr>);
        Some (put_server_host h s)
      })"

definition InProcess_Pump ::
    "'r entt_ops \<Rightarrow> 'r ClientRuntime \<Rightarrow> 'r InProcessClientSession
     \<Rightarrow> ('r ClientRuntime \<times> 'r InProcessClientSession) option" where
  "InProcess_Pump E runtime s =
     (if \<not> xs_connected s then Some (runtime, s)
      else do {
        p \<leftarrow> PumpIncoming loopback_transport E (xs_lastTickTimeMs s)
          \<lparr>pu_transport = client_end s, pu_runtime = runtime, pu_stats = xs_stats s,
           pu_reliableEvents = xs_reliableEvents s, pu_applied = 0\<rparr>;
        let s = put_client_end (pu_transport p) s;
        Some (pu_runtime p, s\<lparr>xs_stats := pu_stats p, xs_reliableEvents := pu_reliableEvents p\<rparr>)
      })"

definition InProcess_DrainEvents :: "'r InProcessClientSession \<Rightarrow> EventList \<times> 'r InProcessClientSession" where
  "InProcess_DrainEvents s = (xs_reliableEvents s, s\<lparr>xs_reliableEvents := []\<rparr>)"

definition in_process_session :: "'r entt_ops \<Rightarrow> aim_at \<Rightarrow> ('r InProcessClientSession, 'r) session_ops" where
  "in_process_session E aim = \<lparr>cs_connect = InProcess_Connect E, cs_sendInput = InProcess_SendInput,
     cs_tick = InProcess_Tick E aim, cs_pump = InProcess_Pump E, cs_drainEvents = InProcess_DrainEvents,
     cs_stats = xs_stats\<rparr>"

section \<open>The contract\<close>

text \<open>A session with a host has a pair of endpoints with valid envelopes between them.\<close>

definition in_process_ok :: "'r InProcessClientSession \<Rightarrow> bool" where
  "in_process_ok s \<longleftrightarrow> (xs_connected s \<longrightarrow> xs_serverHost s \<noteq> None)
     \<and> (\<forall>h. xs_serverHost s = Some h \<longrightarrow> pair_ok (xs_transports s) \<and> registered h)"

lemma in_process_ok_new: "in_process_ok (new_InProcessClientSession config)"
  by (simp add: in_process_ok_def new_InProcessClientSession_def)

text \<open>A client's send over a good pair.\<close>

lemma client_sent_ok:
  assumes "in_process_ok s" and "xs_serverHost s \<noteq> None"
  shows "in_process_ok (put_client_end (snd (tp_send loopback_transport e (client_end s))) s)"
proof -
  have p: "pair_ok (xs_transports s)" using assms by (auto simp: in_process_ok_def)
  from transport.sent_ok [OF shared.transport_axioms pair_ok_load [OF this, of Endpoint_A], of e] pair_ok_store [OF p] assms
  show ?thesis by (auto simp: in_process_ok_def put_client_end_def client_end_def)
qed

text \<open>The host's turn: it polls its messages and returns.\<close>

lemma host_turn:
  assumes "pair_ok p" and "registered h"
  shows "\<exists>h'. PumpClientMessages loopback_transport E (h\<lparr>nh_transport := endpoint_of Endpoint_B p\<rparr>) = Some h'
     \<and> host_inv (shared_ok Endpoint_B) (\<lambda>t. length (IncomingQueue t)) (length (IncomingQueue (endpoint_of Endpoint_B p))) h'"
  using assms pair_ok_load [OF assms(1)]
  by (intro transport.PumpClientMessages_returns [OF shared.transport_axioms]) (simp add: host_inv_def)

lemma put_server_host_ok:
  assumes "pair_ok (xs_transports s)" and "host_inv (shared_ok Endpoint_B) b n h"
  shows "in_process_ok (put_server_host h s)"
  using assms pair_ok_store [OF assms(1)] by (simp add: in_process_ok_def put_server_host_def host_inv_def)

lemma add_server_clients_keep:
  fixes h :: "(LoopbackTransport, 'r) ServerNetworkHost"
  assumes "fold (add_server_client E now) cs (s, h) = (s', h')"
  shows "(host_inv ok b n h \<longrightarrow> host_inv ok b n h') \<and> xs_transports s' = xs_transports s"
  using assms
proof (induction cs arbitrary: s h)
  case (Cons c cs)
  obtain s1 h1 where a: "add_server_client E now c (s, h) = (s1, h1)" by fastforce
  then have "(host_inv ok b n h \<longrightarrow> host_inv ok b n h1) \<and> xs_transports s1 = xs_transports s"
    by (auto simp: add_server_client_def ConnectSimulationOnlyClient_def Let_def split_def split: if_splits)
  moreover have "fold (add_server_client E now) cs (s1, h1) = (s', h')" using Cons.prems a by simp
  ultimately show ?case using Cons.IH [of s1 h1] by auto
qed auto

lemma InProcess_Connect_returns:
  "\<exists>b s'. InProcess_Connect E c now s = Some (b, s') \<and> in_process_ok s'"
proof -
  let ?s1 = "s\<lparr>xs_localClientId := c,
    xs_stats := (xs_stats s)\<lparr>ss_localClientId := c, ss_connectionState := CS_Connecting\<rparr>,
    xs_simulationOnlyDrivers := [], xs_transports := CreatePair no_conditions\<rparr>"
  let ?h = "new_ServerNetworkHost E (endpoint_of Endpoint_B (CreatePair no_conditions)) default_HostConfig"
  let ?s2 = "?s1\<lparr>xs_serverHost := Some ?h\<rparr>"
  obtain sent t where sent: "Pump_SendLogin loopback_transport (login_command c now) (client_end ?s2) = (sent, t)"
    by fastforce
  let ?s3 = "put_client_end t ?s2"
  let ?s4 = "?s3\<lparr>xs_connected := sent, xs_stats := (xs_stats ?s3)
    \<lparr>ss_connectionState := (if sent then CS_AwaitingSpawn else CS_Disconnected)\<rparr>\<rparr>"
  have reg: "registered ?h" by (simp add: registered_def new_ServerNetworkHost_def)
  have "in_process_ok ?s2" using reg by (simp add: in_process_ok_def pair_ok_CreatePair)
  then have "in_process_ok ?s3"
    using client_sent_ok [of ?s2] sent by (simp add: Pump_SendLogin_def) (metis snd_conv)
  then have p: "pair_ok (xs_transports ?s4)" by (simp add: in_process_ok_def put_client_end_def)
  obtain h where h: "PumpClientMessages loopback_transport E (?h\<lparr>nh_transport := endpoint_of Endpoint_B (xs_transports ?s4)\<rparr>) = Some h"
    "host_inv (shared_ok Endpoint_B) (\<lambda>t. length (IncomingQueue t)) (length (IncomingQueue (endpoint_of Endpoint_B (xs_transports ?s4)))) h"
    using host_turn [OF p reg] by blast
  obtain s5 h5 where f: "fold (add_server_client E now) (xc_extraServerClients (xs_config s)) (?s4, h) = (s5, h5)"
    by fastforce
  have "server_host ?s4 = Some (?h\<lparr>nh_transport := endpoint_of Endpoint_B (xs_transports ?s4)\<rparr>)"
    by (simp add: server_host_def put_client_end_def)
  moreover have "xs_config ?s4 = xs_config s" by (simp add: put_client_end_def)
  ultimately have "InProcess_Connect E c now s = Some (xs_connected (put_server_host h5 s5), put_server_host h5 s5)"
    using sent h(1) f by (simp add: InProcess_Connect_def Let_def)
  moreover have "in_process_ok (put_server_host h5 s5)"
    using add_server_clients_keep [OF f] h(2) p by (metis put_server_host_ok)
  ultimately show ?thesis by blast
qed

lemma InProcess_Tick_returns:
  assumes "in_process_ok s" shows "\<exists>s'. InProcess_Tick E aim now s = Some s' \<and> in_process_ok s'"
proof (cases "\<not> xs_connected s \<or> xs_serverHost s = None")
  case True
  then show ?thesis using assms by (simp add: InProcess_Tick_def)
next
  case False
  then obtain h0 where h0: "xs_serverHost s = Some h0" by auto
  define s1 where "s1 = (let s = s\<lparr>xs_lastTickTimeMs := now\<rparr>
    in if now \<ge> xs_nextTimeSyncAtMs s then in_process_time_sync now s else s)"
  have "in_process_ok (s\<lparr>xs_lastTickTimeMs := now\<rparr>)" using assms by (simp add: in_process_ok_def)
  moreover from this have "in_process_ok (in_process_time_sync now (s\<lparr>xs_lastTickTimeMs := now\<rparr>))"
    using client_sent_ok [of "s\<lparr>xs_lastTickTimeMs := now, xs_nextTimeSyncSequence := q\<rparr>" for q] h0
    by (simp add: in_process_time_sync_def Let_def split_def SendTimeSyncRequest_def)
      (simp add: in_process_ok_def put_client_end_def client_end_def)
  ultimately have s1: "in_process_ok s1" by (simp add: s1_def Let_def)
  have host: "xs_serverHost s1 = Some h0"
    by (simp add: s1_def h0 in_process_time_sync_def put_client_end_def Let_def split_def)
  have p: "pair_ok (xs_transports s1)" "registered h0" using s1 host by (auto simp: in_process_ok_def)
  obtain h where h: "PumpClientMessages loopback_transport E (h0\<lparr>nh_transport := endpoint_of Endpoint_B (xs_transports s1)\<rparr>) = Some h"
    "host_inv (shared_ok Endpoint_B) (\<lambda>t. length (IncomingQueue t)) (length (IncomingQueue (endpoint_of Endpoint_B (xs_transports s1)))) h"
    using host_turn [OF p] by blast
  obtain ds v where d: "drive_all E aim now (xs_simulationOnlyDrivers s1) (nh_runtime h) = (ds, v)" by fastforce
  let ?h = "TickAndSendSnapshots loopback_transport E now (h\<lparr>nh_runtime := v\<rparr>)"
  have "InProcess_Tick E aim now s = Some (put_server_host ?h (s1\<lparr>xs_simulationOnlyDrivers := ds\<rparr>))"
    using False h0 host h(1) d unfolding s1_def InProcess_Tick_def server_host_def Let_def
    by (cases "xs_nextTimeSyncAtMs s \<le> now") simp_all
  moreover have "in_process_ok (put_server_host ?h (s1\<lparr>xs_simulationOnlyDrivers := ds\<rparr>))"
    by (rule put_server_host_ok)
      (use p h(2) in \<open>auto intro: sending.TickAndSendSnapshots_inv [OF shared.sending_axioms]\<close>)
  ultimately show ?thesis by blast
qed

lemma InProcess_Pump_returns:
  assumes "in_process_ok s"
  shows "\<exists>r' s'. InProcess_Pump E r s = Some (r', s') \<and> in_process_ok s' \<and> server_calls E r r'"
proof (cases "xs_connected s")
  case True
  then have pair: "pair_ok (xs_transports s)" using assms by (auto simp: in_process_ok_def)
  let ?p = "\<lparr>pu_transport = client_end s, pu_runtime = r, pu_stats = xs_stats s,
           pu_reliableEvents = xs_reliableEvents s, pu_applied = 0\<rparr>"
  obtain p where p: "PumpIncoming loopback_transport E (xs_lastTickTimeMs s) ?p = Some p" "pump_inv (shared_ok Endpoint_A) ?p E p"
    using transport.PumpIncoming_returns [OF shared.transport_axioms, of Endpoint_A ?p E "xs_lastTickTimeMs s"]
      pair_ok_load [OF pair] by (auto simp: client_end_def)
  then have "pair_ok (put_endpoint Endpoint_A (pu_transport p) (xs_transports s))"
    using pair_ok_store [OF pair] by (simp add: pump_inv_def)
  then show ?thesis using True p assms
    by (auto simp: InProcess_Pump_def pump_inv_def in_process_ok_def put_client_end_def Let_def)
qed (simp add: InProcess_Pump_def assms)

interpretation in_process: client_session E "in_process_session E aim" in_process_ok
proof
  show "\<exists>b s'. cs_connect (in_process_session E aim) c now s = Some (b, s') \<and> in_process_ok s'" for s c now
    using InProcess_Connect_returns by (simp add: in_process_session_def)
  show "\<exists>s'. cs_tick (in_process_session E aim) now s = Some s' \<and> in_process_ok s'" if "in_process_ok s" for s now
    using InProcess_Tick_returns [OF that] by (simp add: in_process_session_def)
  show "\<exists>r' s'. cs_pump (in_process_session E aim) r s = Some (r', s') \<and> in_process_ok s' \<and> server_calls E r r'"
    if "in_process_ok s" for s r
    using InProcess_Pump_returns [OF that] by (simp add: in_process_session_def)
  show "in_process_ok (cs_sendInput (in_process_session E aim) packet s)" if "in_process_ok s" for s packet
    using client_sent_ok [OF that] that
    by (auto simp: in_process_session_def InProcess_SendInput_def Pump_SendInput_def in_process_ok_def)
  show "in_process_ok s' \<and> fst (cs_drainEvents (in_process_session E aim) s') = []"
    if "in_process_ok s" "cs_drainEvents (in_process_session E aim) s = (events, s')" for s events s'
    using that by (auto simp: in_process_session_def InProcess_DrainEvents_def in_process_ok_def)
qed

end
