(* ===== verification/Client_App.thy ===== *)
theory Client_App
  imports Client_InProcess "HOL-Library.Sublist"
begin

text \<open>
  \<open>src/Client/src/ClientApplication.cpp\<close>: the client's runtime with its session; and, on any session that
  keeps the session contract, what every sequence of calls on the application does: it returns, it counts
  its ticks, and the inputs it holds for replay are among the inputs it was given, in their order.
\<close>

section \<open>The application\<close>

record ClientApplicationConfig =
  ca_localClientId :: ClientId

record ClientApplicationStats =
  at_fixedTick :: Tick
  at_entityCount :: nat
  at_unackedInputCount :: nat
  at_session :: ClientSessionStats

record ('s, 'r) ClientApplication =
  ap_config :: ClientApplicationConfig
  ap_session :: "'s option"
  ap_runtime :: "'r ClientRuntime"
  ap_fixedTick :: Tick

definition new_ClientApplication ::
    "'r entt_ops \<Rightarrow> 's option \<Rightarrow> ClientApplicationConfig \<Rightarrow> ('s, 'r) ClientApplication" where
  "new_ClientApplication E session config = \<lparr>ap_config = config, ap_session = session,
     ap_runtime = new_ClientRuntime E (ca_localClientId config) default_SimulationConfig, ap_fixedTick = 0\<rparr>"

definition Application_Connect ::
    "'r entt_ops \<Rightarrow> ('s, 'r) session_ops \<Rightarrow> TimestampMs \<Rightarrow> ('s, 'r) ClientApplication
     \<Rightarrow> (bool \<times> ('s, 'r) ClientApplication) option" where
  "Application_Connect E S nowMs a =
     (case ap_session a of
        None \<Rightarrow> Some (False, a)
      | Some session \<Rightarrow>
          let (runtimeConnected, r) = ConnectLocal E nowMs (ap_runtime a)
          in do {
            (sessionConnected, session) \<leftarrow> cs_connect S (ca_localClientId (ap_config a)) nowMs session;
            Some (runtimeConnected \<and> sessionConnected, a\<lparr>ap_runtime := r, ap_session := Some session\<rparr>)
          })"

definition Application_SubmitInput ::
    "('s, 'r) session_ops \<Rightarrow> InputFrame \<Rightarrow> TimestampMs \<Rightarrow> ('s, 'r) ClientApplication
     \<Rightarrow> ClientInputPacket \<times> ('s, 'r) ClientApplication" where
  "Application_SubmitInput S input nowMs a =
     (let (packet, r) = QueueInput input nowMs (ap_runtime a)
      in (packet, a\<lparr>ap_runtime := r, ap_session := map_option (cs_sendInput S packet) (ap_session a)\<rparr>))"

definition Application_TickFixed ::
    "'r entt_ops \<Rightarrow> ('s, 'r) session_ops \<Rightarrow> TimestampMs \<Rightarrow> ('s, 'r) ClientApplication
     \<Rightarrow> ('s, 'r) ClientApplication option" where
  "Application_TickFixed E S nowMs a =
     (let a = a\<lparr>ap_runtime := TickSimulation E (ap_runtime a)\<rparr>
      in do {
        a \<leftarrow> (case ap_session a of
                None \<Rightarrow> Some a
              | Some session \<Rightarrow> do {
                  session \<leftarrow> cs_tick S nowMs session;
                  (r, session) \<leftarrow> cs_pump S (ap_runtime a) session;
                  Some (a\<lparr>ap_session := Some session, ap_runtime := r\<rparr>)
                });
        Some (a\<lparr>ap_fixedTick := ap_fixedTick a + 1\<rparr>)
      })"

definition Application_DrainEvents ::
    "('s, 'r) session_ops \<Rightarrow> ('s, 'r) ClientApplication \<Rightarrow> EventList \<times> ('s, 'r) ClientApplication" where
  "Application_DrainEvents S a =
     (let (events, r) = Client_DrainEvents (ap_runtime a); a = a\<lparr>ap_runtime := r\<rparr>
      in case ap_session a of
           None \<Rightarrow> (events, a)
         | Some session \<Rightarrow> let (sessionEvents, session) = cs_drainEvents S session
                           in (events @ sessionEvents, a\<lparr>ap_session := Some session\<rparr>))"

definition Application_Stats :: "('s, 'r) session_ops \<Rightarrow> ('s, 'r) ClientApplication \<Rightarrow> ClientApplicationStats" where
  "Application_Stats S a = \<lparr>at_fixedTick = ap_fixedTick a,
     at_entityCount = EntityCount (cr_simulation (ap_runtime a)),
     at_unackedInputCount = length (UnackedInputs (ap_runtime a)),
     at_session = (case ap_session a of Some session \<Rightarrow> cs_stats S session | None \<Rightarrow> zero_ClientSessionStats)\<rparr>"

section \<open>Runs\<close>

datatype application_call =
    App_Connect TimestampMs
  | App_Input InputFrame TimestampMs
  | App_Tick TimestampMs
  | App_Drain

text \<open>A call, with the inputs submitted so far.\<close>

fun run_application_call ::
    "'r entt_ops \<Rightarrow> ('s, 'r) session_ops \<Rightarrow> application_call \<Rightarrow> ('s, 'r) ClientApplication \<times> ClientInputPacket list
     \<Rightarrow> (('s, 'r) ClientApplication \<times> ClientInputPacket list) option" where
  "run_application_call E S (App_Connect now) (a, sent) = map_option (\<lambda>(b, a). (a, sent)) (Application_Connect E S now a)"
| "run_application_call E S (App_Input input now) (a, sent) =
     (let (packet, a) = Application_SubmitInput S input now a in Some (a, sent @ [packet]))"
| "run_application_call E S (App_Tick now) (a, sent) = map_option (\<lambda>a. (a, sent)) (Application_TickFixed E S now a)"
| "run_application_call E S App_Drain (a, sent) = Some (snd (Application_DrainEvents S a), sent)"

fun application_run ::
    "'r entt_ops \<Rightarrow> ('s, 'r) session_ops \<Rightarrow> application_call list \<Rightarrow> ('s, 'r) ClientApplication \<times> ClientInputPacket list
     \<Rightarrow> (('s, 'r) ClientApplication \<times> ClientInputPacket list) option" where
  "application_run E S [] st = Some st"
| "application_run E S (call # calls) st = Option.bind (run_application_call E S call st) (application_run E S calls)"

definition app_ticks :: "application_call list \<Rightarrow> nat" where
  "app_ticks calls = length (filter (\<lambda>c. \<exists>now. c = App_Tick now) calls)"

text \<open>The part of a runtime that concerns its inputs: what a server's messages leave of it.\<close>

lemma server_calls_inputs:
  assumes "server_calls E r r'"
  shows "subseq (UnackedInputs r') (UnackedInputs r) \<and> cr_nextSequence r' = cr_nextSequence r
     \<and> cr_localClientId r' = cr_localClientId r"
proof -
  have "subseq (UnackedInputs r') (UnackedInputs r) \<and> cr_nextSequence r' = cr_nextSequence r
     \<and> cr_localClientId r' = cr_localClientId r"
    if "list_all from_server calls" "fold (run_client_call E) calls (r, []) = (r', [])" for calls r
    using that
  proof (induction calls arbitrary: r)
    case (Cons call calls)
    obtain r1 where r1: "run_client_call E call (r, []) = (r1, [])"
      using Cons.prems(1) by (cases call) auto
    have "subseq (UnackedInputs r1) (UnackedInputs r)" "cr_nextSequence r1 = cr_nextSequence r"
      "cr_localClientId r1 = cr_localClientId r"
      using Cons.prems(1) r1 by (cases call; auto simp: ApplyServerSnapshot_def Let_def AcknowledgeThrough_def
          UnackedInputs_def RecordTimeSyncSample_def)+
    with Cons.IH [of r1] Cons.prems r1 show ?case by (auto intro: subseq_order.trans)
  qed simp
  with assms show ?thesis by (auto simp: server_calls_def client_run_def)
qed

text \<open>The inputs submitted so far are numbered from one, and those held for replay are among them.\<close>

definition inputs_sent :: "'r ClientRuntime \<Rightarrow> ClientInputPacket list \<Rightarrow> bool" where
  "inputs_sent r sent \<longleftrightarrow> subseq (UnackedInputs r) sent \<and> unat (cr_nextSequence r) = length sent + 1
     \<and> map input_sequence sent = [1..<length sent + 1]"

definition application_ok :: "('s \<Rightarrow> bool) \<Rightarrow> ('s, 'r) ClientApplication \<Rightarrow> ClientInputPacket list \<Rightarrow> bool" where
  "application_ok ok a sent \<longleftrightarrow> (\<forall>s. ap_session a = Some s \<longrightarrow> ok s) \<and> inputs_sent (ap_runtime a) sent"

lemma inputs_sent_cong:
  "cr_nextSequence r' = cr_nextSequence r \<Longrightarrow> cr_pendingInputs r' = cr_pendingInputs r \<Longrightarrow>
     inputs_sent r' sent = inputs_sent r sent"
  by (simp add: inputs_sent_def UnackedInputs_def)

lemma inputs_sent_server_calls: "server_calls E r r' \<Longrightarrow> inputs_sent r sent \<Longrightarrow> inputs_sent r' sent"
  using server_calls_inputs [of E r r'] by (auto simp: inputs_sent_def intro: subseq_order.trans)

lemma inputs_sent_QueueInput:
  assumes "inputs_sent r sent" and "length sent + 2 < 2 ^ 32" and "QueueInput i t r = (p, r')"
  shows "inputs_sent r' (sent @ [p])"
proof -
  have n: "unat (cr_nextSequence r) = length sent + 1" using assms(1) by (simp add: inputs_sent_def)
  have "unat (cr_nextSequence r + 1) = length sent + 2"
    using assms(2) n by (simp add: unat_word_ariths)
  then show ?thesis
    using assms(1,3) n
    by (auto simp: QueueInput_def Let_def Record_input_def inputs_sent_def UnackedInputs_def input_sequence_def
        intro: list_emb_append_mono split: prod.splits)
qed

lemma application_ok_new:
  "(\<And>s. session = Some s \<Longrightarrow> ok s) \<Longrightarrow> application_ok ok (new_ClientApplication E session config) []"
  by (simp add: application_ok_def new_ClientApplication_def inputs_sent_def new_ClientRuntime_def
      UnackedInputs_def new_PendingInputHistory_def)

context client_session
begin

lemma Application_Connect_returns:
  assumes "application_ok ok a sent"
  shows "\<exists>b a'. Application_Connect E S now a = Some (b, a') \<and> application_ok ok a' sent
     \<and> ap_fixedTick a' = ap_fixedTick a"
proof (cases "ap_session a")
  case (Some s)
  then have "ok s" using assms by (simp add: application_ok_def)
  then obtain b s' where c: "cs_connect S (ca_localClientId (ap_config a)) now s = Some (b, s')" "ok s'"
    using connect_returns by blast
  obtain c0 r where r: "ConnectLocal E now (ap_runtime a) = (c0, r)" by fastforce
  have "inputs_sent r sent = inputs_sent (ap_runtime a) sent"
    by (rule inputs_sent_cong) (use r in \<open>auto simp: ConnectLocal_def Let_def split_def\<close>)
  then show ?thesis using assms c(2) by (simp add: Application_Connect_def Some r c(1) application_ok_def)
qed (auto simp: Application_Connect_def assms)

lemma Application_TickFixed_returns:
  assumes "application_ok ok a sent"
  shows "\<exists>a'. Application_TickFixed E S now a = Some a' \<and> application_ok ok a' sent
     \<and> ap_fixedTick a' = ap_fixedTick a + 1"
proof -
  let ?r = "TickSimulation E (ap_runtime a)"
  have r: "inputs_sent ?r sent"
    using assms inputs_sent_cong [of ?r "ap_runtime a" sent] by (simp add: application_ok_def TickSimulation_def)
  show ?thesis
  proof (cases "ap_session a")
    case (Some s)
    then have "ok s" using assms by (simp add: application_ok_def)
    then obtain s1 where s1: "cs_tick S now s = Some s1" "ok s1" using tick_returns by blast
    obtain r' s2 where p: "cs_pump S ?r s1 = Some (r', s2)" "ok s2" "server_calls E ?r r'"
      using pump_returns [OF s1(2)] by blast
    then show ?thesis using inputs_sent_server_calls [OF p(3) r]
      by (simp add: Application_TickFixed_def Some s1(1) p(1) application_ok_def)
  qed (use r assms in \<open>simp add: Application_TickFixed_def application_ok_def\<close>)
qed

lemma Application_SubmitInput_ok:
  assumes "application_ok ok a sent" and "length sent + 2 < 2 ^ 32"
    and "Application_SubmitInput S i now a = (p, a')"
  shows "application_ok ok a' (sent @ [p]) \<and> ap_fixedTick a' = ap_fixedTick a"
proof -
  obtain r where q: "QueueInput i now (ap_runtime a) = (p, r)"
    using assms(3) by (auto simp: Application_SubmitInput_def split: prod.splits)
  have "inputs_sent r (sent @ [p])"
    by (rule inputs_sent_QueueInput [OF _ assms(2) q]) (use assms(1) in \<open>simp add: application_ok_def\<close>)
  then show ?thesis
    using assms(1,3) send_input_ok by (auto simp: Application_SubmitInput_def q application_ok_def)
qed

lemma Application_DrainEvents_ok:
  assumes "application_ok ok a sent"
  shows "application_ok ok (snd (Application_DrainEvents S a)) sent
     \<and> ap_fixedTick (snd (Application_DrainEvents S a)) = ap_fixedTick a"
proof -
  have "inputs_sent (snd (Client_DrainEvents (ap_runtime a))) sent = inputs_sent (ap_runtime a) sent"
    by (rule inputs_sent_cong) (simp_all add: Client_DrainEvents_def Let_def split_def)
  moreover have "ok s \<Longrightarrow> ok (snd (cs_drainEvents S s))" for s
    using drain_ok [of s] by (metis prod.collapse)
  ultimately show ?thesis using assms
    by (auto simp: Application_DrainEvents_def application_ok_def Let_def split_def split: option.splits)
qed

text \<open>Every sequence of calls returns; the ticks are counted and the held inputs are submitted ones.\<close>

lemma application_run_returns:
  assumes "application_ok ok a sent" and "length sent + length calls + 1 < 2 ^ 32"
  shows "\<exists>a' sent'. application_run E S calls (a, sent) = Some (a', sent') \<and> application_ok ok a' sent'
     \<and> ap_fixedTick a' = ap_fixedTick a + of_nat (app_ticks calls)"
  using assms
proof (induction calls arbitrary: a sent)
  case Nil
  then show ?case by (simp add: app_ticks_def)
next
  case (Cons call calls)
  note IH = Cons.IH and prems = Cons.prems
  show ?case
  proof (cases call)
    case (App_Connect now)
    obtain b a1 where "Application_Connect E S now a = Some (b, a1)" "application_ok ok a1 sent"
      "ap_fixedTick a1 = ap_fixedTick a" using Application_Connect_returns [OF prems(1)] by blast
    with IH [of a1 sent] prems(2) show ?thesis by (simp add: App_Connect app_ticks_def)
  next
    case (App_Input i now)
    obtain p a1 where q: "Application_SubmitInput S i now a = (p, a1)" by fastforce
    have "application_ok ok a1 (sent @ [p]) \<and> ap_fixedTick a1 = ap_fixedTick a"
      by (rule Application_SubmitInput_ok [OF prems(1) _ q]) (use prems(2) in simp)
    with IH [of a1 "sent @ [p]"] prems(2) show ?thesis by (simp add: App_Input q app_ticks_def)
  next
    case (App_Tick now)
    obtain a1 where "Application_TickFixed E S now a = Some a1" "application_ok ok a1 sent"
      "ap_fixedTick a1 = ap_fixedTick a + 1" using Application_TickFixed_returns [OF prems(1)] by blast
    with IH [of a1 sent] prems(2) show ?thesis by (simp add: App_Tick app_ticks_def add.assoc)
  next
    case App_Drain
    with IH [of "snd (Application_DrainEvents S a)" sent] Application_DrainEvents_ok [OF prems(1)] prems(2)
    show ?thesis by (simp add: App_Drain app_ticks_def)
  qed
qed

end

end
