(* ===== verification/Client_View.thy ===== *)
theory Client_View
  imports Client_App
begin

text \<open>
  \<open>src/Client/src/ClientViewModel.cpp\<close>: the frame that the renderer draws. The entities of the client's
  simulation come first; the interpolated ones then take the place of every entity but the local player,
  so that the local player is shown as predicted and the others as the server had them.
\<close>

section \<open>View data\<close>

datatype ViewEntityKind = View_Player | View_Projectile

datatype ViewAuthorityRole = Role_Predicted | Role_Interpolated | Role_Authoritative

datatype ViewEffectKind =
  PredictedFire | AuthoritativeHit | AuthoritativeDeath | AuthoritativeRespawn | PredictionCorrection

record ViewEntity =
  ve_entityId :: NetworkEntityId
  ve_ownerClientId :: ClientId
  ve_kind :: ViewEntityKind
  ve_role :: ViewAuthorityRole
  ve_x :: Fixed
  ve_y :: Fixed
  ve_aimX :: i16
  ve_aimY :: i16
  ve_health :: i32
  ve_maxHealth :: i32
  ve_weaponType :: WeaponType
  ve_weaponWarming :: bool
  ve_defeated :: bool

record ViewEffect =
  vf_kind :: ViewEffectKind
  vf_entityId :: NetworkEntityId
  vf_x :: Fixed
  vf_y :: Fixed
  vf_amount :: i32
  vf_progressPermille :: u16

record ClientViewFrame =
  vw_localClientId :: ClientId
  vw_stats :: ClientApplicationStats
  vw_presentation :: PresentationFrame
  vw_entities :: "ViewEntity list"
  vw_effects :: "ViewEffect list"
  vw_eventLines :: "string list"

section \<open>Roles and the presentation\<close>

definition RoleFor :: "components \<Rightarrow> ViewAuthorityRole" where
  "RoleFor c = (if c_predicted c then Role_Predicted
                else if c_authoritative c then Role_Authoritative else Role_Interpolated)"

fun KindFor :: "ReplicatedEntityKind \<Rightarrow> ViewEntityKind" where
  "KindFor Player = View_Player"
| "KindFor Projectile = View_Projectile"

definition is_local_player :: "ClientId \<Rightarrow> InterpolatedEntityState \<Rightarrow> bool" where
  "is_local_player localClientId e \<longleftrightarrow> ie_kind e = Player \<and> ie_ownerClientId e = localClientId"

text \<open>Writing an interpolated state over a shown entity, and the entity made for one that is not shown.\<close>

definition show_interpolated :: "InterpolatedEntityState \<Rightarrow> ViewEntity \<Rightarrow> ViewEntity" where
  "show_interpolated e v = v\<lparr>ve_role := Role_Interpolated, ve_x := ie_x e, ve_y := ie_y e,
     ve_aimX := ie_aimX e, ve_aimY := ie_aimY e, ve_health := ie_health e, ve_maxHealth := ie_maxHealth e,
     ve_weaponType := ie_weaponType e, ve_weaponWarming := ie_weaponWarming e, ve_defeated := ie_defeated e\<rparr>"

definition new_interpolated :: "InterpolatedEntityState \<Rightarrow> ViewEntity" where
  "new_interpolated e = \<lparr>ve_entityId = ie_entityId e, ve_ownerClientId = ie_ownerClientId e,
     ve_kind = KindFor (ie_kind e), ve_role = Role_Interpolated, ve_x = ie_x e, ve_y = ie_y e,
     ve_aimX = ie_aimX e, ve_aimY = ie_aimY e, ve_health = ie_health e, ve_maxHealth = ie_maxHealth e,
     ve_weaponType = ie_weaponType e, ve_weaponWarming = ie_weaponWarming e, ve_defeated = ie_defeated e\<rparr>"

text \<open>The search for an entity and the write through the iterator, or the append when it is not there.\<close>

fun put_interpolated :: "InterpolatedEntityState \<Rightarrow> ViewEntity list \<Rightarrow> ViewEntity list" where
  "put_interpolated e [] = [new_interpolated e]"
| "put_interpolated e (v # vs) =
     (if ve_entityId v = ie_entityId e then show_interpolated e v # vs else v # put_interpolated e vs)"

definition apply_interpolated :: "ClientId \<Rightarrow> InterpolatedEntityState \<Rightarrow> ViewEntity list \<Rightarrow> ViewEntity list" where
  "apply_interpolated localClientId e vs =
     (if is_local_player localClientId e then vs else put_interpolated e vs)"

definition ApplyPresentationFrame :: "ClientViewFrame \<Rightarrow> ClientViewFrame" where
  "ApplyPresentationFrame view =
     view\<lparr>vw_entities := fold (apply_interpolated (vw_localClientId view))
            (pf_entities (vw_presentation view)) (vw_entities view)\<rparr>"

section \<open>Event lines\<close>

text \<open>\<open>std::to_string\<close> on unsigned and on signed values.\<close>

fun decimal :: "nat \<Rightarrow> string" where
  "decimal n = (if n < 10 then [char_of (48 + n)] else decimal (n div 10) @ [char_of (48 + n mod 10)])"

declare decimal.simps [simp del]

definition decimal_int :: "int \<Rightarrow> string" where
  "decimal_int i = (if i < 0 then ''-'' @ decimal (nat (- i)) else decimal (nat i))"

abbreviation decimal_u32 :: "u32 \<Rightarrow> string" where
  "decimal_u32 w \<equiv> decimal (unat w)"

fun EventLine :: "DomainEvent \<Rightarrow> string" where
  "EventLine (PlayerSpawned e c x y) = ''Player spawned: client '' @ decimal_u32 c"
| "EventLine (WeaponWarmupStarted e t1 t2 w) = ''Bow warmup started: entity '' @ decimal_u32 e"
| "EventLine (WeaponFired e t w) = ''Bow fired: entity '' @ decimal_u32 e"
| "EventLine (ProjectileSpawned p s x y w) = ''Projectile spawned: entity '' @ decimal_u32 p"
| "EventLine (HitConfirmed a t p tm) = ''Hit confirmed: '' @ decimal_u32 a @ '' -> '' @ decimal_u32 t"
| "EventLine (PlayerDamaged e a d h) =
     ''Player damaged: entity '' @ decimal_u32 e @ '' for '' @ decimal_int (sint d) @ '' hp, remaining ''
       @ decimal_int (sint h)"
| "EventLine (PlayerDied e a t) =
     ''Player died: entity '' @ decimal_u32 e @ '', respawn at '' @ decimal (unat t) @ ''ms''"
| "EventLine (PlayerRespawned e x y) = ''Player respawned: entity '' @ decimal_u32 e"
| "EventLine (LocalPredictionCorrected e x y ax ay) = ''Prediction corrected: entity '' @ decimal_u32 e"
| "EventLine (EntityEnteredInterest e c) = ''Entity entered interest: '' @ decimal_u32 e"
| "EventLine (EntityLeftInterest e c) = ''Entity left interest: '' @ decimal_u32 e"
| "EventLine (SnapshotApplied s b q) = ''Snapshot applied: '' @ decimal_u32 s"
| "EventLine (PlayerMoved e x y nx ny) = ''Simulation event''"

section \<open>The frame\<close>

definition player_view :: "components \<Rightarrow> ViewEntity option" where
  "player_view c =
     (case (c_identity c, c_transform c, c_player c, c_aim c, c_weapon c) of
        (Some i, Some t, Some p, Some a, Some w) \<Rightarrow>
          Some \<lparr>ve_entityId = i, ve_ownerClientId = pl_clientId p, ve_kind = View_Player, ve_role = RoleFor c,
            ve_x = tf_x t, ve_y = tf_y t, ve_aimX = am_x a, ve_aimY = am_y a, ve_health = pl_health p,
            ve_maxHealth = pl_maxHealth p, ve_weaponType = ws_type w, ve_weaponWarming = ws_warming w,
            ve_defeated = pl_defeated p\<rparr>
      | _ \<Rightarrow> None)"

text \<open>The owner field of a projectile is filled from the network identifier of its owner.\<close>

definition projectile_view :: "components \<Rightarrow> ViewEntity option" where
  "projectile_view c =
     (case (c_identity c, c_transform c, c_projectile c) of
        (Some i, Some t, Some p) \<Rightarrow>
          Some \<lparr>ve_entityId = i, ve_ownerClientId = pj_ownerId p, ve_kind = View_Projectile, ve_role = RoleFor c,
            ve_x = tf_x t, ve_y = tf_y t, ve_aimX = 1000, ve_aimY = 0, ve_health = 0, ve_maxHealth = 0,
            ve_weaponType = WeaponNone, ve_weaponWarming = False, ve_defeated = False\<rparr>
      | _ \<Rightarrow> None)"

definition simulated_entities :: "'r entt_ops \<Rightarrow> 'r GameSimulation \<Rightarrow> ViewEntity list" where
  "simulated_entities E s =
     List.map_filter (\<lambda>e. player_view (cm E s e))
       (en_view E [K_Identity, K_Transform, K_Player, K_Aim, K_Weapon] (gs_registry s))
     @ List.map_filter (\<lambda>e. projectile_view (cm E s e))
       (en_view E [K_Identity, K_Transform, K_Projectile] (gs_registry s))"

definition BuildClientViewFrame ::
    "'r entt_ops \<Rightarrow> 'r ClientRuntime \<Rightarrow> EventList \<Rightarrow> ClientApplicationStats \<Rightarrow> ClientViewFrame" where
  "BuildClientViewFrame E runtime events stats =
     ApplyPresentationFrame
       \<lparr>vw_localClientId = cr_localClientId runtime, vw_stats = stats,
        vw_presentation = Sample (cr_presentationInterpolator runtime) (gs_timeMs (cr_simulation runtime)),
        vw_entities = simulated_entities E (cr_simulation runtime), vw_effects = [],
        vw_eventLines = map EventLine events\<rparr>"

section \<open>What a frame shows\<close>

definition shown :: "ViewEntity list \<Rightarrow> NetworkEntityId \<Rightarrow> ViewEntity option" where
  "shown vs i = find (\<lambda>v. ve_entityId v = i) vs"

text \<open>The entity is shown as the interpolated state has it.\<close>

definition shows_state :: "InterpolatedEntityState \<Rightarrow> ViewEntity \<Rightarrow> bool" where
  "shows_state e v \<longleftrightarrow> ve_entityId v = ie_entityId e \<and> ve_role v = Role_Interpolated \<and> ve_x v = ie_x e
     \<and> ve_y v = ie_y e \<and> ve_aimX v = ie_aimX e \<and> ve_aimY v = ie_aimY e \<and> ve_health v = ie_health e
     \<and> ve_maxHealth v = ie_maxHealth e \<and> ve_weaponType v = ie_weaponType e
     \<and> ve_weaponWarming v = ie_weaponWarming e \<and> ve_defeated v = ie_defeated e"

lemma shown_put_interpolated:
  "if i = ie_entityId e then \<exists>v. shown (put_interpolated e vs) i = Some v \<and> shows_state e v
   else shown (put_interpolated e vs) i = shown vs i"
  by (induction vs) (auto simp: shown_def shows_state_def new_interpolated_def show_interpolated_def)

lemma put_interpolated_ids:
  "map ve_entityId (put_interpolated e vs) =
     map ve_entityId vs @ (if ie_entityId e \<in> ve_entityId ` set vs then [] else [ie_entityId e])"
  by (induction vs) (auto simp: new_interpolated_def show_interpolated_def)

lemma shown_presentation:
  assumes "distinct (map ie_entityId es)"
  shows "(\<forall>e\<in>set es. \<not> is_local_player c e \<longrightarrow>
       (\<exists>v. shown (fold (apply_interpolated c) es vs) (ie_entityId e) = Some v \<and> shows_state e v))
     \<and> (\<forall>i. i \<notin> ie_entityId ` {e \<in> set es. \<not> is_local_player c e} \<longrightarrow>
          shown (fold (apply_interpolated c) es vs) i = shown vs i)
     \<and> (distinct (map ve_entityId vs) \<longrightarrow> distinct (map ve_entityId (fold (apply_interpolated c) es vs)))"
  using assms
proof (induction es arbitrary: vs)
  case (Cons e es)
  let ?vs = "apply_interpolated c e vs"
  note put = shown_put_interpolated [of _ e vs]
  have IH: "\<forall>e\<in>set es. \<not> is_local_player c e \<longrightarrow>
       (\<exists>v. shown (fold (apply_interpolated c) es ?vs) (ie_entityId e) = Some v \<and> shows_state e v)"
    "\<forall>i. i \<notin> ie_entityId ` {e \<in> set es. \<not> is_local_player c e} \<longrightarrow>
          shown (fold (apply_interpolated c) es ?vs) i = shown ?vs i"
    "distinct (map ve_entityId ?vs) \<longrightarrow> distinct (map ve_entityId (fold (apply_interpolated c) es ?vs))"
    using Cons by auto
  have fresh: "ie_entityId e \<notin> ie_entityId ` {e \<in> set es. \<not> is_local_player c e}"
    using Cons.prems by auto
  have "shown ?vs (ie_entityId e) = Some v \<longrightarrow> shown (fold (apply_interpolated c) es ?vs) (ie_entityId e) = Some v" for v
    using IH(2) fresh by simp
  moreover have "\<not> is_local_player c e \<Longrightarrow> \<exists>v. shown ?vs (ie_entityId e) = Some v \<and> shows_state e v"
    using put [of "ie_entityId e"] by (simp add: apply_interpolated_def)
  moreover have "shown ?vs i = shown vs i" if "i \<notin> ie_entityId ` {e' \<in> set (e # es). \<not> is_local_player c e'}" for i
    using put [of i] that by (auto simp: apply_interpolated_def image_iff split: if_splits)
  moreover have "distinct (map ve_entityId vs) \<longrightarrow> distinct (map ve_entityId ?vs)"
    by (simp add: apply_interpolated_def put_interpolated_ids)
  ultimately show ?case using IH by (auto simp: image_iff)
qed simp

end
