(* ===== verification/Client_Frame.thy ===== *)
theory Client_Frame
  imports Client_View Floats
begin

text \<open>
  The client's frame loop: the fixed-step clock (\<open>src/Client/src/FixedStepClock.cpp\<close>), the logs that the
  view shows (\<open>ClientEventLog.cpp\<close>, \<open>ClientVisualEffectLog.cpp\<close>), and \<open>RunFrame\<close> of
  \<open>RaylibClientHost.cpp\<close>, which ties them to the application.

  Times on this level are single-precision floats, whose arithmetic is the parameter \<open>float_ops\<close>.
\<close>

section \<open>The fixed-step clock\<close>

record 'f FixedStepClockConfig =
  fx_fixedStepSeconds :: 'f
  fx_maxFrameSeconds :: 'f
  fx_maxTicksPerFrame :: i32

definition default_FixedStepClockConfig :: "'f float_ops \<Rightarrow> 'f FixedStepClockConfig" where
  "default_FixedStepClockConfig F = \<lparr>fx_fixedStepSeconds = fl_div F (fl_ratio F 16 1) (fl_ratio F 1000 1),
     fx_maxFrameSeconds = fl_div F (fl_ratio F 100 1) (fl_ratio F 1000 1), fx_maxTicksPerFrame = 8\<rparr>"

record 'f FixedStepClock =
  fc_config :: "'f FixedStepClockConfig"
  fc_accumulatorSeconds :: 'f
  fc_ticksConsumedThisFrame :: i32

definition new_FixedStepClock :: "'f float_ops \<Rightarrow> 'f FixedStepClockConfig \<Rightarrow> 'f FixedStepClock" where
  "new_FixedStepClock F config =
     \<lparr>fc_config = config, fc_accumulatorSeconds = fl_ratio F 0 1, fc_ticksConsumedThisFrame = 0\<rparr>"

definition BeginFrame :: "'f float_ops \<Rightarrow> 'f \<Rightarrow> 'f FixedStepClock \<Rightarrow> 'f FixedStepClock" where
  "BeginFrame F frameSeconds c =
     c\<lparr>fc_ticksConsumedThisFrame := 0,
       fc_accumulatorSeconds := fl_add F (fc_accumulatorSeconds c)
         (fl_clamp F frameSeconds (fl_ratio F 0 1) (fx_maxFrameSeconds (fc_config c)))\<rparr>"

definition ShouldTick :: "'f float_ops \<Rightarrow> 'f FixedStepClock \<Rightarrow> bool" where
  "ShouldTick F c \<longleftrightarrow> fl_leq F (fx_fixedStepSeconds (fc_config c)) (fc_accumulatorSeconds c)
     \<and> sint (fc_ticksConsumedThisFrame c) < sint (fx_maxTicksPerFrame (fc_config c))"

definition ConsumeTick :: "'f float_ops \<Rightarrow> 'f FixedStepClock \<Rightarrow> 'f FixedStepClock" where
  "ConsumeTick F c =
     c\<lparr>fc_accumulatorSeconds := fl_sub F (fc_accumulatorSeconds c) (fx_fixedStepSeconds (fc_config c)),
       fc_ticksConsumedThisFrame := fc_ticksConsumedThisFrame c + 1\<rparr>"

definition EndFrame :: "'f float_ops \<Rightarrow> 'f FixedStepClock \<Rightarrow> 'f FixedStepClock" where
  "EndFrame F c =
     (if sint (fx_maxTicksPerFrame (fc_config c)) \<le> sint (fc_ticksConsumedThisFrame c)
         \<and> fl_leq F (fx_fixedStepSeconds (fc_config c)) (fc_accumulatorSeconds c)
      then c\<lparr>fc_accumulatorSeconds := fl_ratio F 0 1\<rparr> else c)"

definition RenderAlpha :: "'f float_ops \<Rightarrow> 'f FixedStepClock \<Rightarrow> 'f" where
  "RenderAlpha F c =
     (if fl_leq F (fx_fixedStepSeconds (fc_config c)) (fl_ratio F 0 1) then fl_ratio F 0 1
      else fl_clamp F (fl_div F (fc_accumulatorSeconds c) (fx_fixedStepSeconds (fc_config c)))
             (fl_ratio F 0 1) (fl_ratio F 1 1))"

section \<open>The event log\<close>

record 'f ClientEventLogEntry =
  le_line :: string
  le_secondsRemaining :: 'f

record 'f ClientEventLog =
  el_maxEntries :: nat
  el_entryLifetimeSeconds :: 'f
  el_entries :: "'f ClientEventLogEntry list"

definition new_ClientEventLog :: "'f float_ops \<Rightarrow> 'f ClientEventLog" where
  "new_ClientEventLog F = \<lparr>el_maxEntries = 8, el_entryLifetimeSeconds = fl_ratio F 3 1, el_entries = []\<rparr>"

definition EventLog_Push :: "string \<Rightarrow> 'f ClientEventLog \<Rightarrow> 'f ClientEventLog" where
  "EventLog_Push line log =
     (if line = [] then log
      else log\<lparr>el_entries := pop_front_to (el_maxEntries log)
             (el_entries log @ [\<lparr>le_line = line, le_secondsRemaining = el_entryLifetimeSeconds log\<rparr>])\<rparr>)"

definition PushMany :: "string list \<Rightarrow> 'f ClientEventLog \<Rightarrow> 'f ClientEventLog" where
  "PushMany lines log = fold EventLog_Push lines log"

definition EventLog_Update :: "'f float_ops \<Rightarrow> 'f \<Rightarrow> 'f ClientEventLog \<Rightarrow> 'f ClientEventLog" where
  "EventLog_Update F deltaSeconds log =
     log\<lparr>el_entries := filter (\<lambda>e. \<not> fl_leq F (le_secondsRemaining e) (fl_ratio F 0 1))
           (map (\<lambda>e. e\<lparr>le_secondsRemaining := fl_sub F (le_secondsRemaining e) deltaSeconds\<rparr>) (el_entries log))\<rparr>"

definition EventLog_Lines :: "'f ClientEventLog \<Rightarrow> string list" where
  "EventLog_Lines log = map le_line (el_entries log)"

section \<open>The visual effect log\<close>

record 'f ClientVisualEffectLogEntry =
  ee_effect :: ViewEffect
  ee_secondsRemaining :: 'f
  ee_lifetimeSeconds :: 'f

record 'f ClientVisualEffectLog =
  vl_maxEntries :: nat
  vl_entries :: "'f ClientVisualEffectLogEntry list"

definition new_ClientVisualEffectLog :: "'f ClientVisualEffectLog" where
  "new_ClientVisualEffectLog = \<lparr>vl_maxEntries = 24, vl_entries = []\<rparr>"

fun LifetimeFor :: "'f float_ops \<Rightarrow> ViewEffectKind \<Rightarrow> 'f" where
  "LifetimeFor F PredictedFire = fl_ratio F 35 100"
| "LifetimeFor F AuthoritativeHit = fl_ratio F 45 100"
| "LifetimeFor F AuthoritativeDeath = fl_ratio F 8 10"
| "LifetimeFor F AuthoritativeRespawn = fl_ratio F 7 10"
| "LifetimeFor F PredictionCorrection = fl_ratio F 4 10"

definition EffectLog_Push :: "ViewEffect \<Rightarrow> 'f \<Rightarrow> 'f ClientVisualEffectLog \<Rightarrow> 'f ClientVisualEffectLog" where
  "EffectLog_Push effect lifetimeSeconds log =
     log\<lparr>vl_entries := pop_front_to (vl_maxEntries log)
           (vl_entries log @ [\<lparr>ee_effect = effect, ee_secondsRemaining = lifetimeSeconds,
                               ee_lifetimeSeconds = lifetimeSeconds\<rparr>])\<rparr>"

definition EffectAtEntity ::
    "'r entt_ops \<Rightarrow> ViewEffectKind \<Rightarrow> NetworkEntityId \<Rightarrow> 'r ClientRuntime \<Rightarrow> i32 \<Rightarrow> ViewEffect option" where
  "EffectAtEntity E kind entityId runtime amount =
     (case MovementForEntity E (cr_simulation runtime) entityId of
        None \<Rightarrow> None
      | Some movement \<Rightarrow> Some \<lparr>vf_kind = kind, vf_entityId = entityId, vf_x = mv_x movement,
          vf_y = mv_y movement, vf_amount = amount, vf_progressPermille = 0\<rparr>)"

text \<open>The effect of an event, if it has one; the local player's own warmups only.\<close>

fun effect_of ::
    "'r entt_ops \<Rightarrow> 'r ClientRuntime \<Rightarrow> NetworkEntityId option \<Rightarrow> DomainEvent \<Rightarrow> ViewEffect option" where
  "effect_of E runtime localPlayer (WeaponWarmupStarted e t1 t2 w) =
     (if localPlayer = Some e then EffectAtEntity E PredictedFire e runtime 0 else None)"
| "effect_of E runtime localPlayer (HitConfirmed a t p tm) = EffectAtEntity E AuthoritativeHit t runtime 0"
| "effect_of E runtime localPlayer (PlayerDamaged e a d h) = EffectAtEntity E AuthoritativeHit e runtime d"
| "effect_of E runtime localPlayer (PlayerDied e a t) = EffectAtEntity E AuthoritativeDeath e runtime 0"
| "effect_of E runtime localPlayer (PlayerRespawned e x y) =
     Some \<lparr>vf_kind = AuthoritativeRespawn, vf_entityId = e, vf_x = x, vf_y = y, vf_amount = 0,
           vf_progressPermille = 0\<rparr>"
| "effect_of E runtime localPlayer (LocalPredictionCorrected e x y ax ay) =
     Some \<lparr>vf_kind = PredictionCorrection, vf_entityId = e, vf_x = ax, vf_y = ay, vf_amount = 0,
           vf_progressPermille = 0\<rparr>"
| "effect_of E runtime localPlayer event = None"

definition PushFromEvents ::
    "'f float_ops \<Rightarrow> 'r entt_ops \<Rightarrow> EventList \<Rightarrow> 'r ClientRuntime \<Rightarrow> 'f ClientVisualEffectLog
     \<Rightarrow> 'f ClientVisualEffectLog" where
  "PushFromEvents F E events runtime log =
     (let localPlayer = PlayerEntityForClient (cr_simulation runtime) (cr_localClientId runtime)
      in fold (\<lambda>event log. case effect_of E runtime localPlayer event of
                None \<Rightarrow> log
              | Some effect \<Rightarrow> EffectLog_Push effect (LifetimeFor F (vf_kind effect)) log) events log)"

definition EffectLog_Update :: "'f float_ops \<Rightarrow> 'f \<Rightarrow> 'f ClientVisualEffectLog \<Rightarrow> 'f ClientVisualEffectLog" where
  "EffectLog_Update F deltaSeconds log =
     log\<lparr>vl_entries := filter (\<lambda>e. \<not> fl_leq F (ee_secondsRemaining e) (fl_ratio F 0 1))
           (map (\<lambda>e. e\<lparr>ee_secondsRemaining := fl_sub F (ee_secondsRemaining e) deltaSeconds\<rparr>) (vl_entries log))\<rparr>"

definition Effects :: "'f float_ops \<Rightarrow> 'f ClientVisualEffectLog \<Rightarrow> ViewEffect list" where
  "Effects F log = map (\<lambda>e.
     let elapsed = fl_sub F (ee_lifetimeSeconds e) (ee_secondsRemaining e)
     in (ee_effect e)\<lparr>vf_progressPermille := fl_to_u16 F (fl_clamp F
          (fl_mul F (fl_div F elapsed (ee_lifetimeSeconds e)) (fl_ratio F 1000 1))
          (fl_ratio F 0 1) (fl_ratio F 1000 1))\<rparr>) (vl_entries log)"

section \<open>One frame\<close>

record ('s, 'r, 'f) client_host =
  ho_app :: "('s, 'r) ClientApplication"
  ho_fixedStep :: "'f FixedStepClock"
  ho_eventLog :: "'f ClientEventLog"
  ho_visualEffectLog :: "'f ClientVisualEffectLog"

text \<open>
  The loop of a frame. The wall clock is read once per tick; \<open>now i\<close> is the reading at tick \<open>i\<close> of the
  frame. The events of the ticks are collected.
\<close>

partial_function (option) tick_loop ::
    "'f float_ops \<Rightarrow> 'r entt_ops \<Rightarrow> ('s, 'r) session_ops \<Rightarrow> InputFrame \<Rightarrow> (nat \<Rightarrow> TimestampMs) \<Rightarrow> nat
     \<Rightarrow> ('s, 'r) ClientApplication \<Rightarrow> 'f FixedStepClock \<Rightarrow> EventList
     \<Rightarrow> (('s, 'r) ClientApplication \<times> 'f FixedStepClock \<times> EventList) option" where
  "tick_loop F E S input now i app clock frameEvents =
     (if \<not> ShouldTick F clock then Some (app, clock, frameEvents)
      else
      let (packet, app) = Application_SubmitInput S input (now i) app
      in Option.bind (Application_TickFixed E S (now i) app) (\<lambda>app.
        let (tickEvents, app) = Application_DrainEvents S app
        in tick_loop F E S input now (i + 1) app (ConsumeTick F clock) (frameEvents @ tickEvents)))"

definition RunFrame ::
    "'f float_ops \<Rightarrow> 'r entt_ops \<Rightarrow> ('s, 'r) session_ops \<Rightarrow> 'f \<Rightarrow> InputFrame \<Rightarrow> (nat \<Rightarrow> TimestampMs)
     \<Rightarrow> ('s, 'r, 'f) client_host \<Rightarrow> (ClientViewFrame \<times> ('s, 'r, 'f) client_host) option" where
  "RunFrame F E S frameSeconds input now h = do {
     (app, clock, frameEvents) \<leftarrow>
       tick_loop F E S input now 0 (ho_app h) (BeginFrame F frameSeconds (ho_fixedStep h)) [];
     let clock = EndFrame F clock;
     let eventLog = EventLog_Update F frameSeconds (ho_eventLog h);
     let visualEffectLog = EffectLog_Update F frameSeconds (ho_visualEffectLog h);
     let visualEffectLog = PushFromEvents F E frameEvents (ap_runtime app) visualEffectLog;
     let view = BuildClientViewFrame E (ap_runtime app) frameEvents (Application_Stats S app);
     let eventLog = PushMany (vw_eventLines view) eventLog;
     let view = view\<lparr>vw_eventLines := EventLog_Lines eventLog, vw_effects := Effects F visualEffectLog\<rparr>;
     Some (view, \<lparr>ho_app = app, ho_fixedStep = clock, ho_eventLog = eventLog,
                  ho_visualEffectLog = visualEffectLog\<rparr>)
   }"

section \<open>The logs stay within their limits\<close>

text \<open>What the view can show of the two logs after a frame.\<close>

definition logs_ok :: "('s, 'r, 'f) client_host \<Rightarrow> bool" where
  "logs_ok h \<longleftrightarrow> length (el_entries (ho_eventLog h)) \<le> el_maxEntries (ho_eventLog h)
     \<and> length (vl_entries (ho_visualEffectLog h)) \<le> vl_maxEntries (ho_visualEffectLog h)
     \<and> (\<forall>e\<in>set (el_entries (ho_eventLog h)). le_line e \<noteq> [])"

abbreviation event_log_ok :: "nat \<Rightarrow> 'f ClientEventLog \<Rightarrow> bool" where
  "event_log_ok n log \<equiv> el_maxEntries log = n \<and> length (el_entries log) \<le> n
     \<and> (\<forall>e\<in>set (el_entries log). le_line e \<noteq> [])"

lemma event_log_ok_PushMany: "event_log_ok n log \<Longrightarrow> event_log_ok n (PushMany lines log)"
  unfolding PushMany_def
  by (rule fold_keeps) (auto simp: EventLog_Push_def dest!: subsetD [OF set_pop_front_to_subset])

lemma event_log_ok_Update: "event_log_ok n log \<Longrightarrow> event_log_ok n (EventLog_Update F d log)"
  by (auto simp: EventLog_Update_def intro: le_trans [OF length_filter_le])

abbreviation effect_log_ok :: "nat \<Rightarrow> 'f ClientVisualEffectLog \<Rightarrow> bool" where
  "effect_log_ok n log \<equiv> vl_maxEntries log = n \<and> length (vl_entries log) \<le> n"

lemma effect_log_ok_PushFromEvents: "effect_log_ok n log \<Longrightarrow> effect_log_ok n (PushFromEvents F E events r log)"
  unfolding PushFromEvents_def Let_def
  by (rule fold_keeps) (auto simp: EffectLog_Push_def split: option.splits)

lemma effect_log_ok_Update: "effect_log_ok n log \<Longrightarrow> effect_log_ok n (EffectLog_Update F d log)"
  by (auto simp: EffectLog_Update_def intro: le_trans [OF length_filter_le])

section \<open>A frame ends\<close>

text \<open>The ticks that a clock still allows in this frame.\<close>

definition ticks_left :: "'f FixedStepClock \<Rightarrow> nat" where
  "ticks_left c = nat (sint (fx_maxTicksPerFrame (fc_config c)) - sint (fc_ticksConsumedThisFrame c))"

lemma ticks_left_ConsumeTick:
  assumes "ShouldTick F c"
  shows "Suc (ticks_left (ConsumeTick F c)) = ticks_left c"
proof -
  let ?n = "fc_ticksConsumedThisFrame c" and ?m = "fx_maxTicksPerFrame (fc_config c)"
  have lt: "sint ?n < sint ?m" using assms by (simp add: ShouldTick_def)
  then have "sint (?n + 1) = sint ?n + 1"
    using sint_add_i32 [of ?n 1] sint_i32_range [of ?n] sint_i32_range [of ?m] by simp
  then show ?thesis using lt by (simp add: ticks_left_def ConsumeTick_def)
qed

context client_session
begin

lemma tick_loop_returns:
  assumes "application_ok ok app sent" and "length sent + ticks_left clock + 1 < 2 ^ 32"
  shows "\<exists>app' clock' events' sent'. tick_loop F E S input now i app clock events = Some (app', clock', events')
     \<and> application_ok ok app' sent' \<and> \<not> ShouldTick F clock'
     \<and> length sent \<le> length sent' \<and> length sent' \<le> length sent + ticks_left clock
     \<and> ap_fixedTick app' = ap_fixedTick app + of_nat (length sent' - length sent)"
  using assms
proof (induction "ticks_left clock" arbitrary: app clock events sent i rule: less_induct)
  case less
  show ?case
  proof (cases "ShouldTick F clock")
    case False
    then show ?thesis using less.prems(1) by (subst tick_loop.simps) auto
  next
    case True
    note left = ticks_left_ConsumeTick [OF True]
    obtain p a1 where q: "Application_SubmitInput S input (now i) app = (p, a1)" by fastforce
    have a1: "application_ok ok a1 (sent @ [p])" "ap_fixedTick a1 = ap_fixedTick app"
      using Application_SubmitInput_ok [OF less.prems(1) _ q] less.prems(2) left by auto
    obtain a2 where a2: "Application_TickFixed E S (now i) a1 = Some a2" "application_ok ok a2 (sent @ [p])"
      "ap_fixedTick a2 = ap_fixedTick a1 + 1" using Application_TickFixed_returns [OF a1(1)] by blast
    obtain ev a3 where a3: "Application_DrainEvents S a2 = (ev, a3)" by fastforce
    then have ok3: "application_ok ok a3 (sent @ [p])" "ap_fixedTick a3 = ap_fixedTick a2"
      using Application_DrainEvents_ok [OF a2(2)] by simp_all
    have "ticks_left (ConsumeTick F clock) < ticks_left clock" using left by simp
    moreover have "length (sent @ [p]) + ticks_left (ConsumeTick F clock) + 1 < 2 ^ 32"
      using less.prems(2) left by simp
    ultimately obtain app' clock' events' sent' where r:
      "tick_loop F E S input now (i + 1) a3 (ConsumeTick F clock) (events @ ev) = Some (app', clock', events')"
      "application_ok ok app' sent'" "\<not> ShouldTick F clock'" "length (sent @ [p]) \<le> length sent'"
      "length sent' \<le> length (sent @ [p]) + ticks_left (ConsumeTick F clock)"
      "ap_fixedTick app' = ap_fixedTick a3 + of_nat (length sent' - length (sent @ [p]))"
      using less.hyps [OF _ ok3(1)] by blast
    have "length sent' - length sent = Suc (length sent' - length (sent @ [p]))" using r(4) by simp
    then have tick: "ap_fixedTick app' = ap_fixedTick app + of_nat (length sent' - length sent)"
      using r(6) ok3(2) a2(3) a1(2) by (simp add: add.assoc)
    have "tick_loop F E S input now i app clock events = Some (app', clock', events')"
      using True q a2(1) a3 r(1) by (subst tick_loop.simps) simp
    then show ?thesis using r tick left by auto
  qed
qed

text \<open>
  A frame returns, after at most the configured number of ticks, whatever the floats do; and its logs stay
  within their limits.
\<close>

lemma RunFrame_returns:
  fixes h :: "('s, 'r, 'f) client_host"
  assumes app: "application_ok ok (ho_app h) sent" and logs: "logs_ok h"
    and room: "length sent + nat (sint (fx_maxTicksPerFrame (fc_config (ho_fixedStep h)))) + 1 < 2 ^ 32"
  shows "\<exists>view h' sent'. RunFrame F E S frameSeconds input now h = Some (view, h')
     \<and> application_ok ok (ho_app h') sent' \<and> logs_ok h'
     \<and> length sent \<le> length sent'
     \<and> length sent' \<le> length sent + nat (sint (fx_maxTicksPerFrame (fc_config (ho_fixedStep h))))
     \<and> ap_fixedTick (ho_app h') = ap_fixedTick (ho_app h) + of_nat (length sent' - length sent)
     \<and> length (vw_eventLines view) \<le> el_maxEntries (ho_eventLog h)
     \<and> length (vw_effects view) \<le> vl_maxEntries (ho_visualEffectLog h)"
proof -
  let ?clock = "BeginFrame F frameSeconds (ho_fixedStep h)"
  have left: "ticks_left ?clock = nat (sint (fx_maxTicksPerFrame (fc_config (ho_fixedStep h))))"
    by (simp add: ticks_left_def BeginFrame_def)
  obtain a c ev sent' where t: "tick_loop F E S input now 0 (ho_app h) ?clock [] = Some (a, c, ev)"
    "application_ok ok a sent'" "length sent \<le> length sent'" "length sent' \<le> length sent + ticks_left ?clock"
    "ap_fixedTick a = ap_fixedTick (ho_app h) + of_nat (length sent' - length sent)"
    using tick_loop_returns [OF app, of ?clock F input now 0 "[]"] room left by auto
  define effects where "effects = PushFromEvents F E ev (ap_runtime a)
    (EffectLog_Update F frameSeconds (ho_visualEffectLog h))"
  define view where "view = BuildClientViewFrame E (ap_runtime a) ev (Application_Stats S a)"
  define lines where "lines = PushMany (vw_eventLines view) (EventLog_Update F frameSeconds (ho_eventLog h))"
  have l: "event_log_ok (el_maxEntries (ho_eventLog h)) lines"
    unfolding lines_def using logs by (intro event_log_ok_PushMany event_log_ok_Update) (simp add: logs_ok_def)
  have e: "effect_log_ok (vl_maxEntries (ho_visualEffectLog h)) effects"
    unfolding effects_def using logs
    by (intro effect_log_ok_PushFromEvents effect_log_ok_Update) (simp add: logs_ok_def)
  let ?view = "view\<lparr>vw_eventLines := EventLog_Lines lines, vw_effects := Effects F effects\<rparr>"
  let ?h = "\<lparr>ho_app = a, ho_fixedStep = EndFrame F c, ho_eventLog = lines, ho_visualEffectLog = effects\<rparr>"
  have "RunFrame F E S frameSeconds input now h = Some (?view, ?h)"
    by (simp add: RunFrame_def t(1) Let_def lines_def effects_def view_def)
  moreover have "logs_ok ?h" using l e by (simp add: logs_ok_def)
  moreover have "length (vw_eventLines ?view) \<le> el_maxEntries (ho_eventLog h)"
    "length (vw_effects ?view) \<le> vl_maxEntries (ho_visualEffectLog h)"
    using l e by (simp_all add: EventLog_Lines_def Effects_def)
  ultimately show ?thesis
    using t left by (intro exI [of _ ?view] exI [of _ ?h] exI [of _ sent'] conjI) (simp_all only: client_host.simps)
qed

end

section \<open>What a frame keeps\<close>

text \<open>The ticks a frame may take and what its logs may hold.\<close>

definition frame_limits :: "('s, 'r, 'f) client_host \<Rightarrow> nat \<times> nat \<times> nat" where
  "frame_limits h = (nat (sint (fx_maxTicksPerFrame (fc_config (ho_fixedStep h)))),
     el_maxEntries (ho_eventLog h), vl_maxEntries (ho_visualEffectLog h))"

lemma tick_loop_config:
  "tick_loop F E S input now i app clock evs = Some r \<Longrightarrow> fc_config (fst (snd r)) = fc_config clock"
proof (induction rule: tick_loop.raw_induct [rotated 1, consumes 1, case_names step])
  case (step tick_loop F E S input now i app clock evs r)
  from step(2) show ?case
    by (auto simp: ConsumeTick_def Let_def split: if_splits prod.splits bind_splits dest!: step(1))
qed

lemma push_keeps_max: "el_maxEntries (PushMany lines log) = el_maxEntries log"
  unfolding PushMany_def
  by (rule fold_keeps [where P = "\<lambda>l. el_maxEntries l = el_maxEntries log"]) (simp_all add: EventLog_Push_def)

lemma effects_keep_max: "vl_maxEntries (PushFromEvents F E evs r log) = vl_maxEntries log"
  unfolding PushFromEvents_def Let_def
  by (rule fold_keeps [where P = "\<lambda>l. vl_maxEntries l = vl_maxEntries log"])
    (auto simp: EffectLog_Push_def split: option.splits)

lemma RunFrame_limits:
  "RunFrame F E S frameSeconds input now h = Some (view, h') \<Longrightarrow> frame_limits h' = frame_limits h"
  by (auto simp: RunFrame_def Let_def frame_limits_def push_keeps_max effects_keep_max EventLog_Update_def
      EffectLog_Update_def EndFrame_def BeginFrame_def dest!: tick_loop_config split: bind_splits prod.splits)

text \<open>The statistics of the view are taken after the frame's ticks.\<close>

lemma RunFrame_stats:
  "RunFrame F E S frameSeconds input now h = Some (view, h') \<Longrightarrow> at_fixedTick (vw_stats view) = ap_fixedTick (ho_app h')"
  by (auto simp: RunFrame_def BuildClientViewFrame_def ApplyPresentationFrame_def Application_Stats_def Let_def
      split: bind_splits prod.splits)

end
