(* ===== verification/Server_Client.thy ===== *)
theory Server_Client
  imports Client_App Server_Rules Sim_Replication
begin

text \<open>
  The server and a client together: what a client knows after it has handled a snapshot that the server
  planned, encoded and put in an envelope.
\<close>

section \<open>A snapshot on the wire\<close>

lemma snapshot_entities_le: "length (sn_entities s) \<le> length (SerializeSnapshot s)"
proof -
  have "length (sn_entities s) * 1 \<le> length (sn_entities s) * kMinSerializedEntityBytes"
    by (rule mult_le_mono2) (simp add: kMinSerializedEntityBytes_def)
  also have "\<dots> \<le> length (WriteEntities (sn_entities s) [])" by (rule WriteEntities_min)
  finally show ?thesis
    by (simp add: SerializeSnapshot_def Let_def WriteEntities_eq)
qed

lemma snapshot_envelope_valid:
  "valid_envelope (snapshot_envelope c sn) \<longleftrightarrow> length (SerializeSnapshot sn) \<le> kMaxNetworkPayloadBytes"
  by (simp add: valid_envelope_iff snapshot_envelope_def)

text \<open>A client that is handed the server's envelope applies exactly the server's snapshot.\<close>

lemma handle_snapshot_envelope:
  assumes "length (SerializeSnapshot sn) \<le> kMaxNetworkPayloadBytes"
  shows "pu_runtime (handle_incoming T E now (snapshot_envelope c sn) p) = ApplyServerSnapshot E sn (pu_runtime p)"
proof -
  have "length (sn_entities sn) < 2 ^ 32"
    using assms snapshot_entities_le [of sn] by (simp add: kMaxNetworkPayloadBytes_def)
  then have "DeserializeSnapshot (SerializeSnapshot sn) = Some sn"
    using snapshot_msg.dec_iff [of "SerializeSnapshot sn" sn] by simp
  moreover have "Ok (ValidateEnvelope (snapshot_envelope c sn))" using assms snapshot_envelope_valid by simp
  ultimately show ?thesis
    by (simp add: handle_incoming_def handle_snapshot_def snapshot_envelope_def Let_def split_def)
qed

section \<open>Replaying inputs\<close>

text \<open>A replayed input changes the components of its own player's entity only.\<close>

lemma fire_weapon_other:
  "entt_laws E \<Longrightarrow> e' \<noteq> e \<Longrightarrow> cm E (fire_weapon E e s) e' = cm E s e'"
  by (auto simp: fire_weapon_def Let_def split: option.splits)

lemma ApplyInputToEntity_other:
  "entt_laws E \<Longrightarrow> e' \<noteq> e \<Longrightarrow> cm E (ApplyInputToEntity E e q s) e' = cm E s e'"
  by (simp add: ApplyInputToEntity_def Let_def fire_weapon_other split: option.splits)

lemma IntegrateMovement_other:
  "entt_laws E \<Longrightarrow> e' \<noteq> e \<Longrightarrow> cm E (IntegrateMovement E e s) e' = cm E s e'"
  by (simp add: IntegrateMovement_def Let_def split: option.splits)

lemma frame_replay_input:
  assumes "entt_laws E" shows "frame E s (replay_input E q s)"
proof -
  have "frame E s (IntegrateMovement E e (ApplyInputToEntity E e q s))" for e
    using frame_ApplyInputToEntity [OF assms] IntegrateMovement_ok(1) [OF assms] frame_trans by blast
  moreover from this have "frame E s (upd E e (\<lambda>c. c\<lparr>c_intent := None\<rparr>)
      (IntegrateMovement E e (ApplyInputToEntity E e q s)))" for e
    by (intro frame_upd [OF assms]) (simp_all add: same_owner_def)
  ultimately show ?thesis by (simp add: replay_input_def Let_def split: option.splits)
qed

lemma replay_input_other:
  assumes E: "entt_laws E" and s: "client_index_ok E s" and e: "EntityFor s i = Some e"
    and i: "PlayerEntityForClient s (hd_clientId (ip_header q)) \<noteq> Some i"
  shows "cm E (replay_input E q s) e = cm E s e"
proof (cases "PlayerEntityForClient s (hd_clientId (ip_header q))")
  case (Some j)
  then have "j \<noteq> i" using i by simp
  have "e \<noteq> e'" if "EntityFor s j = Some e'" for e'
    using client_index_unique [OF s e] that \<open>j \<noteq> i\<close> by auto
  then show ?thesis using E
    by (auto simp: replay_input_def Some Let_def IntegrateMovement_other ApplyInputToEntity_other split: option.splits)
qed (simp add: replay_input_def)

lemma replay_all_other:
  assumes E: "entt_laws E"
  shows "client_index_ok E s \<Longrightarrow> EntityFor s i = Some e \<Longrightarrow>
      \<forall>q\<in>set qs. PlayerEntityForClient s (hd_clientId (ip_header q)) \<noteq> Some i \<Longrightarrow>
      cm E (fold (replay_input E) qs s) e = cm E s e \<and> frame E s (fold (replay_input E) qs s)"
proof (induction qs arbitrary: s)
  case (Cons q qs)
  let ?s = "replay_input E q s"
  note fr = frame_replay_input [OF E, of s q]
  have same: "EntityFor ?s = EntityFor s" "PlayerEntityForClient ?s = PlayerEntityForClient s"
    using frame_fields [OF fr] by (simp_all add: EntityFor_def PlayerEntityForClient_def fun_eq_iff)
  have "client_index_ok E ?s"
    using Cons.prems(1) frame_fields [OF fr] same by (simp add: client_index_ok_def)
  moreover have "cm E ?s e = cm E s e" using replay_input_other [OF E Cons.prems(1,2)] Cons.prems(3) by simp
  ultimately show ?case using Cons.IH [of ?s] Cons.prems same frame_trans [OF fr] by simp
qed simp

section \<open>The client follows the server\<close>

text \<open>The planned snapshot holds states of the built one, each entity once.\<close>

lemma planned_states:
  fixes c and h :: "('u, 's) ServerNetworkHost"
  assumes "entt_laws E" and "index_ok E (sv_simulation (nh_runtime h))"
  defines "sn \<equiv> pl_snapshot (fst (plan_snapshot E c h))"
  shows "distinct (map (mv_entityId \<circ> es_movement) (sn_entities sn))"
    and "st \<in> set (sn_entities sn) \<Longrightarrow>
      MovementForEntity E (sv_simulation (nh_runtime h)) (rp_entityId (es_replication st)) = Some (es_movement st)
      \<and> mv_entityId (es_movement st) = rp_entityId (es_replication st)"
proof -
  let ?s = "sv_simulation (nh_runtime h)"
  obtain b d where b: "sn = pl_snapshot (Plan (nc_replication (nh_config h))
      ((BuildSnapshot E ?s c (sv_nextSnapshotId (nh_runtime h)) b)\<lparr>sn_deliveryKind := d\<rparr>) c)"
    by (auto simp: sn_def plan_snapshot_def BuildSnapshotFor_def Let_def)
  let ?full = "sn_entities (BuildSnapshot E ?s c (sv_nextSnapshotId (nh_runtime h)) b)"
  obtain rest where m: "mset ?full = mset (sn_entities sn) + mset rest"
  proof (cases "pc_maxEntitiesPerSnapshot (nc_replication (nh_config h)) = 0")
    case True
    then show ?thesis using that [of "[]"] by (simp add: b Plan_entities Let_def)
  next
    case False
    let ?n = "pc_maxEntitiesPerSnapshot (nc_replication (nh_config h))"
    let ?es = "if pc_prioritizeHigherFirst (nc_replication (nh_config h))
      then stable_sort (planner_less (nc_replication (nh_config h)) c) ?full else ?full"
    have "mset ?full = mset (take ?n ?es @ drop ?n ?es)" by simp
    then show ?thesis using that [of "drop ?n ?es"] False by (simp add: b Plan_entities Let_def del: append_take_drop_id)
  qed
  have states: "MovementForEntity E ?s (rp_entityId (es_replication st)) = Some (es_movement st)
      \<and> mv_entityId (es_movement st) = rp_entityId (es_replication st)" if full: "st \<in> set ?full" for st
  proof -
    obtain i e t v where p: "placed E ?s i e t v" "st = entity_state E ?s c e i t v"
      using full unfolding set_BuildSnapshot [OF assms(1)] by blast
    then have "EntityFor ?s i = Some e" using index_okD(3) [OF assms(2)] by (simp add: placed_def)
    from entity_state_movement [OF p(1) this, of c] show ?thesis by (simp add: p(2))
  qed
  have sub: "set (sn_entities sn) \<subseteq> set ?full"
    using m by (metis mset_subset_eq_add_left set_mset_mono set_mset_mset)
  show "MovementForEntity E ?s (rp_entityId (es_replication st)) = Some (es_movement st)
      \<and> mv_entityId (es_movement st) = rp_entityId (es_replication st)" if "st \<in> set (sn_entities sn)"
    using states sub that by blast
  have "distinct (map (rp_entityId \<circ> es_replication) ?full)"
    using distinct_BuildSnapshot [OF assms(1,2)] .
  then have "distinct (map (rp_entityId \<circ> es_replication) (sn_entities sn @ rest))"
    using m by (metis mset_append mset_eq_imp_distinct_iff mset_map)
  moreover have "map (mv_entityId \<circ> es_movement) (sn_entities sn) = map (rp_entityId \<circ> es_replication) (sn_entities sn)"
    using states sub by auto
  ultimately show "distinct (map (mv_entityId \<circ> es_movement) (sn_entities sn))"
    by (metis distinct_append map_append)
qed

text \<open>
  Between the snapshot and the replay the client's simulation has every entity of the snapshot where the
  server has it.
\<close>

lemma client_applies_planned:
  fixes p :: "('t, 'r) pump_state" and h :: "('u, 's) ServerNetworkHost" and c now T
  assumes E: "entt_laws E" "entt_laws E'" and server: "index_ok E (sv_simulation (nh_runtime h))"
    and client: "client_index_ok E' (cr_simulation (pu_runtime p))"
    and fits: "length (SerializeSnapshot (pl_snapshot (fst (plan_snapshot E c h)))) \<le> kMaxNetworkPayloadBytes"
    and i: "i \<in> set (entity_ids (pl_snapshot (fst (plan_snapshot E c h))))"
    and r: "r = pu_runtime (handle_incoming T E' now (snapshot_envelope c (pl_snapshot (fst (plan_snapshot E c h)))) p)"
  obtains s1 where "client_index_ok E' s1" "cr_simulation r = ReplayLocalInputsForPrediction E' (UnackedInputs r) s1"
    "MovementForEntity E' s1 i = MovementForEntity E (sv_simulation (nh_runtime h)) i"
    "MovementForEntity E (sv_simulation (nh_runtime h)) i \<noteq> None"
proof -
  define sn where "sn = pl_snapshot (fst (plan_snapshot E c h))"
  define s1 where "s1 = ApplySnapshot E' sn (cr_localClientId (pu_runtime p)) (cr_simulation (pu_runtime p))"
  note states = planned_states [OF E(1) server, where c = c, folded sn_def]
  obtain st where st: "st \<in> set (sn_entities sn)" "rp_entityId (es_replication st) = i"
    using i by (auto simp: sn_def)
  have movement: "MovementForEntity E (sv_simulation (nh_runtime h)) i = Some (es_movement st)" "seen_id st = i"
    using states(2) [OF st(1)] st(2) by (simp_all add: seen_id_def)
  have d: "distinct (map seen_id (sn_entities sn))"
    using states(1) by (simp add: seen_id_def [abs_def] o_def)
  have s1: "client_index_ok E' s1" "state_held E' s1 st"
    using ApplySnapshot_effect(1,2) [OF E(2) client d] st(1) by (simp_all add: s1_def)
  have "r = ApplyServerSnapshot E' sn (pu_runtime p)" using handle_snapshot_envelope fits by (simp add: r sn_def)
  then have "cr_simulation r = ReplayLocalInputsForPrediction E' (UnackedInputs r) s1"
    by (simp add: ApplyServerSnapshot_def UnackedInputs_def s1_def Let_def)
  moreover have "MovementForEntity E' s1 i = MovementForEntity E (sv_simulation (nh_runtime h)) i"
    using state_held_movement [OF s1(2)] movement by simp
  ultimately show ?thesis using that s1(1) movement(1) by simp
qed

text \<open>
  After the client has handled the server's envelope, every entity of the snapshot that the client does not
  predict with an unacknowledged input has the movement that it has on the server.
\<close>

lemma client_follows_server:
  fixes p :: "('t, 'r) pump_state" and h :: "('u, 's) ServerNetworkHost" and c now T
  assumes E: "entt_laws E" "entt_laws E'"
    and server: "index_ok E (sv_simulation (nh_runtime h))"
    and client: "client_index_ok E' (cr_simulation (pu_runtime p))"
    and fits: "length (SerializeSnapshot (pl_snapshot (fst (plan_snapshot E c h)))) \<le> kMaxNetworkPayloadBytes"
    and i: "i \<in> set (entity_ids (pl_snapshot (fst (plan_snapshot E c h))))"
  defines "r \<equiv> pu_runtime (handle_incoming T E' now (snapshot_envelope c (pl_snapshot (fst (plan_snapshot E c h)))) p)"
  assumes free: "\<forall>q\<in>set (UnackedInputs r). PlayerEntityForClient (cr_simulation r) (hd_clientId (ip_header q)) \<noteq> Some i"
  shows "MovementForEntity E' (cr_simulation r) i = MovementForEntity E (sv_simulation (nh_runtime h)) i
     \<and> MovementForEntity E (sv_simulation (nh_runtime h)) i \<noteq> None"
proof -
  obtain s1 where s1: "client_index_ok E' s1" "cr_simulation r = ReplayLocalInputsForPrediction E' (UnackedInputs r) s1"
    and held: "MovementForEntity E' s1 i = MovementForEntity E (sv_simulation (nh_runtime h)) i"
      "MovementForEntity E (sv_simulation (nh_runtime h)) i \<noteq> None"
    using client_applies_planned [OF E server client fits i meta_eq_to_obj_eq [OF r_def]] by metis
  then obtain e where e: "EntityFor s1 i = Some e" by (auto simp: MovementForEntity_def split: option.splits)
  have sim: "cr_simulation r = fold (replay_input E') (UnackedInputs r) s1"
    using s1(2) by (simp add: ReplayLocalInputsForPrediction_def)
  have fr: "frame E' s1 (fold (replay_input E') qs s1)" for qs
    by (rule frame_fold) (rule frame_replay_input [OF E(2)])
  have same: "EntityFor (cr_simulation r) = EntityFor s1" "PlayerEntityForClient (cr_simulation r) = PlayerEntityForClient s1"
    using frame_fields [OF fr] by (simp_all add: sim EntityFor_def PlayerEntityForClient_def fun_eq_iff)
  have components: "cm E' (cr_simulation r) e = cm E' s1 e"
    using replay_all_other [OF E(2) s1(1) e] free same by (simp add: sim)
  then have "MovementForEntity E' (cr_simulation r) i = MovementForEntity E' s1 i"
    by (simp only: MovementForEntity_def same e option.case components)
  then show ?thesis using held by simp
qed

end
