(* ===== verification/Prediction.thy ===== *)
theory Prediction
  imports Server_Client Sim_Rules
begin

text \<open>
  Prediction. A client moves its own player ahead of the server: after each snapshot it replays the inputs
  that the server has not acknowledged (\<open>ReplayLocalInputsForPrediction\<close>). Here the movement that this replay
  computes is compared with the one the server computes when it plays the same inputs, one in each of the
  next ticks, whatever the other players and the projectiles do meanwhile. Both are shown to be the same
  reference function \<open>steer\<close> of the input on the motion of the entity: its transform, velocity and aim.
\<close>

section \<open>The motion of an entity\<close>

type_synonym motion = "TransformComponent \<times> VelocityComponent \<times> AimComponent"

text \<open>An entity without an aim is read as one that aims right, as \<open>MovementForEntity\<close> does.\<close>

definition motion_of :: "components \<Rightarrow> motion option" where
  "motion_of c = (case (c_transform c, c_velocity c) of
     (Some t, Some v) \<Rightarrow> Some (t, v, case c_aim c of Some a \<Rightarrow> a | None \<Rightarrow> default_Aim)
   | _ \<Rightarrow> None)"

definition movement_dto :: "NetworkEntityId \<Rightarrow> motion \<Rightarrow> MovementStateDTO" where
  "movement_dto i m = (case m of (t, v, a) \<Rightarrow>
     \<lparr>mv_entityId = i, mv_x = tf_x t, mv_y = tf_y t, mv_vx = vl_vx v, mv_vy = vl_vy v,
      mv_aimX = am_x a, mv_aimY = am_y a\<rparr>)"

lemma movement_of_motion:
  assumes "EntityFor s i = Some e" and "c_identity (cm E s e) = Some i"
  shows "MovementForEntity E s i = map_option (movement_dto i) (motion_of (cm E s e))"
  using assms by (auto simp: MovementForEntity_def motion_of_def movement_dto_def default_Aim_def Let_def split: option.splits)

lemma movement_dto_inj: "movement_dto i m = movement_dto i m' \<longleftrightarrow> m = m'"
  by (cases m; cases m') (auto simp: movement_dto_def intro!: TransformComponent.equality
      VelocityComponent.equality AimComponent.equality)

text \<open>One tick of an entity that is steered by an input.\<close>

definition aimed :: "InputFrame \<Rightarrow> AimComponent \<Rightarrow> AimComponent" where
  "aimed input a = (if if_aimX input \<noteq> 0 \<or> if_aimY input \<noteq> 0
     then \<lparr>am_x = if_aimX input, am_y = if_aimY input\<rparr> else a)"

definition steer :: "SimulationConfig \<Rightarrow> InputFrame \<Rightarrow> motion \<Rightarrow> motion" where
  "steer config input m = (case m of (t, v, a) \<Rightarrow>
     let v = next_velocity config (Some input) v
     in (ClampToMap config (advance_transform config v t), v, aimed input a))"

lemma steer_mode [simp]: "steer (config\<lparr>sc_mode := m\<rparr>) = steer config"
  by (simp add: fun_eq_iff steer_def next_velocity_def advance_transform_def ClampToMap_def)

text \<open>
  One tick of an entity with any number of inputs: it moves once, by the last input or, without one, by
  friction; every input may turn the aim.
\<close>

definition tick_motion :: "SimulationConfig \<Rightarrow> InputFrame list \<Rightarrow> motion \<Rightarrow> motion" where
  "tick_motion config inputs m = (case m of (t, v, a) \<Rightarrow>
     let v = next_velocity config (if inputs = [] then None else Some (last inputs)) v
     in (ClampToMap config (advance_transform config v t), v, fold aimed inputs a))"

lemma tick_motion_single: "tick_motion config [input] = steer config input"
  by (simp add: fun_eq_iff tick_motion_def steer_def)

text \<open>A player that is not defeated can be steered.\<close>

definition standing :: "components \<Rightarrow> bool" where
  "standing c \<longleftrightarrow> \<not> (case c_player c of Some p \<Rightarrow> pl_defeated p | None \<Rightarrow> False)"

text \<open>What the two steps below read, and what they leave alone.\<close>

definition same_role :: "components \<Rightarrow> components \<Rightarrow> bool" where
  "same_role c c' \<longleftrightarrow> c_identity c' = c_identity c \<and> c_player c' = c_player c \<and> c_projectile c' = c_projectile c"

lemma same_role_refl [simp]: "same_role c c"
  by (simp add: same_role_def)

lemma same_role_trans: "same_role c c' \<Longrightarrow> same_role c' c'' \<Longrightarrow> same_role c c''"
  by (simp add: same_role_def)

lemma same_role_standing: "same_role c c' \<Longrightarrow> standing c' \<longleftrightarrow> standing c"
  by (simp add: same_role_def standing_def)

section \<open>One input\<close>

lemma fire_weapon_own:
  fixes s e assumes "entt_laws E" defines "c \<equiv> cm E s e" and "c' \<equiv> cm E (fire_weapon E e s) e"
  shows "same_role c c'" "c_intent c' = c_intent c" "c_transform c' = c_transform c"
    "c_velocity c' = c_velocity c" "c_aim c' = c_aim c"
  using assms by (auto simp: fire_weapon_def Let_def same_role_def split: option.splits)

lemma motion_of_cong:
  "c_transform c' = c_transform c \<Longrightarrow> c_velocity c' = c_velocity c \<Longrightarrow> c_aim c' = c_aim c \<Longrightarrow> motion_of c' = motion_of c"
  by (simp add: motion_of_def cong: option.case_cong)

lemma ApplyInputToEntity_own:
  fixes s e q
  assumes E: "entt_laws E" and e: "alive E s e" "standing (cm E s e)" and m: "motion_of (cm E s e) = Some (t, v, a)"
  defines "c' \<equiv> cm E (ApplyInputToEntity E e q s) e"
  shows "same_role (cm E s e) c'" and "c_intent c' = Some (ip_input q)"
    and "motion_of c' = Some (t, v, aimed (ip_input q) a)"
proof -
  let ?in = "ip_input q"
  define s1 where "s1 = upd E e (\<lambda>c. c\<lparr>c_intent := Some ?in\<rparr>) s"
  define s2 where "s2 = upd E e (\<lambda>c. case c_aim c of None \<Rightarrow> c\<lparr>c_aim := Some default_Aim\<rparr> | Some _ \<Rightarrow> c) s1"
  define s3 where "s3 = (if if_aimX ?in \<noteq> 0 \<or> if_aimY ?in \<noteq> 0
    then upd E e (\<lambda>c. c\<lparr>c_aim := Some \<lparr>am_x = if_aimX ?in, am_y = if_aimY ?in\<rparr>\<rparr>) s2 else s2)"
  have eq: "ApplyInputToEntity E e q s = (if if_fire ?in then fire_weapon E e s3 else s3)"
    using e(2) by (simp add: ApplyInputToEntity_def Let_def s1_def s2_def s3_def standing_def)
  have 3: "same_role (cm E s e) (cm E s3 e)" "c_intent (cm E s3 e) = Some ?in"
    "motion_of (cm E s3 e) = Some (t, v, aimed ?in a)"
    using m e(1) by (auto simp: s3_def s2_def s1_def E same_role_def motion_of_def aimed_def split: option.splits)
  note f = fire_weapon_own [OF E, where s = s3 and e = e]
  have "motion_of (cm E (fire_weapon E e s3) e) = motion_of (cm E s3 e)" by (rule motion_of_cong) (simp_all add: f)
  then show "same_role (cm E s e) c'" "c_intent c' = Some ?in" "motion_of c' = Some (t, v, aimed ?in a)"
    using 3 f same_role_trans [OF 3(1) f(1)] by (simp_all add: c'_def eq)
qed

lemma IntegrateMovement_own:
  fixes s e
  assumes E: "entt_laws E" and e: "c_identity (cm E s e) \<noteq> None" "standing (cm E s e)"
    and m: "motion_of (cm E s e) = Some (t, v, a)" and q: "c_intent (cm E s e) = q"
  defines "c' \<equiv> cm E (IntegrateMovement E e s) e"
  shows "same_role (cm E s e) c'"
    and "motion_of c' = Some (ClampToMap (gs_config s) (advance_transform (gs_config s) (next_velocity (gs_config s) q v) t),
      next_velocity (gs_config s) q v, a)"
proof -
  have "alive E s e" using e(1) alive_identity by blast
  moreover have "c_transform (cm E s e) = Some t" "c_velocity (cm E s e) = Some v"
    using m by (auto simp: motion_of_def split: option.splits)
  ultimately show "same_role (cm E s e) c'"
    "motion_of c' = Some (ClampToMap (gs_config s) (advance_transform (gs_config s) (next_velocity (gs_config s) q v) t),
      next_velocity (gs_config s) q v, a)"
    using e m q by (auto simp: c'_def IntegrateMovement_def Let_def E standing_def same_role_def motion_of_def split: option.splits)
qed

section \<open>The client's replay\<close>

text \<open>A replayed input steers its player's entity.\<close>

lemma replay_input_steers:
  assumes E: "entt_laws E" and i: "PlayerEntityForClient s (packet_client q) = Some i" "EntityFor s i = Some e"
    and e: "c_identity (cm E s e) = Some i" "standing (cm E s e)" and m: "motion_of (cm E s e) = Some m"
  shows "same_role (cm E s e) (cm E (replay_input E q s) e)"
    and "motion_of (cm E (replay_input E q s) e) = Some (steer (gs_config s) (ip_input q) m)"
proof -
  obtain t v a where tva: "m = (t, v, a)" by (cases m)
  have alive: "alive E s e" using e(1) alive_identity by blast
  define s1 where "s1 = ApplyInputToEntity E e q s"
  define s2 where "s2 = IntegrateMovement E e s1"
  note a = ApplyInputToEntity_own [OF E alive e(2) m [unfolded tva], of q, folded s1_def]
  have "gs_config s1 = gs_config s" unfolding s1_def using frame_fields(1) [OF frame_ApplyInputToEntity [OF E]] .
  moreover have "c_identity (cm E s1 e) = Some i" "standing (cm E s1 e)"
    using a(1) e same_role_standing [OF a(1)] by (simp_all add: same_role_def)
  ultimately have b: "same_role (cm E s1 e) (cm E s2 e)" "motion_of (cm E s2 e) = Some (steer (gs_config s) (ip_input q) m)"
    using IntegrateMovement_own [OF E, of s1 e, OF _ _ a(3,2)] by (simp_all add: s2_def tva steer_def Let_def)
  define s3 where "s3 = (if c_intent (cm E s2 e) \<noteq> None then upd E e (\<lambda>c. c\<lparr>c_intent := None\<rparr>) s2 else s2)"
  have eq: "replay_input E q s = s3"
    using i by (simp add: replay_input_def s3_def s2_def s1_def Let_def)
  have "same_role (cm E s2 e) (cm E s3 e)" "motion_of (cm E s3 e) = motion_of (cm E s2 e)"
    by (auto simp: s3_def E same_role_def intro: motion_of_cong)
  then show "same_role (cm E s e) (cm E (replay_input E q s) e)"
    "motion_of (cm E (replay_input E q s) e) = Some (steer (gs_config s) (ip_input q) m)"
    using a(1) b by (auto simp: eq same_role_def)
qed

lemma replay_all_steers:
  assumes E: "entt_laws E" and q: "\<forall>q\<in>set qs. packet_client q = c"
  shows "PlayerEntityForClient s c = Some i \<Longrightarrow> EntityFor s i = Some e \<Longrightarrow> c_identity (cm E s e) = Some i
     \<Longrightarrow> standing (cm E s e) \<Longrightarrow> motion_of (cm E s e) = Some m \<Longrightarrow>
     motion_of (cm E (fold (replay_input E) qs s) e) = Some (fold (\<lambda>q. steer (gs_config s) (ip_input q)) qs m)"
  using q
proof (induction qs arbitrary: s m)
  case (Cons q qs)
  let ?s = "replay_input E q s"
  have pq: "PlayerEntityForClient s (packet_client q) = Some i" using Cons.prems by simp
  note st = replay_input_steers [OF E pq Cons.prems(2-5)]
  note fr = frame_fields [OF frame_replay_input [OF E, of s q]]
  have "PlayerEntityForClient ?s c = Some i" "EntityFor ?s i = Some e" "c_identity (cm E ?s e) = Some i"
    "standing (cm E ?s e)"
    using Cons.prems st(1) same_role_standing [OF st(1)] fr
    by (simp_all add: PlayerEntityForClient_def EntityFor_def)
  from Cons.IH [OF this st(2)] Cons.prems(6) show ?case by (simp add: fr)
qed simp

section \<open>The server's inputs\<close>

text \<open>The packets of other clients leave the entity of a client alone.\<close>

lemma apply_pending_other:
  assumes E: "entt_laws E" and s: "index_ok E s" and c: "PlayerEntityForClient s c = Some i" "EntityFor s i = Some e"
    and p: "packet_client p \<noteq> c"
  shows "cm E (apply_pending E p s) e = cm E s e"
proof (cases "PlayerEntityForClient s (packet_client p)")
  case (Some j)
  have "j \<noteq> i"
  proof
    assume "j = i"
    then show False
      using clients_okE [OF index_okD(5) [OF s] Some] clients_okE [OF index_okD(5) [OF s] c(1)] p
      by (metis option.inject)
  qed
  then have "EntityFor s j \<noteq> Some e" using client_index_unique [OF index_ok_client [OF s] c(2)] by blast
  then show ?thesis using E by (auto simp: apply_pending_def Some ApplyInputToEntity_other split: option.splits)
qed (simp add: apply_pending_def)

text \<open>A client's own packet is applied to its entity.\<close>

lemma apply_pending_own:
  assumes "PlayerEntityForClient s (packet_client q) = Some i" "EntityFor s i = Some e"
  shows "apply_pending E q s = ApplyInputToEntity E e q s"
  using assms by (simp add: apply_pending_def)

text \<open>The inputs of a client among the pending ones, and what applying all pending ones does to its entity.\<close>

definition inputs_from :: "ClientId \<Rightarrow> ClientInputPacket list \<Rightarrow> InputFrame list" where
  "inputs_from c ps = map ip_input (filter (\<lambda>p. packet_client p = c) ps)"

definition intent_after :: "InputFrame list \<Rightarrow> InputFrame option \<Rightarrow> InputFrame option" where
  "intent_after inputs intent = (if inputs = [] then intent else Some (last inputs))"

lemma apply_all_own:
  assumes E: "entt_laws E"
  shows "index_ok E s \<Longrightarrow> PlayerEntityForClient s c = Some i \<Longrightarrow> EntityFor s i = Some e \<Longrightarrow>
     standing (cm E s e) \<Longrightarrow> motion_of (cm E s e) = Some (t, v, a) \<Longrightarrow>
     same_role (cm E s e) (cm E (fold (apply_pending E) ps s) e)
     \<and> c_intent (cm E (fold (apply_pending E) ps s) e) = intent_after (inputs_from c ps) (c_intent (cm E s e))
     \<and> motion_of (cm E (fold (apply_pending E) ps s) e) = Some (t, v, fold aimed (inputs_from c ps) a)"
proof (induction ps arbitrary: s a)
  case (Cons p ps)
  let ?s = "apply_pending E p s"
  have fr: "frame E s ?s" by (rule apply_pending_ok(1) [OF E])
  have ok: "index_ok E ?s" "PlayerEntityForClient ?s c = Some i" "EntityFor ?s i = Some e"
    using index_ok_frame [OF fr Cons.prems(1)] Cons.prems(2,3) frame_fields [OF fr]
    by (simp_all add: PlayerEntityForClient_def EntityFor_def)
  show ?case
  proof (cases "packet_client p = c")
    case False
    then have "cm E ?s e = cm E s e" by (rule apply_pending_other [OF E Cons.prems(1-3)])
    then show ?thesis using Cons.IH [OF ok] Cons.prems(4,5) False by (simp add: inputs_from_def)
  next
    case True
    have "alive E s e" using index_okD(3) [OF Cons.prems(1)] Cons.prems(3) alive_identity by blast
    note own = ApplyInputToEntity_own [OF E this Cons.prems(4,5), of p,
        folded apply_pending_own [where E = E and q = p, unfolded True, OF Cons.prems(2,3)]]
    from Cons.IH [OF ok _ own(3)] own(1,2) same_role_standing [OF own(1)] same_role_trans [OF own(1)] Cons.prems(4) True
    show ?thesis by (auto simp: inputs_from_def intent_after_def)
  qed
qed (simp add: inputs_from_def intent_after_def)

text \<open>A loop over distinct entities changes each of them in its own turn only.\<close>

lemma IntegrateMovement_turn:
  assumes E: "entt_laws E" and "distinct es" "e \<in> set es"
  obtains s' where "cm E s' e = cm E s e" "frame E s s'"
    "cm E (fold (IntegrateMovement E) es s) e = cm E (IntegrateMovement E e s') e"
proof -
  have other: "cm E (fold (IntegrateMovement E) xs s1) e = cm E s1 e \<and> frame E s1 (fold (IntegrateMovement E) xs s1)"
    if "e \<notin> set xs" for xs s1
    using that
  proof (induction xs arbitrary: s1)
    case (Cons x xs)
    then show ?case
      using IntegrateMovement_other [OF E, of e x s1]
      by (auto intro: frame_trans [OF IntegrateMovement_ok(1) [OF E]])
  qed simp
  obtain as bs where es: "es = as @ e # bs" "e \<notin> set as" "e \<notin> set bs"
    using split_list [OF assms(3)] assms(2) by force
  show ?thesis
    by (rule that [of "fold (IntegrateMovement E) as s"]) (use other es in simp_all)
qed

lemma ProcessInputs_moves:
  fixes s c
  defines "inputs \<equiv> inputs_from c (gs_pendingInputs s)"
  assumes E: "entt_laws E" and s: "index_ok E s" and c: "PlayerEntityForClient s c = Some i" "EntityFor s i = Some e"
    and e: "standing (cm E s e)" and m: "motion_of (cm E s e) = Some m"
    and idle: "inputs = [] \<Longrightarrow> c_intent (cm E s e) = None"
  shows "same_role (cm E s e) (cm E (ProcessInputs E s) e)"
    and "motion_of (cm E (ProcessInputs E s) e) = Some (tick_motion (gs_config s) inputs m)"
proof -
  obtain t v a where tva: "m = (t, v, a)" by (cases m)
  define s1 where "s1 = fold (apply_pending E) (gs_pendingInputs s) s"
  define s2 where "s2 = s1\<lparr>gs_pendingInputs := []\<rparr>"
  let ?es = "en_view E [K_Player] (gs_registry s2)"
  have a: "same_role (cm E s e) (cm E s1 e)" "motion_of (cm E s1 e) = Some (t, v, fold aimed inputs a)"
    "c_intent (cm E s1 e) = (if inputs = [] then None else Some (last inputs))"
    using apply_all_own [OF E s c e m [unfolded tva], of "gs_pendingInputs s"] idle
    by (auto simp: s1_def inputs_def intent_after_def)
  have "frame E s s1" unfolding s1_def by (rule frame_fold) (rule apply_pending_ok(1) [OF E])
  moreover have "frame E s1 s2" by (simp add: s2_def frame_def alive_def cm_def same_owner_def)
  ultimately have f2: "frame E s s2" by (rule frame_trans)
  obtain p where p: "c_player (cm E s e) = Some p" using clients_okE [OF index_okD(5) [OF s] c(1)] c(2) by auto
  have cm2: "cm E s2 e = cm E s1 e" by (simp add: s2_def cm_def)
  have "c_player (cm E s2 e) = Some p" using a(1) p by (simp add: cm2 same_role_def)
  then have "e \<in> set ?es" using alive_player by (simp add: alive_en_view [OF E] has_all_def)
  then obtain s' where s': "cm E s' e = cm E s2 e" "frame E s2 s'"
    "cm E (fold (IntegrateMovement E) ?es s2) e = cm E (IntegrateMovement E e s') e"
    using IntegrateMovement_turn [OF E en_view_distinct [OF E]] by metis
  define s3 where "s3 = fold (IntegrateMovement E) ?es s2"
  have id: "c_identity (cm E s e) = Some i" using index_okD(3) [OF s] c(2) by simp
  have "gs_config s' = gs_config s" using frame_fields(1) [OF f2] frame_fields(1) [OF s'(2)] by simp
  moreover have "c_identity (cm E s' e) \<noteq> None" "standing (cm E s' e)"
    using a(1) id e same_role_standing [OF a(1)] by (simp_all add: s'(1) cm2 same_role_def)
  ultimately have 3: "same_role (cm E s1 e) (cm E s3 e)" "motion_of (cm E s3 e) = Some (tick_motion (gs_config s) inputs m)"
    using IntegrateMovement_own [OF E, where s = s' and e = e] a(2,3)
    by (simp_all add: s3_def s' cm2 tva tick_motion_def Let_def)
  have "ProcessInputs E s = s3\<lparr>gs_registry := en_clear_intents E (gs_registry s3)\<rparr>"
    by (simp add: ProcessInputs_def Let_def s3_def s2_def s1_def)
  then have "cm E (ProcessInputs E s) e = (cm E s3 e)\<lparr>c_intent := None\<rparr>"
    by (simp add: cm_def comps_def E no_components_def split: option.splits)
  moreover have "motion_of ((cm E s3 e)\<lparr>c_intent := None\<rparr>) = motion_of (cm E s3 e)" by (rule motion_of_cong) simp_all
  ultimately show "same_role (cm E s e) (cm E (ProcessInputs E s) e)"
    "motion_of (cm E (ProcessInputs E s) e) = Some (tick_motion (gs_config s) inputs m)"
    using a(1) 3 by (simp_all add: same_role_def)
qed

section \<open>Combat leaves the motion alone\<close>

text \<open>
  What holds of a player's entity from the inputs of a tick to its end: its motion stays, it is no projectile,
  and if it is defeated on the way it respawns in a later tick.
\<close>

definition steady ::
    "'r entt_ops \<Rightarrow> SimulationConfig \<Rightarrow> TimestampMs \<Rightarrow> NetworkEntityId \<Rightarrow> motion \<Rightarrow> entity \<Rightarrow> 'r GameSimulation \<Rightarrow> bool" where
  "steady E config now i m e s \<longleftrightarrow> gs_config s = config \<and> gs_timeMs s = now
     \<and> c_identity (cm E s e) = Some i \<and> motion_of (cm E s e) = Some m \<and> c_projectile (cm E s e) = None
     \<and> (\<exists>p. c_player (cm E s e) = Some p \<and> (pl_defeated p \<longrightarrow> now < pl_respawnAtMs p))"

lemma steadyD:
  assumes "steady E config now i m e s"
  shows "gs_config s = config" "gs_timeMs s = now" "c_identity (cm E s e) = Some i"
    "motion_of (cm E s e) = Some m" "c_projectile (cm E s e) = None" "alive E s e"
  using assms alive_identity unfolding steady_def by blast+

lemma steady_QueueEvent [simp]: "steady E config now i m e (QueueEvent ev s) = steady E config now i m e s"
  by (simp add: steady_def)

lemma steady_other:
  "steady E config now i m e s \<Longrightarrow> cm E s' e = cm E s e \<Longrightarrow> gs_config s' = gs_config s \<Longrightarrow> gs_timeMs s' = gs_timeMs s
     \<Longrightarrow> steady E config now i m e s'"
  by (simp add: steady_def)

lemma steady_upd:
  assumes "entt_laws E" "steady E config now i m e s"
    and "e' = e \<Longrightarrow> same_role (cm E s e) (f (cm E s e)) \<and> motion_of (f (cm E s e)) = motion_of (cm E s e)"
  shows "steady E config now i m e (upd E e' f s)"
  using assms by (cases "e' = e") (auto simp: steady_def same_role_def)

lemma steady_weapon:
  "entt_laws E \<Longrightarrow> steady E config now i m e s \<Longrightarrow> steady E config now i m e (upd E e' (\<lambda>c. c\<lparr>c_weapon := w\<rparr>) s)"
  by (rule steady_upd) (auto simp: same_role_def intro: motion_of_cong)

lemma steady_fold:
  "steady E config now i m e s \<Longrightarrow> (\<And>x s. steady E config now i m e s \<Longrightarrow> steady E config now i m e (f x s)) \<Longrightarrow>
     steady E config now i m e (fold f xs s)"
  by (rule fold_invariant)

subsection \<open>Weapons\<close>

lemma steady_warmup_step:
  assumes "entt_laws E" "steady E config now i m e (fst acc)"
  shows "steady E config now i m e (fst (warmup_step E e' acc))"
  using assms by (cases acc) (simp add: warmup_step_def Let_def steady_weapon split: option.split)

lemma steady_spawn_request:
  assumes E: "entt_laws E" and s: "steady E config now i m e s"
  shows "steady E config now i m e (spawn_request E r s)"
proof -
  obtain e' reg where c: "en_create E (gs_registry s) = (e', reg)" by fastforce
  obtain j s' where s': "CreateProjectile E (pr_ownerId r) (pr_transform r) (pr_aim r) (pr_weapon r) s = (j, s')" by fastforce
  note st = CreateProjectile_state [OF E c s']
  have "e' \<noteq> e" using create_alive(1) [OF E c] steadyD(6) [OF s] by auto
  then show ?thesis using steady_other [OF s] st by (simp add: spawn_request_def s')
qed

lemma steady_ProcessWeaponWarmups:
  assumes E: "entt_laws E" and s: "steady E config now i m e s"
  shows "steady E config now i m e (ProcessWeaponWarmups E s)"
proof -
  have "steady E config now i m e (fst (fold (warmup_step E) es (s, [])))" for es
    by (rule fold_invariant [where P = "\<lambda>acc. steady E config now i m e (fst acc)"])
      (simp_all add: s steady_warmup_step E)
  then show ?thesis
    by (simp add: ProcessWeaponWarmups_def Let_def split_def steady_fold steady_spawn_request E)
qed

subsection \<open>Projectiles\<close>

lemma steady_hit_player:
  assumes E: "entt_laws E" and s: "steady E config now i m e s" and t: "now < now + sc_respawnDelayMs config"
    and p: "c_player (cm E s e') = Some p" "\<not> pl_defeated p"
  shows "steady E config now i m e (hit_player E pid pj e' i' p s)"
proof (cases "e' = e")
  case False
  then show ?thesis by (intro steady_other [OF s]) (simp_all add: hit_player_def Let_def E)
next
  case True
  have "motion_of (c\<lparr>c_player := x\<rparr>) = motion_of c" for c x by (rule motion_of_cong) simp_all
  then show ?thesis
    using s t p True steadyD(6) [OF s] by (simp add: steady_def hit_player_def Let_def E)
qed

lemma steady_hit_loop:
  assumes E: "entt_laws E" and s: "steady E config now i m e s" and t: "now < now + sc_respawnDelayMs config"
  shows "steady E config now i m e (snd (hit_loop E pid pj tr ps s))"
proof (induction ps)
  case (Cons e' ps)
  then show ?case using steady_hit_player [OF E s t] by (simp split: option.split)
qed (simp add: s)

lemma steady_projectile_step:
  assumes E: "entt_laws E" and t: "now < now + sc_respawnDelayMs config"
    and s: "steady E config now i m e (fst acc)" "e \<notin> set (snd acc)"
  shows "steady E config now i m e (fst (projectile_step E ps e' acc)) \<and> e \<notin> set (snd (projectile_step E ps e' acc))"
proof -
  obtain s0 td where acc: "acc = (s0, td)" by (cases acc)
  have s0: "steady E config now i m e s0" "e \<notin> set td" using s by (simp_all add: acc)
  show ?thesis
  proof (cases "c_projectile (cm E s0 e')")
    case None
    then show ?thesis using s0 by (simp add: projectile_step_def acc split: option.split)
  next
    case (Some pj)
    then have ne: "e' \<noteq> e" using steadyD(5) [OF s0(1)] by auto
    then have u: "steady E config now i m e (upd E e' f s0)" for f by (intro steady_upd [OF E s0(1)]) simp
    show ?thesis using s0 ne u steady_hit_loop [OF E u t]
      by (simp add: projectile_step_def acc Some Let_def split_def split: option.split)
  qed
qed

lemma steady_destroy_projectile:
  assumes E: "entt_laws E" and s: "steady E config now i m e s" and "e' \<noteq> e"
  shows "steady E config now i m e (destroy_projectile E e' s)"
  using assms(3) by (intro steady_other [OF s])
    (auto simp: destroy_projectile_def cm_def comps_def E split: option.splits)

lemma steady_ProcessProjectiles:
  assumes E: "entt_laws E" and t: "now < now + sc_respawnDelayMs config" and s: "steady E config now i m e s"
  shows "steady E config now i m e (ProcessProjectiles E s)"
proof -
  define ps where "ps = en_view E [K_Identity, K_Player, K_Transform] (gs_registry s)"
  define acc where "acc = fold (projectile_step E ps) (en_view E [K_Identity, K_Projectile, K_Transform, K_Velocity] (gs_registry s)) (s, [])"
  have acc: "steady E config now i m e (fst acc) \<and> e \<notin> set (snd acc)"
    unfolding acc_def
  proof (rule fold_invariant)
    fix e' acc
    assume "steady E config now i m e (fst acc) \<and> e \<notin> set (snd acc)"
    then show "steady E config now i m e (fst (projectile_step E ps e' acc)) \<and> e \<notin> set (snd (projectile_step E ps e' acc))"
      by (intro steady_projectile_step [OF E t]) auto
  qed (simp add: s)
  have "steady E config now i m e (fold (destroy_projectile E) (snd acc) (fst acc))"
  proof (rule fold_invariant)
    fix e' s
    assume "e' \<in> set (snd acc)" "steady E config now i m e s"
    then show "steady E config now i m e (destroy_projectile E e' s)"
      using acc by (intro steady_destroy_projectile [OF E]) auto
  qed (simp add: acc)
  then show ?thesis by (simp add: ProcessProjectiles_def Let_def ps_def [symmetric] acc_def [symmetric] split_def)
qed

subsection \<open>Respawns\<close>

lemma steady_respawn_step:
  assumes E: "entt_laws E" and s: "steady E config now i m e s"
  shows "steady E config now i m e (respawn_step E e' s)"
proof (cases "e' = e")
  case True
  have "respawn_step E e s = s" using s by (auto simp: steady_def respawn_step_def)
  then show ?thesis using s True by simp
next
  case False
  then have u: "steady E config now i m e s' \<Longrightarrow> steady E config now i m e (upd E e' f s')" for f s'
    by (intro steady_upd [OF E]) simp_all
  show ?thesis using s by (simp add: respawn_step_def Let_def u split: option.split)
qed

lemma steady_ProcessRespawns:
  "entt_laws E \<Longrightarrow> steady E config now i m e s \<Longrightarrow> steady E config now i m e (ProcessRespawns E s)"
  by (simp add: ProcessRespawns_def steady_fold steady_respawn_step)

section \<open>A tick\<close>

lemma TickFixed_moves:
  fixes s c
  defines "inputs \<equiv> inputs_from c (gs_pendingInputs s)"
  assumes E: "entt_laws E" and config: "config_ok (gs_config s)" and s: "sim_ok E s"
    and t: "gs_timeMs s + sc_tickDurationMs (gs_config s)
      < gs_timeMs s + sc_tickDurationMs (gs_config s) + sc_respawnDelayMs (gs_config s)"
    and c: "PlayerEntityForClient s c = Some i" "EntityFor s i = Some e"
    and e: "standing (cm E s e)" and m: "motion_of (cm E s e) = Some m"
    and idle: "inputs = [] \<Longrightarrow> c_intent (cm E s e) = None"
  shows "c_identity (cm E (TickFixed E s) e) = Some i"
    and "motion_of (cm E (TickFixed E s) e) = Some (tick_motion (gs_config s) inputs m)"
proof -
  let ?now = "gs_timeMs s + sc_tickDurationMs (gs_config s)"
  define s0 where "s0 = s\<lparr>gs_tick := gs_tick s + 1, gs_timeMs := ?now\<rparr>"
  have cm0: "cm E s0 = cm E s" by (simp add: s0_def cm_def fun_eq_iff)
  have same: "alive E s0 e' = alive E s e'" for e' by (simp add: s0_def alive_def)
  have "sim_ok E s0 \<longleftrightarrow> sim_ok E s" by (rule sim_ok_cong) (simp_all add: same cm0, simp_all add: s0_def)
  then have s0: "sim_ok E s0" and i0: "index_ok E s0" using s by (simp_all add: sim_ok_def)
  have c0: "PlayerEntityForClient s0 c = Some i" "EntityFor s0 i = Some e"
    using c by (simp_all add: s0_def PlayerEntityForClient_def EntityFor_def)
  have inputs: "inputs_from c (gs_pendingInputs s0) = inputs" by (simp add: s0_def inputs_def)
  obtain p where p: "c_player (cm E s e) = Some p" "\<not> pl_defeated p"
    using clients_okE [OF index_okD(5) [OF i0] c0(1)] c0(2) e unfolding cm0 standing_def
    by (metis option.inject option.case(2))
  moreover have "c_projectile (cm E s e) = None"
    using s alive_player [OF p(1)] p(1) by (simp add: sim_ok_def entity_ok_def)
  moreover have "c_identity (cm E s e) = Some i" using index_okD(3) [OF i0] c0(2) by (simp add: cm0)
  moreover note 1 = ProcessInputs_moves [OF E i0 c0, unfolded cm0 inputs, OF e m idle]
  moreover have "gs_config s0 = gs_config s" "gs_timeMs s0 = ?now" by (simp_all add: s0_def)
  moreover have "frame E s0 (ProcessInputs E s0)" using config by (intro ProcessInputs_ok(1) [OF E _ s0]) (simp add: s0_def)
  note frame_fields(1,3) [OF this]
  ultimately have "steady E (gs_config s) ?now i (tick_motion (gs_config s) inputs m) e (ProcessInputs E s0)"
    by (simp add: steady_def same_role_def)
  then have "steady E (gs_config s) ?now i (tick_motion (gs_config s) inputs m) e (TickFixed E s)"
    unfolding TickFixed_def Let_def s0_def [symmetric]
    by (intro steady_ProcessRespawns steady_ProcessProjectiles steady_ProcessWeaponWarmups E t)
  note steadyD [OF this]
  then show "c_identity (cm E (TickFixed E s) e) = Some i"
    "motion_of (cm E (TickFixed E s) e) = Some (tick_motion (gs_config s) inputs m)" by auto
qed

section \<open>The server's turns\<close>

text \<open>
  A turn of the server: what its sessions do to the simulation since the last tick (logins and inputs of any
  client, and the events drained for broadcast), and then the tick.
\<close>

datatype sim_call = Call_Login LoginCommand | Call_Input ClientInputPacket | Call_Drain

fun sim_run_call :: "'r entt_ops \<Rightarrow> sim_call \<Rightarrow> 'r GameSimulation \<Rightarrow> 'r GameSimulation" where
  "sim_run_call E (Call_Login cmd) s = snd (SubmitLogin E cmd s)"
| "sim_run_call E (Call_Input packet) s = snd (SubmitInput packet s)"
| "sim_run_call E Call_Drain s = snd (DrainEvents s)"

definition server_turn :: "'r entt_ops \<Rightarrow> sim_call list \<Rightarrow> 'r GameSimulation \<Rightarrow> 'r GameSimulation" where
  "server_turn E calls s = TickFixed E (fold (sim_run_call E) calls s)"

text \<open>No call runs out of entity ids.\<close>

fun calls_room :: "'r entt_ops \<Rightarrow> sim_call list \<Rightarrow> 'r GameSimulation \<Rightarrow> bool" where
  "calls_room E [] s \<longleftrightarrow> id_room s"
| "calls_room E (x # xs) s \<longleftrightarrow> id_room s \<and> calls_room E xs (sim_run_call E x s)"

text \<open>The player of a client is there and not defeated.\<close>

definition client_standing :: "'r entt_ops \<Rightarrow> ClientId \<Rightarrow> 'r GameSimulation \<Rightarrow> bool" where
  "client_standing E c s \<longleftrightarrow> (case PlayerEntityForClient s c of None \<Rightarrow> False
     | Some i \<Rightarrow> (case EntityFor s i of None \<Rightarrow> False | Some e \<Rightarrow> standing (cm E s e)))"

text \<open>
  The server plays the inputs of a client, one in each turn: before the tick the client's accepted and pending
  inputs are just that one and its player is not defeated; there are ids left, and the clock does not wrap.
\<close>

definition tick_plays :: "'r entt_ops \<Rightarrow> ClientId \<Rightarrow> ClientInputPacket \<Rightarrow> 'r GameSimulation \<Rightarrow> bool" where
  "tick_plays E c q s \<longleftrightarrow> filter (\<lambda>p. packet_client p = c) (gs_pendingInputs s) = [q] \<and> client_standing E c s
     \<and> gs_timeMs s + sc_tickDurationMs (gs_config s)
         < gs_timeMs s + sc_tickDurationMs (gs_config s) + sc_respawnDelayMs (gs_config s)"

fun plays :: "'r entt_ops \<Rightarrow> ClientId \<Rightarrow> sim_call list list \<Rightarrow> ClientInputPacket list \<Rightarrow> 'r GameSimulation \<Rightarrow> bool" where
  "plays E c [] [] s \<longleftrightarrow> True"
| "plays E c (calls # turns) (q # qs) s \<longleftrightarrow> calls_room E calls s
     \<and> tick_plays E c q (fold (sim_run_call E) calls s) \<and> plays E c turns qs (server_turn E calls s)"
| "plays E c turns qs s \<longleftrightarrow> False"

text \<open>A call keeps the entity of a player that is in the game.\<close>

definition keeps_player :: "'r entt_ops \<Rightarrow> ClientId \<Rightarrow> NetworkEntityId \<Rightarrow> entity \<Rightarrow> 'r GameSimulation \<Rightarrow> 'r GameSimulation \<Rightarrow> bool" where
  "keeps_player E c i e s s' \<longleftrightarrow> sim_ok E s' \<and> gs_config s' = gs_config s \<and> PlayerEntityForClient s' c = Some i
     \<and> EntityFor s' i = Some e \<and> cm E s' e = cm E s e"

lemma SubmitLogin_keeps:
  assumes E: "entt_laws E" and config: "config_ok (gs_config s)" and s: "sim_ok E s" and room: "id_room s"
    and c: "PlayerEntityForClient s c = Some i" "EntityFor s i = Some e"
  shows "keeps_player E c i e s (snd (SubmitLogin E cmd s))"
proof (cases "um_contains (gs_playerByClient s) (hd_clientId (lg_header cmd))
    \<or> length (gs_playerByClient s) \<ge> unat (sc_maxPlayers (gs_config s))")
  case True
  then show ?thesis using s c by (auto simp: keeps_player_def SubmitLogin_def Let_def)
next
  case False
  let ?cl = "hd_clientId (lg_header cmd)" and ?spawn = "SpawnTransformForClient (gs_config s) (hd_clientId (lg_header cmd))"
  define s0 where "s0 = s\<lparr>gs_lastAcceptedSequence := um_put ?cl (hd_sequence (lg_header cmd)) (gs_lastAcceptedSequence s)\<rparr>"
  obtain e' reg where r: "en_create E (gs_registry s0) = (e', reg)" by fastforce
  obtain j s' where s': "CreatePlayer E ?cl (tf_x ?spawn) (tf_y ?spawn) s0 = (j, s')" by fastforce
  note st = CreatePlayer_state [OF E r s']
  have eq: "snd (SubmitLogin E cmd s) = s'"
    using False s' by (simp add: SubmitLogin_def Let_def s0_def [symmetric]) (simp add: s0_def)
  have i: "index_ok E s" using s by (simp add: sim_ok_def)
  have "i \<noteq> j" using index_okD(6) [OF i c(2)] st(1) by (auto simp: s0_def)
  moreover have "alive E s0 e" using index_okD(3) [OF i] c(2) alive_identity by (fastforce simp: s0_def create_fields)
  then have "e \<noteq> e'" using create_alive(1) [OF E r] by auto
  moreover have "?cl \<noteq> c" using False c(1) by (auto simp: um_contains_def PlayerEntityForClient_def)
  moreover have "sim_ok E s'" "gs_config s' = gs_config s"
    using SubmitLogin_ok [OF E config s, where cmd = cmd] room by (simp_all add: id_room_def eq)
  ultimately show ?thesis using c st
    by (simp add: keeps_player_def eq EntityFor_def PlayerEntityForClient_def s0_def create_fields)
qed

lemma sim_run_call_keeps:
  assumes E: "entt_laws E" and config: "config_ok (gs_config s)" and s: "sim_ok E s" and room: "id_room s"
    and c: "PlayerEntityForClient s c = Some i" "EntityFor s i = Some e"
  shows "keeps_player E c i e s (sim_run_call E x s)"
proof (cases x)
  case (Call_Login cmd)
  then show ?thesis using SubmitLogin_keeps [OF assms] by simp
next
  case (Call_Input packet)
  then show ?thesis using c SubmitInput_ok [OF s, of packet]
    by (simp add: keeps_player_def SubmitInput_frame PlayerEntityForClient_def EntityFor_def)
next
  case Call_Drain
  have "sim_ok E (s\<lparr>gs_events := []\<rparr>) \<longleftrightarrow> sim_ok E s" by (rule sim_ok_cong) (simp_all add: alive_def cm_def)
  then show ?thesis using c s Call_Drain
    by (simp add: keeps_player_def DrainEvents_def PlayerEntityForClient_def EntityFor_def cm_def)
qed

lemma calls_keep:
  assumes E: "entt_laws E"
  shows "config_ok (gs_config s) \<Longrightarrow> sim_ok E s \<Longrightarrow> calls_room E calls s \<Longrightarrow> PlayerEntityForClient s c = Some i
     \<Longrightarrow> EntityFor s i = Some e \<Longrightarrow>
     keeps_player E c i e s (fold (sim_run_call E) calls s) \<and> id_room (fold (sim_run_call E) calls s)"
proof (induction calls arbitrary: s)
  case (Cons x calls)
  have "keeps_player E c i e s (sim_run_call E x s)"
    using Cons.prems by (intro sim_run_call_keeps [OF E]) simp_all
  then show ?case using Cons.IH [of "sim_run_call E x s"] Cons.prems by (simp add: keeps_player_def)
qed (simp add: keeps_player_def)

lemma server_turn_steers:
  fixes s calls
  assumes E: "entt_laws E" and config: "config_ok (gs_config s)" and s: "sim_ok E s"
    and c: "PlayerEntityForClient s c = Some i" "EntityFor s i = Some e" and m: "motion_of (cm E s e) = Some m"
    and room: "calls_room E calls s" and q: "tick_plays E c q (fold (sim_run_call E) calls s)"
  defines "s' \<equiv> server_turn E calls s"
  shows "sim_ok E s'" and "gs_config s' = gs_config s" and "PlayerEntityForClient s' c = Some i"
    and "EntityFor s' i = Some e" and "motion_of (cm E s' e) = Some (steer (gs_config s) (ip_input q) m)"
proof -
  define s1 where "s1 = fold (sim_run_call E) calls s"
  have k: "sim_ok E s1" "gs_config s1 = gs_config s" "PlayerEntityForClient s1 c = Some i" "EntityFor s1 i = Some e"
    "cm E s1 e = cm E s e" "id_room s1"
    using calls_keep [OF E config s room c] by (simp_all add: s1_def keeps_player_def)
  have c1: "config_ok (gs_config s1)" using config k(2) by simp
  note tick = TickFixed_ok [OF E c1 k(1,6)]
  have s': "s' = TickFixed E s1" by (simp add: s'_def s1_def server_turn_def)
  have "motion_of (cm E s1 e) = Some m" "standing (cm E s1 e)"
    using m q k by (simp_all add: tick_plays_def client_standing_def s1_def [symmetric])
  note st = TickFixed_moves [OF E c1 k(1) _ k(3,4) this(2,1)]
  moreover have "inputs_from c (gs_pendingInputs s1) = [ip_input q]"
    using q by (simp add: tick_plays_def inputs_from_def s1_def [symmetric])
  ultimately have id: "c_identity (cm E s' e) = Some i"
    and "motion_of (cm E s' e) = Some (steer (gs_config s) (ip_input q) m)"
    using q by (simp_all add: s' k(2) tick_plays_def s1_def [symmetric] tick_motion_single)
  then show "motion_of (cm E s' e) = Some (steer (gs_config s) (ip_input q) m)" by simp
  show "sim_ok E s'" "gs_config s' = gs_config s" using tick k(2) by (simp_all add: s')
  then show "EntityFor s' i = Some e" using id index_okD(3) [of E s'] by (simp add: sim_ok_def)
  show "PlayerEntityForClient s' c = Some i" using tick(4) k(3) by (simp add: s' PlayerEntityForClient_def)
qed

lemma plays_steers:
  assumes E: "entt_laws E"
  shows "config_ok (gs_config s) \<Longrightarrow> sim_ok E s \<Longrightarrow> PlayerEntityForClient s c = Some i \<Longrightarrow> EntityFor s i = Some e
     \<Longrightarrow> motion_of (cm E s e) = Some m \<Longrightarrow> plays E c turns qs s \<Longrightarrow>
     EntityFor (fold (server_turn E) turns s) i = Some e \<and> sim_ok E (fold (server_turn E) turns s)
     \<and> motion_of (cm E (fold (server_turn E) turns s) e) = Some (fold (\<lambda>q. steer (gs_config s) (ip_input q)) qs m)"
proof (induction turns arbitrary: s qs m)
  case Nil
  then show ?case by (cases qs) simp_all
next
  case (Cons calls turns)
  then obtain q qs' where qs: "qs = q # qs'" by (cases qs) simp_all
  let ?s = "server_turn E calls s"
  note st = server_turn_steers [OF E Cons.prems(1-5), where calls = calls and q = q]
  have "calls_room E calls s" "tick_plays E c q (fold (sim_run_call E) calls s)" "plays E c turns qs' ?s"
    using Cons.prems(6) by (simp_all add: qs)
  note st = st [OF this(1,2)] and rest = this(3)
  then show ?case using Cons.IH [OF _ st(1,3-5) rest] Cons.prems(1) by (simp add: qs st(2))
qed

lemma plays_clients:
  "plays E c turns qs s \<Longrightarrow> \<forall>q\<in>set qs. packet_client q = c"
proof (induction E c turns qs s rule: plays.induct)
  case (2 E c calls turns q qs s)
  have "q \<in> set (filter (\<lambda>p. packet_client p = c) (gs_pendingInputs (fold (sim_run_call E) calls s)))"
    using 2(2) by (simp add: tick_plays_def)
  then show ?case using 2 by simp
qed simp_all

section \<open>The client and the server\<close>

text \<open>Two simulations that agree on a player's movement agree after the replay and the turns.\<close>

lemma replay_meets_turns:
  assumes E: "entt_laws E" "entt_laws E'" and server: "config_ok (gs_config s)" "sim_ok E s"
    and client: "client_index_ok E' s'" "client_standing E' c s'" "gs_config s' = (gs_config s)\<lparr>sc_mode := mode\<rparr>"
    and i: "PlayerEntityForClient s c = Some i" "PlayerEntityForClient s' c = Some i"
    and same: "MovementForEntity E' s' i = MovementForEntity E s i" and plays: "plays E c turns qs s"
  shows "MovementForEntity E' (ReplayLocalInputsForPrediction E' qs s') i = MovementForEntity E (fold (server_turn E) turns s) i"
proof -
  have idx: "index_ok E s" using server(2) by (simp add: sim_ok_def)
  obtain e p where e: "EntityFor s i = Some e" "c_player (cm E s e) = Some p"
    using clients_okE [OF index_okD(5) [OF idx] i(1)] by metis
  have id: "c_identity (cm E s e) = Some i" using e(1) index_okD(3) [OF idx] by simp
  obtain m where m: "motion_of (cm E s e) = Some m"
    using server(2) alive_player [OF e(2)] e(2) by (fastforce simp: sim_ok_def entity_ok_def motion_of_def)
  obtain e' where e': "EntityFor s' i = Some e'" "standing (cm E' s' e')"
    using client(2) i(2) by (auto simp: client_standing_def split: option.splits)
  have id': "c_identity (cm E' s' e') = Some i" using client(1) e'(1) by (simp add: client_index_ok_def)
  have m': "motion_of (cm E' s' e') = Some m"
    using same m movement_of_motion [OF e(1) id] movement_of_motion [OF e'(1) id'] by (auto simp: movement_dto_inj)
  let ?steered = "fold (\<lambda>q. steer (gs_config s) (ip_input q)) qs m"
  note S = plays_steers [OF E(1) server i(1) e(1) m plays]
  then have "c_identity (cm E (fold (server_turn E) turns s) e) = Some i"
    using index_okD(3) [of E "fold (server_turn E) turns s" i e] by (simp add: sim_ok_def)
  then have "MovementForEntity E (fold (server_turn E) turns s) i = Some (movement_dto i ?steered)"
    using movement_of_motion S by fastforce
  moreover have "motion_of (cm E' (fold (replay_input E') qs s') e') = Some ?steered"
    using replay_all_steers [OF E(2) plays_clients [OF plays] i(2) e'(1) id' e'(2) m'] client(3) by simp
  moreover have fr: "frame E' s' (fold (replay_input E') qs s')" by (rule frame_fold) (rule frame_replay_input [OF E(2)])
  have "EntityFor (fold (replay_input E') qs s') i = Some e'" "c_identity (cm E' (fold (replay_input E') qs s') e') = Some i"
    using frame_fields [OF fr] e'(1) id' by (simp_all add: EntityFor_def)
  note movement_of_motion [OF this]
  ultimately show ?thesis by (simp add: ReplayLocalInputsForPrediction_def)
qed

lemma replay_input_player:
  assumes E: "entt_laws E" shows "c_player (cm E (replay_input E q s) e) = c_player (cm E s e)"
proof -
  have f: "c_player (cm E (fire_weapon E e' s) e) = c_player (cm E s e)" for e' s
    by (simp add: fire_weapon_def Let_def E split: option.split)
  have a: "c_player (cm E (ApplyInputToEntity E e' q s) e) = c_player (cm E s e)" for e'
    by (simp add: ApplyInputToEntity_def Let_def f E split: option.split)
  have "c_player (cm E (IntegrateMovement E e' s) e) = c_player (cm E s e)" for e' s
    by (simp add: IntegrateMovement_def Let_def E split: option.split)
  then show ?thesis by (simp add: replay_input_def Let_def a E split: option.split)
qed

lemma replay_keeps_role:
  assumes E: "entt_laws E"
  shows "PlayerEntityForClient (ReplayLocalInputsForPrediction E qs s) c = PlayerEntityForClient s c"
    and "gs_config (ReplayLocalInputsForPrediction E qs s) = gs_config s"
    and "client_standing E c (ReplayLocalInputsForPrediction E qs s) \<longleftrightarrow> client_standing E c s"
proof -
  have fr: "frame E s (ReplayLocalInputsForPrediction E qs s)"
    unfolding ReplayLocalInputsForPrediction_def by (rule frame_fold) (rule frame_replay_input [OF E])
  show "gs_config (ReplayLocalInputsForPrediction E qs s) = gs_config s" by (rule frame_fields(1) [OF fr])
  show c: "PlayerEntityForClient (ReplayLocalInputsForPrediction E qs s) c = PlayerEntityForClient s c"
    by (simp add: PlayerEntityForClient_def frame_fields(5) [OF fr])
  have "c_player (cm E (fold (replay_input E) qs s) e) = c_player (cm E s e)" for e
    by (induction qs arbitrary: s) (simp_all add: replay_input_player [OF E])
  then have "standing (cm E (ReplayLocalInputsForPrediction E qs s) e) = standing (cm E s e)" for e
    by (simp add: standing_def ReplayLocalInputsForPrediction_def)
  moreover have "EntityFor (ReplayLocalInputsForPrediction E qs s) i = EntityFor s i" for i
    by (simp add: EntityFor_def frame_fields(6) [OF fr])
  ultimately show "client_standing E c (ReplayLocalInputsForPrediction E qs s) \<longleftrightarrow> client_standing E c s"
    by (simp add: client_standing_def c cong: option.case_cong)
qed

end
