(* ===== verification/Client_Properties.thy ===== *)
theory Client_Properties
  imports Client_Frame Prediction Game_Properties
begin

text \<open>
  The properties of the client: the inputs it keeps for replay, the frames it interpolates and shows,
  and the whole single-process game running frame after frame; and how a client follows its server.
\<close>

section \<open>Inputs\<close>

text \<open>C15. Reconciliation keeps exactly the right inputs: over any calls on a client's runtime, with any
  snapshots that acknowledge only inputs that were queued, the inputs are numbered from one in their
  order under the client's identifier, and the ones kept for replay are exactly those beyond the highest
  acknowledgement, in order.\<close>

theorem unacked_inputs_exact:
  fixes E :: "'r entt_ops"
  assumes "length calls + 1 < 2 ^ 32" and "honest_acks 0 calls"
  shows "case client_run E calls (new_ClientRuntime E c config) of (r, sent) \<Rightarrow>
       map input_sequence sent = [1..<length sent + 1]
       \<and> set (map (hd_clientId \<circ> ip_header) sent) \<subseteq> {cr_localClientId r}
       \<and> highest_ack 0 calls \<le> length sent
       \<and> UnackedInputs r = drop (highest_ack 0 calls) sent"
proof -
  have "inputs_ok (new_ClientRuntime E c config) [] 0" by (rule inputs_ok_new)
  from client_run_inputs [OF this, of calls E] assms obtain r sent where
    "fold (run_client_call E) calls (new_ClientRuntime E c config, []) = (r, sent)"
    "inputs_ok r sent (highest_ack 0 calls)" by auto
  then show ?thesis by (auto simp: client_run_def inputs_ok_def)
qed

definition sample_calls :: "client_call list" where
  "sample_calls = [Client_Input default_InputFrame 10, Client_Tick, Client_Input default_InputFrame 26,
     Client_Snapshot sample_snapshot, Client_Input default_InputFrame 42]"

theorem unacked_inputs_exact_witness:
  "case client_run list_registry sample_calls (new_ClientRuntime list_registry 42 default_SimulationConfig) of
     (r, sent) \<Rightarrow> UnackedInputs r = drop 2 sent"
  using unacked_inputs_exact [of sample_calls list_registry 42 default_SimulationConfig]
  by (simp add: sample_calls_def sample_snapshot_def split: prod.splits)

section \<open>Presentation\<close>











section \<open>A client and its server\<close>

text \<open>C2. The client follows its server: once a client has handled the snapshot that the server planned for
  it, every entity of that snapshot has on the client the movement it has on the server, except the one
  whose unacknowledged inputs the client predicts.\<close>

theorem client_agrees_with_server:
  fixes p :: "('t, 'r) pump_state" and h :: "('u, 's) ServerNetworkHost" and c now T
  assumes "entt_laws E" and "entt_laws E'"
    and "index_ok E (sv_simulation (nh_runtime h))" and "client_index_ok E' (cr_simulation (pu_runtime p))"
    and "length (SerializeSnapshot (pl_snapshot (fst (plan_snapshot E c h)))) \<le> kMaxNetworkPayloadBytes"
    and "i \<in> set (entity_ids (pl_snapshot (fst (plan_snapshot E c h))))"
    and "r = pu_runtime (handle_incoming T E' now (snapshot_envelope c (pl_snapshot (fst (plan_snapshot E c h)))) p)"
    and "\<forall>q\<in>set (UnackedInputs r). PlayerEntityForClient (cr_simulation r) (hd_clientId (ip_header q)) \<noteq> Some i"
  shows "MovementForEntity E' (cr_simulation r) i = MovementForEntity E (sv_simulation (nh_runtime h)) i
     \<and> MovementForEntity E (sv_simulation (nh_runtime h)) i \<noteq> None"
  unfolding assms(7) by (rule client_follows_server [OF assms(1-6)]) (use assms(7,8) in simp)

text \<open>For the witness: a server with one player's entity, and a new client.\<close>

definition placed_sim :: "list_registry GameSimulation" where
  "placed_sim = (new_GameSimulation list_registry default_SimulationConfig)
     \<lparr>gs_registry := (1, [(1, no_components\<lparr>c_identity := Some 1, c_transform := Some default_Transform,
         c_velocity := Some default_Velocity, c_player := Some (default_Player\<lparr>pl_clientId := 42\<rparr>),
         c_owner := Some 42\<rparr>)]),
      gs_entityByNetworkId := [(1, 1)], gs_playerByClient := [(42, 1)], gs_nextNetworkId := 2\<rparr>"

lemmas placed_sim_simps = placed_sim_def new_GameSimulation_def EntityFor_def PlayerEntityForClient_def um_ok_def
  cm_def comps_def list_registry_def alive_def default_SimulationConfig_def no_components_def

lemma placed_sim_ok: "index_ok list_registry placed_sim"
  by (auto simp: index_ok_def clients_ok_def placed_sim_simps split: if_splits)

definition placed_host :: "(unit, list_registry) ServerNetworkHost" where
  "placed_host = (new_ServerNetworkHost list_registry () default_HostConfig)
     \<lparr>nh_runtime := (new_ServerRuntime list_registry default_SimulationConfig)\<lparr>sv_simulation := placed_sim\<rparr>\<rparr>"

lemma placed_host_snapshot:
  "\<exists>st. sn_entities (pl_snapshot (fst (plan_snapshot list_registry 42 placed_host))) = [st]
     \<and> rp_entityId (es_replication st) = 1"
  by (simp add: plan_snapshot_def Plan_def placed_host_def new_ServerNetworkHost_def requested_baseline_def Decide_def
      BuildSnapshotFor_def default_HostConfig_def default_PlannerConfig_def BuildSnapshot_def build_entity_def
      observer_chunk_def MovementForEntity_def entity_visible_def entity_state_def has_all_def Let_def placed_sim_simps)

lemma one_entity_fits:
  "sn_entities sn = [st] \<Longrightarrow> length (SerializeSnapshot sn) \<le> kMaxNetworkPayloadBytes"
  by (cases "es_combat st") (simp_all add: SerializeSnapshot_def WriteEntity_def WriteReplication_def WriteBool_def
      WriteMovement_def WriteCombat_def WriteSnapshotDeliveryKind_def WriteSnapshotPriority_def
      WriteReplicatedEntityKind_def WriteEntityId_def WriteWeaponType_def Let_def WritePod_def kMaxNetworkPayloadBytes_def)

definition new_client :: "(LoopbackTransport, list_registry) pump_state" where
  "new_client = \<lparr>pu_transport = default_LoopbackTransport, pu_runtime = new_ClientRuntime list_registry 42 default_SimulationConfig,
     pu_stats = zero_ClientSessionStats, pu_reliableEvents = [], pu_applied = 0\<rparr>"

theorem client_agrees_with_server_witness:
  "MovementForEntity list_registry (cr_simulation (pu_runtime (handle_incoming loopback_transport list_registry 5
       (snapshot_envelope 42 (pl_snapshot (fst (plan_snapshot list_registry 42 placed_host)))) new_client))) 1 \<noteq> None"
proof -
  define sn where "sn = pl_snapshot (fst (plan_snapshot list_registry 42 placed_host))"
  obtain st where st: "sn_entities sn = [st]" "rp_entityId (es_replication st) = 1"
    using placed_host_snapshot by (auto simp: sn_def)
  have "client_index_ok list_registry (cr_simulation (pu_runtime new_client))"
    by (simp add: client_index_ok_def new_client_def new_ClientRuntime_def new_GameSimulation_def EntityFor_def)
  moreover have "UnackedInputs (pu_runtime (handle_incoming loopback_transport list_registry 5
      (snapshot_envelope 42 sn) new_client)) = []"
    unfolding handle_snapshot_envelope [OF one_entity_fits [OF st(1)]]
    by (simp add: new_client_def new_ClientRuntime_def UnackedInputs_def ApplyServerSnapshot_def Let_def
        new_PendingInputHistory_def AcknowledgeThrough_def)
  moreover have "1 \<in> set (entity_ids sn)" using st by simp
  moreover have "sv_simulation (nh_runtime placed_host) = placed_sim" by (simp add: placed_host_def)
  ultimately show ?thesis
    using client_agrees_with_server [where T = loopback_transport and now = 5 and h = placed_host
        and p = new_client and c = 42 and i = 1, OF list_registry_laws list_registry_laws _ _ _ _ refl] placed_sim_ok
      one_entity_fits [OF st(1)] by (simp add: sn_def)
qed

section \<open>Prediction\<close>

text \<open>C4. A tick moves a player once: however many inputs of a client the server has accepted since the last tick,
  the tick accelerates the player by the last of them (by friction when there is none), moves it one step inside
  the map and turns its aim by each input that aims; nothing else in the tick, other players' inputs, shots, hits
  and respawns, moves a player that is not defeated.\<close>

theorem tick_moves_player:
  assumes E: "entt_laws E" and "config_ok (gs_config s)" and s: "sim_ok E s" and "id_room s"
    and "gs_timeMs s + sc_tickDurationMs (gs_config s)
      < gs_timeMs s + sc_tickDurationMs (gs_config s) + sc_respawnDelayMs (gs_config s)"
    and c: "PlayerEntityForClient s c = Some i" "client_standing E c s"
    and e: "EntityFor s i = Some e" "c_intent (cm E s e) = None"
  shows "\<exists>m. MovementForEntity E s i = Some (movement_dto i m)
     \<and> MovementForEntity E (TickFixed E s) i
         = Some (movement_dto i (tick_motion (gs_config s) (inputs_from c (gs_pendingInputs s)) m))"
proof -
  have idx: "index_ok E s" using s by (simp add: sim_ok_def)
  obtain p where p: "c_player (cm E s e) = Some p" using clients_okE [OF index_okD(5) [OF idx] c(1)] e(1) by auto
  obtain m where m: "motion_of (cm E s e) = Some m"
    using s alive_player [OF p] p by (fastforce simp: sim_ok_def entity_ok_def motion_of_def)
  have "standing (cm E s e)" using c e(1) by (simp add: client_standing_def)
  note moved = TickFixed_moves [OF assms(1-3,5) c(1) e(1) this m e(2)]
  have "index_ok E (TickFixed E s)" using TickFixed_ok(1) [OF assms(1-4)] by (simp add: sim_ok_def)
  then have "EntityFor (TickFixed E s) i = Some e" using index_okD(3) moved(1) by blast
  note movement_of_motion [OF this moved(1)]
  moreover note movement_of_motion [OF e(1), of E]
  moreover have "c_identity (cm E s e) = Some i" using index_okD(3) [OF idx] e(1) by simp
  ultimately show ?thesis using moved(2) m by (intro exI [of _ m] conjI) simp_all
qed

text \<open>C3. Prediction is exact: once a client has handled the server's snapshot and replayed the inputs that the
  server has not acknowledged, its player moves as it does on the server after the server has played these
  inputs, one in each of the next ticks, whatever logins, other players' inputs, shots, hits and respawns the
  server handles meanwhile.\<close>

theorem prediction_matches_server:
  fixes p :: "('t, 'r) pump_state" and h :: "('u, 's) ServerNetworkHost" and c now T
  assumes "entt_laws E" and "entt_laws E'"
    and "config_ok (gs_config (sv_simulation (nh_runtime h)))" and "sim_ok E (sv_simulation (nh_runtime h))"
    and "PlayerEntityForClient (sv_simulation (nh_runtime h)) c = Some i"
    and "client_index_ok E' (cr_simulation (pu_runtime p))"
    and "length (SerializeSnapshot (pl_snapshot (fst (plan_snapshot E c h)))) \<le> kMaxNetworkPayloadBytes"
    and "i \<in> set (entity_ids (pl_snapshot (fst (plan_snapshot E c h))))"
    and r: "r = pu_runtime (handle_incoming T E' now (snapshot_envelope c (pl_snapshot (fst (plan_snapshot E c h)))) p)"
    and "gs_config (cr_simulation r) = (gs_config (sv_simulation (nh_runtime h)))\<lparr>sc_mode := mode\<rparr>"
    and "PlayerEntityForClient (cr_simulation r) c = Some i" and "client_standing E' c (cr_simulation r)"
    and "plays E c turns (UnackedInputs r) (sv_simulation (nh_runtime h))"
  shows "MovementForEntity E' (cr_simulation r) i
     = MovementForEntity E (fold (server_turn E) turns (sv_simulation (nh_runtime h))) i"
proof -
  obtain s1 where s1: "client_index_ok E' s1" "cr_simulation r = ReplayLocalInputsForPrediction E' (UnackedInputs r) s1"
    "MovementForEntity E' s1 i = MovementForEntity E (sv_simulation (nh_runtime h)) i"
    using client_applies_planned [OF assms(1,2) _ assms(6-8) r] assms(4) unfolding sim_ok_def by metis
  note r_ok = assms(10-12) [unfolded s1(2) replay_keeps_role [OF assms(2)]]
  from replay_meets_turns [OF assms(1-4) s1(1) r_ok(3,1) assms(5) r_ok(2) s1(3) assms(13)] show ?thesis
    by (simp only: s1(2) [symmetric])
qed

text \<open>For the witness: the client of the placed player has pressed right in two ticks, aiming down.\<close>

definition moving_packet :: "CommandSequence \<Rightarrow> TimestampMs \<Rightarrow> ClientInputPacket" where
  "moving_packet q t = \<lparr>ip_header = \<lparr>hd_clientId = 42, hd_sequence = q, hd_clientTimestampMs = t\<rparr>,
     ip_input = default_InputFrame\<lparr>if_moveX := 1, if_aimX := 0, if_aimY := 1000\<rparr>\<rparr>"

definition pressed_client :: "(LoopbackTransport, list_registry) pump_state" where
  "pressed_client = new_client\<lparr>pu_runtime :=
     snd (QueueInput (ip_input (moving_packet 2 30)) 30
       (snd (QueueInput (ip_input (moving_packet 1 14)) 14 (pu_runtime new_client))))\<rparr>"

definition placed_snapshot :: SnapshotDTO where
  "placed_snapshot = pl_snapshot (fst (plan_snapshot list_registry 42 placed_host))"

definition predicting_runtime :: "list_registry ClientRuntime" where
  "predicting_runtime = ApplyServerSnapshot list_registry placed_snapshot (pu_runtime pressed_client)"

definition played_turns :: "sim_call list list" where
  "played_turns = [[Call_Input (moving_packet 1 14)], [Call_Input (moving_packet 2 30), Call_Drain]]"

lemma predicting_runtime_known:
  "UnackedInputs predicting_runtime = [moving_packet 1 14, moving_packet 2 30]"
  "gs_config (cr_simulation predicting_runtime) = default_SimulationConfig\<lparr>sc_mode := ClientPrediction\<rparr>"
  "PlayerEntityForClient (cr_simulation predicting_runtime) 42 = Some 1"
  "client_standing list_registry 42 (cr_simulation predicting_runtime)"
proof -
  let ?r = "pu_runtime pressed_client"
  define s1 where "s1 = ApplySnapshot list_registry placed_snapshot (cr_localClientId ?r) (cr_simulation ?r)"
  have "let s = ApplySnapshot list_registry placed_snapshot (cr_localClientId ?r) (cr_simulation ?r)
      in gs_config s = default_SimulationConfig\<lparr>sc_mode := ClientPrediction\<rparr>
        \<and> PlayerEntityForClient s 42 = Some 1 \<and> client_standing list_registry 42 s" by code_simp
  then have s1: "gs_config s1 = default_SimulationConfig\<lparr>sc_mode := ClientPrediction\<rparr>"
    "PlayerEntityForClient s1 42 = Some 1" "client_standing list_registry 42 s1"
    by (simp_all add: Let_def s1_def)
  have "ph_unackedInputs (AcknowledgeThrough (sn_ackedInputSequence placed_snapshot) (cr_pendingInputs ?r))
      = [moving_packet 1 14, moving_packet 2 30]" by code_simp
  then show "UnackedInputs predicting_runtime = [moving_packet 1 14, moving_packet 2 30]"
    by (simp add: UnackedInputs_def predicting_runtime_def ApplyServerSnapshot_def Let_def)
  obtain qs where "cr_simulation predicting_runtime = ReplayLocalInputsForPrediction list_registry qs s1"
    by (simp add: predicting_runtime_def ApplyServerSnapshot_def Let_def s1_def)
  then show "gs_config (cr_simulation predicting_runtime) = default_SimulationConfig\<lparr>sc_mode := ClientPrediction\<rparr>"
    "PlayerEntityForClient (cr_simulation predicting_runtime) 42 = Some 1"
    "client_standing list_registry 42 (cr_simulation predicting_runtime)"
    using s1 by (simp_all add: replay_keeps_role [OF list_registry_laws])
qed

lemma placed_sim_valid: "sim_ok list_registry placed_sim" "config_ok (gs_config placed_sim)"
  "PlayerEntityForClient placed_sim 42 = Some 1" "id_room placed_sim"
proof -
  have "entity_ok default_SimulationConfig (cm list_registry placed_sim e)" for e
    by (simp add: entity_ok_def player_ok_def speed_ok_def on_map_def MapWidthFixed_def MapHeightFixed_def default_Velocity_def
        default_Transform_def default_Player_def default_MapConfig_def PixelsToFixed_def kFixedOne_def placed_sim_simps)
  moreover have "gs_config placed_sim = default_SimulationConfig" by (simp add: placed_sim_def new_GameSimulation_def)
  ultimately show "sim_ok list_registry placed_sim" "config_ok (gs_config placed_sim)"
    using placed_sim_ok config_ok_default by (simp_all add: sim_ok_def)
  show "PlayerEntityForClient placed_sim 42 = Some 1" "id_room placed_sim"
    by (simp_all add: id_room_def placed_sim_simps)
qed

lemma placed_sim_plays: "plays list_registry 42 played_turns [moving_packet 1 14, moving_packet 2 30] placed_sim"
proof -
  let ?s1 = "fold (sim_run_call list_registry) [Call_Input (moving_packet 1 14)] placed_sim"
  let ?s2 = "server_turn list_registry [Call_Input (moving_packet 1 14)] placed_sim"
  let ?s3 = "sim_run_call list_registry (Call_Input (moving_packet 2 30)) ?s2"
  have "tick_plays list_registry 42 (moving_packet 1 14) ?s1"
    "tick_plays list_registry 42 (moving_packet 2 30) (sim_run_call list_registry Call_Drain ?s3)" by code_simp+
  moreover have "gs_nextNetworkId ?s2 = 2 \<and> gs_entityByNetworkId ?s2 = [(1, 1)]" by code_simp
  then have "id_room ?s2" "id_room ?s3" "id_room (sim_run_call list_registry Call_Drain ?s3)"
    by (simp_all add: id_room_def SubmitInput_frame DrainEvents_def)
  ultimately show ?thesis
    using placed_sim_valid(4) by (simp add: played_turns_def id_room_def SubmitInput_frame)
qed

theorem prediction_matches_server_witness:
  "MovementForEntity list_registry (cr_simulation predicting_runtime) 1
     = MovementForEntity list_registry (fold (server_turn list_registry) played_turns placed_sim) 1"
proof -
  obtain st where st: "sn_entities placed_snapshot = [st]" "rp_entityId (es_replication st) = 1"
    using placed_host_snapshot by (auto simp: placed_snapshot_def)
  have "client_index_ok list_registry (cr_simulation (pu_runtime pressed_client))"
    by (simp add: client_index_ok_def pressed_client_def new_client_def new_ClientRuntime_def new_GameSimulation_def
        EntityFor_def QueueInput_def SubmitInput_def Let_def)
  moreover have "predicting_runtime = pu_runtime (handle_incoming loopback_transport list_registry 5
      (snapshot_envelope 42 placed_snapshot) pressed_client)"
    unfolding handle_snapshot_envelope [OF one_entity_fits [OF st(1)]] by (simp add: predicting_runtime_def)
  moreover have "sv_simulation (nh_runtime placed_host) = placed_sim" by (simp add: placed_host_def)
  moreover have "gs_config placed_sim = default_SimulationConfig" by (simp add: placed_sim_def new_GameSimulation_def)
  ultimately show ?thesis
    using prediction_matches_server [where T = loopback_transport and now = 5 and h = placed_host and p = pressed_client
        and c = 42 and i = 1 and r = predicting_runtime and turns = played_turns, OF list_registry_laws list_registry_laws]
      placed_sim_valid placed_sim_plays predicting_runtime_known one_entity_fits [OF st(1)] st
    by (simp add: placed_snapshot_def [symmetric])
qed

definition pressed_sim :: "list_registry GameSimulation" where
  "pressed_sim = snd (SubmitInput (moving_packet 2 30) (snd (SubmitInput (moving_packet 1 14) placed_sim)))"

lemma pressed_sim_known:
  "sim_ok list_registry pressed_sim" "gs_config pressed_sim = default_SimulationConfig"
  "config_ok (gs_config pressed_sim)" "id_room pressed_sim" "PlayerEntityForClient pressed_sim 42 = Some 1"
  "client_standing list_registry 42 pressed_sim" "EntityFor pressed_sim 1 = Some 1"
  "c_intent (cm list_registry pressed_sim 1) = None"
  "inputs_from 42 (gs_pendingInputs pressed_sim) = [ip_input (moving_packet 1 14), ip_input (moving_packet 2 30)]"
  "gs_timeMs pressed_sim + sc_tickDurationMs (gs_config pressed_sim)
     < gs_timeMs pressed_sim + sc_tickDurationMs (gs_config pressed_sim) + sc_respawnDelayMs (gs_config pressed_sim)"
proof -
  show "sim_ok list_registry pressed_sim" unfolding pressed_sim_def by (intro SubmitInput_ok placed_sim_valid)
  show config: "gs_config pressed_sim = default_SimulationConfig"
    by (simp add: pressed_sim_def SubmitInput_frame placed_sim_def new_GameSimulation_def)
  then show "config_ok (gs_config pressed_sim)" by (simp add: config_ok_default)
  show "id_room pressed_sim" using placed_sim_valid(4) by (simp add: pressed_sim_def id_room_def SubmitInput_frame)
  show "PlayerEntityForClient pressed_sim 42 = Some 1" "client_standing list_registry 42 pressed_sim"
    "EntityFor pressed_sim 1 = Some 1" "c_intent (cm list_registry pressed_sim 1) = None"
    "inputs_from 42 (gs_pendingInputs pressed_sim) = [ip_input (moving_packet 1 14), ip_input (moving_packet 2 30)]"
    "gs_timeMs pressed_sim + sc_tickDurationMs (gs_config pressed_sim)
       < gs_timeMs pressed_sim + sc_tickDurationMs (gs_config pressed_sim) + sc_respawnDelayMs (gs_config pressed_sim)"
    by code_simp+
qed

text \<open>For the witness of the first property: two inputs of that client in one tick move its player once.\<close>

theorem tick_moves_player_witness:
  "\<exists>m. MovementForEntity list_registry pressed_sim 1 = Some (movement_dto 1 m)
     \<and> MovementForEntity list_registry (TickFixed list_registry pressed_sim) 1
         = Some (movement_dto 1 (tick_motion default_SimulationConfig
             [ip_input (moving_packet 1 14), ip_input (moving_packet 2 30)] m))"
  using tick_moves_player [OF list_registry_laws, where s = pressed_sim and c = 42 and i = 1] pressed_sim_known by metis

end
