(* ===== verification/Scene_Renderer.thy ===== *)
theory Scene_Renderer
  imports Client_View Floats
begin

text \<open>
  \<open>src/Client/src/RaylibSceneRenderer.cpp\<close> and \<open>RaylibDebugOverlay.cpp\<close>: what the renderer draws for a
  frame. A call of the drawing library is a value of \<open>draw_call\<close>, with the library's function and its
  arguments, and a drawing function is the list of the calls it makes. Coordinates are single-precision
  floats over the parameter \<open>float_ops\<close>; \<open>static_cast<int>\<close> is \<open>fl_to_i32\<close>.
\<close>

section \<open>The drawing library's calls\<close>

text \<open>A colour by its components, or one of the library's named colours.\<close>

datatype color = Color u8 u8 u8 u8 | RAYWHITE | LIGHTGRAY

type_synonym 'f vector2 = "'f \<times> 'f"

record 'f rectangle =
  rc_x :: 'f
  rc_y :: 'f
  rc_width :: 'f
  rc_height :: 'f

record 'f camera2d =
  cm_offset :: "'f vector2"
  cm_target :: "'f vector2"
  cm_rotation :: 'f
  cm_zoom :: 'f

datatype 'f draw_call =
    BeginDrawing | EndDrawing
  | BeginMode2D "'f camera2d" | EndMode2D
  | ClearBackground color
  | DrawRectangle i32 i32 i32 i32 color
  | DrawRectangleLinesEx "'f rectangle" 'f color
  | DrawRectangleRounded "'f rectangle" 'f i32 color
  | DrawCircleV "'f vector2" 'f color
  | DrawCircleLines i32 i32 'f color
  | DrawLineEx "'f vector2" "'f vector2" 'f color
  | DrawText string i32 i32 i32 color

section \<open>The scene\<close>

record 'f RaylibSceneRenderConfig =
  cg_viewportWidth :: i32
  cg_viewportHeight :: i32
  cg_tileSizePixels :: i32
  cg_mapWidthTiles :: i32
  cg_mapHeightTiles :: i32
  cg_zoom :: 'f

definition default_SceneConfig :: "'f float_ops \<Rightarrow> 'f RaylibSceneRenderConfig" where
  "default_SceneConfig F = \<lparr>cg_viewportWidth = 1280, cg_viewportHeight = 720, cg_tileSizePixels = 128,
     cg_mapWidthTiles = 80, cg_mapHeightTiles = 80, cg_zoom = fl_nat F 1\<rparr>"

abbreviation fl_i32 :: "'f float_ops \<Rightarrow> i32 \<Rightarrow> 'f" where
  "fl_i32 F v \<equiv> fl_of_int F (sint v)"

definition ToPixels :: "'f float_ops \<Rightarrow> Fixed \<Rightarrow> 'f" where
  "ToPixels F v = fl_div F (fl_i32 F v) (fl_i32 F kFixedOne)"

definition PositionFor :: "'f float_ops \<Rightarrow> ViewEntity \<Rightarrow> 'f vector2" where
  "PositionFor F entity = (ToPixels F (ve_x entity), ToPixels F (ve_y entity))"

fun ColorForRole :: "ViewAuthorityRole \<Rightarrow> color" where
  "ColorForRole Role_Predicted = Color 83 209 255 255"
| "ColorForRole Role_Authoritative = Color 255 132 85 255"
| "ColorForRole Role_Interpolated = Color 185 205 156 255"

definition CameraTargetFor :: "'f float_ops \<Rightarrow> ClientViewFrame \<Rightarrow> 'f RaylibSceneRenderConfig \<Rightarrow> 'f vector2" where
  "CameraTargetFor F view config =
     (case find (\<lambda>e. ve_kind e = View_Player \<and> ve_ownerClientId e = vw_localClientId view) (vw_entities view) of
        Some localPlayer \<Rightarrow> PositionFor F localPlayer
      | None \<Rightarrow>
          (case find (\<lambda>e. ve_kind e = View_Player) (vw_entities view) of
             Some firstPlayer \<Rightarrow> PositionFor F firstPlayer
           | None \<Rightarrow> (fl_mul F (fl_i32 F (cg_mapWidthTiles config * cg_tileSizePixels config)) (fl_ratio F 1 2),
                      fl_mul F (fl_i32 F (cg_mapHeightTiles config * cg_tileSizePixels config)) (fl_ratio F 1 2))))"

text \<open>The tiles from a world coordinate to another along one axis, within the map.\<close>

definition tile_range ::
    "'f float_ops \<Rightarrow> 'f \<Rightarrow> 'f \<Rightarrow> i32 \<Rightarrow> i32 \<Rightarrow> i32 \<times> i32" where
  "tile_range F minWorld maxWorld tileSizePixels mapTiles =
     (ClampFixed (fl_to_i32 F (fl_floor F (fl_div F minWorld (fl_i32 F tileSizePixels)))) 0 (mapTiles - 1),
      ClampFixed (fl_to_i32 F (fl_ceil F (fl_div F maxWorld (fl_i32 F tileSizePixels)))) 0 (mapTiles - 1))"

definition draw_tile :: "'f float_ops \<Rightarrow> 'f RaylibSceneRenderConfig \<Rightarrow> int \<Rightarrow> int \<Rightarrow> 'f draw_call list" where
  "draw_tile F config tileX tileY =
     (let x = of_int tileX * cg_tileSizePixels config;
          y = of_int tileY * cg_tileSizePixels config;
          fill = (if (tileX + tileY) mod 2 = 0 then Color 42 53 45 255 else Color 37 47 41 255)
      in [DrawRectangle x y (cg_tileSizePixels config) (cg_tileSizePixels config) fill,
          DrawRectangleLinesEx \<lparr>rc_x = fl_i32 F x, rc_y = fl_i32 F y,
            rc_width = fl_i32 F (cg_tileSizePixels config), rc_height = fl_i32 F (cg_tileSizePixels config)\<rparr>
            (fl_nat F 1) (Color 57 68 58 135)])"

text \<open>The two loops; their indices stay within the map, so they are plain integers here.\<close>

definition draw_tiles :: "'f float_ops \<Rightarrow> 'f RaylibSceneRenderConfig \<Rightarrow> i32 \<times> i32 \<Rightarrow> i32 \<times> i32 \<Rightarrow> 'f draw_call list" where
  "draw_tiles F config xs ys =
     concat (map (\<lambda>tileY. concat (map (\<lambda>tileX. draw_tile F config tileX tileY) [sint (fst xs) .. sint (snd xs)]))
       [sint (fst ys) .. sint (snd ys)])"

definition visible_tiles ::
    "'f float_ops \<Rightarrow> 'f camera2d \<Rightarrow> 'f RaylibSceneRenderConfig \<Rightarrow> (i32 \<times> i32) \<times> (i32 \<times> i32)" where
  "visible_tiles F camera config =
     (let halfWidth = fl_div F (fl_mul F (fl_i32 F (cg_viewportWidth config)) (fl_ratio F 1 2)) (cm_zoom camera);
          halfHeight = fl_div F (fl_mul F (fl_i32 F (cg_viewportHeight config)) (fl_ratio F 1 2)) (cm_zoom camera);
          (targetX, targetY) = cm_target camera;
          tileSize = fl_i32 F (cg_tileSizePixels config);
          minWorldX = fl_sub F (fl_sub F targetX halfWidth) tileSize;
          minWorldY = fl_sub F (fl_sub F targetY halfHeight) tileSize;
          maxWorldX = fl_add F (fl_add F targetX halfWidth) tileSize;
          maxWorldY = fl_add F (fl_add F targetY halfHeight) tileSize
      in (tile_range F minWorldX maxWorldX (cg_tileSizePixels config) (cg_mapWidthTiles config),
          tile_range F minWorldY maxWorldY (cg_tileSizePixels config) (cg_mapHeightTiles config)))"

definition DrawTileMap :: "'f float_ops \<Rightarrow> 'f camera2d \<Rightarrow> 'f RaylibSceneRenderConfig \<Rightarrow> 'f draw_call list" where
  "DrawTileMap F camera config =
     (let worldWidth = cg_mapWidthTiles config * cg_tileSizePixels config;
          worldHeight = cg_mapHeightTiles config * cg_tileSizePixels config;
          (tilesX, tilesY) = visible_tiles F camera config
      in draw_tiles F config tilesX tilesY
         @ [DrawRectangleLinesEx \<lparr>rc_x = fl_nat F 0, rc_y = fl_nat F 0, rc_width = fl_i32 F worldWidth,
              rc_height = fl_i32 F worldHeight\<rparr> (fl_nat F 4) (Color 96 118 86 255)])"

definition DrawHealthBar :: "'f float_ops \<Rightarrow> ViewEntity \<Rightarrow> 'f vector2 \<Rightarrow> 'f draw_call list" where
  "DrawHealthBar F entity position =
     (if sint (ve_maxHealth entity) \<le> 0 \<or> ve_kind entity \<noteq> View_Player then []
      else
      let barWidth = fl_nat F 58; barHeight = fl_nat F 7;
          healthRatio = fl_clamp F (fl_div F (fl_i32 F (ve_health entity)) (fl_i32 F (ve_maxHealth entity)))
                          (fl_nat F 0) (fl_nat F 1);
          x = fl_sub F (fst position) (fl_mul F barWidth (fl_ratio F 1 2));
          y = fl_sub F (snd position) (fl_nat F 48)
      in [DrawRectangleRounded \<lparr>rc_x = x, rc_y = y, rc_width = barWidth, rc_height = barHeight\<rparr>
            (fl_ratio F 45 100) 4 (Color 15 19 21 220),
          DrawRectangleRounded \<lparr>rc_x = x, rc_y = y, rc_width = fl_mul F barWidth healthRatio, rc_height = barHeight\<rparr>
            (fl_ratio F 45 100) 4
            (if fl_less F (fl_ratio F 1 2) healthRatio then Color 109 220 128 255 else Color 255 159 83 255)])"

definition player_marks :: "'f float_ops \<Rightarrow> ViewEntity \<Rightarrow> 'f vector2 \<Rightarrow> 'f draw_call list" where
  "player_marks F entity position =
     (case position of (px, py) \<Rightarrow>
        (if ve_weaponWarming entity \<and> \<not> ve_defeated entity
         then [DrawCircleLines (fl_to_i32 F px) (fl_to_i32 F py) (fl_nat F 28) (Color 255 212 101 255)] else [])
        @ (if \<not> ve_defeated entity
           then [DrawLineEx position
                   (fl_add F px (fl_mul F (fl_of_int F (sint (ve_aimX entity))) (fl_ratio F 55 1000)),
                    fl_add F py (fl_mul F (fl_of_int F (sint (ve_aimY entity))) (fl_ratio F 55 1000)))
                   (fl_nat F 4) RAYWHITE]
           else [DrawLineEx (fl_sub F px (fl_nat F 12), fl_sub F py (fl_nat F 12))
                   (fl_add F px (fl_nat F 12), fl_add F py (fl_nat F 12)) (fl_nat F 4) RAYWHITE,
                 DrawLineEx (fl_add F px (fl_nat F 12), fl_sub F py (fl_nat F 12))
                   (fl_sub F px (fl_nat F 12), fl_add F py (fl_nat F 12)) (fl_nat F 4) RAYWHITE]))"

definition DrawPlayer :: "'f float_ops \<Rightarrow> ViewEntity \<Rightarrow> 'f vector2 \<Rightarrow> 'f draw_call list" where
  "DrawPlayer F entity position =
     (let color = (if ve_defeated entity then Color 93 98 103 190 else ColorForRole (ve_role entity))
      in [DrawCircleV position (fl_nat F 24) (Color 12 16 18 155), DrawCircleV position (fl_nat F 20) color]
         @ player_marks F entity position
         @ DrawHealthBar F entity position
         @ [DrawText (''P'' @ decimal_u32 (ve_ownerClientId entity))
              (fl_to_i32 F (fl_sub F (fst position) (fl_nat F 17)))
              (fl_to_i32 F (fl_sub F (snd position) (fl_nat F 72))) 18 RAYWHITE])"

definition draw_projectile :: "'f float_ops \<Rightarrow> 'f vector2 \<Rightarrow> 'f draw_call list" where
  "draw_projectile F position =
     [DrawCircleV position (fl_nat F 7) (Color 255 208 85 255),
      DrawCircleLines (fl_to_i32 F (fst position)) (fl_to_i32 F (snd position)) (fl_nat F 10) (Color 92 60 24 255)]"

definition DrawEffect :: "'f float_ops \<Rightarrow> ViewEffect \<Rightarrow> 'f draw_call list" where
  "DrawEffect F effect =
     (let px = ToPixels F (vf_x effect); py = ToPixels F (vf_y effect);
          progress = fl_div F (fl_of_int F (uint (vf_progressPermille effect))) (fl_nat F 1000);
          alpha = fl_to_u8 F (fl_clamp F (fl_mul F (fl_sub F (fl_nat F 1) progress) (fl_nat F 255)) (fl_nat F 0) (fl_nat F 255));
          ring = (\<lambda>inner outer. fl_add F (fl_nat F inner) (fl_mul F progress (fl_nat F outer)));
          circle = (\<lambda>radius c. DrawCircleLines (fl_to_i32 F px) (fl_to_i32 F py) radius c)
      in case vf_kind effect of
           PredictedFire \<Rightarrow>
             [circle (ring 24 42) (Color 255 222 112 alpha),
              DrawLineEx (px, py) (fl_add F px (fl_nat F 44), py) (fl_nat F 3) (Color 255 222 112 alpha)]
         | AuthoritativeHit \<Rightarrow>
             circle (ring 18 34) (Color 255 129 72 alpha)
             # (if sint (vf_amount effect) > 0
                then [DrawText (''-'' @ decimal_int (sint (vf_amount effect)))
                        (fl_to_i32 F (fl_sub F px (fl_nat F 14)))
                        (fl_to_i32 F (fl_sub F (fl_sub F py (fl_nat F 58)) (fl_mul F progress (fl_nat F 24))))
                        18 (Color 255 218 170 alpha)]
                else [])
         | AuthoritativeDeath \<Rightarrow>
             let radius = ring 26 64; arm = fl_mul F radius (fl_ratio F 35 100)
             in [circle radius (Color 255 85 85 alpha),
                 DrawLineEx (fl_sub F px arm, fl_sub F py arm) (fl_add F px arm, fl_add F py arm) (fl_nat F 4)
                   (Color 255 85 85 alpha),
                 DrawLineEx (fl_add F px arm, fl_sub F py arm) (fl_sub F px arm, fl_add F py arm) (fl_nat F 4)
                   (Color 255 85 85 alpha)]
         | AuthoritativeRespawn \<Rightarrow> [circle (ring 18 58) (Color 112 234 190 alpha)]
         | PredictionCorrection \<Rightarrow>
             let radius = ring 16 22
             in [DrawRectangleLinesEx \<lparr>rc_x = fl_sub F px radius, rc_y = fl_sub F py radius,
                   rc_width = fl_mul F radius (fl_nat F 2), rc_height = fl_mul F radius (fl_nat F 2)\<rparr>
                   (fl_nat F 2) (Color 83 209 255 alpha)])"

definition draw_entity :: "'f float_ops \<Rightarrow> ViewEntity \<Rightarrow> 'f draw_call list" where
  "draw_entity F entity =
     (let position = PositionFor F entity
      in if ve_kind entity = View_Projectile then draw_projectile F position else DrawPlayer F entity position)"

definition scene_camera :: "'f float_ops \<Rightarrow> ClientViewFrame \<Rightarrow> 'f RaylibSceneRenderConfig \<Rightarrow> 'f camera2d" where
  "scene_camera F view config =
     \<lparr>cm_offset = (fl_mul F (fl_i32 F (cg_viewportWidth config)) (fl_ratio F 1 2),
                   fl_mul F (fl_i32 F (cg_viewportHeight config)) (fl_ratio F 1 2)),
      cm_target = CameraTargetFor F view config, cm_rotation = fl_nat F 0, cm_zoom = cg_zoom config\<rparr>"

definition DrawRaylibScene :: "'f float_ops \<Rightarrow> ClientViewFrame \<Rightarrow> 'f RaylibSceneRenderConfig \<Rightarrow> 'f draw_call list" where
  "DrawRaylibScene F view config =
     (let camera = scene_camera F view config
      in [BeginMode2D camera] @ DrawTileMap F camera config
         @ concat (map (draw_entity F) (vw_entities view))
         @ concat (map (DrawEffect F) (vw_effects view)) @ [EndMode2D])"

section \<open>The debug overlay\<close>

fun ConnectionStateName :: "ClientConnectionState \<Rightarrow> string" where
  "ConnectionStateName CS_Disconnected = ''Disconnected''"
| "ConnectionStateName CS_Connecting = ''Connecting''"
| "ConnectionStateName CS_AwaitingSpawn = ''Awaiting spawn''"
| "ConnectionStateName CS_Connected = ''Connected''"
| "ConnectionStateName CS_LocalPreview = ''Local preview''"

definition overlay_header :: "ClientViewFrame \<Rightarrow> 'f draw_call list" where
  "overlay_header view =
     (let stats = vw_stats view; session = at_session stats; presentation = vw_presentation view
      in [DrawText ''Raylib Multiplayer Scaffold'' 24 24 24 RAYWHITE,
          DrawText ''Client view renders a view model, not raw networking/server state.'' 24 56 18 LIGHTGRAY,
          DrawText (''Tick: '' @ decimal (unat (at_fixedTick stats)) @ '' | Entities: '' @ decimal (at_entityCount stats)
            @ '' | Unacked: '' @ decimal (at_unackedInputCount stats)
            @ '' | Snapshot: '' @ decimal_u32 (ss_lastSnapshotId session)) 24 84 18 LIGHTGRAY,
          DrawText (''Presentation: '' @ decimal_u32 (pf_fromSnapshotId presentation) @ '' -> ''
            @ decimal_u32 (pf_toSnapshotId presentation) @ '' | alpha ''
            @ decimal (unat (pf_alphaPermille presentation)) @ ''/1000'') 24 110 18 LIGHTGRAY,
          DrawText (''Connection: '' @ ConnectionStateName (ss_connectionState session)
            @ '' | Snapshot ACKs: '' @ decimal (ss_snapshotAcksSent session)
            @ '' | Reliable event ACKs: '' @ decimal (ss_reliableEventAcksSent session)) 24 136 18 LIGHTGRAY])"

text \<open>The loop over the event lines: a line is drawn, then the loop stops at the lower margin.\<close>

fun draw_event_lines :: "i32 \<Rightarrow> i32 \<Rightarrow> string list \<Rightarrow> 'f draw_call list" where
  "draw_event_lines viewportHeight eventY [] = []"
| "draw_event_lines viewportHeight eventY (line # rest) =
     DrawText line 24 eventY 16 (Color 255 236 179 255)
     # (if sint (eventY + 22) > sint (viewportHeight - 32) then []
        else draw_event_lines viewportHeight (eventY + 22) rest)"

definition DrawRaylibDebugOverlay :: "ClientViewFrame \<Rightarrow> i32 \<Rightarrow> 'f draw_call list" where
  "DrawRaylibDebugOverlay view viewportHeight =
     overlay_header view @ draw_event_lines viewportHeight 180 (vw_eventLines view)"

section \<open>What is drawn\<close>

text \<open>The lines that fit between the first line and the lower margin, at least one.\<close>

definition lines_that_fit :: "i32 \<Rightarrow> i32 \<Rightarrow> nat" where
  "lines_that_fit viewportHeight eventY = (if sint viewportHeight < sint eventY + 54 then 1
     else Suc (nat ((sint viewportHeight - sint eventY - 32) div 22)))"

lemma draw_event_lines_exact:
  assumes "sint eventY \<ge> 0" and "sint viewportHeight \<ge> 0" and "sint eventY + 22 < 2 ^ 31"
  shows "(draw_event_lines viewportHeight eventY lines :: 'f draw_call list) =
     map (\<lambda>(i, line). DrawText line 24 (eventY + 22 * of_nat i) 16 (Color 255 236 179 255))
       (enumerate 0 (take (lines_that_fit viewportHeight eventY) lines))"
  using assms
proof (induction lines arbitrary: eventY)
  case (Cons line rest)
  have y: "sint (eventY + 22) = sint eventY + 22"
    using Cons.prems sint_add_i32 [of eventY 22] by simp
  have v: "sint (viewportHeight - 32) = sint viewportHeight - 32"
    using Cons.prems sint_i32_range [of viewportHeight] sint_add_i32 [of viewportHeight "- 32"] by simp
  show ?case
  proof (cases "sint viewportHeight < sint eventY + 54")
    case True
    then show ?thesis by (simp add: y v lines_that_fit_def)
  next
    case False
    then have fit: "lines_that_fit viewportHeight eventY = Suc (lines_that_fit viewportHeight (eventY + 22))"
      by (auto simp: lines_that_fit_def y Suc_nat_eq_nat_zadd1)
    have "(draw_event_lines viewportHeight (eventY + 22) rest :: 'f draw_call list) =
      map (\<lambda>(i, line). DrawText line 24 (eventY + 22 + 22 * of_nat i) 16 (Color 255 236 179 255))
        (enumerate 0 (take (lines_that_fit viewportHeight (eventY + 22)) rest))"
      using Cons.IH [of "eventY + 22"] Cons.prems False y sint_i32_range [of viewportHeight] by simp
    also have "\<dots> = map (\<lambda>(i, line). DrawText line 24 (eventY + 22 * of_nat i) 16 (Color 255 236 179 255))
        (enumerate 1 (take (lines_that_fit viewportHeight (eventY + 22)) rest))"
      by (simp add: enumerate_Suc_eq algebra_simps comp_def case_prod_unfold)
    finally show ?thesis using False by (simp add: fit y v)
  qed
qed simp

end
