(* ===== verification/Client_Host.thy ===== *)
theory Client_Host
  imports Client_Frame Scene_Renderer
begin

text \<open>
  \<open>src/Client/src/RaylibClientHost.cpp\<close>, \<open>RaylibGameView.cpp\<close>, \<open>main.cpp\<close> and \<open>browser_main.cpp\<close>: the
  window, its input and the loop over its frames.

  The window library, the mouse and keyboard and the wall clock are outside the program. They are a state
  \<open>'w\<close> of the outside world with the library's functions on it, the parameter \<open>raylib_ops\<close>; what the program
  relies on is \<open>raylib_laws\<close>.
\<close>

section \<open>The outside world\<close>

datatype key = KEY_D | KEY_A | KEY_S | KEY_W

text \<open>
  \<open>rl_now w i\<close> is what the steady clock reads, in milliseconds, the \<open>i\<close>-th time it is asked from \<open>w\<close> on; the
  mouse button is the left one.
\<close>

record ('w, 'f) raylib_ops =
  rl_InitWindow :: "i32 \<Rightarrow> i32 \<Rightarrow> string \<Rightarrow> 'w \<Rightarrow> 'w"
  rl_SetTargetFPS :: "i32 \<Rightarrow> 'w \<Rightarrow> 'w"
  rl_CloseWindow :: "'w \<Rightarrow> 'w"
  rl_WindowShouldClose :: "'w \<Rightarrow> bool \<times> 'w"
  rl_GetFrameTime :: "'w \<Rightarrow> 'f"
  rl_IsKeyDown :: "key \<Rightarrow> 'w \<Rightarrow> bool"
  rl_IsMouseButtonPressed :: "'w \<Rightarrow> bool"
  rl_GetMousePosition :: "'w \<Rightarrow> 'f vector2"
  rl_draw :: "'f draw_call \<Rightarrow> 'w \<Rightarrow> 'w"
  rl_now :: "'w \<Rightarrow> nat \<Rightarrow> TimestampMs"

text \<open>
  \<open>drawn w\<close> is what has been drawn so far and \<open>frames_left w\<close> the number of frames after which, at the
  latest, the user has asked to close the window. A drawing call adds itself to the drawing; the other calls
  draw nothing.
\<close>

definition raylib_laws :: "('w, 'f) raylib_ops \<Rightarrow> ('w \<Rightarrow> 'f draw_call list) \<Rightarrow> ('w \<Rightarrow> nat) \<Rightarrow> bool" where
  "raylib_laws R drawn frames_left \<longleftrightarrow>
     (\<forall>c w. drawn (rl_draw R c w) = drawn w @ [c]
        \<and> frames_left (rl_draw R c w) = (if c = EndDrawing then frames_left w - 1 else frames_left w))
     \<and> (\<forall>w. drawn (snd (rl_WindowShouldClose R w)) = drawn w
          \<and> frames_left (snd (rl_WindowShouldClose R w)) = frames_left w
          \<and> (frames_left w = 0 \<longrightarrow> fst (rl_WindowShouldClose R w)))
     \<and> (\<forall>x y t w. drawn (rl_InitWindow R x y t w) = drawn w \<and> frames_left (rl_InitWindow R x y t w) = frames_left w)
     \<and> (\<forall>n w. drawn (rl_SetTargetFPS R n w) = drawn w \<and> frames_left (rl_SetTargetFPS R n w) = frames_left w)
     \<and> (\<forall>w. drawn (rl_CloseWindow R w) = drawn w)"

section \<open>The view\<close>

record RaylibClientHostConfig =
  rh_width :: i32
  rh_height :: i32
  rh_title :: string

definition default_HostWindow :: RaylibClientHostConfig where
  "default_HostWindow = \<lparr>rh_width = 1280, rh_height = 720, rh_title = ''Raylib Multiplayer Scaffold''\<rparr>"

definition OpenView :: "('w, 'f) raylib_ops \<Rightarrow> RaylibClientHostConfig \<Rightarrow> 'w \<Rightarrow> 'w" where
  "OpenView R config w = rl_SetTargetFPS R 144 (rl_InitWindow R (rh_width config) (rh_height config) (rh_title config) w)"

definition ClampAim :: "'f float_ops \<Rightarrow> 'f \<Rightarrow> i16" where
  "ClampAim F v = fl_to_i16 F (fl_clamp F v (fl_minus F 1000) (fl_nat F 1000))"

definition pressed :: "('w, 'f) raylib_ops \<Rightarrow> key \<Rightarrow> 'w \<Rightarrow> i8" where
  "pressed R k w = (if rl_IsKeyDown R k w then 1 else 0)"

definition SampleInput ::
    "('w, 'f) raylib_ops \<Rightarrow> 'f float_ops \<Rightarrow> RaylibClientHostConfig \<Rightarrow> 'w \<Rightarrow> InputFrame" where
  "SampleInput R F config w =
     (let input = default_InputFrame\<lparr>if_moveX := pressed R KEY_D w - pressed R KEY_A w,
                    if_moveY := pressed R KEY_S w - pressed R KEY_W w,
                    if_fire := rl_IsMouseButtonPressed R w\<rparr>;
          (mouseX, mouseY) = rl_GetMousePosition R w;
          dx = fl_sub F mouseX (fl_mul F (fl_i32 F (rh_width config)) (fl_ratio F 1 2));
          dy = fl_sub F mouseY (fl_mul F (fl_i32 F (rh_height config)) (fl_ratio F 1 2));
          len = fl_sqrt F (fl_add F (fl_mul F dx dx) (fl_mul F dy dy))
      in if fl_less F (fl_ratio F 1 1000) len
         then input\<lparr>if_aimX := ClampAim F (fl_mul F (fl_div F dx len) (fl_nat F 1000)),
                    if_aimY := ClampAim F (fl_mul F (fl_div F dy len) (fl_nat F 1000))\<rparr>
         else input)"

definition Render :: "'f float_ops \<Rightarrow> RaylibClientHostConfig \<Rightarrow> ClientViewFrame \<Rightarrow> 'f draw_call list" where
  "Render F config view =
     (let sceneConfig = (default_SceneConfig F)\<lparr>cg_viewportWidth := rh_width config, cg_viewportHeight := rh_height config\<rparr>
      in [BeginDrawing, ClearBackground (Color 24 28 33 255)] @ DrawRaylibScene F view sceneConfig
         @ DrawRaylibDebugOverlay view (rh_height config) @ [EndDrawing])"

section \<open>The host\<close>

definition new_client_host :: "'f float_ops \<Rightarrow> ('s, 'r) ClientApplication \<Rightarrow> ('s, 'r, 'f) client_host" where
  "new_client_host F app = \<lparr>ho_app = app, ho_fixedStep = new_FixedStepClock F (default_FixedStepClockConfig F),
     ho_eventLog = new_ClientEventLog F, ho_visualEffectLog = new_ClientVisualEffectLog\<rparr>"

text \<open>One frame: what is asked of the world, the frame itself, and its drawing.\<close>

definition window_frame ::
    "('w, 'f) raylib_ops \<Rightarrow> 'f float_ops \<Rightarrow> 'r entt_ops \<Rightarrow> ('s, 'r) session_ops \<Rightarrow> RaylibClientHostConfig
     \<Rightarrow> ('s, 'r, 'f) client_host \<times> 'w \<Rightarrow> (('s, 'r, 'f) client_host \<times> 'w) option" where
  "window_frame R F E S config = (\<lambda>(h, w). do {
     (view, h) \<leftarrow> RunFrame F E S (rl_GetFrameTime R w) (SampleInput R F config w) (rl_now R w) h;
     Some (h, fold (rl_draw R) (Render F config view) w)
   })"

partial_function (option) window_loop ::
    "('w, 'f) raylib_ops \<Rightarrow> 'f float_ops \<Rightarrow> 'r entt_ops \<Rightarrow> ('s, 'r) session_ops \<Rightarrow> RaylibClientHostConfig
     \<Rightarrow> ('s, 'r, 'f) client_host \<times> 'w \<Rightarrow> (('s, 'r, 'f) client_host \<times> 'w) option" where
  "window_loop R F E S config st =
     (let (close, w) = rl_WindowShouldClose R (snd st)
      in if close then Some (fst st, w)
         else Option.bind (window_frame R F E S config (fst st, w)) (window_loop R F E S config))"

definition Run ::
    "('w, 'f) raylib_ops \<Rightarrow> 'f float_ops \<Rightarrow> 'r entt_ops \<Rightarrow> ('s, 'r) session_ops \<Rightarrow> RaylibClientHostConfig
     \<Rightarrow> ('s, 'r, 'f) client_host \<times> 'w \<Rightarrow> (int \<times> ('s, 'r, 'f) client_host \<times> 'w) option" where
  "Run R F E S config = (\<lambda>(h, w). do {
     (connected, app) \<leftarrow> Application_Connect E S (rl_now R w 0) (ho_app h);
     let h = h\<lparr>ho_app := app\<rparr>;
     if \<not> connected then Some (1, h, w)
     else do {
       (h, w) \<leftarrow> window_loop R F E S config (h, OpenView R config w);
       Some (0, h, rl_CloseWindow R w)
     }
   })"

text \<open>The desktop program.\<close>

definition client_main ::
    "('w, 'f) raylib_ops \<Rightarrow> 'f float_ops \<Rightarrow> 'r entt_ops \<Rightarrow> aim_at \<Rightarrow> 'w
     \<Rightarrow> (int \<times> ('r InProcessClientSession, 'r, 'f) client_host \<times> 'w) option" where
  "client_main R F E aim w =
     (let session = new_InProcessClientSession default_InProcessConfig;
          app = new_ClientApplication E (Some session) \<lparr>ca_localClientId = 1\<rparr>
      in Run R F E (in_process_session E aim) default_HostWindow (new_client_host F app, w))"

text \<open>
  In the browser the host hands \<open>RunBrowserFrame\<close> to the browser's main loop and never gets control back;
  the browser calls it once for each frame it shows.
\<close>

definition Run_browser ::
    "('w, 'f) raylib_ops \<Rightarrow> 'f float_ops \<Rightarrow> 'r entt_ops \<Rightarrow> ('s, 'r) session_ops \<Rightarrow> RaylibClientHostConfig
     \<Rightarrow> ('s, 'r) ClientApplication \<Rightarrow> 'w \<Rightarrow> (bool \<times> ('s, 'r, 'f) client_host \<times> 'w) option" where
  "Run_browser R F E S config app w = do {
     (connected, app) \<leftarrow> Application_Connect E S (rl_now R w 0) app;
     Some (connected, new_client_host F app, if connected then OpenView R config w else w)
   }"

fun browser_frames ::
    "('w, 'f) raylib_ops \<Rightarrow> 'f float_ops \<Rightarrow> 'r entt_ops \<Rightarrow> ('s, 'r) session_ops \<Rightarrow> RaylibClientHostConfig
     \<Rightarrow> nat \<Rightarrow> ('s, 'r, 'f) client_host \<times> 'w \<Rightarrow> (('s, 'r, 'f) client_host \<times> 'w) option" where
  "browser_frames R F E S config 0 st = Some st"
| "browser_frames R F E S config (Suc n) st =
     Option.bind (window_frame R F E S config st) (browser_frames R F E S config n)"

definition browser_main ::
    "('w, 'f) raylib_ops \<Rightarrow> 'f float_ops \<Rightarrow> 'r entt_ops \<Rightarrow> 'w
     \<Rightarrow> (bool \<times> (LocalPreviewClientSession, 'r, 'f) client_host \<times> 'w) option" where
  "browser_main R F E w =
     (let app = new_ClientApplication E (Some \<lparr>lp_stats = zero_ClientSessionStats\<rparr>) \<lparr>ca_localClientId = 1\<rparr>
      in Run_browser R F E preview_session
           \<lparr>rh_width = 1280, rh_height = 720, rh_title = ''Raylib Multiplayer Scaffold - Browser Preview''\<rparr> app w)"

section \<open>The drawing protocol\<close>

text \<open>
  Drawing happens between \<open>BeginDrawing\<close> and \<open>EndDrawing\<close>, and a camera is set and unset in between. A step
  has no value where the library would be used against its protocol.
\<close>

datatype draw_mode = Outside | Screen | World

fun draw_step :: "'f draw_call \<Rightarrow> draw_mode \<Rightarrow> draw_mode option" where
  "draw_step BeginDrawing m = (if m = Outside then Some Screen else None)"
| "draw_step EndDrawing m = (if m = Screen then Some Outside else None)"
| "draw_step (BeginMode2D c) m = (if m = Screen then Some World else None)"
| "draw_step EndMode2D m = (if m = World then Some Screen else None)"
| "draw_step _ m = (if m = Outside then None else Some m)"

fun draw_modes :: "'f draw_call list \<Rightarrow> draw_mode \<Rightarrow> draw_mode option" where
  "draw_modes [] m = Some m"
| "draw_modes (c # cs) m = Option.bind (draw_step c m) (draw_modes cs)"

lemma draw_modes_append: "draw_modes (cs @ ds) m = Option.bind (draw_modes cs m) (draw_modes ds)"
  by (induction cs arbitrary: m) (auto split: bind_splits)

text \<open>The calls that only draw.\<close>

fun plain :: "'f draw_call \<Rightarrow> bool" where
  "plain BeginDrawing = False" | "plain EndDrawing = False" | "plain (BeginMode2D c) = False"
| "plain EndMode2D = False" | "plain _ = True"

lemma draw_modes_plain: "list_all plain cs \<Longrightarrow> m \<noteq> Outside \<Longrightarrow> draw_modes cs m = Some m"
proof (induction cs)
  case (Cons c cs)
  then show ?case by (cases c) simp_all
qed simp

lemma plain_tiles: "list_all plain (DrawTileMap F camera config)"
  by (auto simp: DrawTileMap_def draw_tiles_def draw_tile_def list_all_iff split_def Let_def)

lemma plain_entity: "list_all plain (draw_entity F e)"
  by (auto simp: draw_entity_def draw_projectile_def DrawPlayer_def player_marks_def DrawHealthBar_def
      list_all_iff Let_def split_def)

lemma plain_effect: "list_all plain (DrawEffect F e)"
  by (auto simp: DrawEffect_def list_all_iff Let_def split: ViewEffectKind.splits)

lemma plain_event_lines: "list_all plain (draw_event_lines h y lines)"
  by (induction lines arbitrary: y) auto

lemma plain_concat: "(\<And>x. list_all plain (f x)) \<Longrightarrow> list_all plain (concat (map f xs))"
  by (induction xs) auto

lemma plain_overlay: "list_all plain (DrawRaylibDebugOverlay view h)"
  by (simp add: DrawRaylibDebugOverlay_def overlay_header_def plain_event_lines Let_def)

text \<open>A scene keeps to the protocol, and the overlay and the brackets of a frame around it.\<close>

lemmas plain_parts = draw_modes_plain [OF plain_tiles] draw_modes_plain [OF plain_concat [OF plain_entity]]
  draw_modes_plain [OF plain_concat [OF plain_effect]] draw_modes_plain [OF plain_overlay]

lemma scene_protocol: "draw_modes (DrawRaylibScene F view config) Screen = Some Screen"
  by (simp add: DrawRaylibScene_def draw_modes_append plain_parts Let_def)

lemma render_protocol: "draw_modes (Render F config view) Outside = Some Outside"
  by (simp add: Render_def draw_modes_append plain_parts scene_protocol Let_def)

lemma renders_protocol: "draw_modes (concat (map (Render F config) views)) Outside = Some Outside"
  by (induction views) (simp_all add: draw_modes_append render_protocol)

text \<open>A rendered frame ends its drawing exactly once, as its last call.\<close>

lemma plain_not_end: "list_all plain cs \<Longrightarrow> EndDrawing \<notin> set cs"
  by (auto simp: list_all_iff)

lemma render_ends_once:
  obtains cs where "Render F config view = cs @ [EndDrawing]" and "EndDrawing \<notin> set cs"
proof -
  let ?scene = "(default_SceneConfig F)\<lparr>cg_viewportWidth := rh_width config, cg_viewportHeight := rh_height config\<rparr>"
  let ?cs = "[BeginDrawing, ClearBackground (Color 24 28 33 255)] @ DrawRaylibScene F view ?scene
    @ DrawRaylibDebugOverlay view (rh_height config)"
  have "EndDrawing \<notin> set (DrawRaylibScene F view ?scene)"
    by (simp add: DrawRaylibScene_def Let_def plain_not_end [OF plain_tiles] plain_not_end [OF plain_entity]
        plain_not_end [OF plain_effect])
  then have "EndDrawing \<notin> set ?cs" by (simp add: plain_not_end [OF plain_overlay])
  then show thesis by (rule that [rotated]) (simp add: Render_def Let_def)
qed

end
