(* ===== verification/Kcp_Pumped_Contract.thy ===== *)
theory Kcp_Pumped_Contract
  imports Kcp_Pumped
begin

text \<open>
  \<open>KcpRtcPumpedTransport\<close> as an \<open>ITransport\<close>: on backends that keep their contracts its operations
  always return, so the virtual functions are total, and it keeps the contract \<open>transport\<close> that the
  client's sessions and the server's host rely on.
\<close>

section \<open>What a pump does to the envelopes received\<close>

lemma ReceiveSignalingMessage_envelopes [simp]:
  "kt_incomingEnvelopes (snd (ReceiveSignalingMessage m t)) = kt_incomingEnvelopes t"
  by (simp add: ReceiveSignalingMessage_def rejected_def QueueSignal_def TransitionToConnected_def Let_def
      split: RtcSignalingMessageKind.splits)

lemma ReceiveFrame_envelopes:
  "length (kt_incomingEnvelopes (snd (ReceiveFrame f t))) \<le> Suc (length (kt_incomingEnvelopes t))"
  by (simp add: ReceiveFrame_def receive_failure_def Let_def split: option.splits)

lemma ReceiveFrame_state [simp]: "kt_state (snd (ReceiveFrame f t)) = kt_state t"
  by (simp add: ReceiveFrame_def receive_failure_def Let_def split: option.splits)

lemma Notify_envelopes [simp]: "kt_incomingEnvelopes (snd (NotifyDataChannelReady t)) = kt_incomingEnvelopes t"
  by (simp add: NotifyDataChannelReady_def QueueSignal_def TransitionToConnected_def Let_def)

lemma Kcp_Send_envelopes [simp]: "kt_incomingEnvelopes (snd (Kcp_Send e t)) = kt_incomingEnvelopes t"
  by (simp add: Kcp_Send_def kcp_send_failure_def Let_def)

context signaling_client
begin

lemma PumpKcpRtcSignaling_envelopes:
  assumes "PumpKcpRtcSignaling S t c = Some (r, t', c')"
  shows "kt_incomingEnvelopes t' = kt_incomingEnvelopes t"
proof -
  let ?t = "t\<lparr>kt_outgoingSignals := []\<rparr>"
  obtain r1 c1 where s: "fold (send_signal S) (kt_outgoingSignals t) (zero_SignalingPump, ?t, c) = (r1, ?t, c1)"
    using send_signals_keep [of S "kt_outgoingSignals t" zero_SignalingPump c] by blast
  let ?inv = "\<lambda>s :: 'a signaling_pump. kt_incomingEnvelopes (fst (snd s)) = kt_incomingEnvelopes t"
  have "\<exists>s'. poll_loop (poll_client_signal S) receive_signal (r1, ?t, c1) = Some s' \<and> ?inv s' \<and> True"
  proof (rule poll_loop_returns [where m = "\<lambda>s. backlog (snd (snd s))"])
    fix s e s'
    assume inv: "?inv s" and poll: "poll_client_signal S s = (Some e, s')"
    obtain r2 t2 c2 where s: "s = (r2, t2, c2)" by (cases s)
    with poll obtain c3 where c3: "sc_poll S c2 = (Some e, c3)" "s' = (r2, t2, c3)"
      by (auto simp: poll_client_signal_def split: prod.splits)
    from poll_message [OF c3(1)] inv
    show "?inv (receive_signal e s') \<and> backlog (snd (snd (receive_signal e s'))) < backlog (snd (snd s))"
      by (simp add: s c3(2))
  qed (auto simp: poll_client_signal_def split: prod.splits)
  then show ?thesis using assms by (auto simp: PumpKcpRtcSignaling_def send_signals_loop s)
qed

end

context data_channel
begin

text \<open>A frame that is taken out of the channel becomes at most one envelope.\<close>

lemma PumpKcpRtcDataChannel_envelopes:
  assumes "PumpKcpRtcDataChannel C t d = Some (r, t', d')"
  shows "length (kt_incomingEnvelopes t') + length (incoming d') \<le> length (kt_incomingEnvelopes t) + length (incoming d)"
    and "kt_state t' = kt_state t"
proof -
  let ?t = "\<lambda>b. t\<lparr>kt_outgoingFrames := [], kt_bufferedOutgoingFrameBytes := b\<rparr>"
  let ?n = "\<lambda>s :: 'd channel_pump. length (kt_incomingEnvelopes (fst (snd s))) + length (incoming (snd (snd s)))"
  let ?start = "(zero_ChannelPump, t, d)"
  obtain b where loop: "poll_loop poll_transport_frame (send_frame C) ?start
      = Some (fold (send_frame C) (kt_outgoingFrames t) (zero_ChannelPump, ?t b, d))"
    using send_frames_loop [of C zero_ChannelPump t d] by blast
  have "?n (fold (send_frame C) fs (r, u, c)) = ?n (r, u, c) \<and> fst (snd (fold (send_frame C) fs (r, u, c))) = u" for fs r u c
  proof (induction fs arbitrary: r c)
    case (Cons f fs)
    obtain v c1 where c1: "dc_sendFrame C f c = (v, c1)" by fastforce
    then obtain r1 where "send_frame C f (r, u, c) = (r1, u, c1)" by (cases v) (simp_all add: send_frame_def)
    with Cons.IH [of r1 c1] send_frame [OF c1] show ?case by auto
  qed simp
  from this [of "kt_outgoingFrames t" zero_ChannelPump "?t b" d]
  have start: "?n (fold (send_frame C) (kt_outgoingFrames t) (zero_ChannelPump, ?t b, d)) = ?n ?start"
    "kt_state (fst (snd (fold (send_frame C) (kt_outgoingFrames t) (zero_ChannelPump, ?t b, d)))) = kt_state t" by auto
  have "\<exists>s'. poll_loop (poll_channel_frame C) receive_frame
      (fold (send_frame C) (kt_outgoingFrames t) (zero_ChannelPump, ?t b, d)) = Some s' \<and> (?n s' \<le> ?n ?start \<and> kt_state (fst (snd s')) = kt_state t) \<and> True"
  proof (rule poll_loop_returns [where m = "\<lambda>s. length (incoming (snd (snd s)))"])
    fix s e s'
    assume inv: "?n s \<le> ?n ?start \<and> kt_state (fst (snd s)) = kt_state t" and poll: "poll_channel_frame C s = (Some e, s')"
    obtain r2 t2 d2 where s: "s = (r2, t2, d2)" by (cases s)
    with poll obtain d3 where d3: "dc_pollFrame C d2 = (Some e, d3)" "s' = (r2, t2, d3)"
      by (auto simp: poll_channel_frame_def split: prod.splits)
    from poll_frame [OF d3(1)] inv ReceiveFrame_envelopes [of e t2]
    show "(?n (receive_frame e s') \<le> ?n ?start \<and> kt_state (fst (snd (receive_frame e s'))) = kt_state t)
        \<and> length (incoming (snd (snd (receive_frame e s')))) < length (incoming (snd (snd s)))"
      by (simp add: s d3(2))
  next
    fix s s'
    assume "?n s \<le> ?n ?start \<and> kt_state (fst (snd s)) = kt_state t" and "poll_channel_frame C s = (None, s')"
    then show "(?n s' \<le> ?n ?start \<and> kt_state (fst (snd s')) = kt_state t) \<and> True"
      using poll_none by (cases s) (auto simp: poll_channel_frame_def split: prod.splits)
  qed (simp add: start)
  then show "length (kt_incomingEnvelopes t') + length (incoming d') \<le> length (kt_incomingEnvelopes t) + length (incoming d)"
    "kt_state t' = kt_state t" using assms by (auto simp: PumpKcpRtcDataChannel_def loop)
qed

end

section \<open>The virtual functions\<close>

text \<open>The value of an operation that returns; the lemmas below show that there is no other case.\<close>

definition returned :: "'a option \<Rightarrow> 'a \<Rightarrow> 'a" where
  "returned r stuck = (case r of Some x \<Rightarrow> x | None \<Rightarrow> stuck)"

lemma returned_Some [simp]: "returned (Some x) y = x"
  by (simp add: returned_def)

definition pumped_transport ::
    "'c signaling_client_ops \<Rightarrow> 'd data_channel_ops \<Rightarrow> ('c, 'd) KcpRtcPumpedTransport transport_ops" where
  "pumped_transport S C = \<lparr>tp_connect = Pumped_Connect S, tp_update = (\<lambda>p. returned (Pumped_Update S C p) p),
     tp_close = Pumped_Close S, tp_send = (\<lambda>e p. returned (Pumped_Send S C e p) (False, p)),
     tp_poll = (\<lambda>p. returned (Pumped_Poll S C p) (None, p)), tp_state = Pumped_State,
     tp_stats = (\<lambda>p. kt_stats (pt_transport p)), tp_lastError = Pumped_LastError\<rparr>"

section \<open>The contract\<close>

text \<open>The frames and envelopes that are still to be polled.\<close>

definition pumped_backlog :: "('d \<Rightarrow> byte list list) \<Rightarrow> ('c, 'd) KcpRtcPumpedTransport \<Rightarrow> nat" where
  "pumped_backlog incoming p = length (kt_incomingEnvelopes (pt_transport p))
     + (case pt_dataChannel p of None \<Rightarrow> 0 | Some d \<Rightarrow> length (incoming d))"

lemma pumped_backlog_fields [simp]:
  "pumped_backlog incoming (p\<lparr>pt_lastError := e\<rparr>) = pumped_backlog incoming p"
  "pumped_backlog incoming (p\<lparr>pt_signalingClient := c\<rparr>) = pumped_backlog incoming p"
  "pumped_backlog incoming (p\<lparr>pt_readyNotified := b\<rparr>) = pumped_backlog incoming p"
  by (simp_all add: pumped_backlog_def)

context rtc_backends
begin

lemma pump_signaling_backlog:
  "pump_signaling S c p = Some p' \<Longrightarrow> pumped_backlog incoming p' = pumped_backlog incoming p"
  by (auto simp: pump_signaling_def pumped_backlog_def PumpKcpRtcSignaling_envelopes split: bind_splits)

lemma pump_data_channel_backlog:
  "pump_data_channel C d p = Some p' \<Longrightarrow> pt_dataChannel p = Some d \<Longrightarrow>
     pumped_backlog incoming p' \<le> pumped_backlog incoming p"
  using PumpKcpRtcDataChannel_envelopes(1) by (auto simp: pump_data_channel_def pumped_backlog_def split: bind_splits)

lemma NotifyReadyIfPossible_backlog:
  "pumped_backlog incoming (NotifyReadyIfPossible C p) = pumped_backlog incoming p"
proof -
  obtain b t where "NotifyDataChannelReady (pt_transport p) = (b, t)" by fastforce
  with Notify_envelopes [of "pt_transport p"] show ?thesis
    by (auto simp: NotifyReadyIfPossible_def pumped_backlog_def split: option.splits)
qed

lemma Pumped_Update_backlog:
  assumes "Pumped_Update S C p = Some p'" and "pumped_ok p"
  shows "pumped_backlog incoming p' \<le> pumped_backlog incoming p"
proof -
  obtain c d where cd: "pt_signalingClient p = Some c" "pt_dataChannel p = Some d"
    using assms(2) by (auto simp: pumped_ok_def)
  from assms(1) obtain p1 c2 p3 p4 e where p: "pump_signaling S c p = Some p1"
    "pump_signaling S c2 (NotifyReadyIfPossible C p1) = Some p3" "pump_data_channel C d p3 = Some p4"
    "p' = p4\<lparr>pt_lastError := e\<rparr>"
    by (auto simp: Pumped_Update_def cd Let_def split: bind_splits)
  have same: "pt_dataChannel q' = pt_dataChannel q" if "pump_signaling S x q = Some q'" for q q' x
    using that by (auto simp: pump_signaling_def split: bind_splits)
  have "pt_dataChannel (NotifyReadyIfPossible C p1) = pt_dataChannel p1"
    by (auto simp: NotifyReadyIfPossible_def split: option.splits prod.splits)
  then have "pt_dataChannel p3 = Some d" using same [OF p(1)] same [OF p(2)] cd by simp
  from pump_data_channel_backlog [OF p(3) this] show ?thesis
    using pump_signaling_backlog [OF p(1)] pump_signaling_backlog [OF p(2)] NotifyReadyIfPossible_backlog [of p1]
    by (simp add: p(4))
qed

lemma Pumped_Send_contract:
  assumes "Pumped_Send S C e p = Some (b, p')" and "pumped_ok p"
  shows "pumped_backlog incoming p' \<le> pumped_backlog incoming p"
    and "b \<Longrightarrow> valid_envelope e \<and> Pumped_State p' = Connected"
proof -
  obtain p1 where p1: "Pumped_Update S C p = Some p1" "pumped_ok p1" using Pumped_Update_returns [OF assms(2)] by blast
  obtain t where t: "Kcp_Send e (pt_transport p1) = (b, t)"
    using assms(1) by (auto simp: Pumped_Send_def p1(1) Let_def split: prod.splits bind_splits)
  let ?p2 = "p1\<lparr>pt_transport := t\<rparr>"
  obtain d where d: "pt_dataChannel ?p2 = Some d" using p1(2) by (auto simp: pumped_ok_def)
  have two: "pumped_backlog incoming ?p2 = pumped_backlog incoming p1"
    using Kcp_Send_envelopes [of e "pt_transport p1"] by (simp add: pumped_backlog_def t)
  obtain p3 x where p3: "(if b then pump_data_channel C d ?p2 else Some ?p2) = Some p3" "p' = p3\<lparr>pt_lastError := x\<rparr>"
    using assms(1) d by (cases b) (auto simp: Pumped_Send_def p1(1) t Let_def split: bind_splits)
  then show "pumped_backlog incoming p' \<le> pumped_backlog incoming p"
    using pump_data_channel_backlog [OF _ d, of p3] Pumped_Update_backlog [OF p1(1) assms(2)] two
    by (cases b) simp_all
  assume b
  then have sent: "valid_envelope e" "kt_state t = Connected"
    using t by (auto simp: Kcp_Send_def kcp_send_failure_def Let_def split: if_splits)
  with p3 \<open>b\<close> sent show "valid_envelope e \<and> Pumped_State p' = Connected"
    by (auto simp: Pumped_State_def pump_data_channel_def PumpKcpRtcDataChannel_envelopes(2) split: bind_splits)
qed

lemma Pumped_Poll_contract:
  assumes "Pumped_Poll S C p = Some (e, p')" and "pumped_ok p"
  shows "pumped_backlog incoming p' + (if e = None then 0 else 1) \<le> pumped_backlog incoming p"
proof -
  obtain p1 where p1: "Pumped_Update S C p = Some p1" using Pumped_Update_returns [OF assms(2)] by blast
  obtain t where t: "Kcp_Poll (pt_transport p1) = (e, t)" "p' = p1\<lparr>pt_transport := t\<rparr>"
    using assms(1) by (auto simp: Pumped_Poll_def p1 Let_def split: prod.splits)
  have "length (kt_incomingEnvelopes t) + (if e = None then 0 else 1) = length (kt_incomingEnvelopes (pt_transport p1))"
    using t(1) by (auto simp: Kcp_Poll_def split: list.splits)
  then have "pumped_backlog incoming p' + (if e = None then 0 else 1) = pumped_backlog incoming p1"
    by (simp add: pumped_backlog_def t(2))
  then show ?thesis using Pumped_Update_backlog [OF p1 assms(2)] by simp
qed

lemma Pumped_Connect_ok: "pumped_ok p \<Longrightarrow> Pumped_Connect S p = (b, p') \<Longrightarrow> pumped_ok p'"
  using kcp_ok_Connect [of "pt_transport p"]
  by (auto simp: Pumped_Connect_def pumped_ok_def Let_def split: prod.splits if_splits)

lemma Pumped_Close_ok: "pumped_ok p \<Longrightarrow> pumped_ok (Pumped_Close S p)"
  using kcp_ok_Close by (auto simp: Pumped_Close_def pumped_ok_def)

lemma pumped_contract: "transport (pumped_transport S C) pumped_ok (pumped_backlog incoming)"
proof
  show "pumped_ok p'" if "pumped_ok p" "tp_connect (pumped_transport S C) p = (b, p')" for p b p'
    using Pumped_Connect_ok that by (simp add: pumped_transport_def)
  show "pumped_ok (tp_update (pumped_transport S C) p)" "pumped_ok (tp_close (pumped_transport S C) p)" if "pumped_ok p" for p
    using Pumped_Update_returns [OF that] Pumped_Close_ok [OF that] by (auto simp: pumped_transport_def)
  show "pumped_ok p' \<and> pumped_backlog incoming p' \<le> pumped_backlog incoming p"
    if ok: "pumped_ok p" and "tp_send (pumped_transport S C) e p = (b, p')" for p e b p'
    using that(2) Pumped_Send_returns [OF ok, of e] Pumped_Send_contract(1) [OF _ ok, of e]
    by (auto simp: pumped_transport_def)
  show "valid_envelope e \<and> tp_state (pumped_transport S C) p' = Connected"
    if ok: "pumped_ok p" and "tp_send (pumped_transport S C) e p = (True, p')" for p e p'
    using that(2) Pumped_Send_returns [OF ok, of e] Pumped_Send_contract(2) [OF _ ok, of e True p']
    by (auto simp: pumped_transport_def)
  show "pumped_ok p' \<and> pumped_backlog incoming p' \<le> pumped_backlog incoming p"
    if ok: "pumped_ok p" and "tp_poll (pumped_transport S C) p = (None, p')" for p p'
    using that(2) Pumped_Poll_returns [OF ok] Pumped_Poll_contract [OF _ ok, of None p']
    by (auto simp: pumped_transport_def)
  show "pumped_ok p' \<and> valid_envelope e \<and> pumped_backlog incoming p' < pumped_backlog incoming p"
    if ok: "pumped_ok p" and "tp_poll (pumped_transport S C) p = (Some e, p')" for p e p'
    using that(2) Pumped_Poll_returns [OF ok] Pumped_Poll_contract [OF _ ok, of "Some e" p']
    by (auto simp: pumped_transport_def)
qed

end

interpretation in_memory_pumped: transport "pumped_transport in_memory_signaling in_memory_channel" pumped_ok
    "pumped_backlog Channel_Incoming"
  by (rule in_memory_rtc.pumped_contract)

interpretation unsupported_pumped: transport "pumped_transport unsupported_signaling unsupported_channel" pumped_ok
    "pumped_backlog (\<lambda>d. [])"
  by (rule unsupported_rtc.pumped_contract)

text \<open>A new transport with both backends is in a good state.\<close>

lemma pumped_ok_new: "pumped_ok (new_KcpRtcPumpedTransport config (Some c) (Some d))"
  using kcp_ok_new by (simp add: pumped_ok_def new_KcpRtcPumpedTransport_def)

end
