(* ===== verification/Client_Remote.thy ===== *)
theory Client_Remote
  imports Client_App Kcp_Pumped_Contract Multi_Client
begin

text \<open>
  The remote session on the transports of the networking library: on each of them it keeps the session
  contract, so everything shown of a client's application holds for a client that plays over it.
\<close>

interpretation remote_loopback: client_session E "remote_session loopback_transport E" "remote_ok loopback_ok" for E
  by (rule transport.remote_client_session [OF loopback.transport_axioms])

interpretation remote_multi: client_session E "remote_session multi_transport E" "remote_ok multi_ok" for E
  by (rule transport.remote_client_session [OF multi.transport_axioms])

interpretation remote_kcp: client_session E "remote_session kcp_transport E" "remote_ok kcp_ok" for E
  by (rule transport.remote_client_session [OF kcp.transport_axioms])

interpretation remote_pumped: client_session E
    "remote_session (pumped_transport in_memory_signaling in_memory_channel) E" "remote_ok pumped_ok" for E
  by (rule transport.remote_client_session [OF in_memory_pumped.transport_axioms])

text \<open>A client over the data-channel transport returns from every sequence of calls and counts its ticks.\<close>

lemma remote_kcp_run_returns:
  fixes E :: "'r entt_ops"
  assumes "length calls + 1 < 2 ^ 32" and "remote_ok kcp_ok s"
  shows "\<exists>a' sent'. application_run E (remote_session kcp_transport E) calls
       (new_ClientApplication E (Some s) config, []) = Some (a', sent')
     \<and> ap_fixedTick a' = of_nat (app_ticks calls)"
proof -
  have "application_ok (remote_ok kcp_ok) (new_ClientApplication E (Some s) config) []"
    by (rule application_ok_new) (use assms(2) in simp)
  from remote_kcp.application_run_returns [OF this, of calls E] assms(1) show ?thesis
    by (auto simp: new_ClientApplication_def)
qed

end
