(* ===== verification/Programs.thy ===== *)
theory Programs
  imports Client_Remote Client_View Kcp_Pair Kcp_Pumped_Contract
begin

text \<open>
  The programs without a window: \<open>src/Server/src/main.cpp\<close>, and \<open>single_process_main.cpp\<close>,
  \<open>two_client_smoke_main.cpp\<close> and \<open>rtc_smoke_main.cpp\<close> of \<open>src/Client/src\<close>. A program's value is its exit
  code with what it has written to the two output streams; \<open>None\<close> would be a program that does not end.

  Objects that several parts of a program share by reference (the hub, the signaling hub and the channel
  of a transport pair, a transport that a host refers to) are fields of the program's state. A call on a
  part runs with the shared contents filled in, and what it leaves of them is stored back.
\<close>

section \<open>What a program leaves\<close>

record program_exit =
  px_code :: int
  px_out :: string
  px_err :: string

definition line :: "string \<Rightarrow> string" where
  "line s = s @ [CHR 0x0A]"

definition failed_with :: "string \<Rightarrow> program_exit" where
  "failed_with message = \<lparr>px_code = 1, px_out = [], px_err = line message\<rparr>"

section \<open>The server\<close>

definition server_main :: "'r entt_ops \<Rightarrow> program_exit option" where
  "server_main E =
     (let transports = CreatePair no_conditions;
          server = new_ServerApplication (Some (endpoint_of Endpoint_B transports)) default_ServerApplicationConfig;
          (started, server) = Start loopback_transport E server
      in if \<not> started then Some (failed_with ''Failed to start server application'')
         else do {
           server \<leftarrow> RunForTicks loopback_transport E 1 0 server;
           let stats = App_Stats server;
           let server = RequestStop loopback_transport server;
           Some \<lparr>px_code = 0,
             px_out = line (''Server application smoke ran. Ticks: '' @ decimal (unat (as_ticksRun stats))
               @ '', network clients: '' @ decimal (ns_connectedClients (as_network stats))),
             px_err = []\<rparr>
         })"

section \<open>The single-process bridge\<close>

type_synonym 'r in_process_app = "('r InProcessClientSession, 'r) ClientApplication"

definition bridge_input :: "nat \<Rightarrow> InputFrame" where
  "bridge_input tick = default_InputFrame\<lparr>if_moveX := 1, if_fire := (tick = 1)\<rparr>"

definition bridge_tick :: "'r entt_ops \<Rightarrow> aim_at \<Rightarrow> nat \<Rightarrow> 'r in_process_app \<Rightarrow> 'r in_process_app option" where
  "bridge_tick E aim tick app =
     (let S = in_process_session E aim; nowMs = of_nat (tick * 16);
          (packet, app) = Application_SubmitInput S (bridge_input tick) nowMs app
      in do {
        app \<leftarrow> Application_TickFixed E S nowMs app;
        Some (snd (Application_DrainEvents S app))
      })"

text \<open>A counted loop whose body may not end.\<close>

fun for_ticks :: "(nat \<Rightarrow> 's \<Rightarrow> 's option) \<Rightarrow> nat list \<Rightarrow> 's \<Rightarrow> 's option" where
  "for_ticks body [] s = Some s"
| "for_ticks body (tick # ticks) s = Option.bind (body tick s) (for_ticks body ticks)"

definition single_process_main :: "'r entt_ops \<Rightarrow> aim_at \<Rightarrow> program_exit option" where
  "single_process_main E aim =
     (let S = in_process_session E aim;
          app = new_ClientApplication E (Some (new_InProcessClientSession default_InProcessConfig)) \<lparr>ca_localClientId = 1\<rparr>
      in do {
        (connected, app) \<leftarrow> Application_Connect E S 0 app;
        if \<not> connected then Some (failed_with ''Failed to initialize single-process bridge'')
        else do {
          app \<leftarrow> for_ticks (bridge_tick E aim) [0..<30] app;
          let stats = Application_Stats S app;
          Some \<lparr>px_code = 0,
            px_out = line (''Single-process bridge ran. Entities: '' @ decimal (at_entityCount stats)
              @ '', snapshots applied: '' @ decimal (ss_snapshotsApplied (at_session stats))),
            px_err = []\<rparr>
        }
      })"

section \<open>Two clients around a hub\<close>

record CombatEventCounters =
  cc_hits :: nat
  cc_damaged :: nat
  cc_deaths :: nat
  cc_respawns :: nat

definition zero_CombatEvents :: CombatEventCounters where
  "zero_CombatEvents = \<lparr>cc_hits = 0, cc_damaged = 0, cc_deaths = 0, cc_respawns = 0\<rparr>"

fun count_event :: "DomainEvent \<Rightarrow> CombatEventCounters \<Rightarrow> CombatEventCounters" where
  "count_event (HitConfirmed a b c t) k = k\<lparr>cc_hits := cc_hits k + 1\<rparr>"
| "count_event (PlayerDamaged a b d h) k = k\<lparr>cc_damaged := cc_damaged k + 1\<rparr>"
| "count_event (PlayerDied a b t) k = k\<lparr>cc_deaths := cc_deaths k + 1\<rparr>"
| "count_event (PlayerRespawned a x y) k = k\<lparr>cc_respawns := cc_respawns k + 1\<rparr>"
| "count_event _ k = k"

definition CountCombatEvents :: "EventList \<Rightarrow> CombatEventCounters \<Rightarrow> CombatEventCounters" where
  "CountCombatEvents events counters = fold count_event events counters"

definition two_client_input :: "ClientId \<Rightarrow> nat \<Rightarrow> InputFrame" where
  "two_client_input clientId tick = default_InputFrame\<lparr>if_aimX := (if clientId = 1 then 1000 else - 1000),
     if_aimY := 0, if_fire := (tick = 1 \<or> tick = 80 \<or> tick = 160 \<or> tick = 240)\<rparr>"

type_synonym 'r hub_client = "(MultiClientLoopbackTransport RemoteClientSession, 'r) ClientApplication"

record 'r two_client_world =
  tw_hub :: Hub
  tw_host :: "(MultiClientLoopbackTransport, 'r) ServerNetworkHost"
  tw_one :: "'r hub_client"
  tw_two :: "'r hub_client"
  tw_combat :: CombatEventCounters

definition MakeRemoteSession :: "Hub \<Rightarrow> ClientId \<Rightarrow> MultiClientLoopbackTransport RemoteClientSession" where
  "MakeRemoteSession hub clientId = new_RemoteClientSession (Some (CreateClient (Some hub) clientId))"

text \<open>The hub as a part of the program sees it, and as the part leaves it.\<close>

definition with_hub :: "Hub \<Rightarrow> 'r hub_client \<Rightarrow> 'r hub_client" where
  "with_hub hub a = a\<lparr>ap_session := map_option (\<lambda>s. s\<lparr>rm_transport :=
     map_option (\<lambda>t. t\<lparr>mt_hub := Some hub\<rparr>) (rm_transport s)\<rparr>) (ap_session a)\<rparr>"

definition client_hub :: "Hub \<Rightarrow> 'r hub_client \<Rightarrow> Hub" where
  "client_hub hub a = (case Option.bind (ap_session a) rm_transport of Some t \<Rightarrow> hub_of t | None \<Rightarrow> hub)"

definition load_one :: "'r two_client_world \<Rightarrow> 'r hub_client" where
  "load_one w = with_hub (tw_hub w) (tw_one w)"

definition store_one :: "'r hub_client \<Rightarrow> 'r two_client_world \<Rightarrow> 'r two_client_world" where
  "store_one a w = w\<lparr>tw_one := a, tw_hub := client_hub (tw_hub w) a\<rparr>"

definition load_two :: "'r two_client_world \<Rightarrow> 'r hub_client" where
  "load_two w = with_hub (tw_hub w) (tw_two w)"

definition store_two :: "'r hub_client \<Rightarrow> 'r two_client_world \<Rightarrow> 'r two_client_world" where
  "store_two a w = w\<lparr>tw_two := a, tw_hub := client_hub (tw_hub w) a\<rparr>"

definition load_host :: "'r two_client_world \<Rightarrow> (MultiClientLoopbackTransport, 'r) ServerNetworkHost" where
  "load_host w = (tw_host w)\<lparr>nh_transport := (nh_transport (tw_host w))\<lparr>mt_hub := Some (tw_hub w)\<rparr>\<rparr>"

definition store_host ::
    "(MultiClientLoopbackTransport, 'r) ServerNetworkHost \<Rightarrow> 'r two_client_world \<Rightarrow> 'r two_client_world" where
  "store_host h w = w\<lparr>tw_host := h, tw_hub := hub_of (nh_transport h)\<rparr>"

definition two_client_server :: "'r entt_ops \<Rightarrow> TimestampMs \<Rightarrow> 'r two_client_world \<Rightarrow> 'r two_client_world option" where
  "two_client_server E nowMs w = do {
     h \<leftarrow> PumpClientMessages multi_transport E (load_host w);
     let h = TickAndSendSnapshots multi_transport E nowMs h;
     let (events, h) = host_DrainEvents h;
     Some (store_host h (w\<lparr>tw_combat := CountCombatEvents events (tw_combat w)\<rparr>))
   }"

definition two_client_tick :: "'r entt_ops \<Rightarrow> nat \<Rightarrow> 'r two_client_world \<Rightarrow> 'r two_client_world option" where
  "two_client_tick E tick w =
     (let S = remote_session multi_transport E; nowMs = of_nat (tick * 16);
          w = store_one (snd (Application_SubmitInput S (two_client_input 1 tick) nowMs (load_one w))) w;
          w = store_two (snd (Application_SubmitInput S (two_client_input 2 tick) nowMs (load_two w))) w
      in do {
        w \<leftarrow> two_client_server E nowMs w;
        one \<leftarrow> Application_TickFixed E S nowMs (load_one w);
        let w = store_one one w;
        two \<leftarrow> Application_TickFixed E S nowMs (load_two w);
        let w = store_two two w;
        let w = store_one (snd (Application_DrainEvents S (load_one w))) w;
        Some (store_two (snd (Application_DrainEvents S (load_two w))) w)
      })"

definition new_two_client_world :: "'r entt_ops \<Rightarrow> 'r two_client_world" where
  "new_two_client_world E =
     (let hub = CreateHub
      in \<lparr>tw_hub = hub,
          tw_host = new_ServerNetworkHost E (CreateServer (Some hub)) default_HostConfig,
          tw_one = new_ClientApplication E (Some (MakeRemoteSession hub 1)) \<lparr>ca_localClientId = 1\<rparr>,
          tw_two = new_ClientApplication E (Some (MakeRemoteSession hub 2)) \<lparr>ca_localClientId = 2\<rparr>,
          tw_combat = zero_CombatEvents\<rparr>)"

definition two_client_report :: "'r entt_ops \<Rightarrow> 'r two_client_world \<Rightarrow> program_exit" where
  "two_client_report E w =
     (let S = remote_session multi_transport E;
          serverStats = nh_stats (tw_host w);
          clientOneStats = at_session (Application_Stats S (tw_one w));
          clientTwoStats = at_session (Application_Stats S (tw_two w));
          combatEvents = tw_combat w;
          ok = (ns_connectedClients serverStats = 2 \<and> ns_inputsReceived serverStats \<ge> 100
                \<and> ss_snapshotsApplied clientOneStats > 0 \<and> ss_snapshotsApplied clientTwoStats > 0
                \<and> cc_hits combatEvents > 0 \<and> cc_damaged combatEvents > 0)
      in \<lparr>px_code = (if ok then 0 else 1),
          px_out = line (''Two-client smoke ran. Connected clients: '' @ decimal (ns_connectedClients serverStats)
            @ '', inputs: '' @ decimal (ns_inputsReceived serverStats)
            @ '', client snapshots: '' @ decimal (ss_snapshotsApplied clientOneStats)
            @ ''/'' @ decimal (ss_snapshotsApplied clientTwoStats)
            @ '', hits: '' @ decimal (cc_hits combatEvents)
            @ '', damage events: '' @ decimal (cc_damaged combatEvents)
            @ '', deaths: '' @ decimal (cc_deaths combatEvents)
            @ '', respawns: '' @ decimal (cc_respawns combatEvents)),
          px_err = (if ok then [] else line ''Two-client smoke failed expected multiplayer boundary checks'')\<rparr>)"

definition two_client_smoke_main :: "'r entt_ops \<Rightarrow> program_exit option" where
  "two_client_smoke_main E =
     (let S = remote_session multi_transport E; w = new_two_client_world E;
          failed = failed_with ''Failed to connect remote client applications''
      in do {
        (connected, one) \<leftarrow> Application_Connect E S 0 (load_one w);
        let w = store_one one w;
        if \<not> connected then Some failed
        else do {
          (connected, two) \<leftarrow> Application_Connect E S 0 (load_two w);
          let w = store_two two w;
          if \<not> connected then Some failed
          else map_option (two_client_report E) (for_ticks (two_client_tick E) [0..<320] w)
        }
      })"

section \<open>A client and a server over a transport pair\<close>

definition rtc_input :: "nat \<Rightarrow> InputFrame" where
  "rtc_input tick = default_InputFrame\<lparr>if_moveX := (if tick < 80 then 1 else 0), if_aimX := 1000, if_aimY := 0,
     if_fire := (tick = 40)\<rparr>"

abbreviation rtc_transport :: "rtc_endpoint transport_ops" where
  "rtc_transport \<equiv> pumped_transport in_memory_signaling in_memory_channel"

type_synonym 'r rtc_client = "(rtc_endpoint RemoteClientSession, 'r) ClientApplication"

text \<open>
  The world of the pair owns both endpoints; the client's session has moved its endpoint in and the
  host refers to the server's.
\<close>

record 'r rtc_smoke_world =
  rs_pair :: rtc_world
  rs_host :: "(rtc_endpoint, 'r) ServerNetworkHost"
  rs_client :: "'r rtc_client"

definition load_client :: "'r rtc_smoke_world \<Rightarrow> 'r rtc_client" where
  "load_client w = (rs_client w)\<lparr>ap_session := map_option (\<lambda>s. s\<lparr>rm_transport :=
     map_option (\<lambda>t. load_end Client_End (rs_pair w)) (rm_transport s)\<rparr>) (ap_session (rs_client w))\<rparr>"

definition store_client :: "'r rtc_client \<Rightarrow> 'r rtc_smoke_world \<Rightarrow> 'r rtc_smoke_world" where
  "store_client a w = w\<lparr>rs_client := a, rs_pair := (case Option.bind (ap_session a) rm_transport of
     Some t \<Rightarrow> store_end Client_End t (rs_pair w) | None \<Rightarrow> rs_pair w)\<rparr>"

definition update_server_end :: "'r rtc_smoke_world \<Rightarrow> 'r rtc_smoke_world" where
  "update_server_end w = w\<lparr>rs_pair :=
     store_end Server_End (tp_update rtc_transport (load_end Server_End (rs_pair w))) (rs_pair w)\<rparr>"

definition rtc_server_turn :: "'r entt_ops \<Rightarrow> TimestampMs \<Rightarrow> 'r rtc_smoke_world \<Rightarrow> 'r rtc_smoke_world option" where
  "rtc_server_turn E nowMs w = do {
     h \<leftarrow> PumpClientMessages rtc_transport E ((rs_host w)\<lparr>nh_transport := load_end Server_End (rs_pair w)\<rparr>);
     let h = TickAndSendSnapshots rtc_transport E nowMs h;
     Some (w\<lparr>rs_host := h, rs_pair := store_end Server_End (nh_transport h) (rs_pair w)\<rparr>)
   }"

definition rtc_smoke_tick :: "'r entt_ops \<Rightarrow> nat \<Rightarrow> 'r rtc_smoke_world \<Rightarrow> 'r rtc_smoke_world option" where
  "rtc_smoke_tick E tick w =
     (let S = remote_session rtc_transport E; nowMs = of_nat (tick * 16);
          w = store_client (snd (Application_SubmitInput S (rtc_input tick) nowMs (load_client w))) w
      in do {
        w \<leftarrow> rtc_server_turn E nowMs (update_server_end w);
        let w = update_server_end w;
        client \<leftarrow> Application_TickFixed E S nowMs (load_client w);
        let w = store_client client w;
        Some (store_client (snd (Application_DrainEvents S (load_client w))) w)
      })"

definition rtc_smoke_report :: "'r entt_ops \<Rightarrow> 'r rtc_smoke_world \<Rightarrow> program_exit" where
  "rtc_smoke_report E w =
     (let serverStats = nh_stats (rs_host w);
          clientStats = at_session (Application_Stats (remote_session rtc_transport E) (rs_client w));
          ok = (ns_connectedClients serverStats = 1 \<and> ns_inputsReceived serverStats > 0
                \<and> ns_snapshotsSent serverStats > 0 \<and> ss_snapshotsApplied clientStats > 0
                \<and> ss_connectionState clientStats = CS_Connected)
      in \<lparr>px_code = (if ok then 0 else 1),
          px_out = line (''RTC smoke ran. Connected clients: '' @ decimal (ns_connectedClients serverStats)
            @ '', inputs: '' @ decimal (ns_inputsReceived serverStats)
            @ '', snapshots sent/applied: '' @ decimal (ns_snapshotsSent serverStats)
            @ ''/'' @ decimal (ss_snapshotsApplied clientStats)),
          px_err = (if ok then [] else line ''RTC smoke failed expected remote transport boundary checks'')\<rparr>)"

definition rtc_smoke_config :: InMemoryKcpRtcTransportPairConfig where
  "rtc_smoke_config = \<lparr>pc_clientPeerId = 1, pc_serverPeerId = 2, pc_sessionId = bytes_of ''rtc-smoke'',
     pc_dataChannelLabel = bytes_of ''game'', pc_maxBufferedAmountBytes = 1024 * 1024\<rparr>"

definition rtc_smoke_main :: "'r entt_ops \<Rightarrow> program_exit option" where
  "rtc_smoke_main E =
     (let S = remote_session rtc_transport E;
          pair = CreateInMemoryKcpRtcTransportPair rtc_smoke_config;
          (started, server) = tp_connect rtc_transport (load_end Server_End pair);
          pair = store_end Server_End server pair
      in if \<not> started then Some (failed_with ''Failed to start RTC smoke server transport'')
         else
         let host = new_ServerNetworkHost E (load_end Server_End pair) default_HostConfig;
             client = new_ClientApplication E (Some (new_RemoteClientSession (Some (rw_client pair)))) \<lparr>ca_localClientId = 1\<rparr>;
             w = \<lparr>rs_pair = pair, rs_host = host, rs_client = client\<rparr>
         in do {
           (connected, client) \<leftarrow> Application_Connect E S 0 (load_client w);
           let w = store_client client w;
           if \<not> connected then Some (failed_with ''Failed to start RTC smoke client transport'')
           else map_option (rtc_smoke_report E) (for_ticks (rtc_smoke_tick E) [0..<180] w)
         })"

end
