(* ===== verification/Server_Reachable.thy ===== *)
theory Server_Reachable
  imports Server_App
begin

text \<open>
  The states of the server's host: what its owner and its clients can do to it, as a step relation over any
  transport, and that the simulation inside only ever takes its own steps. So what holds of every state a
  simulation can reach holds of the server, whatever its clients send.
\<close>

section \<open>The steps of a host\<close>

abbreviation host_sim :: "('t, 'r) ServerNetworkHost \<Rightarrow> 'r GameSimulation" where
  "host_sim h \<equiv> sv_simulation (nh_runtime h)"

text \<open>Every client that may still log in takes an identifier and an entity.\<close>

definition login_room :: "'r GameSimulation \<Rightarrow> bool" where
  "login_room s \<longleftrightarrow> unat (gs_nextNetworkId s) + length (gs_entityByNetworkId s)
     + 2 * (unat (sc_maxPlayers (gs_config s)) - length (gs_playerByClient s)) + 1 < 2 ^ 32"

text \<open>
  \<open>network\<close> is what happens to the transport outside the host; a pump handles any messages, and the tick
  sends on any transport. The scripted clients act on the runtime directly.
\<close>

inductive host_step :: "'t transport_ops \<Rightarrow> 'r entt_ops \<Rightarrow> ('t, 'r) ServerNetworkHost \<Rightarrow> ('t, 'r) ServerNetworkHost \<Rightarrow> bool"
  for T E where
  network: "host_step T E h (h\<lparr>nh_transport := t\<rparr>)"
| pump: "login_room (host_sim h) \<Longrightarrow> PumpClientMessages T E h = Some h' \<Longrightarrow> host_step T E h h'"
| tick: "id_room (host_sim h) \<Longrightarrow> host_step T E h (TickAndSendSnapshots T E now h)"
| connect: "id_room (host_sim h) \<Longrightarrow> ConnectSimulationOnlyClient E c now h = (b, h') \<Longrightarrow> host_step T E h h'"
| drive: "Driver_Tick E aim now d (nh_runtime h) = (b, d', v) \<Longrightarrow> host_step T E h (h\<lparr>nh_runtime := v\<rparr>)"
| drain: "host_DrainEvents h = (events, h') \<Longrightarrow> host_step T E h h'"

inductive host_reachable :: "'t transport_ops \<Rightarrow> 'r entt_ops \<Rightarrow> ServerNetworkHostConfig \<Rightarrow> ('t, 'r) ServerNetworkHost \<Rightarrow> bool"
  for T E config where
  init: "host_reachable T E config (new_ServerNetworkHost E t config)"
| step: "host_reachable T E config h \<Longrightarrow> host_step T E h h' \<Longrightarrow> host_reachable T E config h'"

section \<open>What leaves the simulation alone\<close>

text \<open>Sending changes the host's bookkeeping and, for a snapshot, its number.\<close>

definition same_sim :: "('t, 'r) ServerNetworkHost \<Rightarrow> ('t, 'r) ServerNetworkHost \<Rightarrow> bool" where
  "same_sim h h' \<longleftrightarrow> host_sim h' = host_sim h \<and> sv_history (nh_runtime h') = sv_history (nh_runtime h)"

lemma same_sim_refl [simp]: "same_sim h h"
  by (simp add: same_sim_def)

lemma same_sim_fold: "(\<And>x k. same_sim k (f x k)) \<Longrightarrow> same_sim h (fold f xs h)"
  by (induction xs arbitrary: h) (auto simp: same_sim_def)

lemma same_sim_trans: "same_sim h k \<Longrightarrow> same_sim k l \<Longrightarrow> same_sim h l"
  by (simp add: same_sim_def)

lemma SendReliableEvent_sim: "same_sim h (SendReliableEvent T c ev now b h)"
  by (auto simp: SendReliableEvent_def same_sim_def host_send_def host_stat_def Let_def split: prod.splits option.splits)

lemma send_interest_sim: "same_sim h (send_interest T c now ev h)"
  using SendReliableEvent_sim [of "h\<lparr>nh_nextNetworkEventId := nh_nextNetworkEventId h + 1\<rparr>"]
  by (auto simp: send_interest_def next_event_def same_sim_def split: option.splits)

lemma SendInterestEvents_sim: "same_sim h (SendInterestEvents T c fr now h)"
  unfolding SendInterestEvents_def Let_def
  by (rule same_sim_trans; rule same_sim_fold; rule send_interest_sim)

lemma update_interest_sim: "same_sim h (update_interest T c sn now h)"
proof (cases "um_find (nh_clientStateById h) c")
  case (Some r)
  obtain fr tracker where u: "Update_interest sn (rs_interest r) = (fr, tracker)" by fastforce
  have "same_sim h (SendInterestEvents T c fr now (host_stat f (h\<lparr>nh_clientStateById := m\<rparr>)))" for f m
    using SendInterestEvents_sim [of "host_stat f (h\<lparr>nh_clientStateById := m\<rparr>)" T c fr now]
    by (simp add: same_sim_def host_stat_def)
  then show ?thesis by (simp add: update_interest_def Some u)
qed (simp add: update_interest_def)

lemma SendSnapshot_sim: "same_sim h (snd (SendSnapshot T E c now h))"
proof -
  obtain planned h1 where p: "plan_snapshot E c h = (planned, h1)" by fastforce
  have 1: "same_sim h h1" using p
    by (auto simp: plan_snapshot_def BuildSnapshotFor_def same_sim_def Let_def split: prod.splits)
  have 2: "same_sim h1 (count_delta c planned h1)"
    by (auto simp: count_delta_def same_sim_def host_stat_def Let_def split: option.splits)
  obtain sent h3 where s: "host_send T (snapshot_envelope c (pl_snapshot planned)) (count_delta c planned h1) = (sent, h3)"
    by fastforce
  have 3: "same_sim (count_delta c planned h1) h3" using s by (auto simp: host_send_def same_sim_def split: prod.splits)
  note 4 = update_interest_sim [of h3 T c "pl_snapshot planned" now]
  show ?thesis using 1 2 3 4 by (auto simp: SendSnapshot_def p s same_sim_def host_stat_def Let_def)
qed

lemma snapshot_turn_sim: "same_sim h (snapshot_turn T E now c h)"
proof -
  obtain sent h1 where s: "SendSnapshot T E c now h = (sent, h1)" by fastforce
  then have "same_sim h h1" using SendSnapshot_sim [of h T E c now] by simp
  then show ?thesis
    by (auto simp: snapshot_turn_def s host_MarkSnapshotSent_def same_sim_def host_stat_def split: bool.splits option.splits)
qed

lemma broadcast_event_sim: "same_sim h (broadcast_event T now ev h)"
proof -
  have "same_sim k (fold (\<lambda>c h. if P c then h else SendReliableEvent T c n now False h) cs k)"
    for P n cs and k :: "('a, 'b) ServerNetworkHost"
    by (rule same_sim_fold) (simp add: SendReliableEvent_sim)
  from this [of "h\<lparr>nh_nextNetworkEventId := nh_nextNetworkEventId h + 1\<rparr>"] show ?thesis
    by (auto simp: broadcast_event_def next_event_def same_sim_def Let_def split: option.splits)
qed

lemma resend_client_sim: "same_sim h (resend_client T now c h)"
  by (auto simp: resend_client_def split: option.splits intro!: same_sim_fold SendReliableEvent_sim)

text \<open>A host's tick is the simulation's tick, with the events taken out.\<close>

lemma TickAndSendSnapshots_sim:
  "host_sim (TickAndSendSnapshots T E now h) = (TickFixed E (host_sim h))\<lparr>gs_events := []\<rparr>"
  "sv_history (nh_runtime (TickAndSendSnapshots T E now h)) = sv_history (Runtime_Tick E (nh_runtime h))"
proof -
  obtain evs v where d: "Runtime_DrainEvents (Runtime_Tick E (nh_runtime h)) = (evs, v)" by fastforce
  have v: "sv_simulation v = (TickFixed E (host_sim h))\<lparr>gs_events := []\<rparr>" "sv_history v = sv_history (Runtime_Tick E (nh_runtime h))"
    using d by (auto simp: Runtime_DrainEvents_def Runtime_Tick_def DrainEvents_def Let_def)
  let ?h = "h\<lparr>nh_runtime := v\<rparr>"
  let ?h1 = "fold (snapshot_turn T E now) (nh_clients ?h) ?h"
  let ?h2 = "BroadcastReliableEvents T evs now ?h1"
  let ?h3 = "ResendPendingReliableEvents T now ?h2"
  have "same_sim ?h ?h1" by (rule same_sim_fold) (rule snapshot_turn_sim)
  moreover have "same_sim ?h1 ?h2" unfolding BroadcastReliableEvents_def by (rule same_sim_fold) (rule broadcast_event_sim)
  moreover have "same_sim ?h2 ?h3" unfolding ResendPendingReliableEvents_def by (rule same_sim_fold) (rule resend_client_sim)
  ultimately have "host_sim ?h3 = sv_simulation v \<and> sv_history (nh_runtime ?h3) = sv_history v" by (simp add: same_sim_def)
  then show "host_sim (TickAndSendSnapshots T E now h) = (TickFixed E (host_sim h))\<lparr>gs_events := []\<rparr>"
    "sv_history (nh_runtime (TickAndSendSnapshots T E now h)) = sv_history (Runtime_Tick E (nh_runtime h))"
    using v by (simp_all add: TickAndSendSnapshots_def d Let_def)
qed

section \<open>The simulation takes its own steps\<close>

lemma Runtime_Tick_history:
  "length (lh_snapshots (sv_history v)) \<le> 128 \<Longrightarrow> lh_maxSnapshots (sv_history v) = 128 \<Longrightarrow>
     length (lh_snapshots (sv_history (Runtime_Tick E v))) \<le> 128 \<and> lh_maxSnapshots (sv_history (Runtime_Tick E v)) = 128"
  by (simp add: Runtime_Tick_def Record_history_def Let_def)

definition history_ok :: "('t, 'r) ServerNetworkHost \<Rightarrow> bool" where
  "history_ok h \<longleftrightarrow> length (lh_snapshots (sv_history (nh_runtime h))) \<le> 128
     \<and> lh_maxSnapshots (sv_history (nh_runtime h)) = 128"

text \<open>What a login does to the room for further ones.\<close>

lemma CreatePlayer_counts:
  "gs_config (snd (CreatePlayer E c x y s)) = gs_config s"
  "gs_nextNetworkId (snd (CreatePlayer E c x y s)) = gs_nextNetworkId s + 1"
  "gs_playerByClient (snd (CreatePlayer E c x y s)) = um_put c (gs_nextNetworkId s) (gs_playerByClient s)"
  "length (gs_entityByNetworkId (snd (CreatePlayer E c x y s))) \<le> Suc (length (gs_entityByNetworkId s))"
  unfolding CreatePlayer_def AllocateNetworkId_def Let_def split_def by (simp_all add: length_um_put)

lemma SubmitLogin_room:
  assumes "login_room s" and "length (gs_playerByClient s) \<le> unat (sc_maxPlayers (gs_config s))"
  shows "login_room (snd (SubmitLogin E l s))"
proof (cases "um_contains (gs_playerByClient s) (hd_clientId (lg_header l))
    \<or> length (gs_playerByClient s) \<ge> unat (sc_maxPlayers (gs_config s))")
  case True
  then show ?thesis using assms(1) by (auto simp: SubmitLogin_def Let_def)
next
  case False
  let ?max = "unat (sc_maxPlayers (gs_config s))"
  have small: "unat (gs_nextNetworkId s) + 1 < 2 ^ 32" using assms(1) by (simp add: login_room_def)
  then have succ: "unat (gs_nextNetworkId s + 1) = unat (gs_nextNetworkId s) + 1" by (simp add: unat_word_ariths)
  define s' where "s' = snd (SubmitLogin E l s)"
  have "gs_nextNetworkId s' = gs_nextNetworkId s + 1" "gs_config s' = gs_config s"
    "length (gs_entityByNetworkId s') \<le> Suc (length (gs_entityByNetworkId s))"
    "length (gs_playerByClient s') = Suc (length (gs_playerByClient s))"
    using False CreatePlayer_counts(4) [of E _ _ _ "s\<lparr>gs_lastAcceptedSequence := q\<rparr>" for q]
    by (simp_all add: s'_def SubmitLogin_def CreatePlayer_counts(1-3) length_um_put Let_def split_def)
  moreover have "Suc (?max - Suc (length (gs_playerByClient s))) = ?max - length (gs_playerByClient s)"
    using False by auto
  ultimately show ?thesis using assms(1) succ unfolding s'_def [symmetric] by (simp add: login_room_def)
qed

lemma login_room_id_room: "login_room s \<Longrightarrow> id_room s"
  by (simp add: login_room_def id_room_def)

text \<open>A message is a login, an input or nothing to the simulation, whatever its bytes are.\<close>

lemma handle_message_sim:
  fixes h :: "('t, 'r) ServerNetworkHost"
  assumes "login_room (host_sim h)"
  shows "sim_step E (host_sim h) (host_sim (handle_message T E e h)) \<or> host_sim (handle_message T E e h) = host_sim h"
    and "length (gs_playerByClient (host_sim h)) \<le> unat (sc_maxPlayers (gs_config (host_sim h))) \<Longrightarrow>
      login_room (host_sim (handle_message T E e h))"
    and "sv_history (nh_runtime (handle_message T E e h)) = sv_history (nh_runtime h)"
proof -
  let ?ok = "\<lambda>k :: ('t, 'r) ServerNetworkHost. sv_history (nh_runtime k) = sv_history (nh_runtime h)
    \<and> ((\<exists>l. host_sim k = snd (SubmitLogin E l (host_sim h))) \<or> (\<exists>p. host_sim k = snd (SubmitInput p (host_sim h)))
       \<or> host_sim k = host_sim h)"
  have login: "?ok (HandleLoginEnvelope E e h)"
    by (auto simp: HandleLoginEnvelope_def host_stat_def Runtime_ConnectClient_def Let_def split_def split: option.splits)
  have input: "?ok (HandleInputEnvelope e h)"
    by (auto simp: HandleInputEnvelope_def host_stat_def Runtime_SubmitInput_def Let_def split_def split: option.splits)
  have "nh_runtime (HandleSnapshotAckEnvelope e h) = nh_runtime h" "nh_runtime (HandleNetworkEventAckEnvelope e h) = nh_runtime h"
    "nh_runtime (HandleTimeSyncEnvelope T e h) = nh_runtime h"
    by (auto simp: HandleSnapshotAckEnvelope_def HandleNetworkEventAckEnvelope_def HandleTimeSyncEnvelope_def
        host_stat_def host_send_def Let_def split: option.splits bool.splits prod.splits)
  with login input have ok: "?ok (handle_message T E e h)"
    by (simp add: handle_message_def split: MessageClass.splits)
  note room = login_room_id_room [OF assms]
  show "sim_step E (host_sim h) (host_sim (handle_message T E e h)) \<or> host_sim (handle_message T E e h) = host_sim h"
    using ok sim_step.login [OF room] sim_step.input by (metis prod.collapse)
  show "sv_history (nh_runtime (handle_message T E e h)) = sv_history (nh_runtime h)" using ok by simp
  assume "length (gs_playerByClient (host_sim h)) \<le> unat (sc_maxPlayers (gs_config (host_sim h)))"
  then show "login_room (host_sim (handle_message T E e h))"
    using ok assms SubmitLogin_room [OF assms] by (auto simp: login_room_def SubmitInput_frame)
qed

lemma poll_loop_keeps:
  assumes "poll_loop poll body s = Some s'" and "Inv s"
    and "\<And>s e t. Inv s \<Longrightarrow> poll s = (Some e, t) \<Longrightarrow> Inv (body e t)"
    and "\<And>s t. Inv s \<Longrightarrow> poll s = (None, t) \<Longrightarrow> Inv t"
  shows "Inv s'"
  using assms
proof (induction rule: poll_loop.raw_induct [rotated 1, consumes 1, case_names step])
  case (step loop poll body s s')
  obtain r t where t: "poll s = (r, t)" by fastforce
  show ?case
  proof (cases r)
    case None
    then show ?thesis using step.hyps step.prems t by simp
  next
    case (Some e)
    then show ?thesis using step.IH [of poll body "body e t" s'] step.hyps step.prems t by simp
  qed
qed

lemma PumpClientMessages_sim:
  assumes E: "entt_laws E" and c: "config_ok config"
    and "PumpClientMessages T E h = Some h'" "login_room (host_sim h)" "sim_reachable E config (host_sim h)"
  shows "sim_reachable E config (host_sim h') \<and> sv_history (nh_runtime h') = sv_history (nh_runtime h)"
proof -
  let ?inv = "\<lambda>k. login_room (host_sim k) \<and> sim_reachable E config (host_sim k)
    \<and> sv_history (nh_runtime k) = sv_history (nh_runtime h)"
  have "?inv h'"
  proof (rule poll_loop_keeps [of "host_poll T" "handle_message T E" h h' ?inv])
    show "poll_loop (host_poll T) (handle_message T E) h = Some h'" using assms(3) by (simp add: PumpClientMessages_def)
    show "?inv h" using assms(4,5) by simp
    show "?inv k" if "?inv g" "host_poll T g = (None, k)" for g k
      using that by (auto simp: host_poll_def split: prod.splits)
    show "?inv (handle_message T E e k)" if g: "?inv g" and "host_poll T g = (Some e, k)" for g e k
    proof -
      have k: "host_sim k = host_sim g" "sv_history (nh_runtime k) = sv_history (nh_runtime g)"
        using that(2) by (auto simp: host_poll_def split: prod.splits)
      have "sim_ok E (host_sim k)" using sim_reachable_ok [OF E c] g k by simp
      then have "length (gs_playerByClient (host_sim k)) \<le> unat (sc_maxPlayers (gs_config (host_sim k)))"
        using index_okD(7) by (auto simp: sim_ok_def)
      moreover have room: "login_room (host_sim k)" using g k by simp
      ultimately show ?thesis
        using handle_message_sim [OF room, where E = E and T = T and e = e] g k sim_reachable.step [of E config "host_sim k"] by auto
    qed
  qed
  then show ?thesis by simp
qed

text \<open>A host's simulation is in a reachable state, and its history within its limit.\<close>

definition host_state_ok :: "'r entt_ops \<Rightarrow> ('t, 'r) ServerNetworkHost \<Rightarrow> bool" where
  "host_state_ok E h \<longleftrightarrow> sim_reachable E (default_SimulationConfig\<lparr>sc_mode := ServerAuthoritative\<rparr>) (host_sim h)
     \<and> history_ok h"

lemma server_config_ok: "config_ok (default_SimulationConfig\<lparr>sc_mode := ServerAuthoritative\<rparr>)"
  using config_ok_default by (simp add: config_ok_def)

lemma host_step_ok:
  assumes "host_step T E h h'" and E: "entt_laws E" and "host_state_ok E h"
  shows "host_state_ok E h'"
  using assms(1,3)
proof (induction rule: host_step.induct)
  case (network h t)
  then show ?case by (simp add: host_state_ok_def history_ok_def)
next
  case (pump h h')
  then show ?case using PumpClientMessages_sim [OF E server_config_ok, of T h h']
    by (simp add: host_state_ok_def history_ok_def)
next
  case (tick h now)
  let ?s = "TickFixed E (host_sim h)"
  have "sim_step E (host_sim h) ?s" by (rule sim_step.tick [OF tick.hyps])
  moreover have "sim_step E ?s (?s\<lparr>gs_events := []\<rparr>)" by (rule sim_step.drain) (simp add: DrainEvents_def)
  moreover have "history_ok (TickAndSendSnapshots T E now h)"
    using Runtime_Tick_history [of "nh_runtime h" E] tick.prems
    by (simp add: history_ok_def host_state_ok_def TickAndSendSnapshots_sim(2))
  ultimately show ?case using tick.prems
    by (auto simp: host_state_ok_def TickAndSendSnapshots_sim(1) intro: sim_reachable.step)
next
  case (connect h c now b h')
  then have h': "host_sim h' = snd (SubmitLogin E \<lparr>lg_header = \<lparr>hd_clientId = c, hd_sequence = 0, hd_clientTimestampMs = now\<rparr>\<rparr> (host_sim h))"
    "sv_history (nh_runtime h') = sv_history (nh_runtime h)"
    by (auto simp: ConnectSimulationOnlyClient_def Runtime_ConnectClient_def Let_def split_def)
  have "sim_step E (host_sim h) (host_sim h')"
    unfolding h'(1) by (rule sim_step.login [OF connect.hyps(1)]) (rule prod.collapse [symmetric])
  then show ?case using connect.prems h'(2) sim_reachable.step by (auto simp: host_state_ok_def history_ok_def)
next
  case (drive aim now d h b d' v)
  then obtain p where v: "sv_simulation v = snd (SubmitInput p (host_sim h))" "sv_history v = sv_history (nh_runtime h)"
    by (auto simp: Driver_Tick_def Runtime_SubmitInput_def Let_def split_def)
  have "sim_step E (host_sim h) (sv_simulation v)"
    unfolding v(1) by (rule sim_step.input) (rule prod.collapse [symmetric])
  then show ?case using drive.prems v(2) sim_reachable.step by (auto simp: host_state_ok_def history_ok_def)
next
  case (drain h events h')
  then show ?case by (auto simp: host_DrainEvents_def host_state_ok_def history_ok_def)
qed

lemma host_reachable_ok:
  assumes "host_reachable T E config h" and "entt_laws E"
  shows "host_state_ok E h"
  using assms(1)
proof (induction rule: host_reachable.induct)
  case (init t)
  show ?case by (simp add: host_state_ok_def history_ok_def new_ServerNetworkHost_def new_ServerRuntime_def
      new_LagHistory_def sim_reachable.init)
next
  case (step h h')
  then show ?case using host_step_ok [OF step.hyps(2) assms(2)] by blast
qed

text \<open>C8. The server's state is always valid, whatever bytes its clients send, on any transport: in every
  state that messages, ticks, scripted clients and drains can bring a host to while identifiers last, every
  player has between 0 and 100 health and is defeated exactly at zero, stands on the map and moves within
  the speed limit; every live entity is found under its identifier, every client that logged in has its own
  player; there are at most 256 players and at most 128 snapshots in the history.\<close>

theorem server_always_valid:
  assumes "entt_laws E" and "host_reachable T E config h"
  shows "(\<forall>e p. c_player (cm E (host_sim h) e) = Some p \<longrightarrow>
         0 \<le> sint (pl_health p) \<and> sint (pl_health p) \<le> 100 \<and> (pl_defeated p \<longleftrightarrow> sint (pl_health p) = 0)
         \<and> (\<exists>t v. c_transform (cm E (host_sim h) e) = Some t \<and> c_velocity (cm E (host_sim h) e) = Some v
              \<and> 0 \<le> sint (tf_x t) \<and> sint (tf_x t) < 10240000 \<and> 0 \<le> sint (tf_y t) \<and> sint (tf_y t) < 10240000
              \<and> \<bar>sint (vl_vx v)\<bar> \<le> 360000 \<and> \<bar>sint (vl_vy v)\<bar> \<le> 360000))
     \<and> (\<forall>e. alive E (host_sim h) e \<longrightarrow> (\<exists>i. EntityFor (host_sim h) i = Some e))
     \<and> (\<forall>c i. PlayerEntityForClient (host_sim h) c = Some i \<longrightarrow>
          (\<exists>e p. EntityFor (host_sim h) i = Some e \<and> c_player (cm E (host_sim h) e) = Some p \<and> pl_clientId p = c))
     \<and> length (gs_playerByClient (host_sim h)) \<le> 256
     \<and> length (lh_snapshots (sv_history (nh_runtime h))) \<le> 128"
proof -
  let ?c = "default_SimulationConfig\<lparr>sc_mode := ServerAuthoritative\<rparr>" and ?s = "host_sim h"
  note ok = host_reachable_ok [OF assms(2,1)]
  then have s: "sim_ok E ?s" "gs_config ?s = ?c"
    using sim_reachable_ok [OF assms(1) server_config_ok] by (auto simp: host_state_ok_def)
  have index: "index_ok E ?s" using s(1) by (simp add: sim_ok_def)
  have limits: "sint (sc_maxPlayerHealth ?c) = 100" "sint (MapWidthFixed (sc_map ?c)) = 10240000"
    "sint (MapHeightFixed (sc_map ?c)) = 10240000" "sint (sc_maxMoveSpeedPerSecond ?c) = 360000" "unat (sc_maxPlayers ?c) = 256"
    by (simp_all add: default_SimulationConfig_def default_MapConfig_def MapWidthFixed_def MapHeightFixed_def
        PixelsToFixed_def kFixedOne_def)
  show ?thesis
  proof (intro conjI allI impI)
    fix e p assume p: "c_player (cm E ?s e) = Some p"
    have e: "entity_ok ?c (cm E ?s e)" using s alive_player [OF p] by (simp add: sim_ok_def)
    from e p limits(1) show "0 \<le> sint (pl_health p)" "sint (pl_health p) \<le> 100" "pl_defeated p \<longleftrightarrow> sint (pl_health p) = 0"
      by (auto simp: entity_ok_def player_ok_def)
    from e p show "\<exists>t v. c_transform (cm E ?s e) = Some t \<and> c_velocity (cm E ?s e) = Some v
              \<and> 0 \<le> sint (tf_x t) \<and> sint (tf_x t) < 10240000 \<and> 0 \<le> sint (tf_y t) \<and> sint (tf_y t) < 10240000
              \<and> \<bar>sint (vl_vx v)\<bar> \<le> 360000 \<and> \<bar>sint (vl_vy v)\<bar> \<le> 360000"
      using map_limit [OF server_config_ok] limits by (auto simp: entity_ok_def on_map_def speed_ok_def)
  next
    show "\<exists>i. EntityFor ?s i = Some e" if "alive E ?s e" for e using index_okD(3,4) [OF index] that by blast
    show "\<exists>e p. EntityFor ?s i = Some e \<and> c_player (cm E ?s e) = Some p \<and> pl_clientId p = c"
      if "PlayerEntityForClient ?s c = Some i" for c i using clients_okE [OF index_okD(5) [OF index] that] by blast
    show "length (gs_playerByClient ?s) \<le> 256" using index_okD(7) [OF index] s(2) limits(5) by simp
    show "length (lh_snapshots (sv_history (nh_runtime h))) \<le> 128" using ok by (simp add: host_state_ok_def history_ok_def)
  qed
qed

text \<open>A server on the executable registry to which a client has been connected.\<close>

definition joined_host :: "(unit, list_registry) ServerNetworkHost" where
  "joined_host = snd (ConnectSimulationOnlyClient list_registry 42 0
     (new_ServerNetworkHost list_registry () default_HostConfig))"

definition silent_transport :: "unit transport_ops" where
  "silent_transport = \<lparr>tp_connect = \<lambda>t. (True, t), tp_update = \<lambda>t. t, tp_close = \<lambda>t. t, tp_send = \<lambda>e t. (False, t),
     tp_poll = \<lambda>t. (None, t), tp_state = \<lambda>t. Connected, tp_stats = \<lambda>t. zero_TransportStats, tp_lastError = \<lambda>t. TE_None\<rparr>"

lemma joined_host_reachable: "host_reachable silent_transport list_registry default_HostConfig joined_host"
proof (rule host_reachable.step [OF host_reachable.init])
  have "id_room (host_sim (new_ServerNetworkHost list_registry () default_HostConfig))"
    by (simp add: id_room_def new_ServerNetworkHost_def new_ServerRuntime_def new_GameSimulation_def)
  then show "host_step silent_transport list_registry (new_ServerNetworkHost list_registry () default_HostConfig) joined_host"
    by (rule host_step.connect [where c = 42 and now = 0]) (simp add: joined_host_def prod_eq_iff)
qed

lemma joined_host_player:
  "c_player (cm list_registry (host_sim joined_host) 1) =
     Some (default_Player\<lparr>pl_clientId := 42, pl_health := 100, pl_maxHealth := 100\<rparr>)"
proof -
  let ?s = "new_GameSimulation list_registry (default_SimulationConfig\<lparr>sc_mode := ServerAuthoritative\<rparr>)"
  have "en_create list_registry (gs_registry ?s) = (1, 1, [(1, no_components)])"
    by (simp add: list_registry_def new_GameSimulation_def)
  from SubmitLogin_creates(2) [OF list_registry_laws _ _ this,
      of "\<lparr>lg_header = \<lparr>hd_clientId = 42, hd_sequence = 0, hd_clientTimestampMs = 0\<rparr>\<rparr>"]
  show ?thesis
    by (simp add: joined_host_def ConnectSimulationOnlyClient_def Runtime_ConnectClient_def new_ServerNetworkHost_def
        new_ServerRuntime_def new_GameSimulation_def um_contains_def default_SimulationConfig_def player_components_def
        Let_def split_def)
qed

theorem server_always_valid_witness:
  "\<exists>p t. c_player (cm list_registry (host_sim joined_host) 1) = Some p \<and> sint (pl_health p) \<le> 100
     \<and> c_transform (cm list_registry (host_sim joined_host) 1) = Some t \<and> sint (tf_x t) < 10240000"
  using server_always_valid [OF list_registry_laws joined_host_reachable] joined_host_player by blast

end
