(* ===== verification/Program_Properties.thy ===== *)
theory Program_Properties
  imports Programs Server_Reachable
begin

text \<open>
  The programs without a window end. Each runs a fixed number of ticks, and every loop below a tick ends
  because the parts keep their contracts; for the parts that share a hub or a transport pair, the contract
  covers what is shared.
\<close>

section \<open>Counted loops\<close>

lemma for_ticks_returns:
  assumes "Inv k s" and "k + length ticks \<le> N"
    and "\<And>tick k s. Inv k s \<Longrightarrow> k < N \<Longrightarrow> \<exists>s'. body tick s = Some s' \<and> Inv (Suc k) s'"
  shows "\<exists>s'. for_ticks body ticks s = Some s' \<and> Inv (k + length ticks) s'"
  using assms(1,2)
proof (induction ticks arbitrary: k s)
  case (Cons tick ticks)
  from assms(3) [OF Cons.prems(1)] Cons.prems(2) obtain s1 where "body tick s = Some s1" "Inv (Suc k) s1" by auto
  with Cons.IH [of "Suc k" s1] Cons.prems(2) show ?case by simp
qed simp

text \<open>A counter that each turn of the loop advances by one.\<close>

lemma for_ticks_count:
  fixes count :: "'s \<Rightarrow> Tick"
  assumes "\<And>tick s s'. body tick s = Some s' \<Longrightarrow> count s' = count s + 1"
  shows "for_ticks body ticks s = Some s' \<Longrightarrow> count s' = count s + of_nat (length ticks)"
  by (induction ticks arbitrary: s) (auto simp: assms split: bind_splits)

lemma Application_fixedTick:
  "ap_fixedTick (snd (Application_SubmitInput S i now a)) = ap_fixedTick a"
  "Application_TickFixed E S now a = Some a' \<Longrightarrow> ap_fixedTick a' = ap_fixedTick a + 1"
  "ap_fixedTick (snd (Application_DrainEvents S a)) = ap_fixedTick a"
  "Application_Connect E S now a = Some (b, a') \<Longrightarrow> ap_fixedTick a' = ap_fixedTick a"
  by (auto simp: Application_SubmitInput_def Application_TickFixed_def Application_DrainEvents_def Application_Connect_def
      Let_def split_def split: option.splits bind_splits if_splits)

section \<open>The server's run\<close>

text \<open>Without clients a tick of the host changes no statistics.\<close>

definition deserted :: "('t, 'r) ServerNetworkHost \<Rightarrow> bool" where
  "deserted h \<longleftrightarrow> nh_clients h = [] \<and> nh_clientStateById h = []"

lemma broadcast_deserted:
  assumes "deserted h"
  shows "deserted (broadcast_event T now ev h) \<and> nh_stats (broadcast_event T now ev h) = nh_stats h"
  using assms by (auto simp: broadcast_event_def next_event_def deserted_def Let_def split: option.splits)

lemma tick_deserted:
  fixes h :: "('t, 'r) ServerNetworkHost"
  assumes "deserted h"
  shows "deserted (TickAndSendSnapshots T E now h) \<and> nh_stats (TickAndSendSnapshots T E now h) = nh_stats h"
proof -
  have events: "deserted (fold (broadcast_event T now) evs k) \<and> nh_stats (fold (broadcast_event T now) evs k) = nh_stats k"
    if "deserted k" for evs and k :: "('t, 'r) ServerNetworkHost"
    using that
  proof (induction evs arbitrary: k)
    case (Cons ev evs)
    from broadcast_deserted [OF Cons.prems, of T now ev] Cons.IH [of "broadcast_event T now ev k"]
    show ?case by simp
  qed simp
  obtain evs v where d: "Runtime_DrainEvents (Runtime_Tick E (nh_runtime h)) = (evs, v)" by fastforce
  let ?h = "h\<lparr>nh_runtime := v\<rparr>"
  have "deserted ?h" using assms by (simp add: deserted_def)
  from events [OF this, of evs] assms show ?thesis
    by (simp add: TickAndSendSnapshots_def BroadcastReliableEvents_def ResendPendingReliableEvents_def d Let_def)
      (simp add: deserted_def)
qed

lemma loopback_ops:
  "tp_connect loopback_transport = Loopback_Connect" "tp_update loopback_transport = Loopback_Update"
  "tp_close loopback_transport = Loopback_Close" "tp_send loopback_transport = Loopback_Send"
  "tp_poll loopback_transport = Loopback_Poll" "tp_state loopback_transport = lt_stateValue"
  by (simp_all add: loopback_transport_def)

lemma decimal_digits: "decimal 0 = ''0''" "decimal 1 = ''1''"
  by code_simp+

lemma server_main_result:
  fixes E :: "'r entt_ops"
  shows "server_main E = Some \<lparr>px_code = 0,
     px_out = line ''Server application smoke ran. Ticks: 1, network clients: 0'', px_err = []\<rparr>"
proof -
  define t where "t = endpoint_of Endpoint_B (CreatePair no_conditions)"
  define c where "c = snd (Loopback_Connect t)"
  define h :: "(LoopbackTransport, 'r) ServerNetworkHost" where "h = new_ServerNetworkHost E c default_HostConfig"
  have t: "lt_state t \<noteq> None" "IncomingQueue t = []" "DelayedOutgoingQueue t = []"
    by (simp_all add: t_def endpoint_of_def CreatePair_def queue_defs empty_SharedState_def)
  have connect: "Loopback_Connect t = (True, c)" and c: "lt_stateValue c = Connected" "IncomingQueue c = []"
    "lt_state c \<noteq> None" "DelayedOutgoingQueue c = []"
    using t by (auto simp: c_def Loopback_Connect_def)
  have poll: "Loopback_Poll c = (None, c)" and update: "Loopback_Update c = c"
    using c by (simp_all add: Loopback_Poll_def Loopback_Update_def ReleaseOneDelayed_def)
  have h: "nh_transport h = c" "deserted h" "nh_stats h = zero_ServerNetworkStats"
    by (simp_all add: h_def new_ServerNetworkHost_def deserted_def)
  have same: "h\<lparr>nh_transport := c\<rparr> = h" using h(1) by (cases h) simp
  have pump: "PumpClientMessages loopback_transport E h = Some h"
    by (simp add: PumpClientMessages_def poll_loop.simps host_poll_def loopback_ops h(1) poll same)
  let ?h = "TickAndSendSnapshots loopback_transport E 0 h"
  have stats: "nh_stats ?h = zero_ServerNetworkStats" using tick_deserted [OF h(2)] h(3) by simp
  let ?a = "(new_ServerApplication (Some c) default_ServerApplicationConfig)\<lparr>sa_networkHost := Some h, sa_running := True\<rparr>"
  have start: "Start loopback_transport E (new_ServerApplication (Some t) default_ServerApplicationConfig) = (True, ?a)"
    by (simp add: Start_def new_ServerApplication_def loopback_ops connect h_def default_ServerApplicationConfig_def)
  have "RunForTicks loopback_transport E 1 0 ?a = Some (?a\<lparr>sa_transport := Some (nh_transport ?h),
      sa_networkHost := Some ?h, sa_ticksRun := 1\<rparr>)"
    by (simp add: RunForTicks_def TickOnce_def loopback_ops update same pump new_ServerApplication_def
        default_ServerApplicationConfig_def Let_def)
  with start show ?thesis
    by (simp add: server_main_def t_def Let_def App_Stats_def stats zero_ServerNetworkStats_def
        decimal_digits [unfolded One_nat_def])
qed

section \<open>The bridge always connects\<close>

definition sim_players :: "SimulationConfig \<Rightarrow> nat \<Rightarrow> 'r ServerRuntime \<Rightarrow> bool" where
  "sim_players config n v \<longleftrightarrow> gs_config (sv_simulation v) = config \<and> length (gs_playerByClient (sv_simulation v)) \<le> n"

lemma SubmitLogin_players:
  "gs_config (snd (SubmitLogin E l s)) = gs_config s"
  "length (gs_playerByClient (snd (SubmitLogin E l s))) \<le> Suc (length (gs_playerByClient s))"
  by (simp_all add: SubmitLogin_def CreatePlayer_counts length_um_put Let_def split_def)

lemma ConnectClient_players:
  assumes "sim_players config n v"
  shows "sim_players config (Suc n) (snd (Runtime_ConnectClient E c t v))"
  using assms SubmitLogin_players [of E _ "sv_simulation v"]
  by (auto simp: Runtime_ConnectClient_def sim_players_def Let_def split_def intro: order_trans)

lemma handle_message_players:
  assumes "sim_players config n (nh_runtime h)"
  shows "sim_players config (Suc n) (nh_runtime (handle_message T E e h))"
proof -
  have more: "sim_players config (Suc n) (nh_runtime h)" using assms by (simp add: sim_players_def)
  have "sim_players config (Suc n) (nh_runtime (HandleLoginEnvelope E e h))"
    using ConnectClient_players [OF assms, of E] more
    by (auto simp: HandleLoginEnvelope_def host_stat_def Let_def split_def split: option.splits)
  moreover have "sim_players config (Suc n) (nh_runtime (HandleInputEnvelope e h))"
    using more by (auto simp: HandleInputEnvelope_def sim_players_def host_stat_def Let_def split_def
        Runtime_SubmitInput_def SubmitInput_frame split: option.splits)
  moreover have "nh_runtime (HandleSnapshotAckEnvelope e h) = nh_runtime h"
    by (auto simp: HandleSnapshotAckEnvelope_def host_stat_def Let_def split: option.splits bool.splits prod.splits)
  moreover have "nh_runtime (HandleNetworkEventAckEnvelope e h) = nh_runtime h"
    by (auto simp: HandleNetworkEventAckEnvelope_def host_stat_def Let_def split: option.splits prod.splits)
  moreover have "nh_runtime (HandleTimeSyncEnvelope T e h) = nh_runtime h"
    by (auto simp: HandleTimeSyncEnvelope_def host_stat_def host_send_def Let_def split: option.splits prod.splits)
  ultimately show ?thesis using more by (auto simp: handle_message_def split: MessageClass.splits)
qed

context transport
begin

text \<open>A pump logs in at most one player for each message.\<close>

lemma PumpClientMessages_players:
  fixes h :: "('t, 'r) ServerNetworkHost"
  assumes "host_inv ok backlog b h" and "sim_players config n (nh_runtime h)"
  shows "\<exists>h'. PumpClientMessages T E h = Some h' \<and> host_inv ok backlog b h' \<and> sim_players config (n + b) (nh_runtime h')"
proof -
  let ?inv = "\<lambda>k. sim_players config (n + b - backlog (nh_transport k)) (nh_runtime k)"
  have "\<exists>h'. PumpClientMessages T E h = Some h' \<and> host_inv ok backlog b h' \<and> ?inv h' \<and> True"
  proof (rule PumpClientMessages_inv [OF assms(1)])
    fix k :: "('t, 'r) ServerNetworkHost" and e t
    assume k: "host_inv ok backlog b k" "?inv k" and t: "tp_poll T (nh_transport k) = (Some e, t)"
    let ?k = "k\<lparr>nh_transport := t\<rparr>"
    from poll_some [OF _ t] k have "backlog t < backlog (nh_transport k)" "host_inv ok backlog (backlog t) ?k"
      by (auto simp: host_inv_def)
    with handle_message_inv [of "backlog t" ?k E e] k
    have "backlog (nh_transport (handle_message T E e ?k)) < backlog (nh_transport k)" "backlog (nh_transport k) \<le> b"
      by (auto simp: host_inv_def)
    moreover have "sim_players config (Suc (n + b - backlog (nh_transport k))) (nh_runtime (handle_message T E e ?k))"
      by (rule handle_message_players) (use k in simp)
    ultimately show "?inv (handle_message T E e ?k)" by (auto simp: sim_players_def)
  next
    fix k :: "('t, 'r) ServerNetworkHost" and t
    assume k: "host_inv ok backlog b k" "?inv k" and t: "tp_poll T (nh_transport k) = (None, t)"
    from poll_none [OF _ t] k show "?inv (k\<lparr>nh_transport := t\<rparr>) \<and> True" by (auto simp: host_inv_def sim_players_def)
  qed (use assms in \<open>auto simp: host_inv_def sim_players_def\<close>)
  then show ?thesis by (auto simp: sim_players_def)
qed

end

lemma login_envelope_valid:
  "valid_envelope (client_envelope Ch_LoginSpawn Mc_LoginRequest (hd_sequence (lg_header l)) (SerializeLoginCommand l))"
proof -
  have "length (SerializeLoginCommand l) \<le> kMaxNetworkPayloadBytes"
    by (simp add: SerializeLoginCommand_def codec_unfold kMaxNetworkPayloadBytes_def)
  then show ?thesis by (simp add: valid_envelope_iff client_envelope_def)
qed

text \<open>The login of a new client over a new pair is one valid envelope.\<close>

lemma login_over_new_pair:
  assumes "Pump_SendLogin loopback_transport (login_command c now) (endpoint_of Endpoint_A (CreatePair no_conditions)) = (sent, t)"
  shows "sent \<and> length (IncomingQueue (endpoint_of Endpoint_B (put_endpoint Endpoint_A t (CreatePair no_conditions)))) = 1"
proof -
  note login_envelope_valid [of "login_command c now"]
  with assms show ?thesis
    by (auto simp: Pump_SendLogin_def loopback_ops Loopback_Send_def endpoint_of_def CreatePair_def Let_def
        new_LoopbackTransport_def ShouldDropOutgoing_def ShouldDelayOutgoing_def no_conditions_def
        PushOutgoing_def ReleaseOneDelayed_def put_endpoint_def queue_defs empty_SharedState_def)
qed

lemma extra_client_connects:
  assumes "sim_players config n (nh_runtime h)" and "n < unat (sc_maxPlayers config)"
  shows "fst (ConnectSimulationOnlyClient E i now h)"
  using assms
  by (simp add: ConnectSimulationOnlyClient_def Runtime_ConnectClient_def SubmitLogin_def sim_players_def Let_def split_def)

lemma extra_clients_connect:
  fixes h :: "(LoopbackTransport, 'r) ServerNetworkHost"
  assumes "sim_players config n (nh_runtime h)" and "n + length cs \<le> unat (sc_maxPlayers config)" and "xs_connected s"
    and "fold (add_server_client E now) cs (s, h) = (s', h')"
  shows "xs_connected s'"
  using assms
proof (induction cs arbitrary: s h n)
  case (Cons c cs)
  obtain s1 h1 where a: "add_server_client E now c (s, h) = (s1, h1)" by fastforce
  have "sim_players config (Suc n) (nh_runtime h1)"
    using a Cons.prems(1) ConnectClient_players [OF Cons.prems(1), of E c now]
    by (auto simp: add_server_client_def ConnectSimulationOnlyClient_def sim_players_def Let_def split_def split: if_splits)
  moreover have "xs_connected s1"
    using a Cons.prems(2,3) extra_client_connects [OF Cons.prems(1), of E c now]
    by (auto simp: add_server_client_def Let_def split_def split: if_splits)
  ultimately show ?case using Cons.IH [of "Suc n" h1 s1] Cons.prems(2,4) a by simp
qed simp

lemma InProcess_Connect_connects:
  assumes "length (xc_extraServerClients (xs_config s)) < 256"
  shows "\<exists>s'. InProcess_Connect E c now s = Some (True, s') \<and> in_process_ok s'"
proof -
  let ?s1 = "s\<lparr>xs_localClientId := c,
    xs_stats := (xs_stats s)\<lparr>ss_localClientId := c, ss_connectionState := CS_Connecting\<rparr>,
    xs_simulationOnlyDrivers := [], xs_transports := CreatePair no_conditions\<rparr>"
  let ?h = "new_ServerNetworkHost E (endpoint_of Endpoint_B (CreatePair no_conditions)) default_HostConfig"
  let ?s2 = "?s1\<lparr>xs_serverHost := Some ?h\<rparr>"
  obtain sent t where sent: "Pump_SendLogin loopback_transport (login_command c now) (client_end ?s2) = (sent, t)"
    by fastforce
  let ?s3 = "put_client_end t ?s2"
  let ?s4 = "?s3\<lparr>xs_connected := sent, xs_stats := (xs_stats ?s3)
    \<lparr>ss_connectionState := (if sent then CS_AwaitingSpawn else CS_Disconnected)\<rparr>\<rparr>"
  have login: "sent" "length (IncomingQueue (endpoint_of Endpoint_B (xs_transports ?s4))) = 1"
    using login_over_new_pair [of c now sent t] sent by (simp_all add: client_end_def put_client_end_def)
  have reg: "registered ?h" by (simp add: registered_def new_ServerNetworkHost_def)
  have "in_process_ok ?s2" using reg by (simp add: in_process_ok_def pair_ok_CreatePair)
  then have "in_process_ok ?s3"
    using client_sent_ok [of ?s2] sent by (simp add: Pump_SendLogin_def) (metis snd_conv)
  then have p: "pair_ok (xs_transports ?s4)" by (simp add: in_process_ok_def put_client_end_def)
  let ?h4 = "?h\<lparr>nh_transport := endpoint_of Endpoint_B (xs_transports ?s4)\<rparr>"
  let ?config = "default_SimulationConfig\<lparr>sc_mode := ServerAuthoritative\<rparr>"
  have "host_inv (shared_ok Endpoint_B) (\<lambda>t. length (IncomingQueue t)) 1 ?h4"
    using pair_ok_load [OF p] reg login(2) by (simp add: host_inv_def)
  moreover have "sim_players ?config 0 (nh_runtime ?h4)"
    by (simp add: sim_players_def new_ServerNetworkHost_def new_ServerRuntime_def new_GameSimulation_def)
  ultimately obtain h where h: "PumpClientMessages loopback_transport E ?h4 = Some h"
    "host_inv (shared_ok Endpoint_B) (\<lambda>t. length (IncomingQueue t)) 1 h" "sim_players ?config 1 (nh_runtime h)"
    using transport.PumpClientMessages_players [OF shared.transport_axioms] by force
  obtain s5 h5 where f: "fold (add_server_client E now) (xc_extraServerClients (xs_config s)) (?s4, h) = (s5, h5)"
    by fastforce
  have "xs_connected s5"
    by (rule extra_clients_connect [OF h(3) _ _ f])
      (use assms login(1) in \<open>simp_all add: default_SimulationConfig_def\<close>)
  moreover have "server_host ?s4 = Some ?h4" by (simp add: server_host_def put_client_end_def)
  moreover have "xs_config ?s4 = xs_config s" by (simp add: put_client_end_def)
  ultimately have "InProcess_Connect E c now s = Some (True, put_server_host h5 s5)"
    using sent h(1) f by (simp add: InProcess_Connect_def Let_def put_server_host_def)
  moreover have "in_process_ok (put_server_host h5 s5)"
    using add_server_clients_keep [OF f] h(2) p by (metis put_server_host_ok)
  ultimately show ?thesis by blast
qed

text \<open>An application that has submitted a number of inputs.\<close>

definition submitted :: "('s \<Rightarrow> bool) \<Rightarrow> nat \<Rightarrow> ('s, 'r) ClientApplication \<Rightarrow> bool" where
  "submitted ok k a \<longleftrightarrow> (\<exists>sent. length sent = k \<and> application_ok ok a sent)"

context client_session
begin

lemma submitted_Connect:
  "submitted ok k a \<Longrightarrow> \<exists>b a'. Application_Connect E S now a = Some (b, a') \<and> submitted ok k a'"
  unfolding submitted_def using Application_Connect_returns by metis

lemma submitted_SubmitInput:
  "submitted ok k a \<Longrightarrow> k + 2 < 2 ^ 32 \<Longrightarrow> submitted ok (Suc k) (snd (Application_SubmitInput S i now a))"
  unfolding submitted_def using Application_SubmitInput_ok [of a _ i now]
  by (metis length_append_singleton prod.collapse)

lemma submitted_TickFixed:
  "submitted ok k a \<Longrightarrow> \<exists>a'. Application_TickFixed E S now a = Some a' \<and> submitted ok k a'"
  unfolding submitted_def using Application_TickFixed_returns by metis

lemma submitted_DrainEvents:
  "submitted ok k a \<Longrightarrow> submitted ok k (snd (Application_DrainEvents S a))"
  unfolding submitted_def using Application_DrainEvents_ok by metis

lemma submitted_turn:
  assumes "submitted ok k a" and "k + 2 < 2 ^ 32"
  obtains a' where "Application_TickFixed E S now (snd (Application_SubmitInput S i now a)) = Some a'"
    "submitted ok (Suc k) (snd (Application_DrainEvents S a'))"
  using submitted_TickFixed [OF submitted_SubmitInput [OF assms]] submitted_DrainEvents by metis

end

lemma submitted_new: "(\<And>s. session = Some s \<Longrightarrow> ok s) \<Longrightarrow> submitted ok 0 (new_ClientApplication E session config)"
  using application_ok_new by (force simp: submitted_def)

lemma new_client_logs_in: "fst (ConnectLocal E now (new_ClientRuntime E c default_SimulationConfig))"
  by (simp add: ConnectLocal_def new_ClientRuntime_def new_GameSimulation_def SubmitLogin_def um_contains_def
      default_SimulationConfig_def Let_def split_def)

lemma bridge_tick_count: "bridge_tick E aim tick a = Some a' \<Longrightarrow> ap_fixedTick a' = ap_fixedTick a + 1"
  by (auto simp: bridge_tick_def Application_fixedTick Let_def split_def split: bind_splits)

lemma single_process_main_result:
  "\<exists>a1 a2. Application_Connect E (in_process_session E aim) 0
       (new_ClientApplication E (Some (new_InProcessClientSession default_InProcessConfig)) \<lparr>ca_localClientId = 1\<rparr>) = Some (True, a1)
     \<and> for_ticks (bridge_tick E aim) [0..<30] a1 = Some a2 \<and> ap_fixedTick a2 = 30
     \<and> single_process_main E aim = Some \<lparr>px_code = 0,
         px_out = line (''Single-process bridge ran. Entities: ''
           @ decimal (at_entityCount (Application_Stats (in_process_session E aim) a2))
           @ '', snapshots applied: ''
           @ decimal (ss_snapshotsApplied (at_session (Application_Stats (in_process_session E aim) a2)))),
         px_err = []\<rparr>"
proof -
  let ?S = "in_process_session E aim"
  let ?app = "new_ClientApplication E (Some (new_InProcessClientSession default_InProcessConfig)) \<lparr>ca_localClientId = 1\<rparr>"
  obtain s1 where s1: "InProcess_Connect E 1 0 (new_InProcessClientSession default_InProcessConfig) = Some (True, s1)"
    using InProcess_Connect_connects [of "new_InProcessClientSession default_InProcessConfig" E 1 0]
    by (auto simp: new_InProcessClientSession_def default_InProcessConfig_def)
  have ready: "submitted in_process_ok 0 ?app" by (rule submitted_new) (simp add: in_process_ok_new)
  obtain b a1 where a1: "Application_Connect E ?S 0 ?app = Some (b, a1)" "submitted in_process_ok 0 a1"
    using in_process.submitted_Connect [OF ready] by blast
  have "b"
    using a1(1) s1 new_client_logs_in [of E 0 1]
    by (auto simp: Application_Connect_def new_ClientApplication_def in_process_session_def Let_def split_def)
  moreover obtain a2 where a2: "for_ticks (bridge_tick E aim) [0..<30] a1 = Some a2"
  proof -
    have "\<exists>a'. for_ticks (bridge_tick E aim) [0..<30] a1 = Some a' \<and> submitted in_process_ok (0 + length [0..<30]) a'"
    proof (rule for_ticks_returns [where N = 30])
      fix tick k and a :: "'a in_process_app"
      assume a: "submitted in_process_ok k a" and "k < 30"
      then have "k + 2 < 2 ^ 32" by simp
      then obtain a' where "Application_TickFixed E ?S (of_nat (tick * 16))
          (snd (Application_SubmitInput ?S (bridge_input tick) (of_nat (tick * 16)) a)) = Some a'"
        "submitted in_process_ok (Suc k) (snd (Application_DrainEvents ?S a'))"
        by (rule in_process.submitted_turn [OF a])
      then show "\<exists>a'. bridge_tick E aim tick a = Some a' \<and> submitted in_process_ok (Suc k) a'"
        by (simp add: bridge_tick_def split_def)
    qed (use a1 in simp_all)
    then show ?thesis using that by blast
  qed
  moreover have "ap_fixedTick a2 = 30"
    using for_ticks_count [where count = ap_fixedTick, OF bridge_tick_count a2] Application_fixedTick(4) [OF a1(1)]
    by (simp add: new_ClientApplication_def)
  ultimately show ?thesis using a1
    by (intro exI [of _ a1] exI [of _ a2]) (simp add: single_process_main_def Let_def)
qed

section \<open>Two clients around a hub\<close>

text \<open>Everything on its way in a hub is valid; so a part that finds the hub so also leaves it so.\<close>

definition hub_ok :: "Hub \<Rightarrow> bool" where
  "hub_ok hub \<longleftrightarrow> (\<forall>e\<in>set (hub_toServer hub). valid_envelope e) \<and> (\<forall>c. \<forall>e\<in>set (client_queue c hub). valid_envelope e)"

definition hub_valid :: "MultiClientLoopbackTransport \<Rightarrow> bool" where
  "hub_valid t \<longleftrightarrow> (\<exists>hub. mt_hub t = Some hub \<and> hub_ok hub)"

lemma hub_ok_incoming: "hub_ok hub \<Longrightarrow> e \<in> set (incoming t hub) \<Longrightarrow> valid_envelope e"
  by (auto simp: hub_ok_def incoming_def split: if_splits)

lemma hub_ok_set_incoming: "hub_ok hub \<Longrightarrow> \<forall>e\<in>set q. valid_envelope e \<Longrightarrow> hub_ok (set_incoming t q hub)"
  by (auto simp: hub_ok_def set_incoming_def)

lemma hub_valid_multi: "hub_valid t \<Longrightarrow> multi_ok t"
  by (auto simp: hub_valid_def multi_ok_def multi_queue_def hub_ok_incoming)

lemma hub_valid_Send: "hub_valid t \<Longrightarrow> hub_valid (snd (Multi_Send e t))"
  by (auto simp: hub_valid_def Multi_Send_def multi_send_failure_def Let_def routed_envelope_def hub_ok_def)

lemma hub_valid_Poll:
  assumes "hub_valid t" shows "hub_valid (snd (Multi_Poll t))"
proof -
  obtain hub where hub: "mt_hub t = Some hub" "hub_ok hub" using assms by (auto simp: hub_valid_def)
  show ?thesis
  proof (cases "incoming t hub")
    case Nil
    then show ?thesis using hub by (auto simp: hub_valid_def Multi_Poll_def Let_def hub_ok_set_incoming)
  next
    case (Cons e rest)
    then have "\<forall>x\<in>set rest. valid_envelope x" using hub_ok_incoming [OF hub(2), of _ t] by auto
    then show ?thesis using hub Cons by (auto simp: hub_valid_def Multi_Poll_def Let_def hub_ok_set_incoming)
  qed
qed

interpretation shared_hub: transport multi_transport hub_valid "\<lambda>t. length (multi_queue t)"
proof
  show "hub_valid t'" if "hub_valid t" "tp_connect multi_transport t = (b, t')" for t b t'
    using that by (auto simp: multi_transport_def Multi_Connect_def hub_valid_def split: if_splits)
  show "hub_valid (tp_update multi_transport t)" "hub_valid (tp_close multi_transport t)" if "hub_valid t" for t
    using that by (auto simp: multi_transport_def Multi_Update_def Multi_Close_def hub_valid_def)
  show "hub_valid t' \<and> length (multi_queue t') \<le> length (multi_queue t)"
    if "hub_valid t" "tp_send multi_transport e t = (b, t')" for t e b t'
    using that multi.send_ok [OF hub_valid_multi [OF that(1)] that(2)] hub_valid_Send [OF that(1), of e]
    by (simp add: multi_transport_def)
  show "valid_envelope e \<and> tp_state multi_transport t' = Connected"
    if "hub_valid t" "tp_send multi_transport e t = (True, t')" for t e t'
    by (rule multi.send_valid [OF hub_valid_multi [OF that(1)] that(2)])
  show "hub_valid t' \<and> length (multi_queue t') \<le> length (multi_queue t)"
    if "hub_valid t" "tp_poll multi_transport t = (None, t')" for t t'
    using that multi.poll_none [OF hub_valid_multi [OF that(1)] that(2)] hub_valid_Poll [OF that(1)]
    by (simp add: multi_transport_def)
  show "hub_valid t' \<and> valid_envelope e \<and> length (multi_queue t') < length (multi_queue t)"
    if "hub_valid t" "tp_poll multi_transport t = (Some e, t')" for t e t'
    using that multi.poll_some [OF hub_valid_multi [OF that(1)] that(2)] hub_valid_Poll [OF that(1)]
    by (simp add: multi_transport_def)
qed

interpretation remote_hub: client_session E "remote_session multi_transport E" "remote_ok hub_valid" for E
  by (rule transport.remote_client_session [OF shared_hub.transport_axioms])

text \<open>A client is ready when it keeps its contract with any good hub filled in.\<close>

definition hub_client_ok :: "nat \<Rightarrow> 'r hub_client \<Rightarrow> bool" where
  "hub_client_ok k a \<longleftrightarrow> (\<forall>hub. hub_ok hub \<longrightarrow> submitted (remote_ok hub_valid) k (with_hub hub a))"

lemma submitted_with_hub:
  assumes "submitted (remote_ok hub_valid) k a" and "hub_ok hub"
  shows "hub_client_ok k a" and "hub_ok (client_hub hub a)"
proof -
  show "hub_client_ok k a"
    using assms(1) by (fastforce simp: hub_client_ok_def submitted_def application_ok_def with_hub_def remote_ok_def hub_valid_def)
  show "hub_ok (client_hub hub a)"
    using assms by (auto simp: submitted_def application_ok_def client_hub_def remote_ok_def hub_valid_def hub_of_def
        split: option.splits bind_splits)
qed

definition two_client_ok :: "nat \<Rightarrow> nat \<Rightarrow> 'r two_client_world \<Rightarrow> bool" where
  "two_client_ok i j w \<longleftrightarrow> hub_ok (tw_hub w) \<and> registered (tw_host w)
     \<and> hub_client_ok i (tw_one w) \<and> hub_client_ok j (tw_two w)"

lemma two_client_load:
  "two_client_ok i j w \<Longrightarrow> submitted (remote_ok hub_valid) i (load_one w)"
  "two_client_ok i j w \<Longrightarrow> submitted (remote_ok hub_valid) j (load_two w)"
  by (simp_all add: two_client_ok_def hub_client_ok_def load_one_def load_two_def)

lemma two_client_store:
  "two_client_ok i j w \<Longrightarrow> submitted (remote_ok hub_valid) k a \<Longrightarrow> two_client_ok k j (store_one a w)"
  "two_client_ok i j w \<Longrightarrow> submitted (remote_ok hub_valid) k a \<Longrightarrow> two_client_ok i k (store_two a w)"
  using submitted_with_hub by (auto simp: two_client_ok_def store_one_def store_two_def)

lemma two_client_server_returns:
  assumes "two_client_ok i j w"
  shows "\<exists>w'. two_client_server E now w = Some w' \<and> two_client_ok i j w'"
proof -
  let ?h = "load_host w"
  have "host_inv hub_valid (\<lambda>t. length (multi_queue t)) (length (multi_queue (nh_transport ?h))) ?h"
    using assms by (simp add: host_inv_def two_client_ok_def load_host_def hub_valid_def)
  from transport.PumpClientMessages_returns [OF shared_hub.transport_axioms this, of E] obtain h where
    h: "PumpClientMessages multi_transport E ?h = Some h"
      "host_inv hub_valid (\<lambda>t. length (multi_queue t)) (length (multi_queue (nh_transport ?h))) h" by blast
  from sending.TickAndSendSnapshots_inv [OF shared_hub.sending_axioms h(2), of E now] assms h(1)
  show ?thesis
    by (auto simp: two_client_server_def host_DrainEvents_def two_client_ok_def store_host_def host_inv_def
        hub_valid_def hub_of_def Let_def)
qed

lemma two_client_tick_returns:
  assumes w: "two_client_ok k k w" and k: "k < 320"
  shows "\<exists>w'. two_client_tick E tick w = Some w' \<and> two_client_ok (Suc k) (Suc k) w'"
proof -
  let ?S = "remote_session multi_transport E" and ?now = "of_nat (tick * 16)"
  have room: "k + 2 < 2 ^ 32" using k by simp
  let ?w1 = "store_one (snd (Application_SubmitInput ?S (two_client_input 1 tick) ?now (load_one w))) w"
  have w1: "two_client_ok (Suc k) k ?w1"
    by (rule two_client_store(1) [OF w remote_hub.submitted_SubmitInput [OF two_client_load(1) [OF w] room]])
  let ?w2 = "store_two (snd (Application_SubmitInput ?S (two_client_input 2 tick) ?now (load_two ?w1))) ?w1"
  have w2: "two_client_ok (Suc k) (Suc k) ?w2"
    by (rule two_client_store(2) [OF w1 remote_hub.submitted_SubmitInput [OF two_client_load(2) [OF w1] room]])
  obtain w3 where w3: "two_client_server E ?now ?w2 = Some w3" "two_client_ok (Suc k) (Suc k) w3"
    using two_client_server_returns [OF w2] by blast
  obtain one where one: "Application_TickFixed E ?S ?now (load_one w3) = Some one" "submitted (remote_ok hub_valid) (Suc k) one"
    using remote_hub.submitted_TickFixed [OF two_client_load(1) [OF w3(2)]] by blast
  note w4 = two_client_store(1) [OF w3(2) one(2)]
  obtain two where two: "Application_TickFixed E ?S ?now (load_two (store_one one w3)) = Some two"
    "submitted (remote_ok hub_valid) (Suc k) two"
    using remote_hub.submitted_TickFixed [OF two_client_load(2) [OF w4]] by blast
  note w5 = two_client_store(2) [OF w4 two(2)]
  note w6 = two_client_store(1) [OF w5 remote_hub.submitted_DrainEvents [OF two_client_load(1) [OF w5], of E]]
  note w7 = two_client_store(2) [OF w6 remote_hub.submitted_DrainEvents [OF two_client_load(2) [OF w6], of E]]
  show ?thesis using w3(1) one(1) two(1) w7 by (simp add: two_client_tick_def Let_def)
qed

text \<open>A new client at a hub connects.\<close>

lemma hub_client_connects:
  assumes "Application_Connect E (remote_session multi_transport E) now
      (with_hub hub (new_ClientApplication E (Some (MakeRemoteSession hub' c)) config)) = Some (b, a)"
  shows b
  using assms new_client_logs_in [of E now "ca_localClientId config"]
    login_envelope_valid [of "login_command (ca_localClientId config) now"]
  by (auto simp: Application_Connect_def new_ClientApplication_def with_hub_def MakeRemoteSession_def
      new_RemoteClientSession_def remote_session_def Remote_Connect_def TrySendLogin_def remote_state_def
      multi_transport_def Multi_Connect_def CreateClient_def new_MultiClientLoopbackTransport_def
      Pump_SendLogin_def Multi_Send_def Let_def split_def)

lemma with_hub_fixedTick [simp]: "ap_fixedTick (with_hub hub a) = ap_fixedTick a"
  by (simp add: with_hub_def)

definition two_client_ticks :: "'r two_client_world \<Rightarrow> Tick \<times> Tick" where
  "two_client_ticks w = (ap_fixedTick (tw_one w), ap_fixedTick (tw_two w))"

lemma two_client_ticks_parts [simp]:
  "two_client_ticks (store_one a w) = (ap_fixedTick a, snd (two_client_ticks w))"
  "two_client_ticks (store_two a w) = (fst (two_client_ticks w), ap_fixedTick a)"
  "ap_fixedTick (load_one w) = fst (two_client_ticks w)" "ap_fixedTick (load_two w) = snd (two_client_ticks w)"
  by (simp_all add: two_client_ticks_def store_one_def store_two_def load_one_def load_two_def)

lemma two_client_tick_count:
  assumes "two_client_tick E tick w = Some w'"
  shows "fst (two_client_ticks w') = fst (two_client_ticks w) + 1" "snd (two_client_ticks w') = snd (two_client_ticks w) + 1"
proof -
  have server: "two_client_ticks k' = two_client_ticks k" if "two_client_server E now k = Some k'" for now and k k' :: "'a two_client_world"
    using that by (auto simp: two_client_server_def store_host_def two_client_ticks_def Let_def split_def split: bind_splits)
  show "fst (two_client_ticks w') = fst (two_client_ticks w) + 1" "snd (two_client_ticks w') = snd (two_client_ticks w) + 1"
    using assms by (auto simp: two_client_tick_def Application_fixedTick Let_def split: bind_splits
        dest!: server Application_fixedTick(2))
qed

text \<open>Both clients connect, the run takes its ticks, and the program reports the world it leaves.\<close>

definition two_client_run :: "'r entt_ops \<Rightarrow> nat \<Rightarrow> 'r two_client_world \<Rightarrow> bool" where
  "two_client_run E n w \<longleftrightarrow> (let S = remote_session multi_transport E; w0 = new_two_client_world E in
     \<exists>one two. Application_Connect E S 0 (load_one w0) = Some (True, one)
       \<and> Application_Connect E S 0 (load_two (store_one one w0)) = Some (True, two)
       \<and> for_ticks (two_client_tick E) [0..<n] (store_two two (store_one one w0)) = Some w)"

lemma two_client_smoke_main_returns:
  "\<exists>w. two_client_run E 320 w \<and> ap_fixedTick (tw_one w) = 320 \<and> ap_fixedTick (tw_two w) = 320
     \<and> two_client_smoke_main E = Some (two_client_report E w)"
proof -
  let ?S = "remote_session multi_transport E" and ?w = "new_two_client_world E"
  have new: "submitted (remote_ok hub_valid) 0 (new_ClientApplication E (Some (MakeRemoteSession CreateHub c)) config)" for c config
    by (rule submitted_new) (auto intro!: remote_ok_new simp: MakeRemoteSession_def hub_valid_def CreateClient_def
        new_MultiClientLoopbackTransport_def hub_ok_def CreateHub_def client_queue_def)
  have "hub_ok CreateHub" by (simp add: hub_ok_def CreateHub_def client_queue_def)
  then have w: "two_client_ok 0 0 ?w"
    using submitted_with_hub(1) [OF new] by (simp add: two_client_ok_def new_two_client_world_def registered_def new_ServerNetworkHost_def)
  obtain b one where one: "Application_Connect E ?S 0 (load_one ?w) = Some (b, one)" "submitted (remote_ok hub_valid) 0 one"
    using remote_hub.submitted_Connect [OF two_client_load(1) [OF w]] by blast
  note w1 = two_client_store(1) [OF w one(2)]
  obtain b2 two where two: "Application_Connect E ?S 0 (load_two (store_one one ?w)) = Some (b2, two)"
    "submitted (remote_ok hub_valid) 0 two"
    using remote_hub.submitted_Connect [OF two_client_load(2) [OF w1]] by blast
  note w2 = two_client_store(2) [OF w1 two(2)]
  have connected: b b2
    using one(1) two(1) hub_client_connects
    by (fastforce simp: load_one_def load_two_def store_one_def new_two_client_world_def Let_def)+
  have "\<exists>w'. for_ticks (two_client_tick E) [0..<320] (store_two two (store_one one ?w)) = Some w'
      \<and> two_client_ok (0 + length [0..<320]) (0 + length [0..<320]) w'"
    by (rule for_ticks_returns [where N = 320 and Inv = "\<lambda>k. two_client_ok k k"])
      (use w2 two_client_tick_returns in simp_all)
  then obtain w' where w': "for_ticks (two_client_tick E) [0..<320] (store_two two (store_one one ?w)) = Some w'" by blast
  have zero: "fst (two_client_ticks ?w) = 0" "snd (two_client_ticks ?w) = 0"
    by (simp_all add: two_client_ticks_def new_two_client_world_def new_ClientApplication_def Let_def)
  have start: "fst (two_client_ticks (store_two two (store_one one ?w))) = 0"
    "snd (two_client_ticks (store_two two (store_one one ?w))) = 0"
    using Application_fixedTick(4) [OF one(1)] Application_fixedTick(4) [OF two(1)] by (simp_all add: zero)
  have steps: "fst (two_client_ticks s') = fst (two_client_ticks s) + 1" "snd (two_client_ticks s') = snd (two_client_ticks s) + 1"
    if "two_client_tick E tick s = Some s'" for tick s s' by (rule two_client_tick_count [OF that])+
  have "fst (two_client_ticks w') = 320"
    using for_ticks_count [where count = "\<lambda>w. fst (two_client_ticks w)" and body = "two_client_tick E", OF steps(1) w'] start by simp
  moreover have "snd (two_client_ticks w') = 320"
    using for_ticks_count [where count = "\<lambda>w. snd (two_client_ticks w)" and body = "two_client_tick E", OF steps(2) w'] start by simp
  ultimately have "ap_fixedTick (tw_one w') = 320" "ap_fixedTick (tw_two w') = 320" by (simp_all add: two_client_ticks_def)
  then show ?thesis using one two connected w'
    by (intro exI [of _ w']) (auto simp: two_client_smoke_main_def two_client_run_def Let_def)
qed

section \<open>A client and a server over a transport pair\<close>

lemma pumped_ok_load [simp]: "pumped_ok (load_end e w) = pumped_ok (rw_end e w)"
  by (simp add: pumped_ok_def load_end_def)

definition rtc_smoke_ok :: "nat \<Rightarrow> 'r rtc_smoke_world \<Rightarrow> bool" where
  "rtc_smoke_ok k w \<longleftrightarrow> pumped_ok (rw_client (rs_pair w)) \<and> pumped_ok (rw_server (rs_pair w))
     \<and> registered (rs_host w) \<and> submitted (remote_ok pumped_ok) k (rs_client w)"

lemma rtc_load: "rtc_smoke_ok k w \<Longrightarrow> submitted (remote_ok pumped_ok) k (load_client w)"
  by (fastforce simp: rtc_smoke_ok_def submitted_def application_ok_def remote_ok_def load_client_def)

lemma rtc_store:
  assumes "rtc_smoke_ok k w" and "submitted (remote_ok pumped_ok) i a"
  shows "rtc_smoke_ok i (store_client a w)"
  using assms by (auto simp: rtc_smoke_ok_def submitted_def application_ok_def remote_ok_def store_client_def
      split: option.splits bind_splits)

lemma rtc_update: "rtc_smoke_ok k w \<Longrightarrow> rtc_smoke_ok k (update_server_end w)"
  using in_memory_pumped.update_ok [of "load_end Server_End (rs_pair w)"]
  by (simp add: rtc_smoke_ok_def update_server_end_def)

lemma rtc_server_turn_returns:
  assumes "rtc_smoke_ok k w"
  shows "\<exists>w'. rtc_server_turn E now w = Some w' \<and> rtc_smoke_ok k w'"
proof -
  let ?n = "pumped_backlog Channel_Incoming"
  let ?h = "(rs_host w)\<lparr>nh_transport := load_end Server_End (rs_pair w)\<rparr>"
  have "host_inv pumped_ok ?n (?n (load_end Server_End (rs_pair w))) ?h"
    using assms by (simp add: host_inv_def rtc_smoke_ok_def)
  from transport.PumpClientMessages_returns [OF in_memory_pumped.transport_axioms this, of E] obtain h where
    h: "PumpClientMessages rtc_transport E ?h = Some h" "host_inv pumped_ok ?n (?n (load_end Server_End (rs_pair w))) h" by blast
  from sending.TickAndSendSnapshots_inv [OF in_memory_pumped.sending_axioms h(2), of E now] assms h(1)
  show ?thesis by (auto simp: rtc_server_turn_def rtc_smoke_ok_def host_inv_def Let_def)
qed

lemma rtc_smoke_tick_returns:
  assumes w: "rtc_smoke_ok k w" and k: "k < 180"
  shows "\<exists>w'. rtc_smoke_tick E tick w = Some w' \<and> rtc_smoke_ok (Suc k) w'"
proof -
  let ?S = "remote_session rtc_transport E" and ?now = "of_nat (tick * 16)"
  have room: "k + 2 < 2 ^ 32" using k by simp
  let ?w1 = "store_client (snd (Application_SubmitInput ?S (rtc_input tick) ?now (load_client w))) w"
  have w1: "rtc_smoke_ok (Suc k) ?w1"
    by (rule rtc_store [OF w remote_pumped.submitted_SubmitInput [OF rtc_load [OF w] room]])
  obtain w2 where w2: "rtc_server_turn E ?now (update_server_end ?w1) = Some w2" "rtc_smoke_ok (Suc k) w2"
    using rtc_server_turn_returns [OF rtc_update [OF w1]] by blast
  note w3 = rtc_update [OF w2(2)]
  obtain a where a: "Application_TickFixed E ?S ?now (load_client (update_server_end w2)) = Some a"
    "submitted (remote_ok pumped_ok) (Suc k) a"
    using remote_pumped.submitted_TickFixed [OF rtc_load [OF w3]] by blast
  note w4 = rtc_store [OF w3 a(2)]
  note w5 = rtc_store [OF w4 remote_pumped.submitted_DrainEvents [OF rtc_load [OF w4], of E]]
  show ?thesis using w2(1) a(1) w5 by (simp add: rtc_smoke_tick_def Let_def)
qed

lemma rtc_smoke_config_ok: "pair_config_ok rtc_smoke_config"
  by (simp add: pair_config_ok_def rtc_smoke_config_def bytes_of_def kMaxRtcSignalingPayloadBytes_def)

lemma rtc_server_starts:
  assumes "pair_config_ok config"
  obtains server where "Pumped_Connect in_memory_signaling
      (load_end Server_End (CreateInMemoryKcpRtcTransportPair config)) = (True, server)"
    "pumped_ok server" "end_channel server = empty_ChannelShared"
proof -
  let ?w = "CreateInMemoryKcpRtcTransportPair config"
  let ?d = "snd Channel_CreatePair"
  have w: "rw_end Server_End ?w = new_endpoint config Server_End ?d" "md_state ?d = Some (rw_channel ?w)"
    "rw_channel ?w = empty_ChannelShared"
    by (simp_all add: CreateInMemoryKcpRtcTransportPair_def Channel_CreatePair_def new_InMemoryRtcDataChannel_def
        default_InMemoryRtcDataChannel_def del: end_config.simps)
  have "pumped_ok (load_end Server_End ?w)" unfolding load_fresh [OF w(1,2)] by (rule pumped_ok_new)
  then have "pumped_ok p'" if "Pumped_Connect in_memory_signaling (load_end Server_End ?w) = (b, p')" for b p'
    using in_memory_rtc.Pumped_Connect_ok that by blast
  moreover have c: "Pumped_Connect in_memory_signaling (load_end Server_End ?w)
      = (True, connecting_end config Server_End (peer_registered config Server_End (rw_hub ?w)) ?d)"
    unfolding load_fresh [OF w(1,2)] by (rule Pumped_Connect_fresh [OF assms])
  ultimately show ?thesis
    using that [OF c] end_shared_connecting(2) [of ?d] w(2,3) by simp
qed

lemma connecting_end_state: "Pumped_State (connecting_end config e hub d) = Connecting"
  by (simp add: connecting_end_def Pumped_State_def connecting_def)

lemma Remote_Connect_connecting:
  assumes "rm_transport s = Some t" and "tp_connect T t = (True, t')" and "tp_state T t' \<noteq> Connected"
  shows "fst (Remote_Connect T c now s)"
  using assms by (simp add: Remote_Connect_def Let_def)

lemma rtc_smoke_ticks [simp]:
  "ap_fixedTick (load_client w) = ap_fixedTick (rs_client w)" "rs_client (store_client a w) = a"
  "rs_client (update_server_end w) = rs_client w"
  by (simp_all add: load_client_def store_client_def update_server_end_def)

lemma rtc_smoke_tick_count:
  assumes "rtc_smoke_tick E tick w = Some w'"
  shows "ap_fixedTick (rs_client w') = ap_fixedTick (rs_client w) + 1"
proof -
  have server: "rs_client k' = rs_client k" if "rtc_server_turn E now k = Some k'" for now and k k' :: "'a rtc_smoke_world"
    using that by (auto simp: rtc_server_turn_def Let_def split: bind_splits)
  show ?thesis
    using assms by (auto simp: rtc_smoke_tick_def Application_fixedTick Let_def split: bind_splits
        dest!: server Application_fixedTick(2))
qed

text \<open>The server's end starts, the client connects, and the run takes its ticks.\<close>

definition rtc_smoke_run :: "'r entt_ops \<Rightarrow> nat \<Rightarrow> 'r rtc_smoke_world \<Rightarrow> bool" where
  "rtc_smoke_run E n w \<longleftrightarrow> (\<exists>server client. let pair = CreateInMemoryKcpRtcTransportPair rtc_smoke_config;
       pair1 = store_end Server_End server pair;
       w0 = \<lparr>rs_pair = pair1, rs_host = new_ServerNetworkHost E (load_end Server_End pair1) default_HostConfig,
         rs_client = new_ClientApplication E (Some (new_RemoteClientSession (Some (rw_client pair1)))) \<lparr>ca_localClientId = 1\<rparr>\<rparr>
     in tp_connect rtc_transport (load_end Server_End pair) = (True, server)
       \<and> Application_Connect E (remote_session rtc_transport E) 0 (load_client w0) = Some (True, client)
       \<and> for_ticks (rtc_smoke_tick E) [0..<n] (store_client client w0) = Some w)"

lemma rtc_smoke_main_returns:
  "\<exists>w. rtc_smoke_run E 180 w \<and> ap_fixedTick (rs_client w) = 180 \<and> rtc_smoke_main E = Some (rtc_smoke_report E w)"
proof -
  let ?S = "remote_session rtc_transport E"
  let ?pair = "CreateInMemoryKcpRtcTransportPair rtc_smoke_config"
  obtain server where server: "Pumped_Connect in_memory_signaling (load_end Server_End ?pair) = (True, server)"
    "pumped_ok server" "end_channel server = empty_ChannelShared"
    using rtc_server_starts [OF rtc_smoke_config_ok] by blast
  let ?pair1 = "store_end Server_End server ?pair" and ?d = "fst Channel_CreatePair"
  have client: "rw_end Client_End ?pair1 = new_endpoint rtc_smoke_config Client_End ?d" "md_state ?d = Some (rw_channel ?pair1)"
    using server(3) by (simp_all add: CreateInMemoryKcpRtcTransportPair_def Channel_CreatePair_def
        new_InMemoryRtcDataChannel_def default_InMemoryRtcDataChannel_def del: end_config.simps)
  define w where "w = \<lparr>rs_pair = ?pair1, rs_host = new_ServerNetworkHost E (load_end Server_End ?pair1) default_HostConfig,
    rs_client = new_ClientApplication E (Some (new_RemoteClientSession (Some (rw_client ?pair1)))) \<lparr>ca_localClientId = 1\<rparr>\<rparr>"
  have ends: "pumped_ok (rw_client ?pair1)" "pumped_ok (rw_server ?pair1)"
    using client(1) server(2) by (simp_all add: new_endpoint_def pumped_ok_new del: end_config.simps)
  have w: "rtc_smoke_ok 0 w"
    using ends by (auto simp: rtc_smoke_ok_def w_def registered_def new_ServerNetworkHost_def
        intro!: submitted_new remote_ok_new)
  obtain b a where a: "Application_Connect E ?S 0 (load_client w) = Some (b, a)" "submitted (remote_ok pumped_ok) 0 a"
    using remote_pumped.submitted_Connect [OF rtc_load [OF w]] by blast
  have connect: "Pumped_Connect in_memory_signaling (load_end Client_End ?pair1) =
      (True, connecting_end rtc_smoke_config Client_End (peer_registered rtc_smoke_config Client_End (rw_hub ?pair1)) ?d)"
    unfolding load_fresh [OF client] by (rule Pumped_Connect_fresh [OF rtc_smoke_config_ok])
  let ?s = "new_RemoteClientSession (Some (load_end Client_End ?pair1))"
  have load: "load_client w = new_ClientApplication E (Some ?s) \<lparr>ca_localClientId = 1\<rparr>"
    by (simp add: load_client_def w_def new_ClientApplication_def new_RemoteClientSession_def del: store_end.simps)
  have "fst (Remote_Connect rtc_transport 1 0 ?s)"
    by (rule Remote_Connect_connecting [where t = "load_end Client_End ?pair1"
          and t' = "snd (Pumped_Connect in_memory_signaling (load_end Client_End ?pair1))"])
      (simp_all add: new_RemoteClientSession_def pumped_transport_def connect connecting_end_state
        del: end_config.simps store_end.simps)
  then have b
    using a(1) new_client_logs_in [of E 0 1]
    by (auto simp: Application_Connect_def load new_ClientApplication_def remote_session_def Let_def split_def
        simp del: store_end.simps)
  have "\<exists>w'. for_ticks (rtc_smoke_tick E) [0..<180] (store_client a w) = Some w'
      \<and> rtc_smoke_ok (0 + length [0..<180]) w'"
    by (rule for_ticks_returns [where N = 180]) (use rtc_store [OF w a(2)] rtc_smoke_tick_returns in simp_all)
  then obtain w' where w': "for_ticks (rtc_smoke_tick E) [0..<180] (store_client a w) = Some w'" by blast
  have "ap_fixedTick (rs_client w') = 180"
    using for_ticks_count [where count = "\<lambda>w. ap_fixedTick (rs_client w)" and body = "rtc_smoke_tick E", OF rtc_smoke_tick_count w']
      Application_fixedTick(4) [OF a(1)] by (simp add: w_def new_ClientApplication_def)
  moreover have "rtc_smoke_run E 180 w'"
    unfolding rtc_smoke_run_def Let_def w_def [symmetric]
    by (intro exI [of _ server] exI [of _ a])
      (use a(1) \<open>b\<close> server(1) w' in \<open>simp add: w_def pumped_transport_def del: store_end.simps\<close>)
  moreover note w'
  then have "rtc_smoke_main E = Some (rtc_smoke_report E w')"
    using a(1) \<open>b\<close> server(1) by (simp add: rtc_smoke_main_def pumped_transport_def w_def Let_def
        del: store_end.simps)
  ultimately show ?thesis by blast
qed

section \<open>The programs\<close>

text \<open>C9. Every program without a window ends, on any entity registry: the server runs its one tick, reports
  it with no client and exits with zero; the single-process bridge connects, runs its thirty ticks, reports the
  entities and snapshots of the application after them and exits with zero; the two-client program and the RTC
  program connect all their parts (\<open>two_client_run\<close>, \<open>rtc_smoke_run\<close>), run their 320 and 180 ticks, in which every
  client ticks as often, and report the world after the last one, with the code of their final checks on it.\<close>

theorem programs_end:
  "server_main E = Some \<lparr>px_code = 0,
     px_out = line ''Server application smoke ran. Ticks: 1, network clients: 0'', px_err = []\<rparr>
   \<and> (\<exists>a1 a2. Application_Connect E (in_process_session E aim) 0
         (new_ClientApplication E (Some (new_InProcessClientSession default_InProcessConfig)) \<lparr>ca_localClientId = 1\<rparr>) = Some (True, a1)
       \<and> for_ticks (bridge_tick E aim) [0..<30] a1 = Some a2 \<and> ap_fixedTick a2 = 30
       \<and> single_process_main E aim = Some \<lparr>px_code = 0,
           px_out = line (''Single-process bridge ran. Entities: ''
             @ decimal (at_entityCount (Application_Stats (in_process_session E aim) a2))
             @ '', snapshots applied: ''
             @ decimal (ss_snapshotsApplied (at_session (Application_Stats (in_process_session E aim) a2)))),
           px_err = []\<rparr>)
   \<and> (\<exists>w. two_client_run E 320 w \<and> ap_fixedTick (tw_one w) = 320 \<and> ap_fixedTick (tw_two w) = 320
       \<and> two_client_smoke_main E = Some (two_client_report E w))
   \<and> (\<exists>w. rtc_smoke_run E 180 w \<and> ap_fixedTick (rs_client w) = 180 \<and> rtc_smoke_main E = Some (rtc_smoke_report E w))"
  by (intro conjI server_main_result single_process_main_result two_client_smoke_main_returns rtc_smoke_main_returns)

end
