(* ===== verification/Client_Host_Properties.thy ===== *)
theory Client_Host_Properties
  imports Client_Host Program_Properties
begin

text \<open>
  The client with a window runs until the user closes it, whatever the floats, the clock, the mouse and the
  keyboard do, and its drawing keeps to the drawing library's protocol.
\<close>

section \<open>The loop over the frames\<close>

lemma raylib_lawsD:
  assumes "raylib_laws R drawn frames_left"
  shows "drawn (rl_draw R c w) = drawn w @ [c]"
    and "frames_left (rl_draw R c w) = (if c = EndDrawing then frames_left w - 1 else frames_left w)"
    and "rl_WindowShouldClose R w = (b, w') \<Longrightarrow> drawn w' = drawn w \<and> frames_left w' = frames_left w"
    and "rl_WindowShouldClose R w = (False, w') \<Longrightarrow> frames_left w \<noteq> 0"
    and "drawn (OpenView R config w) = drawn w" "frames_left (OpenView R config w) = frames_left w"
    and "drawn (rl_CloseWindow R w) = drawn w"
proof -
  show "drawn (rl_draw R c w) = drawn w @ [c]"
    "frames_left (rl_draw R c w) = (if c = EndDrawing then frames_left w - 1 else frames_left w)"
    "drawn (OpenView R config w) = drawn w" "frames_left (OpenView R config w) = frames_left w"
    "drawn (rl_CloseWindow R w) = drawn w"
    using assms by (simp_all add: raylib_laws_def OpenView_def)
  have "drawn (snd (rl_WindowShouldClose R w)) = drawn w" "frames_left (snd (rl_WindowShouldClose R w)) = frames_left w"
    "frames_left w = 0 \<longrightarrow> fst (rl_WindowShouldClose R w)"
    using assms by (simp_all add: raylib_laws_def)
  then show "rl_WindowShouldClose R w = (b, w') \<Longrightarrow> drawn w' = drawn w \<and> frames_left w' = frames_left w"
    "rl_WindowShouldClose R w = (False, w') \<Longrightarrow> frames_left w \<noteq> 0" by auto
qed

lemma draw_all:
  assumes "raylib_laws R drawn frames_left"
  shows "drawn (fold (rl_draw R) cs w) = drawn w @ cs"
    and "EndDrawing \<notin> set cs \<Longrightarrow> frames_left (fold (rl_draw R) cs w) = frames_left w"
  by (induction cs arbitrary: w) (auto simp: raylib_lawsD(1,2) [OF assms])

text \<open>A rendered frame uses up one of the frames that are left.\<close>

lemma draw_frame:
  assumes "raylib_laws R drawn frames_left"
  shows "frames_left (fold (rl_draw R) (Render F config view) w) = frames_left w - 1"
proof -
  obtain cs where "Render F config view = cs @ [EndDrawing]" "EndDrawing \<notin> set cs" by (rule render_ends_once)
  then show ?thesis using draw_all(2) [OF assms] raylib_lawsD(2) [OF assms] by simp
qed

text \<open>A host that has submitted at most \<open>k\<close> inputs, with its logs and its clock in their limits.\<close>

definition hosting :: "('s \<Rightarrow> bool) \<Rightarrow> nat \<Rightarrow> ('s, 'r, 'f) client_host \<Rightarrow> bool" where
  "hosting ok k h \<longleftrightarrow> (\<exists>sent. length sent \<le> k \<and> application_ok ok (ho_app h) sent) \<and> logs_ok h
     \<and> frame_limits h = (8, 8, 24)"

definition view_bounded :: "ClientViewFrame \<Rightarrow> bool" where
  "view_bounded view \<longleftrightarrow> length (vw_eventLines view) \<le> 8 \<and> length (vw_effects view) \<le> 24"

text \<open>
  The world after some frames were shown: before each the window was asked whether it should close. Frames are
  shown until it should for the first time. \<open>few_ticks n views\<close>: the ticks counted in the views, after \<open>n\<close>
  before them, grow by at most eight from each frame to the next.
\<close>

fun after_frames :: "('w, 'f) raylib_ops \<Rightarrow> 'f float_ops \<Rightarrow> RaylibClientHostConfig \<Rightarrow> ClientViewFrame list \<Rightarrow> 'w \<Rightarrow> 'w" where
  "after_frames R F config [] w = w"
| "after_frames R F config (view # views) w =
     after_frames R F config views (fold (rl_draw R) (Render F config view) (snd (rl_WindowShouldClose R w)))"

definition shown_until_closed ::
    "('w, 'f) raylib_ops \<Rightarrow> 'f float_ops \<Rightarrow> RaylibClientHostConfig \<Rightarrow> ClientViewFrame list \<Rightarrow> 'w \<Rightarrow> 'w \<Rightarrow> bool" where
  "shown_until_closed R F config views w w' \<longleftrightarrow>
     (\<forall>k<length views. \<not> fst (rl_WindowShouldClose R (after_frames R F config (take k views) w)))
     \<and> rl_WindowShouldClose R (after_frames R F config views w) = (True, w')"

definition view_ticks :: "ClientViewFrame list \<Rightarrow> Tick list" where
  "view_ticks views = map (\<lambda>view. at_fixedTick (vw_stats view)) views"

definition few_ticks :: "Tick \<Rightarrow> ClientViewFrame list \<Rightarrow> bool" where
  "few_ticks n views \<longleftrightarrow> successively (\<lambda>a b. b - a \<le> 8) (n # view_ticks views)"

lemma shown_closed [simp]: "shown_until_closed R F config [] w w' \<longleftrightarrow> rl_WindowShouldClose R w = (True, w')"
  by (simp add: shown_until_closed_def)

lemma shown_frame:
  assumes "rl_WindowShouldClose R w = (False, w1)"
    and "shown_until_closed R F config views (fold (rl_draw R) (Render F config view) w1) w'"
  shows "shown_until_closed R F config (view # views) w w'"
  using assms by (simp add: shown_until_closed_def All_less_Suc2)

lemma few_ticks_frame:
  assumes "ticks \<le> 8" and "at_fixedTick (vw_stats view) = n + of_nat ticks" and "few_ticks (at_fixedTick (vw_stats view)) views"
  shows "few_ticks n (view # views)"
proof -
  have "(of_nat ticks :: Tick) \<le> 8" using assms(1) by (simp add: word_le_nat_alt unat_of_nat)
  then show ?thesis using assms(2,3) by (simp add: few_ticks_def view_ticks_def)
qed

lemma hosting_new: "application_ok ok app [] \<Longrightarrow> hosting ok 0 (new_client_host F app)"
  by (simp add: hosting_def new_client_host_def logs_ok_def frame_limits_def new_ClientEventLog_def
      new_ClientVisualEffectLog_def new_FixedStepClock_def default_FixedStepClockConfig_def)

context client_session
begin

lemma window_frame_returns:
  fixes h :: "('s, 'r, 'f) client_host" and F :: "'f float_ops" and R :: "('w, 'f) raylib_ops"
  assumes "hosting ok k h" and "k + 9 < 2 ^ 32"
  shows "\<exists>view h' ticks. window_frame R F E S config (h, w) = Some (h', fold (rl_draw R) (Render F config view) w)
     \<and> hosting ok (k + 8) h' \<and> view_bounded view \<and> at_fixedTick (vw_stats view) = ap_fixedTick (ho_app h')
     \<and> ticks \<le> 8 \<and> ap_fixedTick (ho_app h') = ap_fixedTick (ho_app h) + of_nat ticks"
proof -
  obtain sent where sent: "length sent \<le> k" "application_ok ok (ho_app h) sent" and logs: "logs_ok h"
    and limits: "nat (sint (fx_maxTicksPerFrame (fc_config (ho_fixedStep h)))) = 8" "el_maxEntries (ho_eventLog h) = 8"
      "vl_maxEntries (ho_visualEffectLog h) = 24"
    using assms(1) by (auto simp: hosting_def frame_limits_def)
  have "length sent + 8 + 1 < 2 ^ 32" using sent(1) assms(2) by simp
  then obtain view h' sent' where r:
    "RunFrame F E S (rl_GetFrameTime R w) (SampleInput R F config w) (rl_now R w) h = Some (view, h')"
    "application_ok ok (ho_app h') sent'" "logs_ok h'" "length sent \<le> length sent'" "length sent' \<le> length sent + 8"
    "ap_fixedTick (ho_app h') = ap_fixedTick (ho_app h) + of_nat (length sent' - length sent)"
    "length (vw_eventLines view) \<le> 8" "length (vw_effects view) \<le> 24"
    using RunFrame_returns [OF sent(2) logs, where F = F and frameSeconds = "rl_GetFrameTime R w"
        and input = "SampleInput R F config w" and now = "rl_now R w"] unfolding limits by blast
  have "hosting ok (k + 8) h'"
    using r(2,3,5) sent(1) RunFrame_limits [OF r(1)] assms(1)
    by (auto simp: hosting_def intro!: exI [of _ sent'])
  moreover have "length sent' - length sent \<le> 8" using r(5) by simp
  ultimately show ?thesis using r(1,6-8) RunFrame_stats [OF r(1)]
    by (intro exI [of _ view] exI [of _ h'] exI [of _ "length sent' - length sent"])
      (simp add: window_frame_def view_bounded_def)
qed

text \<open>The loop ends, with one drawn frame for each turn.\<close>

lemma window_loop_returns:
  fixes h :: "('s, 'r, 'f) client_host" and F :: "'f float_ops" and R :: "('w, 'f) raylib_ops"
  assumes laws: "raylib_laws R drawn frames_left"
    and "hosting ok k h" and "k + frames_left w * 8 + 1 < 2 ^ 32"
  shows "\<exists>views h' w' ticks. window_loop R F E S config (h, w) = Some (h', w')
     \<and> shown_until_closed R F config views w w'
     \<and> drawn w' = drawn w @ concat (map (Render F config) views)
     \<and> length views \<le> frames_left w \<and> list_all view_bounded views
     \<and> few_ticks (ap_fixedTick (ho_app h)) views \<and> ap_fixedTick (ho_app h') = last (ap_fixedTick (ho_app h) # view_ticks views)
     \<and> ticks \<le> length views * 8 \<and> ap_fixedTick (ho_app h') = ap_fixedTick (ho_app h) + of_nat ticks"
  using assms(2,3)
proof (induction "frames_left w" arbitrary: h w k)
  case 0
  obtain b w' where close: "rl_WindowShouldClose R w = (b, w')" by fastforce
  with raylib_lawsD(4) [OF laws, of w w'] 0(1) have b by (cases b) auto
  then have "window_loop R F E S config (h, w) = Some (h, w')"
    by (subst window_loop.simps) (simp add: close)
  then show ?case using raylib_lawsD(3) [OF laws close]
    by (intro exI [of _ "[]"] exI [of _ h] exI [of _ w'] exI [of _ 0])
      (use \<open>b\<close> close in \<open>simp add: few_ticks_def view_ticks_def\<close>)
next
  case (Suc n)
  obtain b w1 where close: "rl_WindowShouldClose R w = (b, w1)" by fastforce
  note same = raylib_lawsD(3) [OF laws close]
  show ?case
  proof (cases b)
    case True
    then have "window_loop R F E S config (h, w) = Some (h, w1)"
      by (subst window_loop.simps) (simp add: close)
    then show ?thesis using same
      by (intro exI [of _ "[]"] exI [of _ h] exI [of _ w1] exI [of _ 0])
        (use True close in \<open>simp add: few_ticks_def view_ticks_def\<close>)
  next
    case False
    have "k + 9 < 2 ^ 32" using Suc.prems(2) Suc.hyps(2) by simp
    then obtain view h2 ticks where r:
      "window_frame R F E S config (h, w1) = Some (h2, fold (rl_draw R) (Render F config view) w1)"
      "hosting ok (k + 8) h2" "view_bounded view" "at_fixedTick (vw_stats view) = ap_fixedTick (ho_app h2)" "ticks \<le> 8"
      "ap_fixedTick (ho_app h2) = ap_fixedTick (ho_app h) + of_nat ticks"
      using window_frame_returns [OF Suc.prems(1), where R = R and F = F and config = config and w = w1] by blast
    let ?w2 = "fold (rl_draw R) (Render F config view) w1"
    have left: "n = frames_left ?w2" using draw_frame [OF laws] same Suc.hyps(2) by (metis diff_Suc_1)
    have "k + 8 + frames_left ?w2 * 8 + 1 < 2 ^ 32" using Suc.prems(2) Suc.hyps(2) left by simp
    from Suc.hyps(1) [OF left r(2) this] obtain views h3 w3 more where i:
      "window_loop R F E S config (h2, ?w2) = Some (h3, w3)" "shown_until_closed R F config views ?w2 w3"
      "drawn w3 = drawn ?w2 @ concat (map (Render F config) views)" "length views \<le> frames_left ?w2"
      "list_all view_bounded views" "few_ticks (ap_fixedTick (ho_app h2)) views"
      "ap_fixedTick (ho_app h3) = last (ap_fixedTick (ho_app h2) # view_ticks views)" "more \<le> length views * 8"
      "ap_fixedTick (ho_app h3) = ap_fixedTick (ho_app h2) + of_nat more" by blast
    have "window_loop R F E S config (h, w) = Some (h3, w3)"
      using False r(1) i(1) by (subst window_loop.simps) (simp add: close)
    moreover have "shown_until_closed R F config (view # views) w w3"
      by (rule shown_frame [OF _ i(2)]) (use close False in simp)
    moreover have "drawn w3 = drawn w @ concat (map (Render F config) (view # views))"
      using i(3) same draw_all(1) [OF laws] by simp
    moreover have "length (view # views) \<le> frames_left w" using i(4) left Suc.hyps(2) by simp
    moreover have "few_ticks (ap_fixedTick (ho_app h)) (view # views)"
      by (rule few_ticks_frame [OF r(5)]) (use r(4,6) i(6) in simp_all)
    moreover have "ap_fixedTick (ho_app h3) = last (ap_fixedTick (ho_app h) # view_ticks (view # views))"
      using i(7) r(4) by (simp add: view_ticks_def)
    moreover have "ticks + more \<le> length (view # views) * 8" using r(5) i(8) by simp
    moreover have "ap_fixedTick (ho_app h3) = ap_fixedTick (ho_app h) + of_nat (ticks + more)" using r(6) i(9) by simp
    ultimately show ?thesis using r(3) i(5)
      by (intro exI [of _ "view # views"] exI [of _ h3] exI [of _ w3] exI [of _ "ticks + more"]) simp
  qed
qed

end

text \<open>The browser's frames return as well, however many it asks for within the range of the input numbers.\<close>

context client_session
begin

lemma browser_frames_return:
  fixes st :: "('s, 'r, 'f) client_host \<times> 'w" and F :: "'f float_ops" and R :: "('w, 'f) raylib_ops"
  assumes "hosting ok k (fst st)" and "k + n * 8 + 1 < 2 ^ 32"
  shows "\<exists>st'. browser_frames R F E S config n st = Some st' \<and> hosting ok (k + n * 8) (fst st')"
  using assms
proof (induction n arbitrary: k st)
  case (Suc n)
  obtain h w where st: "st = (h, w)" by (cases st)
  have "hosting ok k h" "k + 9 < 2 ^ 32" using Suc.prems by (simp_all add: st)
  then obtain view h' where r: "window_frame R F E S config (h, w) = Some (h', fold (rl_draw R) (Render F config view) w)"
    "hosting ok (k + 8) h'"
    using window_frame_returns [where R = R and F = F and config = config and w = w] by blast
  have "k + 8 + n * 8 + 1 < 2 ^ 32" using Suc.prems(2) by simp
  from Suc.IH [OF _ this, of "(h', fold (rl_draw R) (Render F config view) w)"] r show ?case
    by (simp add: st add.assoc)
qed simp

end

lemma browser_game_runs:
  fixes R :: "('w, 'f) raylib_ops"
  assumes "n < 2 ^ 28"
  shows "\<exists>h w' st. browser_main R F E w = Some (True, h, w') \<and> browser_frames R F E preview_session config n (h, w') = Some st"
proof -
  let ?app = "new_ClientApplication E (Some \<lparr>lp_stats = zero_ClientSessionStats\<rparr>) \<lparr>ca_localClientId = 1\<rparr>"
  have "application_ok (\<lambda>s. True) ?app []" by (rule application_ok_new) simp
  from preview.Application_Connect_returns [OF this, of E "rl_now R w 0"] obtain b app where
    app: "Application_Connect E preview_session (rl_now R w 0) ?app = Some (b, app)" "application_ok (\<lambda>s. True) app []" by blast
  have b using app(1) new_client_logs_in [of E "rl_now R w 0" 1]
    by (auto simp: Application_Connect_def new_ClientApplication_def preview_session_def Preview_Connect_def Let_def split_def)
  let ?config = "\<lparr>rh_width = 1280, rh_height = 720, rh_title = ''Raylib Multiplayer Scaffold - Browser Preview''\<rparr>"
  let ?st = "(new_client_host F app, OpenView R ?config w)"
  have "hosting (\<lambda>s. True) 0 (fst ?st)" by (simp add: hosting_new app(2))
  from preview.browser_frames_return [OF this, of n, where R = R and F = F and E = E and config = config] assms
  obtain st where "browser_frames R F E preview_session config n ?st = Some st" by auto
  moreover have "browser_main R F E w = Some (True, ?st)"
    using app(1) \<open>b\<close> by (simp add: browser_main_def Run_browser_def)
  ultimately show ?thesis by blast
qed

section \<open>The desktop game\<close>

text \<open>C7. The game runs until its window is closed. With any floating-point arithmetic, any aiming of the
  scripted clients and any clock, mouse and keyboard, and a user who closes the window at some time (within 2^28
  frames), the program connects to the server in its own process, opens the window, shows one whole frame after every
  time the window need not close, none out of the drawing protocol, and at the first time that it should close it closes
  the window and returns zero. Each frame has at most eight event lines and twenty-four effects, and from each frame to
  the next the game has made at most eight fixed steps.\<close>

theorem game_runs_until_closed:
  fixes E :: "'r entt_ops" and F :: "'f float_ops" and R :: "('w, 'f) raylib_ops" and aim
  assumes laws: "raylib_laws R drawn frames_left" and room: "frames_left w < 2 ^ 28"
  shows "\<exists>views h' w' ticks. client_main R F E aim w = Some (0, h', rl_CloseWindow R w')
     \<and> shown_until_closed R F default_HostWindow views (OpenView R default_HostWindow w) w'
     \<and> drawn w' = drawn w @ concat (map (Render F default_HostWindow) views)
     \<and> draw_modes (concat (map (Render F default_HostWindow) views)) Outside = Some Outside
     \<and> length views \<le> frames_left w \<and> list_all view_bounded views
     \<and> few_ticks 0 views \<and> ap_fixedTick (ho_app h') = last (0 # view_ticks views)
     \<and> ticks \<le> length views * 8 \<and> ap_fixedTick (ho_app h') = of_nat ticks"
proof -
  let ?S = "in_process_session E aim" and ?now = "rl_now R w 0"
  let ?s = "new_InProcessClientSession default_InProcessConfig :: 'r InProcessClientSession"
  let ?app = "new_ClientApplication E (Some ?s) \<lparr>ca_localClientId = 1\<rparr>"
  obtain s1 where s1: "InProcess_Connect E 1 ?now ?s = Some (True, s1)"
    using InProcess_Connect_connects [of ?s E 1 ?now]
    by (auto simp: new_InProcessClientSession_def default_InProcessConfig_def)
  have "application_ok in_process_ok ?app []" by (rule application_ok_new) (use in_process_ok_new in auto)
  from in_process.Application_Connect_returns [OF this, of E aim ?now] obtain b app where
    app: "Application_Connect E ?S ?now ?app = Some (b, app)" "application_ok in_process_ok app []"
      "ap_fixedTick app = 0" by (auto simp: new_ClientApplication_def)
  have b using app(1) s1 new_client_logs_in [of E ?now 1]
    by (auto simp: Application_Connect_def new_ClientApplication_def in_process_session_def Let_def split_def)
  have "0 + frames_left (OpenView R default_HostWindow w) * 8 + 1 < 2 ^ 32"
    using room raylib_lawsD(6) [OF laws] by simp
  from in_process.window_loop_returns [OF laws hosting_new [OF app(2), of F] this, where F = F and E = E and aim = aim
      and config = default_HostWindow]
  obtain views h' w' ticks where loop:
    "window_loop R F E ?S default_HostWindow (new_client_host F app, OpenView R default_HostWindow w) = Some (h', w')"
    "shown_until_closed R F default_HostWindow views (OpenView R default_HostWindow w) w'"
    "drawn w' = drawn w @ concat (map (Render F default_HostWindow) views)" "length views \<le> frames_left w"
    "list_all view_bounded views" "few_ticks 0 views" "ap_fixedTick (ho_app h') = last (0 # view_ticks views)" "ticks \<le> length views * 8" "ap_fixedTick (ho_app h') = of_nat ticks"
    unfolding raylib_lawsD(5,6) [OF laws] by (auto simp: new_client_host_def app(3))
  have "(new_client_host F ?app)\<lparr>ho_app := app\<rparr> = new_client_host F app" by (simp add: new_client_host_def)
  then have "client_main R F E aim w = Some (0, h', rl_CloseWindow R w')"
    using app(1) \<open>b\<close> loop(1) by (simp add: client_main_def Run_def new_client_host_def)
  with loop(2-9) renders_protocol show ?thesis by blast
qed

text \<open>For the witness: thousandths in place of floating-point numbers.\<close>

definition thousandths :: "int float_ops" where
  "thousandths = \<lparr>fl_add = (+), fl_sub = (-), fl_mul = \<lambda>a b. a * b div 1000, fl_div = \<lambda>a b. a * 1000 div b,
     fl_less = (<), fl_leq = (\<le>), fl_sqrt = \<lambda>a. a, fl_floor = \<lambda>a. a div 1000 * 1000,
     fl_ceil = \<lambda>a. (a + 999) div 1000 * 1000, fl_ratio = \<lambda>a b. int a * 1000 div int b, fl_of_int = \<lambda>a. a * 1000,
     fl_to_u8 = \<lambda>a. of_int (a div 1000), fl_to_u16 = \<lambda>a. of_int (a div 1000),
     fl_to_i16 = \<lambda>a. of_int (a div 1000), fl_to_i32 = \<lambda>a. of_int (a div 1000)\<rparr>"

text \<open>A user who lets some frames pass before closing the window; what is drawn is recorded.\<close>

definition patient_user :: "(int draw_call list \<times> nat, int) raylib_ops" where
  "patient_user = \<lparr>rl_InitWindow = \<lambda>x y t w. w, rl_SetTargetFPS = \<lambda>n w. w, rl_CloseWindow = \<lambda>w. w,
     rl_WindowShouldClose = \<lambda>w. (snd w = 0, w), rl_GetFrameTime = \<lambda>w. 16, rl_IsKeyDown = \<lambda>k w. k = KEY_D,
     rl_IsMouseButtonPressed = \<lambda>w. even (snd w), rl_GetMousePosition = \<lambda>w. (700000, 300000),
     rl_draw = \<lambda>c (cs, n). (cs @ [c], if c = EndDrawing then n - 1 else n),
     rl_now = \<lambda>w i. of_nat (16 * (length (fst w) + i))\<rparr>"

lemma patient_user_laws: "raylib_laws patient_user fst snd"
  by (auto simp: raylib_laws_def patient_user_def split_def)

lemma patient_user_window: "rl_WindowShouldClose patient_user w = (snd w = 0, w)" "rl_CloseWindow patient_user w = w"
  "snd (OpenView patient_user config w) = snd w"
  by (simp_all add: patient_user_def OpenView_def)

theorem game_runs_until_closed_witness:
  "\<exists>views h' w' ticks. client_main patient_user thousandths list_registry (\<lambda>_ _. None) ([], 3) = Some (0, h', w')
     \<and> fst w' = concat (map (Render thousandths default_HostWindow) views) \<and> length views = 3 \<and> snd w' = 0
     \<and> few_ticks 0 views \<and> ticks \<le> length views * 8 \<and> ap_fixedTick (ho_app h') = of_nat ticks"
proof -
  let ?w = "OpenView patient_user default_HostWindow ([], 3)"
  obtain views h' w' ticks where g: "client_main patient_user thousandths list_registry (\<lambda>_ _. None) ([], 3) = Some (0, h', rl_CloseWindow patient_user w')"
    "shown_until_closed patient_user thousandths default_HostWindow views ?w w'"
    "fst w' = concat (map (Render thousandths default_HostWindow) views)" "length views \<le> 3" "few_ticks 0 views"
    "ticks \<le> length views * 8" "ap_fixedTick (ho_app h') = of_nat ticks"
    using game_runs_until_closed [OF patient_user_laws, of "([], 3)" thousandths list_registry "\<lambda>_ _. None"] by auto
  have "snd (after_frames patient_user thousandths default_HostWindow views w) = snd w - length views" for w
    using draw_frame [OF patient_user_laws, of thousandths default_HostWindow]
    by (induction views arbitrary: w) (simp_all add: patient_user_window)
  from this [of ?w] have "3 - length views = 0 \<and> snd w' = 0"
    using g(2) by (simp add: shown_until_closed_def patient_user_window)
  then show ?thesis using g by (intro exI [of _ views] exI [of _ h'] exI [of _ w'] exI [of _ ticks]) (simp add: patient_user_window)
qed

end
