(* ===== verification/Render_Properties.thy ===== *)
theory Render_Properties
  imports Complex_Main Client_Host
begin

text \<open>
  What the renderer draws: the visible tiles, each once and within the map, and the event lines that fit.
\<close>

section \<open>The tiles of the map\<close>

fun filled :: "'f draw_call \<Rightarrow> (i32 \<times> i32 \<times> i32 \<times> i32) option" where
  "filled (DrawRectangle x y w h c) = Some (x, y, w, h)"
| "filled _ = None"

lemma map_filter_append: "List.map_filter f (xs @ ys) = List.map_filter f xs @ List.map_filter f ys"
  by (simp add: List.map_filter_def)

lemma filled_tiles:
  "List.map_filter filled (draw_tiles F config xs ys) =
     map (\<lambda>(tileY, tileX). (of_int tileX * cg_tileSizePixels config, of_int tileY * cg_tileSizePixels config,
         cg_tileSizePixels config, cg_tileSizePixels config))
       (List.product [sint (fst ys) .. sint (snd ys)] [sint (fst xs) .. sint (snd xs)])"
proof -
  have row: "List.map_filter filled (concat (map (\<lambda>tileX. draw_tile F config tileX tileY) is)) =
      map (\<lambda>tileX. (of_int tileX * cg_tileSizePixels config, of_int tileY * cg_tileSizePixels config,
         cg_tileSizePixels config, cg_tileSizePixels config)) is" for "is" tileY
    by (induction "is") (simp_all add: map_filter_append draw_tile_def Let_def List.map_filter_simps)
  have "List.map_filter filled (concat (map (\<lambda>tileY. concat (map (\<lambda>tileX. draw_tile F config tileX tileY) is)) js)) =
      map (\<lambda>(tileY, tileX). (of_int tileX * cg_tileSizePixels config, of_int tileY * cg_tileSizePixels config,
         cg_tileSizePixels config, cg_tileSizePixels config)) (List.product js is)" for "is" js
    by (induction js) (simp_all add: map_filter_append row List.map_filter_simps comp_def)
  then show ?thesis by (simp add: draw_tiles_def)
qed

lemma tile_range_bounds:
  assumes "0 < sint mapTiles"
  shows "0 \<le> sint (fst (tile_range F a b tileSize mapTiles))" "sint (snd (tile_range F a b tileSize mapTiles)) < sint mapTiles"
proof -
  have m: "sint (mapTiles - 1) = sint mapTiles - 1"
    using assms sint_add_i32 [of mapTiles "- 1"] sint_i32_range [of mapTiles] by simp
  show "0 \<le> sint (fst (tile_range F a b tileSize mapTiles))" "sint (snd (tile_range F a b tileSize mapTiles)) < sint mapTiles"
    using ClampFixed_range [of 0 "mapTiles - 1"] assms m by (auto simp: tile_range_def)
qed

text \<open>A tile of the map has its corner on the grid, and ends inside the map.\<close>

lemma tile_place:
  assumes "0 \<le> i" and "i < sint n" and "0 < sint tileSize" and "sint n * sint tileSize < 2 ^ 31"
  shows "sint (of_int i * tileSize :: i32) = i * sint tileSize" and "0 \<le> i * sint tileSize"
    and "i * sint tileSize + sint tileSize \<le> sint n * sint tileSize"
proof -
  have "(i + 1) * sint tileSize \<le> sint n * sint tileSize" using assms by (intro mult_right_mono) auto
  then show le: "i * sint tileSize + sint tileSize \<le> sint n * sint tileSize" by (simp add: algebra_simps)
  show "0 \<le> i * sint tileSize" using assms by simp
  then have "sint (cast_i32 (i * sint tileSize)) = i * sint tileSize"
    using assms(3,4) le by (intro sint_cast_i32) linarith+
  then show "sint (of_int i * tileSize :: i32) = i * sint tileSize" by simp
qed

text \<open>
  What the floats compute when they are exact: \<open>val\<close> is the number that a float stands for. The range of tiles
  then covers every tile of the map that the camera sees along an axis, the camera being at \<open>c\<close> with \<open>h\<close> to
  either side.
\<close>

definition exact_floats :: "'f float_ops \<Rightarrow> ('f \<Rightarrow> real) \<Rightarrow> bool" where
  "exact_floats F val \<longleftrightarrow>
     (\<forall>a b. val (fl_add F a b) = val a + val b \<and> val (fl_sub F a b) = val a - val b \<and> val (fl_mul F a b) = val a * val b
        \<and> (val b \<noteq> 0 \<longrightarrow> val (fl_div F a b) = val a / val b))
     \<and> (\<forall>a. val (fl_floor F a) = of_int \<lfloor>val a\<rfloor> \<and> val (fl_ceil F a) = of_int \<lceil>val a\<rceil>)
     \<and> (\<forall>i. val (fl_of_int F i) = of_int i) \<and> (\<forall>n d. 0 < d \<longrightarrow> val (fl_ratio F n d) = of_nat n / of_nat d)
     \<and> (\<forall>a i. val a = of_int i \<longrightarrow> - (2 ^ 31) \<le> i \<longrightarrow> i < 2 ^ 31 \<longrightarrow> fl_to_i32 F a = of_int i)"

definition sees_tile :: "real \<Rightarrow> real \<Rightarrow> int \<Rightarrow> int \<Rightarrow> bool" where
  "sees_tile c h tile i \<longleftrightarrow> of_int (i * tile) < c + h \<and> c - h < of_int ((i + 1) * tile)"

lemma exact_to_i32:
  assumes "exact_floats F val" and "val a = of_int i" and "\<bar>i\<bar> < 2 ^ 31"
  shows "sint (fl_to_i32 F a) = i"
proof -
  have "fl_to_i32 F a = of_int i" using assms by (simp add: exact_floats_def abs_less_iff)
  moreover have "sint (cast_i32 i) = i" using assms(3) by (intro sint_cast_i32) simp_all
  ultimately show ?thesis by simp
qed

lemma sint_Clamp_tiles:
  assumes "0 < sint n"
  shows "sint (ClampFixed v 0 (n - 1)) = max 0 (min (sint v) (sint n - 1))"
proof -
  have "sint (n - 1) = sint n - 1" using assms sint_add_i32 [of n "- 1"] sint_i32_range [of n] by simp
  then show ?thesis using assms by (auto simp: ClampFixed_def)
qed

lemma round_small:
  fixes x :: real
  assumes "\<bar>x\<bar> < 2 ^ 31 - 1" shows "\<bar>\<lfloor>x\<rfloor>\<bar> < 2 ^ 31" and "\<bar>\<lceil>x\<rceil>\<bar> < 2 ^ 31"
proof -
  have x: "\<bar>x\<bar> < 2147483647" using assms by simp
  have "\<bar>of_int \<lfloor>x\<rfloor>\<bar> < (2147483648 :: real)" using x of_int_floor_le [of x] floor_correct [of x] by linarith
  then show "\<bar>\<lfloor>x\<rfloor>\<bar> < 2 ^ 31" using of_int_less_iff [of "\<bar>\<lfloor>x\<rfloor>\<bar>" 2147483648, where 'a = real] by simp
  have "\<bar>of_int \<lceil>x\<rceil>\<bar> < (2147483648 :: real)" using x le_of_int_ceiling [of x] ceiling_correct [of x] by linarith
  then show "\<bar>\<lceil>x\<rceil>\<bar> < 2 ^ 31" using of_int_less_iff [of "\<bar>\<lceil>x\<rceil>\<bar>" 2147483648, where 'a = real] by simp
qed

lemma tile_range_covers:
  fixes c h :: real
  assumes F: "exact_floats F val" and tile: "0 < sint tileSize" and i: "0 \<le> i" "i < sint n"
    and a: "val a = c - h - of_int (sint tileSize)" and b: "val b = c + h + of_int (sint tileSize)"
    and near: "\<bar>c\<bar> + \<bar>h\<bar> + of_int (sint tileSize) < 2 ^ 31 - 1" and sees: "sees_tile c h (sint tileSize) i"
  shows "sint (fst (tile_range F a b tileSize n)) \<le> i" and "i \<le> sint (snd (tile_range F a b tileSize n))"
proof -
  define t :: real where "t = of_int (sint tileSize)"
  have "1 \<le> sint tileSize" using tile by simp
  then have t: "1 \<le> t" unfolding t_def by (metis of_int_1_le_iff)
  have quot: "\<bar>x / t\<bar> \<le> \<bar>c\<bar> + \<bar>h\<bar> + t" if "\<bar>x\<bar> \<le> \<bar>c\<bar> + \<bar>h\<bar> + t" for x
  proof -
    have "\<bar>x / t\<bar> \<le> \<bar>x\<bar>" using t by (simp add: abs_divide divide_le_eq mult_left_le)
      (metis abs_ge_zero mult.right_neutral mult_left_mono)
    with that show ?thesis by linarith
  qed
  have "\<bar>c - h - t\<bar> \<le> \<bar>c\<bar> + \<bar>h\<bar> + t" "\<bar>c + h + t\<bar> \<le> \<bar>c\<bar> + \<bar>h\<bar> + t" using t by linarith+
  from quot [OF this(1)] quot [OF this(2)] near [folded t_def]
  have small: "\<bar>(c - h - t) / t\<bar> < 2 ^ 31 - 1" "\<bar>(c + h + t) / t\<bar> < 2 ^ 31 - 1" by linarith+
  let ?q = "\<lfloor>(c - h - t) / t\<rfloor>" and ?r = "\<lceil>(c + h + t) / t\<rceil>"
  have "\<bar>?q\<bar> < 2 ^ 31" "\<bar>?r\<bar> < 2 ^ 31" using small round_small by blast+
  moreover have "val (fl_floor F (fl_div F a (fl_i32 F tileSize))) = of_int ?q"
    "val (fl_ceil F (fl_div F b (fl_i32 F tileSize))) = of_int ?r"
    using F t a b by (simp_all add: exact_floats_def t_def)
  ultimately have ends: "sint (fl_to_i32 F (fl_floor F (fl_div F a (fl_i32 F tileSize)))) = ?q"
    "sint (fl_to_i32 F (fl_ceil F (fl_div F b (fl_i32 F tileSize)))) = ?r"
    by (simp_all add: exact_to_i32 [OF F])
  have "c - h - t < of_int i * t" "of_int i * t < c + h + t"
    using sees t by (simp_all add: sees_tile_def t_def algebra_simps)
  then have "(c - h - t) / t < of_int i" "of_int i < (c + h + t) / t"
    using t by (simp_all add: divide_less_eq less_divide_eq)
  then have "?q \<le> i" "i \<le> ?r" by linarith+
  then show "sint (fst (tile_range F a b tileSize n)) \<le> i" "i \<le> sint (snd (tile_range F a b tileSize n))"
    using i by (simp_all add: tile_range_def sint_Clamp_tiles ends)
qed

text \<open>The tiles of a range of columns and rows, row by row.\<close>

definition tile_rects :: "i32 \<Rightarrow> i32 \<times> i32 \<Rightarrow> i32 \<times> i32 \<Rightarrow> (i32 \<times> i32 \<times> i32 \<times> i32) list" where
  "tile_rects tileSize xs ys = map (\<lambda>(tileY, tileX). (of_int tileX * tileSize, of_int tileY * tileSize, tileSize, tileSize))
     (List.product [sint (fst ys) .. sint (snd ys)] [sint (fst xs) .. sint (snd xs)])"

lemma DrawTileMap_tiles:
  "visible_tiles F camera config = (xs, ys) \<Longrightarrow>
     List.map_filter filled (DrawTileMap F camera config) = tile_rects (cg_tileSizePixels config) xs ys"
  by (simp add: DrawTileMap_def map_filter_append filled_tiles List.map_filter_simps tile_rects_def)

lemma tile_rects_inside:
  assumes "0 < sint tileSize" and "columns * sint tileSize < 2 ^ 31" and "rows * sint tileSize < 2 ^ 31"
    and "0 \<le> sint (fst xs)" "sint (snd xs) < columns" "0 \<le> sint (fst ys)" "sint (snd ys) < rows"
    and n: "sint n = columns" "sint m = rows"
  shows "distinct (tile_rects tileSize xs ys)" and "length (tile_rects tileSize xs ys) \<le> nat columns * nat rows"
    and "\<forall>(x, y, w, h)\<in>set (tile_rects tileSize xs ys). w = tileSize \<and> h = tileSize \<and> sint tileSize dvd sint x \<and> sint tileSize dvd sint y
       \<and> 0 \<le> sint x \<and> sint x + sint tileSize \<le> columns * sint tileSize \<and> 0 \<le> sint y \<and> sint y + sint tileSize \<le> rows * sint tileSize"
proof -
  let ?pos = "\<lambda>(tileY, tileX). (of_int tileX * tileSize, of_int tileY * tileSize, tileSize, tileSize)"
  let ?grid = "List.product [sint (fst ys) .. sint (snd ys)] [sint (fst xs) .. sint (snd xs)]"
  have place: "sint (of_int i * tileSize :: i32) = i * sint tileSize" "0 \<le> i * sint tileSize"
    "i * sint tileSize + sint tileSize \<le> columns * sint tileSize" if "i \<in> {sint (fst xs) .. sint (snd xs)}" for i
    using tile_place [of i n tileSize] that assms by simp_all
  have place': "sint (of_int i * tileSize :: i32) = i * sint tileSize" "0 \<le> i * sint tileSize"
    "i * sint tileSize + sint tileSize \<le> rows * sint tileSize" if "i \<in> {sint (fst ys) .. sint (snd ys)}" for i
    using tile_place [of i m tileSize] that assms by simp_all
  have "inj_on ?pos (set ?grid)"
  proof (rule inj_onI, clarify)
    fix y1 x1 y2 x2
    assume in1: "(y1, x1) \<in> set ?grid" and in2: "(y2, x2) \<in> set ?grid"
      and eq: "of_int x1 * tileSize = of_int x2 * tileSize" "of_int y1 * tileSize = of_int y2 * tileSize"
    then have "x1 * sint tileSize = x2 * sint tileSize" "y1 * sint tileSize = y2 * sint tileSize"
      using place(1) [of x1] place(1) [of x2] place'(1) [of y1] place'(1) [of y2] by auto
    then show "y1 = y2 \<and> x1 = x2" using assms(1) by simp
  qed
  then show "distinct (tile_rects tileSize xs ys)" by (simp add: tile_rects_def distinct_map distinct_product)
  have "nat (sint (snd xs) - sint (fst xs) + 1) \<le> nat columns" "nat (sint (snd ys) - sint (fst ys) + 1) \<le> nat rows"
    using assms(4-7) by auto
  then show "length (tile_rects tileSize xs ys) \<le> nat columns * nat rows"
    by (simp add: tile_rects_def length_product mult.commute [of "nat columns"] mult_le_mono)
  show "\<forall>(x, y, w, h)\<in>set (tile_rects tileSize xs ys). w = tileSize \<and> h = tileSize \<and> sint tileSize dvd sint x \<and> sint tileSize dvd sint y
       \<and> 0 \<le> sint x \<and> sint x + sint tileSize \<le> columns * sint tileSize \<and> 0 \<le> sint y \<and> sint y + sint tileSize \<le> rows * sint tileSize"
    using place place' by (auto simp: tile_rects_def)
qed

text \<open>Where the camera looks, and the map's tiles that it sees.\<close>

definition camera_sees :: "('f \<Rightarrow> real) \<Rightarrow> 'f camera2d \<Rightarrow> 'f RaylibSceneRenderConfig \<Rightarrow> int \<Rightarrow> int \<Rightarrow> bool" where
  "camera_sees val camera config i j \<longleftrightarrow> (let tile = sint (cg_tileSizePixels config) in
     sees_tile (val (fst (cm_target camera))) (of_int (sint (cg_viewportWidth config)) / 2 / val (cm_zoom camera)) tile i
     \<and> sees_tile (val (snd (cm_target camera))) (of_int (sint (cg_viewportHeight config)) / 2 / val (cm_zoom camera)) tile j)"

definition camera_near :: "('f \<Rightarrow> real) \<Rightarrow> 'f camera2d \<Rightarrow> 'f RaylibSceneRenderConfig \<Rightarrow> bool" where
  "camera_near val camera config \<longleftrightarrow> (let tile = of_int (sint (cg_tileSizePixels config)) in val (cm_zoom camera) \<noteq> 0
     \<and> \<bar>val (fst (cm_target camera))\<bar> + \<bar>of_int (sint (cg_viewportWidth config)) / 2 / val (cm_zoom camera)\<bar> + tile < 2 ^ 31 - 1
     \<and> \<bar>val (snd (cm_target camera))\<bar> + \<bar>of_int (sint (cg_viewportHeight config)) / 2 / val (cm_zoom camera)\<bar> + tile < 2 ^ 31 - 1)"

lemma visible_tiles_cover:
  assumes F: "exact_floats F val" and near: "camera_near val camera config" and tile: "0 < sint (cg_tileSizePixels config)"
    and i: "0 \<le> i" "i < sint (cg_mapWidthTiles config)" and j: "0 \<le> j" "j < sint (cg_mapHeightTiles config)"
    and sees: "camera_sees val camera config i j" and v: "visible_tiles F camera config = (xs, ys)"
  shows "i \<in> {sint (fst xs) .. sint (snd xs)}" and "j \<in> {sint (fst ys) .. sint (snd ys)}"
proof -
  obtain cx cy where c: "cm_target camera = (cx, cy)" by fastforce
  note exact = F [unfolded exact_floats_def]
  let ?half = "\<lambda>n. fl_div F (fl_mul F (fl_i32 F n) (fl_ratio F 1 2)) (cm_zoom camera)" and ?t = "fl_i32 F (cg_tileSizePixels config)"
  have half: "val (?half n) = of_int (sint n) / 2 / val (cm_zoom camera)" for n :: i32
    using exact near by (simp add: camera_near_def Let_def)
  have sides: "val (fl_sub F (fl_sub F p (?half n)) ?t) = val p - of_int (sint n) / 2 / val (cm_zoom camera) - of_int (sint (cg_tileSizePixels config))"
    "val (fl_add F (fl_add F p (?half n)) ?t) = val p + of_int (sint n) / 2 / val (cm_zoom camera) + of_int (sint (cg_tileSizePixels config))"
    for p and n :: i32
    using exact half [of n] by simp_all
  have xs: "xs = tile_range F (fl_sub F (fl_sub F cx (?half (cg_viewportWidth config))) ?t)
      (fl_add F (fl_add F cx (?half (cg_viewportWidth config))) ?t) (cg_tileSizePixels config) (cg_mapWidthTiles config)"
    and ys: "ys = tile_range F (fl_sub F (fl_sub F cy (?half (cg_viewportHeight config))) ?t)
      (fl_add F (fl_add F cy (?half (cg_viewportHeight config))) ?t) (cg_tileSizePixels config) (cg_mapHeightTiles config)"
    using v by (simp_all add: visible_tiles_def c Let_def)
  show "i \<in> {sint (fst xs) .. sint (snd xs)}"
    unfolding xs using tile_range_covers [OF F tile i sides] near sees by (simp add: camera_near_def camera_sees_def c Let_def)
  show "j \<in> {sint (fst ys) .. sint (snd ys)}"
    unfolding ys using tile_range_covers [OF F tile j sides] near sees by (simp add: camera_near_def camera_sees_def c Let_def)
qed

text \<open>C31. The map is drawn exactly. Whatever the floats do and wherever the camera looks, the tiles that are filled
  are those from the first visible column to the last and from the first visible row to the last, both included, row by
  row; each lies on the tile grid inside the map, and none is filled twice, so a frame never fills more tiles than the
  map has. With exact arithmetic, every tile of the map that the camera sees is among them, unless the camera is so far away
  that a column does not fit into 32 bits. The map has at least one tile, of at least one pixel, and its sides in
  pixels fit into 32 bits.\<close>

theorem tiles_inside_map:
  fixes F :: "'f float_ops" and camera and config :: "'f RaylibSceneRenderConfig" and val :: "'f \<Rightarrow> real"
  defines "tile \<equiv> sint (cg_tileSizePixels config)"
    and "columns \<equiv> sint (cg_mapWidthTiles config)" and "rows \<equiv> sint (cg_mapHeightTiles config)"
    and "tiles \<equiv> List.map_filter filled (DrawTileMap F camera config)"
  assumes "0 < tile" and "0 < columns" and "0 < rows" and "columns * tile < 2 ^ 31" and "rows * tile < 2 ^ 31"
  shows "(case visible_tiles F camera config of (xs, ys) \<Rightarrow> tiles = tile_rects (cg_tileSizePixels config) xs ys)
     \<and> distinct tiles \<and> length tiles \<le> nat columns * nat rows
     \<and> (\<forall>(x, y, w, h)\<in>set tiles. sint w = tile \<and> sint h = tile \<and> tile dvd sint x \<and> tile dvd sint y
          \<and> 0 \<le> sint x \<and> sint x + tile \<le> columns * tile \<and> 0 \<le> sint y \<and> sint y + tile \<le> rows * tile)
     \<and> (exact_floats F val \<and> camera_near val camera config \<longrightarrow>
          (\<forall>i\<in>{0..<columns}. \<forall>j\<in>{0..<rows}. camera_sees val camera config i j \<longrightarrow>
             (of_int i * cg_tileSizePixels config, of_int j * cg_tileSizePixels config,
              cg_tileSizePixels config, cg_tileSizePixels config) \<in> set tiles))"
proof -
  obtain xs ys where v: "visible_tiles F camera config = (xs, ys)" by (metis prod.exhaust)
  have range: "0 \<le> sint (fst xs)" "sint (snd xs) < columns" "0 \<le> sint (fst ys)" "sint (snd ys) < rows"
    using v tile_range_bounds [of "cg_mapWidthTiles config" F] tile_range_bounds [of "cg_mapHeightTiles config" F] assms(6,7)
    by (auto simp: visible_tiles_def Let_def columns_def rows_def split: prod.splits)
  have tiles: "tiles = tile_rects (cg_tileSizePixels config) xs ys" by (simp add: tiles_def DrawTileMap_tiles [OF v])
  note inside = tile_rects_inside [OF assms(5,8,9) [unfolded tile_def] range columns_def [THEN meta_eq_to_obj_eq, symmetric]
      rows_def [THEN meta_eq_to_obj_eq, symmetric]]
  have "(of_int i * cg_tileSizePixels config, of_int j * cg_tileSizePixels config,
      cg_tileSizePixels config, cg_tileSizePixels config) \<in> set tiles"
    if "exact_floats F val" "camera_near val camera config" "i \<in> {0..<columns}" "j \<in> {0..<rows}" "camera_sees val camera config i j" for i j
    using visible_tiles_cover [OF that(1,2) _ _ _ _ _ that(5) v] that(3,4) assms(5)
    by (force simp: tiles tile_rects_def tile_def columns_def rows_def)
  with inside show ?thesis unfolding v tiles by (auto simp: tile_def)
qed

text \<open>The game's map of eighty by eighty tiles, with real numbers for floats.\<close>

definition real_numbers :: "real float_ops" where
  "real_numbers = \<lparr>fl_add = (+), fl_sub = (-), fl_mul = (*), fl_div = (/), fl_less = (<), fl_leq = (\<le>),
     fl_sqrt = sqrt, fl_floor = \<lambda>a. of_int \<lfloor>a\<rfloor>, fl_ceil = \<lambda>a. of_int \<lceil>a\<rceil>, fl_ratio = \<lambda>n d. of_nat n / of_nat d,
     fl_of_int = of_int, fl_to_u8 = \<lambda>a. of_int \<lfloor>a\<rfloor>, fl_to_u16 = \<lambda>a. of_int \<lfloor>a\<rfloor>,
     fl_to_i16 = \<lambda>a. of_int \<lfloor>a\<rfloor>, fl_to_i32 = \<lambda>a. of_int \<lfloor>a\<rfloor>\<rparr>"

lemma real_numbers_exact: "exact_floats real_numbers (\<lambda>x. x)"
  by (simp add: exact_floats_def real_numbers_def)

text \<open>A camera at (900, 400) sees the tile in column 7 and row 3.\<close>

theorem tiles_inside_map_witness:
  "(896, 384, 128, 128) \<in> set (List.map_filter filled (DrawTileMap real_numbers
     \<lparr>cm_offset = (640, 360), cm_target = (900, 400), cm_rotation = 0, cm_zoom = 1\<rparr> (default_SceneConfig real_numbers)))"
proof -
  let ?camera = "\<lparr>cm_offset = (640, 360), cm_target = (900, 400), cm_rotation = 0, cm_zoom = 1\<rparr> :: real camera2d"
    and ?config = "default_SceneConfig real_numbers"
  have "camera_near (\<lambda>x. x) ?camera ?config" "camera_sees (\<lambda>x. x) ?camera ?config 7 3"
    by (simp_all add: camera_near_def camera_sees_def sees_tile_def default_SceneConfig_def)
  moreover have config: "cg_tileSizePixels ?config = 128" "cg_mapWidthTiles ?config = 80" "cg_mapHeightTiles ?config = 80"
    by (simp_all add: default_SceneConfig_def)
  moreover have "0 < sint (cg_tileSizePixels ?config)" "0 < sint (cg_mapWidthTiles ?config)"
    "0 < sint (cg_mapHeightTiles ?config)" "sint (cg_mapWidthTiles ?config) * sint (cg_tileSizePixels ?config) < 2 ^ 31"
    "sint (cg_mapHeightTiles ?config) * sint (cg_tileSizePixels ?config) < 2 ^ 31" by (simp_all add: config)
  note tiles_inside_map [OF this, of real_numbers ?camera "\<lambda>x. x", THEN conjunct2, THEN conjunct2, THEN conjunct2,
      THEN conjunct2, rule_format, of 7 3]
  ultimately show ?thesis using real_numbers_exact by simp
qed

section \<open>The overlay\<close>

text \<open>C32. The overlay shows the event log exactly: below its five fixed lines it draws the first event lines
  in their order, twenty-two pixels apart, as many as start above the lower margin and at least one; so
  in the game's window every line that the log can hold is drawn.\<close>

theorem overlay_shows_log:
  fixes view :: ClientViewFrame and viewportHeight :: i32
  assumes "0 \<le> sint viewportHeight"
  defines "n \<equiv> lines_that_fit viewportHeight 180"
  shows "(DrawRaylibDebugOverlay view viewportHeight :: 'f draw_call list) = overlay_header view
       @ map (\<lambda>(i, line). DrawText line 24 (180 + 22 * of_nat i) 16 (Color 255 236 179 255))
           (enumerate 0 (take n (vw_eventLines view)))
     \<and> 1 \<le> n \<and> (1 < n \<longrightarrow> 180 + 22 * int (n - 1) \<le> sint viewportHeight - 32)
     \<and> sint viewportHeight - 32 < 180 + 22 * int n
     \<and> (viewportHeight = rh_height default_HostWindow \<longrightarrow> length (vw_eventLines view) \<le> 8
          \<longrightarrow> take n (vw_eventLines view) = vw_eventLines view)"
proof -
  have "(DrawRaylibDebugOverlay view viewportHeight :: 'f draw_call list) = overlay_header view
       @ map (\<lambda>(i, line). DrawText line 24 (180 + 22 * of_nat i) 16 (Color 255 236 179 255))
           (enumerate 0 (take n (vw_eventLines view)))"
    using draw_event_lines_exact [of 180 viewportHeight "vw_eventLines view"] assms(1)
    by (simp add: DrawRaylibDebugOverlay_def n_def)
  moreover have "1 \<le> n" "1 < n \<longrightarrow> 180 + 22 * int (n - 1) \<le> sint viewportHeight - 32"
    "sint viewportHeight - 32 < 180 + 22 * int n"
    by (auto simp: n_def lines_that_fit_def)
  moreover have "n = 24" if "viewportHeight = rh_height default_HostWindow"
    using that by (simp add: n_def lines_that_fit_def default_HostWindow_def)
  ultimately show ?thesis by auto
qed

definition busy_view :: ClientViewFrame where
  "busy_view = \<lparr>vw_localClientId = 1, vw_stats = \<lparr>at_fixedTick = 0, at_entityCount = 0, at_unackedInputCount = 0,
     at_session = zero_ClientSessionStats\<rparr>, vw_presentation = empty_PresentationFrame, vw_entities = [],
     vw_effects = [], vw_eventLines = replicate 8 ''Simulation event''\<rparr>"

theorem overlay_shows_log_witness:
  "length (DrawRaylibDebugOverlay busy_view 720 :: int draw_call list) = 13"
proof -
  have "length (vw_eventLines busy_view) = 8" "length (overlay_header busy_view :: int draw_call list) = 5"
    by (simp_all add: busy_view_def overlay_header_def Let_def)
  then show ?thesis using overlay_shows_log [of 720 busy_view, where 'f = int]
    by (simp add: default_HostWindow_def lines_that_fit_def)
qed

end
