(* ===== verification/Hub_Join.thy ===== *)
theory Hub_Join
  imports Program_Properties Server_Rules
begin

text \<open>
  A client joins over a hub: its login reaches the server, the server creates its player and tells it, and
  the client is connected once it has pumped what is waiting for it.
\<close>

section \<open>The ends of the hub\<close>

text \<open>The server's end, with exactly \<open>q\<close> to read and at least \<open>A\<close> waiting for a client.\<close>

definition hub_server ::
    "ClientId \<Rightarrow> NetworkEnvelope set \<Rightarrow> NetworkEnvelope list \<Rightarrow> MultiClientLoopbackTransport \<Rightarrow> bool" where
  "hub_server c A q t \<longleftrightarrow> hub_valid t \<and> mt_endpoint t = Endpoint_Server \<and> mt_state t = Connected
     \<and> multi_queue t = q \<and> A \<subseteq> set (client_queue c (hub_of t))"

text \<open>A client's end, with exactly \<open>q\<close> to read.\<close>

definition hub_reader :: "ClientId \<Rightarrow> NetworkEnvelope list \<Rightarrow> MultiClientLoopbackTransport \<Rightarrow> bool" where
  "hub_reader c q t \<longleftrightarrow> hub_valid t \<and> mt_endpoint t = Endpoint_Client \<and> mt_clientId t = c
     \<and> mt_state t = Connected \<and> multi_queue t = q"

text \<open>Both stay what they are through sends.\<close>

lemma Multi_Send_keeps:
  "mt_endpoint (snd (Multi_Send e t)) = mt_endpoint t" "mt_clientId (snd (Multi_Send e t)) = mt_clientId t"
  "mt_state (snd (Multi_Send e t)) = mt_state t" "multi_queue (snd (Multi_Send e t)) = multi_queue t"
  using Multi_Send_queue [OF prod.collapse [symmetric], of e t]
  by (simp_all add: Multi_Send_def multi_send_failure_def Let_def split: option.splits)

lemma Multi_Send_waiting:
  assumes "mt_hub t = Some hub" and "mt_endpoint t = Endpoint_Server"
  shows "set (client_queue c (hub_of t)) \<subseteq> set (client_queue c (hub_of (snd (Multi_Send e t))))"
  using assms by (auto simp: Multi_Send_def multi_send_failure_def hub_of_def Let_def)

interpretation hub_serving: sending multi_transport "hub_server c A q" "\<lambda>t. length (multi_queue t)" for c A q
proof
  fix t e b t'
  assume t: "hub_server c A q t" and "tp_send multi_transport e t = (b, t')"
  then have t': "t' = snd (Multi_Send e t)" by (simp add: multi_transport_def)
  obtain hub where "mt_hub t = Some hub" using t by (auto simp: hub_server_def hub_valid_def)
  then show "hub_server c A q t' \<and> length (multi_queue t') \<le> length (multi_queue t)"
    using t Multi_Send_waiting [of t hub c e] hub_valid_Send [of t e]
    by (auto simp: t' hub_server_def Multi_Send_keeps)
qed

interpretation hub_reading: sending multi_transport "hub_reader c q" "\<lambda>t. length (multi_queue t)" for c q
  by unfold_locales
    (auto simp: multi_transport_def hub_reader_def Multi_Send_keeps dest!: arg_cong [where f = snd] intro: hub_valid_Send)

text \<open>A poll takes the first of the waiting envelopes.\<close>

lemma Multi_Poll_open:
  assumes "hub_valid t" and "mt_state t = Connected"
  shows "fst (Multi_Poll t) = (case multi_queue t of [] \<Rightarrow> None | e # q \<Rightarrow> Some e)"
    and "multi_queue (snd (Multi_Poll t)) = tl (multi_queue t)" and "hub_valid (snd (Multi_Poll t))"
    and "mt_state (snd (Multi_Poll t)) = Connected" and "mt_endpoint (snd (Multi_Poll t)) = mt_endpoint t"
    and "mt_clientId (snd (Multi_Poll t)) = mt_clientId t"
proof -
  obtain hub where hub: "mt_hub t = Some hub" "hub_ok hub" using assms(1) by (auto simp: hub_valid_def)
  show "hub_valid (snd (Multi_Poll t))" by (rule hub_valid_Poll [OF assms(1)])
  show "fst (Multi_Poll t) = (case multi_queue t of [] \<Rightarrow> None | e # q \<Rightarrow> Some e)"
    "multi_queue (snd (Multi_Poll t)) = tl (multi_queue t)" "mt_state (snd (Multi_Poll t)) = Connected"
    "mt_endpoint (snd (Multi_Poll t)) = mt_endpoint t" "mt_clientId (snd (Multi_Poll t)) = mt_clientId t"
    using hub assms(2) hub_ok_incoming [OF hub(2), of _ t]
    by (auto simp: Multi_Poll_def multi_queue_def Let_def split: list.splits)
qed

lemma hub_server_Poll:
  assumes "hub_server c {} q t"
  shows "hub_server c {} (tl q) (snd (Multi_Poll t))" and "fst (Multi_Poll t) = (case q of [] \<Rightarrow> None | e # q \<Rightarrow> Some e)"
  using assms Multi_Poll_open [of t] by (auto simp: hub_server_def)

lemma hub_reader_Poll:
  assumes "hub_reader c q t"
  shows "hub_reader c (tl q) (snd (Multi_Poll t))" and "fst (Multi_Poll t) = (case q of [] \<Rightarrow> None | e # q \<Rightarrow> Some e)"
  using assms Multi_Poll_open [of t] by (auto simp: hub_reader_def)

section \<open>The login on the server\<close>

definition spawned :: "ClientId \<Rightarrow> 'r GameSimulation \<Rightarrow> bool" where
  "spawned c s \<longleftrightarrow> (\<exists>i x y. PlayerSpawned i c x y \<in> set (gs_events s))"

abbreviation has_player :: "('t, 'r) ServerNetworkHost \<Rightarrow> ClientId \<Rightarrow> bool" where
  "has_player h c \<equiv> um_contains (gs_playerByClient (host_sim h)) c"

text \<open>A client that has a player is registered, and the event that tells it is still to be sent.\<close>

definition welcomed :: "ClientId \<Rightarrow> ('t, 'r) ServerNetworkHost \<Rightarrow> bool" where
  "welcomed c h \<longleftrightarrow> (has_player h c \<longrightarrow> c \<in> set (nh_clients h) \<and> spawned c (host_sim h))"

lemma CreatePlayer_tells:
  "gs_events (snd (CreatePlayer E c x y s)) = gs_events s @ [PlayerSpawned (gs_nextNetworkId s) c x y]"
  unfolding CreatePlayer_def AllocateNetworkId_def Let_def split_def by simp

lemma SubmitLogin_effect:
  assumes "SubmitLogin E l s = (b, s')" and "hd_clientId (lg_header l) = c"
  shows "set (gs_events s) \<subseteq> set (gs_events s')"
    and "um_contains (gs_playerByClient s') d \<longleftrightarrow> um_contains (gs_playerByClient s) d \<or> b \<and> d = c"
    and "b \<Longrightarrow> \<not> um_contains (gs_playerByClient s) c \<Longrightarrow> spawned c s'"
    and "length (gs_playerByClient s) < unat (sc_maxPlayers (gs_config s)) \<Longrightarrow> b"
  using assms
  by (auto simp: SubmitLogin_def CreatePlayer_counts(3) CreatePlayer_tells spawned_def um_contains_def ex_disj_distrib Let_def split_def split: if_splits)

lemma HandleLogin_welcomed:
  assumes "welcomed c h"
  shows "welcomed c (HandleLoginEnvelope E e h)" and "has_player h c \<Longrightarrow> has_player (HandleLoginEnvelope E e h) c"
    and "DeserializeLoginCommand (ev_payload e) = Some l \<Longrightarrow> hd_clientId (lg_header l) = c \<Longrightarrow>
      length (gs_playerByClient (host_sim h)) < unat (sc_maxPlayers (gs_config (host_sim h))) \<Longrightarrow>
      has_player (HandleLoginEnvelope E e h) c"
proof -
  have "welcomed c (HandleLoginEnvelope E e h) \<and> (has_player h c \<longrightarrow> has_player (HandleLoginEnvelope E e h) c)
    \<and> (DeserializeLoginCommand (ev_payload e) = Some l \<longrightarrow> hd_clientId (lg_header l) = c \<longrightarrow>
      length (gs_playerByClient (host_sim h)) < unat (sc_maxPlayers (gs_config (host_sim h))) \<longrightarrow>
      has_player (HandleLoginEnvelope E e h) c)" for l
  proof (cases "DeserializeLoginCommand (ev_payload e)")
    case None
    then show ?thesis using assms by (simp add: HandleLoginEnvelope_def)
  next
    case (Some m)
    let ?d = "hd_clientId (lg_header m)"
    obtain b s where s: "SubmitLogin E \<lparr>lg_header = \<lparr>hd_clientId = ?d, hd_sequence = 0,
        hd_clientTimestampMs = hd_clientTimestampMs (lg_header m)\<rparr>\<rparr> (host_sim h) = (b, s)" by fastforce
    note effect = SubmitLogin_effect [OF s refl, simplified]
    have sim: "host_sim (HandleLoginEnvelope E e h) = s"
      by (simp add: HandleLoginEnvelope_def Some Runtime_ConnectClient_def s Let_def host_stat_def)
    have clients: "set (nh_clients (HandleLoginEnvelope E e h)) = set (nh_clients h) \<union> (if b then {?d} else {})"
      by (auto simp: HandleLoginEnvelope_def Some Runtime_ConnectClient_def s Let_def host_stat_def)
    show ?thesis using assms effect
      by (auto simp: welcomed_def sim clients Some spawned_def)
  qed
  then show "welcomed c (HandleLoginEnvelope E e h)" "has_player h c \<Longrightarrow> has_player (HandleLoginEnvelope E e h) c"
    "DeserializeLoginCommand (ev_payload e) = Some l \<Longrightarrow> hd_clientId (lg_header l) = c \<Longrightarrow>
      length (gs_playerByClient (host_sim h)) < unat (sc_maxPlayers (gs_config (host_sim h))) \<Longrightarrow>
      has_player (HandleLoginEnvelope E e h) c"
    by blast+
qed

text \<open>The other messages create no player and remove none.\<close>

lemma handle_message_welcomed:
  assumes "welcomed c h"
  shows "welcomed c (handle_message T E e h)" and "has_player h c \<Longrightarrow> has_player (handle_message T E e h) c"
proof -
  have input: "gs_playerByClient (host_sim (HandleInputEnvelope e h)) = gs_playerByClient (host_sim h)
      \<and> gs_events (host_sim (HandleInputEnvelope e h)) = gs_events (host_sim h)
      \<and> nh_clients (HandleInputEnvelope e h) = nh_clients h"
    by (simp add: HandleInputEnvelope_def Runtime_SubmitInput_def SubmitInput_def host_stat_def Let_def split_def
        split: option.splits)
  have rest: "nh_runtime (HandleSnapshotAckEnvelope e h) = nh_runtime h" "nh_clients (HandleSnapshotAckEnvelope e h) = nh_clients h"
    "nh_runtime (HandleNetworkEventAckEnvelope e h) = nh_runtime h" "nh_clients (HandleNetworkEventAckEnvelope e h) = nh_clients h"
    "nh_runtime (HandleTimeSyncEnvelope T e h) = nh_runtime h" "nh_clients (HandleTimeSyncEnvelope T e h) = nh_clients h"
    by (simp_all add: HandleSnapshotAckEnvelope_def HandleNetworkEventAckEnvelope_def HandleTimeSyncEnvelope_def
        host_stat_def host_send_def Let_def split_def split: option.splits bool.splits prod.splits)
  show "welcomed c (handle_message T E e h)" "has_player h c \<Longrightarrow> has_player (handle_message T E e h) c"
    using assms HandleLogin_welcomed(1,2) [OF assms] input rest
    by (auto simp: handle_message_def welcomed_def spawned_def split: MessageClass.splits)
qed

text \<open>
  A pump takes every message. So when a login is among them and there is room for all that want in, its
  client has a player, is registered, and the event that tells it is queued.
\<close>

definition logs_in :: "ClientId \<Rightarrow> NetworkEnvelope \<Rightarrow> bool" where
  "logs_in c e \<longleftrightarrow> ev_messageClass e = Mc_LoginRequest
     \<and> (\<exists>l. DeserializeLoginCommand (ev_payload e) = Some l \<and> hd_clientId (lg_header l) = c)"

definition joining :: "ClientId \<Rightarrow> SimulationConfig \<Rightarrow> (MultiClientLoopbackTransport, 'r) ServerNetworkHost \<Rightarrow> bool" where
  "joining c config h \<longleftrightarrow> (\<exists>q. hub_server c {} q (nh_transport h) \<and> welcomed c h
     \<and> sim_players config (unat (sc_maxPlayers config) - length q) (nh_runtime h)
     \<and> length q \<le> unat (sc_maxPlayers config) \<and> (has_player h c \<or> (\<exists>e\<in>set q. logs_in c e)))"

lemma handle_message_joining:
  fixes h :: "(MultiClientLoopbackTransport, 'r) ServerNetworkHost"
  assumes "hub_server c {} q (nh_transport h)" and "welcomed c h" and "valid_envelope e"
    and "sim_players config (unat (sc_maxPlayers config) - Suc (length q)) (nh_runtime h)"
    and "Suc (length q) \<le> unat (sc_maxPlayers config)" and "has_player h c \<or> logs_in c e \<or> (\<exists>e\<in>set q. logs_in c e)"
    and "registered h"
  shows "joining c config (handle_message multi_transport E e h)"
proof -
  let ?h = "handle_message multi_transport E e h"
  have "host_inv (hub_server c {} q) (\<lambda>t. length (multi_queue t)) (length q) h"
    using assms(1,7) by (simp add: host_inv_def hub_server_def)
  from hub_serving.handle_message_inv [OF this, of E e] have "hub_server c {} q (nh_transport ?h)" by (simp add: host_inv_def)
  moreover have "has_player ?h c" if e: "logs_in c e"
  proof -
    obtain l where l: "DeserializeLoginCommand (ev_payload e) = Some l" "hd_clientId (lg_header l) = c"
      and mc: "ev_messageClass e = Mc_LoginRequest" using e by (auto simp: logs_in_def)
    have "length (gs_playerByClient (host_sim h)) < unat (sc_maxPlayers (gs_config (host_sim h)))"
      using assms(4,5) by (auto simp: sim_players_def)
    with HandleLogin_welcomed(3) [OF assms(2) l] show ?thesis using mc assms(3) by (simp add: handle_message_def)
  qed
  moreover have "sim_players config (unat (sc_maxPlayers config) - length q) (nh_runtime ?h)"
    using handle_message_players [OF assms(4), of multi_transport E e] assms(5) by (simp add: Suc_diff_Suc)
  ultimately show ?thesis using handle_message_welcomed [OF assms(2), of multi_transport E e] assms(5,6)
    by (auto simp: joining_def)
qed

lemma hub_pump_joins:
  fixes h :: "(MultiClientLoopbackTransport, 'r) ServerNetworkHost"
  assumes "joining c config h" and "registered h"
  shows "\<exists>h'. PumpClientMessages multi_transport E h = Some h' \<and> registered h' \<and> has_player h' c \<and> welcomed c h'
     \<and> hub_server c {} [] (nh_transport h')"
proof -
  have "host_inv hub_valid (\<lambda>t. length (multi_queue t)) (length (multi_queue (nh_transport h))) h"
    using assms by (auto simp: joining_def hub_server_def host_inv_def)
  then have "\<exists>h'. PumpClientMessages multi_transport E h = Some h'
      \<and> host_inv hub_valid (\<lambda>t. length (multi_queue t)) (length (multi_queue (nh_transport h))) h' \<and> joining c config h'
      \<and> hub_server c {} [] (nh_transport h')"
  proof (rule shared_hub.PumpClientMessages_inv)
    show "joining c config h" by (rule assms(1))
  next
    fix k :: "(MultiClientLoopbackTransport, 'r) ServerNetworkHost" and e t
    assume inv: "host_inv hub_valid (\<lambda>t. length (multi_queue t)) (length (multi_queue (nh_transport h))) k"
      and "joining c config k" and "tp_poll multi_transport (nh_transport k) = (Some e, t)" and e: "valid_envelope e"
    then obtain q where q: "hub_server c {} q (nh_transport k)" "welcomed c k"
        "sim_players config (unat (sc_maxPlayers config) - length q) (nh_runtime k)" "length q \<le> unat (sc_maxPlayers config)"
        "has_player k c \<or> (\<exists>e\<in>set q. logs_in c e)" and t: "Multi_Poll (nh_transport k) = (Some e, t)"
      by (auto simp: joining_def multi_transport_def)
    from hub_server_Poll [OF q(1)] t obtain q' where q': "q = e # q'" "hub_server c {} q' t" by (auto split: list.splits)
    show "joining c config (handle_message multi_transport E e (k\<lparr>nh_transport := t\<rparr>))"
      by (rule handle_message_joining [of c q']) (use q q' inv e in \<open>auto simp: welcomed_def host_inv_def\<close>)
  next
    fix k :: "(MultiClientLoopbackTransport, 'r) ServerNetworkHost" and t
    assume "joining c config k" and "tp_poll multi_transport (nh_transport k) = (None, t)"
    then obtain q where q: "hub_server c {} q (nh_transport k)" "welcomed c k"
        "sim_players config (unat (sc_maxPlayers config) - length q) (nh_runtime k)"
        "has_player k c \<or> (\<exists>e\<in>set q. logs_in c e)" and t: "Multi_Poll (nh_transport k) = (None, t)"
      by (auto simp: joining_def multi_transport_def)
    from hub_server_Poll [OF q(1)] t have "q = []" "hub_server c {} [] t" by (auto split: list.splits)
    with q show "joining c config (k\<lparr>nh_transport := t\<rparr>) \<and> hub_server c {} [] (nh_transport (k\<lparr>nh_transport := t\<rparr>))"
      by (auto simp: joining_def welcomed_def)
  qed
  then show ?thesis by (auto simp: joining_def hub_server_def host_inv_def)
qed

section \<open>The tick that tells the client\<close>

text \<open>A tick of the simulation only adds events.\<close>

definition keeps_events :: "'r GameSimulation \<Rightarrow> 'r GameSimulation \<Rightarrow> bool" where
  "keeps_events s s' \<longleftrightarrow> set (gs_events s) \<subseteq> set (gs_events s')"

lemma keeps_events_trans: "keeps_events s s' \<Longrightarrow> keeps_events s' s'' \<Longrightarrow> keeps_events s s''"
  by (auto simp: keeps_events_def)

lemma keeps_events_fold: "(\<And>x s. keeps_events s (f x s)) \<Longrightarrow> keeps_events s (fold f xs s)"
  by (rule fold_keeps [where P = "keeps_events s"]) (auto simp: keeps_events_def)

lemma ProcessInputs_events: "keeps_events s (ProcessInputs E s)"
proof -
  have input: "keeps_events s (apply_pending E i s)" for i and s :: "'a GameSimulation"
    by (auto simp: apply_pending_def ApplyInputToEntity_def fire_weapon_def keeps_events_def Let_def split: option.splits)
  have move: "keeps_events s (IntegrateMovement E e s)" for e and s :: "'a GameSimulation"
    by (auto simp: IntegrateMovement_def keeps_events_def Let_def split: option.splits)
  let ?s1 = "fold (apply_pending E) (gs_pendingInputs s) s"
  have "keeps_events s ?s1" by (rule keeps_events_fold) (rule input)
  moreover have "keeps_events (?s1\<lparr>gs_pendingInputs := []\<rparr>) (fold (IntegrateMovement E)
      (en_view E [K_Player] (gs_registry ?s1)) (?s1\<lparr>gs_pendingInputs := []\<rparr>))"
    by (rule keeps_events_fold) (rule move)
  ultimately show ?thesis by (auto simp: ProcessInputs_def Let_def keeps_events_def)
qed

lemma ProcessWeaponWarmups_events: "keeps_events s (ProcessWeaponWarmups E s)"
proof -
  have warm: "keeps_events s (fst (fold (warmup_step E) es (s, rs)))" for es rs
  proof (rule fold_keeps [where P = "\<lambda>p. keeps_events s (fst p)"])
    fix e and p :: "'a GameSimulation \<times> ProjectileRequest list" assume "keeps_events s (fst p)"
    then show "keeps_events s (fst (warmup_step E e p))"
      by (auto simp: warmup_step_def keeps_events_def Let_def split: option.splits prod.splits)
  qed (simp add: keeps_events_def)
  have spawn: "keeps_events s (spawn_request E r s)" for r and s :: "'a GameSimulation"
    by (auto simp: spawn_request_def CreateProjectile_def AllocateNetworkId_def keeps_events_def Let_def split_def)
  show ?thesis
    using keeps_events_trans [OF warm keeps_events_fold [OF spawn]]
    by (simp add: ProcessWeaponWarmups_def Let_def split_def)
qed

lemma ProcessProjectiles_events: "keeps_events s (ProcessProjectiles E s)"
proof -
  have loop: "keeps_events s (snd (hit_loop E i p t es s))" for i p t es and s :: "'a GameSimulation"
    by (induction es) (auto simp: hit_player_def keeps_events_def Let_def split: option.splits)
  have step: "keeps_events s (fst (projectile_step E players e (s, d)))" for players e d and s :: "'a GameSimulation"
  proof -
    have hit: "keeps_events s (snd (hit_loop E i p t es (upd E e f s)))" for i p t es f
      using loop [where s = "upd E e f s"] by (simp add: keeps_events_def)
    have same: "keeps_events s s" "keeps_events s (upd E e f s)" for f by (simp_all add: keeps_events_def)
    show ?thesis by (simp add: projectile_step_def hit same Let_def split_def split: option.split)
  qed
  have flight: "keeps_events s (fst (fold (projectile_step E players) es (s, rs)))" for players es rs
  proof (rule fold_keeps [where P = "\<lambda>p. keeps_events s (fst p)"])
    fix e and p :: "'a GameSimulation \<times> entity list" assume p: "keeps_events s (fst p)"
    show "keeps_events s (fst (projectile_step E players e p))"
      using keeps_events_trans [OF p step [of "fst p" players e "snd p"]] by simp
  qed (simp add: keeps_events_def)
  have destroy: "keeps_events s (destroy_projectile E e s)" for e and s :: "'a GameSimulation"
    by (auto simp: destroy_projectile_def keeps_events_def split: option.splits)
  show ?thesis
    using keeps_events_trans [OF flight keeps_events_fold [OF destroy]]
    by (simp add: ProcessProjectiles_def Let_def split_def)
qed

lemma TickFixed_events: "keeps_events s (TickFixed E s)"
proof -
  have respawn: "keeps_events s (respawn_step E e s)" for e and s :: "'a GameSimulation"
    by (auto simp: respawn_step_def keeps_events_def Let_def split: option.splits)
  let ?s = "s\<lparr>gs_tick := gs_tick s + 1, gs_timeMs := gs_timeMs s + sc_tickDurationMs (gs_config s)\<rparr>"
  have "keeps_events ?s (ProcessRespawns E (ProcessProjectiles E (ProcessWeaponWarmups E (ProcessInputs E ?s))))"
    by (rule keeps_events_trans [OF keeps_events_trans [OF keeps_events_trans [OF ProcessInputs_events
            ProcessWeaponWarmups_events] ProcessProjectiles_events]])
      (unfold ProcessRespawns_def, rule keeps_events_fold, rule respawn)
  then show ?thesis by (simp add: TickFixed_def keeps_events_def Let_def)
qed

text \<open>The reliable event of a client's own spawn.\<close>

definition tells_spawn :: "ClientId \<Rightarrow> NetworkEnvelope \<Rightarrow> bool" where
  "tells_spawn c e \<longleftrightarrow> valid_envelope e \<and> ev_messageClass e = Mc_SpawnAccepted
     \<and> (\<exists>ev i x y. DeserializeNetworkEvent (ev_payload e) = Some ev \<and> ne_payload ev = PlayerSpawnedEventDTO i c x y)"

lemma spawn_event_told:
  obtains ev where "ToNetworkEventDTO n tick ms (PlayerSpawned i c x y) = Some ev" "observer_only (ne_payload ev) = None"
    "\<And>d. tells_spawn c (event_envelope d ev)"
proof -
  define ev where "ev = \<lparr>ne_eventId = n, ne_serverTick = tick, ne_serverTimeMs = ms, ne_payload = PlayerSpawnedEventDTO i c x y\<rparr>"
  have "length (SerializeNetworkEvent ev) \<le> kMaxNetworkPayloadBytes"
    by (simp add: ev_def SerializeNetworkEvent_def KindForNetworkEvent_def codec_unfold kMaxNetworkPayloadBytes_def)
  then have "tells_spawn c (event_envelope d ev)" for d
    using event_msg.dec_iff [of "SerializeNetworkEvent ev" ev]
    by (auto simp: tells_spawn_def valid_envelope_iff event_envelope_def KindForNetworkEvent_def ev_def)
  then show thesis by (rule that [rotated 2]) (simp_all add: ev_def ToNetworkEventDTO_def)
qed

abbreviation hub_host ::
    "ClientId \<Rightarrow> NetworkEnvelope set \<Rightarrow> NetworkEnvelope list \<Rightarrow> (MultiClientLoopbackTransport, 'r) ServerNetworkHost \<Rightarrow> bool" where
  "hub_host c A q \<equiv> host_inv (hub_server c A q) (\<lambda>t. length (multi_queue t)) (length q)"

lemma SendReliableEvent_arrives:
  assumes "hub_host c {} q h" and "c \<noteq> 0" and "valid_envelope (event_envelope c ev)"
  shows "hub_host c {event_envelope c ev} q (SendReliableEvent multi_transport c ev now r h)"
proof -
  let ?t = "nh_transport h" and ?e = "event_envelope c ev"
  have t: "nh_transport (SendReliableEvent multi_transport c ev now r h) = snd (Multi_Send ?e ?t)"
    by (simp add: SendReliableEvent_def host_send_def2 multi_transport_def Let_def split: option.splits)
  obtain hub where "mt_hub ?t = Some hub" "mt_endpoint ?t = Endpoint_Server" "mt_state ?t = Connected"
    using assms(1) by (auto simp: host_inv_def hub_server_def hub_valid_def)
  then have "?e \<in> set (client_queue c (hub_of (snd (Multi_Send ?e ?t))))"
    using assms(2,3) by (simp add: Multi_Send_def routed_envelope_def event_envelope_def hub_of_def Let_def split_def)
  then show ?thesis using hub_serving.SendReliableEvent_inv [OF assms(1), of c ev now r]
    by (simp add: host_inv_def hub_server_def t)
qed

lemma broadcast_spawn_arrives:
  assumes h: "hub_host c {} q h" and "c \<noteq> 0" and "c \<in> set (nh_clients h)"
  shows "\<exists>e. tells_spawn c e \<and> hub_host c {e} q (broadcast_event multi_transport now (PlayerSpawned i c x y) h)"
proof -
  obtain ev h1 where ev: "next_event (PlayerSpawned i c x y) h = (Some ev, h1)" "observer_only (ne_payload ev) = None"
      "tells_spawn c (event_envelope c ev)" and h1: "h1 = h\<lparr>nh_nextNetworkEventId := nh_nextNetworkEventId h + 1\<rparr>"
    using spawn_event_told [of "nh_nextNetworkEventId h" "gs_tick (host_sim h)" "gs_timeMs (host_sim h)" i c x y]
    by (metis next_event_def)
  let ?send = "\<lambda>d. SendReliableEvent multi_transport d ev now False"
  obtain cs ds where clients: "nh_clients h = cs @ c # ds" using assms(3) by (metis split_list)
  have keeps: "hub_host c A q (fold ?send xs k)" if "hub_host c A q k" for A xs k
    by (rule fold_keeps [where P = "hub_host c A q", OF that]) (rule hub_serving.SendReliableEvent_inv)
  have "hub_host c {} q h1" using h by (simp add: h1)
  from keeps [OF SendReliableEvent_arrives [OF keeps [OF this] assms(2)]] ev(3)
  have "hub_host c {event_envelope c ev} q (fold ?send ds (?send c (fold ?send cs h1)))" by (simp add: tells_spawn_def)
  moreover have "broadcast_event multi_transport now (PlayerSpawned i c x y) h = fold ?send ds (?send c (fold ?send cs h1))"
    by (simp add: broadcast_event_def ev(1,2) Let_def) (simp add: h1 clients)
  ultimately show ?thesis using ev(3) by metis
qed

lemma tick_tells_client:
  fixes h :: "(MultiClientLoopbackTransport, 'r) ServerNetworkHost"
  assumes h: "hub_host c {} q h" and c: "c \<noteq> 0" "c \<in> set (nh_clients h)" and "spawned c (host_sim h)"
  shows "\<exists>e. tells_spawn c e \<and> hub_host c {e} q (TickAndSendSnapshots multi_transport E now h)"
proof -
  obtain events v where d: "Runtime_DrainEvents (Runtime_Tick E (nh_runtime h)) = (events, v)" by fastforce
  have "set (gs_events (host_sim h)) \<subseteq> set events"
    using d TickFixed_events [of "host_sim h" E]
    by (auto simp: Runtime_DrainEvents_def Runtime_Tick_def DrainEvents_def keeps_events_def Let_def)
  then obtain i x y before after where events: "events = before @ PlayerSpawned i c x y # after"
    using assms(4) by (metis spawned_def split_list subsetD)
  let ?h1 = "h\<lparr>nh_runtime := v\<rparr>"
  let ?h2 = "fold (snapshot_turn multi_transport E now) (nh_clients h) ?h1"
  let ?cast = "fold (broadcast_event multi_transport now)"
  have h2: "hub_host c {} q ?h2"
    by (rule fold_keeps [where P = "hub_host c {} q"]) (use h in \<open>simp_all add: hub_serving.snapshot_turn_inv\<close>)
  have cast: "hub_host c A q (?cast evs k)" if "hub_host c A q k" for A evs k
    by (rule fold_keeps [where P = "hub_host c A q", OF that]) (rule hub_serving.broadcast_event_inv)
  have "same_clients ?h1 (?cast before ?h2)"
    by (rule same_clients_trans; rule fold_same) (simp_all add: snapshot_turn_same broadcast_event_same)
  then have "c \<in> set (nh_clients (?cast before ?h2))" using c(2) by (simp add: same_clients_def)
  from broadcast_spawn_arrives [OF cast [OF h2] c(1) this, of now i x y] obtain e where
    e: "tells_spawn c e" "hub_host c {e} q (broadcast_event multi_transport now (PlayerSpawned i c x y) (?cast before ?h2))" by blast
  have "hub_host c {e} q (ResendPendingReliableEvents multi_transport now (?cast events ?h2))"
    unfolding ResendPendingReliableEvents_def
    by (rule fold_keeps [where P = "hub_host c {e} q"]) (use cast [OF e(2)] in \<open>simp_all add: events hub_serving.resend_client_inv\<close>)
  then show ?thesis using e(1) by (auto simp: TickAndSendSnapshots_def BroadcastReliableEvents_def d Let_def)
qed

section \<open>The client that is told\<close>

lemma handle_incoming_connects:
  assumes "ss_connectionState (pu_stats p) = CS_Connected \<or> tells_spawn (ss_localClientId (pu_stats p)) e"
  shows "ss_connectionState (pu_stats (handle_incoming T E now e p)) = CS_Connected"
proof (cases "tells_spawn (ss_localClientId (pu_stats p)) e")
  case True
  then show ?thesis
    by (auto simp: tells_spawn_def handle_incoming_def handle_event_def note_spawn_def ToDomainEvent_def Let_def split_def)
next
  case False
  then show ?thesis using assms
    by (auto simp: handle_incoming_def handle_snapshot_def handle_event_def handle_time_sync_def note_spawn_def
        Let_def split_def split: option.splits NetworkEventPayloadDTO.splits)
qed

text \<open>
  A client that pumps handles every message that waits for it. So what one of them brings about holds at the
  end, when the others keep it; \<open>I\<close> is kept by all of them.
\<close>

definition awaiting ::
    "('r ClientRuntime \<Rightarrow> ClientSessionStats \<Rightarrow> bool) \<Rightarrow> ('r ClientRuntime \<Rightarrow> ClientSessionStats \<Rightarrow> bool)
     \<Rightarrow> ClientId \<Rightarrow> NetworkEnvelope \<Rightarrow> (MultiClientLoopbackTransport, 'r) pump_state \<Rightarrow> bool" where
  "awaiting I P c e p \<longleftrightarrow> (\<exists>q. hub_reader c q (pu_transport p) \<and> I (pu_runtime p) (pu_stats p)
     \<and> (P (pu_runtime p) (pu_stats p) \<or> e \<in> set q))"

lemma PumpIncoming_delivers:
  fixes p :: "(MultiClientLoopbackTransport, 'r) pump_state" and E and now
  defines "handle \<equiv> handle_incoming multi_transport E now"
  assumes "awaiting I P c e p"
    and I: "\<And>e' k. I (pu_runtime k) (pu_stats k) \<Longrightarrow> I (pu_runtime (handle e' k)) (pu_stats (handle e' k))"
    and P: "\<And>e' k. I (pu_runtime k) (pu_stats k) \<Longrightarrow> P (pu_runtime k) (pu_stats k) \<or> e' = e \<Longrightarrow>
      P (pu_runtime (handle e' k)) (pu_stats (handle e' k))"
  shows "\<exists>p'. PumpIncoming multi_transport E now p = Some p' \<and> P (pu_runtime p') (pu_stats p')"
proof -
  have "\<exists>p'. poll_loop (pump_poll multi_transport) handle (p\<lparr>pu_applied := 0\<rparr>) = Some p'
      \<and> awaiting I P c e p' \<and> P (pu_runtime p') (pu_stats p')"
  proof (rule poll_loop_returns [where m = "\<lambda>p. length (multi_queue (pu_transport p))"])
    show "awaiting I P c e (p\<lparr>pu_applied := 0\<rparr>)" using assms(2) by (simp add: awaiting_def)
  next
    fix k k' :: "(MultiClientLoopbackTransport, 'r) pump_state" and e'
    assume "awaiting I P c e k" and "pump_poll multi_transport k = (Some e', k')"
    then obtain q t where q: "hub_reader c q (pu_transport k)" "I (pu_runtime k) (pu_stats k)"
        "P (pu_runtime k) (pu_stats k) \<or> e \<in> set q"
      and t: "Multi_Poll (pu_transport k) = (Some e', t)" "k' = k\<lparr>pu_transport := t\<rparr>"
      by (auto simp: awaiting_def pump_poll_def multi_transport_def split: prod.splits)
    from hub_reader_Poll [OF q(1)] t obtain q' where q': "q = e' # q'" "hub_reader c q' (pu_transport k')"
      by (auto split: list.splits)
    from hub_reading.handle_incoming_transport [OF q'(2), of E now e'] have r: "hub_reader c q' (pu_transport (handle e' k'))"
      by (simp add: handle_def)
    moreover have "P (pu_runtime (handle e' k')) (pu_stats (handle e' k')) \<or> e \<in> set q'"
      using q(2,3) P [of k' e'] by (auto simp: q'(1) t(2))
    moreover have "I (pu_runtime (handle e' k')) (pu_stats (handle e' k'))" using q(2) I [of k' e'] by (simp add: t(2))
    ultimately show "awaiting I P c e (handle e' k')
        \<and> length (multi_queue (pu_transport (handle e' k'))) < length (multi_queue (pu_transport k))"
      using q(1) by (auto simp: awaiting_def hub_reader_def q'(1))
  next
    fix k k' :: "(MultiClientLoopbackTransport, 'r) pump_state"
    assume "awaiting I P c e k" and "pump_poll multi_transport k = (None, k')"
    then obtain q t where q: "hub_reader c q (pu_transport k)" "I (pu_runtime k) (pu_stats k)"
        "P (pu_runtime k) (pu_stats k) \<or> e \<in> set q"
      and t: "Multi_Poll (pu_transport k) = (None, t)" "k' = k\<lparr>pu_transport := t\<rparr>"
      by (auto simp: awaiting_def pump_poll_def multi_transport_def split: prod.splits)
    from hub_reader_Poll [OF q(1)] t have "q = []" "hub_reader c [] t" by (auto split: list.splits)
    with q t show "awaiting I P c e k' \<and> P (pu_runtime k') (pu_stats k')" by (auto simp: awaiting_def)
  qed
  then show ?thesis by (auto simp: PumpIncoming_def handle_def)
qed

lemma PumpIncoming_connects:
  fixes p :: "(MultiClientLoopbackTransport, 'r) pump_state"
  assumes "hub_reader c q (pu_transport p)" and "ss_localClientId (pu_stats p) = c" and "e \<in> set q" and "tells_spawn c e"
  shows "\<exists>p'. PumpIncoming multi_transport E now p = Some p' \<and> ss_connectionState (pu_stats p') = CS_Connected"
  by (rule PumpIncoming_delivers [where I = "\<lambda>r st. ss_localClientId st = c" and c = c and e = e
      and P = "\<lambda>r st. ss_connectionState st = CS_Connected"])
    (use assms in \<open>auto simp: awaiting_def intro!: handle_incoming_connects\<close>)

section \<open>Joining\<close>

text \<open>A part of the program with the hub's contents filled in.\<close>

definition host_on :: "Hub \<Rightarrow> (MultiClientLoopbackTransport, 'r) ServerNetworkHost \<Rightarrow> (MultiClientLoopbackTransport, 'r) ServerNetworkHost" where
  "host_on hub h = h\<lparr>nh_transport := (nh_transport h)\<lparr>mt_hub := Some hub\<rparr>\<rparr>"

definition session_on :: "Hub \<Rightarrow> MultiClientLoopbackTransport RemoteClientSession \<Rightarrow> MultiClientLoopbackTransport RemoteClientSession" where
  "session_on hub s = s\<lparr>rm_transport := map_option (\<lambda>t. t\<lparr>mt_hub := Some hub\<rparr>) (rm_transport s)\<rparr>"

definition session_hub :: "MultiClientLoopbackTransport RemoteClientSession \<Rightarrow> Hub" where
  "session_hub s = (case rm_transport s of Some t \<Rightarrow> hub_of t | None \<Rightarrow> CreateHub)"

text \<open>Connecting puts the login into the hub.\<close>

definition login_at_hub :: "ClientId \<Rightarrow> TimestampMs \<Rightarrow> NetworkEnvelope" where
  "login_at_hub c now = (client_envelope Ch_LoginSpawn Mc_LoginRequest 0 (SerializeLoginCommand (login_command c now)))\<lparr>ev_peerId := c\<rparr>"

lemma login_at_hub: "valid_envelope (login_at_hub c now)" "logs_in c (login_at_hub c now)"
proof -
  have "hd_sequence (lg_header (login_command c now)) = 0" by (simp add: login_command_def)
  then show "valid_envelope (login_at_hub c now)"
    using login_envelope_valid [of "login_command c now"] by (simp add: login_at_hub_def)
  show "logs_in c (login_at_hub c now)"
    using login_msg.dec_iff [of "SerializeLoginCommand (login_command c now)" "login_command c now"]
    by (simp add: login_at_hub_def logs_in_def client_envelope_def) (simp add: login_command_def)
qed

lemma hub_session_connects:
  obtains s t where "Remote_Connect multi_transport c now (MakeRemoteSession hub c) = (True, s)" "rm_transport s = Some t"
    "rm_sessionActive s" "rm_loginSent s" "ss_localClientId (rm_stats s) = c" "mt_endpoint t = Endpoint_Client"
    "mt_clientId t = c" "mt_state t = Connected" "session_hub s = hub\<lparr>hub_toServer := hub_toServer hub @ [login_at_hub c now]\<rparr>"
proof -
  obtain b s where s: "Remote_Connect multi_transport c now (MakeRemoteSession hub c) = (b, s)" by fastforce
  note unfolded = MakeRemoteSession_def new_RemoteClientSession_def Remote_Connect_def TrySendLogin_def remote_state_def
      multi_transport_def Multi_Connect_def CreateClient_def new_MultiClientLoopbackTransport_def
      Pump_SendLogin_def Multi_Send_def routed_envelope_def hub_of_def Let_def split_def
  show thesis
    by (rule that [of s "the (rm_transport s)"])
      (use s login_envelope_valid [of "login_command c now"] in
        \<open>auto simp: unfolded session_hub_def login_at_hub_def login_command_def\<close>)
qed

text \<open>C5. A client joins: when a client with its own identifier connects over a hub to a server that has room
  for everyone who is waiting, then its login is sent, the server's next pump gives it a player, the
  server's next tick tells it so, and the client's next pump ends with the client connected; whatever else
  is on its way in the hub, and whatever the clocks show.\<close>

theorem client_joins:
  fixes h :: "(MultiClientLoopbackTransport, 'r) ServerNetworkHost" and E :: "'r entt_ops" and E' :: "'q entt_ops"
    and runtime and hub
  assumes "hub_ok hub" and "mt_endpoint (nh_transport h) = Endpoint_Server" and "mt_state (nh_transport h) = Connected"
    and "registered h" and "c \<noteq> 0" and "PlayerEntityForClient (host_sim h) c = None"
    and "length (gs_playerByClient (host_sim h)) + length (hub_toServer hub) < unat (sc_maxPlayers (gs_config (host_sim h)))"
  shows "\<exists>s h1 runtime' s'. Remote_Connect multi_transport c now (MakeRemoteSession hub c) = (True, s)
     \<and> PumpClientMessages multi_transport E (host_on (session_hub s) h) = Some h1
     \<and> PlayerEntityForClient (host_sim h1) c \<noteq> None
     \<and> Remote_Pump multi_transport E' runtime
         (session_on (hub_of (nh_transport (TickAndSendSnapshots multi_transport E later h1))) s) = Some (runtime', s')
     \<and> ss_connectionState (rm_stats s') = CS_Connected"
proof -
  obtain s t where s: "Remote_Connect multi_transport c now (MakeRemoteSession hub c) = (True, s)" "rm_transport s = Some t"
    "rm_sessionActive s" "rm_loginSent s" "ss_localClientId (rm_stats s) = c"
    and t: "mt_endpoint t = Endpoint_Client" "mt_clientId t = c" "mt_state t = Connected"
    and hub': "session_hub s = hub\<lparr>hub_toServer := hub_toServer hub @ [login_at_hub c now]\<rparr>" by (rule hub_session_connects)
  let ?q = "hub_toServer hub @ [login_at_hub c now]" and ?h = "host_on (session_hub s) h"
  have "hub_ok (session_hub s)" using assms(1) login_at_hub(1) by (auto simp: hub' hub_ok_def)
  then have "hub_server c {} ?q (nh_transport ?h)"
    using assms(2,3) by (simp add: hub_server_def host_on_def hub_valid_def multi_queue_def incoming_def hub')
  then have "joining c (gs_config (host_sim h)) ?h"
    using assms(6,7) login_at_hub(2)
    by (auto simp: joining_def host_on_def welcomed_def sim_players_def PlayerEntityForClient_def um_contains_def
        intro!: exI [of _ ?q])
  from hub_pump_joins [OF this] assms(4) obtain h1 where h1:
    "PumpClientMessages multi_transport E ?h = Some h1" "registered h1" "has_player h1 c" "welcomed c h1"
    "hub_server c {} [] (nh_transport h1)" by (auto simp: host_on_def)
  let ?h2 = "TickAndSendSnapshots multi_transport E later h1"
  have "hub_host c {} [] h1" using h1(2,5) by (simp add: host_inv_def hub_server_def)
  from tick_tells_client [OF this assms(5)] h1(3,4) obtain e where
    e: "tells_spawn c e" "hub_host c {e} [] ?h2" by (auto simp: welcomed_def)
  let ?t = "t\<lparr>mt_hub := Some (hub_of (nh_transport ?h2))\<rparr>"
  have "hub_reader c (client_queue c (hub_of (nh_transport ?h2))) ?t" "e \<in> set (client_queue c (hub_of (nh_transport ?h2)))"
    using e(2) t by (auto simp: hub_reader_def host_inv_def hub_server_def hub_valid_def hub_of_def multi_queue_def incoming_def)
  with PumpIncoming_connects [where c = c and e = e and E = E' and now = "rm_lastTickTimeMs s" and p = "\<lparr>pu_transport = ?t,
      pu_runtime = runtime, pu_stats = rm_stats s, pu_reliableEvents = rm_reliableEvents s, pu_applied = 0\<rparr>"] e(1) s(5)
  obtain p' where "PumpIncoming multi_transport E' (rm_lastTickTimeMs s) \<lparr>pu_transport = ?t, pu_runtime = runtime,
      pu_stats = rm_stats s, pu_reliableEvents = rm_reliableEvents s, pu_applied = 0\<rparr> = Some p'"
    "ss_connectionState (pu_stats p') = CS_Connected" by auto
  with s(2-4) have "\<exists>runtime' s'. Remote_Pump multi_transport E' runtime (session_on (hub_of (nh_transport ?h2)) s) = Some (runtime', s')
      \<and> ss_connectionState (rm_stats s') = CS_Connected"
    by (auto simp: Remote_Pump_def session_on_def multi_transport_def [THEN arg_cong, of tp_update] Multi_Update_def Let_def)
  then show ?thesis using s(1) h1(1,3) by (auto simp: PlayerEntityForClient_def um_contains_def)
qed

text \<open>The first client of a new server.\<close>

theorem client_joins_witness:
  "\<exists>s h1. Remote_Connect multi_transport 1 5 (MakeRemoteSession CreateHub 1) = (True, s)
     \<and> PumpClientMessages multi_transport list_registry (host_on (session_hub s)
         (new_ServerNetworkHost list_registry (CreateServer (Some CreateHub)) default_HostConfig)) = Some h1
     \<and> PlayerEntityForClient (host_sim h1) 1 \<noteq> None"
proof -
  let ?h = "new_ServerNetworkHost list_registry (CreateServer (Some CreateHub)) default_HostConfig"
  have "hub_ok CreateHub" "registered ?h" "mt_endpoint (nh_transport ?h) = Endpoint_Server" "mt_state (nh_transport ?h) = Connected"
    by (simp_all add: hub_ok_def CreateHub_def client_queue_def registered_def new_ServerNetworkHost_def CreateServer_def
        new_MultiClientLoopbackTransport_def)
  moreover have "PlayerEntityForClient (host_sim ?h) 1 = None"
    "length (gs_playerByClient (host_sim ?h)) + length (hub_toServer CreateHub) < unat (sc_maxPlayers (gs_config (host_sim ?h)))"
    by (simp_all add: new_ServerNetworkHost_def new_ServerRuntime_def new_GameSimulation_def PlayerEntityForClient_def
        default_SimulationConfig_def CreateHub_def)
  ultimately show ?thesis
    using client_joins [of CreateHub ?h 1, where now = 5 and E = list_registry and E' = list_registry and later = 16
        and runtime = "new_ClientRuntime list_registry 1 default_SimulationConfig"] by simp blast
qed

end
