(* ===== verification/Server_Turns.thy ===== *)
theory Server_Turns
  imports Hub_Join Prediction
begin

text \<open>
  What a server's round (pump and tick) does to the game, and what becomes of a client's input: the round is
  one \<open>server_turn\<close> of the simulation over the calls that the waiting messages ask for, in their order; and an
  input that waits for the server is acknowledged to its client by the snapshot of that round.
\<close>

section \<open>Messages as calls on the simulation\<close>

definition message_calls :: "NetworkEnvelope \<Rightarrow> sim_call list" where
  "message_calls e =
     (if \<not> valid_envelope e then []
      else if ev_messageClass e = Mc_LoginRequest
      then (case DeserializeLoginCommand (ev_payload e) of
              None \<Rightarrow> []
            | Some l \<Rightarrow> [Call_Login \<lparr>lg_header = \<lparr>hd_clientId = hd_clientId (lg_header l), hd_sequence = 0,
                                            hd_clientTimestampMs = hd_clientTimestampMs (lg_header l)\<rparr>\<rparr>])
      else if ev_messageClass e = Mc_ClientInput
      then (case DeserializeClientInputPacket (ev_payload e) of None \<Rightarrow> [] | Some packet \<Rightarrow> [Call_Input packet])
      else [])"

definition queue_calls :: "NetworkEnvelope list \<Rightarrow> sim_call list" where
  "queue_calls es = concat (map message_calls es)"

lemma queue_calls_simps [simp]:
  "queue_calls [] = []" "queue_calls (e # es) = message_calls e @ queue_calls es"
  "queue_calls (es @ es') = queue_calls es @ queue_calls es'"
  by (simp_all add: queue_calls_def)

lemma handle_message_calls:
  "host_sim (handle_message T E e h) = fold (sim_run_call E) (message_calls e) (host_sim h)"
proof -
  have login: "host_sim (HandleLoginEnvelope E e h) = (case DeserializeLoginCommand (ev_payload e) of
      None \<Rightarrow> host_sim h | Some l \<Rightarrow> snd (SubmitLogin E \<lparr>lg_header = \<lparr>hd_clientId = hd_clientId (lg_header l), hd_sequence = 0,
          hd_clientTimestampMs = hd_clientTimestampMs (lg_header l)\<rparr>\<rparr> (host_sim h)))"
    by (simp add: HandleLoginEnvelope_def Runtime_ConnectClient_def host_stat_def Let_def split_def split: option.split)
  have input: "host_sim (HandleInputEnvelope e h) = (case DeserializeClientInputPacket (ev_payload e) of
      None \<Rightarrow> host_sim h | Some p \<Rightarrow> snd (SubmitInput p (host_sim h)))"
    by (simp add: HandleInputEnvelope_def Runtime_SubmitInput_def host_stat_def Let_def split_def split: option.split)
  have rest: "host_sim (HandleSnapshotAckEnvelope e h) = host_sim h"
    "host_sim (HandleNetworkEventAckEnvelope e h) = host_sim h" "host_sim (HandleTimeSyncEnvelope T e h) = host_sim h"
    by (simp_all add: HandleSnapshotAckEnvelope_def HandleNetworkEventAckEnvelope_def HandleTimeSyncEnvelope_def
        host_stat_def host_send_def Let_def split_def split: option.splits bool.splits prod.splits)
  show ?thesis
    by (cases "ev_messageClass e") (simp_all add: handle_message_def message_calls_def login input rest split: option.split)
qed

section \<open>The pump\<close>

text \<open>A pump over the hub handles every waiting message, in order, and keeps what every message keeps.\<close>

definition pumping :: "(('t, 'r) ServerNetworkHost \<Rightarrow> bool) \<Rightarrow> 'r entt_ops \<Rightarrow> NetworkEnvelope list \<Rightarrow> 'r GameSimulation
    \<Rightarrow> NetworkEnvelope list \<Rightarrow> ('t, 'r) ServerNetworkHost \<Rightarrow> bool" where
  "pumping P E es s q h \<longleftrightarrow> P h \<and> fold (sim_run_call E) (queue_calls q) (host_sim h) = fold (sim_run_call E) (queue_calls es) s"

lemma hub_pump_calls:
  fixes h :: "(MultiClientLoopbackTransport, 'r) ServerNetworkHost"
  assumes h: "hub_server 0 {} es (nh_transport h)" "registered h" and P: "P h"
    and keeps: "\<And>k e. registered k \<Longrightarrow> P k \<Longrightarrow> P (handle_message multi_transport E e k)"
    and transport: "\<And>k t. P (k\<lparr>nh_transport := t\<rparr>) = P k"
  shows "\<exists>h'. PumpClientMessages multi_transport E h = Some h' \<and> registered h' \<and> hub_server 0 {} [] (nh_transport h')
     \<and> P h' \<and> host_sim h' = fold (sim_run_call E) (queue_calls es) (host_sim h)"
proof -
  let ?I = "pumping P E es (host_sim h)"
  let ?Inv = "\<lambda>k. \<exists>q. hub_server 0 {} q (nh_transport k) \<and> ?I q k"
  have "host_inv hub_valid (\<lambda>t. length (multi_queue t)) (length (multi_queue (nh_transport h))) h"
    using h by (auto simp: hub_server_def host_inv_def)
  then have "\<exists>h'. PumpClientMessages multi_transport E h = Some h'
      \<and> host_inv hub_valid (\<lambda>t. length (multi_queue t)) (length (multi_queue (nh_transport h))) h' \<and> ?Inv h'
      \<and> (hub_server 0 {} [] (nh_transport h') \<and> ?I [] h')"
  proof (rule shared_hub.PumpClientMessages_inv)
    show "?Inv h" using h(1) P by (auto simp: pumping_def)
  next
    fix k :: "(MultiClientLoopbackTransport, 'r) ServerNetworkHost" and e t
    assume inv: "host_inv hub_valid (\<lambda>t. length (multi_queue t)) (length (multi_queue (nh_transport h))) k"
      and "?Inv k" and "tp_poll multi_transport (nh_transport k) = (Some e, t)"
    then obtain q where q: "hub_server 0 {} q (nh_transport k)" "?I q k" and t: "Multi_Poll (nh_transport k) = (Some e, t)"
      by (auto simp: multi_transport_def)
    from hub_server_Poll [OF q(1)] t obtain q' where q': "q = e # q'" "hub_server 0 {} q' t" by (auto split: list.splits)
    let ?k = "k\<lparr>nh_transport := t\<rparr>"
    have k: "host_inv (hub_server 0 {} q') (\<lambda>t. length (multi_queue t)) (length q') ?k"
      using q'(2) inv by (simp add: host_inv_def hub_server_def)
    from hub_serving.handle_message_inv [OF this, of E e]
    have "hub_server 0 {} q' (nh_transport (handle_message multi_transport E e ?k))" by (simp add: host_inv_def)
    moreover have "?I q' (handle_message multi_transport E e ?k)"
      using q(2) keeps [of ?k e] k by (simp add: pumping_def handle_message_calls q'(1) transport host_inv_def)
    ultimately show "?Inv (handle_message multi_transport E e ?k)" by blast
  next
    fix k :: "(MultiClientLoopbackTransport, 'r) ServerNetworkHost" and t
    assume "?Inv k" and "tp_poll multi_transport (nh_transport k) = (None, t)"
    then obtain q where q: "hub_server 0 {} q (nh_transport k)" "?I q k" and t: "Multi_Poll (nh_transport k) = (None, t)"
      by (auto simp: multi_transport_def)
    from hub_server_Poll [OF q(1)] t have "q = []" "hub_server 0 {} [] t" by (auto split: list.splits)
    with q show "?Inv (k\<lparr>nh_transport := t\<rparr>)
        \<and> (hub_server 0 {} [] (nh_transport (k\<lparr>nh_transport := t\<rparr>)) \<and> ?I [] (k\<lparr>nh_transport := t\<rparr>))"
      by (auto simp: pumping_def transport)
  qed
  then show ?thesis by (auto simp: host_inv_def pumping_def)
qed

lemma server_round_turn:
  fixes h :: "(MultiClientLoopbackTransport, 'r) ServerNetworkHost"
  assumes "hub_server 0 {} es (nh_transport h)" and "registered h"
  obtains h' where "PumpClientMessages multi_transport E h = Some h'" "registered h'" "hub_server 0 {} [] (nh_transport h')"
    "host_sim h' = fold (sim_run_call E) (queue_calls es) (host_sim h)"
    "host_sim (TickAndSendSnapshots multi_transport E now h')
       = sim_run_call E Call_Drain (server_turn E (queue_calls es) (host_sim h))"
proof -
  obtain h' where h': "PumpClientMessages multi_transport E h = Some h'" "registered h'" "hub_server 0 {} [] (nh_transport h')"
    "host_sim h' = fold (sim_run_call E) (queue_calls es) (host_sim h)"
    using hub_pump_calls [OF assms, where P = "\<lambda>h. True"] by auto
  moreover have "host_sim (TickAndSendSnapshots multi_transport E now h')
       = sim_run_call E Call_Drain (server_turn E (queue_calls es) (host_sim h))"
    by (simp add: TickAndSendSnapshots_sim h'(4) server_turn_def DrainEvents_def)
  ultimately show ?thesis using that by blast
qed

end
