(* ===== verification/Input_Ack.thy ===== *)
theory Input_Ack
  imports Server_Turns
begin

text \<open>
  An input on its way: the server takes it from the hub, notes its sequence as accepted, and the snapshot of
  its next tick tells the client, which then keeps only later inputs for its replay.
\<close>

section \<open>Accepted inputs\<close>

definition accepted_through :: "ClientId \<Rightarrow> CommandSequence \<Rightarrow> 'r GameSimulation \<Rightarrow> bool" where
  "accepted_through c n s \<longleftrightarrow> PlayerEntityForClient s c \<noteq> None
     \<and> (case um_find (gs_lastAcceptedSequence s) c of Some l \<Rightarrow> n \<le> l | None \<Rightarrow> False)"

lemma CreatePlayer_accounts:
  "gs_lastAcceptedSequence (snd (CreatePlayer E c x y s)) = gs_lastAcceptedSequence s"
  "gs_playerByClient (snd (CreatePlayer E c x y s)) = um_put c (gs_nextNetworkId s) (gs_playerByClient s)"
  unfolding CreatePlayer_def AllocateNetworkId_def Let_def split_def by simp_all

lemma SubmitLogin_accounts:
  assumes "PlayerEntityForClient s c \<noteq> None"
  shows "PlayerEntityForClient (snd (SubmitLogin E cmd s)) c = PlayerEntityForClient s c"
    and "um_find (gs_lastAcceptedSequence (snd (SubmitLogin E cmd s))) c = um_find (gs_lastAcceptedSequence s) c"
  using assms by (auto simp: SubmitLogin_def PlayerEntityForClient_def um_contains_def CreatePlayer_accounts Let_def split_def)

lemma sim_run_call_player:
  assumes "PlayerEntityForClient s c \<noteq> None" shows "PlayerEntityForClient (sim_run_call E x s) c = PlayerEntityForClient s c"
  using SubmitLogin_accounts(1) [OF assms]
  by (cases x) (simp_all add: PlayerEntityForClient_def SubmitInput_frame DrainEvents_def)

lemma input_accepted:
  "PlayerEntityForClient s (packet_client q) \<noteq> None \<Longrightarrow> accepted_through (packet_client q) (packet_sequence q) (snd (SubmitInput q s))"
  by (auto simp: accepted_through_def SubmitInput_def PlayerEntityForClient_def Let_def split: option.splits)

lemma sim_run_call_accepted:
  assumes "accepted_through c n s" shows "accepted_through c n (sim_run_call E x s)"
proof (cases x)
  case (Call_Input q)
  then show ?thesis using assms
    by (auto simp: accepted_through_def SubmitInput_def PlayerEntityForClient_def Let_def split: option.splits)
qed (use assms SubmitLogin_accounts [of s c E] in \<open>auto simp: accepted_through_def PlayerEntityForClient_def DrainEvents_def\<close>)

lemma calls_accept:
  assumes "PlayerEntityForClient s (packet_client q) \<noteq> None" and "Call_Input q \<in> set calls"
  shows "accepted_through (packet_client q) (packet_sequence q) (fold (sim_run_call E) calls s)"
proof -
  obtain as bs where calls: "calls = as @ Call_Input q # bs" using assms(2) by (metis split_list)
  have player: "PlayerEntityForClient (fold (sim_run_call E) as s) (packet_client q) \<noteq> None"
    by (rule fold_invariant [where P = "\<lambda>s. PlayerEntityForClient s (packet_client q) \<noteq> None"])
      (simp_all add: assms(1) sim_run_call_player)
  have "accepted_through (packet_client q) (packet_sequence q) (fold (sim_run_call E) bs
      (sim_run_call E (Call_Input q) (fold (sim_run_call E) as s)))"
    by (rule fold_invariant) (use input_accepted [OF player] in \<open>simp_all add: sim_run_call_accepted\<close>)
  then show ?thesis by (simp add: calls)
qed

text \<open>The sequence of the last input that was accepted.\<close>

definition accepted_last :: "ClientId \<Rightarrow> CommandSequence \<Rightarrow> 'r GameSimulation \<Rightarrow> bool" where
  "accepted_last c n s \<longleftrightarrow> PlayerEntityForClient s c \<noteq> None \<and> um_find (gs_lastAcceptedSequence s) c = Some n"

lemma accepted_through_last:
  assumes "accepted_through c n s" obtains m where "accepted_last c m s" "n \<le> m"
  using assms by (auto simp: accepted_through_def accepted_last_def split: option.splits)

text \<open>What the simulation does with an input of a player: one that is not newer than the last is ignored, any
  other is queued for the next tick and noted.\<close>

definition takes_input :: "ClientInputPacket \<Rightarrow> 'r GameSimulation \<Rightarrow> 'r GameSimulation \<Rightarrow> bool" where
  "takes_input q s s' \<longleftrightarrow> (if accepted_through (packet_client q) (packet_sequence q) s then s' = s
     else gs_pendingInputs s' = gs_pendingInputs s @ [q] \<and> accepted_last (packet_client q) (packet_sequence q) s')"

lemma input_taken:
  "PlayerEntityForClient s (packet_client q) \<noteq> None \<Longrightarrow> takes_input q s (sim_run_call E (Call_Input q) s)"
  by (auto simp: takes_input_def accepted_through_def accepted_last_def SubmitInput_def PlayerEntityForClient_def Let_def
      split: option.splits)

lemma sim_run_calls_player:
  assumes "PlayerEntityForClient s c \<noteq> None" shows "PlayerEntityForClient (fold (sim_run_call E) calls s) c \<noteq> None"
  by (rule fold_invariant [where P = "\<lambda>s. PlayerEntityForClient s c \<noteq> None"]) (simp_all add: assms sim_run_call_player)

section \<open>A tick accepts nothing\<close>

definition same_accounts :: "'r GameSimulation \<Rightarrow> 'r GameSimulation \<Rightarrow> bool" where
  "same_accounts s s' \<longleftrightarrow> gs_lastAcceptedSequence s' = gs_lastAcceptedSequence s \<and> gs_playerByClient s' = gs_playerByClient s"

lemma same_accounts_trans: "same_accounts s s' \<Longrightarrow> same_accounts s' s'' \<Longrightarrow> same_accounts s s''"
  by (simp add: same_accounts_def)

lemma same_accounts_fold: "(\<And>x s. same_accounts s (f x s)) \<Longrightarrow> same_accounts s (fold f xs s)"
  by (rule fold_invariant [where P = "same_accounts s"]) (auto simp: same_accounts_def)

lemma same_accounts_fst_fold:
  "(\<And>x p. same_accounts (fst p) (fst (f x p))) \<Longrightarrow> same_accounts (fst p) (fst (fold f xs p))"
  by (rule fold_invariant [where P = "\<lambda>q. same_accounts (fst p) (fst q)"]) (auto simp: same_accounts_def)

lemma ProcessInputs_accounts: "same_accounts s (ProcessInputs E s)"
proof -
  have input: "same_accounts s (apply_pending E i s)" for i and s :: "'a GameSimulation"
    by (simp add: apply_pending_def ApplyInputToEntity_def fire_weapon_def same_accounts_def Let_def split: option.split)
  have move: "same_accounts s (IntegrateMovement E e s)" for e and s :: "'a GameSimulation"
    by (simp add: IntegrateMovement_def same_accounts_def Let_def split: option.split)
  let ?s1 = "fold (apply_pending E) (gs_pendingInputs s) s"
  have "same_accounts s ?s1" by (rule same_accounts_fold) (rule input)
  moreover have "same_accounts (?s1\<lparr>gs_pendingInputs := []\<rparr>) (fold (IntegrateMovement E)
      (en_view E [K_Player] (gs_registry ?s1)) (?s1\<lparr>gs_pendingInputs := []\<rparr>))"
    by (rule same_accounts_fold) (rule move)
  ultimately show ?thesis by (simp add: ProcessInputs_def Let_def same_accounts_def)
qed

lemma ProcessWeaponWarmups_accounts: "same_accounts s (ProcessWeaponWarmups E s)"
proof -
  have warm: "same_accounts (fst p) (fst (warmup_step E e p))" for e and p :: "'a GameSimulation \<times> ProjectileRequest list"
    by (simp add: warmup_step_def same_accounts_def Let_def split: option.split prod.split)
  have spawn: "same_accounts s (spawn_request E r s)" for r and s :: "'a GameSimulation"
    by (simp add: spawn_request_def CreateProjectile_def AllocateNetworkId_def same_accounts_def Let_def split_def)
  show ?thesis
    using same_accounts_trans [OF same_accounts_fst_fold [OF warm, where p = "(s, [])"] same_accounts_fold [OF spawn]]
    by (simp add: ProcessWeaponWarmups_def Let_def split_def)
qed

lemma ProcessProjectiles_accounts: "same_accounts s (ProcessProjectiles E s)"
proof -
  have loop: "same_accounts s (snd (hit_loop E i p t es s))" for i p t es and s :: "'a GameSimulation"
    by (induction es) (simp_all add: hit_player_def same_accounts_def Let_def split: option.split)
  have step: "same_accounts (fst p) (fst (projectile_step E players e p))" for players e and p :: "'a GameSimulation \<times> entity list"
  proof -
    have hit: "same_accounts s (snd (hit_loop E i pj t es (upd E e f s)))" for i pj t es f and s :: "'a GameSimulation"
      using loop [where s = "upd E e f s"] by (simp add: same_accounts_def)
    have same: "same_accounts s s" "same_accounts s (upd E e f s)" for f and s :: "'a GameSimulation"
      by (simp_all add: same_accounts_def)
    show ?thesis by (cases p) (simp add: projectile_step_def hit same Let_def split_def split: option.split)
  qed
  have destroy: "same_accounts s (destroy_projectile E e s)" for e and s :: "'a GameSimulation"
    by (simp add: destroy_projectile_def same_accounts_def split: option.split)
  show ?thesis
    using same_accounts_trans [OF same_accounts_fst_fold [OF step, where p = "(s, [])"] same_accounts_fold [OF destroy]]
    by (simp add: ProcessProjectiles_def Let_def split_def)
qed

lemma TickFixed_accounts: "same_accounts s (TickFixed E s)"
proof -
  have respawn: "same_accounts s (respawn_step E e s)" for e and s :: "'a GameSimulation"
    by (simp add: respawn_step_def same_accounts_def Let_def split: option.split)
  let ?s = "s\<lparr>gs_tick := gs_tick s + 1, gs_timeMs := gs_timeMs s + sc_tickDurationMs (gs_config s)\<rparr>"
  have "same_accounts ?s (ProcessRespawns E (ProcessProjectiles E (ProcessWeaponWarmups E (ProcessInputs E ?s))))"
    by (rule same_accounts_trans [OF same_accounts_trans [OF same_accounts_trans [OF ProcessInputs_accounts
            ProcessWeaponWarmups_accounts] ProcessProjectiles_accounts]])
      (unfold ProcessRespawns_def, rule same_accounts_fold, rule respawn)
  then show ?thesis by (simp add: TickFixed_def same_accounts_def Let_def)
qed

lemma TickFixed_accepted: "accepted_last c n s \<Longrightarrow> accepted_last c n ((TickFixed E s)\<lparr>gs_events := evs\<rparr>)"
  using TickFixed_accounts [of s E] by (simp add: accepted_last_def same_accounts_def PlayerEntityForClient_def)

text \<open>The snapshot planned for the client carries the sequence.\<close>

lemma planned_ack:
  "accepted_last c n (host_sim h) \<Longrightarrow> sn_ackedInputSequence (pl_snapshot (fst (plan_snapshot E c h))) = n"
  by (auto simp: accepted_last_def plan_snapshot_def Plan_header BuildSnapshotFor_def BuildSnapshot_def Let_def split: option.splits)

section \<open>The snapshot fits\<close>

text \<open>An entity takes at most 71 bytes, so a snapshot of 900 entities fits into an envelope.\<close>

lemma WriteEntity_max: "length (WriteEntity e []) \<le> 71"
  by (simp add: WriteEntity_def WriteMovement_def WriteCombat_def WriteReplication_def Let_def writer_defs split: option.splits)

lemma snapshot_fits:
  assumes "length (sn_entities sn) \<le> 900" shows "length (SerializeSnapshot sn) \<le> kMaxNetworkPayloadBytes"
proof -
  have "length (concat (map (\<lambda>e. WriteEntity e []) es)) \<le> length es * 71" for es
    by (induction es) (use WriteEntity_max in \<open>auto intro: order_trans add_mono\<close>)
  from this [of "sn_entities sn"] have "length (concat (map (\<lambda>e. WriteEntity e []) (sn_entities sn))) \<le> 900 * 71"
    using assms by (meson mult_le_mono1 order_trans)
  then show ?thesis
    by (simp add: SerializeSnapshot_def Let_def WriteEntities_eq writer_defs kMaxNetworkPayloadBytes_def)
qed

text \<open>A snapshot has at most the entities that have a place, or as many as the planner lets through.\<close>

definition placed_entities :: "'r entt_ops \<Rightarrow> 'r GameSimulation \<Rightarrow> nat" where
  "placed_entities E s = length (en_view E [K_Identity, K_Transform, K_Velocity] (gs_registry s))"

definition few_entities :: "'r entt_ops \<Rightarrow> ServerNetworkHostConfig \<Rightarrow> 'r GameSimulation \<Rightarrow> bool" where
  "few_entities E config s \<longleftrightarrow> placed_entities E s \<le> 900
     \<or> 0 < pc_maxEntitiesPerSnapshot (nc_replication config) \<and> pc_maxEntitiesPerSnapshot (nc_replication config) \<le> 900"

lemma length_BuildSnapshot: "length (sn_entities (BuildSnapshot E s c i b)) \<le> placed_entities E s"
proof -
  have one: "length (build_entity E s c ck e) \<le> 1" for ck e using build_entity_cases [of E s c ck e] by auto
  have "length (concat (map (build_entity E s c ck) es)) \<le> length es" for ck es
    by (induction es) (use one in \<open>auto intro: order_trans add_mono\<close>)
  then show ?thesis by (simp add: BuildSnapshot_def placed_entities_def)
qed

lemma planned_fits:
  assumes "few_entities E (nh_config h) (host_sim h)"
  shows "valid_envelope (snapshot_envelope c (pl_snapshot (fst (plan_snapshot E c h))))"
proof -
  let ?sn = "pl_snapshot (fst (plan_snapshot E c h))" and ?n = "pc_maxEntitiesPerSnapshot (nc_replication (nh_config h))"
  have le: "length (sn_entities ?sn) \<le> placed_entities E (host_sim h)" "0 < ?n \<Longrightarrow> length (sn_entities ?sn) \<le> ?n"
    using length_BuildSnapshot [of E "host_sim h" c] length_stable_sort
    by (auto simp: plan_snapshot_def Plan_entities BuildSnapshotFor_def Let_def min_def not_le intro: order_trans less_imp_le less_le_trans)
  then have "length (sn_entities ?sn) \<le> 900" using assms by (auto simp: few_entities_def)
  then show ?thesis by (simp add: snapshot_envelope_valid snapshot_fits)
qed

section \<open>The schedule\<close>

text \<open>The time of a client's next snapshot; only its own snapshots change it.\<close>

definition next_send :: "ClientId \<Rightarrow> ('t, 'r) ServerNetworkHost \<Rightarrow> TimestampMs option" where
  "next_send c h = map_option rs_nextSnapshotSendAtMs (um_find (nh_clientStateById h) c)"

lemma ShouldSendSnapshot_next:
  "host_ShouldSendSnapshot c now h \<longleftrightarrow> (case next_send c h of None \<Rightarrow> True | Some t \<Rightarrow> t \<le> now)"
  by (simp add: host_ShouldSendSnapshot_def next_send_def ShouldSendSnapshot_state_def split: option.split)

lemma next_send_put:
  "um_find (nh_clientStateById h) d = Some r \<Longrightarrow> rs_nextSnapshotSendAtMs r' = rs_nextSnapshotSendAtMs r \<Longrightarrow>
     next_send c (h\<lparr>nh_clientStateById := um_put d r' (nh_clientStateById h)\<rparr>) = next_send c h"
  by (simp add: next_send_def)

lemma next_send_fields [simp]:
  "next_send c (h\<lparr>nh_transport := t\<rparr>) = next_send c h" "next_send c (h\<lparr>nh_runtime := v\<rparr>) = next_send c h"
  "next_send c (h\<lparr>nh_baselineCache := b\<rparr>) = next_send c h" "next_send c (host_stat f h) = next_send c h"
  "next_send c (h\<lparr>nh_nextNetworkEventId := n\<rparr>) = next_send c h" "next_send c (h\<lparr>nh_clients := cs\<rparr>) = next_send c h"
  by (simp_all add: next_send_def host_stat_def)

lemma SendReliableEvent_next: "next_send c (SendReliableEvent T d ev now r h) = next_send c h"
proof -
  have "rs_nextSnapshotSendAtMs (TrackReliableEvent ev now st) = rs_nextSnapshotSendAtMs st" for st
    by (simp add: TrackReliableEvent_def Let_def)
  then show ?thesis
    by (simp add: SendReliableEvent_def host_send_def2 Let_def split: option.split)
      (auto simp: next_send_def)
qed

lemma update_interest_next: "next_send c (update_interest T d sn now h) = next_send c h"
proof -
  have one: "next_send c (send_interest T d now ev k) = next_send c k" for ev and k :: "('a, 'b) ServerNetworkHost"
    by (simp add: send_interest_def next_event_def SendReliableEvent_next split: option.split)
  have all: "next_send c (SendInterestEvents T d fr now k) = next_send c k" for fr and k :: "('a, 'b) ServerNetworkHost"
    unfolding SendInterestEvents_def Let_def
    by (rule fold_keeps [where P = "\<lambda>k'. next_send c k' = next_send c k"];
        (rule fold_keeps [where P = "\<lambda>k'. next_send c k' = next_send c k"])?) (simp_all add: one)
  show ?thesis by (simp add: update_interest_def all next_send_put Let_def split_def split: option.split)
qed

lemma SendSnapshot_next: "next_send c (snd (SendSnapshot T E d now h)) = next_send c h"
proof -
  have "next_send c (count_delta d p k) = next_send c k" for p and k :: "('a, 'b) ServerNetworkHost"
    by (simp add: count_delta_def Let_def split: option.split)
  then show ?thesis
    by (simp add: SendSnapshot_def plan_snapshot_def host_send_def2 update_interest_next Let_def split_def)
qed

lemma snapshot_turn_next: "d \<noteq> c \<Longrightarrow> next_send c (snapshot_turn T E now d h) = next_send c h"
  using SendSnapshot_next [of c T E d now h]
  by (auto simp: snapshot_turn_def host_MarkSnapshotSent_def next_send_def split: option.splits prod.splits bool.splits)

lemma handle_message_next:
  assumes "next_send c h \<noteq> None" shows "next_send c (handle_message T E e h) = next_send c h"
proof -
  have "next_send c (HandleLoginEnvelope E e h) = next_send c h" using assms
    by (auto simp: HandleLoginEnvelope_def host_stat_def next_send_def um_contains_def Let_def split_def split: option.splits)
  moreover have "next_send c (HandleInputEnvelope e h) = next_send c h"
    by (simp add: HandleInputEnvelope_def Let_def split_def split: option.split)
  moreover have "next_send c (HandleSnapshotAckEnvelope e h) = next_send c h"
    by (auto simp: HandleSnapshotAckEnvelope_def AcknowledgeSnapshot_def next_send_def host_stat_def Let_def
        split: option.splits prod.splits bool.splits if_splits)
  moreover have "next_send c (HandleNetworkEventAckEnvelope e h) = next_send c h"
    by (auto simp: HandleNetworkEventAckEnvelope_def AcknowledgeReliableEvent_def next_send_def host_stat_def Let_def split: option.splits)
  moreover have "next_send c (HandleTimeSyncEnvelope T e h) = next_send c h"
    by (simp add: HandleTimeSyncEnvelope_def host_send_def2 Let_def split_def split: option.split)
  ultimately show ?thesis by (simp add: handle_message_def split: MessageClass.split)
qed

section \<open>The snapshot on the hub\<close>

text \<open>The sequence up to which a message acknowledges its client's inputs, when it is a snapshot.\<close>

definition told_ack :: "NetworkEnvelope \<Rightarrow> CommandSequence option" where
  "told_ack e = (if valid_envelope e \<and> ev_messageClass e = Mc_Snapshot
     then map_option sn_ackedInputSequence (DeserializeSnapshot (ev_payload e)) else None)"

definition told_acks :: "NetworkEnvelope list \<Rightarrow> CommandSequence list" where
  "told_acks = List.map_filter told_ack"

lemma told_acks_simps [simp]:
  "told_acks [] = []" "told_acks (e # es) = (case told_ack e of None \<Rightarrow> told_acks es | Some n \<Rightarrow> n # told_acks es)"
  by (simp_all add: told_acks_def split: option.split)

lemma told_acks_set: "told_ack e = Some n \<Longrightarrow> e \<in> set es \<Longrightarrow> n \<in> set (told_acks es)"
  by (induction es) (auto split: option.split)

lemma snapshot_tells_ack:
  assumes "valid_envelope (snapshot_envelope c sn)" shows "told_ack (snapshot_envelope c sn) = Some (sn_ackedInputSequence sn)"
proof -
  have "length (SerializeSnapshot sn) \<le> kMaxNetworkPayloadBytes" using assms by (simp add: snapshot_envelope_valid)
  then have "length (sn_entities sn) < 2 ^ 32" using snapshot_entities_le [of sn] by (simp add: kMaxNetworkPayloadBytes_def)
  then have "DeserializeSnapshot (SerializeSnapshot sn) = Some sn"
    using snapshot_msg.dec_iff [of "SerializeSnapshot sn" sn] by simp
  then show ?thesis using assms by (simp add: told_ack_def) (simp add: snapshot_envelope_def)
qed

lemma hub_send_arrives:
  assumes "hub_server c {} q t" and "c \<noteq> 0" and "ev_peerId e = c" and "valid_envelope e"
  shows "fst (Multi_Send e t)" and "hub_server c {e} q (snd (Multi_Send e t))"
proof -
  obtain hub where t: "mt_hub t = Some hub" "mt_endpoint t = Endpoint_Server" "mt_state t = Connected"
    using assms(1) by (auto simp: hub_server_def hub_valid_def)
  then show "fst (Multi_Send e t)" using assms by (simp add: Multi_Send_def Let_def)
  have "e \<in> set (client_queue c (hub_of (snd (Multi_Send e t))))"
    using assms(2-4) t by (auto simp: Multi_Send_def routed_envelope_def hub_of_def Let_def)
  moreover have "hub_server c {} q (snd (Multi_Send e t))"
    using hub_serving.send_ok [OF assms(1), of e] by (cases "Multi_Send e t") (simp add: multi_transport_def)
  ultimately show "hub_server c {e} q (snd (Multi_Send e t))" by (simp add: hub_server_def)
qed

lemma SendSnapshot_arrives:
  fixes h :: "(MultiClientLoopbackTransport, 'r) ServerNetworkHost" and c E
  defines "e \<equiv> snapshot_envelope c (pl_snapshot (fst (plan_snapshot E c h)))"
  assumes h: "hub_host c {} q h" and "c \<noteq> 0" and "valid_envelope e"
  shows "hub_host c {e} q (snd (SendSnapshot multi_transport E c now h))"
proof -
  define planned where "planned = fst (plan_snapshot E c h)"
  define h2 where "h2 = count_delta c planned (snd (plan_snapshot E c h))"
  have "nh_transport h2 = nh_transport h \<and> (registered h2 \<longleftrightarrow> registered h)"
    by (simp add: h2_def count_delta_def plan_snapshot_def host_stat_def Let_def split_def split: option.split)
  then have t: "hub_server c {} q (nh_transport h2)" "registered h2" using h by (simp_all add: host_inv_def)
  define h3 where "h3 = h2\<lparr>nh_transport := snd (Multi_Send e (nh_transport h2))\<rparr>"
  have sent: "host_send multi_transport e h2 = (True, h3)"
    using hub_send_arrives(1) [OF t(1) assms(3) _ assms(4)]
    by (simp add: host_send_def2 h3_def multi_transport_def e_def snapshot_envelope_def)
  have "hub_host c {e} q h3"
    using hub_send_arrives(2) [OF t(1) assms(3) _ assms(4)] t
    by (simp add: host_inv_def h3_def e_def snapshot_envelope_def) (simp add: hub_server_def)
  from hub_serving.update_interest_inv [OF this, of c "pl_snapshot planned" now]
  have "hub_host c {e} q (update_interest multi_transport c (pl_snapshot planned) now h3)" .
  then show ?thesis
    using sent by (simp add: SendSnapshot_def Let_def split_def planned_def [symmetric] h2_def [symmetric] e_def)
qed

lemma snapshot_turn_arrives:
  fixes h :: "(MultiClientLoopbackTransport, 'r) ServerNetworkHost" and c E
  defines "e \<equiv> snapshot_envelope c (pl_snapshot (fst (plan_snapshot E c h)))"
  assumes h: "hub_host c {} q h" and c: "c \<noteq> 0" "valid_envelope e" and due: "host_ShouldSendSnapshot c now h"
  shows "hub_host c {e} q (snapshot_turn multi_transport E now c h)"
proof -
  have "hub_host c {e} q (snd (SendSnapshot multi_transport E c now h))"
    unfolding e_def by (rule SendSnapshot_arrives) (use assms in simp_all)
  moreover have "nh_transport (snapshot_turn multi_transport E now c h) = nh_transport (snd (SendSnapshot multi_transport E c now h))"
    using due by (simp add: snapshot_turn_def host_MarkSnapshotSent_def split: prod.split bool.split option.split)
  moreover have "hub_host c {} q (snapshot_turn multi_transport E now c h)" by (rule hub_serving.snapshot_turn_inv [OF h])
  ultimately show ?thesis by (simp add: host_inv_def)
qed

text \<open>A tick sends a client that is due a snapshot that tells it what was accepted.\<close>

lemma tick_acks_client:
  fixes h :: "(MultiClientLoopbackTransport, 'r) ServerNetworkHost"
  assumes h: "hub_host c {} q h" and c: "c \<noteq> 0" "c \<in> set (nh_clients h)" and due: "host_ShouldSendSnapshot c now h"
    and acc: "accepted_last c n (host_sim h)" and few: "few_entities E (nh_config h) (TickFixed E (host_sim h))"
  shows "\<exists>e. told_ack e = Some n \<and> hub_host c {e} q (TickAndSendSnapshots multi_transport E now h)"
proof -
  obtain events v where d: "Runtime_DrainEvents (Runtime_Tick E (nh_runtime h)) = (events, v)" by fastforce
  have v: "sv_simulation v = (TickFixed E (host_sim h))\<lparr>gs_events := []\<rparr>"
    using d by (auto simp: Runtime_DrainEvents_def Runtime_Tick_def DrainEvents_def Let_def)
  define turn where "turn = snapshot_turn multi_transport E now"
  obtain cs ds where clients: "nh_clients h = cs @ c # ds" "c \<notin> set cs" using c(2) by (metis split_list_first)
  define k where "k = fold turn cs (h\<lparr>nh_runtime := v\<rparr>)"
  have keep: "hub_host c A q (fold turn xs g)" if "hub_host c A q g" for A xs g
    by (rule fold_keeps [where P = "hub_host c A q", OF that]) (simp add: turn_def hub_serving.snapshot_turn_inv)
  have "same_sim (h\<lparr>nh_runtime := v\<rparr>) k" unfolding k_def turn_def by (rule same_sim_fold) (rule snapshot_turn_sim)
  then have sim: "host_sim k = (TickFixed E (host_sim h))\<lparr>gs_events := []\<rparr>" by (simp add: same_sim_def v)
  have "same_clients (h\<lparr>nh_runtime := v\<rparr>) k" unfolding k_def turn_def by (rule fold_same) (rule snapshot_turn_same)
  then have config: "nh_config k = nh_config h" by (simp add: same_clients_def)
  have turn_next: "next_send c (turn x g) = next_send c g" if "x \<in> set cs" for x g
    unfolding turn_def by (rule snapshot_turn_next) (use that clients(2) in auto)
  have "next_send c k = next_send c (h\<lparr>nh_runtime := v\<rparr>)"
    unfolding k_def by (rule fold_invariant [where P = "\<lambda>g. next_send c g = next_send c (h\<lparr>nh_runtime := v\<rparr>)"])
      (simp_all add: turn_next)
  then have due': "host_ShouldSendSnapshot c now k" using due by (simp add: ShouldSendSnapshot_next)
  let ?e = "snapshot_envelope c (pl_snapshot (fst (plan_snapshot E c k)))"
  have "few_entities E (nh_config k) (host_sim k)" using few by (simp add: few_entities_def placed_entities_def sim config)
  then have valid: "valid_envelope ?e" by (rule planned_fits)
  have "accepted_last c n (host_sim k)" unfolding sim by (rule TickFixed_accepted [OF acc])
  then have told: "told_ack ?e = Some n" using snapshot_tells_ack [OF valid] by (simp add: planned_ack)
  have "hub_host c {} q k" unfolding k_def by (rule keep) (use h in simp)
  from snapshot_turn_arrives [OF this c(1) valid due']
  have "hub_host c {?e} q (fold turn ds (turn c k))" unfolding turn_def [symmetric] by (rule keep)
  then have sent: "hub_host c {?e} q (fold turn (nh_clients h) (h\<lparr>nh_runtime := v\<rparr>))"
    by (simp add: clients(1) k_def)
  have cast: "hub_host c A q (fold (broadcast_event multi_transport now) evs g)" if "hub_host c A q g" for A evs g
    by (rule fold_keeps [where P = "hub_host c A q", OF that]) (rule hub_serving.broadcast_event_inv)
  have "hub_host c {?e} q (ResendPendingReliableEvents multi_transport now
      (fold (broadcast_event multi_transport now) events (fold turn (nh_clients h) (h\<lparr>nh_runtime := v\<rparr>))))"
    unfolding ResendPendingReliableEvents_def
    by (rule fold_keeps [where P = "hub_host c {?e} q"]) (use cast [OF sent] in \<open>simp_all add: hub_serving.resend_client_inv\<close>)
  then show ?thesis using told
    by (auto simp: TickAndSendSnapshots_def BroadcastReliableEvents_def d turn_def Let_def)
qed

section \<open>The client that is told\<close>

lemma ApplyServerSnapshot_unacked:
  "UnackedInputs (ApplyServerSnapshot E sn r) = filter (\<lambda>q. \<not> packet_sequence q \<le> sn_ackedInputSequence sn) (UnackedInputs r)"
  by (simp add: UnackedInputs_def ApplyServerSnapshot_def AcknowledgeThrough_def Let_def)

lemma RecordTimeSyncSample_unacked: "UnackedInputs (RecordTimeSyncSample sample r) = UnackedInputs r"
  by (simp add: UnackedInputs_def RecordTimeSyncSample_def)

text \<open>A message that acknowledges inputs drops exactly those; no other message drops one.\<close>

definition left_by :: "CommandSequence list \<Rightarrow> ClientInputPacket list \<Rightarrow> ClientInputPacket list" where
  "left_by acks = filter (\<lambda>x. list_all (\<lambda>n. n < packet_sequence x) acks)"

lemma left_by_simps [simp]:
  "left_by [] xs = xs" "left_by acks (left_by [n] xs) = left_by (n # acks) xs"
  by (auto simp: left_by_def filter_filter intro: filter_cong)

lemma handle_incoming_unacked:
  "UnackedInputs (pu_runtime (handle_incoming T E now e k)) = left_by (told_acks [e]) (UnackedInputs (pu_runtime k))"
  by (auto simp: handle_incoming_def handle_snapshot_def handle_event_def handle_time_sync_def RecordTimeSyncSample_unacked
      ApplyServerSnapshot_unacked told_ack_def left_by_def not_le Let_def split_def split: option.split)

definition left_to_handle ::
    "ClientId \<Rightarrow> ClientInputPacket list \<Rightarrow> (MultiClientLoopbackTransport, 'r) pump_state \<Rightarrow> bool" where
  "left_to_handle c xs p \<longleftrightarrow> (\<exists>q. hub_reader c q (pu_transport p) \<and> left_by (told_acks q) (UnackedInputs (pu_runtime p)) = xs)"

lemma PumpIncoming_unacked:
  fixes p :: "(MultiClientLoopbackTransport, 'r) pump_state" and E and now
  assumes "hub_reader c q (pu_transport p)"
  shows "\<exists>p'. PumpIncoming multi_transport E now p = Some p'
     \<and> UnackedInputs (pu_runtime p') = left_by (told_acks q) (UnackedInputs (pu_runtime p))"
proof -
  let ?xs = "left_by (told_acks q) (UnackedInputs (pu_runtime p))" and ?handle = "handle_incoming multi_transport E now"
  have "\<exists>p'. poll_loop (pump_poll multi_transport) ?handle (p\<lparr>pu_applied := 0\<rparr>) = Some p'
      \<and> left_to_handle c ?xs p' \<and> UnackedInputs (pu_runtime p') = ?xs"
  proof (rule poll_loop_returns [where m = "\<lambda>p. length (multi_queue (pu_transport p))"])
    show "left_to_handle c ?xs (p\<lparr>pu_applied := 0\<rparr>)" using assms by (auto simp: left_to_handle_def)
  next
    fix k k' :: "(MultiClientLoopbackTransport, 'r) pump_state" and e
    assume "left_to_handle c ?xs k" and "pump_poll multi_transport k = (Some e, k')"
    then obtain q1 t where q1: "hub_reader c q1 (pu_transport k)" "left_by (told_acks q1) (UnackedInputs (pu_runtime k)) = ?xs"
      and t: "Multi_Poll (pu_transport k) = (Some e, t)" "k' = k\<lparr>pu_transport := t\<rparr>"
      by (auto simp: left_to_handle_def pump_poll_def multi_transport_def split: prod.splits)
    from hub_reader_Poll [OF q1(1)] t obtain q2 where q2: "q1 = e # q2" "hub_reader c q2 (pu_transport k')"
      by (auto split: list.splits)
    from hub_reading.handle_incoming_transport [OF q2(2), of E now e]
    have "hub_reader c q2 (pu_transport (?handle e k'))" by simp
    moreover have "left_by (told_acks q2) (UnackedInputs (pu_runtime (?handle e k'))) = ?xs"
      using q1(2) by (simp add: handle_incoming_unacked t(2) q2(1) split: option.splits)
    ultimately show "left_to_handle c ?xs (?handle e k')
        \<and> length (multi_queue (pu_transport (?handle e k'))) < length (multi_queue (pu_transport k))"
      using q1(1) by (auto simp: left_to_handle_def hub_reader_def q2(1))
  next
    fix k k' :: "(MultiClientLoopbackTransport, 'r) pump_state"
    assume "left_to_handle c ?xs k" and "pump_poll multi_transport k = (None, k')"
    then obtain q1 t where q1: "hub_reader c q1 (pu_transport k)" "left_by (told_acks q1) (UnackedInputs (pu_runtime k)) = ?xs"
      and t: "Multi_Poll (pu_transport k) = (None, t)" "k' = k\<lparr>pu_transport := t\<rparr>"
      by (auto simp: left_to_handle_def pump_poll_def multi_transport_def split: prod.splits)
    from hub_reader_Poll [OF q1(1)] t have "q1 = []" "hub_reader c [] t" by (auto split: list.splits)
    with q1 t show "left_to_handle c ?xs k' \<and> UnackedInputs (pu_runtime k') = ?xs" by (auto simp: left_to_handle_def)
  qed
  then show ?thesis by (auto simp: PumpIncoming_def)
qed

section \<open>The whole way\<close>

definition input_at_hub :: "ClientInputPacket \<Rightarrow> NetworkEnvelope" where
  "input_at_hub q = (client_envelope Ch_MovementInput Mc_ClientInput (packet_sequence q) (SerializeClientInputPacket q))
     \<lparr>ev_peerId := packet_client q\<rparr>"

lemma input_at_hub: "valid_envelope (input_at_hub q)" "message_calls (input_at_hub q) = [Call_Input q]"
proof -
  have "length (SerializeClientInputPacket q) \<le> kMaxNetworkPayloadBytes"
    by (simp add: SerializeClientInputPacket_def codec_unfold kMaxNetworkPayloadBytes_def)
  then show v: "valid_envelope (input_at_hub q)" by (simp add: valid_envelope_iff client_envelope_def input_at_hub_def)
  have "DeserializeClientInputPacket (SerializeClientInputPacket q) = Some q"
    using input_msg.dec_iff [of "SerializeClientInputPacket q" q] by simp
  then show "message_calls (input_at_hub q) = [Call_Input q]"
    using v by (simp add: message_calls_def) (simp add: input_at_hub_def client_envelope_def)
qed

lemma client_sends_input:
  assumes "mt_hub t = Some hub" and "mt_endpoint t = Endpoint_Client" and "mt_clientId t = packet_client q" and "mt_state t = Connected"
  obtains t' where "Pump_SendInput multi_transport q t = (True, t')" "mt_endpoint t' = Endpoint_Client"
    "mt_clientId t' = packet_client q" "mt_state t' = Connected" "hub_of t' = hub\<lparr>hub_toServer := hub_toServer hub @ [input_at_hub q]\<rparr>"
proof -
  have "valid_envelope (client_envelope Ch_MovementInput Mc_ClientInput (packet_sequence q) (SerializeClientInputPacket q))"
    using input_at_hub(1) [of q] by (simp add: valid_envelope_iff input_at_hub_def)
  then show ?thesis using assms that
    by (auto simp: Pump_SendInput_def multi_transport_def Multi_Send_def routed_envelope_def hub_of_def input_at_hub_def Let_def)
qed

text \<open>What every message leaves alone of a client that plays.\<close>

definition on_schedule :: "ClientId \<Rightarrow> ('t, 'r) ServerNetworkHost \<Rightarrow> ('t, 'r) ServerNetworkHost \<Rightarrow> bool" where
  "on_schedule c h k \<longleftrightarrow> c \<in> set (nh_clients k) \<and> nh_config k = nh_config h \<and> next_send c k = next_send c h"

lemma handle_message_clients:
  "set (nh_clients h) \<subseteq> set (nh_clients (handle_message T E e h))" "nh_config (handle_message T E e h) = nh_config h"
proof -
  have "set (nh_clients h) \<subseteq> set (nh_clients (HandleLoginEnvelope E e h)) \<and> nh_config (HandleLoginEnvelope E e h) = nh_config h"
    by (auto simp: HandleLoginEnvelope_def host_stat_def Let_def split_def split: option.split)
  moreover have "same_clients h (HandleInputEnvelope e h)" "same_clients h (HandleSnapshotAckEnvelope e h)"
    "same_clients h (HandleNetworkEventAckEnvelope e h)" "same_clients h (HandleTimeSyncEnvelope T e h)"
    by (simp_all add: HandleInputEnvelope_def HandleSnapshotAckEnvelope_def HandleNetworkEventAckEnvelope_def
        HandleTimeSyncEnvelope_def same_clients_def host_stat_def host_send_def2 Let_def split_def
        split: option.split prod.split bool.split)
  ultimately show "set (nh_clients h) \<subseteq> set (nh_clients (handle_message T E e h))"
    "nh_config (handle_message T E e h) = nh_config h"
    by (simp_all add: handle_message_def same_clients_def split: MessageClass.split)
qed

lemma handle_message_schedule:
  assumes "on_schedule c h k" and "next_send c h \<noteq> None"
  shows "on_schedule c h (handle_message T E e k)"
  using assms handle_message_next [of c k T E e] handle_message_clients [where h = k and T = T and E = E and e = e]
  by (auto simp: on_schedule_def)

text \<open>The pump that finds the input, and the tick after it.\<close>

lemma hub_pump_accepts:
  fixes h :: "(MultiClientLoopbackTransport, 'r) ServerNetworkHost" and E :: "'r entt_ops" and q
  defines "c \<equiv> packet_client q"
  assumes server: "hub_server 0 {} es (nh_transport h)" "registered h" and c: "c \<in> set (nh_clients h)"
    and player: "PlayerEntityForClient (host_sim h) c \<noteq> None" and q: "input_at_hub q \<in> set es"
  obtains h1 where "PumpClientMessages multi_transport E h = Some h1" "hub_host c {} [] h1" "on_schedule c h h1"
    "host_sim h1 = fold (sim_run_call E) (queue_calls es) (host_sim h)" "accepted_through c (packet_sequence q) (host_sim h1)"
proof -
  have next_c: "next_send c h \<noteq> None" using server(2) c by (auto simp: next_send_def registered_def)
  have "\<exists>h1. PumpClientMessages multi_transport E h = Some h1 \<and> registered h1 \<and> hub_server 0 {} [] (nh_transport h1)
      \<and> on_schedule c h h1 \<and> host_sim h1 = fold (sim_run_call E) (queue_calls es) (host_sim h)"
  proof (rule hub_pump_calls [OF server])
    show "on_schedule c h h" using c by (simp add: on_schedule_def)
    show "on_schedule c h (handle_message multi_transport E e k)" if "on_schedule c h k" for k e
      by (rule handle_message_schedule [OF that next_c])
    show "on_schedule c h (k\<lparr>nh_transport := t\<rparr>) = on_schedule c h k" for k t by (simp add: on_schedule_def)
  qed
  then obtain h1 where h1: "PumpClientMessages multi_transport E h = Some h1" "registered h1" "hub_server 0 {} [] (nh_transport h1)"
    "on_schedule c h h1" "host_sim h1 = fold (sim_run_call E) (queue_calls es) (host_sim h)" by blast
  have "Call_Input q \<in> set (queue_calls es)" using q input_at_hub(2) [of q] by (auto simp: queue_calls_def intro!: bexI [of _ "input_at_hub q"])
  then have "accepted_through c (packet_sequence q) (host_sim h1)"
    unfolding h1(5) c_def by (intro calls_accept) (use player in \<open>simp_all add: c_def\<close>)
  moreover have "hub_host c {} [] h1" using h1(2,3) by (simp add: host_inv_def hub_server_def)
  ultimately show ?thesis using that h1 by blast
qed

lemma hub_round_acks:
  fixes h :: "(MultiClientLoopbackTransport, 'r) ServerNetworkHost" and E :: "'r entt_ops" and q
  defines "c \<equiv> packet_client q"
  assumes server: "hub_server 0 {} es (nh_transport h)" "registered h" and c: "c \<noteq> 0" "c \<in> set (nh_clients h)"
    and player: "PlayerEntityForClient (host_sim h) c \<noteq> None" and q: "input_at_hub q \<in> set es"
    and due: "host_ShouldSendSnapshot c now h"
    and few: "few_entities E (nh_config h) (server_turn E (queue_calls es) (host_sim h))"
  obtains h1 n e where "PumpClientMessages multi_transport E h = Some h1"
    "host_sim h1 = fold (sim_run_call E) (queue_calls es) (host_sim h)"
    "accepted_last c n (host_sim h1)" "packet_sequence q \<le> n" "told_ack e = Some n"
    "hub_host c {e} [] (TickAndSendSnapshots multi_transport E now h1)"
proof -
  obtain h1 where h1: "PumpClientMessages multi_transport E h = Some h1" "hub_host c {} [] h1" "on_schedule c h h1"
    "host_sim h1 = fold (sim_run_call E) (queue_calls es) (host_sim h)" "accepted_through c (packet_sequence q) (host_sim h1)"
    using hub_pump_accepts [OF server c(2) [unfolded c_def] player [unfolded c_def] q, where E = E] unfolding c_def by metis
  have "c \<in> set (nh_clients h1)" "host_ShouldSendSnapshot c now h1"
    "few_entities E (nh_config h1) (TickFixed E (host_sim h1))"
    using due few h1(3) by (simp_all add: on_schedule_def ShouldSendSnapshot_next server_turn_def h1(4))
  note ready = this
  obtain n where n: "accepted_last c n (host_sim h1)" "packet_sequence q \<le> n" by (rule accepted_through_last [OF h1(5)])
  from tick_acks_client [OF h1(2) c(1) ready(1,2) n(1) ready(3)] obtain e where
    "told_ack e = Some n" "hub_host c {e} [] (TickAndSendSnapshots multi_transport E now h1)" by blast
  then show ?thesis by (rule that [OF h1(1,4) n])
qed

text \<open>The client's pump after that.\<close>

lemma hub_client_acked:
  fixes p :: "(MultiClientLoopbackTransport, 'q) pump_state" and h2 :: "(MultiClientLoopbackTransport, 'r) ServerNetworkHost" and c
  defines "waiting \<equiv> client_queue c (hub_of (nh_transport h2))"
  assumes "hub_host c {e} q h2" and "told_ack e = Some n"
    and "mt_endpoint t = Endpoint_Client" and "mt_clientId t = c" and "mt_state t = Connected"
  shows "\<exists>p'. PumpIncoming multi_transport E now (p\<lparr>pu_transport := t\<lparr>mt_hub := Some (hub_of (nh_transport h2))\<rparr>\<rparr>) = Some p'
     \<and> UnackedInputs (pu_runtime p') = left_by (told_acks waiting) (UnackedInputs (pu_runtime p))"
    and "n \<in> set (told_acks waiting)"
proof -
  let ?p = "p\<lparr>pu_transport := t\<lparr>mt_hub := Some (hub_of (nh_transport h2))\<rparr>\<rparr>"
  have "hub_reader c waiting (pu_transport ?p)" and e: "e \<in> set waiting"
    using assms by (auto simp: hub_reader_def host_inv_def hub_server_def hub_valid_def hub_of_def multi_queue_def incoming_def)
  from PumpIncoming_unacked [OF this(1), of E now]
  show "\<exists>p'. PumpIncoming multi_transport E now ?p = Some p'
     \<and> UnackedInputs (pu_runtime p') = left_by (told_acks waiting) (UnackedInputs (pu_runtime p))" by simp
  show "n \<in> set (told_acks waiting)" by (rule told_acks_set [OF assms(3) e])
qed

end
