(* ===== verification/Hub_Properties.thy ===== *)
theory Hub_Properties
  imports Input_Ack Client_Properties
begin

text \<open>
  The properties of a round of the server over the hub: it refines a turn of the simulation, and it tells a
  client which of its inputs it can forget.
\<close>

section \<open>A round of the server\<close>

text \<open>C10. A round of the server is a turn of the game: when the server pumps its clients' messages from the hub
  and ticks, then no message is left and its simulation is the one that runs the logins and inputs decoded from the waiting
  messages, in their order, ticks once and hands out its events; whatever else arrived, and whatever the
  server sends.\<close>

theorem server_round_refines:
  fixes h :: "(MultiClientLoopbackTransport, 'r) ServerNetworkHost" and E :: "'r entt_ops"
  assumes "hub_ok hub" and "mt_endpoint (nh_transport h) = Endpoint_Server" and "mt_state (nh_transport h) = Connected"
    and "registered h"
  shows "\<exists>h'. PumpClientMessages multi_transport E (host_on hub h) = Some h' \<and> multi_queue (nh_transport h') = []
     \<and> host_sim (TickAndSendSnapshots multi_transport E now h')
         = sim_run_call E Call_Drain (server_turn E (queue_calls (hub_toServer hub)) (host_sim h))"
proof -
  have "hub_server 0 {} (hub_toServer hub) (nh_transport (host_on hub h))" "registered (host_on hub h)"
    using assms by (simp_all add: hub_server_def host_on_def hub_valid_def multi_queue_def incoming_def)
  from server_round_turn [OF this, where E = E and now = now] obtain h' where
    "PumpClientMessages multi_transport E (host_on hub h) = Some h'" "hub_server 0 {} [] (nh_transport h')"
    "host_sim (TickAndSendSnapshots multi_transport E now h')
       = sim_run_call E Call_Drain (server_turn E (queue_calls (hub_toServer hub)) (host_sim (host_on hub h)))" by metis
  then show ?thesis by (auto simp: hub_server_def host_on_def)
qed

text \<open>A new server with a login and an input waiting for it.\<close>

definition waiting_hub :: Hub where
  "waiting_hub = CreateHub\<lparr>hub_toServer := [login_at_hub 42 5, input_at_hub (moving_packet 1 14)]\<rparr>"

definition hub_test_host :: "(MultiClientLoopbackTransport, list_registry) ServerNetworkHost" where
  "hub_test_host = new_ServerNetworkHost list_registry (CreateServer (Some CreateHub)) default_HostConfig"

lemma hub_test_host_ok: "registered hub_test_host" "mt_endpoint (nh_transport hub_test_host) = Endpoint_Server"
  "mt_state (nh_transport hub_test_host) = Connected"
  by (simp_all add: registered_def hub_test_host_def new_ServerNetworkHost_def CreateServer_def new_MultiClientLoopbackTransport_def)

theorem server_round_refines_witness:
  "\<exists>h'. PumpClientMessages multi_transport list_registry (host_on waiting_hub hub_test_host) = Some h'
     \<and> host_sim (TickAndSendSnapshots multi_transport list_registry 16 h')
         = sim_run_call list_registry Call_Drain
             (server_turn list_registry (queue_calls (hub_toServer waiting_hub)) (host_sim hub_test_host))"
proof -
  have "hub_ok waiting_hub"
    using login_at_hub(1) input_at_hub(1) by (simp add: hub_ok_def waiting_hub_def CreateHub_def client_queue_def)
  from server_round_refines [OF this hub_test_host_ok(2,3,1), where E = list_registry and now = 16] show ?thesis by blast
qed

section \<open>An input's way\<close>

text \<open>C6. An input is acknowledged: when a client that plays sends an input over the hub and a snapshot is due for
  it, then the server's next round runs what was waiting before it and then takes it (\<open>takes_input\<close>): it ignores it when
  it has accepted the same or a later sequence of this client, else it queues it for the tick and notes its sequence as
  the last accepted. Its snapshot for the client, which then waits in the hub, acknowledges the last accepted sequence
  \<open>n\<close>, which is not before the input's. The client's next pump drops from the inputs of its replay exactly those that one of
  the waiting snapshots acknowledges (\<open>left_by\<close>), so that only later inputs than the sent one are left. Whatever else
  is on its way in both directions, as long as the game has at most 900 entities or the planner sends at most 900.\<close>

theorem input_acknowledged:
  fixes h :: "(MultiClientLoopbackTransport, 'r) ServerNetworkHost" and E :: "'r entt_ops" and E' :: "'q entt_ops"
    and p :: "(MultiClientLoopbackTransport, 'q) pump_state"
  assumes "hub_ok hub" and "mt_endpoint (nh_transport h) = Endpoint_Server" and "mt_state (nh_transport h) = Connected"
    and "registered h" and "packet_client q \<noteq> 0" and "packet_client q \<in> set (nh_clients h)"
    and "PlayerEntityForClient (host_sim h) (packet_client q) \<noteq> None"
    and "host_ShouldSendSnapshot (packet_client q) now h"
    and "few_entities E (nh_config h) (server_turn E (queue_calls (hub_toServer hub @ [input_at_hub q])) (host_sim h))"
    and "mt_hub (pu_transport p) = Some hub" and "mt_endpoint (pu_transport p) = Endpoint_Client"
    and "mt_clientId (pu_transport p) = packet_client q" and "mt_state (pu_transport p) = Connected"
  shows "\<exists>t h1 hub2 n p'. Pump_SendInput multi_transport q (pu_transport p) = (True, t)
     \<and> PumpClientMessages multi_transport E (host_on (hub_of t) h) = Some h1
     \<and> takes_input q (fold (sim_run_call E) (queue_calls (hub_toServer hub)) (host_sim h)) (host_sim h1)
     \<and> hub2 = hub_of (nh_transport (TickAndSendSnapshots multi_transport E now h1))
     \<and> um_find (gs_lastAcceptedSequence (host_sim h1)) (packet_client q) = Some n \<and> packet_sequence q \<le> n
     \<and> n \<in> set (told_acks (client_queue (packet_client q) hub2))
     \<and> PumpIncoming multi_transport E' later (p\<lparr>pu_transport := t\<lparr>mt_hub := Some hub2\<rparr>\<rparr>) = Some p'
     \<and> UnackedInputs (pu_runtime p') = left_by (told_acks (client_queue (packet_client q) hub2)) (UnackedInputs (pu_runtime p))
     \<and> (\<forall>x\<in>set (UnackedInputs (pu_runtime p')). packet_sequence q < packet_sequence x)"
proof -
  let ?c = "packet_client q" and ?es = "hub_toServer hub @ [input_at_hub q]"
  obtain t where t: "Pump_SendInput multi_transport q (pu_transport p) = (True, t)" "mt_endpoint t = Endpoint_Client"
    "mt_clientId t = ?c" "mt_state t = Connected" "hub_of t = hub\<lparr>hub_toServer := ?es\<rparr>"
    using client_sends_input [OF assms(10-13)] .
  let ?h = "host_on (hub_of t) h"
  have "hub_ok (hub_of t)" using assms(1) input_at_hub(1) by (auto simp: t(5) hub_ok_def client_queue_def)
  then have server: "hub_server 0 {} ?es (nh_transport ?h)"
    using assms(2,3) by (simp add: hub_server_def host_on_def hub_valid_def multi_queue_def incoming_def t(5))
  obtain h1 n e where h1: "PumpClientMessages multi_transport E ?h = Some h1"
    "host_sim h1 = fold (sim_run_call E) (queue_calls ?es) (host_sim ?h)"
    "accepted_last ?c n (host_sim h1)" "packet_sequence q \<le> n" "told_ack e = Some n"
    "hub_host ?c {e} [] (TickAndSendSnapshots multi_transport E now h1)"
    by (rule hub_round_acks [OF server, of q now E]) (use assms(4-9) in \<open>simp_all add: host_on_def host_ShouldSendSnapshot_def\<close>)
  let ?waiting = "client_queue ?c (hub_of (nh_transport (TickAndSendSnapshots multi_transport E now h1)))"
  have "takes_input q (fold (sim_run_call E) (queue_calls (hub_toServer hub)) (host_sim h)) (host_sim h1)"
    using input_taken [OF sim_run_calls_player [OF assms(7)]] by (simp add: h1(2) input_at_hub(2) host_on_def)
  moreover obtain p' where p': "PumpIncoming multi_transport E' later (p\<lparr>pu_transport :=
      t\<lparr>mt_hub := Some (hub_of (nh_transport (TickAndSendSnapshots multi_transport E now h1)))\<rparr>\<rparr>) = Some p'"
    "UnackedInputs (pu_runtime p') = left_by (told_acks ?waiting) (UnackedInputs (pu_runtime p))"
    using hub_client_acked(1) [OF h1(6,5) t(2-4), where p = p and E = E' and now = later] by blast
  moreover have told: "n \<in> set (told_acks ?waiting)" by (rule hub_client_acked(2) [OF h1(6,5) t(2-4)])
  moreover have "\<forall>x\<in>set (UnackedInputs (pu_runtime p')). packet_sequence q < packet_sequence x"
    using told h1(4) by (auto simp: p'(2) left_by_def list_all_iff intro: le_less_trans)
  ultimately show ?thesis using t(1) h1(1,3,4) unfolding accepted_last_def by blast
qed

text \<open>For the witness: the server with the placed player, and its client on the same hub.\<close>

definition placed_hub_host :: "(MultiClientLoopbackTransport, list_registry) ServerNetworkHost" where
  "placed_hub_host = hub_test_host\<lparr>nh_runtime := (nh_runtime hub_test_host)\<lparr>sv_simulation := placed_sim\<rparr>, nh_clients := [42],
     nh_clientStateById := [(42, new_ReplicationState 42)]\<rparr>"

definition placed_hub_client :: "(MultiClientLoopbackTransport, list_registry) pump_state" where
  "placed_hub_client = \<lparr>pu_transport = (CreateClient (Some CreateHub) 42)\<lparr>mt_state := Connected\<rparr>,
     pu_runtime = pu_runtime pressed_client, pu_stats = zero_ClientSessionStats, pu_reliableEvents = [], pu_applied = 0\<rparr>"

lemma placed_hub_host_ok: "registered placed_hub_host" "mt_endpoint (nh_transport placed_hub_host) = Endpoint_Server"
  "mt_state (nh_transport placed_hub_host) = Connected" "nh_clients placed_hub_host = [42]" "host_sim placed_hub_host = placed_sim"
  "host_ShouldSendSnapshot 42 now placed_hub_host"
  using hub_test_host_ok
  by (auto simp: placed_hub_host_def registered_def um_ok_def new_ReplicationState_def host_ShouldSendSnapshot_def
      ShouldSendSnapshot_state_def)

lemma placed_hub_few: "few_entities list_registry config (server_turn list_registry [Call_Input (moving_packet 1 14)] placed_sim)"
proof -
  have "placed_entities list_registry (server_turn list_registry [Call_Input (moving_packet 1 14)] placed_sim) = 1" by code_simp
  then show ?thesis by (simp add: few_entities_def)
qed

theorem input_acknowledged_witness:
  "\<exists>t h1 p'. Pump_SendInput multi_transport (moving_packet 1 14) (pu_transport placed_hub_client) = (True, t)
     \<and> PumpClientMessages multi_transport list_registry (host_on (hub_of t) placed_hub_host) = Some h1
     \<and> PumpIncoming multi_transport list_registry 20 (placed_hub_client\<lparr>pu_transport :=
         t\<lparr>mt_hub := Some (hub_of (nh_transport (TickAndSendSnapshots multi_transport list_registry 16 h1)))\<rparr>\<rparr>) = Some p'
     \<and> moving_packet 1 14 \<notin> set (UnackedInputs (pu_runtime p'))"
proof -
  have "hub_ok CreateHub" by (simp add: hub_ok_def CreateHub_def client_queue_def)
  moreover have "packet_client (moving_packet 1 14) = 42" by (simp add: moving_packet_def)
  moreover have "queue_calls (hub_toServer CreateHub @ [input_at_hub (moving_packet 1 14)]) = [Call_Input (moving_packet 1 14)]"
    by (simp add: input_at_hub(2) CreateHub_def)
  moreover have "mt_hub (pu_transport placed_hub_client) = Some CreateHub" "mt_endpoint (pu_transport placed_hub_client) = Endpoint_Client"
    "mt_clientId (pu_transport placed_hub_client) = 42" "mt_state (pu_transport placed_hub_client) = Connected"
    by (simp_all add: placed_hub_client_def CreateClient_def new_MultiClientLoopbackTransport_def)
  ultimately show ?thesis
    using input_acknowledged [of CreateHub placed_hub_host "moving_packet 1 14" 16 list_registry placed_hub_client, where
        E' = list_registry and later = 20] placed_hub_host_ok placed_hub_few placed_sim_valid(3) by force
qed

end
