(* ===== verification/Spec2Isabelle.thy ===== *)
theory Spec2Isabelle
  imports Game_Properties Network_Properties Server_Properties Client_Properties Client_Host_Properties Render_Properties
    Hub_Properties
begin

text \<open>
  Brawololo, a server-authoritative multiplayer game in C++: fixed-point game logic that the server runs
  and every client predicts with (\<open>src/GameLogic\<close>), a networking library with in-memory and data-channel
  transports (\<open>src/Networking\<close>), the server (\<open>src/Server\<close>) and the client (\<open>src/Client\<close>) with its
  window, and the programs made of them.

  A client queues numbered inputs, predicts its own player with them and sends them in envelopes over a
  transport. The server's host decodes them, feeds the simulation, ticks it, and sends every client a
  snapshot of what it may see, planned against the last snapshot that client acknowledged, and the events
  of the tick, which it resends until they are acknowledged. The client applies a snapshot, drops the
  inputs it acknowledges, replays the rest, and interpolates the other players for the view.

  \<^bold>\<open>Conventions.\<close> A struct or class is a record with the source's field names behind a two-letter prefix,
  an enumeration or variant a datatype, an integer a word of its width (\<open>size_t\<close> counts of elements are
  natural numbers), \<open>std::optional\<close> is \<open>option\<close>, \<open>std::unordered_map\<close> an association list with distinct
  keys (\<open>umap\<close>, in \<open>Prelude\<close>), \<open>std::stable_sort\<close> the insertion sort of \<open>Prelude\<close>. A method takes the
  object's record last and returns it updated. An interface class is a record of its operations
  (\<open>transport_ops\<close>, \<open>session_ops\<close>), and an object behind a reference is a field that is loaded from the
  owner for the time of a call. A loop that the call itself cannot bound (\<open>poll_loop\<close>, \<open>tick_loop\<close>,
  \<open>window_loop\<close>) is a \<open>partial_function\<close>, so that not ending is \<open>None\<close>; the theorems then say that it ends. There
  is no fuel.

  \<^bold>\<open>Game logic.\<close> \<open>Game_Types\<close> has the message structs and the fixed-point helpers; \<open>Map_Chunks\<close> the
  map; \<open>Registry\<close> the components and the interface of the EnTT registry; \<open>Simulation\<close> the class
  \<open>GameSimulation\<close> with its systems (\<open>Simulation.cpp\<close>, \<open>SimulationMovement.cpp\<close>, \<open>SimulationCombat.cpp\<close>),
  \<open>Sim_Snapshot\<close> its \<open>BuildSnapshot\<close> and \<open>ApplySnapshot\<close>; \<open>Sim_Steps\<close>, \<open>Sim_Invariants\<close>, \<open>Sim_Rules\<close> and
  \<open>Sim_Replication\<close> prove the invariant \<open>sim_ok\<close> step by step, for every reachable simulation, the combat
  and movement rules, and what snapshots hold and do. \<open>Snapshot_Store\<close> (baselines and lag compensation),
  \<open>Snapshot_Delta\<close>, \<open>Replication_Planner\<close>, \<open>Interest\<close>, \<open>Time_Sync\<close>, \<open>Network_Protocol\<close> and
  \<open>Network_Events\<close> follow the headers of the same names. \<open>Serialization\<close> has the message encodings;
  \<open>Binary_Reader\<close> and \<open>Message_Codecs\<close> prove each exact, through the locales \<open>field_codec\<close> and
  \<open>message_codec\<close>. \<open>Game_Properties\<close> holds the properties.

  \<^bold>\<open>Networking.\<close> \<open>Packet_Codec\<close> and \<open>Rtc_Signaling\<close> are the two wire formats; \<open>Transport\<close> is
  \<open>ITransport\<close> with its contract, the locale \<open>transport\<close> over \<open>sending\<close> (what a handler needs), interpreted
  by \<open>Loopback\<close>, \<open>Multi_Client\<close> and \<open>Kcp_Transport\<close>;
  \<open>Loopback_Pair\<close> follows what two loopback endpoints exchange; \<open>Rtc_Signaling_Client\<close>
  and \<open>Rtc_Data_Channel\<close> are the signaling and data-channel backends with their locales; \<open>Kcp_Pumped\<close> the
  transport that moves signals and frames between them; \<open>Kcp_Pair\<close> the in-memory pair with its handshake
  and its refinement of two queues; \<open>Kcp_States\<close> the reachable states of one transport.
  \<open>Kcp_Pumped_Contract\<close> shows that the pumped transport keeps the transport contract over any backends that
  keep theirs. \<open>Network_Properties\<close> holds the properties.

  \<^bold>\<open>Server.\<close> \<open>Server_Replication\<close> is the state kept for each client, \<open>Server_Runtime\<close> the simulation with
  its history and the scripted clients, \<open>Server_Host\<close> the message handlers, reliable events and snapshots
  of \<open>ServerNetworkHost.cpp\<close>, \<open>Server_App\<close> the tick loop with the invariant of the host; \<open>Server_Rules\<close> has
  the lemmas on acknowledgements, planned snapshots and resends. \<open>Reliable_Events\<close> compares the events
  pending for a client with a specification over the calls on the host (\<open>outstanding_call\<close>): those it was sent and has
  not acknowledged. \<open>Server_Reachable\<close> is the host as a step
  relation, over any transport and any bytes that arrive, and carries the invariant of the simulation over
  to it. \<open>Server_Properties\<close> holds the other properties.

  \<^bold>\<open>Client.\<close> \<open>Client_Presentation\<close> is the input history and the interpolation, \<open>Client_Runtime\<close> the
  prediction, \<open>Client_Pump\<close> the message pump, \<open>Client_Session\<close> the interface \<open>IClientSession\<close> with its
  contract, the locale \<open>client_session\<close>, with the preview and the remote session, \<open>Client_InProcess\<close> the
  session that holds its own server, \<open>Client_App\<close> the application, \<open>Client_View\<close> the view frame and
  \<open>Client_Frame\<close> the clock, the logs and one frame. \<open>Client_Remote\<close> interprets the session contract over
  every transport. \<open>Server_Client\<close> joins the server's planning, the wire format and the client's handling.
  \<open>Prediction\<close> compares the client's replay of its inputs with the server's ticks: both steer the player's
  motion by the same function (\<open>steer\<close>), and combat leaves that motion alone (\<open>steady\<close>). The server moves a
  player once in each tick, by the last of its inputs (\<open>tick_motion\<close>), and the replay once for each input, so
  they agree when each tick gets one input (\<open>plays\<close>).
  \<open>Client_Properties\<close> holds the properties.

  \<^bold>\<open>Window and programs.\<close> \<open>Scene_Renderer\<close> is what \<open>RaylibSceneRenderer.cpp\<close> and \<open>RaylibDebugOverlay.cpp\<close>
  draw, as the list of their calls into the drawing library. \<open>Client_Host\<close> is the window, the sampled
  input and the outer loop of \<open>RaylibClientHost.cpp\<close> and \<open>RaylibGameView.cpp\<close>, with \<open>main.cpp\<close> and
  \<open>browser_main.cpp\<close>, and a check of the order of drawing calls (\<open>draw_modes\<close>). \<open>Programs\<close> has the \<open>main\<close>
  functions without a window; a program's value is its exit code with its output. \<open>Program_Properties\<close>,
  \<open>Client_Host_Properties\<close> and \<open>Render_Properties\<close> show that every program ends and what is drawn. \<open>Hub_Join\<close>
  follows one login through client, hub, server and back until the client is connected. \<open>Server_Turns\<close> reads
  a round of the server over the hub as a turn of the simulation, \<open>Input_Ack\<close> follows an input until the
  client forgets it, and \<open>Hub_Properties\<close> holds the properties of both.

  \<^bold>\<open>Parameters.\<close> The EnTT registry is third-party code: the record \<open>entt_ops\<close>, with the documented laws of
  creation, access and views as the hypothesis \<open>entt_laws\<close>, which the executable \<open>list_registry\<close> satisfies.
  Floating-point arithmetic is the record \<open>float_ops\<close> (\<open>Floats\<close>) without any law, so what is proved holds for
  IEEE arithmetic with its rounding, infinities and NaN; only the part of \<open>tiles_inside_map\<close> that says that no visible tile
  is missing is for exact arithmetic (\<open>exact_floats\<close>, which the real numbers satisfy). The aim of the scripted clients is \<open>driver_aim\<close> over
  it, and theorems that take a function \<open>aim\<close> hold for any. The window library, the mouse, the keyboard and
  the steady clock are functions on a state of the outside world, the record \<open>raylib_ops\<close>; \<open>raylib_laws\<close>
  says that drawing calls add to the drawing and that the user closes the window after some number of
  frames. \<open>patient_user\<close> is an instance.

  \<^bold>\<open>Bounds.\<close> Counters wrap at their width in the definitions. Where a property needs room it says so: entity
  identifiers and event identifiers must be left of the 2^32, a client may queue fewer than 2^32 inputs (a
  window stays open for fewer than 2^28 frames of at most eight inputs each), and the resend schedule is
  exact while the 64-bit times do not wrap.

  \<^bold>\<open>Not modelled.\<close> raylib, EnTT and the test framework are fetched by the build, and Emscripten's main loop,
  which never returns to the browser program, is modelled by the frames it asks for (\<open>browser_frames\<close>).
  libdatachannel and KCP are not in the repository; the backends that would use them report failure there,
  and are modelled as such. The rounding of floating-point operations has no model, so nothing is shown
  about where on the screen an entity appears.
\<close>

end
